(* ===== verification/Prelude.thy ===== *)
theory Prelude
  imports
    Main
    "HOL-Library.Char_ord"
    "HOL-Library.List_Lexorder"
    "HOL-Library.Sublist"
begin

text \<open>
  The shared vocabulary of the development. Go strings are byte sequences, so they are
  \<^typ>\<open>string\<close> (a list of 8-bit characters) and \<open>len\<close> is \<^const>\<open>length\<close>; an error return
  is the left side of a sum. The theory holds the pieces of Go's standard library that the
  program calls (\<open>strings.TrimSpace\<close>, \<open>strings.Cut\<close>, \<open>strings.ContainsAny\<close>,
  \<open>strconv.ParseUint\<close>, \<open>strconv.Itoa\<close>, \<open>strings.Join\<close>), the loops that
  stop at the first failing element, and the generic lemmas about them. Lemmas that the
  component proofs rewrite with are collected in \<open>go_simps\<close>; facts about character classes are
  in \<open>class_simps\<close>. Two interfaces are stated here because several components implement them:
  names drawn from a safe alphabet (\<open>safe_names\<close>) and transition systems with an inductive
  invariant (\<open>invariant_system\<close>).
\<close>

named_theorems go_simps
named_theorems class_simps

section \<open>Results and loops that stop at the first error\<close>

type_synonym ('e, 'a) result = "'e + 'a"

fun rbind :: "('e, 'a) result \<Rightarrow> ('a \<Rightarrow> ('e, 'b) result) \<Rightarrow> ('e, 'b) result" where
  "rbind (Inl e) f = Inl e"
| "rbind (Inr a) f = f a"

fun is_ok :: "('e, 'a) result \<Rightarrow> bool" where
  "is_ok (Inl e) = False"
| "is_ok (Inr a) = True"

text \<open>\<open>for _, x := range xs { if err := f(x); err != nil { return err } }\<close>\<close>

fun first_error :: "('a \<Rightarrow> 'e option) \<Rightarrow> 'a list \<Rightarrow> 'e option" where
  "first_error f [] = None"
| "first_error f (x # xs) = (case f x of Some e \<Rightarrow> Some e | None \<Rightarrow> first_error f xs)"

text \<open>The same loop where the body produces a value that is appended to a slice.\<close>

fun collect :: "('a \<Rightarrow> ('e, 'b) result) \<Rightarrow> 'a list \<Rightarrow> ('e, 'b list) result" where
  "collect f [] = Inr []"
| "collect f (x # xs) =
     (case f x of Inl e \<Rightarrow> Inl e
      | Inr y \<Rightarrow> (case collect f xs of Inl e \<Rightarrow> Inl e | Inr ys \<Rightarrow> Inr (y # ys)))"

text \<open>The \<open>seen\<close>-map idiom: keep the first occurrence of each element, in order.\<close>

fun dedup_seen :: "'a list \<Rightarrow> 'a list \<Rightarrow> 'a list" where
  "dedup_seen seen [] = []"
| "dedup_seen seen (x # xs) =
     (if x \<in> set seen then dedup_seen seen xs else x # dedup_seen (x # seen) xs)"

text \<open>
  Statements over a threaded state: an operation returns its error, if any, and the state it left,
  which is not the state it started from when it fails halfway. \<open>andThen\<close> is two statements
  with an early return between them, \<open>each\<close> the loop that returns at the first error.
\<close>

type_synonym ('e, 's) action = "'s \<Rightarrow> 'e option \<times> 's"

definition done_ok :: "('e, 's) action" where
  "done_ok s = (None, s)"

definition fail_with :: "'e \<Rightarrow> ('e, 's) action" where
  "fail_with e s = (Some e, s)"

definition andThen :: "('e, 's) action \<Rightarrow> ('e, 's) action \<Rightarrow> ('e, 's) action" where
  "andThen f g s = (case f s of (Some e, s') \<Rightarrow> (Some e, s') | (None, s') \<Rightarrow> g s')"

fun each :: "('a \<Rightarrow> ('e, 's) action) \<Rightarrow> 'a list \<Rightarrow> ('e, 's) action" where
  "each f [] = done_ok"
| "each f (x # xs) = andThen (f x) (each f xs)"

definition onlyIf :: "bool \<Rightarrow> ('e, 's) action \<Rightarrow> ('e, 's) action" where
  "onlyIf b f = (if b then f else done_ok)"

section \<open>Characters\<close>

definition is_lower :: "char \<Rightarrow> bool" where
  "is_lower c \<longleftrightarrow> CHR ''a'' \<le> c \<and> c \<le> CHR ''z''"

definition is_upper :: "char \<Rightarrow> bool" where
  "is_upper c \<longleftrightarrow> CHR ''A'' \<le> c \<and> c \<le> CHR ''Z''"

definition is_digit :: "char \<Rightarrow> bool" where
  "is_digit c \<longleftrightarrow> CHR ''0'' \<le> c \<and> c \<le> CHR ''9''"

definition is_alnum :: "char \<Rightarrow> bool" where
  "is_alnum c \<longleftrightarrow> is_lower c \<or> is_upper c \<or> is_digit c"

text \<open>Printable, non-blank ASCII.\<close>

definition is_graph :: "char \<Rightarrow> bool" where
  "is_graph c \<longleftrightarrow> CHR 0x21 \<le> c \<and> c \<le> CHR 0x7E"

definition NUL :: char where "NUL = CHR 0x00"

abbreviation CR :: char where "CR \<equiv> CHR 0x0D"
abbreviation LF :: char where "LF \<equiv> CHR 0x0A"

definition upper_char :: "char \<Rightarrow> char" where
  "upper_char c = (if is_lower c then char_of (of_char c - (32 :: nat)) else c)"

definition lower_char :: "char \<Rightarrow> char" where
  "lower_char c = (if is_upper c then char_of (of_char c + (32 :: nat)) else c)"

section \<open>Go's strings package\<close>

text \<open>
  The UTF-8 encodings of the code points that \<open>unicode.IsSpace\<close> accepts. Scanning forward, the
  first rune of a string is one of them exactly when the encoding is a prefix; scanning backward,
  the last rune is one exactly when the encoding is a suffix, since the decoder backs up to the
  nearest byte that can start a rune.
\<close>

definition space_runes :: "string list" where
  "space_runes =
     [[CHR 0x09], [CHR 0x0A], [CHR 0x0B], [CHR 0x0C], [CHR 0x0D], [CHR 0x20],
      [CHR 0xC2, CHR 0x85], [CHR 0xC2, CHR 0xA0], [CHR 0xE1, CHR 0x9A, CHR 0x80],
      [CHR 0xE2, CHR 0x80, CHR 0x80], [CHR 0xE2, CHR 0x80, CHR 0x81],
      [CHR 0xE2, CHR 0x80, CHR 0x82], [CHR 0xE2, CHR 0x80, CHR 0x83],
      [CHR 0xE2, CHR 0x80, CHR 0x84], [CHR 0xE2, CHR 0x80, CHR 0x85],
      [CHR 0xE2, CHR 0x80, CHR 0x86], [CHR 0xE2, CHR 0x80, CHR 0x87],
      [CHR 0xE2, CHR 0x80, CHR 0x88], [CHR 0xE2, CHR 0x80, CHR 0x89],
      [CHR 0xE2, CHR 0x80, CHR 0x8A], [CHR 0xE2, CHR 0x80, CHR 0xA8],
      [CHR 0xE2, CHR 0x80, CHR 0xA9], [CHR 0xE2, CHR 0x80, CHR 0xAF],
      [CHR 0xE2, CHR 0x81, CHR 0x9F], [CHR 0xE3, CHR 0x80, CHR 0x80]]"

function strip :: "string list \<Rightarrow> string \<Rightarrow> string" where
  "strip ps s =
     (case find (\<lambda>p. p \<noteq> [] \<and> prefix p s) ps of
        None \<Rightarrow> s
      | Some p \<Rightarrow> strip ps (drop (length p) s))"
  by pat_completeness auto
termination
  by (relation "measure (\<lambda>(ps, s). length s)")
    (auto simp: find_Some_iff prefix_def split: option.splits)

declare strip.simps [simp del]

definition TrimSpace :: "string \<Rightarrow> string" where
  "TrimSpace s = rev (strip (map rev space_runes) (rev (strip space_runes s)))"

definition blank :: "string \<Rightarrow> bool" where
  "blank s \<longleftrightarrow> TrimSpace s = []"

definition ContainsAny :: "string \<Rightarrow> string \<Rightarrow> bool" where
  "ContainsAny s cs \<longleftrightarrow> list_ex (\<lambda>c. c \<in> set cs) s"

text \<open>\<open>strings.Cut(s, sep)\<close> for a one-byte separator: before, after, found.\<close>

definition Cut :: "string \<Rightarrow> char \<Rightarrow> string \<times> string \<times> bool" where
  "Cut s sep =
     (if sep \<in> set s
      then (takeWhile (\<lambda>c. c \<noteq> sep) s, tl (dropWhile (\<lambda>c. c \<noteq> sep) s), True)
      else (s, [], False))"

definition TrimPrefix :: "string \<Rightarrow> string \<Rightarrow> string" where
  "TrimPrefix s p = (if prefix p s then drop (length p) s else s)"

definition TrimSuffix :: "string \<Rightarrow> string \<Rightarrow> string" where
  "TrimSuffix s p = (if suffix p s then take (length s - length p) s else s)"

fun Join :: "string list \<Rightarrow> string \<Rightarrow> string" where
  "Join [] sep = []"
| "Join [x] sep = x"
| "Join (x # y # zs) sep = x @ sep @ Join (y # zs) sep"

text \<open>\<open>strings.Split(s, sep)\<close> for a one-byte separator: never empty.\<close>

fun Split :: "string \<Rightarrow> char \<Rightarrow> string list" where
  "Split [] sep = [[]]"
| "Split (c # s) sep =
     (if c = sep then [] # Split s sep
      else (case Split s sep of [] \<Rightarrow> [[c]] | w # ws \<Rightarrow> (c # w) # ws))"

text \<open>\<open>strings.ReplaceAll(s, a, b)\<close> for single bytes.\<close>

definition replace_char :: "char \<Rightarrow> char \<Rightarrow> string \<Rightarrow> string" where
  "replace_char a b s = map (\<lambda>c. if c = a then b else c) s"

section \<open>Decimal numbers\<close>

definition digit_char :: "nat \<Rightarrow> char" where
  "digit_char d = char_of (48 + d)"

definition digit_val :: "char \<Rightarrow> nat" where
  "digit_val c = of_char c - 48"

fun Itoa :: "nat \<Rightarrow> string" where
  "Itoa n = (if n < 10 then [digit_char n] else Itoa (n div 10) @ [digit_char (n mod 10)])"

declare Itoa.simps [simp del]

definition digits_val :: "string \<Rightarrow> nat" where
  "digits_val s = foldl (\<lambda>n c. 10 * n + digit_val c) 0 s"

text \<open>
  \<open>strconv.ParseUint(s, 10, bits)\<close>: digits only (base 10 admits no sign and no underscore),
  at least one, and a range error at \<open>2 ^ bits\<close>.
\<close>

definition ParseUint :: "nat \<Rightarrow> string \<Rightarrow> nat option" where
  "ParseUint bits s =
     (if s \<noteq> [] \<and> list_all is_digit s \<and> digits_val s < 2 ^ bits then Some (digits_val s) else None)"

section \<open>Lemmas on results and loops\<close>

lemma rbind_eq_Inr [go_simps]: "rbind r f = Inr b \<longleftrightarrow> (\<exists>a. r = Inr a \<and> f a = Inr b)"
  by (cases r) auto

lemma rbind_eq_Inl [go_simps]:
  "rbind r f = Inl e \<longleftrightarrow> r = Inl e \<or> (\<exists>a. r = Inr a \<and> f a = Inl e)"
  by (cases r) auto

lemma is_ok_iff [go_simps]: "is_ok r \<longleftrightarrow> (\<exists>a. r = Inr a)"
  by (cases r) auto

lemma first_error_None [go_simps]: "first_error f xs = None \<longleftrightarrow> (\<forall>x \<in> set xs. f x = None)"
  by (induction xs) (auto split: option.splits)

lemma first_error_Some:
  "first_error f xs = Some e \<Longrightarrow> \<exists>x \<in> set xs. f x = Some e"
  by (induction xs) (auto split: option.splits)

lemma collect_Inr_imp: "collect f xs = Inr ys \<Longrightarrow> list_all2 (\<lambda>x y. f x = Inr y) xs ys"
  by (induction xs arbitrary: ys) (auto split: sum.splits)

lemma collect_Inr_intro: "list_all2 (\<lambda>x y. f x = Inr y) xs ys \<Longrightarrow> collect f xs = Inr ys"
  by (induction rule: list_all2_induct) auto

lemma collect_Inr [go_simps]:
  "collect f xs = Inr ys \<longleftrightarrow> list_all2 (\<lambda>x y. f x = Inr y) xs ys"
  using collect_Inr_imp collect_Inr_intro by blast

lemma collect_Inl_imp: "collect f xs = Inl e \<Longrightarrow> \<exists>x \<in> set xs. f x = Inl e"
  by (induction xs) (auto split: sum.splits)

lemma set_dedup_seen [simp]: "set (dedup_seen seen xs) = set xs - set seen"
  by (induction seen xs rule: dedup_seen.induct) auto

lemma distinct_dedup_seen [simp]: "distinct (dedup_seen seen xs)"
  by (induction seen xs rule: dedup_seen.induct) auto

lemma dedup_seen_id: "distinct xs \<Longrightarrow> set xs \<inter> set seen = {} \<Longrightarrow> dedup_seen seen xs = xs"
  by (induction xs arbitrary: seen) auto

section \<open>Lemmas on actions\<close>

named_theorems act_simps

lemma done_ok_eq [act_simps]: "done_ok s = (r, t) \<longleftrightarrow> r = None \<and> t = s"
  by (auto simp: done_ok_def)

lemma fail_with_eq [act_simps]: "fail_with e s = (r, t) \<longleftrightarrow> r = Some e \<and> t = s"
  by (auto simp: fail_with_def)

lemma andThen_None [act_simps]:
  "andThen f g s = (None, t) \<longleftrightarrow> (\<exists>u. f s = (None, u) \<and> g u = (None, t))"
  by (auto simp: andThen_def split: prod.splits option.splits)

lemma andThen_Some [act_simps]:
  "andThen f g s = (Some e, t) \<longleftrightarrow>
     f s = (Some e, t) \<or> (\<exists>u. f s = (None, u) \<and> g u = (Some e, t))"
  by (auto simp: andThen_def split: prod.splits option.splits)

lemma onlyIf_eq [act_simps]: "onlyIf b f s = (r, t) \<longleftrightarrow> (if b then f s = (r, t) else r = None \<and> t = s)"
  by (auto simp: onlyIf_def done_ok_def)

lemma andThen_cases:
  assumes "andThen f g s = (r, t)"
  obtains (stop) e where "f s = (Some e, t)" "r = Some e"
  | (go) u where "f s = (None, u)" "g u = (r, t)"
  using assms by (auto simp: andThen_def split: prod.splits option.splits)

lemma each_append: "each f (xs @ ys) = andThen (each f xs) (each f ys)"
  by (induction xs) (auto simp: andThen_def done_ok_def fun_eq_iff split: prod.splits option.splits)

text \<open>What every action of a composition keeps, the composition keeps.\<close>

definition keeps :: "('s \<Rightarrow> 's \<Rightarrow> bool) \<Rightarrow> ('e, 's) action \<Rightarrow> bool" where
  "keeps R f \<longleftrightarrow> (\<forall>s. R s (snd (f s)))"

lemma keepsD: "keeps R f \<Longrightarrow> f s = (r, t) \<Longrightarrow> R s t"
  unfolding keeps_def by (metis snd_conv)

lemma keeps_done [intro]: "reflp R \<Longrightarrow> keeps R done_ok"
  by (simp add: keeps_def done_ok_def reflpD)

lemma keeps_fail [intro]: "reflp R \<Longrightarrow> keeps R (fail_with e)"
  by (simp add: keeps_def fail_with_def reflpD)

lemma keeps_andThen [intro]:
  assumes "transp R" "keeps R f" "keeps R g"
  shows "keeps R (andThen f g)"
proof -
  have "R s (snd (andThen f g s))" for s
  proof (cases "f s")
    case (Pair r u)
    then have "R s u" "R u (snd (g u))" using assms(2,3) by (auto simp: keeps_def dest: spec [of _ s])
    with Pair assms(1) show ?thesis by (auto simp: andThen_def split: option.splits intro: transpD)
  qed
  then show ?thesis by (simp add: keeps_def)
qed

lemma keeps_each [intro]:
  "reflp R \<Longrightarrow> transp R \<Longrightarrow> (\<And>x. x \<in> set xs \<Longrightarrow> keeps R (f x)) \<Longrightarrow> keeps R (each f xs)"
  by (induction xs) auto

lemma keeps_onlyIf [intro]: "reflp R \<Longrightarrow> (b \<Longrightarrow> keeps R f) \<Longrightarrow> keeps R (onlyIf b f)"
  by (auto simp: onlyIf_def)

text \<open>The same for what holds whenever a composition succeeds.\<close>

definition ensures :: "('s \<Rightarrow> 's \<Rightarrow> bool) \<Rightarrow> ('e, 's) action \<Rightarrow> bool" where
  "ensures R f \<longleftrightarrow> (\<forall>s t. f s = (None, t) \<longrightarrow> R s t)"

lemma ensuresD: "ensures R f \<Longrightarrow> f s = (None, t) \<Longrightarrow> R s t"
  by (simp add: ensures_def)

lemma ensures_keeps: "keeps R f \<Longrightarrow> ensures R f"
  by (auto simp: ensures_def intro: keepsD)

lemma ensures_done [intro]: "reflp R \<Longrightarrow> ensures R done_ok"
  by (simp add: ensures_def done_ok_def reflpD)

lemma ensures_fail [intro]: "ensures R (fail_with e)"
  by (simp add: ensures_def fail_with_def)

lemma ensures_andThen [intro]:
  "transp R \<Longrightarrow> ensures R f \<Longrightarrow> ensures R g \<Longrightarrow> ensures R (andThen f g)"
  unfolding ensures_def andThen_None by (metis transpD)

lemma ensures_each [intro]:
  "reflp R \<Longrightarrow> transp R \<Longrightarrow> (\<And>x. x \<in> set xs \<Longrightarrow> ensures R (f x)) \<Longrightarrow> ensures R (each f xs)"
  by (induction xs) auto

lemma ensures_onlyIf [intro]: "reflp R \<Longrightarrow> (b \<Longrightarrow> ensures R f) \<Longrightarrow> ensures R (onlyIf b f)"
  by (auto simp: onlyIf_def)

section \<open>Lemmas on characters\<close>

lemma of_char_lt_256 [simp]: "(of_char c :: nat) < 256"
  by (metis nat_of_char_less_256)

lemma alnum_graph [class_simps]:
  "is_lower c \<Longrightarrow> is_graph c" "is_upper c \<Longrightarrow> is_graph c" "is_digit c \<Longrightarrow> is_graph c"
  by (auto simp: is_lower_def is_upper_def is_digit_def is_graph_def less_eq_char_def)

lemma is_digit_code: "is_digit c \<longleftrightarrow> 48 \<le> (of_char c :: nat) \<and> (of_char c :: nat) \<le> 57"
  by (simp add: is_digit_def less_eq_char_def)

lemma digit_char_is_digit [simp]: "d < 10 \<Longrightarrow> is_digit (digit_char d)"
  by (simp add: is_digit_code digit_char_def)

lemma digit_val_char [simp]: "d < 10 \<Longrightarrow> digit_val (digit_char d) = d"
  by (simp add: digit_val_def digit_char_def)

section \<open>Lemmas on trimming\<close>

lemma strip_suffix: "suffix (strip ps s) s"
proof (induction ps s rule: strip.induct)
  case (1 ps s)
  show ?case
  proof (cases "find (\<lambda>p. p \<noteq> [] \<and> prefix p s) ps")
    case None
    then show ?thesis by (simp add: strip.simps [of ps s])
  next
    case (Some p)
    with 1 have "suffix (strip ps (drop (length p) s)) (drop (length p) s)" by blast
    moreover have "suffix (drop (length p) s) s" by (rule suffix_drop)
    ultimately show ?thesis using Some by (simp add: strip.simps [of ps s]) 
  qed
qed

lemma strip_none: "p \<in> set ps \<Longrightarrow> p \<noteq> [] \<Longrightarrow> \<not> prefix p (strip ps s)"
proof (induction ps s rule: strip.induct)
  case (1 ps s)
  show ?case
  proof (cases "find (\<lambda>p. p \<noteq> [] \<and> prefix p s) ps")
    case None
    then have "strip ps s = s" by (simp add: strip.simps [of ps s])
    with None 1 show ?thesis by (auto simp: find_None_iff)
  next
    case (Some q)
    with 1 show ?thesis by (simp add: strip.simps [of ps s])
  qed
qed

lemma strip_fix: "(\<And>p. p \<in> set ps \<Longrightarrow> p \<noteq> [] \<Longrightarrow> \<not> prefix p s) \<Longrightarrow> strip ps s = s"
  by (subst strip.simps) (auto simp: find_None_iff split: option.splits dest: find_Some_iff [THEN iffD1])

lemma strip_Nil [simp]: "strip ps [] = []"
  by (rule strip_fix) simp

lemma TrimSpace_Nil [simp]: "TrimSpace [] = []"
  by (simp add: TrimSpace_def)

lemma TrimSpace_fix:
  assumes "\<And>p. p \<in> set space_runes \<Longrightarrow> \<not> prefix p s"
    and "\<And>p. p \<in> set space_runes \<Longrightarrow> \<not> suffix p s"
  shows "TrimSpace s = s"
proof -
  have "strip space_runes s = s" using assms(1) by (rule strip_fix)
  moreover have "strip (map rev space_runes) (rev s) = rev s"
    using assms(2) by (intro strip_fix) (auto simp: suffix_to_prefix)
  ultimately show ?thesis by (simp add: TrimSpace_def)
qed

lemma TrimSpace_none:
  assumes "p \<in> set space_runes" "p \<noteq> []"
  shows "\<not> prefix p (TrimSpace s)" "\<not> suffix p (TrimSpace s)"
proof -
  let ?l = "strip space_runes s"
  have "suffix (rev (TrimSpace s)) (rev ?l)"
    using strip_suffix [of "map rev space_runes" "rev ?l"] by (simp add: TrimSpace_def)
  then have "prefix (TrimSpace s) ?l" by (simp add: suffix_to_prefix)
  then show "\<not> prefix p (TrimSpace s)"
    using strip_none [OF assms, of s] prefix_order.trans by blast
  have "\<not> prefix (rev p) (strip (map rev space_runes) (rev ?l))"
    using assms by (intro strip_none) auto
  then show "\<not> suffix p (TrimSpace s)" by (simp add: TrimSpace_def suffix_to_prefix)
qed

lemma space_runes_nonempty [simp]: "[] \<notin> set space_runes"
  by (simp add: space_runes_def)

lemma TrimSpace_idem [simp]: "TrimSpace (TrimSpace s) = TrimSpace s"
  by (rule TrimSpace_fix) (metis TrimSpace_none space_runes_nonempty)+

lemma space_runes_not_graph:
  "p \<in> set space_runes \<Longrightarrow> p \<noteq> [] \<and> \<not> is_graph (hd p) \<and> \<not> is_graph (last p)"
  unfolding space_runes_def by (auto simp: is_graph_def)

lemma TrimSpace_graph: "list_all is_graph s \<Longrightarrow> TrimSpace s = s"
proof (rule TrimSpace_fix)
  fix p assume g: "list_all is_graph s" and p: "p \<in> set space_runes"
  show "\<not> prefix p s"
    using g space_runes_not_graph [OF p] by (cases p) (auto simp: prefix_def)
  show "\<not> suffix p s"
    using g space_runes_not_graph [OF p] by (cases p rule: rev_cases) (auto simp: suffix_def)
qed

lemma set_TrimSpace: "set (TrimSpace s) \<subseteq> set s"
proof -
  have "set (TrimSpace s) \<subseteq> set (strip space_runes s)"
    using strip_suffix [of "map rev space_runes" "rev (strip space_runes s)"]
    by (auto simp: TrimSpace_def dest!: set_mono_suffix)
  also have "\<dots> \<subseteq> set s" by (rule set_mono_suffix [OF strip_suffix])
  finally show ?thesis .
qed

lemma blank_iff_not_graph: "list_all is_graph s \<Longrightarrow> blank s \<longleftrightarrow> s = []"
  by (simp add: blank_def TrimSpace_graph)

lemma blank_Nil [simp]: "blank []"
  by (simp add: blank_def)

lemma blank_TrimSpace [simp]: "blank (TrimSpace s) \<longleftrightarrow> blank s"
  by (simp add: blank_def)

section \<open>Lemmas on splitting and joining\<close>

lemma Split_nonempty [simp]: "Split s c \<noteq> []"
  by (induction s) (auto split: list.splits)

lemma Join_Cons: "xs \<noteq> [] \<Longrightarrow> Join (x # xs) sep = x @ sep @ Join xs sep"
  by (cases xs) auto

lemma Join_Split [simp]: "Join (Split s c) [c] = s"
proof (induction s)
  case Nil
  show ?case by simp
next
  case (Cons a s)
  then show ?case
    by (cases "Split s c") (auto simp: Join_Cons, metis Join.simps(2) Join_Cons append_Cons neq_Nil_conv)
qed

lemma Split_sep_free: "w \<in> set (Split s c) \<Longrightarrow> c \<notin> set w"
proof (induction s arbitrary: w)
  case Nil
  then show ?case by simp
next
  case (Cons a s)
  then show ?case by (cases "Split s c") (auto split: if_splits)
qed

section \<open>Lemmas on decimal numbers\<close>

lemma digits_val_snoc [simp]: "digits_val (s @ [c]) = 10 * digits_val s + digit_val c"
  by (simp add: digits_val_def)

lemma Itoa_digits: "list_all is_digit (Itoa n)"
proof (induction n rule: Itoa.induct)
  case (1 n)
  then show ?case by (subst Itoa.simps) auto
qed

lemma Itoa_nonempty [simp]: "Itoa n \<noteq> []"
  by (subst Itoa.simps) simp

lemma digits_val_Itoa [simp]: "digits_val (Itoa n) = n"
proof (induction n rule: Itoa.induct)
  case (1 n)
  show ?case
  proof (cases "n < 10")
    case True
    then show ?thesis by (subst Itoa.simps) (simp add: digits_val_def)
  next
    case False
    with 1 show ?thesis by (subst Itoa.simps) simp
  qed
qed

lemma ParseUint_Itoa: "n < 2 ^ bits \<Longrightarrow> ParseUint bits (Itoa n) = Some n"
  by (simp add: ParseUint_def Itoa_digits)

lemma Itoa_inject [simp]: "Itoa m = Itoa n \<longleftrightarrow> m = n"
  by (metis digits_val_Itoa)

lemma ParseUint_bound: "ParseUint bits s = Some n \<Longrightarrow> n < 2 ^ bits"
  by (auto simp: ParseUint_def split: if_splits)
section \<open>Names over a safe alphabet\<close>

text \<open>
  Several validators of the program accept exactly the nonempty strings over an alphabet that
  holds no blank, no quote, no backslash and no control byte, which is what lets the accepted name
  be put in a quoted SQL identifier, a file name or a shell word unchanged.
\<close>

definition quoting_char :: "char \<Rightarrow> bool" where
  "quoting_char c \<longleftrightarrow> c \<in> {CHR 0x22, CHR 0x27, CHR 0x5C, CHR '';'', CHR ''/'', CHR ''$'', CHR 0x60}"

locale safe_names =
  fixes ok :: "char \<Rightarrow> bool"
    and valid :: "string \<Rightarrow> bool"
  assumes valid_iff: "valid s \<longleftrightarrow> s \<noteq> [] \<and> list_all ok s"
    and ok_graph: "ok c \<Longrightarrow> is_graph c"
    and ok_unquoted: "ok c \<Longrightarrow> \<not> quoting_char c"
begin

lemma valid_nonempty: "valid s \<Longrightarrow> s \<noteq> []"
  by (simp add: valid_iff)

lemma valid_trimmed: "valid s \<Longrightarrow> TrimSpace s = s"
  by (rule TrimSpace_graph) (auto simp: valid_iff list_all_iff ok_graph)

lemma valid_not_blank: "valid s \<Longrightarrow> \<not> blank s"
  by (simp add: blank_def valid_trimmed valid_nonempty)

lemma valid_unquoted: "valid s \<Longrightarrow> c \<in> set s \<Longrightarrow> is_graph c \<and> \<not> quoting_char c"
  by (auto simp: valid_iff list_all_iff ok_graph ok_unquoted)

lemma valid_append: "valid s \<Longrightarrow> valid t \<Longrightarrow> valid (s @ t)"
  by (simp add: valid_iff)

lemma valid_take: "valid s \<Longrightarrow> 0 < n \<Longrightarrow> valid (take n s)"
  by (auto simp: valid_iff list_all_iff dest: in_set_takeD)

end

section \<open>Transition systems\<close>

inductive reachable :: "('s \<Rightarrow> bool) \<Rightarrow> ('s \<Rightarrow> 'e \<Rightarrow> 's \<Rightarrow> bool) \<Rightarrow> 's \<Rightarrow> bool"
  for init :: "'s \<Rightarrow> bool" and step :: "'s \<Rightarrow> 'e \<Rightarrow> 's \<Rightarrow> bool" where
  reachable_init: "init s \<Longrightarrow> reachable init step s"
| reachable_step: "reachable init step s \<Longrightarrow> step s e t \<Longrightarrow> reachable init step t"

locale invariant_system =
  fixes init :: "'s \<Rightarrow> bool"
    and step :: "'s \<Rightarrow> 'e \<Rightarrow> 's \<Rightarrow> bool"
    and inv :: "'s \<Rightarrow> bool"
  assumes inv_init: "init s \<Longrightarrow> inv s"
    and inv_step: "inv s \<Longrightarrow> step s e t \<Longrightarrow> inv t"
begin

lemma inv_reachable: "reachable init step s \<Longrightarrow> inv s"
  by (induction rule: reachable.induct) (auto intro: inv_init inv_step)

end

end
