(* ===== verification/Timeouts.thy ===== *)
theory Timeouts
  imports GoText
begin

text \<open>
  \<open>timeouts.go\<close>: the operation budgets, their validation and the durations derived from them.
  A Go \<open>int\<close> and a \<open>time.Duration\<close> are 64-bit signed integers, so the nanosecond product is
  wrapped; the theorems show that a validated budget never wraps, stays positive and fits the
  32-bit millisecond settings it is rendered into.
\<close>

section \<open>Definitions\<close>

record Timeouts =
  Connect :: int
  Readiness :: int
  MigrationLock :: int
  MigrationStatement :: int
  BootstrapReadiness :: int
  BootstrapJob :: int

definition defaultConnectSeconds :: int where "defaultConnectSeconds = 5"
definition defaultReadinessSeconds :: int where "defaultReadinessSeconds = 90"
definition defaultMigrationLockSeconds :: int where "defaultMigrationLockSeconds = 30"
definition defaultMigrationStatementSeconds :: int where "defaultMigrationStatementSeconds = 600"
definition defaultBootstrapReadinessSeconds :: int where "defaultBootstrapReadinessSeconds = 300"
definition defaultBootstrapJobSeconds :: int where "defaultBootstrapJobSeconds = 1800"
definition maxTimeoutSeconds :: int where "maxTimeoutSeconds = 86400"

definition time_Second :: int where "time_Second = 1000000000"
definition time_Millisecond :: int where "time_Millisecond = 1000000"

definition seconds :: "int \<Rightarrow> int \<Rightarrow> int" where
  "seconds configured fallback = (if configured = 0 then fallback else configured)"

definition budget :: "int \<Rightarrow> int \<Rightarrow> int" where
  "budget configured fallback = wrap64 (seconds configured fallback * time_Second)"

definition connect_budget :: "Timeouts \<Rightarrow> int" where
  "connect_budget t = budget (Connect t) defaultConnectSeconds"

definition readiness_budget :: "Timeouts \<Rightarrow> int" where
  "readiness_budget t = budget (Readiness t) defaultReadinessSeconds"

definition migrationLock :: "Timeouts \<Rightarrow> int" where
  "migrationLock t = budget (MigrationLock t) defaultMigrationLockSeconds"

definition migrationStatement :: "Timeouts \<Rightarrow> int" where
  "migrationStatement t = budget (MigrationStatement t) defaultMigrationStatementSeconds"

definition BootstrapReadinessSeconds :: "Timeouts \<Rightarrow> int" where
  "BootstrapReadinessSeconds t = seconds (BootstrapReadiness t) defaultBootstrapReadinessSeconds"

definition BootstrapJobSeconds :: "Timeouts \<Rightarrow> int" where
  "BootstrapJobSeconds t = seconds (BootstrapJob t) defaultBootstrapJobSeconds"

definition Milliseconds :: "int \<Rightarrow> int" where
  "Milliseconds d = quot d time_Millisecond"

datatype timeouts_error =
    BudgetNotPositive string int
  | BudgetTooLarge string int
  | JobBelowReadiness int int

definition configured_budgets :: "Timeouts \<Rightarrow> (string \<times> int) list" where
  "configured_budgets t =
     [(''connect-seconds'', Connect t),
      (''readiness-seconds'', Readiness t),
      (''migration-lock-seconds'', MigrationLock t),
      (''migration-statement-seconds'', MigrationStatement t),
      (''bootstrap-readiness-seconds'', BootstrapReadiness t),
      (''bootstrap-job-seconds'', BootstrapJob t)]"

fun check_budget :: "string \<times> int \<Rightarrow> timeouts_error option" where
  "check_budget (name, s) =
     (if s < 0 then Some (BudgetNotPositive name s)
      else if s > maxTimeoutSeconds then Some (BudgetTooLarge name s)
      else None)"

definition validate_timeouts :: "Timeouts \<Rightarrow> timeouts_error option" where
  "validate_timeouts t =
     (case first_error check_budget (configured_budgets t) of
        Some e \<Rightarrow> Some e
      | None \<Rightarrow>
          if BootstrapJobSeconds t < BootstrapReadinessSeconds t
          then Some (JobBelowReadiness (BootstrapJobSeconds t) (BootstrapReadinessSeconds t))
          else None)"

section \<open>What validation establishes\<close>

lemmas timeout_defs =
  defaultConnectSeconds_def defaultReadinessSeconds_def defaultMigrationLockSeconds_def
  defaultMigrationStatementSeconds_def defaultBootstrapReadinessSeconds_def
  defaultBootstrapJobSeconds_def maxTimeoutSeconds_def time_Second_def time_Millisecond_def

lemma validate_timeouts_None:
  "validate_timeouts t = None \<longleftrightarrow>
     (\<forall>s \<in> snd ` set (configured_budgets t). 0 \<le> s \<and> s \<le> maxTimeoutSeconds)
     \<and> BootstrapReadinessSeconds t \<le> BootstrapJobSeconds t"
proof -
  have "validate_timeouts t = None \<longleftrightarrow>
      (\<forall>p \<in> set (configured_budgets t). check_budget p = None)
      \<and> BootstrapReadinessSeconds t \<le> BootstrapJobSeconds t"
    by (auto simp: validate_timeouts_def first_error_None [symmetric] split: option.splits)
  moreover have "check_budget p = None \<longleftrightarrow> 0 \<le> snd p \<and> snd p \<le> maxTimeoutSeconds" for p
    by (cases p) auto
  ultimately show ?thesis by simp
qed

lemma seconds_range:
  "0 \<le> c \<Longrightarrow> c \<le> maxTimeoutSeconds \<Longrightarrow> 0 < d \<Longrightarrow> d \<le> maxTimeoutSeconds
   \<Longrightarrow> 1 \<le> seconds c d \<and> seconds c d \<le> maxTimeoutSeconds"
  by (auto simp: seconds_def)

lemma budget_exact:
  "0 \<le> c \<Longrightarrow> c \<le> maxTimeoutSeconds \<Longrightarrow> 0 < d \<Longrightarrow> d \<le> maxTimeoutSeconds
   \<Longrightarrow> budget c d = seconds c d * time_Second \<and> 0 < budget c d"
  using seconds_range [of c d]
  by (auto simp: budget_def wrap64_id int64_def timeout_defs)

lemma Milliseconds_seconds:
  "0 \<le> s \<Longrightarrow> Milliseconds (s * time_Second) = 1000 * s"
  by (simp add: Milliseconds_def quot_pos timeout_defs)

lemma budget_milliseconds:
  assumes "0 \<le> c" "c \<le> maxTimeoutSeconds" "0 < d" "d \<le> maxTimeoutSeconds"
  shows "0 < Milliseconds (budget c d) \<and> Milliseconds (budget c d) < 2 ^ 31"
proof -
  have "Milliseconds (budget c d) = 1000 * seconds c d"
    using budget_exact [OF assms] seconds_range [OF assms] by (simp add: Milliseconds_seconds)
  then show ?thesis using seconds_range [OF assms] by (simp add: timeout_defs)
qed

lemma validated_field:
  "validate_timeouts t = None \<Longrightarrow> (n, s) \<in> set (configured_budgets t)
   \<Longrightarrow> 0 \<le> s \<and> s \<le> maxTimeoutSeconds"
  by (force simp: validate_timeouts_None)

section \<open>Properties\<close>

text \<open>
  Validation accepts exactly the settings whose six configured budgets lie between zero and
  one day and whose effective bootstrap-job deadline is not below the effective
  bootstrap-readiness wait; everything else is refused.
\<close>

theorem timeouts_validate_exact:
  "validate_timeouts t = None \<longleftrightarrow>
     (\<forall>s \<in> {Connect t, Readiness t, MigrationLock t, MigrationStatement t,
             BootstrapReadiness t, BootstrapJob t}. 0 \<le> s \<and> s \<le> 86400)
     \<and> (if BootstrapReadiness t = 0 then 300 else BootstrapReadiness t)
        \<le> (if BootstrapJob t = 0 then 1800 else BootstrapJob t)"
  by (auto simp: validate_timeouts_None configured_budgets_def BootstrapReadinessSeconds_def
      BootstrapJobSeconds_def seconds_def timeout_defs)

theorem timeouts_validate_exact_witness:
  "validate_timeouts \<lparr>Connect = 0, Readiness = 0, MigrationLock = 0, MigrationStatement = 0,
     BootstrapReadiness = 0, BootstrapJob = 0\<rparr> = None"
  using timeouts_validate_exact [of "\<lparr>Connect = 0, Readiness = 0, MigrationLock = 0,
    MigrationStatement = 0, BootstrapReadiness = 0, BootstrapJob = 0\<rparr>"] by simp

text \<open>
  Every budget derived from accepted settings is a positive, exact multiple of a second in
  64-bit nanoseconds (no wrap-around), and the millisecond values put into \<open>lock_timeout\<close> and
  \<open>statement_timeout\<close> are positive and fit a 32-bit setting.
\<close>

theorem timeouts_budgets_exact:
  assumes "validate_timeouts t = None"
  shows "connect_budget t = seconds (Connect t) 5 * 10 ^ 9 \<and> 0 < connect_budget t
    \<and> readiness_budget t = seconds (Readiness t) 90 * 10 ^ 9 \<and> 0 < readiness_budget t
    \<and> migrationLock t = seconds (MigrationLock t) 30 * 10 ^ 9
    \<and> migrationStatement t = seconds (MigrationStatement t) 600 * 10 ^ 9
    \<and> 0 < Milliseconds (migrationLock t) \<and> Milliseconds (migrationLock t) < 2 ^ 31
    \<and> 0 < Milliseconds (migrationStatement t) \<and> Milliseconds (migrationStatement t) < 2 ^ 31"
proof -
  have f: "0 \<le> s \<and> s \<le> maxTimeoutSeconds"
    if "s \<in> {Connect t, Readiness t, MigrationLock t, MigrationStatement t}" for s
    using validated_field [OF assms] that by (auto simp: configured_budgets_def)
  note b = budget_exact and m = budget_milliseconds
  show ?thesis
    unfolding connect_budget_def readiness_budget_def migrationLock_def migrationStatement_def
    using f b [of "Connect t" 5] b [of "Readiness t" 90] b [of "MigrationLock t" 30]
      b [of "MigrationStatement t" 600] m [of "MigrationLock t" 30] m [of "MigrationStatement t" 600]
    by (simp add: timeout_defs)
qed

theorem timeouts_budgets_exact_witness:
  "Milliseconds (migrationLock \<lparr>Connect = 5, Readiness = 90, MigrationLock = 86400,
     MigrationStatement = 0, BootstrapReadiness = 0, BootstrapJob = 0\<rparr>) < 2 ^ 31"
proof -
  let ?t = "\<lparr>Connect = 5, Readiness = 90, MigrationLock = 86400,
     MigrationStatement = 0, BootstrapReadiness = 0, BootstrapJob = 0\<rparr>"
  have "validate_timeouts ?t = None"
    by (simp add: validate_timeouts_None configured_budgets_def BootstrapReadinessSeconds_def
        BootstrapJobSeconds_def seconds_def timeout_defs)
  then show ?thesis using timeouts_budgets_exact [of ?t] by blast
qed

end
