(* ===== verification/Settings.thy ===== *)
theory Settings
  imports Timeouts
begin

text \<open>
  \<open>main.go\<close>: the service's declared settings and the state a \<open>Service\<close> keeps, field by field.
  A Go map is an association list whose keys are distinct (its iteration order is unspecified, and
  no definition depends on it). The functions of Go's \<open>crypto\<close> packages that the program only
  uses as digests are a parameter, \<open>platform\<close>, together with the Unicode tables.
\<close>

record platform =
  tables :: unicode
  sha256 :: "string \<Rightarrow> string"
  hmac_sha256 :: "string \<Rightarrow> string \<Rightarrow> string"

record RuntimeLogin =
  rl_Name :: string
  rl_ReadWriteRoles :: "string list"

record ExternalInstance =
  ei_Host :: string
  ei_Port :: nat
  ei_DatabaseName :: string
  ei_RuntimeReadWriteRoles :: "string list"

record MigrationSource =
  ms_Name :: string
  ms_Path :: string
  ms_Optional :: bool

record Extension =
  ext_Name :: string
  ext_Optional :: bool

record Settings =
  DatabaseName :: string
  HotReload :: bool
  ExternalInstances :: "(string \<times> ExternalInstance) list"
  AuthMode :: string
  WithoutSSL :: bool
  NoMigration :: bool
  KeepRunning :: bool
  LogLevel :: string
  Image :: string
  ImagePlatforms :: "string list"
  Extensions :: "Extension list"
  RuntimeSchemas :: "string list"
  RuntimeReadWriteRoles :: "string list"
  RuntimeLogins :: "RuntimeLogin list"
  MigrationSources :: "MigrationSource list"
  settings_Timeouts :: Timeouts

record Service =
  settings :: Settings
  Location :: string
  postgresUser :: string
  postgresPassword :: string
  nativeOwner :: string
  readOnlyPassword :: string
  readWritePassword :: string
  loginPasswords :: "(string \<times> string) list"
  connection :: string

definition authModePassword :: string where "authModePassword = ''password''"
definition authModeExternalIdentity :: string where "authModeExternalIdentity = ''external-identity''"

definition ownerConnectionKey :: string where "ownerConnectionKey = ''owner-connection''"
definition readOnlyConnectionKey :: string where "readOnlyConnectionKey = ''read-only-connection''"
definition readWriteConnectionKey :: string where "readWriteConnectionKey = ''read-write-connection''"

definition externalIdentity :: "Settings \<Rightarrow> bool" where
  "externalIdentity s \<longleftrightarrow> AuthMode s = authModeExternalIdentity"

lemmas connection_keys = ownerConnectionKey_def readOnlyConnectionKey_def readWriteConnectionKey_def

end
