(* ===== verification/RuntimeAccess.thy ===== *)
theory RuntimeAccess
  imports Settings
begin

text \<open>
  The naming and validation half of \<open>runtime_access.go\<close>: the server-wide role names derived from
  a database name, the normalisation of configured schemas and delegated roles, the resolution of
  declared runtime logins, the derivation and validation of credentials, and
  \<open>LoadConfiguration\<close> of \<open>main.go\<close>, which composes them. The SQL half of the file is in
  \<open>Reconcile\<close>.
\<close>

section \<open>Identifiers\<close>

definition ident_char :: "char \<Rightarrow> bool" where
  "ident_char c \<longleftrightarrow> c = CHR ''_'' \<or> is_lower c \<or> is_upper c \<or> is_digit c"

definition validSQLIdentifier :: "string \<Rightarrow> bool" where
  "validSQLIdentifier value \<longleftrightarrow> (if value = [] then False else list_all ident_char value)"

definition maxRuntimeLoginNameLength :: nat where "maxRuntimeLoginNameLength = 16"

definition login_char :: "char \<Rightarrow> bool" where
  "login_char c \<longleftrightarrow> is_lower c \<or> is_digit c \<or> c = CHR ''-''"

definition validRuntimeLoginName :: "string \<Rightarrow> bool" where
  "validRuntimeLoginName name \<longleftrightarrow>
     \<not> (name = [] \<or> length name > maxRuntimeLoginNameLength
        \<or> hd name < CHR ''a'' \<or> hd name > CHR ''z'' \<or> suffix ''-'' name)
     \<and> list_all login_char name"

section \<open>Role names\<close>

definition slug_step :: "unicode \<Rightarrow> string \<Rightarrow> nat \<Rightarrow> string" where
  "slug_step u slug r =
     (if IsLetter u r \<or> IsDigit u r then (if r \<le> 127 then slug @ [char_of r] else slug)
      else if slug \<noteq> [] \<and> \<not> suffix ''_'' slug then slug @ ''_''
      else slug)"

definition role_slug :: "unicode \<Rightarrow> string \<Rightarrow> string" where
  "role_slug u database = foldl (slug_step u) [] (map (ToLower u) (runes database))"

definition Trim_underscore :: "string \<Rightarrow> string" where
  "Trim_underscore s = rev (dropWhile (\<lambda>c. c = CHR ''_'') (rev (dropWhile (\<lambda>c. c = CHR ''_'') s)))"

definition runtimeRolePrefix :: "platform \<Rightarrow> string \<Rightarrow> string" where
  "runtimeRolePrefix P database =
     (let base = Trim_underscore (role_slug (tables P) database);
          base = (if base = [] then ''database'' else base);
          base = (if length base > 24 then take 24 base else base);
          digest = EncodeToString (take 4 (sha256 P database))
      in ''codefly_'' @ base @ ''_'' @ digest)"

definition runtimeRoleNames :: "platform \<Rightarrow> string \<Rightarrow> string \<times> string" where
  "runtimeRoleNames P database =
     (let prefix = runtimeRolePrefix P database in (prefix @ ''_ro'', prefix @ ''_rw''))"

definition nativeOwnerRole :: "platform \<Rightarrow> string \<Rightarrow> string" where
  "nativeOwnerRole P database = runtimeRolePrefix P database @ ''_owner''"

section \<open>Normalisation of schemas and delegated roles\<close>

datatype access_error =
    UnsafeSchema string
  | NoSchema
  | UnsafeRole string
  | ReservedRole string
  | LoginsNeedPasswords
  | LoginsWithExternalInstances
  | BadLoginName string
  | ReservedLoginName string
  | DuplicateLogin string
  | LoginCollides string
  | LoginRoles string access_error
  | LoginWithoutRoles string
  | UnsupportedAuthMode string
  | DatabaseNameRequired
  | OwnerUserRequired
  | EmptyCredential string
  | PasswordsNotDistinct
  | OwnerConflictsWithRole
  | LoginPasswordReused string string
  | MissingConfiguration string

text \<open>The loop both normalisers share: trim, check, skip what was seen, append.\<close>

fun normalize_loop :: "(string \<Rightarrow> access_error option) \<Rightarrow> string list \<Rightarrow> string list
    \<Rightarrow> (access_error, string list) result" where
  "normalize_loop bad seen [] = Inr []"
| "normalize_loop bad seen (raw # rest) =
     (case bad raw of
        Some e \<Rightarrow> Inl e
      | None \<Rightarrow>
          if TrimSpace raw \<in> set seen then normalize_loop bad seen rest
          else (case normalize_loop bad (TrimSpace raw # seen) rest of
                  Inl e \<Rightarrow> Inl e
                | Inr xs \<Rightarrow> Inr (TrimSpace raw # xs)))"

definition bad_schema :: "string \<Rightarrow> access_error option" where
  "bad_schema raw = (if \<not> validSQLIdentifier (TrimSpace raw) then Some (UnsafeSchema raw) else None)"

definition normalizedRuntimeSchemas :: "string list \<Rightarrow> (access_error, string list) result" where
  "normalizedRuntimeSchemas configured =
     (if configured = [] then Inr [''public'']
      else case normalize_loop bad_schema [] configured of
             Inl e \<Rightarrow> Inl e
           | Inr schemas \<Rightarrow> if schemas = [] then Inl NoSchema else Inr schemas)"

definition bad_role :: "string list \<Rightarrow> string \<Rightarrow> access_error option" where
  "bad_role managed raw =
     (let role = TrimSpace raw in
      if \<not> validSQLIdentifier role then Some (UnsafeRole raw)
      else if role \<in> set managed then Some (ReservedRole role)
      else None)"

definition normalizedRuntimeReadWriteRoles ::
    "string list \<Rightarrow> string list \<Rightarrow> (access_error, string list) result" where
  "normalizedRuntimeReadWriteRoles configured managedRoles =
     normalize_loop (bad_role managedRoles) [] configured"

definition defaultRuntimeReadWriteRole :: "string list \<Rightarrow> string" where
  "defaultRuntimeReadWriteRole roles = (case roles of [] \<Rightarrow> [] | r # _ \<Rightarrow> r)"

section \<open>Declared runtime logins\<close>

record runtimeLogin =
  login_name :: string
  login_role :: string
  login_passwordKey :: string
  login_connectionKey :: string
  login_readWriteRoles :: "string list"

definition reservedRuntimeLoginNames :: "string list" where
  "reservedRuntimeLoginNames = [''owner'', ''read-only'', ''read-write'']"

definition login_slug :: "string \<Rightarrow> string" where
  "login_slug name = replace_char CHR ''-'' CHR ''_'' name"

definition resolve_login :: "string \<Rightarrow> string \<Rightarrow> string list \<Rightarrow> RuntimeLogin
    \<Rightarrow> (access_error, runtimeLogin) result" where
  "resolve_login readOnlyRole readWriteRole seen declared =
     (let name = rl_Name declared;
          slug = login_slug name;
          role = TrimSuffix readWriteRole ''_rw'' @ ''_'' @ slug
      in if \<not> validRuntimeLoginName name then Inl (BadLoginName name)
         else if name \<in> set reservedRuntimeLoginNames then Inl (ReservedLoginName name)
         else if name \<in> set seen then Inl (DuplicateLogin name)
         else if role = readOnlyRole \<or> role = readWriteRole then Inl (LoginCollides name)
         else case normalizedRuntimeReadWriteRoles (rl_ReadWriteRoles declared)
                     [readOnlyRole, readWriteRole, role] of
                Inl e \<Rightarrow> Inl (LoginRoles name e)
              | Inr roles \<Rightarrow>
                  if roles = [] then Inl (LoginWithoutRoles name)
                  else Inr \<lparr>login_name = name, login_role = role,
                            login_passwordKey = ''POSTGRES_'' @ map upper_char slug @ ''_PASSWORD'',
                            login_connectionKey = name @ ''-connection'',
                            login_readWriteRoles = roles\<rparr>)"

fun resolve_logins_loop :: "string \<Rightarrow> string \<Rightarrow> string list \<Rightarrow> RuntimeLogin list
    \<Rightarrow> (access_error, runtimeLogin list) result" where
  "resolve_logins_loop ro rw seen [] = Inr []"
| "resolve_logins_loop ro rw seen (d # ds) =
     (case resolve_login ro rw seen d of
        Inl e \<Rightarrow> Inl e
      | Inr l \<Rightarrow> (case resolve_logins_loop ro rw (rl_Name d # seen) ds of
                    Inl e \<Rightarrow> Inl e
                  | Inr ls \<Rightarrow> Inr (l # ls)))"

definition resolveRuntimeLogins :: "platform \<Rightarrow> Settings
    \<Rightarrow> (access_error, runtimeLogin list) result" where
  "resolveRuntimeLogins P s =
     (if RuntimeLogins s = [] then Inr []
      else if AuthMode s = authModeExternalIdentity then Inl LoginsNeedPasswords
      else if ExternalInstances s \<noteq> [] then Inl LoginsWithExternalInstances
      else let (ro, rw) = runtimeRoleNames P (DatabaseName s)
           in resolve_logins_loop ro rw [] (RuntimeLogins s))"

section \<open>Credentials\<close>

definition validateAuthMode :: "Settings \<Rightarrow> access_error option" where
  "validateAuthMode s =
     (if AuthMode s = [] \<or> AuthMode s = authModePassword \<or> AuthMode s = authModeExternalIdentity
      then None else Some (UnsupportedAuthMode (AuthMode s)))"

definition password_message :: "string \<Rightarrow> string \<Rightarrow> string" where
  "password_message database capability =
     ''codefly/service-postgres/runtime-password/v1'' @ [NUL] @ database @ [NUL] @ capability"

definition deriveRuntimePassword :: "platform \<Rightarrow> string \<Rightarrow> string \<Rightarrow> string \<Rightarrow> string" where
  "deriveRuntimePassword P ownerPassword database capability =
     (if blank ownerPassword then []
      else EncodeToString (hmac_sha256 P ownerPassword (password_message database capability)))"

definition runtimeAccess :: "platform \<Rightarrow> Service \<Rightarrow> (access_error, string \<times> string) result" where
  "runtimeAccess P s =
     (let (ro, rw) = runtimeRoleNames P (DatabaseName (settings s)) in
      if postgresUser s = ro \<or> postgresUser s = rw then Inl OwnerConflictsWithRole
      else rbind (normalizedRuntimeSchemas (RuntimeSchemas (settings s))) (\<lambda>_.
           rbind (normalizedRuntimeReadWriteRoles (RuntimeReadWriteRoles (settings s)) [ro, rw]) (\<lambda>_.
           Inr (ro, rw))))"

fun check_login_passwords :: "(string \<Rightarrow> string) \<Rightarrow> (string \<times> string) list \<Rightarrow> runtimeLogin list
    \<Rightarrow> access_error option" where
  "check_login_passwords pw used [] = None"
| "check_login_passwords pw used (l # ls) =
     (let password = pw (login_name l) in
      if blank password then Some (EmptyCredential (login_passwordKey l))
      else case map_of used password of
             Some other \<Rightarrow> Some (LoginPasswordReused (login_name l) other)
           | None \<Rightarrow> check_login_passwords pw ((password, login_name l) # used) ls)"

definition login_password :: "Service \<Rightarrow> string \<Rightarrow> string" where
  "login_password s n = (case map_of (loginPasswords s) n of Some p \<Rightarrow> p | None \<Rightarrow> [])"

definition managed_credentials :: "Service \<Rightarrow> (string \<times> string) list" where
  "managed_credentials s =
     [(''POSTGRES_PASSWORD'', postgresPassword s),
      (''POSTGRES_READ_ONLY_PASSWORD'', readOnlyPassword s),
      (''POSTGRES_READ_WRITE_PASSWORD'', readWritePassword s)]"

definition validate_passwords :: "Service \<Rightarrow> access_error option" where
  "validate_passwords s =
     (case first_error (\<lambda>(n, v). if blank v then Some (EmptyCredential n) else None)
             (managed_credentials s) of
        Some e \<Rightarrow> Some e
      | None \<Rightarrow>
          if postgresPassword s = readOnlyPassword s \<or> postgresPassword s = readWritePassword s
             \<or> readOnlyPassword s = readWritePassword s
          then Some PasswordsNotDistinct else None)"

text \<open>
  The map literal \<open>used\<close> has the later of equal keys win; in password mode the three keys are
  already known to be distinct when it is built.
\<close>

definition validateCredentials :: "platform \<Rightarrow> Service \<Rightarrow> access_error option" where
  "validateCredentials P s =
     (if blank (DatabaseName (settings s)) then Some DatabaseNameRequired
      else if blank (postgresUser s) then Some OwnerUserRequired
      else case validateAuthMode (settings s) of
        Some e \<Rightarrow> Some e
      | None \<Rightarrow>
        (case (if \<not> externalIdentity (settings s) then validate_passwords s else None) of
           Some e \<Rightarrow> Some e
         | None \<Rightarrow>
           (case runtimeAccess P s of
              Inl e \<Rightarrow> Some e
            | Inr _ \<Rightarrow>
              (case resolveRuntimeLogins P (settings s) of
                 Inl e \<Rightarrow> Some e
               | Inr logins \<Rightarrow>
                   check_login_passwords (login_password s)
                     [(readWritePassword s, ''read-write''), (readOnlyPassword s, ''read-only''),
                      (postgresPassword s, ''owner'')] logins))))"

section \<open>Loading a configuration\<close>

text \<open>
  \<open>resources.GetConfigurationValue\<close> is codefly core's: a parameter that returns, for a key of the
  \<open>postgres\<close> configuration, a value and whether the call failed. The service is mutated field by
  field, and keeps what was already assigned when a later step fails.
\<close>

type_synonym config_values = "string \<Rightarrow> string \<times> bool"

definition derive_when_blank :: "platform \<Rightarrow> Service \<Rightarrow> string \<Rightarrow> string \<Rightarrow> string" where
  "derive_when_blank P s password capability =
     (if blank password
      then deriveRuntimePassword P (postgresPassword s) (DatabaseName (settings s)) capability
      else password)"

fun load_login_passwords :: "platform \<Rightarrow> config_values \<Rightarrow> runtimeLogin list \<Rightarrow> Service
    \<Rightarrow> access_error option \<times> Service" where
  "load_login_passwords P conf [] s = (None, s)"
| "load_login_passwords P conf (l # ls) s =
     (let (p, failed) = conf (login_passwordKey l) in
      if failed then (Some (MissingConfiguration (login_passwordKey l)), s)
      else load_login_passwords P conf ls
             (s\<lparr>loginPasswords :=
                 (login_name l, derive_when_blank P s p (login_connectionKey l)) # loginPasswords s\<rparr>))"

definition load_derived :: "platform \<Rightarrow> Service \<Rightarrow> Service" where
  "load_derived P s =
     (let s = s\<lparr>readOnlyPassword := derive_when_blank P s (readOnlyPassword s) readOnlyConnectionKey\<rparr>
      in s\<lparr>readWritePassword := derive_when_blank P s (readWritePassword s) readWriteConnectionKey\<rparr>)"

definition LoadConfiguration :: "platform \<Rightarrow> config_values \<Rightarrow> Service
    \<Rightarrow> access_error option \<times> Service" where
  "LoadConfiguration P conf s =
     (let (user, failed) = conf ''POSTGRES_USER'';
          s = s\<lparr>postgresUser := user\<rparr>
      in if failed then (Some (MissingConfiguration ''POSTGRES_USER''), s)
      else let s = (if nativeOwner s \<noteq> [] then s\<lparr>postgresUser := nativeOwner s\<rparr> else s);
          (password, failed) = conf ''POSTGRES_PASSWORD'';
          s = s\<lparr>postgresPassword := password\<rparr>
      in if failed then (Some (MissingConfiguration ''POSTGRES_PASSWORD''), s)
      else let (ro, failed) = conf ''POSTGRES_READ_ONLY_PASSWORD'';
          s = s\<lparr>readOnlyPassword := ro\<rparr>
      in if failed then (Some (MissingConfiguration ''POSTGRES_READ_ONLY_PASSWORD''), s)
      else let (rw, failed) = conf ''POSTGRES_READ_WRITE_PASSWORD'';
          s = s\<lparr>readWritePassword := rw\<rparr>
      in if failed then (Some (MissingConfiguration ''POSTGRES_READ_WRITE_PASSWORD''), s)
      else let s = load_derived P s
      in case resolveRuntimeLogins P (settings s) of
           Inl e \<Rightarrow> (Some e, s)
         | Inr logins \<Rightarrow>
             (case load_login_passwords P conf logins (s\<lparr>loginPasswords := []\<rparr>) of
                (Some e, s) \<Rightarrow> (Some e, s)
              | (None, s) \<Rightarrow> (validateCredentials P s, s)))"

section \<open>A sample configuration\<close>

definition sample_platform :: platform where
  "sample_platform = \<lparr>tables = \<lparr>high_letter = (\<lambda>_. True), high_digit = (\<lambda>_. False), high_lower = (\<lambda>r. r)\<rparr>,
     sha256 = (\<lambda>s. replicate 32 NUL), hmac_sha256 = (\<lambda>k s. take 1 (drop 12 (rev s)))\<rparr>"

definition sample_settings :: Settings where
  "sample_settings = \<lparr>DatabaseName = ''Orders-DB'', HotReload = True, ExternalInstances = [],
     AuthMode = [], WithoutSSL = False, NoMigration = False, KeepRunning = False, LogLevel = [],
     Image = [], ImagePlatforms = [], Extensions = [], RuntimeSchemas = [],
     RuntimeReadWriteRoles = [''app_request''],
     RuntimeLogins = [\<lparr>rl_Name = ''maintenance'', rl_ReadWriteRoles = ['' app_runtime '', ''app_runtime'']\<rparr>],
     MigrationSources = [],
     settings_Timeouts = \<lparr>Connect = 0, Readiness = 0, MigrationLock = 0, MigrationStatement = 0,
       BootstrapReadiness = 0, BootstrapJob = 0\<rparr>\<rparr>"

definition sample_service :: Service where
  "sample_service = \<lparr>settings = sample_settings, Location = ''/svc'', postgresUser = ''postgres'',
     postgresPassword = ''a'', nativeOwner = [], readOnlyPassword = ''b'', readWritePassword = ''c'',
     loginPasswords = [(''maintenance'', ''d'')], connection = []\<rparr>"

definition sample_conf :: config_values where
  "sample_conf k = (case map_of [(''POSTGRES_USER'', ''u''), (''POSTGRES_PASSWORD'', ''a''),
     (''POSTGRES_READ_ONLY_PASSWORD'', ''b''), (''POSTGRES_READ_WRITE_PASSWORD'', ''c''),
     (''POSTGRES_MAINTENANCE_PASSWORD'', ''d'')] k of Some v \<Rightarrow> (v, False) | None \<Rightarrow> ([], False))"

section \<open>Identifiers\<close>

interpretation sql_ident: safe_names ident_char validSQLIdentifier
  by unfold_locales
    (auto simp: validSQLIdentifier_def ident_char_def is_graph_def quoting_char_def is_lower_def
      is_upper_def is_digit_def less_eq_char_def)

lemma ident_char_classes [class_simps]:
  "is_lower c \<Longrightarrow> ident_char c" "is_upper c \<Longrightarrow> ident_char c" "is_digit c \<Longrightarrow> ident_char c"
  "is_hex c \<Longrightarrow> ident_char c"
  by (auto simp: ident_char_def dest: is_hex_alnum)

lemma ident_char_underscore [simp]: "ident_char CHR ''_''"
  by (simp add: ident_char_def)

section \<open>Normalisation\<close>

lemma normalize_loop_Inr:
  "normalize_loop bad seen raws = Inr xs \<longleftrightarrow>
     (\<forall>r \<in> set raws. bad r = None) \<and> xs = dedup_seen seen (map TrimSpace raws)"
proof (induction raws arbitrary: seen xs)
  case Nil
  show ?case by auto
next
  case (Cons r raws)
  show ?case
  proof (cases "bad r")
    case (Some e)
    then show ?thesis by simp
  next
    case None
    have "normalize_loop bad seen' raws = Inl e \<longrightarrow> \<not> (\<forall>r \<in> set raws. bad r = None)" for seen' e
      using Cons.IH [of seen' "dedup_seen seen' (map TrimSpace raws)"] by auto
    with None Cons.IH show ?thesis by (auto split: sum.splits)
  qed
qed

text \<open>
  The contract of a normaliser of configured names: what it returns is duplicate-free and
  acceptable, an acceptable duplicate-free nonempty list is returned unchanged, and an empty result
  is itself stable.
\<close>

locale normaliser =
  fixes norm :: "string list \<Rightarrow> (access_error, string list) result"
    and accept :: "string \<Rightarrow> bool"
  assumes norm_sound: "norm raws = Inr xs \<Longrightarrow> distinct xs \<and> (\<forall>x \<in> set xs. accept x)"
    and norm_fix: "xs \<noteq> [] \<Longrightarrow> distinct xs \<Longrightarrow> \<forall>x \<in> set xs. accept x \<Longrightarrow> norm xs = Inr xs"
    and norm_empty: "norm raws = Inr [] \<Longrightarrow> norm [] = Inr []"
begin

lemma norm_idem: "norm raws = Inr xs \<Longrightarrow> norm xs = Inr xs"
  by (metis norm_sound norm_fix norm_empty)

end

lemma normalizedRuntimeSchemas_Inr:
  "normalizedRuntimeSchemas raws = Inr xs \<longleftrightarrow>
     (if raws = [] then xs = [''public'']
      else (\<forall>r \<in> set raws. validSQLIdentifier (TrimSpace r)) \<and> xs = dedup_seen [] (map TrimSpace raws))"
proof -
  have "raws \<noteq> [] \<Longrightarrow> dedup_seen [] (map TrimSpace raws) \<noteq> []"
    by (cases raws) auto
  then show ?thesis
    by (auto simp: normalizedRuntimeSchemas_def normalize_loop_Inr bad_schema_def
        split: sum.splits if_splits)
      (metis Inl_Inr_False normalize_loop_Inr bad_schema_def)
qed

lemma normalizedRuntimeReadWriteRoles_Inr:
  "normalizedRuntimeReadWriteRoles raws managed = Inr xs \<longleftrightarrow>
     (\<forall>r \<in> set raws. validSQLIdentifier (TrimSpace r) \<and> TrimSpace r \<notin> set managed)
     \<and> xs = dedup_seen [] (map TrimSpace raws)"
  by (auto simp: normalizedRuntimeReadWriteRoles_def normalize_loop_Inr bad_role_def Let_def
      split: if_splits)

lemma map_TrimSpace_idents:
  "\<forall>x \<in> set xs. validSQLIdentifier x \<Longrightarrow> map TrimSpace xs = xs"
  by (simp add: map_idI sql_ident.valid_trimmed)

interpretation schema_norm: normaliser normalizedRuntimeSchemas validSQLIdentifier
proof unfold_locales
  have public: "validSQLIdentifier ''public''"
    by (simp add: validSQLIdentifier_def ident_char_def is_lower_def)
  show "distinct xs \<and> (\<forall>x\<in>set xs. validSQLIdentifier x)"
    if "normalizedRuntimeSchemas raws = Inr xs" for raws xs
    using that public by (auto simp: normalizedRuntimeSchemas_Inr split: if_splits)
  show "normalizedRuntimeSchemas xs = Inr xs"
    if "xs \<noteq> []" "distinct xs" "\<forall>x\<in>set xs. validSQLIdentifier x" for xs
    using that by (auto simp: normalizedRuntimeSchemas_Inr map_TrimSpace_idents dedup_seen_id
        sql_ident.valid_trimmed)
  show "normalizedRuntimeSchemas [] = Inr []" if "normalizedRuntimeSchemas raws = Inr []" for raws
    using that by (cases raws) (auto simp: normalizedRuntimeSchemas_Inr)
qed

interpretation role_norm: normaliser "\<lambda>raws. normalizedRuntimeReadWriteRoles raws managed"
    "\<lambda>x. validSQLIdentifier x \<and> x \<notin> set managed" for managed
  by unfold_locales
    (auto simp: normalizedRuntimeReadWriteRoles_Inr map_TrimSpace_idents dedup_seen_id
      sql_ident.valid_trimmed)

section \<open>Role names\<close>

lemma slug_char_ident:
  "IsLetter u r \<or> IsDigit u r \<Longrightarrow> r \<le> 127 \<Longrightarrow> ident_char (char_of r)"
  by (auto simp: IsLetter_def IsDigit_def ident_char_def is_lower_def is_upper_def is_digit_def
      less_eq_char_def split: if_splits)

lemma role_slug_ident: "list_all ident_char (role_slug u db)"
proof -
  have "list_all ident_char slug \<Longrightarrow> list_all ident_char (foldl (slug_step u) slug rs)" for slug rs
    by (induction rs arbitrary: slug) (auto simp: slug_step_def slug_char_ident)
  then show ?thesis by (simp add: role_slug_def)
qed

lemma set_Trim_underscore: "set (Trim_underscore s) \<subseteq> set s"
  by (auto simp: Trim_underscore_def dest!: set_dropWhileD)

lemma runtimeRolePrefix_shape:
  "length (runtimeRolePrefix P db) \<le> 41 \<and> list_all ident_char (runtimeRolePrefix P db)
   \<and> prefix ''codefly_'' (runtimeRolePrefix P db)"
proof -
  have "list_all ident_char (Trim_underscore (role_slug (tables P) db))"
    using role_slug_ident set_Trim_underscore by (force simp: list_all_iff)
  moreover have "list_all ident_char (EncodeToString bs)" for bs
    using EncodeToString_hex [of bs] by (auto simp: list_all_iff class_simps)
  moreover have "list_all ident_char ''codefly_''" "list_all ident_char ''database''"
    by (simp_all add: ident_char_def is_lower_def)
  ultimately show ?thesis
    by (auto simp: runtimeRolePrefix_def Let_def list_all_iff dest: in_set_takeD)
qed

lemma runtimeRolePrefix_nonempty: "runtimeRolePrefix P db \<noteq> []"
  using runtimeRolePrefix_shape [of P db] by auto


section \<open>Declared logins\<close>

lemma TrimSuffix_append [simp]: "TrimSuffix (s @ p) p = s"
  by (simp add: TrimSuffix_def suffix_def)

definition password_slug_char :: "char \<Rightarrow> char" where
  "password_slug_char c = upper_char (if c = CHR ''-'' then CHR ''_'' else c)"

lemma upper_char_code:
  "(of_char (upper_char c) :: nat) = (if is_lower c then of_char c - 32 else of_char c)"
  by (auto simp: upper_char_def is_lower_def less_eq_char_def)

lemma login_char_code:
  "login_char c \<longleftrightarrow> (97 \<le> (of_char c :: nat) \<and> (of_char c :: nat) \<le> 122)
     \<or> (48 \<le> (of_char c :: nat) \<and> (of_char c :: nat) \<le> 57) \<or> (of_char c :: nat) = 45"
proof -
  have "c = CHR ''-'' \<longleftrightarrow> (of_char c :: nat) = of_char CHR ''-''"
    by (simp only: of_char_eq_iff)
  then show ?thesis
    by (auto simp: login_char_def is_lower_def is_digit_def less_eq_char_def)
qed

lemma inj_on_login_slug_char:
  "inj_on (\<lambda>c. if c = CHR ''-'' then CHR ''_'' else c) {c. login_char c}"
  by (auto simp: inj_on_def login_char_def is_lower_def is_digit_def)

lemma inj_on_password_slug_char: "inj_on password_slug_char {c. login_char c}"
proof (rule inj_onI, simp)
  fix a b assume ab: "login_char a" "login_char b" "password_slug_char a = password_slug_char b"
  have code: "(of_char (password_slug_char c) :: nat) =
      (if 97 \<le> (of_char c :: nat) then of_char c - 32 else if (of_char c :: nat) = 45 then 95 else of_char c)"
    if "login_char c" for c
  proof (cases "c = CHR ''-''")
    case True
    then show ?thesis by (simp add: password_slug_char_def upper_char_def is_lower_def)
  next
    case False
    then have "(of_char c :: nat) \<noteq> of_char CHR ''-''" by (simp only: of_char_eq_iff not_False_eq_True)
    with False that show ?thesis
      by (auto simp: password_slug_char_def upper_char_code login_char_code is_lower_def less_eq_char_def)
  qed
  have "(of_char a :: nat) = of_char b"
    using arg_cong [OF ab(3), of "of_char :: char \<Rightarrow> nat"] ab(1,2) code [OF ab(1)] code [OF ab(2)]
    by (auto simp: login_char_code simp del: of_char_eq_iff split: if_splits)
  then show "a = b" by simp
qed

lemma map_inj_on_login:
  assumes "inj_on f {c. login_char c}" "list_all login_char xs" "list_all login_char ys"
  shows "map f xs = map f ys \<longleftrightarrow> xs = ys"
  using assms by (auto simp: list_all_iff intro: map_inj_on [of f xs ys] inj_on_subset)

lemma login_slug_inject:
  "list_all login_char xs \<Longrightarrow> list_all login_char ys \<Longrightarrow> login_slug xs = login_slug ys \<longleftrightarrow> xs = ys"
  unfolding login_slug_def replace_char_def by (rule map_inj_on_login [OF inj_on_login_slug_char])

lemma password_slug_inject:
  "list_all login_char xs \<Longrightarrow> list_all login_char ys
   \<Longrightarrow> map upper_char (login_slug xs) = map upper_char (login_slug ys) \<longleftrightarrow> xs = ys"
proof -
  have "map upper_char (login_slug zs) = map password_slug_char zs" for zs
    by (simp add: login_slug_def replace_char_def password_slug_char_def)
  then show "list_all login_char xs \<Longrightarrow> list_all login_char ys \<Longrightarrow> ?thesis"
    by (simp add: map_inj_on_login [OF inj_on_password_slug_char])
qed

lemma login_slug_ident: "list_all login_char xs \<Longrightarrow> list_all ident_char (login_slug xs)"
  by (auto simp: login_slug_def replace_char_def list_all_iff login_char_def class_simps)

lemma validRuntimeLoginName_shape:
  "validRuntimeLoginName n \<Longrightarrow> n \<noteq> [] \<and> length n \<le> 16 \<and> list_all login_char n"
  by (auto simp: validRuntimeLoginName_def maxRuntimeLoginNameLength_def)

text \<open>What one resolved login is, in terms of its name.\<close>

definition login_of :: "platform \<Rightarrow> string \<Rightarrow> string \<Rightarrow> runtimeLogin \<Rightarrow> bool" where
  "login_of P db n l \<longleftrightarrow>
     login_name l = n
     \<and> login_role l = runtimeRolePrefix P db @ ''_'' @ login_slug n
     \<and> login_passwordKey l = ''POSTGRES_'' @ map upper_char (login_slug n) @ ''_PASSWORD''
     \<and> login_connectionKey l = n @ ''-connection''
     \<and> validRuntimeLoginName n \<and> n \<notin> set reservedRuntimeLoginNames
     \<and> login_role l \<noteq> runtimeRolePrefix P db @ ''_ro'' \<and> login_role l \<noteq> runtimeRolePrefix P db @ ''_rw''
     \<and> login_readWriteRoles l \<noteq> [] \<and> distinct (login_readWriteRoles l)
     \<and> (\<forall>r \<in> set (login_readWriteRoles l).
           validSQLIdentifier r \<and> r \<noteq> login_role l
           \<and> r \<noteq> runtimeRolePrefix P db @ ''_ro'' \<and> r \<noteq> runtimeRolePrefix P db @ ''_rw'')"

lemma resolve_login_Inr:
  assumes "resolve_login (runtimeRolePrefix P db @ ''_ro'') (runtimeRolePrefix P db @ ''_rw'') seen d = Inr l"
  shows "login_of P db (rl_Name d) l \<and> rl_Name d \<notin> set seen"
  using assms
  by (auto simp: resolve_login_def login_of_def Let_def split: if_splits sum.splits
      dest!: role_norm.norm_sound)

lemma resolve_logins_loop_Inr:
  "resolve_logins_loop (runtimeRolePrefix P db @ ''_ro'') (runtimeRolePrefix P db @ ''_rw'') seen ds = Inr ls
   \<Longrightarrow> list_all2 (login_of P db) (map rl_Name ds) ls \<and> distinct (map rl_Name ds)
      \<and> set (map rl_Name ds) \<inter> set seen = {}"
proof (induction ds arbitrary: seen ls)
  case Nil
  then show ?case by simp
next
  case (Cons d ds)
  then show ?case
    by (fastforce split: sum.splits dest: resolve_login_Inr)
qed

lemma resolveRuntimeLogins_Inr:
  assumes "resolveRuntimeLogins P s = Inr ls"
  shows "list_all2 (login_of P (DatabaseName s)) (map rl_Name (RuntimeLogins s)) ls
    \<and> distinct (map rl_Name (RuntimeLogins s))"
  using assms resolve_logins_loop_Inr [of P "DatabaseName s" "[]" "RuntimeLogins s" ls]
  by (auto simp: resolveRuntimeLogins_def runtimeRoleNames_def Let_def split: if_splits)

lemma login_of_names: "list_all2 (login_of P db) ns ls \<Longrightarrow> map login_name ls = ns"
  by (induction rule: list_all2_induct) (auto simp: login_of_def)

lemma login_of_set: "list_all2 (login_of P db) ns ls \<Longrightarrow> l \<in> set ls \<Longrightarrow> login_of P db (login_name l) l"
  by (induction rule: list_all2_induct) (auto simp: login_of_def)

lemma login_of_role_facts:
  assumes "login_of P db n l"
  shows "validSQLIdentifier (login_role l)" "length (login_role l) \<le> 58"
    "login_role l \<noteq> nativeOwnerRole P db" "list_all login_char n"
proof -
  have n: "length n \<le> 16" "list_all login_char n" and res: "n \<noteq> ''owner''"
    and role: "login_role l = runtimeRolePrefix P db @ ''_'' @ login_slug n"
    using assms validRuntimeLoginName_shape by (auto simp: login_of_def reservedRuntimeLoginNames_def)
  show "list_all login_char n" by (rule n(2))
  show "validSQLIdentifier (login_role l)"
    using runtimeRolePrefix_shape [of P db] login_slug_ident [OF n(2)] role
    by (auto simp: validSQLIdentifier_def)
  show "length (login_role l) \<le> 58"
    using runtimeRolePrefix_shape [of P db] n(1) role by (auto simp: login_slug_def replace_char_def)
  have owner: "list_all login_char ''owner''" "login_slug ''owner'' = ''owner''"
    by (simp_all add: login_char_def is_lower_def login_slug_def replace_char_def)
  then have "login_slug n \<noteq> ''owner''"
    using login_slug_inject [OF n(2) owner(1)] res by simp
  then show "login_role l \<noteq> nativeOwnerRole P db"
    by (simp add: role nativeOwnerRole_def)
qed

lemma distinct_map_on:
  assumes d: "distinct (map f xs)"
    and inj: "\<And>x y. x \<in> set xs \<Longrightarrow> y \<in> set xs \<Longrightarrow> g x = g y \<Longrightarrow> f x = f y"
  shows "distinct (map g xs)"
proof -
  have "inj_on g (set xs)"
  proof (rule inj_onI)
    fix x y assume xy: "x \<in> set xs" "y \<in> set xs" "g x = g y"
    then have "f x = f y" by (rule inj)
    with d xy(1,2) show "x = y" by (auto simp: distinct_map dest: inj_onD)
  qed
  with d show ?thesis by (simp add: distinct_map)
qed

lemma login_of_inject:
  assumes "login_of P db n l" "login_of P db m k"
  shows "login_role l = login_role k \<Longrightarrow> n = m"
    "login_connectionKey l = login_connectionKey k \<Longrightarrow> n = m"
    "login_passwordKey l = login_passwordKey k \<Longrightarrow> n = m"
proof -
  have c: "list_all login_char n" "list_all login_char m"
    using login_of_role_facts(4) assms by blast+
  show "login_role l = login_role k \<Longrightarrow> n = m"
    using assms login_slug_inject [OF c] by (simp add: login_of_def)
  show "login_connectionKey l = login_connectionKey k \<Longrightarrow> n = m"
    using assms by (simp add: login_of_def)
  show "login_passwordKey l = login_passwordKey k \<Longrightarrow> n = m"
    using assms password_slug_inject [OF c] by (simp add: login_of_def)
qed

lemma login_of_distinct:
  assumes all: "list_all2 (login_of P db) ns ls" and d: "distinct ns"
  shows "distinct (map login_role ls)" "distinct (map login_connectionKey ls)"
    "distinct (map login_passwordKey ls)"
proof -
  have names: "distinct (map login_name ls)" using d login_of_names [OF all] by simp
  note inj = login_of_inject [OF login_of_set [OF all] login_of_set [OF all]]
  show "distinct (map login_role ls)" by (rule distinct_map_on [OF names inj(1)])
  show "distinct (map login_connectionKey ls)" by (rule distinct_map_on [OF names inj(2)])
  show "distinct (map login_passwordKey ls)" by (rule distinct_map_on [OF names inj(3)])
qed

lemma login_of_connectionKey:
  assumes "login_of P db n l"
  shows "login_connectionKey l \<notin> {ownerConnectionKey, readOnlyConnectionKey, readWriteConnectionKey}"
proof -
  have keys: "ownerConnectionKey = ''owner'' @ ''-connection''"
    "readOnlyConnectionKey = ''read-only'' @ ''-connection''"
    "readWriteConnectionKey = ''read-write'' @ ''-connection''"
    by (simp_all add: connection_keys)
  show ?thesis
    using assms unfolding keys login_of_def reservedRuntimeLoginNames_def
    by (simp only: append_same_eq) simp
qed

lemma login_of_passwordKey:
  assumes "login_of P db n l"
  shows "login_passwordKey l \<notin> {''POSTGRES_USER'', ''POSTGRES_PASSWORD'',
     ''POSTGRES_READ_ONLY_PASSWORD'', ''POSTGRES_READ_WRITE_PASSWORD''}"
proof -
  let ?u = "map upper_char (login_slug n)"
  have n: "n \<noteq> []" "list_all login_char n" and res: "n \<noteq> ''read-only''" "n \<noteq> ''read-write''"
    and key: "login_passwordKey l = ''POSTGRES_'' @ ?u @ ''_PASSWORD''"
    using assms validRuntimeLoginName_shape by (auto simp: login_of_def reservedRuntimeLoginNames_def)
  have ro: "list_all login_char ''read-only''" "map upper_char (login_slug ''read-only'') = ''READ_ONLY''"
    and rw: "list_all login_char ''read-write''" "map upper_char (login_slug ''read-write'') = ''READ_WRITE''"
    by code_simp+
  have "?u \<noteq> ''READ_ONLY''" "?u \<noteq> ''READ_WRITE''"
    using password_slug_inject [OF n(2) ro(1)] password_slug_inject [OF n(2) rw(1)] ro(2) rw(2) res
    by simp_all
  then have "?u @ ''_PASSWORD'' \<noteq> ''READ_ONLY'' @ ''_PASSWORD''"
    "?u @ ''_PASSWORD'' \<noteq> ''READ_WRITE'' @ ''_PASSWORD''"
    by (metis append_same_eq)+
  moreover have "length (login_passwordKey l) > 18"
    using n(1) key by (cases n) (auto simp: login_slug_def replace_char_def)
  ultimately show ?thesis using key by auto
qed


section \<open>Credentials\<close>

lemma check_login_passwords_None:
  "check_login_passwords pw used ls = None \<Longrightarrow>
     distinct (map (pw \<circ> login_name) ls) \<and> set (map (pw \<circ> login_name) ls) \<inter> fst ` set used = {}
     \<and> (\<forall>l \<in> set ls. \<not> blank (pw (login_name l)))"
proof (induction ls arbitrary: used)
  case Nil
  then show ?case by simp
next
  case (Cons l ls)
  let ?p = "pw (login_name l)"
  from Cons.prems have nb: "\<not> blank ?p" and fresh: "map_of used ?p = None"
    and rest: "check_login_passwords pw ((?p, login_name l) # used) ls = None"
    by (auto simp: Let_def split: if_splits option.splits)
  from fresh have "?p \<notin> fst ` set used" by (simp add: map_of_eq_None_iff)
  with Cons.IH [OF rest] nb show ?case by auto
qed

lemma validate_passwords_None:
  "validate_passwords s = None \<Longrightarrow>
     distinct [postgresPassword s, readOnlyPassword s, readWritePassword s]
     \<and> (\<forall>p \<in> {postgresPassword s, readOnlyPassword s, readWritePassword s}. \<not> blank p)"
  by (auto simp: validate_passwords_def managed_credentials_def split: option.splits if_splits)

lemma validateCredentials_None:
  assumes "validateCredentials P s = None"
  obtains logins where
    "\<not> blank (DatabaseName (settings s))" "\<not> blank (postgresUser s)"
    "validateAuthMode (settings s) = None"
    "\<not> externalIdentity (settings s) \<Longrightarrow> validate_passwords s = None"
    "is_ok (runtimeAccess P s)"
    "resolveRuntimeLogins P (settings s) = Inr logins"
    "check_login_passwords (login_password s)
       [(readWritePassword s, ''read-write''), (readOnlyPassword s, ''read-only''),
        (postgresPassword s, ''owner'')] logins = None"
  using assms
  by (auto simp: validateCredentials_def is_ok_iff split: option.splits if_splits sum.splits)

lemma load_login_passwords_frame:
  "load_login_passwords P conf ls s = (e, s') \<Longrightarrow>
     settings s' = settings s \<and> postgresUser s' = postgresUser s
     \<and> postgresPassword s' = postgresPassword s \<and> readOnlyPassword s' = readOnlyPassword s
     \<and> readWritePassword s' = readWritePassword s"
  by (induction P conf ls s rule: load_login_passwords.induct)
    (auto simp: Let_def split: if_splits prod.splits)

lemma LoadConfiguration_validated:
  "LoadConfiguration P conf s = (None, s') \<Longrightarrow> validateCredentials P s' = None"
  by (auto simp: LoadConfiguration_def Let_def split: prod.splits if_splits sum.splits option.splits)

lemma LoadConfiguration_owner:
  "LoadConfiguration P conf s = (None, s') \<Longrightarrow>
     postgresUser s' = (if nativeOwner s \<noteq> [] then nativeOwner s else fst (conf ''POSTGRES_USER''))
     \<and> settings s' = settings s \<and> postgresPassword s' = fst (conf ''POSTGRES_PASSWORD'')"
  by (auto simp: LoadConfiguration_def load_derived_def Let_def
      split: prod.splits if_splits sum.splits option.splits dest!: load_login_passwords_frame)

section \<open>Properties\<close>

text \<open>
  The read-only, read-write and native-owner role names derived from any database name are
  pairwise different, safe SQL identifiers of at most 63 bytes, whatever the digest and the
  Unicode tables are.
\<close>

theorem runtime_role_names_safe:
  "(case runtimeRoleNames P db of (ro, rw) \<Rightarrow>
      distinct [ro, rw, nativeOwnerRole P db]
      \<and> list_all (\<lambda>r. validSQLIdentifier r \<and> length r \<le> 63 \<and> prefix ''codefly_'' r)
          [ro, rw, nativeOwnerRole P db])"
  using runtimeRolePrefix_shape [of P db]
  by (auto simp: runtimeRoleNames_def nativeOwnerRole_def Let_def validSQLIdentifier_def
      ident_char_def is_lower_def prefix_def)

text \<open>
  When the declared runtime logins resolve, their roles are safe identifiers of at most 63
  bytes, different from each other and from the managed read-only, read-write and owner roles;
  their connection and password keys are different from each other and from every managed key;
  and each login keeps a nonempty duplicate-free set of delegated roles that contains no login
  role of its own.
\<close>

theorem runtime_logins_isolated:
  assumes "resolveRuntimeLogins P s = Inr logins"
    and "runtimeRoleNames P (DatabaseName s) = (ro, rw)"
  shows "distinct ([ro, rw, nativeOwnerRole P (DatabaseName s)] @ map login_role logins)
    \<and> distinct ([ownerConnectionKey, readOnlyConnectionKey, readWriteConnectionKey]
               @ map login_connectionKey logins)
    \<and> distinct ([''POSTGRES_USER'', ''POSTGRES_PASSWORD'', ''POSTGRES_READ_ONLY_PASSWORD'',
                ''POSTGRES_READ_WRITE_PASSWORD''] @ map login_passwordKey logins)
    \<and> (\<forall>l \<in> set logins. validSQLIdentifier (login_role l) \<and> length (login_role l) \<le> 63
         \<and> login_readWriteRoles l \<noteq> [] \<and> distinct (login_readWriteRoles l)
         \<and> set (login_readWriteRoles l) \<inter> {ro, rw, login_role l} = {})"
proof -
  let ?db = "DatabaseName s" and ?ns = "map rl_Name (RuntimeLogins s)"
  have all: "list_all2 (login_of P ?db) ?ns logins" and d: "distinct ?ns"
    using resolveRuntimeLogins_Inr [OF assms(1)] by auto
  have ro: "ro = runtimeRolePrefix P ?db @ ''_ro''" and rw: "rw = runtimeRolePrefix P ?db @ ''_rw''"
    using assms(2) by (auto simp: runtimeRoleNames_def Let_def)
  have of: "login_of P ?db (login_name l) l" if "l \<in> set logins" for l
    using login_of_set [OF all that] .
  note dist = login_of_distinct [OF all d]
  have facts: "login_role l \<notin> {ro, rw, nativeOwnerRole P ?db}" if "l \<in> set logins" for l
    using of [OF that] login_of_role_facts(3) [OF of [OF that]] unfolding login_of_def ro rw by blast
  have conn: "login_connectionKey l \<notin> {ownerConnectionKey, readOnlyConnectionKey, readWriteConnectionKey}"
    if "l \<in> set logins" for l
    using login_of_connectionKey [OF of [OF that]] .
  have pw: "login_passwordKey l \<notin> {''POSTGRES_USER'', ''POSTGRES_PASSWORD'',
     ''POSTGRES_READ_ONLY_PASSWORD'', ''POSTGRES_READ_WRITE_PASSWORD''}" if "l \<in> set logins" for l
    using login_of_passwordKey [OF of [OF that]] .
  have per: "validSQLIdentifier (login_role l) \<and> length (login_role l) \<le> 63
         \<and> login_readWriteRoles l \<noteq> [] \<and> distinct (login_readWriteRoles l)
         \<and> set (login_readWriteRoles l) \<inter> {ro, rw, login_role l} = {}" if "l \<in> set logins" for l
    using of [OF that] login_of_role_facts(1,2) [OF of [OF that]] by (auto simp: login_of_def ro rw)
  have base: "distinct [ro, rw, nativeOwnerRole P ?db]" by (simp add: ro rw nativeOwnerRole_def)
  have "set [ro, rw, nativeOwnerRole P ?db] \<inter> set (map login_role logins) = {}"
    using facts by fastforce
  with base dist(1) have "distinct ([ro, rw, nativeOwnerRole P ?db] @ map login_role logins)"
    by (simp only: distinct_append)
  moreover have "distinct ([ownerConnectionKey, readOnlyConnectionKey, readWriteConnectionKey]
               @ map login_connectionKey logins)"
  proof -
    have "distinct [ownerConnectionKey, readOnlyConnectionKey, readWriteConnectionKey]"
      by (simp add: connection_keys)
    moreover have "set [ownerConnectionKey, readOnlyConnectionKey, readWriteConnectionKey]
        \<inter> set (map login_connectionKey logins) = {}"
      using conn by fastforce
    ultimately show ?thesis using dist(2) by (simp only: distinct_append)
  qed
  moreover have "distinct ([''POSTGRES_USER'', ''POSTGRES_PASSWORD'', ''POSTGRES_READ_ONLY_PASSWORD'',
                ''POSTGRES_READ_WRITE_PASSWORD''] @ map login_passwordKey logins)"
  proof -
    have "set [''POSTGRES_USER'', ''POSTGRES_PASSWORD'', ''POSTGRES_READ_ONLY_PASSWORD'',
        ''POSTGRES_READ_WRITE_PASSWORD''] \<inter> set (map login_passwordKey logins) = {}"
      using pw by fastforce
    then show ?thesis using dist(3) by (simp only: distinct_append) simp
  qed
  ultimately show ?thesis using per by blast
qed


lemma sample_logins:
  "resolveRuntimeLogins sample_platform sample_settings =
     Inr [\<lparr>login_name = ''maintenance'', login_role = ''codefly_orders_db_00000000_maintenance'',
           login_passwordKey = ''POSTGRES_MAINTENANCE_PASSWORD'',
           login_connectionKey = ''maintenance-connection'', login_readWriteRoles = [''app_runtime'']\<rparr>]"
  by code_simp

lemma sample_roles:
  "runtimeRoleNames sample_platform (DatabaseName sample_settings) =
     (''codefly_orders_db_00000000_ro'', ''codefly_orders_db_00000000_rw'')"
  by code_simp

theorem runtime_logins_isolated_witness:
  "distinct [''codefly_orders_db_00000000_ro'', ''codefly_orders_db_00000000_rw'',
     nativeOwnerRole sample_platform (DatabaseName sample_settings),
     ''codefly_orders_db_00000000_maintenance'']"
  using runtime_logins_isolated [OF sample_logins sample_roles] by simp

text \<open>
  In password mode, credentials that validate are all nonblank and pairwise distinct: the
  owner's, the reader's, the writer's and every declared login's password.
\<close>

theorem credentials_pairwise_distinct:
  assumes "validateCredentials P s = None" and "\<not> externalIdentity (settings s)"
    and "resolveRuntimeLogins P (settings s) = Inr logins"
  shows "distinct ([postgresPassword s, readOnlyPassword s, readWritePassword s]
           @ map (login_password s \<circ> login_name) logins)
    \<and> (\<forall>p \<in> set ([postgresPassword s, readOnlyPassword s, readWritePassword s]
           @ map (login_password s \<circ> login_name) logins). \<not> blank p)"
proof -
  obtain pw: "validate_passwords s = None"
    and ls: "check_login_passwords (login_password s)
       [(readWritePassword s, ''read-write''), (readOnlyPassword s, ''read-only''),
        (postgresPassword s, ''owner'')] logins = None"
    using assms by (auto elim!: validateCredentials_None)
  show ?thesis
    using validate_passwords_None [OF pw] check_login_passwords_None [OF ls] by auto
qed

theorem credentials_pairwise_distinct_witness:
  "distinct [''a'', ''b'', ''c'', login_password sample_service ''maintenance'']"
proof -
  have v: "validateCredentials sample_platform sample_service = None" by code_simp
  have e: "\<not> externalIdentity (settings sample_service)" by code_simp
  have l: "settings sample_service = sample_settings" by (simp add: sample_service_def)
  show ?thesis
    using credentials_pairwise_distinct [OF v e sample_logins [folded l]]
    by (simp add: sample_service_def)
qed

text \<open>
  The message a runtime password is derived from identifies its database and its capability:
  two derivations with the same message are for the same pair, unless a database name holds a NUL
  byte, which PostgreSQL does not allow in a name.
\<close>

theorem derived_password_domain_separated:
  assumes "NUL \<notin> set db1" and "NUL \<notin> set db2"
    and "password_message db1 c1 = password_message db2 c2"
  shows "db1 = db2 \<and> c1 = c2"
proof -
  have "db1 @ [NUL] @ c1 = db2 @ [NUL] @ c2" using assms(3) by (simp add: password_message_def)
  then have "takeWhile (\<lambda>c. c \<noteq> NUL) (db1 @ [NUL] @ c1) = takeWhile (\<lambda>c. c \<noteq> NUL) (db2 @ [NUL] @ c2)"
    by simp
  moreover have "takeWhile (\<lambda>c. c \<noteq> NUL) (db @ NUL # c) = db" if "NUL \<notin> set db" for db c
    using that by (subst takeWhile_append2) auto
  ultimately have "db1 = db2" using assms(1,2) by simp
  with assms(3) show ?thesis by (simp add: password_message_def)
qed

theorem derived_password_domain_separated_witness:
  "password_message ''orders'' readOnlyConnectionKey \<noteq> password_message ''orders'' readWriteConnectionKey"
  using derived_password_domain_separated [of "''orders''" "''orders''" readOnlyConnectionKey readWriteConnectionKey]
  by (auto simp: NUL_def connection_keys)

text \<open>
  After a configuration loads without error, the owner is the native owner role when one is
  set and the configured user otherwise, and in password mode the three managed passwords are
  nonblank and distinct, also when the reader's and writer's were absent and had to be derived.
\<close>

theorem load_configuration_sound:
  assumes "LoadConfiguration P conf s = (None, s')"
  shows "postgresUser s' = (if nativeOwner s \<noteq> [] then nativeOwner s else fst (conf ''POSTGRES_USER''))
    \<and> settings s' = settings s
    \<and> (\<not> externalIdentity (settings s) \<longrightarrow>
         distinct [postgresPassword s', readOnlyPassword s', readWritePassword s']
         \<and> list_all (\<lambda>p. \<not> blank p) [postgresPassword s', readOnlyPassword s', readWritePassword s'])"
proof -
  have v: "validateCredentials P s' = None" using LoadConfiguration_validated [OF assms] by blast
  have st: "settings s' = settings s" using LoadConfiguration_owner [OF assms] by blast
  have "validate_passwords s' = None" if "\<not> externalIdentity (settings s)"
    using v that st by (elim validateCredentials_None) simp
  then show ?thesis
    using LoadConfiguration_owner [OF assms] by (auto dest!: validate_passwords_None)
qed

lemma sample_not_blank: "\<not> blank ''a''" "\<not> blank ''b''" "\<not> blank ''c''" "\<not> blank ''d''"
  by code_simp+

lemma sample_load:
  "LoadConfiguration sample_platform sample_conf (sample_service\<lparr>loginPasswords := []\<rparr>) =
     (None, sample_service\<lparr>postgresUser := ''u''\<rparr>)"
proof -
  have v: "validateCredentials sample_platform (sample_service\<lparr>postgresUser := ''u''\<rparr>) = None"
    by code_simp
  have e: "\<not> externalIdentity sample_settings" "AuthMode sample_settings = []" by code_simp+
  show ?thesis
    using v e by (simp add: LoadConfiguration_def load_derived_def derive_when_blank_def sample_conf_def
      sample_not_blank sample_logins sample_service_def)
qed

theorem load_configuration_sound_witness:
  "\<not> externalIdentity (settings sample_service) \<and>
   distinct [postgresPassword sample_service, readOnlyPassword sample_service,
     readWritePassword sample_service]"
proof -
  have "\<not> externalIdentity (settings sample_service)" by code_simp
  with load_configuration_sound [OF sample_load] show ?thesis
    by (simp add: sample_service_def)
qed

end
