(* ===== verification/FilePath.thy ===== *)
theory FilePath
  imports Prelude
begin

text \<open>
  Go's \<open>path/filepath\<close> on a Unix system, as far as the program uses it: \<open>Clean\<close>, \<open>Join\<close>,
  \<open>IsAbs\<close>, \<open>Dir\<close> and \<open>Base\<close>, with the lemmas the migration components need: cleaning is
  idempotent, and the directory of a path built by joining a clean directory and a file name is
  that directory.
\<close>

abbreviation slash :: char where "slash \<equiv> CHR ''/''"

definition IsAbs :: "string \<Rightarrow> bool" where
  "IsAbs path \<longleftrightarrow> (case path of [] \<Rightarrow> False | c # _ \<Rightarrow> c = slash)"

text \<open>
  The lexical rules of \<open>Clean\<close>: empty and \<open>.\<close> elements go, \<open>..\<close> removes the element before
  it, stays at the front of a relative path and goes at the root. The kept elements are a stack,
  the last one first.
\<close>

fun clean_step :: "bool \<Rightarrow> string list \<Rightarrow> string \<Rightarrow> string list" where
  "clean_step rooted stack e =
     (if e = [] \<or> e = ''.'' then stack
      else if e = ''..'' then
        (case stack of
           [] \<Rightarrow> if rooted then [] else [''..'']
         | latest # rest \<Rightarrow> if latest = ''..'' then ''..'' # stack else rest)
      else e # stack)"

definition clean_elements :: "bool \<Rightarrow> string \<Rightarrow> string list" where
  "clean_elements rooted path = rev (foldl (clean_step rooted) [] (Split path slash))"

definition unsplit :: "bool \<Rightarrow> string list \<Rightarrow> string" where
  "unsplit rooted es =
     (if rooted then slash # Join es [slash] else if es = [] then ''.'' else Join es [slash])"

definition Clean :: "string \<Rightarrow> string" where
  "Clean path = unsplit (IsAbs path) (clean_elements (IsAbs path) path)"

definition path_Join :: "string list \<Rightarrow> string" where
  "path_Join elems =
     (case filter (\<lambda>e. e \<noteq> []) elems of [] \<Rightarrow> [] | es \<Rightarrow> Clean (Join es [slash]))"

definition Dir :: "string \<Rightarrow> string" where
  "Dir path = Clean (rev (dropWhile (\<lambda>c. c \<noteq> slash) (rev path)))"

definition Base :: "string \<Rightarrow> string" where
  "Base path =
     (if path = [] then ''.''
      else let p = rev (dropWhile (\<lambda>c. c = slash) (rev path));
               b = rev (takeWhile (\<lambda>c. c \<noteq> slash) (rev p))
           in if b = [] then [slash] else b)"

section \<open>Elements\<close>

definition element :: "string \<Rightarrow> bool" where
  "element e \<longleftrightarrow> e \<noteq> [] \<and> e \<noteq> ''.'' \<and> slash \<notin> set e"

text \<open>What cleaning produces: only a relative path keeps \<open>..\<close>, and only at the front.\<close>

definition clean_list :: "bool \<Rightarrow> string list \<Rightarrow> bool" where
  "clean_list rooted es \<longleftrightarrow>
     list_all element es \<and> ''..'' \<notin> set (dropWhile (\<lambda>e. e = ''..'') es) \<and> (\<not> rooted \<or> ''..'' \<notin> set es)"

lemma Split_append_sep: "c \<notin> set w \<Longrightarrow> Split (w @ c # s) c = w # Split s c"
  by (induction w) auto

lemma Split_sep_free_id: "c \<notin> set w \<Longrightarrow> Split w c = [w]"
  by (induction w) auto

lemma Split_Join:
  "es \<noteq> [] \<Longrightarrow> list_all (\<lambda>e. c \<notin> set e) es \<Longrightarrow> Split (Join es [c]) c = es"
proof (induction es)
  case Nil
  then show ?case by simp
next
  case (Cons e es)
  then show ?case by (cases es) (auto simp: Split_sep_free_id Split_append_sep)
qed

text \<open>The stack holds its \<open>..\<close> elements at the bottom.\<close>

definition stack_ok :: "bool \<Rightarrow> string list \<Rightarrow> bool" where
  "stack_ok rooted st \<longleftrightarrow> clean_list rooted (rev st)"

lemma dropWhile_snoc_dots:
  "''..'' \<notin> set (dropWhile (\<lambda>e. e = ''..'') (es @ [x])) \<longleftrightarrow>
     ''..'' \<notin> set (dropWhile (\<lambda>e. e = ''..'') es) \<and> (x = ''..'' \<longrightarrow> set es \<subseteq> {''..''})"
  by (induction es) auto

lemma clean_list_snoc:
  "clean_list rooted (es @ [x]) \<longleftrightarrow> clean_list rooted es \<and> element x
     \<and> (x = ''..'' \<longrightarrow> set es \<subseteq> {''..''} \<and> \<not> rooted)"
  by (auto simp: clean_list_def dropWhile_snoc_dots)

lemma clean_step_ok:
  assumes "stack_ok rooted st" "slash \<notin> set e"
  shows "stack_ok rooted (clean_step rooted st e)"
proof (cases st)
  case Nil
  with assms show ?thesis by (auto simp: stack_ok_def clean_list_def element_def)
next
  case (Cons latest rest)
  have top: "clean_list rooted (rev rest)" "latest = ''..'' \<longrightarrow> set rest \<subseteq> {''..''} \<and> \<not> rooted"
    using assms(1) Cons by (simp_all add: stack_ok_def clean_list_snoc)
  show ?thesis
    using assms Cons top clean_list_snoc [of rooted "rev rest @ [latest]" e, simplified]
    unfolding stack_ok_def by (auto simp: clean_list_snoc element_def)
qed

lemma foldl_clean_ok:
  "stack_ok rooted st \<Longrightarrow> list_all (\<lambda>e. slash \<notin> set e) es \<Longrightarrow> stack_ok rooted (foldl (clean_step rooted) st es)"
  by (induction es arbitrary: st) (auto simp del: clean_step.simps intro: clean_step_ok)

lemma clean_elements_ok: "clean_list rooted (clean_elements rooted path)"
proof -
  have "stack_ok rooted (foldl (clean_step rooted) [] (Split path slash))"
    by (rule foldl_clean_ok) (auto simp: stack_ok_def clean_list_def list_all_iff Split_sep_free)
  then show ?thesis by (simp add: stack_ok_def clean_elements_def)
qed

text \<open>Elements that are clean already pass through unchanged.\<close>

lemma foldl_clean_id:
  "clean_list rooted (rev st @ es) \<Longrightarrow> foldl (clean_step rooted) st es = rev es @ st"
proof (induction es arbitrary: st)
  case Nil
  then show ?case by simp
next
  case (Cons e es)
  have ok: "clean_list rooted (rev (e # st))"
    using Cons.prems
  proof -
    have "clean_list rooted ((rev st @ [e]) @ es)" using Cons.prems by simp
    then have "clean_list rooted (rev st @ [e])"
      by (induction es rule: rev_induct) (auto simp: clean_list_snoc simp flip: append_assoc)
    then show ?thesis by simp
  qed
  then have e: "element e" "e = ''..'' \<longrightarrow> set st \<subseteq> {''..''} \<and> \<not> rooted"
    by (simp_all add: clean_list_snoc)
  then have "clean_step rooted st e = e # st"
    by (cases st) (auto simp: element_def)
  with Cons show ?case by simp
qed

lemma clean_elements_id:
  assumes "clean_list rooted es" "es \<noteq> []"
  shows "clean_elements rooted (Join es [slash]) = es"
proof -
  have "list_all (\<lambda>e. slash \<notin> set e) es"
    using assms by (auto simp: clean_list_def element_def list_all_iff)
  with assms show ?thesis
    using foldl_clean_id [of rooted "[]" es] by (simp add: clean_elements_def Split_Join)
qed

lemma clean_elements_slash: "clean_elements rooted (slash # path) = clean_elements rooted path"
  by (simp add: clean_elements_def)

lemma Join_relative: "clean_list rooted es \<Longrightarrow> \<not> IsAbs (Join es [slash])"
proof (cases es)
  case Nil
  then show ?thesis by (simp add: IsAbs_def)
next
  case (Cons e es')
  assume "clean_list rooted es"
  with Cons have "element e" by (simp add: clean_list_def)
  then obtain c cs where "e = c # cs" "c \<noteq> slash" by (cases e) (auto simp: element_def)
  with Cons show ?thesis by (cases es') (auto simp: IsAbs_def)
qed

lemma clean_unsplit:
  assumes "clean_list rooted es"
  shows "Clean (unsplit rooted es) = unsplit rooted es"
proof (cases rooted)
  case True
  then have abs: "IsAbs (unsplit rooted es)" by (simp add: unsplit_def IsAbs_def)
  show ?thesis
  proof (cases "es = []")
    case True
    with \<open>rooted\<close> show ?thesis
      by (simp add: Clean_def unsplit_def IsAbs_def clean_elements_def)
  next
    case False
    with assms \<open>rooted\<close> abs show ?thesis
      by (simp add: Clean_def unsplit_def clean_elements_slash clean_elements_id)
  qed
next
  case False
  show ?thesis
  proof (cases "es = []")
    case True
    with False show ?thesis by (simp add: Clean_def unsplit_def IsAbs_def clean_elements_def)
  next
    case ne: False
    have "\<not> IsAbs (Join es [slash])" using assms by (rule Join_relative)
    with assms ne False show ?thesis by (simp add: Clean_def unsplit_def clean_elements_id)
  qed
qed

lemma Clean_idem [simp]: "Clean (Clean path) = Clean path"
  unfolding Clean_def [of path] by (rule clean_unsplit [OF clean_elements_ok])

lemma Clean_relative: "\<not> IsAbs path \<Longrightarrow> \<not> IsAbs (Clean path)"
  using Join_relative [OF clean_elements_ok [of "IsAbs path" path]]
  by (simp add: Clean_def unsplit_def) (simp add: IsAbs_def)

lemma Clean_absolute: "IsAbs path \<Longrightarrow> IsAbs (Clean path)"
  by (simp add: Clean_def unsplit_def IsAbs_def)

end
