(* ===== verification/Migrations.thy ===== *)
theory Migrations
  imports RuntimeAccess Timeouts FilePath
begin

text \<open>
  \<open>migrations.go\<close> and the file-name pattern of \<open>libs/go/schemaplan/plan.go\<close>: what counts as a
  migration file, conflicts between files, the source driver's listing, and how one lineage is
  applied: the handle with its pool, connection, control-plane lock and driver, the retry loop
  under the lock budget, and the forward run that fails closed on a dirty ledger. The file system,
  the SQL driver and golang-migrate are parameters: what each call returns.
\<close>

section \<open>Migration files\<close>

text \<open>\<open>cut_last\<close> splits at the last occurrence of a byte.\<close>

definition cut_last :: "char \<Rightarrow> string \<Rightarrow> (string \<times> string) option" where
  "cut_last c s =
     (if c \<in> set s
      then Some (rev (tl (dropWhile (\<lambda>x. x \<noteq> c) (rev s))), rev (takeWhile (\<lambda>x. x \<noteq> c) (rev s)))
      else None)"

definition direction :: "string \<Rightarrow> bool" where
  "direction d \<longleftrightarrow> d = ''up'' \<or> d = ''down''"

text \<open>
  The tail both patterns share: a direction and a plain extension, \<open>.(up|down).[A-Za-z0-9]+\<close> at
  the end. The extension holds no dot, so the last two dots are the ones that match.
\<close>

definition migration_tail :: "string \<Rightarrow> (string \<times> string) option" where
  "migration_tail s =
     (case cut_last CHR ''.'' s of
        None \<Rightarrow> None
      | Some (stem, ext) \<Rightarrow>
          if ext = [] \<or> \<not> list_all is_alnum ext then None
          else (case cut_last CHR ''.'' stem of
                  None \<Rightarrow> None
                | Some (title, d) \<Rightarrow> if direction d then Some (title, d) else None))"

text \<open>
  \<open>migrationFileName.FindStringSubmatch\<close> for \<open>^([0-9]+)_.+.(up|down).[A-Za-z0-9]+$\<close>: the
  version digits and the direction. The dot of \<open>.+\<close> matches any byte but a newline.
\<close>

definition FindStringSubmatch :: "string \<Rightarrow> (string \<times> string) option" where
  "FindStringSubmatch name =
     (let version = takeWhile is_digit name in
      case dropWhile is_digit name of
        [] \<Rightarrow> None
      | c # body \<Rightarrow>
          if version = [] \<or> c \<noteq> CHR ''_'' then None
          else (case migration_tail body of
                  None \<Rightarrow> None
                | Some (title, d) \<Rightarrow>
                    if title = [] \<or> LF \<in> set title then None else Some (version, d)))"

definition migrationLikeName :: "string \<Rightarrow> bool" where
  "migrationLikeName name \<longleftrightarrow> migration_tail name \<noteq> None"

section \<open>The file system\<close>

datatype fs_error = NotExist | FsError string

record dir_entry =
  entry_name :: string
  entry_IsDir :: bool
  entry_symlink :: bool
  entry_regular :: bool

record filesystem =
  ReadDir :: "string \<Rightarrow> (fs_error, dir_entry list) result"
  Lstat :: "string \<Rightarrow> fs_error option"
  EvalSymlinks :: "string \<Rightarrow> (fs_error, string) result"
  Stat_regular :: "string \<Rightarrow> (fs_error, bool) result"
  ReadFile :: "string \<Rightarrow> (fs_error, string) result"

section \<open>Sources\<close>

record migrationSource =
  src_name :: string
  src_dir :: string
  src_table :: string
  src_optional :: bool

definition label :: "migrationSource \<Rightarrow> string" where
  "label m = (if src_name m = [] then ''store'' else src_name m)"

definition DefaultMigrationsTable :: string where "DefaultMigrationsTable = ''schema_migrations''"

definition trackingTable :: "migrationSource \<Rightarrow> string" where
  "trackingTable m = (if src_table m = [] then DefaultMigrationsTable else src_table m)"

definition validSourceName :: "string \<Rightarrow> bool" where
  "validSourceName name \<longleftrightarrow> (if list_all ident_char name then name \<noteq> [] else False)"

datatype migration_error =
    ReadError string fs_error
  | TwoFiles nat string string string
  | IgnoredMigration string
  | DirtyLineage string int string
  | CannotApply string
  | CannotPrepare string "migration_error list" int
  | OpenFailed string string
  | CloseFailed string string
  | HandleIncomplete
  | SourceDriver string

text \<open>
  A file's claim: its version number and direction; \<open>None\<close> when the version does not fit 64 bits,
  which golang-migrate skips as well. The map of claims is an association list, latest first.
\<close>

definition claim :: "string \<Rightarrow> (nat \<times> string) option" where
  "claim name =
     (case FindStringSubmatch name of
        None \<Rightarrow> None
      | Some (digits, d) \<Rightarrow> (case ParseUint 64 digits of None \<Rightarrow> None | Some v \<Rightarrow> Some (v, d)))"

fun check_claims :: "((nat \<times> string) \<times> string) list \<Rightarrow> string list \<Rightarrow> migration_error option" where
  "check_claims claimed [] = None"
| "check_claims claimed (name # names) =
     (case claim name of
        None \<Rightarrow> check_claims claimed names
      | Some (v, d) \<Rightarrow>
          (case map_of claimed (v, d) of
             Some first \<Rightarrow> Some (TwoFiles v d first name)
           | None \<Rightarrow> check_claims (((v, d), name) # claimed) names))"

definition checkConflicts :: "string list \<Rightarrow> migration_error option" where
  "checkConflicts names = check_claims [] names"

definition migration_entries :: "dir_entry list \<Rightarrow> string list" where
  "migration_entries es =
     map entry_name (filter (\<lambda>e. \<not> entry_IsDir e \<and> FindStringSubmatch (entry_name e) \<noteq> None) es)"

text \<open>
  \<open>openSource\<close>: the listing handed to golang-migrate's iofs driver, whose own construction may
  fail (\<open>iofs_New\<close>).
\<close>

definition openSource :: "filesystem \<Rightarrow> (string list \<Rightarrow> string option) \<Rightarrow> migrationSource
    \<Rightarrow> (migration_error, string list) result" where
  "openSource F iofs_New m =
     (case ReadDir F (src_dir m) of
        Inl e \<Rightarrow> Inl (ReadError (src_dir m) e)
      | Inr entries \<Rightarrow>
          (let migrations = migration_entries entries in
           case checkConflicts migrations of
             Some e \<Rightarrow> Inl e
           | None \<Rightarrow> (case iofs_New migrations of Some e \<Rightarrow> Inl (SourceDriver e) | None \<Rightarrow> Inr migrations)))"

section \<open>One lineage's handle\<close>

text \<open>
  What the libraries answer while a handle is built and closed, and the trace of what was done.
  \<open>CloseDriver\<close> is golang-migrate's: it closes the connection the driver was given.
\<close>

datatype handle_event =
    OpenPool | ReserveConn | SetSession string | TakeLock | InitDriver int | OpenSource | NewMigrate
  | ReleaseLock | CloseSource | CloseConn | CloseDriver | ClosePool

record handle_env =
  err_open :: "string option"
  err_conn :: "string option"
  err_set :: "string \<Rightarrow> string option"
  err_lock :: "string option"
  err_driver :: "string option"
  err_source :: "migration_error option"
  err_migrate :: "string option"
  err_unlock :: "string option"
  err_close_source :: "string option"
  err_close_conn :: "string option"
  err_close_driver :: "string option"
  err_close_pool :: "string option"

definition wrapMigrationCloseError :: "string \<Rightarrow> string option \<Rightarrow> migration_error list" where
  "wrapMigrationCloseError resource err =
     (case err of None \<Rightarrow> [] | Some e \<Rightarrow> [CloseFailed resource e])"

definition migrationStatementGrace :: int where
  "migrationStatementGrace = 15 * time_Second"

definition FormatInt :: "int \<Rightarrow> string" where
  "FormatInt i = (if i < 0 then CHR ''-'' # Itoa (nat (- i)) else Itoa (nat i))"

definition session_budgets :: "Timeouts \<Rightarrow> (string \<times> int) list" where
  "session_budgets t =
     [(''lock_timeout'', migrationLock t), (''statement_timeout'', migrationStatement t)]"

definition session_statement :: "string \<times> int \<Rightarrow> string" where
  "session_statement b = ''SET '' @ fst b @ '' = '' @ FormatInt (Milliseconds (snd b))"

fun bound_session :: "handle_env \<Rightarrow> (string \<times> int) list \<Rightarrow> migration_error option \<times> handle_event list" where
  "bound_session E [] = (None, [])"
| "bound_session E (b # bs) =
     (case err_set E (session_statement b) of
        Some e \<Rightarrow> (Some (OpenFailed (fst b) e), [SetSession (session_statement b)])
      | None \<Rightarrow> (case bound_session E bs of (r, evs) \<Rightarrow> (r, SetSession (session_statement b) # evs)))"

definition boundMigrationSession :: "handle_env \<Rightarrow> Timeouts \<Rightarrow> migration_error option \<times> handle_event list" where
  "boundMigrationSession E t = bound_session E (session_budgets t)"

text \<open>The result is the joined errors, or a handle (\<open>None\<close>), with the trace.\<close>

definition openMigration :: "handle_env \<Rightarrow> Timeouts \<Rightarrow> migration_error list option \<times> handle_event list" where
  "openMigration E t =
     (case err_open E of
        Some e \<Rightarrow> (Some [OpenFailed ''database'' e], [])
      | None \<Rightarrow>
      (case err_conn E of
        Some e \<Rightarrow>
          (Some (OpenFailed ''migration connection'' e # wrapMigrationCloseError ''SQL pool'' (err_close_pool E)),
           [OpenPool, ClosePool])
      | None \<Rightarrow>
      (case boundMigrationSession E t of
        (Some e, evs) \<Rightarrow>
          (Some (e # wrapMigrationCloseError ''database connection'' (err_close_conn E)
                   @ wrapMigrationCloseError ''SQL pool'' (err_close_pool E)),
           [OpenPool, ReserveConn] @ evs @ [CloseConn, ClosePool])
      | (None, evs) \<Rightarrow>
      (case err_lock E of
        Some e \<Rightarrow>
          (Some (OpenFailed ''control-plane lock'' e # wrapMigrationCloseError ''database connection'' (err_close_conn E)
                   @ wrapMigrationCloseError ''SQL pool'' (err_close_pool E)),
           [OpenPool, ReserveConn] @ evs @ [CloseConn, ClosePool])
      | None \<Rightarrow>
      (let start = [OpenPool, ReserveConn] @ evs @ [TakeLock];
           initialise = InitDriver (wrap64 (migrationStatement t + migrationStatementGrace)) in
       case err_driver E of
        Some e \<Rightarrow>
          (Some (OpenFailed ''migration driver'' e # wrapMigrationCloseError ''database connection'' (err_close_conn E)
                   @ wrapMigrationCloseError ''SQL pool'' (err_close_pool E)),
           start @ [CloseConn, ClosePool])
      | None \<Rightarrow>
      (case err_source E of
        Some e \<Rightarrow>
          (Some (e # wrapMigrationCloseError ''database driver'' (err_close_driver E)
                   @ wrapMigrationCloseError ''SQL pool'' (err_close_pool E)),
           start @ [initialise, CloseDriver, ClosePool])
      | None \<Rightarrow>
      (case err_migrate E of
        Some e \<Rightarrow>
          (Some (OpenFailed ''migration'' e # wrapMigrationCloseError ''database driver'' (err_close_driver E)
                   @ wrapMigrationCloseError ''SQL pool'' (err_close_pool E)),
           start @ [initialise, OpenSource, CloseDriver, ClosePool])
      | None \<Rightarrow> (None, start @ [initialise, OpenSource, NewMigrate]))))))))"

text \<open>
  \<open>migrationHandle.Close\<close> on a complete handle: the lock goes before the driver's connection, and
  every failure is kept. golang-migrate's \<open>Close\<close> closes its source and then its driver.
\<close>

definition close_handle :: "handle_env \<Rightarrow> migration_error list \<times> handle_event list" where
  "close_handle E =
     (wrapMigrationCloseError ''control-plane advisory lock'' (err_unlock E)
      @ wrapMigrationCloseError ''source'' (err_close_source E)
      @ wrapMigrationCloseError ''database connection'' (err_close_driver E)
      @ wrapMigrationCloseError ''SQL pool'' (err_close_pool E),
      [ReleaseLock, CloseSource, CloseDriver, ClosePool])"

section \<open>Applying a lineage\<close>

text \<open>The outcomes of \<open>migrate.Up\<close> that the code tells apart.\<close>

datatype up_result = UpDone | UpNoChange | UpDirty int | UpFailed string

definition runUp :: "up_result \<Rightarrow> migrationSource \<Rightarrow> migration_error option" where
  "runUp r src =
     (case r of
        UpDone \<Rightarrow> None
      | UpNoChange \<Rightarrow> None
      | UpDirty v \<Rightarrow> Some (DirtyLineage (label src) v (trackingTable src))
      | UpFailed e \<Rightarrow> Some (CannotApply e))"

definition migrationOpenRetryInterval :: int where
  "migrationOpenRetryInterval = time_Second"

text \<open>
  The retry loop. Attempt \<open>k\<close> is answered by \<open>env k\<close> and takes \<open>took k\<close> nanoseconds; \<open>now\<close> is the
  time since the deadline was set. A failed attempt waits for the deadline or the retry interval,
  whichever comes first. \<open>up k\<close> is what the forward run of the handle opened at attempt \<open>k\<close> returns.
\<close>

function apply_attempts :: "(nat \<Rightarrow> handle_env) \<Rightarrow> (nat \<Rightarrow> nat) \<Rightarrow> (nat \<Rightarrow> up_result) \<Rightarrow> Timeouts
    \<Rightarrow> migrationSource \<Rightarrow> nat \<Rightarrow> int \<Rightarrow> migration_error list \<times> handle_event list" where
  "apply_attempts env took up t src k now =
     (case openMigration (env k) t of
        (None, evs) \<Rightarrow>
          (case close_handle (env k) of
             (errs, evs') \<Rightarrow>
               ((case runUp (up k) src of None \<Rightarrow> [] | Some e \<Rightarrow> [e]) @ errs, evs @ evs'))
      | (Some errs, evs) \<Rightarrow>
          (let next = now + int (took k) + migrationOpenRetryInterval in
           if next \<ge> migrationLock t
           then ([CannotPrepare (label src) errs (migrationLock t)], evs)
           else (case apply_attempts env took up t src (Suc k) next of (r, evs') \<Rightarrow> (r, evs @ evs'))))"
  by pat_completeness auto
termination
  by (relation "measure (\<lambda>(env, took, up, t, src, k, now). nat (migrationLock t - now))")
    (auto simp: migrationOpenRetryInterval_def time_Second_def)

declare apply_attempts.simps [simp del]

definition applySource :: "(nat \<Rightarrow> handle_env) \<Rightarrow> (nat \<Rightarrow> nat) \<Rightarrow> (nat \<Rightarrow> up_result) \<Rightarrow> Timeouts
    \<Rightarrow> migrationSource \<Rightarrow> migration_error list \<times> handle_event list" where
  "applySource env took up t src = apply_attempts env took up t src 0 0"

text \<open>\<open>applyMigration\<close>: the lineages in order, stopping at the first that fails.\<close>

fun applyMigration :: "(migrationSource \<Rightarrow> migration_error list) \<Rightarrow> migrationSource list
    \<Rightarrow> (string \<times> migration_error list) option" where
  "applyMigration apply_one [] = None"
| "applyMigration apply_one (src # srcs) =
     (case apply_one src of
        [] \<Rightarrow> applyMigration apply_one srcs
      | errs \<Rightarrow> Some (label src, errs))"

interpretation source_name: safe_names ident_char validSourceName
proof unfold_locales
  fix s c
  show "validSourceName s \<longleftrightarrow> s \<noteq> [] \<and> list_all ident_char s" by (auto simp: validSourceName_def)
  show "ident_char c \<Longrightarrow> is_graph c" by (rule sql_ident.ok_graph)
  show "ident_char c \<Longrightarrow> \<not> quoting_char c" by (rule sql_ident.ok_unquoted)
qed

section \<open>File names\<close>

lemma cut_last_Some: "cut_last c s = Some (a, b) \<longleftrightarrow> s = a @ c # b \<and> c \<notin> set b"
proof
  assume l: "cut_last c s = Some (a, b)"
  let ?t = "takeWhile (\<lambda>x. x \<noteq> c) (rev s)" and ?d = "dropWhile (\<lambda>x. x \<noteq> c) (rev s)"
  have "c \<in> set (rev s)" using l by (simp add: cut_last_def split: if_splits)
  then have "?d \<noteq> []" "hd ?d = c"
    using hd_dropWhile [of "\<lambda>x. x \<noteq> c" "rev s"] by (auto simp: dropWhile_eq_Nil_conv)
  then have "?d = c # tl ?d" by (metis list.collapse)
  then have "rev s = ?t @ c # tl ?d" by (metis takeWhile_dropWhile_id)
  then have "s = rev (tl ?d) @ c # rev ?t" by (metis append.assoc append_Cons append_Nil rev_append rev_rev_ident rev.simps(2))
  moreover have "c \<notin> set ?t" by (auto dest: set_takeWhileD)
  ultimately show "s = a @ c # b \<and> c \<notin> set b" using l by (auto simp: cut_last_def split: if_splits)
next
  assume "s = a @ c # b \<and> c \<notin> set b"
  then show "cut_last c s = Some (a, b)"
    by (auto simp: cut_last_def takeWhile_append dropWhile_append)
qed

lemma direction_dotless: "direction d \<Longrightarrow> CHR ''.'' \<notin> set d"
  by (auto simp: direction_def)

lemma alnum_dotless: "list_all is_alnum e \<Longrightarrow> CHR ''.'' \<notin> set e"
  by (auto simp: list_all_iff is_alnum_def is_lower_def is_upper_def is_digit_def)

lemma migration_tail_Some:
  "migration_tail s = Some (title, d) \<longleftrightarrow>
     (\<exists>ext. s = title @ ''.'' @ d @ ''.'' @ ext \<and> direction d \<and> ext \<noteq> [] \<and> list_all is_alnum ext)"
proof
  assume "migration_tail s = Some (title, d)"
  then obtain stem ext where "cut_last CHR ''.'' s = Some (stem, ext)" "ext \<noteq> []" "list_all is_alnum ext"
    "cut_last CHR ''.'' stem = Some (title, d)" "direction d"
    by (auto simp: migration_tail_def split: option.splits if_splits)
  then show "\<exists>ext. s = title @ ''.'' @ d @ ''.'' @ ext \<and> direction d \<and> ext \<noteq> [] \<and> list_all is_alnum ext"
    by (auto simp: cut_last_Some)
next
  assume "\<exists>ext. s = title @ ''.'' @ d @ ''.'' @ ext \<and> direction d \<and> ext \<noteq> [] \<and> list_all is_alnum ext"
  then obtain ext where e: "s = (title @ ''.'' @ d) @ CHR ''.'' # ext" "direction d" "ext \<noteq> []" "list_all is_alnum ext"
    by auto
  have "cut_last CHR ''.'' s = Some (title @ ''.'' @ d, ext)"
    using e alnum_dotless by (simp add: cut_last_Some)
  moreover have "cut_last CHR ''.'' (title @ ''.'' @ d) = Some (title, d)"
    using e direction_dotless by (simp add: cut_last_Some)
  ultimately show "migration_tail s = Some (title, d)" using e by (simp add: migration_tail_def)
qed

lemma takeWhile_digits:
  "list_all is_digit v \<Longrightarrow> \<not> is_digit c \<Longrightarrow>
     takeWhile is_digit (v @ c # s) = v \<and> dropWhile is_digit (v @ c # s) = c # s"
  by (induction v) auto

lemma underscore_not_digit [simp]: "\<not> is_digit CHR ''_''"
  by (simp add: is_digit_def)

definition migration_name :: "string \<Rightarrow> string \<Rightarrow> string \<Rightarrow> bool" where
  "migration_name name v d \<longleftrightarrow>
     (\<exists>title ext. name = v @ ''_'' @ title @ ''.'' @ d @ ''.'' @ ext
        \<and> v \<noteq> [] \<and> list_all is_digit v \<and> title \<noteq> [] \<and> LF \<notin> set title
        \<and> (d = ''up'' \<or> d = ''down'') \<and> ext \<noteq> [] \<and> list_all is_alnum ext)"

lemma FindStringSubmatch_Some: "FindStringSubmatch name = Some (v, d) \<longleftrightarrow> migration_name name v d"
proof
  assume m: "FindStringSubmatch name = Some (v, d)"
  then obtain body title where b: "dropWhile is_digit name = CHR ''_'' # body" "v = takeWhile is_digit name" "v \<noteq> []"
    "migration_tail body = Some (title, d)" "title \<noteq> []" "LF \<notin> set title"
    by (auto simp: FindStringSubmatch_def Let_def split: option.splits if_splits list.splits)
  have dg: "list_all is_digit v" using b(2) by (auto simp: list_all_iff dest: set_takeWhileD)
  have nm: "name = v @ CHR ''_'' # body" using b(1,2) by (metis takeWhile_dropWhile_id)
  obtain ext where "body = title @ ''.'' @ d @ ''.'' @ ext" "direction d" "ext \<noteq> []" "list_all is_alnum ext"
    using b(4) by (auto simp: migration_tail_Some)
  then show "migration_name name v d"
    unfolding migration_name_def nm direction_def
    by (intro exI [of _ title] exI [of _ ext]) (use b(3,5,6) dg in simp)
next
  assume "migration_name name v d"
  then obtain title ext where n: "name = v @ CHR ''_'' # (title @ ''.'' @ d @ ''.'' @ ext)"
    "v \<noteq> []" "list_all is_digit v" "title \<noteq> []" "LF \<notin> set title" "direction d" "ext \<noteq> []" "list_all is_alnum ext"
    by (auto simp: migration_name_def direction_def)
  then have "migration_tail (title @ ''.'' @ d @ ''.'' @ ext) = Some (title, d)"
    using migration_tail_Some by blast
  moreover note takeWhile_digits [OF n(3) underscore_not_digit, of "title @ ''.'' @ d @ ''.'' @ ext", folded n(1)]
  ultimately show "FindStringSubmatch name = Some (v, d)"
    using n(2,4,5) by (simp add: FindStringSubmatch_def)
qed

lemma check_claims_None:
  "check_claims claimed names = None \<longleftrightarrow>
     distinct (List.map_filter claim names) \<and> set (List.map_filter claim names) \<inter> fst ` set claimed = {}"
proof (induction claimed names rule: check_claims.induct)
  case (1 claimed)
  then show ?case by (simp add: map_filter_simps)
next
  case (2 claimed name names)
  show ?case
  proof (cases "claim name")
    case None
    with 2 show ?thesis by (simp add: map_filter_simps)
  next
    case (Some c)
    obtain v d where c: "c = (v, d)" by (cases c)
    show ?thesis
    proof (cases "map_of claimed (v, d)")
      case None
      then have "(v, d) \<notin> fst ` set claimed" by (simp add: map_of_eq_None_iff)
      with 2(2) [OF Some [unfolded c] refl None] Some c None show ?thesis
        by (auto simp: map_filter_simps)
    next
      case (Some f)
      then have "(v, d) \<in> fst ` set claimed" by (metis map_of_eq_None_iff option.distinct(1))
      with Some \<open>claim name = Some c\<close> c show ?thesis by (simp add: map_filter_simps)
    qed
  qed
qed

section \<open>Handles\<close>

definition released :: "handle_event list \<Rightarrow> bool" where
  "released evs \<longleftrightarrow>
     count_list evs OpenPool = count_list evs ClosePool
     \<and> count_list evs ReserveConn = count_list evs CloseConn + count_list evs CloseDriver"

lemma released_append: "released xs \<Longrightarrow> released ys \<Longrightarrow> released (xs @ ys)"
  by (simp add: released_def)

lemma bound_session_events:
  "bound_session E bs = (r, evs) \<Longrightarrow>
     set evs \<subseteq> range SetSession \<and> (r = None \<longrightarrow> evs = map (SetSession \<circ> session_statement) bs)"
  by (induction bs arbitrary: evs r) (auto split: option.splits prod.splits)

lemma bound_session_counts:
  assumes "bound_session E bs = (r, evs)" "x \<notin> range SetSession"
  shows "count_list evs x = 0"
  using bound_session_events [OF assms(1)] assms(2) by (auto simp: count_list_0_iff)

lemma openMigration_failed:
  assumes "openMigration E t = (Some errs, evs)"
  shows "released evs \<and> count_list evs OpenPool \<le> 1 \<and> errs \<noteq> []"
proof -
  obtain rb ev where b: "boundMigrationSession E t = (rb, ev)" by fastforce
  have z: "count_list ev x = 0" if "x \<notin> range SetSession" for x
    using bound_session_counts b that unfolding boundMigrationSession_def by blast
  have "count_list ev OpenPool = 0" "count_list ev ClosePool = 0" "count_list ev ReserveConn = 0"
    "count_list ev CloseConn = 0" "count_list ev CloseDriver = 0"
    by (rule z; auto)+
  then show ?thesis
    using assms unfolding openMigration_def Let_def released_def b
    by (auto split: option.splits prod.splits)
qed

lemma openMigration_opened:
  assumes "openMigration E t = (None, evs)"
  shows "evs = [OpenPool, ReserveConn] @ map (SetSession \<circ> session_statement) (session_budgets t)
    @ [TakeLock, InitDriver (wrap64 (migrationStatement t + migrationStatementGrace)), OpenSource, NewMigrate]"
  using assms unfolding openMigration_def Let_def boundMigrationSession_def
  by (auto split: option.splits prod.splits dest: bound_session_events)

lemma opened_closed_released:
  assumes "openMigration E t = (None, evs)" "close_handle E = (errs, evs')"
  shows "released (evs @ evs') \<and> count_list (evs @ evs') OpenPool = 1"
  using openMigration_opened [OF assms(1)] assms(2)
  by (auto simp: close_handle_def released_def session_budgets_def)

lemma apply_attempts_cases:
  obtains (opened) evs errs evs' where "openMigration (env k) t = (None, evs)" "close_handle (env k) = (errs, evs')"
    "apply_attempts env took up t src k now =
       ((case runUp (up k) src of None \<Rightarrow> [] | Some e \<Rightarrow> [e]) @ errs, evs @ evs')"
  | (expired) errs evs where "openMigration (env k) t = (Some errs, evs)"
    "apply_attempts env took up t src k now = ([CannotPrepare (label src) errs (migrationLock t)], evs)"
  | (retry) errs evs n where "openMigration (env k) t = (Some errs, evs)"
    "n = now + int (took k) + migrationOpenRetryInterval" "n < migrationLock t"
    "apply_attempts env took up t src k now =
       (case apply_attempts env took up t src (Suc k) n of (r, evs') \<Rightarrow> (r, evs @ evs'))"
proof (cases "openMigration (env k) t")
  case (Pair r evs)
  show thesis
  proof (cases r)
    case None
    obtain errs evs' where "close_handle (env k) = (errs, evs')" by fastforce
    with None Pair show thesis
      by (intro opened [of evs errs evs']) (simp_all add: apply_attempts.simps [of env took up t src k now])
  next
    case (Some errs)
    show thesis
    proof (cases "migrationLock t \<le> now + int (took k) + migrationOpenRetryInterval")
      case True
      with Pair Some show thesis
        by (intro expired [of errs evs]) (simp_all add: Let_def apply_attempts.simps [of env took up t src k now])
    next
      case False
      with Pair Some show thesis
        by (intro retry [of errs evs]) (auto simp: Let_def apply_attempts.simps [of env took up t src k now])
    qed
  qed
qed

text \<open>Every attempt waits at least one retry interval before the next, so the budget bounds them.\<close>

lemma apply_attempts_trace:
  "released (snd (apply_attempts env took up t src k now))
   \<and> int (count_list (snd (apply_attempts env took up t src k now)) OpenPool) * migrationOpenRetryInterval
       \<le> max migrationOpenRetryInterval (migrationLock t - now + migrationOpenRetryInterval - 1)"
proof (induction env took up t src k now rule: apply_attempts.induct)
  case (1 env took up t src k now)
  show ?case
  proof (cases rule: apply_attempts_cases [of env k t took up src now])
    case (opened evs errs evs')
    then show ?thesis
      using opened_closed_released [OF opened(1,2)] by simp
  next
    case (expired errs evs)
    then have f: "released evs" "count_list evs OpenPool \<le> 1" using openMigration_failed by blast+
    then have "int (count_list evs OpenPool) * migrationOpenRetryInterval \<le> migrationOpenRetryInterval"
      by (simp add: migrationOpenRetryInterval_def time_Second_def)
    with expired f show ?thesis by simp
  next
    case (retry errs evs n)
    then have f: "released evs" "count_list evs OpenPool \<le> 1" using openMigration_failed by blast+
    obtain r evs' where rest: "apply_attempts env took up t src (Suc k) n = (r, evs')" by fastforce
    have ih: "released evs'" "int (count_list evs' OpenPool) * migrationOpenRetryInterval
        \<le> max migrationOpenRetryInterval (migrationLock t - n + migrationOpenRetryInterval - 1)"
      using 1 [OF retry(1) [symmetric] refl refl] retry(2,3) rest by (auto simp: Let_def)
    have "int (count_list evs OpenPool) * migrationOpenRetryInterval \<le> migrationOpenRetryInterval"
      using f(2) by (simp add: migrationOpenRetryInterval_def time_Second_def)
    moreover have "n \<ge> now + migrationOpenRetryInterval" using retry(2) by simp
    ultimately have "int (count_list (evs @ evs') OpenPool) * migrationOpenRetryInterval
        \<le> max migrationOpenRetryInterval (migrationLock t - now + migrationOpenRetryInterval - 1)"
      using ih(2) retry(3) by (simp add: algebra_simps max_def split: if_splits)
    with retry(4) rest released_append [OF f(1) ih(1)] show ?thesis by simp
  qed
qed

lemma migrationLock_exact:
  assumes "validate_timeouts t = None"
  shows "migrationLock t = seconds (MigrationLock t) defaultMigrationLockSeconds * time_Second"
    "1 \<le> seconds (MigrationLock t) defaultMigrationLockSeconds"
proof -
  have f: "0 \<le> MigrationLock t \<and> MigrationLock t \<le> maxTimeoutSeconds"
    using validated_field [OF assms] by (auto simp: configured_budgets_def)
  show "migrationLock t = seconds (MigrationLock t) defaultMigrationLockSeconds * time_Second"
    "1 \<le> seconds (MigrationLock t) defaultMigrationLockSeconds"
    using budget_exact [of "MigrationLock t" defaultMigrationLockSeconds]
      seconds_range [of "MigrationLock t" defaultMigrationLockSeconds] f
    by (simp_all add: migrationLock_def timeout_defs)
qed

section \<open>Properties\<close>

text \<open>
  A file is a migration exactly when its name is a nonempty run of digits, an underscore, a
  nonempty title without a newline, a direction and one plain alphanumeric extension, and then the
  parsed version and direction are those parts of the name, which are unique.
\<close>

theorem migration_file_name_exact:
  "FindStringSubmatch name = Some (v, d) \<longleftrightarrow>
     (\<exists>title ext. name = v @ ''_'' @ title @ ''.'' @ d @ ''.'' @ ext
        \<and> v \<noteq> [] \<and> list_all is_digit v \<and> title \<noteq> [] \<and> LF \<notin> set title
        \<and> (d = ''up'' \<or> d = ''down'') \<and> ext \<noteq> [] \<and> list_all is_alnum ext)"
  by (simp add: FindStringSubmatch_Some migration_name_def)

text \<open>
  C5: the listing handed to golang-migrate holds exactly the directory's migration files, in
  order, without directories and leftovers, and no two of them claim the same version number and
  direction (numbers are compared, not digits).
\<close>

theorem open_source_conflict_free:
  assumes "openSource F new m = Inr listing"
  shows "distinct (List.map_filter claim listing)
     \<and> (\<exists>es. ReadDir F (src_dir m) = Inr es
          \<and> listing = map entry_name (filter (\<lambda>e. \<not> entry_IsDir e \<and> (\<exists>v d. migration_name (entry_name e) v d)) es))"
proof -
  obtain es where "ReadDir F (src_dir m) = Inr es" "listing = migration_entries es" "checkConflicts listing = None"
    using assms by (auto simp: openSource_def Let_def split: sum.splits option.splits)
  then show ?thesis
    by (simp add: migration_entries_def FindStringSubmatch_Some checkConflicts_def check_claims_None)
qed

theorem open_source_conflict_free_witness:
  "distinct (List.map_filter claim [''1_init.up.sql'', ''1_init.down.sql''])"
proof -
  let ?e = "\<lambda>n. \<lparr>entry_name = n, entry_IsDir = False, entry_symlink = False, entry_regular = True\<rparr>"
  let ?F = "\<lparr>ReadDir = (\<lambda>_. Inr [?e ''1_init.up.sql'', ?e ''1_init.up.sql~'', ?e ''1_init.down.sql'']),
     Lstat = (\<lambda>_. None), EvalSymlinks = (\<lambda>p. Inr p), Stat_regular = (\<lambda>_. Inr True), ReadFile = (\<lambda>_. Inr [])\<rparr>"
  have "openSource ?F (\<lambda>_. None) \<lparr>src_name = [], src_dir = ''m'', src_table = [], src_optional = False\<rparr>
      = Inr [''1_init.up.sql'', ''1_init.down.sql'']"
    by (simp add: openSource_def migration_entries_def checkConflicts_def claim_def ParseUint_def digits_val_def
        digit_val_def FindStringSubmatch_def migration_tail_def cut_last_def direction_def is_alnum_def
        is_lower_def is_upper_def is_digit_def)
  from open_source_conflict_free [OF this] show ?thesis by blast
qed

text \<open>
  C6: applying a lineage always returns, and whatever fails on the way every pool it opened was
  closed and every reserved connection closed, directly or through its driver; with accepted
  timeouts the connection is attempted at most once per second of the lock budget.
\<close>

theorem apply_source_releases:
  assumes "validate_timeouts t = None"
  shows "released (snd (applySource env took up t src))
    \<and> int (count_list (snd (applySource env took up t src)) OpenPool) \<le> seconds (MigrationLock t) 30"
proof -
  let ?n = "count_list (snd (applySource env took up t src)) OpenPool" and ?s = "seconds (MigrationLock t) 30"
  have ml: "migrationLock t = ?s * time_Second" "1 \<le> ?s"
    using migrationLock_exact [OF assms] by (simp_all add: defaultMigrationLockSeconds_def)
  have "released (snd (applySource env took up t src))"
    "int ?n * time_Second \<le> max time_Second (?s * time_Second + time_Second - 1)"
    using apply_attempts_trace [of env took up t src 0 0] ml(1)
    by (simp_all add: applySource_def migrationOpenRetryInterval_def)
  moreover from this(2) ml(2) have "int ?n * 1000000000 < (?s + 1) * 1000000000"
    by (simp add: time_Second_def max_def split: if_splits)
  ultimately show ?thesis by simp
qed

theorem apply_source_releases_witness:
  "int (count_list (snd (applySource (\<lambda>_. \<lparr>err_open = None, err_conn = Some ''refused'', err_set = (\<lambda>_. None),
      err_lock = None, err_driver = None, err_source = None, err_migrate = None, err_unlock = None,
      err_close_source = None, err_close_conn = None, err_close_driver = None, err_close_pool = None\<rparr>)
      (\<lambda>_. 5) (\<lambda>_. UpDone) \<lparr>Connect = 0, Readiness = 0, MigrationLock = 2, MigrationStatement = 0,
      BootstrapReadiness = 0, BootstrapJob = 0\<rparr>
      \<lparr>src_name = [], src_dir = ''m'', src_table = [], src_optional = False\<rparr>)) OpenPool) \<le> 2"
proof -
  let ?t = "\<lparr>Connect = 0, Readiness = 0, MigrationLock = 2, MigrationStatement = 0,
      BootstrapReadiness = 0, BootstrapJob = 0\<rparr>"
  have "validate_timeouts ?t = None" by code_simp
  from apply_source_releases [OF this] show ?thesis by (simp add: seconds_def)
qed

text \<open>
  A handle that opens has bounded its session with the lock and statement budgets in
  milliseconds before it takes the control-plane lock, and gives the driver the statement budget
  plus the grace period without wrapping; closing it releases the lock before the driver's
  connection and the pool.
\<close>

theorem migration_handle_ordered:
  assumes "validate_timeouts t = None" and "openMigration E t = (None, evs)"
  shows "evs = [OpenPool, ReserveConn,
      SetSession (''SET lock_timeout = '' @ Itoa (nat (1000 * seconds (MigrationLock t) 30))),
      SetSession (''SET statement_timeout = '' @ Itoa (nat (1000 * seconds (MigrationStatement t) 600))),
      TakeLock, InitDriver ((seconds (MigrationStatement t) 600 + 15) * 10 ^ 9), OpenSource, NewMigrate]
    \<and> snd (close_handle E) = [ReleaseLock, CloseSource, CloseDriver, ClosePool]"
proof -
  have f: "0 \<le> s \<and> s \<le> maxTimeoutSeconds" if "s \<in> {MigrationLock t, MigrationStatement t}" for s
    using validated_field [OF assms(1)] that by (auto simp: configured_budgets_def)
  note b = budget_exact [of "MigrationLock t" 30] budget_exact [of "MigrationStatement t" 600]
    seconds_range [of "MigrationLock t" 30] seconds_range [of "MigrationStatement t" 600]
  have ms: "migrationStatement t = seconds (MigrationStatement t) 600 * time_Second"
    "migrationLock t = seconds (MigrationLock t) 30 * time_Second"
    "1 \<le> seconds (MigrationStatement t) 600" "seconds (MigrationStatement t) 600 \<le> 86400"
    "1 \<le> seconds (MigrationLock t) 30"
    using b f by (simp_all add: migrationStatement_def migrationLock_def timeout_defs)
  have w: "wrap64 (migrationStatement t + migrationStatementGrace) = (seconds (MigrationStatement t) 600 + 15) * 10 ^ 9"
    using ms by (simp add: wrap64_id int64_def migrationStatementGrace_def time_Second_def)
  have m: "FormatInt (Milliseconds (s * time_Second)) = Itoa (nat (1000 * s))" if "1 \<le> s" for s
    using that by (simp add: Milliseconds_seconds FormatInt_def)
  show ?thesis
    using openMigration_opened [OF assms(2)] w ms m
    by (simp add: session_budgets_def session_statement_def close_handle_def)
qed

theorem migration_handle_ordered_witness:
  "snd (close_handle \<lparr>err_open = None, err_conn = None, err_set = (\<lambda>_. None),
      err_lock = None, err_driver = None, err_source = None, err_migrate = None, err_unlock = None,
      err_close_source = None, err_close_conn = None, err_close_driver = None, err_close_pool = None\<rparr>)
     = [ReleaseLock, CloseSource, CloseDriver, ClosePool]"
proof -
  let ?E = "\<lparr>err_open = None, err_conn = None, err_set = (\<lambda>_. None :: string option),
      err_lock = None, err_driver = None, err_source = None, err_migrate = None, err_unlock = None,
      err_close_source = None, err_close_conn = None, err_close_driver = None, err_close_pool = None\<rparr>"
  let ?t = "\<lparr>Connect = 0, Readiness = 0, MigrationLock = 2, MigrationStatement = 0,
      BootstrapReadiness = 0, BootstrapJob = 0\<rparr>"
  have v: "validate_timeouts ?t = None" by code_simp
  have "fst (openMigration ?E ?t) = None"
    by (simp add: openMigration_def Let_def boundMigrationSession_def session_budgets_def)
  then obtain evs where "openMigration ?E ?t = (None, evs)" by (metis prod.collapse)
  from migration_handle_ordered [OF v this] show ?thesis by blast
qed

end
