(* ===== verification/Schema.thy ===== *)
theory Schema
  imports Migrations
begin

text \<open>
  \<open>schema.go\<close>, and the extension half of \<open>runtime.go\<close>: the declared schema prerequisites of one
  database. Declarations are validated and resolved against the file system before a database is
  touched; the result is the list of lineages to apply, the extensions to create and what was
  skipped. \<open>Service.Local\<close> belongs to codefly's core and is a parameter.
\<close>

section \<open>Prerequisites\<close>

definition migrationTablePrefix :: string where "migrationTablePrefix = ''schema_migrations_''"
definition maxIdentifierBytes :: nat where "maxIdentifierBytes = 63"
definition prerequisiteMigrationSource :: string where "prerequisiteMigrationSource = ''migration-source''"
definition prerequisiteExtension :: string where "prerequisiteExtension = ''extension''"

record extensionRequest =
  request_name :: string
  request_required :: bool

record skippedPrerequisite =
  skip_kind :: string
  skip_name :: string
  skip_reason :: string

record schemaPrerequisites =
  sources :: "migrationSource list"
  extensions :: "extensionRequest list"
  skipped :: "skippedPrerequisite list"

datatype schema_error =
    EmptySourceName nat
  | UnsafeSourceName string
  | SourceNameTooLong string nat
  | SharedLedger string string string
  | SourceProblem string migration_error
  | SourceMissing string string
  | SourceEmpty string string
  | EmptyExtensionName nat
  | UnsafeExtensionName string
  | RequiredExtension string string
  | ExtensionConnection string

section \<open>Declared lineages\<close>

definition migrationDirectory :: "string \<Rightarrow> string \<Rightarrow> string \<Rightarrow> string" where
  "migrationDirectory location name path =
     (let path = (if path = [] then path_Join [''..'', name, ''migrations''] else path);
          path = (if \<not> IsAbs path then path_Join [location, path] else path)
      in Clean path)"

fun declare_sources :: "string \<Rightarrow> nat \<Rightarrow> (string \<times> string) list \<Rightarrow> MigrationSource list
    \<Rightarrow> (schema_error, migrationSource list) result" where
  "declare_sources location i declaring [] = Inr []"
| "declare_sources location i declaring (d # ds) =
     (let name = TrimSpace (ms_Name d);
          table = migrationTablePrefix @ name
      in if name = [] then Inl (EmptySourceName (i + 1))
         else if \<not> validSourceName name then Inl (UnsafeSourceName name)
         else if length table > maxIdentifierBytes then Inl (SourceNameTooLong name (length table))
         else case map_of declaring table of
                Some other \<Rightarrow> Inl (SharedLedger other name table)
              | None \<Rightarrow>
                  (case declare_sources location (i + 1) ((table, name) # declaring) ds of
                     Inl e \<Rightarrow> Inl e
                   | Inr rest \<Rightarrow>
                       Inr (\<lparr>src_name = name, src_dir = migrationDirectory location name (ms_Path d),
                             src_table = table, src_optional = ms_Optional d\<rparr> # rest)))"

definition declaredMigrationSources :: "Service \<Rightarrow> (schema_error, migrationSource list) result" where
  "declaredMigrationSources s = declare_sources (Location s) 0 [] (MigrationSources (settings s))"

section \<open>Counting migrations\<close>

fun count_up :: "string \<Rightarrow> nat \<Rightarrow> dir_entry list \<Rightarrow> (migration_error, nat) result" where
  "count_up dir up [] = Inr up"
| "count_up dir up (e # es) =
     (if entry_IsDir e then count_up dir up es
      else case FindStringSubmatch (entry_name e) of
             None \<Rightarrow> if migrationLikeName (entry_name e)
                     then Inl (IgnoredMigration (path_Join [dir, entry_name e]))
                     else count_up dir up es
           | Some (v, d) \<Rightarrow> count_up dir (if d = ''up'' then up + 1 else up) es)"

definition countMigrations :: "filesystem \<Rightarrow> string \<Rightarrow> (migration_error, nat) result" where
  "countMigrations F dir =
     (case ReadDir F dir of
        Inl e \<Rightarrow> Inl (ReadError dir e)
      | Inr entries \<Rightarrow> count_up dir 0 entries)"

section \<open>Resolved lineages\<close>

text \<open>\<open>errors.Is(err, fs.ErrNotExist)\<close> sees through the wrapping of the directory read.\<close>

definition is_not_exist :: "migration_error \<Rightarrow> bool" where
  "is_not_exist e = (case e of ReadError d NotExist \<Rightarrow> True | _ \<Rightarrow> False)"

datatype lineage_outcome = Apply | Skip skippedPrerequisite | Nothing | Refuse schema_error

definition skip_source :: "migrationSource \<Rightarrow> string \<Rightarrow> lineage_outcome" where
  "skip_source m reason =
     Skip \<lparr>skip_kind = prerequisiteMigrationSource, skip_name = src_name m,
           skip_reason = ''optional source directory '' @ src_dir m @ reason\<rparr>"

definition resolve_lineage :: "filesystem \<Rightarrow> migrationSource \<Rightarrow> lineage_outcome" where
  "resolve_lineage F m =
     (let own = (src_name m = []) in
      if own \<and> Lstat F (src_dir m) = Some NotExist then Nothing
      else case countMigrations F (src_dir m) of
        Inl e \<Rightarrow>
          if own then Refuse (SourceProblem (label m) e)
          else if is_not_exist e then
            (if \<not> src_optional m then Refuse (SourceMissing (src_name m) (src_dir m))
             else skip_source m '' does not exist'')
          else Refuse (SourceProblem (src_name m) e)
      | Inr n \<Rightarrow>
          if n = 0 then
            (if own then Nothing
             else if \<not> src_optional m then Refuse (SourceEmpty (src_name m) (src_dir m))
             else skip_source m '' holds no migration'')
          else Apply)"

fun resolve_lineages :: "filesystem \<Rightarrow> migrationSource list
    \<Rightarrow> (schema_error, migrationSource list \<times> skippedPrerequisite list) result" where
  "resolve_lineages F [] = Inr ([], [])"
| "resolve_lineages F (m # ms) =
     (case resolve_lineage F m of
        Refuse e \<Rightarrow> Inl e
      | outcome \<Rightarrow>
          (case resolve_lineages F ms of
             Inl e \<Rightarrow> Inl e
           | Inr (srcs, skips) \<Rightarrow>
               (case outcome of
                  Apply \<Rightarrow> Inr (m # srcs, skips)
                | Skip k \<Rightarrow> Inr (srcs, k # skips)
                | _ \<Rightarrow> Inr (srcs, skips))))"

definition own_source :: "(string \<Rightarrow> string) \<Rightarrow> migrationSource" where
  "own_source Local =
     \<lparr>src_name = [], src_dir = Local ''migrations'', src_table = [], src_optional = False\<rparr>"

definition resolveMigrationSources :: "filesystem \<Rightarrow> (string \<Rightarrow> string) \<Rightarrow> Service
    \<Rightarrow> (schema_error, migrationSource list \<times> skippedPrerequisite list) result" where
  "resolveMigrationSources F Local s =
     (case declaredMigrationSources s of
        Inl e \<Rightarrow> Inl e
      | Inr declared \<Rightarrow> resolve_lineages F (own_source Local # declared))"

section \<open>Extensions\<close>

definition defaultExtensions :: "string list" where
  "defaultExtensions = [''vector'', ''pgcrypto'', ''uuid-ossp'', ''pg_trgm'', ''citext'', ''btree_gin'']"

definition ext_char :: "char \<Rightarrow> bool" where
  "ext_char c \<longleftrightarrow> c = CHR ''_'' \<or> c = CHR ''-'' \<or> is_lower c \<or> is_upper c \<or> is_digit c"

definition validExtName :: "string \<Rightarrow> bool" where
  "validExtName name \<longleftrightarrow> (if name = [] then False else list_all ext_char name)"

definition request_defaults :: "string list \<Rightarrow> (string \<times> nat) list \<times> extensionRequest list" where
  "request_defaults names =
     (rev (zip names [0..<length names]),
      map (\<lambda>n. \<lparr>request_name = n, request_required = False\<rparr>) names)"

fun merge_extensions :: "nat \<Rightarrow> (string \<times> nat) list \<Rightarrow> extensionRequest list \<Rightarrow> Extension list
    \<Rightarrow> (schema_error, extensionRequest list) result" where
  "merge_extensions i position requests [] = Inr requests"
| "merge_extensions i position requests (d # ds) =
     (let name = TrimSpace (ext_Name d) in
      if name = [] then Inl (EmptyExtensionName (i + 1))
      else if \<not> validExtName name then Inl (UnsafeExtensionName name)
      else let request = \<lparr>request_name = name, request_required = \<not> ext_Optional d\<rparr> in
        case map_of position name of
          Some at \<Rightarrow> merge_extensions (i + 1) position (requests[at := request]) ds
        | None \<Rightarrow> merge_extensions (i + 1) ((name, length requests) # position) (requests @ [request]) ds)"

definition resolveExtensions :: "Extension list \<Rightarrow> (schema_error, extensionRequest list) result" where
  "resolveExtensions declared =
     (case request_defaults defaultExtensions of
        (position, requests) \<Rightarrow> merge_extensions 0 position requests declared)"

definition resolveSchemaPrerequisites :: "filesystem \<Rightarrow> (string \<Rightarrow> string) \<Rightarrow> Service
    \<Rightarrow> (schema_error, schemaPrerequisites) result" where
  "resolveSchemaPrerequisites F Local s =
     (case resolveMigrationSources F Local s of
        Inl e \<Rightarrow> Inl e
      | Inr (srcs, skips) \<Rightarrow>
          (case resolveExtensions (Extensions (settings s)) of
             Inl e \<Rightarrow> Inl e
           | Inr exts \<Rightarrow> Inr \<lparr>sources = srcs, extensions = exts, skipped = skips\<rparr>))"

text \<open>\<open>ensureExtensions\<close>: \<open>create\<close> answers each CREATE EXTENSION; optional failures are recorded.\<close>

definition create_extension :: "string \<Rightarrow> string" where
  "create_extension name = ''CREATE EXTENSION IF NOT EXISTS '' @ [CHR 0x22] @ name @ [CHR 0x22]"

fun ensure_extensions :: "(string \<Rightarrow> string option) \<Rightarrow> extensionRequest list \<Rightarrow> skippedPrerequisite list
    \<Rightarrow> schema_error option \<times> skippedPrerequisite list" where
  "ensure_extensions create [] skips = (None, skips)"
| "ensure_extensions create (x # xs) skips =
     (case create (create_extension (request_name x)) of
        Some e \<Rightarrow>
          if request_required x then (Some (RequiredExtension (request_name x) e), skips)
          else ensure_extensions create xs
                 (skips @ [\<lparr>skip_kind = prerequisiteExtension, skip_name = request_name x, skip_reason = e\<rparr>])
      | None \<Rightarrow> ensure_extensions create xs skips)"

definition ensureExtensions :: "string option \<Rightarrow> (string \<Rightarrow> string option) \<Rightarrow> schemaPrerequisites
    \<Rightarrow> schema_error option \<times> schemaPrerequisites" where
  "ensureExtensions open_db create p =
     (case open_db of
        Some e \<Rightarrow> (Some (ExtensionConnection e), p)
      | None \<Rightarrow>
          (case ensure_extensions create (extensions p) (skipped p) of
             (r, skips) \<Rightarrow> (r, p\<lparr>skipped := skips\<rparr>)))"

interpretation extension_name: safe_names ext_char validExtName
proof unfold_locales
  fix s c
  show "validExtName s \<longleftrightarrow> s \<noteq> [] \<and> list_all ext_char s" by (auto simp: validExtName_def)
  show "ext_char c \<Longrightarrow> is_graph c"
    by (auto simp: ext_char_def class_simps) (simp_all add: is_graph_def)
  show "ext_char c \<Longrightarrow> \<not> quoting_char c"
    by (auto simp: ext_char_def quoting_char_def is_lower_def is_upper_def is_digit_def)
qed

section \<open>Declared lineages\<close>

definition declared_source :: "migrationSource \<Rightarrow> bool" where
  "declared_source m \<longleftrightarrow> validSourceName (src_name m) \<and> src_table m = migrationTablePrefix @ src_name m
     \<and> length (src_table m) \<le> 63 \<and> Clean (src_dir m) = src_dir m"

lemma declare_sources_Inr:
  "declare_sources location i declaring ds = Inr ms \<Longrightarrow>
     list_all declared_source ms \<and> distinct (map src_table ms) \<and> set (map src_table ms) \<inter> fst ` set declaring = {}
     \<and> map src_name ms = map (\<lambda>d. TrimSpace (ms_Name d)) ds \<and> map src_optional ms = map ms_Optional ds"
proof (induction ds arbitrary: i declaring ms)
  case Nil
  then show ?case by simp
next
  case (Cons d ds)
  let ?n = "TrimSpace (ms_Name d)" and ?t = "migrationTablePrefix @ TrimSpace (ms_Name d)"
  from Cons.prems obtain rest where v: "validSourceName ?n" "length ?t \<le> 63" "map_of declaring ?t = None"
    and rest: "declare_sources location (i + 1) ((?t, ?n) # declaring) ds = Inr rest"
    and ms: "ms = \<lparr>src_name = ?n, src_dir = migrationDirectory location ?n (ms_Path d),
                             src_table = ?t, src_optional = ms_Optional d\<rparr> # rest"
    by (auto simp: Let_def maxIdentifierBytes_def split: if_splits option.splits sum.splits)
  have "?t \<notin> fst ` set declaring" using v(3) by (simp add: map_of_eq_None_iff)
  with Cons.IH [OF rest] v ms show ?case
    by (auto simp: declared_source_def migrationDirectory_def Let_def)
qed

lemma declaredMigrationSources_Inr:
  assumes "declaredMigrationSources s = Inr ms"
  shows "list_all declared_source ms" "distinct (map src_table ms)"
    "map src_name ms = map (\<lambda>d. TrimSpace (ms_Name d)) (MigrationSources (settings s))"
    "map src_optional ms = map ms_Optional (MigrationSources (settings s))"
  using declare_sources_Inr [OF assms [unfolded declaredMigrationSources_def]] by auto

lemma declared_source_named: "declared_source m \<Longrightarrow> src_name m \<noteq> [] \<and> trackingTable m = src_table m"
  using source_name.valid_nonempty by (auto simp: declared_source_def trackingTable_def migrationTablePrefix_def)

section \<open>Resolution\<close>

lemma count_up_Inr:
  "count_up dir up es = Inr n \<Longrightarrow>
     n = up + length (filter (\<lambda>e. \<not> entry_IsDir e \<and> (\<exists>v. FindStringSubmatch (entry_name e) = Some (v, ''up''))) es)
     \<and> (\<forall>e \<in> set es. entry_IsDir e \<or> FindStringSubmatch (entry_name e) \<noteq> None \<or> \<not> migrationLikeName (entry_name e))"
proof (induction es arbitrary: up)
  case Nil
  then show ?case by simp
next
  case (Cons e es)
  then show ?case by (fastforce split: if_splits option.splits prod.splits)
qed

lemma resolve_lineage_Apply:
  assumes "resolve_lineage F m = Apply"
  shows "\<exists>n. countMigrations F (src_dir m) = Inr n \<and> 0 < n"
  using assms by (auto simp: resolve_lineage_def skip_source_def Let_def split: if_splits sum.splits)

lemma resolve_lineage_Skip:
  "resolve_lineage F m = Skip k \<Longrightarrow> src_optional m \<and> src_name m \<noteq> [] \<and> skip_name k = src_name m"
  by (auto simp: resolve_lineage_def skip_source_def Let_def split: if_splits sum.splits)

lemma resolve_lineage_Nothing: "resolve_lineage F m = Nothing \<Longrightarrow> src_name m = []"
  by (auto simp: resolve_lineage_def skip_source_def Let_def split: if_splits sum.splits)

lemma resolve_lineages_Inr:
  "resolve_lineages F ms = Inr (srcs, skips) \<Longrightarrow>
     srcs = filter (\<lambda>m. resolve_lineage F m = Apply) ms
     \<and> map skip_name skips = map src_name (filter (\<lambda>m. \<exists>k. resolve_lineage F m = Skip k) ms)
     \<and> (\<forall>m \<in> set ms. \<forall>e. resolve_lineage F m \<noteq> Refuse e)"
proof (induction ms arbitrary: srcs skips)
  case Nil
  then show ?case by simp
next
  case (Cons m ms)
  then show ?case
    by (cases "resolve_lineage F m")
      (auto split: sum.splits prod.splits dest: resolve_lineage_Skip)
qed

section \<open>Extensions\<close>

definition positions_ok :: "(string \<times> nat) list \<Rightarrow> extensionRequest list \<Rightarrow> bool" where
  "positions_ok position requests \<longleftrightarrow> distinct (map request_name requests)
     \<and> (\<forall>n i. map_of position n = Some i \<longleftrightarrow> i < length requests \<and> request_name (requests ! i) = n)"

lemma positions_ok_fresh:
  assumes "positions_ok position requests" "map_of position n = None"
  shows "n \<notin> set (map request_name requests)"
proof
  assume "n \<in> set (map request_name requests)"
  then obtain i where "i < length requests" "request_name (requests ! i) = n"
    by (auto simp: in_set_conv_nth)
  then have "map_of position n = Some i" using assms(1) by (simp add: positions_ok_def)
  with assms(2) show False by simp
qed

lemma positions_ok_append:
  assumes "positions_ok position requests" "map_of position n = None"
  shows "positions_ok ((n, length requests) # position) (requests @ [\<lparr>request_name = n, request_required = b\<rparr>])"
proof -
  have "n \<notin> set (map request_name requests)"
    using assms by (rule positions_ok_fresh)
  with assms show ?thesis
    by (auto simp: positions_ok_def nth_append less_Suc_eq split: if_splits)
qed

lemma positions_ok_update:
  assumes "positions_ok position requests" "map_of position n = Some i"
  shows "positions_ok position (requests[i := \<lparr>request_name = n, request_required = b\<rparr>])"
    "map request_name (requests[i := \<lparr>request_name = n, request_required = b\<rparr>]) = map request_name requests"
proof -
  have i: "i < length requests" "request_name (requests ! i) = n" using assms by (auto simp: positions_ok_def)
  then show names: "map request_name (requests[i := \<lparr>request_name = n, request_required = b\<rparr>]) = map request_name requests"
    by (simp add: map_update) (metis list_update_id nth_map)
  have "request_name (requests[i := \<lparr>request_name = n, request_required = b\<rparr>] ! j) = request_name (requests ! j)"
    if "j < length requests" for j
    using names that by (metis length_list_update nth_map)
  then show "positions_ok position (requests[i := \<lparr>request_name = n, request_required = b\<rparr>])"
    using assms(1) names by (auto simp: positions_ok_def)
qed

text \<open>What a list of requests says about one name, and what declarations change.\<close>

definition requested :: "extensionRequest list \<Rightarrow> string \<Rightarrow> bool option" where
  "requested rs n = map_of (map (\<lambda>r. (request_name r, request_required r)) rs) n"

definition last_declared :: "Extension list \<Rightarrow> string \<Rightarrow> bool option" where
  "last_declared ds n = map_of (rev (map (\<lambda>d. (TrimSpace (ext_Name d), \<not> ext_Optional d)) ds)) n"

lemma requested_distinct:
  assumes "distinct (map request_name rs)"
  shows "requested rs n = Some b \<longleftrightarrow> (\<exists>r \<in> set rs. request_name r = n \<and> request_required r = b)"
proof -
  have "distinct (map fst (map (\<lambda>r. (request_name r, request_required r)) rs))" using assms by (simp add: comp_def)
  then have "requested rs n = Some b \<longleftrightarrow> (n, b) \<in> set (map (\<lambda>r. (request_name r, request_required r)) rs)"
    unfolding requested_def by (rule map_of_eq_Some_iff)
  then show ?thesis by auto
qed

lemma update_membership:
  assumes "i < length xs"
  shows "x \<noteq> xs ! i \<Longrightarrow> x \<noteq> y \<Longrightarrow> x \<in> set (xs[i := y]) \<longleftrightarrow> x \<in> set xs"
  using assms by (auto simp: in_set_conv_nth nth_list_update)

lemma merge_extensions_Inr:
  "positions_ok position requests \<Longrightarrow> merge_extensions i position requests ds = Inr rs \<Longrightarrow>
     distinct (map request_name rs)
     \<and> (\<exists>new. map request_name rs = map request_name requests @ new)
     \<and> (\<forall>n. requested rs n = (case last_declared ds n of Some b \<Rightarrow> Some b | None \<Rightarrow> requested requests n))
     \<and> (\<forall>d \<in> set ds. validExtName (TrimSpace (ext_Name d)))"
proof (induction ds arbitrary: i position requests)
  case Nil
  then show ?case by (auto simp: positions_ok_def last_declared_def)
next
  case (Cons d ds)
  let ?n = "TrimSpace (ext_Name d)" and ?q = "\<lparr>request_name = TrimSpace (ext_Name d), request_required = \<not> ext_Optional d\<rparr>"
  have v: "validExtName ?n" using Cons.prems(2) by (auto simp: Let_def split: if_splits)
  have ld: "last_declared (d # ds) n = (case last_declared ds n of Some b \<Rightarrow> Some b
      | None \<Rightarrow> if n = ?n then Some (\<not> ext_Optional d) else None)" for n
    by (auto simp: last_declared_def map_add_def split: option.splits)
  show ?case
  proof (cases "map_of position ?n")
    case None
    then have rec: "merge_extensions (i + 1) ((?n, length requests) # position) (requests @ [?q]) ds = Inr rs"
      using Cons.prems(2) by (auto simp: Let_def split: if_splits)
    have "?n \<notin> set (map request_name requests)"
      using Cons.prems(1) None by (rule positions_ok_fresh)
    then have "requested requests ?n = None" by (auto simp: requested_def map_of_eq_None_iff)
    then have "requested (requests @ [?q]) n = (if n = ?n then Some (\<not> ext_Optional d) else requested requests n)" for n
      by (auto simp: requested_def map_add_def split: option.splits)
    with Cons.IH [OF positions_ok_append [OF Cons.prems(1) None] rec] v show ?thesis
      by (auto simp: ld split: option.splits)
  next
    case (Some at)
    then have rec: "merge_extensions (i + 1) position (requests[at := ?q]) ds = Inr rs"
      using Cons.prems(2) by (auto simp: Let_def split: if_splits)
    note upd = positions_ok_update [OF Cons.prems(1) Some, of "\<not> ext_Optional d"]
    have at: "at < length requests" "request_name (requests ! at) = ?n"
      using Cons.prems(1) Some by (auto simp: positions_ok_def)
    have du: "distinct (map request_name (requests[at := ?q]))" and dr: "distinct (map request_name requests)"
      using upd Cons.prems(1) by (auto simp: positions_ok_def)
    have "requested (requests[at := ?q]) n = Some b \<longleftrightarrow>
        (if n = ?n then Some (\<not> ext_Optional d) else requested requests n) = Some b" for n b
    proof (cases "n = ?n")
      case True
      have "?q \<in> set (requests[at := ?q])" using at(1) by (simp add: set_update_memI)
      then have "requested (requests[at := ?q]) ?n = Some (\<not> ext_Optional d)"
        unfolding requested_distinct [OF du] by (intro bexI [of _ ?q]) simp_all
      with True show ?thesis by simp
    next
      case False
      have "r \<in> set (requests[at := ?q]) \<longleftrightarrow> r \<in> set requests" if "request_name r = n" for r
        by (rule update_membership [OF at(1)]) (use that False at(2) in auto)
      then have "(\<exists>r \<in> set (requests[at := ?q]). request_name r = n \<and> request_required r = b)
          \<longleftrightarrow> (\<exists>r \<in> set requests. request_name r = n \<and> request_required r = b)"
        by blast
      with False show ?thesis by (simp add: requested_distinct [OF du] requested_distinct [OF dr])
    qed
    then have "requested (requests[at := ?q]) n = (if n = ?n then Some (\<not> ext_Optional d) else requested requests n)" for n
      by (metis option.exhaust)
    with Cons.IH [OF upd(1) rec] v upd(2) show ?thesis
      by (auto simp: ld split: option.splits)
  qed
qed

lemma ensure_extensions_None:
  "ensure_extensions create xs skips = (None, skips') \<Longrightarrow>
     (\<forall>x \<in> set xs. request_required x \<longrightarrow> create (create_extension (request_name x)) = None)
     \<and> map skip_name skips' = map skip_name skips
         @ map request_name (filter (\<lambda>x. create (create_extension (request_name x)) \<noteq> None) xs)"
  by (induction xs arbitrary: skips) (auto split: option.splits if_splits)

lemma map_of_positions:
  assumes "distinct names"
  shows "map_of (rev (zip names [0..<length names])) n = Some i \<longleftrightarrow> i < length names \<and> names ! i = n"
proof -
  have "distinct (map fst (rev (zip names [0..<length names])))" using assms by (simp add: rev_map [symmetric])
  then have "map_of (rev (zip names [0..<length names])) n = Some i \<longleftrightarrow> (n, i) \<in> set (zip names [0..<length names])"
    by (simp add: map_of_eq_Some_iff)
  then show ?thesis by (auto simp: in_set_zip)
qed

lemma positions_ok_defaults:
  "positions_ok (fst (request_defaults defaultExtensions)) (snd (request_defaults defaultExtensions))"
proof -
  have p: "map request_name (snd (request_defaults defaultExtensions)) = defaultExtensions"
    by (simp add: request_defaults_def comp_def)
  have n: "i < length defaultExtensions \<and> defaultExtensions ! i = n \<longleftrightarrow>
      map_of (fst (request_defaults defaultExtensions)) n = Some i" for i n
    using map_of_positions [of defaultExtensions n i]
    by (simp add: request_defaults_def) (simp add: defaultExtensions_def)
  have "distinct defaultExtensions" by (simp add: defaultExtensions_def)
  moreover have "length (snd (request_defaults defaultExtensions)) = length defaultExtensions"
    by (simp add: request_defaults_def)
  moreover have "request_name (snd (request_defaults defaultExtensions) ! i) = defaultExtensions ! i"
    if "i < length defaultExtensions" for i
    using that by (simp add: request_defaults_def)
  ultimately show ?thesis using p unfolding positions_ok_def n [symmetric] by auto
qed

lemma ensureExtensions_None:
  assumes "ensureExtensions odb create p = (None, p')"
  shows "ensure_extensions create (extensions p) (skipped p) = (None, skipped p')" "extensions p' = extensions p"
  using assms by (auto simp: ensureExtensions_def split: option.splits prod.splits)

section \<open>Properties\<close>

text \<open>
  The ledgers of resolved lineages never collide: whenever the sources of a service resolve,
  their tracking tables are pairwise different, also from the service's own default table, and
  every one fits PostgreSQL's identifier limit, so that truncation cannot merge two.
\<close>

theorem resolved_ledgers_distinct:
  assumes "resolveMigrationSources F Local s = Inr (srcs, skips)"
  shows "distinct (map trackingTable srcs) \<and> (\<forall>m \<in> set srcs. length (trackingTable m) \<le> 63)"
proof -
  obtain ds where d: "declaredMigrationSources s = Inr ds"
    and r: "resolve_lineages F (own_source Local # ds) = Inr (srcs, skips)"
    using assms by (auto simp: resolveMigrationSources_def split: sum.splits)
  note decl = declaredMigrationSources_Inr [OF d]
  have t: "trackingTable m = src_table m" "src_table m \<noteq> DefaultMigrationsTable" "length (src_table m) \<le> 63"
    if "m \<in> set ds" for m
    using declared_source_named decl(1) that
    by (auto simp: list_all_iff declared_source_def migrationTablePrefix_def DefaultMigrationsTable_def)
  have own: "trackingTable (own_source Local) = DefaultMigrationsTable" by (simp add: own_source_def trackingTable_def)
  have eq: "map trackingTable ds = map src_table ds" using t by simp
  have "DefaultMigrationsTable \<notin> set (map src_table ds)" using t(2) by fastforce
  then have "distinct (map trackingTable (own_source Local # ds))"
    using decl(2) by (simp only: list.map own eq distinct.simps) simp
  moreover have "\<forall>m \<in> set (own_source Local # ds). length (trackingTable m) \<le> 63"
    using t by (auto simp: own_source_def trackingTable_def DefaultMigrationsTable_def)
  ultimately show ?thesis
    using resolve_lineages_Inr [OF r] distinct_map_filter by (metis (no_types, lifting) filter_is_subset subsetD)
qed

text \<open>
  No declared lineage is dropped in silence: when resolution succeeds every declared source is
  either applied, in declaration order and with at least one forward migration in a directory
  whose migration-like files all parse, or it declared itself optional and is reported as skipped.
\<close>

theorem declared_sources_accounted:
  assumes "resolveMigrationSources F Local s = Inr (srcs, skips)" and "declaredMigrationSources s = Inr ds"
  shows "(\<forall>m \<in> set ds. m \<in> set srcs \<or> src_optional m \<and> src_name m \<in> skip_name ` set skips)
    \<and> subseq srcs (own_source Local # ds)
    \<and> (\<forall>m \<in> set srcs. \<exists>es. ReadDir F (src_dir m) = Inr es
         \<and> (\<exists>e \<in> set es. \<not> entry_IsDir e \<and> (\<exists>v. migration_name (entry_name e) v ''up''))
         \<and> (\<forall>e \<in> set es. entry_IsDir e \<or> (\<exists>v d. migration_name (entry_name e) v d) \<or> \<not> migrationLikeName (entry_name e)))"
proof -
  have r: "resolve_lineages F (own_source Local # ds) = Inr (srcs, skips)"
    using assms by (auto simp: resolveMigrationSources_def split: sum.splits)
  note res = resolve_lineages_Inr [OF r]
  have named: "src_name m \<noteq> []" if "m \<in> set ds" for m
    using declared_source_named declaredMigrationSources_Inr(1) [OF assms(2)] that by (auto simp: list_all_iff)
  have acc: "m \<in> set srcs \<or> src_optional m \<and> src_name m \<in> skip_name ` set skips" if m: "m \<in> set ds" for m
  proof (cases "resolve_lineage F m")
    case Apply
    with res m show ?thesis by auto
  next
    case (Skip k)
    then have "src_name m \<in> set (map skip_name skips)" using res m by auto
    with resolve_lineage_Skip [OF Skip] show ?thesis by auto
  next
    case Nothing
    with named m resolve_lineage_Nothing show ?thesis by blast
  next
    case (Refuse e)
    with res m show ?thesis by auto
  qed
  have up: "\<exists>es. ReadDir F (src_dir m) = Inr es
         \<and> (\<exists>e \<in> set es. \<not> entry_IsDir e \<and> (\<exists>v. migration_name (entry_name e) v ''up''))
         \<and> (\<forall>e \<in> set es. entry_IsDir e \<or> (\<exists>v d. migration_name (entry_name e) v d) \<or> \<not> migrationLikeName (entry_name e))"
    if m: "m \<in> set srcs" for m
  proof -
    have "m \<in> set (filter (\<lambda>m. resolve_lineage F m = Apply) (own_source Local # ds))" using res m by simp
    then have "resolve_lineage F m = Apply" by (simp only: set_filter mem_Collect_eq)
    then obtain n es where es: "ReadDir F (src_dir m) = Inr es" "count_up (src_dir m) 0 es = Inr n" "0 < n"
      using resolve_lineage_Apply [of F m] by (auto simp: countMigrations_def split: sum.splits)
    from count_up_Inr [OF es(2)] es(3) have
      "filter (\<lambda>e. \<not> entry_IsDir e \<and> (\<exists>v. FindStringSubmatch (entry_name e) = Some (v, ''up''))) es \<noteq> []" by auto
    then have "\<exists>e \<in> set es. \<not> entry_IsDir e \<and> (\<exists>v. migration_name (entry_name e) v ''up'')"
      by (auto simp: filter_empty_conv FindStringSubmatch_Some)
    moreover have "\<forall>e \<in> set es. entry_IsDir e \<or> (\<exists>v d. migration_name (entry_name e) v d) \<or> \<not> migrationLikeName (entry_name e)"
      using count_up_Inr [OF es(2)] by (auto simp: FindStringSubmatch_Some not_None_eq)
    ultimately show ?thesis using es(1) by blast
  qed
  show ?thesis using acc up res by (auto simp: subseq_filter_left)
qed

text \<open>
  The resolved extensions name each extension once, start with the defaults in their order,
  hold only safe names, and require one exactly when its last declaration does not say optional; a
  default nobody declared is requested and not required.
\<close>

theorem resolved_extensions_exact:
  assumes "resolveExtensions ds = Inr rs"
  shows "distinct (map request_name rs) \<and> prefix defaultExtensions (map request_name rs)
    \<and> (\<forall>n. requested rs n =
         (case last_declared ds n of Some b \<Rightarrow> Some b | None \<Rightarrow> if n \<in> set defaultExtensions then Some False else None))
    \<and> (\<forall>r \<in> set rs. validExtName (request_name r))"
proof -
  let ?rs = "snd (request_defaults defaultExtensions)"
  have m: "merge_extensions 0 (fst (request_defaults defaultExtensions)) ?rs ds = Inr rs"
    using assms by (simp add: resolveExtensions_def case_prod_unfold)
  note f = merge_extensions_Inr [OF positions_ok_defaults m]
  have names: "map request_name ?rs = defaultExtensions"
    by (simp add: request_defaults_def comp_def)
  have req: "requested ?rs n = (if n \<in> set defaultExtensions then Some False else None)" for n
    by (auto simp: requested_def request_defaults_def defaultExtensions_def)
  have vd: "validExtName n" if "n \<in> set defaultExtensions" for n
    using that by (auto simp: defaultExtensions_def validExtName_def ext_char_def is_lower_def)
  have "validExtName (request_name r)" if r: "r \<in> set rs" for r
  proof -
    have "requested rs (request_name r) = Some (request_required r)"
      using requested_distinct [of rs] f r by auto
    with f req have "last_declared ds (request_name r) \<noteq> None \<or> request_name r \<in> set defaultExtensions"
      by (auto split: option.splits if_splits)
    moreover have "last_declared ds n \<noteq> None \<Longrightarrow> n \<in> (\<lambda>d. TrimSpace (ext_Name d)) ` set ds" for n
      by (auto simp: last_declared_def map_of_eq_None_iff image_image)
    ultimately have "request_name r \<in> (\<lambda>d. TrimSpace (ext_Name d)) ` set ds \<or> request_name r \<in> set defaultExtensions"
      by blast
    then show ?thesis using f vd by auto
  qed
  with f names req show ?thesis by (auto simp: prefix_def split: option.splits)
qed

text \<open>
  When the extensions of resolved prerequisites are ensured without error, every required one
  was created and exactly those that could not be created are reported as skipped, in order.
\<close>

theorem required_extensions_created:
  assumes "ensureExtensions open_db create p = (None, p')"
  shows "(\<forall>x \<in> set (extensions p). request_required x \<longrightarrow> create (create_extension (request_name x)) = None)
    \<and> map skip_name (skipped p') = map skip_name (skipped p)
        @ map request_name (filter (\<lambda>x. create (create_extension (request_name x)) \<noteq> None) (extensions p))"
  using ensure_extensions_None [OF ensureExtensions_None(1) [OF assms]] .

section \<open>Witnesses\<close>

definition sample_entry :: "string \<Rightarrow> dir_entry" where
  "sample_entry n = \<lparr>entry_name = n, entry_IsDir = False, entry_symlink = False, entry_regular = True\<rparr>"

definition sample_fs :: filesystem where
  "sample_fs = \<lparr>ReadDir = (\<lambda>d. if d = ''/api/migrations'' then Inr [sample_entry ''1_a.up.sql'', sample_entry ''README'']
        else Inl NotExist),
     Lstat = (\<lambda>_. Some NotExist), EvalSymlinks = (\<lambda>p. Inr p), Stat_regular = (\<lambda>_. Inr True), ReadFile = (\<lambda>_. Inr ''sql'')\<rparr>"

definition sample_sources_service :: Service where
  "sample_sources_service = sample_service\<lparr>settings := sample_settings\<lparr>MigrationSources :=
     [\<lparr>ms_Name = ''api'', ms_Path = [], ms_Optional = False\<rparr>, \<lparr>ms_Name = ''web'', ms_Path = [], ms_Optional = True\<rparr>]\<rparr>\<rparr>"

definition sample_api :: migrationSource where
  "sample_api = \<lparr>src_name = ''api'', src_dir = ''/api/migrations'', src_table = ''schema_migrations_api'', src_optional = False\<rparr>"

definition sample_web :: migrationSource where
  "sample_web = \<lparr>src_name = ''web'', src_dir = ''/web/migrations'', src_table = ''schema_migrations_web'', src_optional = True\<rparr>"

definition sample_local :: "string \<Rightarrow> string" where
  "sample_local p = ''/svc/'' @ p"

lemma sample_declared: "declaredMigrationSources sample_sources_service = Inr [sample_api, sample_web]"
  by code_simp

lemma sample_resolved:
  "resolveMigrationSources sample_fs sample_local sample_sources_service =
     Inr ([sample_api], [\<lparr>skip_kind = ''migration-source'', skip_name = ''web'',
        skip_reason = ''optional source directory /web/migrations does not exist''\<rparr>])"
  by code_simp

theorem resolved_ledgers_distinct_witness: "length (trackingTable sample_api) \<le> 63"
  using resolved_ledgers_distinct [OF sample_resolved] by simp

theorem declared_sources_accounted_witness: "sample_web \<notin> set [sample_api] \<and> src_optional sample_web"
  using declared_sources_accounted [OF sample_resolved sample_declared]
  by (simp add: sample_api_def sample_web_def)

theorem resolved_extensions_exact_witness:
  "requested [\<lparr>request_name = ''vector'', request_required = True\<rparr>,
     \<lparr>request_name = ''pgcrypto'', request_required = False\<rparr>, \<lparr>request_name = ''uuid-ossp'', request_required = False\<rparr>,
     \<lparr>request_name = ''pg_trgm'', request_required = False\<rparr>, \<lparr>request_name = ''citext'', request_required = False\<rparr>,
     \<lparr>request_name = ''btree_gin'', request_required = False\<rparr>] ''vector'' = Some True"
proof -
  have "resolveExtensions [\<lparr>ext_Name = '' vector'', ext_Optional = False\<rparr>] =
    Inr [\<lparr>request_name = ''vector'', request_required = True\<rparr>,
     \<lparr>request_name = ''pgcrypto'', request_required = False\<rparr>, \<lparr>request_name = ''uuid-ossp'', request_required = False\<rparr>,
     \<lparr>request_name = ''pg_trgm'', request_required = False\<rparr>, \<lparr>request_name = ''citext'', request_required = False\<rparr>,
     \<lparr>request_name = ''btree_gin'', request_required = False\<rparr>]"
    by code_simp
  moreover have "last_declared [\<lparr>ext_Name = '' vector'', ext_Optional = False\<rparr>] ''vector'' = Some True" by code_simp
  ultimately show ?thesis using resolved_extensions_exact [of "[\<lparr>ext_Name = '' vector'', ext_Optional = False\<rparr>]"] by simp
qed

theorem required_extensions_created_witness:
  "map skip_name (skipped \<lparr>sources = [], extensions = [\<lparr>request_name = ''citext'', request_required = False\<rparr>],
     skipped = [\<lparr>skip_kind = ''extension'', skip_name = ''citext'', skip_reason = ''absent''\<rparr>]\<rparr>) = [''citext'']"
proof -
  let ?p = "\<lambda>k. \<lparr>sources = [], extensions = [\<lparr>request_name = ''citext'', request_required = False\<rparr>], skipped = k\<rparr>"
  have "ensureExtensions None (\<lambda>_. Some ''absent'') (?p []) =
      (None, ?p [\<lparr>skip_kind = ''extension'', skip_name = ''citext'', skip_reason = ''absent''\<rparr>])"
    by (simp add: ensureExtensions_def prerequisiteExtension_def)
  from required_extensions_created [OF this] show ?thesis by simp
qed

end
