(* ===== verification/SchemaPlan.thy ===== *)
theory SchemaPlan
  imports Schema
begin

text \<open>
  \<open>schemaplan.go\<close> and \<open>libs/go/schemaplan/plan.go\<close>: the packaged form of resolved
  prerequisites. A plan stages each lineage under an ordinal directory, lists its files in order,
  attests their digests and publishes a content identity and a checksum manifest. SHA-256 stays a
  parameter of the platform; the bytes that are hashed are written out.
\<close>

section \<open>The artifact\<close>

definition ContractVersion :: string where "ContractVersion = ''codefly.dev/postgres-schema-plan/v1''"
definition ReaderRolesContractVersion :: string where
  "ReaderRolesContractVersion = ''codefly.dev/postgres-schema-plan/v2''"

record plan_File = file_Name :: string file_Digest :: string

record plan_Lineage =
  lineage_Label :: string
  lineage_Ledger :: string
  lineage_Stage :: string
  lineage_Digest :: string
  lineage_Files :: "plan_File list"

record plan_Access =
  access_ReadOnlyRole :: string
  access_ReadWriteRole :: string
  access_Schemas :: "string list"
  access_ReadWriteRoles :: "string list"
  access_ReadOnlyRoles :: "string list"

record Plan =
  plan_ContractVersion :: string
  plan_Database :: string
  plan_Extensions :: "(string \<times> bool) list"
  plan_Lineages :: "plan_Lineage list"
  plan_Access :: plan_Access
  plan_Digest :: string

definition Sprint_bool :: "bool \<Rightarrow> string" where
  "Sprint_bool b = (if b then ''true'' else ''false'')"

text \<open>The fields in the order they are written to the hash, and the hashed bytes.\<close>

definition plan_fields :: "Plan \<Rightarrow> string list" where
  "plan_fields p =
     [plan_ContractVersion p, plan_Database p]
     @ concat (map (\<lambda>(n, r). [n, Sprint_bool r]) (plan_Extensions p))
     @ [access_ReadOnlyRole (plan_Access p), access_ReadWriteRole (plan_Access p)]
     @ access_Schemas (plan_Access p)
     @ access_ReadWriteRoles (plan_Access p)
     @ (if plan_ContractVersion p = ReaderRolesContractVersion
        then [''read-only-roles'', Itoa (length (access_ReadOnlyRoles (plan_Access p)))]
             @ access_ReadOnlyRoles (plan_Access p)
        else [])
     @ concat (map (\<lambda>l. [lineage_Label l, lineage_Ledger l, lineage_Stage l, lineage_Digest l]) (plan_Lineages p))"

definition nul_terminated :: "string list \<Rightarrow> string" where
  "nul_terminated vs = concat (map (\<lambda>v. v @ [NUL]) vs)"

definition Plan_ContentDigest :: "platform \<Rightarrow> Plan \<Rightarrow> string" where
  "Plan_ContentDigest P p = ''sha256:'' @ EncodeToString (sha256 P (nul_terminated (plan_fields p)))"

definition lineage_fields :: "plan_Lineage \<Rightarrow> string list" where
  "lineage_fields l =
     [lineage_Label l, lineage_Ledger l] @ concat (map (\<lambda>f. [file_Name f, file_Digest f]) (lineage_Files l))"

definition Lineage_ContentDigest :: "platform \<Rightarrow> plan_Lineage \<Rightarrow> string" where
  "Lineage_ContentDigest P l = ''sha256:'' @ EncodeToString (sha256 P (nul_terminated (lineage_fields l)))"

section \<open>The builder's plan\<close>

record schemaFile = sf_name :: string sf_digest :: string

record schemaLineage =
  sl_source :: migrationSource
  sl_stage :: string
  sl_files :: "schemaFile list"
  sl_digest :: string

record schemaAccess =
  sa_readOnlyRole :: string
  sa_readWriteRole :: string
  sa_schemas :: "string list"
  sa_readWriteRoles :: "string list"

record schemaPlan =
  sp_database :: string
  sp_lineages :: "schemaLineage list"
  sp_extensions :: "extensionRequest list"
  sp_access :: schemaAccess

datatype plan_error =
    AccessSettings access_error
  | Inventory string fs_error
  | NotRegular string
  | LinksOutside string string
  | DoesNotResolve string fs_error
  | CannotDigest string fs_error

definition resolveSchemaAccess :: "platform \<Rightarrow> Settings \<Rightarrow> (access_error, schemaAccess) result" where
  "resolveSchemaAccess P s =
     (case runtimeRoleNames P (DatabaseName s) of (ro, rw) \<Rightarrow>
      rbind (normalizedRuntimeSchemas (RuntimeSchemas s)) (\<lambda>schemas.
      rbind (normalizedRuntimeReadWriteRoles (RuntimeReadWriteRoles s) [ro, rw]) (\<lambda>roles.
        Inr \<lparr>sa_readOnlyRole = ro, sa_readWriteRole = rw, sa_schemas = schemas, sa_readWriteRoles = roles\<rparr>)))"

text \<open>
  \<open>filepath.Rel\<close> on element lists: both paths must be rooted alike, the common elements go, and what
  is left of the base is climbed with \<open>..\<close>; a base that still climbs itself cannot be undone.
\<close>

fun rel_elements :: "string list \<Rightarrow> string list \<Rightarrow> string list option" where
  "rel_elements [] ts = Some ts"
| "rel_elements (b # bs) [] = (if b = ''..'' then None else Some (replicate (length (b # bs)) ''..''))"
| "rel_elements (b # bs) (t # ts) =
     (if b = t then rel_elements bs ts
      else if b = ''..'' then None
      else Some (replicate (length (b # bs)) ''..'' @ t # ts))"

definition Rel :: "string \<Rightarrow> string \<Rightarrow> string option" where
  "Rel base target =
     (if IsAbs base \<noteq> IsAbs target then None
      else map_option (unsplit False)
             (rel_elements (clean_elements (IsAbs base) base) (clean_elements (IsAbs target) target)))"

definition escapes_root :: "string option \<Rightarrow> bool" where
  "escapes_root relative =
     (case relative of None \<Rightarrow> True | Some r \<Rightarrow> r = ''..'' \<or> prefix ''../'' r)"

definition symlinkStaysInside :: "filesystem \<Rightarrow> string \<Rightarrow> string \<Rightarrow> (plan_error, bool) result" where
  "symlinkStaysInside F dir name =
     (case EvalSymlinks F dir of
        Inl e \<Rightarrow> Inl (DoesNotResolve dir e)
      | Inr root \<Rightarrow>
      (case EvalSymlinks F (path_Join [dir, name]) of
        Inl e \<Rightarrow> Inl (DoesNotResolve name e)
      | Inr target \<Rightarrow>
          if escapes_root (Rel root target) then Inl (LinksOutside name (Dir target))
          else (case Stat_regular F target of Inl e \<Rightarrow> Inl (DoesNotResolve name e) | Inr r \<Rightarrow> Inr r)))"

fun staged :: "filesystem \<Rightarrow> string \<Rightarrow> dir_entry list \<Rightarrow> (plan_error, string list) result" where
  "staged F dir [] = Inr []"
| "staged F dir (e # es) =
     (if entry_IsDir e \<or> FindStringSubmatch (entry_name e) = None then staged F dir es
      else if entry_symlink e then
        (case symlinkStaysInside F dir (entry_name e) of
           Inl err \<Rightarrow> Inl err
         | Inr regular \<Rightarrow>
             if \<not> regular then staged F dir es
             else (case staged F dir es of Inl err \<Rightarrow> Inl err | Inr ns \<Rightarrow> Inr (entry_name e # ns)))
      else if \<not> entry_regular e then Inl (NotRegular (entry_name e))
      else (case staged F dir es of Inl err \<Rightarrow> Inl err | Inr ns \<Rightarrow> Inr (entry_name e # ns)))"

definition stagedFiles :: "filesystem \<Rightarrow> string \<Rightarrow> (plan_error, schemaFile list) result" where
  "stagedFiles F dir =
     (case ReadDir F dir of
        Inl e \<Rightarrow> Inl (Inventory dir e)
      | Inr entries \<Rightarrow>
          (case staged F dir entries of
             Inl e \<Rightarrow> Inl e
           | Inr names \<Rightarrow> Inr (map (\<lambda>n. \<lparr>sf_name = n, sf_digest = []\<rparr>) (sort names))))"

text \<open>\<open>fmt.Sprintf("%02d-%s", ...)\<close>.\<close>

definition stage_name :: "nat \<Rightarrow> string \<Rightarrow> string" where
  "stage_name n l = (if n < 10 then CHR ''0'' # Itoa n else Itoa n) @ ''-'' @ l"

fun package :: "filesystem \<Rightarrow> nat \<Rightarrow> migrationSource list \<Rightarrow> (plan_error, schemaLineage list) result" where
  "package F n [] = Inr []"
| "package F n (src # srcs) =
     (case stagedFiles F (src_dir src) of
        Inl e \<Rightarrow> Inl e
      | Inr files \<Rightarrow>
          (case package F (n + 1) srcs of
             Inl e \<Rightarrow> Inl e
           | Inr ls \<Rightarrow>
               Inr (\<lparr>sl_source = src, sl_stage = stage_name n (label src), sl_files = files, sl_digest = []\<rparr> # ls)))"

definition buildSchemaPlan :: "platform \<Rightarrow> filesystem \<Rightarrow> schemaPrerequisites \<Rightarrow> Settings
    \<Rightarrow> (plan_error, schemaPlan) result" where
  "buildSchemaPlan P F p s =
     (case resolveSchemaAccess P s of
        Inl e \<Rightarrow> Inl (AccessSettings e)
      | Inr access \<Rightarrow>
          (let plan = \<lparr>sp_database = DatabaseName s, sp_lineages = [], sp_extensions = extensions p, sp_access = access\<rparr> in
           if NoMigration s then Inr plan
           else (case package F 0 (sources p) of
                   Inl e \<Rightarrow> Inl e
                 | Inr ls \<Rightarrow> Inr (plan\<lparr>sp_lineages := ls\<rparr>))))"

definition fileDigest :: "platform \<Rightarrow> filesystem \<Rightarrow> string \<Rightarrow> (fs_error, string) result" where
  "fileDigest P F path =
     (case ReadFile F path of Inl e \<Rightarrow> Inl e | Inr c \<Rightarrow> Inr (''sha256:'' @ EncodeToString (sha256 P c)))"

definition lineage_artifact :: "schemaLineage \<Rightarrow> plan_Lineage" where
  "lineage_artifact l =
     \<lparr>lineage_Label = label (sl_source l), lineage_Ledger = trackingTable (sl_source l),
      lineage_Stage = sl_stage l, lineage_Digest = sl_digest l,
      lineage_Files = map (\<lambda>f. \<lparr>file_Name = sf_name f, file_Digest = sf_digest f\<rparr>) (sl_files l)\<rparr>"

definition lineageDigest :: "platform \<Rightarrow> schemaLineage \<Rightarrow> string" where
  "lineageDigest P l = Lineage_ContentDigest P (lineage_artifact l)"

definition attest_file :: "platform \<Rightarrow> filesystem \<Rightarrow> string \<Rightarrow> schemaFile \<Rightarrow> (fs_error, schemaFile) result" where
  "attest_file P F dir f =
     (case fileDigest P F (path_Join [dir, sf_name f]) of Inl e \<Rightarrow> Inl e | Inr d \<Rightarrow> Inr (f\<lparr>sf_digest := d\<rparr>))"

definition attest_lineage :: "platform \<Rightarrow> filesystem \<Rightarrow> schemaLineage \<Rightarrow> (plan_error, schemaLineage) result" where
  "attest_lineage P F l =
     (case collect (attest_file P F (src_dir (sl_source l))) (sl_files l) of
        Inl e \<Rightarrow> Inl (CannotDigest (label (sl_source l)) e)
      | Inr files \<Rightarrow> (let l = l\<lparr>sl_files := files\<rparr> in Inr (l\<lparr>sl_digest := lineageDigest P l\<rparr>)))"

definition attest :: "platform \<Rightarrow> filesystem \<Rightarrow> schemaPlan \<Rightarrow> (plan_error, schemaPlan) result" where
  "attest P F p =
     (case collect (attest_lineage P F) (sp_lineages p) of
        Inl e \<Rightarrow> Inl e
      | Inr ls \<Rightarrow> Inr (p\<lparr>sp_lineages := ls\<rparr>))"

definition checksum_line :: "schemaLineage \<Rightarrow> schemaFile \<Rightarrow> string" where
  "checksum_line l f =
     TrimPrefix (sf_digest f) ''sha256:'' @ ''  sources/'' @ sl_stage l @ ''/'' @ sf_name f @ [LF]"

definition stagedChecksums :: "schemaPlan \<Rightarrow> string" where
  "stagedChecksums p = concat (map (\<lambda>l. concat (map (checksum_line l) (sl_files l))) (sp_lineages p))"

definition artifactWithoutDigest :: "schemaPlan \<Rightarrow> Plan" where
  "artifactWithoutDigest p =
     \<lparr>plan_ContractVersion = ContractVersion, plan_Database = sp_database p,
      plan_Extensions = map (\<lambda>e. (request_name e, request_required e)) (sp_extensions p),
      plan_Lineages = map lineage_artifact (sp_lineages p),
      plan_Access = \<lparr>access_ReadOnlyRole = sa_readOnlyRole (sp_access p),
        access_ReadWriteRole = sa_readWriteRole (sp_access p), access_Schemas = sa_schemas (sp_access p),
        access_ReadWriteRoles = sa_readWriteRoles (sp_access p), access_ReadOnlyRoles = []\<rparr>,
      plan_Digest = []\<rparr>"

definition plan_digest :: "platform \<Rightarrow> schemaPlan \<Rightarrow> string" where
  "plan_digest P p = Plan_ContentDigest P (artifactWithoutDigest p)"

definition artifact :: "platform \<Rightarrow> schemaPlan \<Rightarrow> Plan" where
  "artifact P p = (let a = artifactWithoutDigest p in a\<lparr>plan_Digest := Plan_ContentDigest P a\<rparr>)"

section \<open>Encodings\<close>

lemma nul_terminated_inject:
  "list_all (\<lambda>v. NUL \<notin> set v) xs \<Longrightarrow> list_all (\<lambda>v. NUL \<notin> set v) ys
   \<Longrightarrow> nul_terminated xs = nul_terminated ys \<Longrightarrow> xs = ys"
proof (induction xs arbitrary: ys)
  case Nil
  then show ?case by (cases ys) (auto simp: nul_terminated_def)
next
  case (Cons x xs)
  then obtain y ys' where ys: "ys = y # ys'" by (cases ys) (auto simp: nul_terminated_def)
  have eq: "x @ NUL # nul_terminated xs = y @ NUL # nul_terminated ys'"
    using Cons.prems(3) ys by (simp add: nul_terminated_def)
  have "takeWhile (\<lambda>c. c \<noteq> NUL) (v @ NUL # w) = v" if "NUL \<notin> set v" for v w
    using that by (subst takeWhile_append2) auto
  then have "x = y" using arg_cong [OF eq, of "takeWhile (\<lambda>c. c \<noteq> NUL)"] Cons.prems(1,2) ys by simp
  with eq Cons ys show ?case by simp
qed

lemma concat_pairs_inject:
  "concat (map (\<lambda>f. [file_Name f, file_Digest f]) fs) = concat (map (\<lambda>f. [file_Name f, file_Digest f]) gs)
   \<longleftrightarrow> fs = (gs :: plan_File list)"
proof
  show "concat (map (\<lambda>f. [file_Name f, file_Digest f]) fs) = concat (map (\<lambda>f. [file_Name f, file_Digest f]) gs) \<Longrightarrow> fs = gs"
  proof (induction fs arbitrary: gs)
    case Nil
    then show ?case by (cases gs) auto
  next
    case (Cons f fs)
    then show ?case by (cases gs) auto
  qed
qed simp

lemma Itoa_no_dash: "CHR ''-'' \<notin> set (Itoa n)"
  using Itoa_digits [of n] by (auto simp: list_all_iff is_digit_def)

lemma stage_name_inject: "stage_name m k = stage_name n l \<Longrightarrow> m = n"
proof -
  define p where "p = (\<lambda>i. if i < 10 then CHR ''0'' # Itoa i else Itoa i)"
  have nd: "CHR ''-'' \<notin> set (p i)" for i using Itoa_no_dash by (simp add: p_def)
  have tw: "takeWhile (\<lambda>c. c \<noteq> CHR ''-'') (p i @ CHR ''-'' # w) = p i" for i w
    using nd [of i] by (subst takeWhile_append2) auto
  have v: "digits_val (p i) = i" for i
  proof -
    have "digits_val (CHR ''0'' # s) = digits_val s" for s by (simp add: digits_val_def digit_val_def)
    then show ?thesis by (simp add: p_def)
  qed
  assume "stage_name m k = stage_name n l"
  then have "p m @ CHR ''-'' # k = p n @ CHR ''-'' # l" by (simp add: stage_name_def p_def)
  then have "p m = p n" using tw by metis
  then show "m = n" using v by metis
qed

section \<open>Packaging\<close>

lemma package_Inr:
  "package F n srcs = Inr ls \<Longrightarrow>
     map sl_source ls = srcs \<and> map sl_stage ls = map (\<lambda>(i, s). stage_name i (label s)) (zip [n..<n + length srcs] srcs)
     \<and> (\<forall>l \<in> set ls. stagedFiles F (src_dir (sl_source l)) = Inr (sl_files l))"
proof (induction srcs arbitrary: n ls)
  case Nil
  then show ?case by simp
next
  case (Cons s srcs)
  then obtain fs ls' where "stagedFiles F (src_dir s) = Inr fs" "package F (n + 1) srcs = Inr ls'"
    "ls = \<lparr>sl_source = s, sl_stage = stage_name n (label s), sl_files = fs, sl_digest = []\<rparr> # ls'"
    by (auto split: sum.splits)
  moreover have "[n..<n + length (s # srcs)] = n # [n + 1..<n + 1 + length srcs]"
    by (simp add: upt_conv_Cons del: upt_Suc)
  ultimately show ?case using Cons.IH [of "n + 1" ls'] by simp
qed

lemma package_stages_distinct:
  assumes "package F n srcs = Inr ls"
  shows "distinct (map sl_stage ls)"
proof -
  have "inj_on (\<lambda>(i, s). stage_name i (label s)) (set (zip [n..<n + length srcs] srcs))"
  proof (rule inj_onI, clarify)
    fix i s j r assume ij: "(i, s) \<in> set (zip [n..<n + length srcs] srcs)" "(j, r) \<in> set (zip [n..<n + length srcs] srcs)"
      "stage_name i (label s) = stage_name j (label r)"
    then have "i = j" by (auto dest: stage_name_inject)
    with ij show "i = j \<and> s = r" by (auto simp: in_set_zip nth_eq_iff_index_eq)
  qed
  moreover have "distinct (zip [n..<n + length srcs] srcs)" by (simp add: distinct_zipI1)
  ultimately show ?thesis using package_Inr [OF assms] by (simp add: distinct_map)
qed

lemma staged_subset:
  "staged F dir es = Inr ns \<Longrightarrow> subseq ns (migration_entries es)"
  by (induction es arbitrary: ns)
    (auto simp: migration_entries_def split: if_splits sum.splits)

lemma stagedFiles_Inr:
  assumes "stagedFiles F dir = Inr fs"
  obtains es ns where "ReadDir F dir = Inr es" "staged F dir es = Inr ns" "map sf_name fs = sort ns"
    "\<forall>f \<in> set fs. sf_digest f = []"
  using assms by (auto simp: stagedFiles_def comp_def split: sum.splits)

lemma buildSchemaPlan_lineages:
  assumes "buildSchemaPlan P F p s = Inr plan"
  shows "if NoMigration s then sp_lineages plan = [] else package F 0 (sources p) = Inr (sp_lineages plan)"
  using assms by (auto simp: buildSchemaPlan_def Let_def split: sum.splits if_splits)

section \<open>Containment\<close>

lemma rel_elements_prefix:
  assumes "rel_elements bs ts = Some es" "es = [] \<or> hd es \<noteq> ''..''"
  shows "ts = bs @ es"
  using assms
proof (induction bs ts arbitrary: es rule: rel_elements.induct)
  case (1 ts)
  then show ?case by simp
next
  case (2 b bs)
  then show ?case by (auto split: if_splits)
next
  case (3 b bs t ts)
  then show ?case by (auto split: if_splits)
qed

lemma unsplit_escapes:
  assumes "es \<noteq> []" "hd es = ''..''"
  shows "escapes_root (Some (unsplit False es))"
proof -
  obtain es' where es: "es = ''..'' # es'" using assms by (cases es) auto
  then show ?thesis by (cases es') (auto simp: escapes_root_def unsplit_def)
qed

lemma Rel_contained:
  assumes "\<not> escapes_root (Rel root target)"
  obtains rest where "clean_elements (IsAbs target) target = clean_elements (IsAbs root) root @ rest"
    "IsAbs root = IsAbs target" "''..'' \<notin> set rest"
proof -
  obtain es where es: "rel_elements (clean_elements (IsAbs root) root) (clean_elements (IsAbs target) target) = Some es"
    and abs: "IsAbs root = IsAbs target" and ne: "\<not> escapes_root (Some (unsplit False es))"
    using assms by (auto simp: Rel_def escapes_root_def split: if_splits option.splits)
  then have hd: "es = [] \<or> hd es \<noteq> ''..''" using unsplit_escapes by blast
  have t: "clean_elements (IsAbs target) target = clean_elements (IsAbs root) root @ es"
    by (rule rel_elements_prefix [OF es hd])
  have ok: "clean_list (IsAbs target) (clean_elements (IsAbs root) root @ es)"
    using clean_elements_ok [of "IsAbs target" target] t by simp
  have "''..'' \<notin> set es"
  proof (cases es)
    case Nil
    then show ?thesis by simp
  next
    case (Cons e es')
    then have "e \<noteq> ''..''" using hd by simp
    have drop: "set (e # es') \<subseteq> set (dropWhile (\<lambda>x. x = ''..'') (bs @ e # es'))" for bs
      using \<open>e \<noteq> ''..''\<close> by (induction bs) auto
    from ok Cons have "''..'' \<notin> set (dropWhile (\<lambda>x. x = ''..'') (clean_elements (IsAbs root) root @ e # es'))"
      by (simp add: clean_list_def)
    with drop Cons show ?thesis by blast
  qed
  with that t abs show thesis by blast
qed

section \<open>What is staged\<close>

text \<open>
  The entries a build looks at, where a symbolic link leads, and when that is below the source
  directory, stated on the file system alone.
\<close>

definition migration_entry :: "dir_entry \<Rightarrow> bool" where
  "migration_entry e \<longleftrightarrow> \<not> entry_IsDir e \<and> FindStringSubmatch (entry_name e) \<noteq> None"

definition links_regular :: "filesystem \<Rightarrow> string \<Rightarrow> string \<Rightarrow> bool" where
  "links_regular F dir name \<longleftrightarrow>
     (case EvalSymlinks F (path_Join [dir, name]) of Inl _ \<Rightarrow> False | Inr target \<Rightarrow> Stat_regular F target = Inr True)"

definition links_inside :: "filesystem \<Rightarrow> string \<Rightarrow> string \<Rightarrow> bool" where
  "links_inside F dir name \<longleftrightarrow>
     (\<exists>root target rest. EvalSymlinks F dir = Inr root \<and> EvalSymlinks F (path_Join [dir, name]) = Inr target
        \<and> clean_elements (IsAbs target) target = clean_elements (IsAbs root) root @ rest \<and> ''..'' \<notin> set rest)"

lemma symlinkStaysInside_Inr:
  assumes "symlinkStaysInside F dir name = Inr regular"
  shows "links_regular F dir name = regular" and "links_inside F dir name"
proof -
  obtain root target where r: "EvalSymlinks F dir = Inr root" "EvalSymlinks F (path_Join [dir, name]) = Inr target"
    "\<not> escapes_root (Rel root target)" "Stat_regular F target = Inr regular"
    using assms by (auto simp: symlinkStaysInside_def split: sum.splits if_splits)
  then show "links_regular F dir name = regular" by (simp add: links_regular_def)
  from Rel_contained [OF r(3)] r(1,2) show "links_inside F dir name" unfolding links_inside_def by metis
qed

lemma staged_exact:
  "staged F dir es = Inr ns \<Longrightarrow>
     ns = map entry_name (filter (\<lambda>e. migration_entry e \<and> (entry_symlink e \<longrightarrow> links_regular F dir (entry_name e))) es)"
  by (induction es arbitrary: ns)
    (auto simp: migration_entry_def dest: symlinkStaysInside_Inr(1) split: if_splits sum.splits)

lemma staged_kinds:
  "staged F dir es = Inr ns \<Longrightarrow> \<forall>e \<in> set es. migration_entry e \<longrightarrow>
     (if entry_symlink e then links_inside F dir (entry_name e) else entry_regular e)"
  by (induction es arbitrary: ns)
    (auto simp: migration_entry_def dest: symlinkStaysInside_Inr(2) split: if_splits sum.splits)

lemma staged_linked:
  assumes "staged F dir es = Inr ns"
  shows "(\<forall>e \<in> set es. migration_entry e \<and> entry_symlink e \<longrightarrow> links_regular F dir (entry_name e))
    \<longrightarrow> ns = migration_entries es"
proof
  assume all: "\<forall>e \<in> set es. migration_entry e \<and> entry_symlink e \<longrightarrow> links_regular F dir (entry_name e)"
  have "filter (\<lambda>e. migration_entry e \<and> (entry_symlink e \<longrightarrow> links_regular F dir (entry_name e))) es = filter migration_entry es"
    using all by (intro filter_cong) auto
  with staged_exact [OF assms] show "ns = migration_entries es"
    by (simp add: migration_entries_def migration_entry_def [abs_def])
qed

section \<open>Attestation\<close>

lemma attest_file_Inr:
  "attest_file P F dir f = Inr g \<Longrightarrow>
     sf_name g = sf_name f \<and> fileDigest P F (path_Join [dir, sf_name f]) = Inr (sf_digest g)"
  by (auto simp: attest_file_def split: sum.splits)

lemma attest_lineage_Inr:
  assumes "attest_lineage P F l = Inr k"
  shows "sl_source k = sl_source l \<and> sl_stage k = sl_stage l \<and> map sf_name (sl_files k) = map sf_name (sl_files l)
    \<and> (\<forall>f \<in> set (sl_files k). fileDigest P F (path_Join [src_dir (sl_source k), sf_name f]) = Inr (sf_digest f))
    \<and> sl_digest k = lineageDigest P k"
proof -
  obtain files where c: "list_all2 (\<lambda>f g. attest_file P F (src_dir (sl_source l)) f = Inr g) (sl_files l) files"
    and k: "k = l\<lparr>sl_files := files, sl_digest := lineageDigest P (l\<lparr>sl_files := files\<rparr>)\<rparr>"
    using assms by (auto simp: attest_lineage_def Let_def collect_Inr split: sum.splits)
  have f: "list_all2 (\<lambda>f g. sf_name g = sf_name f
      \<and> fileDigest P F (path_Join [src_dir (sl_source l), sf_name g]) = Inr (sf_digest g)) (sl_files l) files"
    using c by (rule list_all2_mono) (auto dest: attest_file_Inr)
  then have "map sf_name files = map sf_name (sl_files l)"
    "\<forall>g \<in> set files. fileDigest P F (path_Join [src_dir (sl_source l), sf_name g]) = Inr (sf_digest g)"
    by (induction rule: list_all2_induct) auto
  with k show ?thesis by (simp add: lineageDigest_def lineage_artifact_def Lineage_ContentDigest_def lineage_fields_def)
qed

section \<open>Properties\<close>

text \<open>
  C7: the image packages the schema the runtime applies: every resolved source is staged in order
  under a staging directory of its own, and what is staged of a source is, in the order of the names,
  exactly its migration files, the symbolic links that resolve to a regular file included and no other
  link. A plan exists only when every migration entry is a regular file or a link whose resolved
  target lies below the resolved source directory. So where no link leads to something that is not
  a file, the staged names are the whole listing that the runtime's source driver reads.
\<close>

theorem plan_stages_runtime_listing:
  assumes "buildSchemaPlan P F p s = Inr plan" and "\<not> NoMigration s"
  shows "map sl_source (sp_lineages plan) = sources p
    \<and> distinct (map sl_stage (sp_lineages plan))
    \<and> (\<forall>l \<in> set (sp_lineages plan). \<exists>es. ReadDir F (src_dir (sl_source l)) = Inr es
         \<and> map sf_name (sl_files l) = sort (map entry_name (filter
              (\<lambda>e. migration_entry e \<and> (entry_symlink e \<longrightarrow> links_regular F (src_dir (sl_source l)) (entry_name e))) es))
         \<and> (\<forall>e \<in> set es. migration_entry e \<longrightarrow>
              (if entry_symlink e then links_inside F (src_dir (sl_source l)) (entry_name e) else entry_regular e))
         \<and> ((\<forall>e \<in> set es. migration_entry e \<and> entry_symlink e \<longrightarrow> links_regular F (src_dir (sl_source l)) (entry_name e))
              \<longrightarrow> map sf_name (sl_files l) = sort (migration_entries es)))"
proof -
  have pk: "package F 0 (sources p) = Inr (sp_lineages plan)"
    using buildSchemaPlan_lineages [OF assms(1)] assms(2) by simp
  have "\<exists>es. ReadDir F (src_dir (sl_source l)) = Inr es
         \<and> map sf_name (sl_files l) = sort (map entry_name (filter
              (\<lambda>e. migration_entry e \<and> (entry_symlink e \<longrightarrow> links_regular F (src_dir (sl_source l)) (entry_name e))) es))
         \<and> (\<forall>e \<in> set es. migration_entry e \<longrightarrow>
              (if entry_symlink e then links_inside F (src_dir (sl_source l)) (entry_name e) else entry_regular e))
         \<and> ((\<forall>e \<in> set es. migration_entry e \<and> entry_symlink e \<longrightarrow> links_regular F (src_dir (sl_source l)) (entry_name e))
              \<longrightarrow> map sf_name (sl_files l) = sort (migration_entries es))"
    if l: "l \<in> set (sp_lineages plan)" for l
  proof -
    have "stagedFiles F (src_dir (sl_source l)) = Inr (sl_files l)" using package_Inr [OF pk] l by blast
    then obtain es ns where e: "ReadDir F (src_dir (sl_source l)) = Inr es"
      "staged F (src_dir (sl_source l)) es = Inr ns" "map sf_name (sl_files l) = sort ns"
      by (rule stagedFiles_Inr)
    show ?thesis
      using e(1,3) staged_exact [OF e(2)] staged_kinds [OF e(2)] staged_linked [OF e(2)] by (intro exI [of _ es]) simp
  qed
  with package_Inr [OF pk] package_stages_distinct [OF pk] show ?thesis by blast
qed

text \<open>
  A symbolic link is only staged when its resolved target lies below the resolved source root:
  the target's elements are the root's followed by elements that never climb.
\<close>

theorem staged_symlink_contained:
  assumes "symlinkStaysInside F dir name = Inr regular"
  shows "\<exists>root target rest. EvalSymlinks F dir = Inr root \<and> EvalSymlinks F (path_Join [dir, name]) = Inr target
    \<and> clean_elements (IsAbs target) target = clean_elements (IsAbs root) root @ rest \<and> ''..'' \<notin> set rest
    \<and> Stat_regular F target = Inr regular"
proof -
  obtain root target where r: "EvalSymlinks F dir = Inr root" "EvalSymlinks F (path_Join [dir, name]) = Inr target"
    "\<not> escapes_root (Rel root target)" "Stat_regular F target = Inr regular"
    using assms by (auto simp: symlinkStaysInside_def split: sum.splits if_splits)
  from Rel_contained [OF r(3)] r show ?thesis by metis
qed

text \<open>
  Attestation keeps the staged names and their order, fills each digest with the digest of the
  file's bytes, and gives each lineage the digest of its attested content.
\<close>

theorem attest_binds_content:
  assumes "attest P F p = Inr q"
  shows "list_all2 (\<lambda>l k. sl_source k = sl_source l \<and> sl_stage k = sl_stage l
       \<and> map sf_name (sl_files k) = map sf_name (sl_files l)
       \<and> (\<forall>f \<in> set (sl_files k). fileDigest P F (path_Join [src_dir (sl_source k), sf_name f]) = Inr (sf_digest f))
       \<and> sl_digest k = lineageDigest P k) (sp_lineages p) (sp_lineages q)
    \<and> sp_access q = sp_access p \<and> sp_extensions q = sp_extensions p"
proof -
  obtain ls where "list_all2 (\<lambda>l k. attest_lineage P F l = Inr k) (sp_lineages p) ls" "q = p\<lparr>sp_lineages := ls\<rparr>"
    using assms by (auto simp: attest_def collect_Inr split: sum.splits)
  then show ?thesis by (auto elim!: list_all2_mono dest: attest_lineage_Inr)
qed

text \<open>
  The bytes hashed for a lineage determine it: two lineages with the same hashed bytes have
  the same label, ledger and file list, names and digests, unless one of these holds a NUL byte,
  which no file name and no digest does.
\<close>

theorem lineage_identity_injective:
  assumes "nul_terminated (lineage_fields l) = nul_terminated (lineage_fields k)"
    and "list_all (\<lambda>v. NUL \<notin> set v) (lineage_fields l)" and "list_all (\<lambda>v. NUL \<notin> set v) (lineage_fields k)"
  shows "lineage_Label l = lineage_Label k \<and> lineage_Ledger l = lineage_Ledger k \<and> lineage_Files l = lineage_Files k"
proof -
  have "lineage_fields l = lineage_fields k" using nul_terminated_inject assms by blast
  then show ?thesis by (simp add: lineage_fields_def concat_pairs_inject)
qed

text \<open>
  The plan's own identity is weaker: the schemas and the delegated roles are hashed without
  their lengths, so that a plan that exposes a schema and one that instead delegates to a role of
  the same name have the same digest, whatever the hash function is.
\<close>

theorem plan_digest_not_binding:
  "\<exists>p q. Plan_ContentDigest P p = Plan_ContentDigest P q
     \<and> access_Schemas (plan_Access p) \<noteq> access_Schemas (plan_Access q)
     \<and> access_ReadWriteRoles (plan_Access p) \<noteq> access_ReadWriteRoles (plan_Access q)"
proof -
  let ?p = "\<lambda>ss rs. \<lparr>plan_ContractVersion = ContractVersion, plan_Database = ''db'', plan_Extensions = [], plan_Lineages = [],
    plan_Access = \<lparr>access_ReadOnlyRole = ''ro'', access_ReadWriteRole = ''rw'', access_Schemas = ss,
      access_ReadWriteRoles = rs, access_ReadOnlyRoles = []\<rparr>, plan_Digest = []\<rparr>"
  have "plan_fields (?p [''public'', ''app''] []) = plan_fields (?p [''public''] [''app''])"
    by (simp add: plan_fields_def)
  then have "Plan_ContentDigest P (?p [''public'', ''app''] []) = Plan_ContentDigest P (?p [''public''] [''app''])"
    by (simp add: Plan_ContentDigest_def)
  then show ?thesis
    by (intro exI [of _ "?p [''public'', ''app''] []"] exI [of _ "?p [''public''] [''app'']"]) simp
qed

section \<open>Witnesses\<close>

definition sample_prerequisites :: schemaPrerequisites where
  "sample_prerequisites = \<lparr>sources = [sample_api], extensions = [], skipped = []\<rparr>"

definition sample_plan :: schemaPlan where
  "sample_plan = \<lparr>sp_database = ''Orders-DB'', sp_lineages = [\<lparr>sl_source = sample_api, sl_stage = ''00-api'',
       sl_files = [\<lparr>sf_name = ''1_a.up.sql'', sf_digest = []\<rparr>], sl_digest = []\<rparr>],
     sp_extensions = [], sp_access = \<lparr>sa_readOnlyRole = ''codefly_orders_db_00000000_ro'',
       sa_readWriteRole = ''codefly_orders_db_00000000_rw'', sa_schemas = [''public''], sa_readWriteRoles = [''app_request'']\<rparr>\<rparr>"

lemma sample_plan_built: "buildSchemaPlan sample_platform sample_fs sample_prerequisites sample_settings = Inr sample_plan"
proof -
  have a: "normalizedRuntimeSchemas (RuntimeSchemas sample_settings) = Inr [''public'']"
    "normalizedRuntimeReadWriteRoles (RuntimeReadWriteRoles sample_settings)
       [''codefly_orders_db_00000000_ro'', ''codefly_orders_db_00000000_rw''] = Inr [''app_request'']"
    by code_simp+
  have f: "stagedFiles sample_fs ''/api/migrations'' = Inr [\<lparr>sf_name = ''1_a.up.sql'', sf_digest = []\<rparr>]"
    by code_simp
  have n: "stage_name 0 ''api'' = ''00-api''" by code_simp
  have "resolveSchemaAccess sample_platform sample_settings = Inr (sp_access sample_plan)"
    by (simp add: resolveSchemaAccess_def sample_roles a sample_plan_def)
  moreover have "package sample_fs 0 [sample_api] = Inr (sp_lineages sample_plan)"
    using f n by (simp add: sample_plan_def sample_api_def label_def)
  moreover have "DatabaseName sample_settings = ''Orders-DB''" "\<not> NoMigration sample_settings"
    by (simp_all add: sample_settings_def)
  ultimately show ?thesis
    by (simp add: buildSchemaPlan_def sample_prerequisites_def) (simp add: sample_plan_def)
qed

theorem plan_stages_runtime_listing_witness:
  "map sl_source (sp_lineages sample_plan) = [sample_api]
   \<and> (\<exists>es. ReadDir sample_fs (src_dir sample_api) = Inr es \<and> sort (map entry_name (filter
        (\<lambda>e. migration_entry e \<and> (entry_symlink e \<longrightarrow> links_regular sample_fs (src_dir sample_api) (entry_name e))) es))
        = [''1_a.up.sql''])"
proof -
  have "\<not> NoMigration sample_settings" by (simp add: sample_settings_def)
  note c = plan_stages_runtime_listing [OF sample_plan_built this]
  define l where "l = \<lparr>sl_source = sample_api, sl_stage = ''00-api'',
       sl_files = [\<lparr>sf_name = ''1_a.up.sql'', sf_digest = []\<rparr>], sl_digest = []\<rparr>"
  then have "l \<in> set (sp_lineages sample_plan)" "sl_source l = sample_api" "map sf_name (sl_files l) = [''1_a.up.sql'']"
    by (simp_all add: sample_plan_def)
  with bspec [OF c [THEN conjunct2, THEN conjunct2], of l]
  obtain es where es: "ReadDir sample_fs (src_dir sample_api) = Inr es"
    "[''1_a.up.sql''] = sort (map entry_name (filter
        (\<lambda>e. migration_entry e \<and> (entry_symlink e \<longrightarrow> links_regular sample_fs (src_dir sample_api) (entry_name e))) es))"
    by auto
  with c show ?thesis by (auto simp: sample_prerequisites_def)
qed

definition sample_link_fs :: filesystem where
  "sample_link_fs = sample_fs\<lparr>EvalSymlinks := (\<lambda>p. if p = ''/m/1_a.up.sql'' then Inr ''/m/shared/a.sql'' else Inr p)\<rparr>"

theorem staged_symlink_contained_witness:
  "\<exists>rest. clean_elements True ''/m/shared/a.sql'' = clean_elements True ''/m'' @ rest \<and> ''..'' \<notin> set rest"
proof -
  have "symlinkStaysInside sample_link_fs ''/m'' ''1_a.up.sql'' = Inr True" by code_simp
  note c = staged_symlink_contained [OF this]
  have j: "path_Join [''/m'', ''1_a.up.sql''] = ''/m/1_a.up.sql''" by code_simp
  have e: "EvalSymlinks sample_link_fs ''/m'' = Inr ''/m''"
    "EvalSymlinks sample_link_fs ''/m/1_a.up.sql'' = Inr ''/m/shared/a.sql''"
    by (simp_all add: sample_link_fs_def)
  have "IsAbs ''/m''" "IsAbs ''/m/shared/a.sql''" by (simp_all add: IsAbs_def)
  with c show ?thesis unfolding j e by auto
qed

theorem attest_binds_content_witness:
  "\<exists>q. attest sample_platform sample_fs sample_plan = Inr q
     \<and> (\<forall>k \<in> set (sp_lineages q). sl_digest k = lineageDigest sample_platform k)"
proof -
  obtain q where q: "attest sample_platform sample_fs sample_plan = Inr q"
    by (simp add: attest_def sample_plan_def attest_lineage_def attest_file_def fileDigest_def sample_fs_def)
  from attest_binds_content [OF q] q show ?thesis
    by (auto simp: list_all2_conv_all_nth in_set_conv_nth)
qed

theorem lineage_identity_injective_witness:
  "lineage_Files \<lparr>lineage_Label = ''api'', lineage_Ledger = ''t'', lineage_Stage = ''00-api'', lineage_Digest = ''d1'',
       lineage_Files = [\<lparr>file_Name = ''1_a.up.sql'', file_Digest = ''d''\<rparr>]\<rparr>
   = lineage_Files \<lparr>lineage_Label = ''api'', lineage_Ledger = ''t'', lineage_Stage = ''01-api'', lineage_Digest = ''d2'',
       lineage_Files = [\<lparr>file_Name = ''1_a.up.sql'', file_Digest = ''d''\<rparr>]\<rparr>"
  by (rule lineage_identity_injective [THEN conjunct2, THEN conjunct2]) (simp_all add: lineage_fields_def NUL_def)

end
