(* ===== verification/Store.thy ===== *)
theory Store
  imports RuntimeAccess
begin

text \<open>
  The request-time library of \<open>libs/go\<close>: \<open>store.go\<close>, the options of \<open>maintenance.go\<close>,
  \<open>session_policy.go\<close>, \<open>identity.go\<close>, \<open>connection_policy.go\<close> and \<open>externalidentity.go\<close>, and the
  profile validation of \<open>connection_profile.go\<close>. A who becomes a transaction scope, a
  capability runs transactions in it, and the library never hands out an unscoped transaction. The
  application's authenticator, the pool and the callback are parameters; a pointer that identifies
  a workload issuer is a number.
\<close>

section \<open>Connection profiles\<close>

definition VerifiedTLS :: string where "VerifiedTLS = ''verified-tls''"
definition LocalIdentityProxy :: string where "LocalIdentityProxy = ''local-identity-proxy''"
definition MeshProtected :: string where "MeshProtected = ''mesh-protected''"
definition PinnedAuthorityTLS :: string where "PinnedAuthorityTLS = ''pinned-authority-tls''"
definition LocalLoopback :: string where "LocalLoopback = ''local-loopback''"

record ConnectionProfile =
  Transport :: string
  ApplicationRole :: string
  profile_Host :: string
  profile_Port :: nat
  profile_Database :: string
  profile_User :: string
  ServerTrustAnchorPEM :: string

definition zero_profile :: ConnectionProfile where
  "zero_profile = \<lparr>Transport = [], ApplicationRole = [], profile_Host = [], profile_Port = 0,
     profile_Database = [], profile_User = [], ServerTrustAnchorPEM = []\<rparr>"

datatype store_error =
    InvalidProfile
  | TrustAnchorRequired
  | TrustAnchorUnused
  | TrustAnchorInvalid
  | NoNamespace string
  | EmptySegment string
  | UnsafeSettingCharacter string
  | SettingsNotDistinct
  | TimeoutNotPositive
  | UnsupportedIsolation
  | RestrictedRolesInvalid
  | NilTokenProvider
  | UnknownIssuer string
  | TwoCredentials
  | IssuerFailed string string
  | Unauthenticated "string option"
  | Unauthorized "string option"
  | TenantMismatch
  | UserMismatch
  | NoWriteCapability
  | NotConfigured
  | IdentityRequired
  | CallbackRequired
  | TransactionContextRequired
  | BeginFailed string
  | ScopeFailed string
  | CallbackFailed string
  | CommitFailed string
  | LockArguments
  | CopyArguments
  | CopyColumns

text \<open>\<open>trust\<close> is whether \<open>serverTrustAnchor\<close> accepts the PEM text (an X.509 parser).\<close>

definition validate_profile :: "(string \<Rightarrow> bool) \<Rightarrow> ConnectionProfile \<Rightarrow> store_error option" where
  "validate_profile trust p =
     (if Transport p = [] \<and> p \<noteq> zero_profile then Some InvalidProfile
      else if Transport p \<notin> {[], VerifiedTLS, PinnedAuthorityTLS, LocalIdentityProxy, MeshProtected, LocalLoopback}
        then Some InvalidProfile
      else if ServerTrustAnchorPEM p = [] then
        (if Transport p = PinnedAuthorityTLS then Some TrustAnchorRequired else None)
      else if Transport p \<noteq> VerifiedTLS \<and> Transport p \<noteq> PinnedAuthorityTLS then Some TrustAnchorUnused
      else if \<not> trust (ServerTrustAnchorPEM p) then Some TrustAnchorInvalid
      else None)"

definition plaintext :: "ConnectionProfile \<Rightarrow> bool" where
  "plaintext p \<longleftrightarrow> Transport p = MeshProtected \<or> Transport p = LocalLoopback"

section \<open>Configuration\<close>

text \<open>Policies and token providers are code of the caller: the configuration keeps which one, as a number.\<close>

record config =
  tenantSetting :: string
  userSetting :: string
  operationTimeout :: int
  readIsolation :: string
  accessTokenProvider :: "nat option"
  config_externalIdentity :: string
  restrictedSession :: bool
  deniedRoles :: "string list"
  readerProfile :: ConnectionProfile
  writerProfile :: ConnectionProfile
  maintenanceProfile :: ConnectionProfile
  readerPolicy :: "nat option"
  writerPolicy :: "nat option"
  maintenancePolicy :: "nat option"
  distinctProxySockets :: bool

datatype option_value =
    WithScopeSettings string string
  | WithOperationTimeout int
  | WithReadIsolation string
  | WithRestrictedSession "string list"
  | WithAccessTokenProvider "nat option"
  | WithExternalIdentity string
  | WithConnectionProfiles ConnectionProfile ConnectionProfile
  | WithMaintenanceConnectionProfile ConnectionProfile
  | WithDistinctProxySockets
  | WithConnectionPolicies "nat option" "nat option"
  | WithMaintenanceConnectionPolicy "nat option"

definition check_segment :: "string \<Rightarrow> string \<Rightarrow> store_error option" where
  "check_segment setting segment =
     (if segment = [] then Some (EmptySegment setting)
      else if \<not> list_all ident_char segment then Some (UnsafeSettingCharacter setting)
      else None)"

definition validateSettingName :: "string \<Rightarrow> store_error option" where
  "validateSettingName setting =
     (let segments = Split setting CHR ''.'' in
      if length segments < 2 then Some (NoNamespace setting)
      else first_error (check_segment setting) segments)"

fun check_denied :: "string list \<Rightarrow> string list \<Rightarrow> store_error option" where
  "check_denied seen [] = None"
| "check_denied seen (role # rest) =
     (if TrimSpace role \<noteq> role \<or> role = [] \<or> length role > 63 \<or> NUL \<in> set role \<or> role \<in> set seen
      then Some RestrictedRolesInvalid
      else check_denied (role # seen) rest)"

definition IssuerAzureEntra :: string where "IssuerAzureEntra = ''azure-entra''"
definition IssuerGCPCloudSQL :: string where "IssuerGCPCloudSQL = ''gcp-cloud-sql''"
definition isolation_levels :: "string list" where
  "isolation_levels = [''read committed'', ''repeatable read'', ''serializable'']"

fun apply_option :: "(string \<Rightarrow> bool) \<Rightarrow> option_value \<Rightarrow> config \<Rightarrow> (store_error, config) result" where
  "apply_option trust (WithScopeSettings t u) c =
     (case validateSettingName t of Some e \<Rightarrow> Inl e | None \<Rightarrow>
      (case validateSettingName u of Some e \<Rightarrow> Inl e | None \<Rightarrow>
         if t = u then Inl SettingsNotDistinct else Inr (c\<lparr>tenantSetting := t, userSetting := u\<rparr>)))"
| "apply_option trust (WithOperationTimeout d) c =
     (if d \<le> 0 then Inl TimeoutNotPositive else Inr (c\<lparr>operationTimeout := d\<rparr>))"
| "apply_option trust (WithReadIsolation l) c =
     (if l \<in> set isolation_levels then Inr (c\<lparr>readIsolation := l\<rparr>) else Inl UnsupportedIsolation)"
| "apply_option trust (WithRestrictedSession roles) c =
     (case check_denied [] roles of Some e \<Rightarrow> Inl e
      | None \<Rightarrow> Inr (c\<lparr>restrictedSession := True, deniedRoles := roles\<rparr>))"
| "apply_option trust (WithAccessTokenProvider p) c =
     (case p of None \<Rightarrow> Inl NilTokenProvider | Some _ \<Rightarrow> Inr (c\<lparr>accessTokenProvider := p\<rparr>))"
| "apply_option trust (WithExternalIdentity declaration) c =
     (let issuer = TrimSpace declaration in
      if issuer \<notin> {IssuerAzureEntra, IssuerGCPCloudSQL} then Inl (UnknownIssuer declaration)
      else Inr (c\<lparr>config_externalIdentity := issuer\<rparr>))"
| "apply_option trust (WithConnectionProfiles r w) c =
     (case validate_profile trust r of Some e \<Rightarrow> Inl e | None \<Rightarrow>
      (case validate_profile trust w of Some e \<Rightarrow> Inl e
       | None \<Rightarrow> Inr (c\<lparr>readerProfile := r, writerProfile := w\<rparr>)))"
| "apply_option trust (WithMaintenanceConnectionProfile m) c =
     (case validate_profile trust m of Some e \<Rightarrow> Inl e | None \<Rightarrow> Inr (c\<lparr>maintenanceProfile := m\<rparr>))"
| "apply_option trust WithDistinctProxySockets c = Inr (c\<lparr>distinctProxySockets := True\<rparr>)"
| "apply_option trust (WithConnectionPolicies r w) c = Inr (c\<lparr>readerPolicy := r, writerPolicy := w\<rparr>)"
| "apply_option trust (WithMaintenanceConnectionPolicy m) c = Inr (c\<lparr>maintenancePolicy := m\<rparr>)"

definition default_config :: config where
  "default_config = \<lparr>tenantSetting = ''codefly.current_tenant_id'', userSetting = ''codefly.current_user_id'',
     operationTimeout = 0, readIsolation = [], accessTokenProvider = None, config_externalIdentity = [],
     restrictedSession = False, deniedRoles = [], readerProfile = zero_profile, writerProfile = zero_profile,
     maintenanceProfile = zero_profile, readerPolicy = None, writerPolicy = None, maintenancePolicy = None,
     distinctProxySockets = False\<rparr>"

fun apply_options :: "(string \<Rightarrow> bool) \<Rightarrow> option_value option list \<Rightarrow> config \<Rightarrow> (store_error, config) result" where
  "apply_options trust [] c = Inr c"
| "apply_options trust (None # opts) c = apply_options trust opts c"
| "apply_options trust (Some o' # opts) c = rbind (apply_option trust o' c) (apply_options trust opts)"

definition configured :: "(string \<Rightarrow> bool) \<Rightarrow> option_value option list \<Rightarrow> (store_error, config) result" where
  "configured trust opts = apply_options trust opts default_config"

text \<open>\<open>resolveExternalIdentity\<close>: \<open>issue\<close> mints the declared provider.\<close>

definition resolveExternalIdentity :: "(string \<Rightarrow> (string, nat) result) \<Rightarrow> config \<Rightarrow> (store_error, config) result" where
  "resolveExternalIdentity issue c =
     (if config_externalIdentity c = [] then Inr c
      else if accessTokenProvider c \<noteq> None then Inl TwoCredentials
      else if config_externalIdentity c \<notin> {IssuerAzureEntra, IssuerGCPCloudSQL}
        then Inl (UnknownIssuer (config_externalIdentity c))
      else case issue (config_externalIdentity c) of
             Inl e \<Rightarrow> Inl (IssuerFailed (config_externalIdentity c) e)
           | Inr p \<Rightarrow> Inr (c\<lparr>accessTokenProvider := Some p\<rparr>))"

section \<open>Principals\<close>

record workloadPrincipal =
  wp_issuer :: "nat option"
  wp_tenantID :: string
  wp_userID :: string
  wp_writable :: bool

datatype Principal = WorkloadPrincipal workloadPrincipal | RequestPrincipal string string

fun DatabaseTenantID :: "Principal \<Rightarrow> string" where
  "DatabaseTenantID (WorkloadPrincipal w) = wp_tenantID w"
| "DatabaseTenantID (RequestPrincipal t u) = t"

fun DatabaseUserID :: "Principal \<Rightarrow> string" where
  "DatabaseUserID (WorkloadPrincipal w) = wp_userID w"
| "DatabaseUserID (RequestPrincipal t u) = u"

text \<open>A context: the private workload value and what the application put there.\<close>

record 'c request_context =
  workload_value :: "workloadPrincipal option"
  application :: 'c

record 'c Authenticator =
  AuthenticatedPrincipal :: "'c request_context \<Rightarrow> (string, Principal option) result"
  AuthorizeDatabaseWrite :: "'c request_context \<Rightarrow> Principal \<Rightarrow> string option"

record 'c WorkloadIssuer =
  issuer_address :: nat
  issuer_requests :: "'c Authenticator option"

definition NewWorkloadIssuer :: "nat \<Rightarrow> 'c Authenticator option \<Rightarrow> (store_error, 'c WorkloadIssuer) result" where
  "NewWorkloadIssuer address requests =
     (case requests of None \<Rightarrow> Inl NotConfigured
      | Some r \<Rightarrow> Inr \<lparr>issuer_address = address, issuer_requests = Some r\<rparr>)"

definition Issue :: "'c WorkloadIssuer option \<Rightarrow> string \<Rightarrow> string \<Rightarrow> bool \<Rightarrow> (store_error, workloadPrincipal) result" where
  "Issue issuer tenantID workloadID writable =
     (case issuer of None \<Rightarrow> Inl NotConfigured
      | Some i \<Rightarrow>
        if issuer_requests i = None then Inl NotConfigured
        else if TrimSpace tenantID = [] \<or> TrimSpace workloadID = [] then Inl IdentityRequired
        else Inr \<lparr>wp_issuer = Some (issuer_address i), wp_tenantID = TrimSpace tenantID,
                  wp_userID = ''workload:'' @ TrimSpace workloadID, wp_writable = writable\<rparr>)"

text \<open>\<open>Workload.Context\<close>; \<open>background\<close> is \<open>context.Background()\<close>.\<close>

definition workload_Context :: "'c request_context \<Rightarrow> workloadPrincipal option \<Rightarrow> 'c request_context option \<Rightarrow> 'c request_context" where
  "workload_Context background workload ctx =
     (let base = (case ctx of None \<Rightarrow> background | Some c \<Rightarrow> c) in
      case workload of None \<Rightarrow> base
      | Some w \<Rightarrow> if wp_issuer w = None then base else base\<lparr>workload_value := Some w\<rparr>)"

datatype auth_failure = NotAuthenticated | AuthFailed string

definition issuer_AuthenticatedPrincipal :: "'c WorkloadIssuer option \<Rightarrow> 'c request_context option
    \<Rightarrow> (auth_failure, Principal option) result" where
  "issuer_AuthenticatedPrincipal issuer ctx =
     (case (issuer, ctx) of
        (Some i, Some c) \<Rightarrow>
          (case issuer_requests i of
             None \<Rightarrow> Inl NotAuthenticated
           | Some requests \<Rightarrow>
               (let delegate = (case AuthenticatedPrincipal requests c of Inl e \<Rightarrow> Inl (AuthFailed e) | Inr p \<Rightarrow> Inr p) in
                case workload_value c of
                  Some w \<Rightarrow>
                    if wp_issuer w = Some (issuer_address i) \<and> wp_tenantID w \<noteq> [] \<and> wp_userID w \<noteq> []
                    then Inr (Some (WorkloadPrincipal w)) else delegate
                | None \<Rightarrow> delegate))
      | _ \<Rightarrow> Inl NotAuthenticated)"

definition issuer_AuthorizeDatabaseWrite :: "'c WorkloadIssuer option \<Rightarrow> 'c request_context \<Rightarrow> Principal \<Rightarrow> string option" where
  "issuer_AuthorizeDatabaseWrite issuer ctx who =
     (case issuer of
        None \<Rightarrow> Some ''unauthorized''
      | Some i \<Rightarrow>
          (case issuer_requests i of
             None \<Rightarrow> Some ''unauthorized''
           | Some requests \<Rightarrow>
               (case who of
                  WorkloadPrincipal w \<Rightarrow>
                    if wp_issuer w = Some (issuer_address i)
                    then (if wp_writable w then None else Some ''database workload has no write capability'')
                    else AuthorizeDatabaseWrite requests ctx who
                | _ \<Rightarrow> AuthorizeDatabaseWrite requests ctx who)))"

text \<open>The issuer is itself an authenticator (for contexts that are not nil).\<close>

definition issuer_authenticator :: "'c WorkloadIssuer \<Rightarrow> 'c Authenticator" where
  "issuer_authenticator i =
     \<lparr>AuthenticatedPrincipal = (\<lambda>c. case issuer_AuthenticatedPrincipal (Some i) (Some c) of
          Inl NotAuthenticated \<Rightarrow> Inl ''unauthenticated'' | Inl (AuthFailed e) \<Rightarrow> Inl e | Inr p \<Rightarrow> Inr p),
      AuthorizeDatabaseWrite = issuer_AuthorizeDatabaseWrite (Some i)\<rparr>"

section \<open>Capabilities\<close>

record transactionScope =
  scope_tenantSetting :: string
  scope_tenantID :: string
  scope_userSetting :: string
  scope_userID :: string

datatype pool_kind = ReaderPool | WriterPool | MaintenancePool

record capability =
  cap_pool :: pool_kind
  cap_scope :: transactionScope
  cap_timeout :: int
  cap_isolation :: string
  cap_readOnly :: bool

record 'c Factory =
  factory_authenticator :: "'c Authenticator"
  factory_config :: config

definition newFactory :: "(string \<Rightarrow> bool) \<Rightarrow> bool \<Rightarrow> bool \<Rightarrow> 'c Authenticator option \<Rightarrow> option_value option list
    \<Rightarrow> (store_error, 'c Factory) result" where
  "newFactory trust reader writer authenticator opts =
     (if \<not> reader \<or> \<not> writer then Inl NotConfigured
      else case authenticator of
        None \<Rightarrow> Inl NotConfigured
      | Some a \<Rightarrow>
          (case configured trust opts of
             Inl e \<Rightarrow> Inl e
           | Inr c \<Rightarrow> Inr \<lparr>factory_authenticator = a, factory_config = c\<rparr>))"

definition factory_principal :: "'c Factory \<Rightarrow> 'c request_context option \<Rightarrow> (store_error, Principal \<times> transactionScope) result" where
  "factory_principal f ctx =
     (case ctx of
        None \<Rightarrow> Inl (Unauthenticated None)
      | Some c \<Rightarrow>
          (case AuthenticatedPrincipal (factory_authenticator f) c of
             Inl e \<Rightarrow> Inl (Unauthenticated (Some e))
           | Inr None \<Rightarrow> Inl (Unauthenticated None)
           | Inr (Some p) \<Rightarrow>
               (let tenantID = TrimSpace (DatabaseTenantID p); userID = TrimSpace (DatabaseUserID p) in
                if tenantID = [] \<or> userID = [] then Inl (Unauthenticated None)
                else Inr (p, \<lparr>scope_tenantSetting = tenantSetting (factory_config f), scope_tenantID = tenantID,
                              scope_userSetting = userSetting (factory_config f), scope_userID = userID\<rparr>))))"

definition Factory_Reader :: "'c Factory \<Rightarrow> 'c request_context option \<Rightarrow> (store_error, capability) result" where
  "Factory_Reader f ctx =
     (case factory_principal f ctx of
        Inl e \<Rightarrow> Inl e
      | Inr (p, scope) \<Rightarrow>
          Inr \<lparr>cap_pool = ReaderPool, cap_scope = scope, cap_timeout = operationTimeout (factory_config f),
               cap_isolation = readIsolation (factory_config f), cap_readOnly = True\<rparr>)"

definition Factory_Writer :: "'c Factory \<Rightarrow> 'c request_context option \<Rightarrow> (store_error, capability) result" where
  "Factory_Writer f ctx =
     (case factory_principal f ctx of
        Inl e \<Rightarrow> Inl e
      | Inr (p, scope) \<Rightarrow>
          (case (case ctx of Some c \<Rightarrow> AuthorizeDatabaseWrite (factory_authenticator f) c p | None \<Rightarrow> None) of
             Some e \<Rightarrow> Inl (Unauthorized (Some e))
           | None \<Rightarrow>
               Inr \<lparr>cap_pool = WriterPool, cap_scope = scope, cap_timeout = operationTimeout (factory_config f),
                    cap_isolation = [], cap_readOnly = False\<rparr>))"

definition RequireTenant :: "'c Factory \<Rightarrow> 'c request_context option \<Rightarrow> string \<Rightarrow> store_error option" where
  "RequireTenant f ctx tenantID =
     (case factory_principal f ctx of
        Inl e \<Rightarrow> Some e
      | Inr (p, scope) \<Rightarrow>
          if TrimSpace tenantID = [] \<or> TrimSpace tenantID \<noteq> scope_tenantID scope then Some TenantMismatch else None)"

definition RequireUser :: "'c Factory \<Rightarrow> 'c request_context option \<Rightarrow> string \<Rightarrow> store_error option" where
  "RequireUser f ctx userID =
     (case factory_principal f ctx of
        Inl e \<Rightarrow> Some e
      | Inr (p, scope) \<Rightarrow>
          if TrimSpace userID = [] \<or> TrimSpace userID \<noteq> scope_userID scope then Some UserMismatch else None)"

text \<open>\<open>Maintenance\<close>: the same transactions without a tenant, through its own pool.\<close>

definition maintenance_scope :: "config \<Rightarrow> transactionScope" where
  "maintenance_scope c = \<lparr>scope_tenantSetting = tenantSetting c, scope_tenantID = [],
     scope_userSetting = userSetting c, scope_userID = []\<rparr>"

definition Maintenance_Reader :: "config option \<Rightarrow> unit option \<Rightarrow> (store_error, capability) result" where
  "Maintenance_Reader m ctx =
     (case (m, ctx) of
        (Some c, Some _) \<Rightarrow>
          Inr \<lparr>cap_pool = MaintenancePool, cap_scope = maintenance_scope c, cap_timeout = operationTimeout c,
               cap_isolation = readIsolation c, cap_readOnly = True\<rparr>
      | _ \<Rightarrow> Inl (Unauthenticated None))"

definition Maintenance_Writer :: "config option \<Rightarrow> unit option \<Rightarrow> (store_error, capability) result" where
  "Maintenance_Writer m ctx =
     (case (m, ctx) of
        (Some c, Some _) \<Rightarrow>
          Inr \<lparr>cap_pool = MaintenancePool, cap_scope = maintenance_scope c, cap_timeout = operationTimeout c,
               cap_isolation = [], cap_readOnly = False\<rparr>
      | _ \<Rightarrow> Inl (Unauthorized None))"

section \<open>Transactions\<close>

text \<open>
  What the library calls of a pool and of a transaction. \<open>set_configs\<close> is the one statement that
  installs both settings, \<open>current_setting\<close> what a policy reads afterwards. The callback is
  application code: it sees the session and leaves another one.
\<close>

record 's database =
  BeginTx :: "pool_kind \<Rightarrow> bool \<Rightarrow> string \<Rightarrow> (string, 's) result"
  set_configs :: "transactionScope \<Rightarrow> 's \<Rightarrow> string option \<times> 's"
  current_setting :: "'s \<Rightarrow> string \<Rightarrow> string"
  Commit :: "'s \<Rightarrow> string option"

datatype 's tx_event =
    Began pool_kind bool string
  | ScopeInstalled 's
  | ScopeRefused
  | CallbackRan 's
  | CommitTx
  | RollbackTx

definition runTransaction :: "'s database \<Rightarrow> bool \<Rightarrow> capability \<Rightarrow> ('s \<Rightarrow> string option \<times> 's)
    \<Rightarrow> store_error option \<times> 's tx_event list" where
  "runTransaction db ctx cap callback =
     (let start = Began (cap_pool cap) (cap_readOnly cap) (cap_isolation cap) in
      if \<not> ctx then (Some TransactionContextRequired, [])
      else case BeginTx db (cap_pool cap) (cap_readOnly cap) (cap_isolation cap) of
        Inl e \<Rightarrow> (Some (BeginFailed e), [])
      | Inr s \<Rightarrow>
      (case set_configs db (cap_scope cap) s of
        (Some e, _) \<Rightarrow> (Some (ScopeFailed e), [start, ScopeRefused, RollbackTx])
      | (None, s1) \<Rightarrow>
      (case callback s1 of
        (Some e, _) \<Rightarrow> (Some (CallbackFailed e), [start, ScopeInstalled s1, CallbackRan s1, RollbackTx])
      | (None, s2) \<Rightarrow>
      (case Commit db s2 of
        Some e \<Rightarrow> (Some (CommitFailed e), [start, ScopeInstalled s1, CallbackRan s1, CommitTx, RollbackTx])
      | None \<Rightarrow> (None, [start, ScopeInstalled s1, CallbackRan s1, CommitTx, RollbackTx])))))"

definition InTransaction :: "'s database \<Rightarrow> bool \<Rightarrow> capability \<Rightarrow> ('s \<Rightarrow> string option \<times> 's) option
    \<Rightarrow> store_error option \<times> 's tx_event list" where
  "InTransaction db ctx cap fn =
     (case fn of None \<Rightarrow> (Some CallbackRequired, []) | Some callback \<Rightarrow> runTransaction db ctx cap callback)"

text \<open>The destination of a bulk copy is always a temporary table.\<close>

definition CopyIntoTemporaryTable :: "(string list \<Rightarrow> string list \<Rightarrow> (string, int) result) \<Rightarrow> bool \<Rightarrow> bool \<Rightarrow> string
    \<Rightarrow> string list \<Rightarrow> bool \<Rightarrow> (store_error, (string, int) result) result" where
  "CopyIntoTemporaryTable CopyFrom ctx tx table columns source =
     (let table = TrimSpace table in
      if \<not> ctx \<or> \<not> tx \<or> table = [] \<or> columns = [] \<or> \<not> source then Inl CopyArguments
      else if list_ex blank columns then Inl CopyColumns
      else Inr (CopyFrom [''pg_temp'', table] columns))"

section \<open>Setting names and configurations\<close>

lemma validateSettingName_None:
  "validateSettingName s = None \<longleftrightarrow>
     2 \<le> length (Split s CHR ''.'') \<and> (\<forall>seg \<in> set (Split s CHR ''.''). validSQLIdentifier seg)"
  by (auto simp: validateSettingName_def Let_def go_simps check_segment_def validSQLIdentifier_def)

lemma valid_setting_characters:
  assumes "validateSettingName s = None" "c \<in> set s"
  shows "c = CHR ''.'' \<or> ident_char c"
proof -
  have "\<forall>seg \<in> set (Split s CHR ''.''). list_all ident_char seg"
    using assms(1) by (auto simp: validateSettingName_None validSQLIdentifier_def split: if_splits)
  moreover have "set (Join ws sep) \<subseteq> \<Union> (set ` set ws) \<union> set sep" for ws :: "string list" and sep
    by (induction ws sep rule: Join.induct) auto
  from this [of "Split s CHR ''.''" "[CHR ''.'']"]
  have "c \<in> \<Union> (set ` set (Split s CHR ''.'')) \<or> c = CHR ''.''" using assms(2) by auto
  ultimately show ?thesis by (auto simp: list_all_iff)
qed

text \<open>What every configuration the options produce satisfies.\<close>

definition config_ok :: "(string \<Rightarrow> bool) \<Rightarrow> config \<Rightarrow> bool" where
  "config_ok trust c \<longleftrightarrow>
     validateSettingName (tenantSetting c) = None \<and> validateSettingName (userSetting c) = None \<and>
     tenantSetting c \<noteq> userSetting c \<and> 0 \<le> operationTimeout c \<and>
     (readIsolation c = [] \<or> readIsolation c \<in> set isolation_levels) \<and>
     config_externalIdentity c \<in> {[], IssuerAzureEntra, IssuerGCPCloudSQL} \<and>
     distinct (deniedRoles c) \<and>
     list_all (\<lambda>r. r \<noteq> [] \<and> TrimSpace r = r \<and> length r \<le> 63 \<and> NUL \<notin> set r) (deniedRoles c) \<and>
     list_all (\<lambda>p. validate_profile trust p = None) [readerProfile c, writerProfile c, maintenanceProfile c]"

lemma check_denied_None:
  "check_denied seen roles = None \<longleftrightarrow>
     distinct roles \<and> set roles \<inter> set seen = {} \<and>
     list_all (\<lambda>r. r \<noteq> [] \<and> TrimSpace r = r \<and> length r \<le> 63 \<and> NUL \<notin> set r) roles"
  by (induction roles arbitrary: seen) auto

lemma default_config_ok: "config_ok trust default_config"
proof -
  have "validateSettingName ''codefly.current_tenant_id'' = None"
    "validateSettingName ''codefly.current_user_id'' = None" by code_simp+
  moreover have "validate_profile trust zero_profile = None"
    by (simp add: validate_profile_def zero_profile_def PinnedAuthorityTLS_def)
  ultimately show ?thesis by (simp add: config_ok_def default_config_def)
qed

lemma apply_option_ok:
  "apply_option trust opt c = Inr c' \<Longrightarrow> config_ok trust c \<Longrightarrow> config_ok trust c'"
proof -
  assume step: "apply_option trust opt c = Inr c'" and ok: "config_ok trust c"
  note [simp] = config_ok_def check_denied_None
  note [split] = option.split_asm if_split_asm
  show "config_ok trust c'"
  proof (cases opt)
    case (WithExternalIdentity d)
    then have "c' = c\<lparr>config_externalIdentity := TrimSpace d\<rparr>"
      "TrimSpace d = IssuerAzureEntra \<or> TrimSpace d = IssuerGCPCloudSQL" using step by (auto simp: Let_def)
    with ok show ?thesis by simp
  next
    case (WithRestrictedSession roles)
    then have "c' = c\<lparr>restrictedSession := True, deniedRoles := roles\<rparr>" "check_denied [] roles = None"
      using step by auto
    with ok show ?thesis by simp
  next
    case (WithConnectionProfiles r w)
    then have "c' = c\<lparr>readerProfile := r, writerProfile := w\<rparr>"
      "validate_profile trust r = None" "validate_profile trust w = None" using step by auto
    with ok show ?thesis by simp
  next
    case (WithMaintenanceConnectionProfile m)
    then have "c' = c\<lparr>maintenanceProfile := m\<rparr>" "validate_profile trust m = None" using step by auto
    with ok show ?thesis by simp
  next
    case (WithScopeSettings t u)
    then have "c' = c\<lparr>tenantSetting := t, userSetting := u\<rparr>" "t \<noteq> u"
      "validateSettingName t = None" "validateSettingName u = None" using step by auto
    with ok show ?thesis by simp
  next
    case (WithOperationTimeout d)
    then have "c' = c\<lparr>operationTimeout := d\<rparr>" "0 \<le> d" using step by auto
    with ok show ?thesis by simp
  next
    case (WithReadIsolation l)
    then have "c' = c\<lparr>readIsolation := l\<rparr>" "l \<in> set isolation_levels" using step by auto
    with ok show ?thesis by simp
  next
    case (WithAccessTokenProvider t)
    then have "c' = c\<lparr>accessTokenProvider := t\<rparr>" using step by auto
    with ok show ?thesis by simp
  qed (use step ok in auto)
qed

lemma apply_options_ok:
  "apply_options trust opts c = Inr c' \<Longrightarrow> config_ok trust c \<Longrightarrow> config_ok trust c'"
  by (induction trust opts c rule: apply_options.induct) (auto simp: go_simps intro: apply_option_ok)

text \<open>C29: every configuration the options of the library can produce is well formed: both scope
  settings are namespaced names over letters, digits and underscores, they are distinct strings, the
  timeout is not negative, the isolation level and the identity issuer are known ones, the denied
  roles are distinct nonempty identifiers without padding, and the three profiles validate.\<close>

theorem configured_well_formed:
  assumes "configured trust opts = Inr c"
  shows "config_ok trust c \<and>
    (\<forall>x \<in> set (tenantSetting c @ userSetting c). x = CHR ''.'' \<or> ident_char x)"
proof
  show ok: "config_ok trust c"
    using assms default_config_ok by (auto simp: configured_def intro: apply_options_ok)
  then show "\<forall>x \<in> set (tenantSetting c @ userSetting c). x = CHR ''.'' \<or> ident_char x"
    by (auto simp: config_ok_def dest: valid_setting_characters)
qed

definition sample_options :: "option_value option list" where
  "sample_options = [Some (WithScopeSettings ''app.tenant'' ''app.user''), None, Some (WithOperationTimeout 5),
     Some (WithReadIsolation ''serializable''), Some (WithRestrictedSession [''root'', ''writer''])]"

definition sample_config :: config where
  "sample_config = default_config\<lparr>tenantSetting := ''app.tenant'', userSetting := ''app.user'',
     operationTimeout := 5, readIsolation := ''serializable'', restrictedSession := True,
     deniedRoles := [''root'', ''writer'']\<rparr>"

lemma TrimSpace_samples: "TrimSpace ''root'' = ''root''" "TrimSpace ''writer'' = ''writer''"
  by code_simp+

lemma sample_configured: "configured trust sample_options = Inr sample_config"
proof -
  have "validateSettingName ''app.tenant'' = None" "validateSettingName ''app.user'' = None" by code_simp+
  then show ?thesis
    by (simp add: configured_def sample_options_def sample_config_def isolation_levels_def NUL_def
        TrimSpace_samples)
qed

theorem configured_well_formed_witness:
  "config_ok (\<lambda>pem. False) sample_config \<and> ident_char (hd (tenantSetting sample_config))"
  using configured_well_formed [OF sample_configured [of "\<lambda>pem. False"]]
  by (auto simp: sample_config_def)

section \<open>Workload identities\<close>

lemma strip_keeps:
  "c \<in> set s \<Longrightarrow> (\<And>p. p \<in> set ps \<Longrightarrow> c \<notin> set p) \<Longrightarrow> c \<in> set (strip ps s)"
proof (induction ps s rule: strip.induct)
  case (1 ps s)
  show ?case
  proof (cases "find (\<lambda>p. p \<noteq> [] \<and> prefix p s) ps")
    case None
    with 1 show ?thesis by (simp add: strip.simps [of ps s])
  next
    case (Some q)
    then obtain r where "q \<in> set ps" "s = q @ r" by (auto simp: find_Some_iff prefix_def)
    moreover have "strip ps s = strip ps (drop (length q) s)" using Some by (subst strip.simps) simp
    ultimately show ?thesis using 1 Some by auto
  qed
qed

lemma space_runes_no_graph: "p \<in> set space_runes \<Longrightarrow> c \<in> set p \<Longrightarrow> \<not> is_graph c"
  unfolding space_runes_def by (auto simp: is_graph_def)

lemma TrimSpace_graph_nonempty: "c \<in> set s \<Longrightarrow> is_graph c \<Longrightarrow> TrimSpace s \<noteq> []"
proof -
  assume c: "c \<in> set s" "is_graph c"
  then have "c \<in> set (rev (strip space_runes s))"
    using strip_keeps space_runes_no_graph by (metis set_rev)
  then have "c \<in> set (strip (map rev space_runes) (rev (strip space_runes s)))"
    using c(2) space_runes_no_graph by (intro strip_keeps) auto
  then show ?thesis by (auto simp: TrimSpace_def)
qed

lemma issuer_AuthenticatedPrincipal_own:
  assumes "Issue (Some i) t w writable = Inr p"
  shows "issuer_AuthenticatedPrincipal (Some i) (Some (workload_Context bg (Some p) ctx)) =
    Inr (Some (WorkloadPrincipal p))"
  using assms
  by (auto simp: Issue_def issuer_AuthenticatedPrincipal_def workload_Context_def Let_def
      split: if_splits option.splits)

lemma issuer_AuthenticatedPrincipal_foreign:
  assumes "issuer_requests i = Some requests" "wp_issuer p \<noteq> Some (issuer_address i)" "workload_value c = Some p"
  shows "AuthenticatedPrincipal (issuer_authenticator i) c = AuthenticatedPrincipal requests c"
  using assms
  by (auto simp: issuer_authenticator_def issuer_AuthenticatedPrincipal_def Let_def split: sum.splits)

lemma issuer_AuthorizeDatabaseWrite_own:
  "issuer_requests i = Some requests \<Longrightarrow> wp_issuer p = Some (issuer_address i) \<Longrightarrow>
   AuthorizeDatabaseWrite (issuer_authenticator i) c (WorkloadPrincipal p) =
     (if wp_writable p then None else Some ''database workload has no write capability'')"
  by (simp add: issuer_authenticator_def issuer_AuthorizeDatabaseWrite_def)

text \<open>C10: a workload issued by an issuer and bound to a context comes back as the principal with the
  trimmed tenant and the \<open>workload:\<close> identity it was issued for, a factory over that issuer scopes
  its transactions to exactly that tenant and identity, and the write decision is the one fixed at
  issue time, whatever the request authenticator would have said. For any other issuer with an
  authenticator of its own the same bound workload counts for nothing: the request authenticator
  decides.\<close>

theorem workload_round_trip:
  assumes issued: "Issue (Some i) tenant workload writable = Inr p"
    and f: "factory_authenticator f = issuer_authenticator i"
    and other: "issuer_address j \<noteq> issuer_address i" "issuer_requests j = Some foreign_requests"
  shows "(\<exists>scope. factory_principal f (Some (workload_Context bg (Some p) ctx)) = Inr (WorkloadPrincipal p, scope)
      \<and> scope_tenantID scope = TrimSpace tenant
      \<and> scope_userID scope = TrimSpace (''workload:'' @ TrimSpace workload))
    \<and> (is_ok (Factory_Writer f (Some (workload_Context bg (Some p) ctx))) \<longleftrightarrow> writable)
    \<and> AuthenticatedPrincipal (issuer_authenticator j) (workload_Context bg (Some p) ctx) =
      AuthenticatedPrincipal foreign_requests (workload_Context bg (Some p) ctx)"
proof (intro conjI)
  let ?c = "workload_Context bg (Some p) ctx"
  obtain requests where p: "wp_issuer p = Some (issuer_address i)" "wp_tenantID p = TrimSpace tenant"
      "wp_userID p = ''workload:'' @ TrimSpace workload" "wp_writable p = writable"
    and t: "TrimSpace tenant \<noteq> []" and r: "issuer_requests i = Some requests"
    using issued by (auto simp: Issue_def split: if_splits)
  have ne: "TrimSpace (''workload:'' @ TrimSpace workload) \<noteq> []"
    by (rule TrimSpace_graph_nonempty [of "CHR ''w''"]) (simp_all add: is_graph_def)
  have a: "AuthenticatedPrincipal (factory_authenticator f) ?c = Inr (Some (WorkloadPrincipal p))"
    by (simp add: f issuer_authenticator_def issuer_AuthenticatedPrincipal_own [OF issued])
  have fp: "factory_principal f (Some ?c) = Inr (WorkloadPrincipal p, \<lparr>scope_tenantSetting = tenantSetting (factory_config f),
      scope_tenantID = TrimSpace tenant, scope_userSetting = userSetting (factory_config f),
      scope_userID = TrimSpace (''workload:'' @ TrimSpace workload)\<rparr>)"
    using t ne unfolding factory_principal_def option.case a by (simp add: p Let_def)
  then show "\<exists>scope. factory_principal f (Some ?c) = Inr (WorkloadPrincipal p, scope)
      \<and> scope_tenantID scope = TrimSpace tenant
      \<and> scope_userID scope = TrimSpace (''workload:'' @ TrimSpace workload)" by simp
  show "is_ok (Factory_Writer f (Some ?c)) \<longleftrightarrow> writable"
    unfolding Factory_Writer_def fp f using p
    by (simp add: issuer_AuthorizeDatabaseWrite_own [OF r p(1)])
  have "workload_value ?c = Some p" using p by (simp add: workload_Context_def Let_def)
  with other p(1) show "AuthenticatedPrincipal (issuer_authenticator j) ?c = AuthenticatedPrincipal foreign_requests ?c"
    by (intro issuer_AuthenticatedPrincipal_foreign) auto
qed

definition sample_requests :: "unit Authenticator" where
  "sample_requests = \<lparr>AuthenticatedPrincipal = (\<lambda>c. Inl ''no session''),
     AuthorizeDatabaseWrite = (\<lambda>c p. Some ''denied'')\<rparr>"

definition sample_issuer :: "nat \<Rightarrow> unit WorkloadIssuer" where
  "sample_issuer a = \<lparr>issuer_address = a, issuer_requests = Some sample_requests\<rparr>"

definition sample_factory :: "unit Factory" where
  "sample_factory = \<lparr>factory_authenticator = issuer_authenticator (sample_issuer 1), factory_config = sample_config\<rparr>"

definition sample_background :: "unit request_context" where
  "sample_background = \<lparr>workload_value = None, application = ()\<rparr>"

definition sample_workload :: workloadPrincipal where
  "sample_workload = \<lparr>wp_issuer = Some 1, wp_tenantID = ''acme'', wp_userID = ''workload:indexer'', wp_writable = True\<rparr>"

lemma sample_issue: "Issue (Some (sample_issuer 1)) '' acme'' ''indexer'' True = Inr sample_workload"
proof -
  have "TrimSpace '' acme'' = ''acme''" "TrimSpace ''indexer'' = ''indexer''" by code_simp+
  then show ?thesis by (simp add: Issue_def sample_issuer_def sample_workload_def)
qed

theorem workload_round_trip_witness:
  "is_ok (Factory_Writer sample_factory (Some (workload_Context sample_background (Some sample_workload) None))) \<and>
   AuthenticatedPrincipal (issuer_authenticator (sample_issuer 2))
     (workload_Context sample_background (Some sample_workload) None) = Inl ''no session''"
  using workload_round_trip [OF sample_issue, of sample_factory "sample_issuer 2" sample_requests
      sample_background None]
  by (simp add: sample_factory_def sample_issuer_def) (simp add: sample_requests_def)

section \<open>Scoped transactions\<close>

lemma callback_ran:
  assumes "InTransaction db ctx cap fn = (r, evs)" "CallbackRan s \<in> set evs"
  shows "\<exists>s0. BeginTx db (cap_pool cap) (cap_readOnly cap) (cap_isolation cap) = Inr s0 \<and>
    set_configs db (cap_scope cap) s0 = (None, s)"
  using assms
  by (auto simp: InTransaction_def runTransaction_def Let_def
      split: option.splits if_splits sum.splits prod.splits)

lemma transaction_began:
  assumes "InTransaction db ctx cap fn = (r, evs)" "evs \<noteq> []"
  shows "hd evs = Began (cap_pool cap) (cap_readOnly cap) (cap_isolation cap)"
  using assms
  by (auto simp: InTransaction_def runTransaction_def Let_def
      split: option.splits if_splits sum.splits prod.splits)

text \<open>
  The contract of a source of capabilities: whoever hands out readers and writers hands out readers
  whose transactions are read-only and writers that are not, both scoped through the configured
  settings and both through pools of its own. The request factory and the maintenance capability
  both keep it.
\<close>

locale capability_source =
  fixes reader :: "'x \<Rightarrow> (store_error, capability) result"
    and writer :: "'x \<Rightarrow> (store_error, capability) result"
    and conf :: config
    and scoped :: "'x \<Rightarrow> string \<Rightarrow> string \<Rightarrow> bool"
  assumes reader_law: "reader x = Inr cap \<Longrightarrow>
      cap_readOnly cap \<and> cap_isolation cap = readIsolation conf \<and> cap_timeout cap = operationTimeout conf \<and>
      scope_tenantSetting (cap_scope cap) = tenantSetting conf \<and> scope_userSetting (cap_scope cap) = userSetting conf \<and>
      scoped x (scope_tenantID (cap_scope cap)) (scope_userID (cap_scope cap))"
    and writer_law: "writer x = Inr cap \<Longrightarrow>
      \<not> cap_readOnly cap \<and> cap_isolation cap = [] \<and> cap_timeout cap = operationTimeout conf \<and>
      scope_tenantSetting (cap_scope cap) = tenantSetting conf \<and> scope_userSetting (cap_scope cap) = userSetting conf \<and>
      scoped x (scope_tenantID (cap_scope cap)) (scope_userID (cap_scope cap))"
begin

lemma reader_transaction_read_only:
  assumes "reader x = Inr cap" "InTransaction db ctx cap fn = (r, evs)" "evs \<noteq> []"
  shows "hd evs = Began (cap_pool cap) True (readIsolation conf)"
  using transaction_began [OF assms(2,3)] reader_law [OF assms(1)] by simp

lemma callback_scoped:
  assumes "reader x = Inr cap \<or> writer x = Inr cap"
    and "InTransaction db ctx cap fn = (r, evs)" "CallbackRan s \<in> set evs"
  shows "\<exists>s0 t u. scoped x t u \<and> set_configs db \<lparr>scope_tenantSetting = tenantSetting conf, scope_tenantID = t,
    scope_userSetting = userSetting conf, scope_userID = u\<rparr> s0 = (None, s)"
proof -
  obtain s0 where s0: "set_configs db (cap_scope cap) s0 = (None, s)"
    using callback_ran [OF assms(2,3)] by blast
  have "scope_tenantSetting (cap_scope cap) = tenantSetting conf" "scope_userSetting (cap_scope cap) = userSetting conf"
    "scoped x (scope_tenantID (cap_scope cap)) (scope_userID (cap_scope cap))"
    using assms(1) reader_law writer_law by blast+
  with s0 show ?thesis
    by (intro exI [of _ s0] exI [of _ "scope_tenantID (cap_scope cap)"] exI [of _ "scope_userID (cap_scope cap)"])
      (cases "cap_scope cap", auto)
qed

end

text \<open>Whose identity a factory's capability carries, and that a maintenance capability carries none.\<close>

definition principal_ids :: "'c Factory \<Rightarrow> 'c request_context option \<Rightarrow> string \<Rightarrow> string \<Rightarrow> bool" where
  "principal_ids f ctx t u \<longleftrightarrow>
     (case ctx of None \<Rightarrow> False
      | Some c \<Rightarrow> (case AuthenticatedPrincipal (factory_authenticator f) c of
            Inr (Some p) \<Rightarrow> t = TrimSpace (DatabaseTenantID p) \<and> u = TrimSpace (DatabaseUserID p) \<and> t \<noteq> [] \<and> u \<noteq> []
          | _ \<Rightarrow> False))"

lemma factory_principal_ids:
  "factory_principal f ctx = Inr (p, scope) \<Longrightarrow>
     scope_tenantSetting scope = tenantSetting (factory_config f) \<and>
     scope_userSetting scope = userSetting (factory_config f) \<and>
     principal_ids f ctx (scope_tenantID scope) (scope_userID scope)"
  by (auto simp: factory_principal_def principal_ids_def Let_def
      split: option.splits sum.splits if_splits)

interpretation factory: capability_source "Factory_Reader f" "Factory_Writer f" "factory_config f" "principal_ids f" for f
proof
  fix x cap assume "Factory_Reader f x = Inr cap"
  then obtain p scope where "factory_principal f x = Inr (p, scope)"
    "cap = \<lparr>cap_pool = ReaderPool, cap_scope = scope, cap_timeout = operationTimeout (factory_config f),
       cap_isolation = readIsolation (factory_config f), cap_readOnly = True\<rparr>"
    by (auto simp: Factory_Reader_def split: sum.splits)
  then show "cap_readOnly cap \<and> cap_isolation cap = readIsolation (factory_config f) \<and>
      cap_timeout cap = operationTimeout (factory_config f) \<and>
      scope_tenantSetting (cap_scope cap) = tenantSetting (factory_config f) \<and>
      scope_userSetting (cap_scope cap) = userSetting (factory_config f) \<and>
      principal_ids f x (scope_tenantID (cap_scope cap)) (scope_userID (cap_scope cap))"
    by (simp add: factory_principal_ids)
next
  fix x cap assume "Factory_Writer f x = Inr cap"
  then obtain p scope where "factory_principal f x = Inr (p, scope)"
    "cap = \<lparr>cap_pool = WriterPool, cap_scope = scope, cap_timeout = operationTimeout (factory_config f),
       cap_isolation = [], cap_readOnly = False\<rparr>"
    by (auto simp: Factory_Writer_def split: sum.splits option.splits)
  then show "\<not> cap_readOnly cap \<and> cap_isolation cap = [] \<and>
      cap_timeout cap = operationTimeout (factory_config f) \<and>
      scope_tenantSetting (cap_scope cap) = tenantSetting (factory_config f) \<and>
      scope_userSetting (cap_scope cap) = userSetting (factory_config f) \<and>
      principal_ids f x (scope_tenantID (cap_scope cap)) (scope_userID (cap_scope cap))"
    by (simp add: factory_principal_ids)
qed

interpretation maintenance: capability_source "Maintenance_Reader (Some c)" "Maintenance_Writer (Some c)" c
  "\<lambda>ctx t u. t = [] \<and> u = []" for c
  by unfold_locales
    (auto simp: Maintenance_Reader_def Maintenance_Writer_def maintenance_scope_def split: option.splits)

text \<open>
  What PostgreSQL documents of the statement: both settings are assigned, from left to right, and
  the names of settings are compared without regard to case.
\<close>

definition setting_semantics :: "'s database \<Rightarrow> bool" where
  "setting_semantics db \<longleftrightarrow> (\<forall>scope s s'. set_configs db scope s = (None, s') \<longrightarrow>
     (\<forall>n. current_setting db s' n =
        (if map lower_char n = map lower_char (scope_userSetting scope) then scope_userID scope
         else if map lower_char n = map lower_char (scope_tenantSetting scope) then scope_tenantID scope
         else current_setting db s n)))"

text \<open>C8: no callback of a factory's capability ever runs outside the scope of the authenticated
  principal: in the session it is given, the configured user setting holds that principal's trimmed
  user identity, the tenant setting holds its trimmed tenant identity as long as the two names
  differ in more than case, neither is empty, and a reader's transaction was begun read-only with
  the configured isolation.\<close>

theorem callback_sees_principal:
  assumes sem: "setting_semantics db"
    and cap: "Factory_Reader f ctx = Inr cap \<or> Factory_Writer f ctx = Inr cap"
    and run: "InTransaction db live cap fn = (r, evs)" "CallbackRan s \<in> set evs"
    and names: "map lower_char (tenantSetting (factory_config f)) \<noteq> map lower_char (userSetting (factory_config f))"
  shows "principal_ids f ctx (current_setting db s (tenantSetting (factory_config f)))
      (current_setting db s (userSetting (factory_config f))) \<and>
    (Factory_Reader f ctx = Inr cap \<longrightarrow>
      hd evs = Began (cap_pool cap) True (readIsolation (factory_config f)))"
proof
  obtain s0 t u where ids: "principal_ids f ctx t u"
    and set: "set_configs db \<lparr>scope_tenantSetting = tenantSetting (factory_config f), scope_tenantID = t,
      scope_userSetting = userSetting (factory_config f), scope_userID = u\<rparr> s0 = (None, s)"
    using factory.callback_scoped [OF cap run] by blast
  have "current_setting db s n =
      (if map lower_char n = map lower_char (userSetting (factory_config f)) then u
       else if map lower_char n = map lower_char (tenantSetting (factory_config f)) then t
       else current_setting db s0 n)" for n
    using sem set unfolding setting_semantics_def by fastforce
  with ids names show "principal_ids f ctx (current_setting db s (tenantSetting (factory_config f)))
      (current_setting db s (userSetting (factory_config f)))" by simp
  have "evs \<noteq> []" using run(2) by auto
  then show "Factory_Reader f ctx = Inr cap \<longrightarrow>
      hd evs = Began (cap_pool cap) True (readIsolation (factory_config f))"
    using factory.reader_transaction_read_only [OF _ run(1)] by blast
qed

text \<open>A server whose session is the table of its settings, under the lower-cased names.\<close>

definition sample_db :: "(string \<Rightarrow> string) database" where
  "sample_db = \<lparr>BeginTx = (\<lambda>pool ro iso. Inr (\<lambda>n. [])),
     set_configs = (\<lambda>scope s. (None, s(map lower_char (scope_tenantSetting scope) := scope_tenantID scope,
        map lower_char (scope_userSetting scope) := scope_userID scope))),
     current_setting = (\<lambda>s n. s (map lower_char n)), Commit = (\<lambda>s. None)\<rparr>"

lemma sample_db_semantics: "setting_semantics sample_db"
  by (auto simp: setting_semantics_def sample_db_def)

lemma sample_db_run:
  "InTransaction sample_db True cap (Some (\<lambda>s. (None, s))) =
     (None, [Began (cap_pool cap) (cap_readOnly cap) (cap_isolation cap),
        ScopeInstalled (snd (set_configs sample_db (cap_scope cap) (\<lambda>n. []))),
        CallbackRan (snd (set_configs sample_db (cap_scope cap) (\<lambda>n. []))), CommitTx, RollbackTx])"
  by (simp add: InTransaction_def runTransaction_def sample_db_def Let_def)

definition sample_request :: "unit request_context option" where
  "sample_request = Some (workload_Context sample_background (Some sample_workload) None)"

definition sample_capability :: "transactionScope \<Rightarrow> capability" where
  "sample_capability scope = \<lparr>cap_pool = WriterPool, cap_scope = scope, cap_timeout = 5, cap_isolation = [],
     cap_readOnly = False\<rparr>"

definition sample_scope :: transactionScope where
  "sample_scope = \<lparr>scope_tenantSetting = ''app.tenant'', scope_tenantID = ''acme'',
     scope_userSetting = ''app.user'', scope_userID = ''workload:indexer''\<rparr>"

lemma sample_writer: "Factory_Writer sample_factory sample_request = Inr (sample_capability sample_scope)"
proof -
  have "TrimSpace ''acme'' = ''acme''" "TrimSpace ''workload:indexer'' = ''workload:indexer''" by code_simp+
  then show ?thesis
    by (simp add: Factory_Writer_def factory_principal_def sample_factory_def sample_request_def
        issuer_authenticator_def issuer_AuthenticatedPrincipal_def issuer_AuthorizeDatabaseWrite_def
        sample_issuer_def workload_Context_def sample_workload_def sample_background_def Let_def
        sample_capability_def sample_scope_def sample_config_def default_config_def)
qed

lemma sample_setting_names:
  "map lower_char ''app.tenant'' \<noteq> map lower_char ''app.user''" "tenantSetting sample_config = ''app.tenant''"
  "userSetting sample_config = ''app.user''" "factory_config sample_factory = sample_config"
  by (code_simp | simp add: sample_config_def sample_factory_def)+

theorem callback_sees_principal_witness:
  "principal_ids sample_factory sample_request
     (current_setting sample_db (snd (set_configs sample_db sample_scope (\<lambda>n. []))) ''app.tenant'')
     (current_setting sample_db (snd (set_configs sample_db sample_scope (\<lambda>n. []))) ''app.user'')"
  using callback_sees_principal [OF sample_db_semantics disjI2 [OF sample_writer] sample_db_run,
      of "snd (set_configs sample_db sample_scope (\<lambda>n. []))"] sample_setting_names(1)
  by (simp add: sample_setting_names(2-4)) (simp add: sample_capability_def)

definition folded_names :: "option_value option list" where
  "folded_names = [Some (WithScopeSettings ''app.id'' ''app.ID'')]"

text \<open>The settings option compares the two names as written. Names that differ only in case are
  accepted although the server takes them for one setting, and then the callback runs with the
  user's identity where the policies look for the tenant's.\<close>

theorem scope_names_fold_together:
  "\<exists>c f cap evs s. configured (\<lambda>pem. False) folded_names = Inr c \<and>
     f = \<lparr>factory_authenticator = issuer_authenticator (sample_issuer 1), factory_config = c\<rparr> \<and>
     Factory_Writer f sample_request = Inr cap \<and>
     InTransaction sample_db True cap (Some (\<lambda>s. (None, s))) = (None, evs) \<and> CallbackRan s \<in> set evs \<and>
     scope_tenantID (cap_scope cap) = ''acme'' \<and>
     current_setting sample_db s (tenantSetting c) = ''workload:indexer''"
proof -
  let ?c = "default_config\<lparr>tenantSetting := ''app.id'', userSetting := ''app.ID''\<rparr>"
  let ?f = "\<lparr>factory_authenticator = issuer_authenticator (sample_issuer 1), factory_config = ?c\<rparr>"
  let ?scope = "\<lparr>scope_tenantSetting = ''app.id'', scope_tenantID = ''acme'',
     scope_userSetting = ''app.ID'', scope_userID = ''workload:indexer''\<rparr>"
  let ?cap = "(sample_capability ?scope)\<lparr>cap_timeout := 0\<rparr>"
  have "validateSettingName ''app.id'' = None" "validateSettingName ''app.ID'' = None" by code_simp+
  then have c: "configured (\<lambda>pem. False) folded_names = Inr ?c"
    by (simp add: configured_def folded_names_def)
  have "TrimSpace ''acme'' = ''acme''" "TrimSpace ''workload:indexer'' = ''workload:indexer''" by code_simp+
  then have w: "Factory_Writer ?f sample_request = Inr ?cap"
    by (simp add: Factory_Writer_def factory_principal_def sample_request_def
        issuer_authenticator_def issuer_AuthenticatedPrincipal_def issuer_AuthorizeDatabaseWrite_def
        sample_issuer_def workload_Context_def sample_workload_def sample_background_def Let_def
        sample_capability_def default_config_def)
  have "map lower_char ''app.id'' = map lower_char ''app.ID''" by code_simp
  then have s: "current_setting sample_db (snd (set_configs sample_db ?scope (\<lambda>n. []))) (tenantSetting ?c) = ''workload:indexer''"
    by (simp only: sample_db_def database.simps snd_conv fun_upd_apply transactionScope.simps config.simps) simp
  have "\<exists>evs. InTransaction sample_db True ?cap (Some (\<lambda>s. (None, s))) = (None, evs) \<and>
      CallbackRan (snd (set_configs sample_db ?scope (\<lambda>n. []))) \<in> set evs \<and> scope_tenantID (cap_scope ?cap) = ''acme''"
    unfolding sample_db_run by (simp add: sample_capability_def)
  with c w s show ?thesis by metis
qed

text \<open>C9: a transaction is committed only after its callback returned without an error in the session
  the scope was installed in, the operation reports success exactly when the commit succeeded, and
  every transaction that was begun is rolled back at the end (which does nothing after a
  commit).\<close>

theorem transaction_discipline:
  assumes "InTransaction db live cap fn = (r, evs)"
  shows "(CommitTx \<in> set evs \<longleftrightarrow> (\<exists>s0 s1 s2 callback. live \<and> fn = Some callback \<and>
        BeginTx db (cap_pool cap) (cap_readOnly cap) (cap_isolation cap) = Inr s0 \<and>
        set_configs db (cap_scope cap) s0 = (None, s1) \<and> callback s1 = (None, s2) \<and>
        r = map_option CommitFailed (Commit db s2))) \<and>
    (r = None \<longrightarrow> CommitTx \<in> set evs) \<and>
    (evs \<noteq> [] \<longrightarrow> last evs = RollbackTx \<and> length (filter ((=) RollbackTx) evs) = 1)"
  using assms
  by (auto simp: InTransaction_def runTransaction_def Let_def
      split: option.splits if_splits sum.splits prod.splits)

theorem transaction_discipline_witness:
  "\<exists>evs. InTransaction sample_db True (sample_capability sample_scope) (Some (\<lambda>s. (None, s))) = (None, evs) \<and>
     CommitTx \<in> set evs \<and> last evs = RollbackTx"
  using transaction_discipline [OF sample_db_run, of "sample_capability sample_scope"] sample_db_run by auto

end
