(* ===== verification/ConnectionPolicy.thy ===== *)
theory ConnectionPolicy
  imports Store
begin

text \<open>
  The validation of physical connections: \<open>connection_policy.go\<close>, \<open>session_policy.go\<close> and the
  role qualification of \<open>maintenance.go\<close>. A pool calls the connect hook on every new connection
  and the checkout hook on every acquisition; both run the caller's own hook, the mandatory check,
  the restricted-session check and the capability's policy, in this order, under one bounded
  context. A hook is a function of the context and of the world it runs in, which holds the clock
  and the server; a context is the error it reports in a given world, if any.
\<close>

section \<open>Contexts and hooks\<close>

type_synonym 'w ctx = "'w \<Rightarrow> string option"

type_synonym 'w policy = "'w ctx \<Rightarrow> (string, 'w) action"

text \<open>\<open>context.WithTimeout\<close>, started in world \<open>start\<close>.\<close>

definition WithTimeout :: "('w \<Rightarrow> int) \<Rightarrow> 'w \<Rightarrow> int \<Rightarrow> 'w ctx \<Rightarrow> 'w ctx" where
  "WithTimeout now start timeout ctx w =
     (case ctx w of Some e \<Rightarrow> Some e
      | None \<Rightarrow> if now start + timeout \<le> now w then Some ''context deadline exceeded'' else None)"

definition bounded :: "('w \<Rightarrow> int) \<Rightarrow> config \<Rightarrow> 'w \<Rightarrow> 'w ctx \<Rightarrow> 'w ctx" where
  "bounded now c start ctx =
     (if operationTimeout c > 0 then WithTimeout now start (operationTimeout c) ctx else ctx)"

record 'w pool_hooks =
  AfterConnect :: "'w policy option"
  BeforeAcquire :: "('w ctx \<Rightarrow> 'w \<Rightarrow> bool \<times> 'w) option"
  PrepareConn :: "('w ctx \<Rightarrow> 'w \<Rightarrow> (bool \<times> string option) \<times> 'w) option"

text \<open>\<open>ctx.Err()\<close> as a statement.\<close>

definition still_live :: "'w ctx \<Rightarrow> (string, 'w) action" where
  "still_live ctx w = (ctx w, w)"

text \<open>The \<open>validate\<close> loop: each check that is not nil, and the context after each of them.\<close>

definition validate_checks :: "'w policy option list \<Rightarrow> 'w ctx \<Rightarrow> (string, 'w) action" where
  "validate_checks checks ctx =
     each (\<lambda>check. case check of None \<Rightarrow> done_ok | Some p \<Rightarrow> andThen (p ctx) (still_live ctx)) checks"

definition anyCheck :: "'w policy option list \<Rightarrow> bool" where
  "anyCheck checks \<longleftrightarrow> list_ex (\<lambda>check. check \<noteq> None) checks"

record 'w connectionValidation =
  validation_capability :: string
  onConnect :: "'w policy option"
  validation_policy :: "'w policy option"

text \<open>The capability's policy with its error wrapped.\<close>

definition applied_policy :: "'w connectionValidation \<Rightarrow> 'w policy option" where
  "applied_policy v =
     map_option (\<lambda>p ctx w. case p ctx w of
         (Some e, w') \<Rightarrow> (Some (validation_capability v @ '' Postgres capability connection policy: '' @ e), w')
       | (None, w') \<Rightarrow> (None, w')) (validation_policy v)"

text \<open>\<open>restrict\<close> is \<open>checkRestrictedSession\<close> on the world's connection, for a list of denied roles.\<close>

definition restricted_policy :: "(string list \<Rightarrow> 'w policy) \<Rightarrow> config \<Rightarrow> 'w policy option" where
  "restricted_policy restrict c = (if restrictedSession c then Some (restrict (deniedRoles c)) else None)"

definition connect_checks :: "(string list \<Rightarrow> 'w policy) \<Rightarrow> config \<Rightarrow> 'w connectionValidation \<Rightarrow> 'w policy option list" where
  "connect_checks restrict c v = [onConnect v, restricted_policy restrict c, applied_policy v]"

definition checkout_checks :: "(string list \<Rightarrow> 'w policy) \<Rightarrow> config \<Rightarrow> 'w connectionValidation \<Rightarrow> 'w policy option list" where
  "checkout_checks restrict c v = [restricted_policy restrict c, applied_policy v]"

definition connect_hook :: "('w \<Rightarrow> int) \<Rightarrow> config \<Rightarrow> 'w policy option \<Rightarrow> 'w policy option list \<Rightarrow> 'w policy" where
  "connect_hook now c afterConnect checks ctx w =
     (let ctx = bounded now c w ctx in
      andThen
        (case afterConnect of None \<Rightarrow> done_ok | Some hook \<Rightarrow> andThen (hook ctx) (still_live ctx))
        (validate_checks checks ctx) w)"

text \<open>The caller's checkout hook: a prior \<open>BeforeAcquire\<close> counts only where there is no \<open>PrepareConn\<close>.\<close>

definition prior_prepare :: "'w pool_hooks \<Rightarrow> ('w ctx \<Rightarrow> 'w \<Rightarrow> (bool \<times> string option) \<times> 'w) option" where
  "prior_prepare pc =
     (case PrepareConn pc of
        Some p \<Rightarrow> Some p
      | None \<Rightarrow> map_option (\<lambda>before ctx w. case before ctx w of (ok, w') \<Rightarrow> ((ok, None), w')) (BeforeAcquire pc))"

definition checkout_hook :: "('w \<Rightarrow> int) \<Rightarrow> config \<Rightarrow> ('w ctx \<Rightarrow> 'w \<Rightarrow> (bool \<times> string option) \<times> 'w) option
    \<Rightarrow> 'w policy option list \<Rightarrow> 'w ctx \<Rightarrow> 'w \<Rightarrow> (bool \<times> string option) \<times> 'w" where
  "checkout_hook now c prepare checks ctx w =
     (let ctx = bounded now c w ctx;
          checked = (\<lambda>w. case validate_checks checks ctx w of
             (Some e, w') \<Rightarrow> ((False, Some e), w')
           | (None, w') \<Rightarrow> ((True, None), w')) in
      case prepare of
        None \<Rightarrow> checked w
      | Some p \<Rightarrow>
          (case p ctx w of
             ((ok, err), w') \<Rightarrow>
               if \<not> ok \<or> err \<noteq> None then ((ok, err), w')
               else (case ctx w' of Some e \<Rightarrow> ((False, Some e), w') | None \<Rightarrow> checked w')))"

definition installConnectionValidation :: "(string list \<Rightarrow> 'w policy) \<Rightarrow> ('w \<Rightarrow> int) \<Rightarrow> config \<Rightarrow> 'w connectionValidation
    \<Rightarrow> 'w pool_hooks \<Rightarrow> 'w pool_hooks" where
  "installConnectionValidation restrict now c v pc =
     (if \<not> anyCheck (connect_checks restrict c v) then pc
      else
       (let pc1 = pc\<lparr>AfterConnect := Some (connect_hook now c (AfterConnect pc) (connect_checks restrict c v))\<rparr> in
        if \<not> anyCheck (checkout_checks restrict c v) then pc1
        else pc1\<lparr>BeforeAcquire := None,
                 PrepareConn := Some (checkout_hook now c (prior_prepare pc) (checkout_checks restrict c v))\<rparr>))"

section \<open>The catalogue queries\<close>

text \<open>
  What the two queries read of the server: the roles with their attributes, the membership test, the
  owner of the current database and the two users of the session. \<open>query_error\<close> is a failed query.
\<close>

record pg_role =
  rolname :: string
  rolsuper :: bool
  rolcreatedb :: bool
  rolcreaterole :: bool
  rolreplication :: bool
  rolbypassrls :: bool
  rolcanlogin :: bool

record pg_catalog =
  pg_roles :: "pg_role list"
  pg_has_role :: "string \<Rightarrow> string \<Rightarrow> bool"
  datdba :: string
  session_user :: string
  current_user :: string
  query_error :: bool

definition privileged :: "pg_role \<Rightarrow> bool" where
  "privileged r \<longleftrightarrow> rolsuper r \<or> rolcreatedb r \<or> rolcreaterole r \<or> rolreplication r \<or> rolbypassrls r"

definition session_has :: "pg_catalog \<Rightarrow> string \<Rightarrow> bool" where
  "session_has cat r \<longleftrightarrow> pg_has_role cat (session_user cat) r \<or> pg_has_role cat (current_user cat) r"

definition session_allowed :: "pg_catalog \<Rightarrow> string list \<Rightarrow> bool" where
  "session_allowed cat denied \<longleftrightarrow>
     \<not> list_ex (\<lambda>r. (rolname r = session_user cat \<or> rolname r = current_user cat \<or> session_has cat (rolname r))
          \<and> privileged r) (pg_roles cat) \<and>
     \<not> session_has cat (datdba cat) \<and>
     \<not> list_ex (\<lambda>name. name \<notin> set (map rolname (pg_roles cat)) \<or> session_has cat name) denied"

definition checkRestrictedSession :: "pg_catalog \<Rightarrow> string list \<Rightarrow> string option" where
  "checkRestrictedSession cat denied =
     (if query_error cat \<or> \<not> session_allowed cat denied
      then Some ''Postgres session does not satisfy its restricted role policy'' else None)"

text \<open>
  The qualification of a maintenance connection joins the two roles by name, so a user without a row
  yields no row and a scan error.
\<close>

definition role_named :: "pg_catalog \<Rightarrow> string \<Rightarrow> pg_role option" where
  "role_named cat name = find (\<lambda>r. rolname r = name) (pg_roles cat)"

definition qualify :: "pg_catalog \<Rightarrow> string \<Rightarrow> string option" where
  "qualify cat applicationRole =
     (if query_error cat then Some ''cannot qualify maintenance Postgres role''
      else case (role_named cat (current_user cat), role_named cat (session_user cat)) of
        (Some a, Some l) \<Rightarrow>
          if current_user cat = applicationRole \<and> \<not> rolcanlogin a \<and> \<not> privileged a \<and> \<not> privileged l
             \<and> datdba cat \<noteq> rolname a \<and> datdba cat \<noteq> rolname l
          then None
          else Some ''maintenance requires a restricted login and non-owner application group''
      | _ \<Rightarrow> Some ''cannot qualify maintenance Postgres role'')"

section \<open>Chains of checks\<close>

text \<open>What a chain that admits a connection did: every check passed, in order, and left the context alive.\<close>

fun passed :: "'w policy option list \<Rightarrow> 'w ctx \<Rightarrow> 'w \<Rightarrow> 'w \<Rightarrow> bool" where
  "passed [] ctx w w' \<longleftrightarrow> w' = w"
| "passed (None # checks) ctx w w' \<longleftrightarrow> passed checks ctx w w'"
| "passed (Some p # checks) ctx w w' \<longleftrightarrow>
     (\<exists>u. p ctx w = (None, u) \<and> ctx u = None \<and> passed checks ctx u w')"

lemma still_live_eq [act_simps]: "still_live ctx w = (r, w') \<longleftrightarrow> r = ctx w \<and> w' = w"
  by (auto simp: still_live_def)

lemma validate_checks_None: "validate_checks checks ctx w = (None, w') \<longleftrightarrow> passed checks ctx w w'"
proof (induction checks arbitrary: w)
  case Nil
  then show ?case by (auto simp: validate_checks_def act_simps)
next
  case (Cons check checks)
  then show ?case by (cases check) (auto simp: validate_checks_def act_simps)
qed

lemma passed_live: "passed checks ctx w w' \<Longrightarrow> anyCheck checks \<Longrightarrow> ctx w' = None"
proof (induction checks ctx w w' rule: passed.induct)
  case (3 p checks ctx w w')
  then obtain u where u: "ctx u = None" "passed checks ctx u w'" by auto
  show ?case
  proof (cases "anyCheck checks")
    case True
    with 3 u show ?thesis by blast
  next
    case False
    have "passed cs ctx u w' \<Longrightarrow> \<not> anyCheck cs \<Longrightarrow> w' = u" for cs
      by (induction cs) (auto simp: anyCheck_def)
    with u False show ?thesis by auto
  qed
qed (auto simp: anyCheck_def)

lemma bounded_live:
  "bounded now c start ctx w = None \<Longrightarrow> 0 < operationTimeout c \<Longrightarrow> now w < now start + operationTimeout c"
  by (auto simp: bounded_def WithTimeout_def split: option.splits if_splits)

text \<open>C11: once validation is installed, a new physical connection is admitted only after the caller's
  own connect hook passed and then every check of the chain passed, in the order mandatory check,
  restricted session, capability policy, each on the world its predecessor left and with the context
  still alive; and with a configured operation timeout the whole chain took less than it.\<close>

theorem connection_admitted:
  assumes hook: "AfterConnect (installConnectionValidation restrict now c v pc) = Some hook"
    and installed: "anyCheck (connect_checks restrict c v)"
    and admitted: "hook ctx w = (None, w')"
  shows "\<exists>u. (case AfterConnect pc of None \<Rightarrow> u = w
          | Some h \<Rightarrow> h (bounded now c w ctx) w = (None, u) \<and> bounded now c w ctx u = None) \<and>
      passed [onConnect v, restricted_policy restrict c, applied_policy v] (bounded now c w ctx) u w' \<and>
      (0 < operationTimeout c \<longrightarrow> now w' < now w + operationTimeout c)"
proof -
  have "hook = connect_hook now c (AfterConnect pc) (connect_checks restrict c v)"
    using hook installed by (auto simp: installConnectionValidation_def Let_def split: if_splits)
  with admitted obtain u where u: "(case AfterConnect pc of None \<Rightarrow> u = w
          | Some h \<Rightarrow> h (bounded now c w ctx) w = (None, u) \<and> bounded now c w ctx u = None)"
    and p: "passed (connect_checks restrict c v) (bounded now c w ctx) u w'"
    by (auto simp: connect_hook_def Let_def act_simps validate_checks_None split: option.splits)
  from passed_live [OF p installed] have "0 < operationTimeout c \<longrightarrow> now w' < now w + operationTimeout c"
    by (auto intro: bounded_live)
  with u p show ?thesis by (auto simp: connect_checks_def)
qed

text \<open>Once validation applies to checkouts, the pool's older acquire hook is folded in and cleared;
  a connection is handed out only after the caller's own verdict was positive and every check
  passed; and a connection is refused without an error only when the caller's own hook asked for
  that, so a refusal by a check never makes the pool retry silently.\<close>

theorem checkout_validated:
  assumes installed: "anyCheck (checkout_checks restrict c v)"
    and hook: "PrepareConn (installConnectionValidation restrict now c v pc) = Some hook"
    and ran: "hook ctx w = ((ok, err), w')"
  shows "BeforeAcquire (installConnectionValidation restrict now c v pc) = None \<and>
    (ok \<and> err = None \<longrightarrow>
      (\<exists>u. (case prior_prepare pc of None \<Rightarrow> u = w
            | Some p \<Rightarrow> p (bounded now c w ctx) w = ((True, None), u) \<and> bounded now c w ctx u = None) \<and>
         passed [restricted_policy restrict c, applied_policy v] (bounded now c w ctx) u w')) \<and>
    (\<not> ok \<and> err = None \<longrightarrow>
      (\<exists>p. prior_prepare pc = Some p \<and> p (bounded now c w ctx) w = ((False, None), w')))"
proof -
  have any: "anyCheck (connect_checks restrict c v)"
    using installed by (auto simp: anyCheck_def connect_checks_def checkout_checks_def)
  then have h: "hook = checkout_hook now c (prior_prepare pc) (checkout_checks restrict c v)"
    and b: "BeforeAcquire (installConnectionValidation restrict now c v pc) = None"
    using hook installed by (auto simp: installConnectionValidation_def Let_def)
  have "ok \<and> err = None \<longrightarrow>
      (\<exists>u. (case prior_prepare pc of None \<Rightarrow> u = w
            | Some p \<Rightarrow> p (bounded now c w ctx) w = ((True, None), u) \<and> bounded now c w ctx u = None) \<and>
         passed (checkout_checks restrict c v) (bounded now c w ctx) u w')"
    using ran
    by (auto simp: h checkout_hook_def Let_def validate_checks_None
        split: option.splits prod.splits if_splits)
  moreover have "\<not> ok \<and> err = None \<longrightarrow>
      (\<exists>p. prior_prepare pc = Some p \<and> p (bounded now c w ctx) w = ((False, None), w'))"
    using ran
    by (auto simp: h checkout_hook_def Let_def split: option.splits prod.splits if_splits) metis
  ultimately show ?thesis using b by (auto simp: checkout_checks_def)
qed

section \<open>Sample connection worlds\<close>

text \<open>A world is a clock and the catalogue its connection sees.\<close>

type_synonym sample_world = "int \<times> pg_catalog"

definition sample_role :: "string \<Rightarrow> bool \<Rightarrow> pg_role" where
  "sample_role n login = \<lparr>rolname = n, rolsuper = False, rolcreatedb = False, rolcreaterole = False,
     rolreplication = False, rolbypassrls = False, rolcanlogin = login\<rparr>"

definition sample_catalog :: pg_catalog where
  "sample_catalog = \<lparr>pg_roles = [sample_role ''app_rw'' True, sample_role ''owner'' True, sample_role ''root'' True,
     sample_role ''writer'' False], pg_has_role = (=), datdba = ''owner'', session_user = ''app_rw'',
     current_user = ''app_rw'', query_error = False\<rparr>"

definition sample_restrict :: "string list \<Rightarrow> sample_world policy" where
  "sample_restrict denied ctx w = (checkRestrictedSession (snd w) denied, (fst w + 1, snd w))"

definition sample_policy :: "sample_world policy" where
  "sample_policy ctx w = (None, (fst w + 1, snd w))"

definition sample_validation :: "sample_world connectionValidation" where
  "sample_validation = \<lparr>validation_capability = ''read-write'', onConnect = None, validation_policy = Some sample_policy\<rparr>"

definition sample_pool :: "sample_world pool_hooks" where
  "sample_pool = \<lparr>AfterConnect = None, BeforeAcquire = Some (\<lambda>ctx w. (True, w)), PrepareConn = None\<rparr>"

definition sample_installed :: "sample_world pool_hooks" where
  "sample_installed = installConnectionValidation sample_restrict fst sample_config sample_validation sample_pool"

lemma sample_any: "anyCheck (connect_checks sample_restrict sample_config sample_validation)"
  "anyCheck (checkout_checks sample_restrict sample_config sample_validation)"
  by (simp_all add: anyCheck_def connect_checks_def checkout_checks_def applied_policy_def sample_validation_def)

lemma sample_hooks:
  "AfterConnect sample_installed =
     Some (connect_hook fst sample_config None (connect_checks sample_restrict sample_config sample_validation))"
  "PrepareConn sample_installed =
     Some (checkout_hook fst sample_config (prior_prepare sample_pool)
       (checkout_checks sample_restrict sample_config sample_validation))"
  by (simp_all add: sample_installed_def installConnectionValidation_def sample_any Let_def)
    (simp_all add: sample_pool_def)

lemma sample_session: "checkRestrictedSession sample_catalog [''root'', ''writer''] = None"
  by (simp add: checkRestrictedSession_def session_allowed_def session_has_def sample_catalog_def
      sample_role_def privileged_def)

lemma sample_bounds: "operationTimeout sample_config = 5" "restrictedSession sample_config"
  "deniedRoles sample_config = [''root'', ''writer'']"
  by (simp_all add: sample_config_def)

lemmas sample_policy_simps = sample_bounds validate_checks_def still_live_def andThen_def done_ok_def sample_session
  restricted_policy_def applied_policy_def sample_validation_def sample_policy_def sample_restrict_def
  bounded_def WithTimeout_def

lemma sample_connect:
  "connect_hook fst sample_config None (connect_checks sample_restrict sample_config sample_validation)
     (\<lambda>w. None) (0, sample_catalog) = (None, (2, sample_catalog))"
  by (simp add: connect_hook_def connect_checks_def Let_def sample_policy_simps)

lemma sample_checkout:
  "checkout_hook fst sample_config (prior_prepare sample_pool)
     (checkout_checks sample_restrict sample_config sample_validation)
     (\<lambda>w. None) (0, sample_catalog) = ((True, None), (2, sample_catalog))"
  by (simp add: checkout_hook_def checkout_checks_def prior_prepare_def sample_pool_def Let_def sample_policy_simps)

theorem connection_admitted_witness:
  "passed [None, restricted_policy sample_restrict sample_config, applied_policy sample_validation]
     (bounded fst sample_config (0, sample_catalog) (\<lambda>w. None)) (0, sample_catalog) (2, sample_catalog)"
  using connection_admitted [OF sample_hooks(1) [unfolded sample_installed_def] sample_any(1) sample_connect]
  by (auto simp: sample_pool_def sample_validation_def)

theorem checkout_validated_witness:
  "BeforeAcquire sample_installed = None \<and>
   (\<exists>u. passed [restricted_policy sample_restrict sample_config, applied_policy sample_validation]
     (bounded fst sample_config (0, sample_catalog) (\<lambda>w. None)) u (2, sample_catalog))"
  using checkout_validated [OF sample_any(2) sample_hooks(2) [unfolded sample_installed_def] sample_checkout]
  by (auto simp: sample_installed_def)

end
