(* ===== verification/Connections.thy ===== *)
theory Connections
  imports ConnectionPolicy FilePath
begin

text \<open>
  Opening the pools: \<open>ParseConnection\<close> of \<open>connection_profile.go\<close>, \<open>open.go\<close>, \<open>pool.go\<close>, the
  opening half of \<open>maintenance.go\<close> and the credential hook of \<open>identity.go\<close>. The URL parser, the
  driver's configuration parser and the test for a loopback address are parameters: the code
  re-checks what they return, and the theorems hold whatever they answer. A pool is an entry of a
  trace of pool operations.
\<close>

section \<open>Parsed connections\<close>

record url =
  Scheme :: string
  Opaque :: string
  Fragment :: string
  url_User :: "(string \<times> string option) option"
  url_Host :: string
  Hostname :: string
  url_Port :: string
  url_Path :: string
  RawQuery :: string

record tls_config =
  InsecureSkipVerify :: bool
  ServerName :: string
  VerifyPeerCertificate :: bool
  VerifyConnection :: bool
  RootCAs :: "string option"

record ConnConfig =
  conn_Host :: string
  conn_Port :: nat
  conn_Database :: string
  conn_User :: string
  conn_Password :: string
  Fallbacks :: nat
  RuntimeParams :: "(string \<times> string) list"
  TLSConfig :: "tls_config option"

type_synonym query = "(string \<times> string list) list"

record parsers =
  url_Parse :: "string \<Rightarrow> url option"
  ParseQuery :: "string \<Rightarrow> query option"
  ParseConfig :: "string \<Rightarrow> (string, ConnConfig) result"
  ParseConfig_url :: "url \<Rightarrow> query \<Rightarrow> (string, ConnConfig) result"
  IsLoopback :: "string \<Rightarrow> bool"
  Environ :: "string list"
  accepted_anchor :: "string \<Rightarrow> bool"

datatype conn_error =
    StoreError store_error
  | ErrConnectionProfile
  | ErrServerTrustAnchor
  | ErrConnectionUnavailable
  | DriverError string
  | ArgumentRequired
  | SameRole
  | RoleConflict
  | InvalidMaintenanceConnection
  | PoolFailed pool_kind string
  | PingFailed pool_kind string

definition query_Get :: "query \<Rightarrow> string \<Rightarrow> string" where
  "query_Get q key = (case map_of q key of Some (v # _) \<Rightarrow> v | _ \<Rightarrow> [])"

definition query_Set :: "string \<Rightarrow> string \<Rightarrow> query \<Rightarrow> query" where
  "query_Set key value q = (key, [value]) # filter (\<lambda>kv. fst kv \<noteq> key) q"

definition Contains :: "string \<Rightarrow> string \<Rightarrow> bool" where
  "Contains s sub \<longleftrightarrow> list_ex (prefix sub) (suffixes s)"

definition line_breaks :: string where "line_breaks = [NUL, CR, LF]"

definition url_shape :: "url \<Rightarrow> bool" where
  "url_shape u \<longleftrightarrow>
     (Scheme u = ''postgres'' \<or> Scheme u = ''postgresql'') \<and> Opaque u = [] \<and> Fragment u = [] \<and>
     (case url_User u of None \<Rightarrow> False | Some (name, _) \<Rightarrow> name \<noteq> [] \<and> \<not> ContainsAny name line_breaks) \<and>
     prefix ''/'' (url_Path u) \<and> url_Path u \<noteq> ''/'' \<and>
     \<not> ContainsAny (TrimPrefix (url_Path u) ''/'') (CHR ''/'' # line_breaks)"

definition tls_query_keys :: "string list" where
  "tls_query_keys = [''sslcert'', ''sslkey'', ''connect_timeout'', ''pool_max_conns'', ''pool_min_conns'',
     ''pool_min_idle_conns'', ''pool_max_conn_lifetime'', ''pool_max_conn_idle_time'',
     ''pool_health_check_period'', ''pool_max_conn_lifetime_jitter'', ''application_name'']"

text \<open>One iteration of the loop over the query; every refusal is the same error, so the order of the map does not matter.\<close>

definition query_key_ok :: "ConnectionProfile \<Rightarrow> string \<times> string list \<Rightarrow> bool" where
  "query_key_ok profile kv =
     (case kv of (key, values) \<Rightarrow>
      (case values of
         [value] \<Rightarrow>
           \<not> ContainsAny value line_breaks \<and>
           (if key = ''role'' then ApplicationRole profile \<noteq> [] \<and> value = ApplicationRole profile
            else if key = ''sslmode'' \<or> key = ''passfile'' then True
            else if key = ''host'' \<or> key = ''port'' then Transport profile = LocalIdentityProxy
            else if key = ''sslrootcert'' then Transport profile = VerifiedTLS \<and> ServerTrustAnchorPEM profile = []
            else if key \<in> set tls_query_keys
              then Transport profile = VerifiedTLS \<or> Transport profile = PinnedAuthorityTLS
            else False)
       | _ \<Rightarrow> False))"

text \<open>The endpoint the URL names, or a refusal: the socket of a local proxy, or a TCP host and port.\<close>

definition proxy_endpoint :: "url \<Rightarrow> query \<Rightarrow> bool \<Rightarrow> (string \<times> nat) option" where
  "proxy_endpoint u q credentials =
     (let host = query_Get q ''host''; port_text = query_Get q ''port'' in
      if url_Host u \<noteq> [] \<or> credentials \<or> query_Get q ''sslmode'' \<noteq> ''disable''
         \<or> query_Get q ''passfile'' \<noteq> ''/dev/null'' \<or> \<not> IsAbs host \<or> Clean host \<noteq> host \<or> host = ''/''
         \<or> ContainsAny host (CHR '','' # line_breaks) \<or> Contains host ''.s.PGSQL.'' then None
      else case ParseUint 16 port_text of
        None \<Rightarrow> None
      | Some port \<Rightarrow>
          if port = 0 \<or> Itoa port \<noteq> port_text \<or> length (host @ ''/.s.PGSQL.'' @ port_text) > 103 then None
          else Some (host, port))"

definition required_sslmode :: "ConnectionProfile \<Rightarrow> string" where
  "required_sslmode profile =
     (if plaintext profile then ''disable''
      else if Transport profile = PinnedAuthorityTLS then ''verify-ca'' else ''verify-full'')"

definition tcp_endpoint :: "(string \<Rightarrow> bool) \<Rightarrow> ConnectionProfile \<Rightarrow> url \<Rightarrow> query \<Rightarrow> (string \<times> nat) option" where
  "tcp_endpoint loopback profile u q =
     (let host = Hostname u in
      if host = [] \<or> ContainsAny host (CHR '','' # CHR ''/'' # line_breaks)
         \<or> query_Get q ''sslmode'' \<noteq> required_sslmode profile then None
      else if Transport profile = LocalLoopback \<and> host \<noteq> ''localhost'' \<and> \<not> loopback host then None
      else case (if url_Port u \<noteq> [] then ParseUint 16 (url_Port u) else Some 5432) of
        None \<Rightarrow> None
      | Some port \<Rightarrow>
          if port = 0 then None
          else if (case map_of q ''passfile'' of Some (v # _) \<Rightarrow> v \<noteq> ''/dev/null'' | _ \<Rightarrow> False) then None
          else Some (host, port))"

definition default_missing :: "query \<Rightarrow> string \<Rightarrow> query" where
  "default_missing q key = (if key \<in> set (map fst q) then q else query_Set key [] q)"

definition parsed_query :: "query \<Rightarrow> query" where
  "parsed_query q = query_Set ''passfile'' ''/dev/null'' (foldl default_missing q [''sslrootcert'', ''sslcert'', ''sslkey''])"

definition runtime_param_ok :: "ConnectionProfile \<Rightarrow> query \<Rightarrow> string \<times> string \<Rightarrow> bool" where
  "runtime_param_ok profile q kv \<longleftrightarrow>
     (fst kv = ''role'' \<and> snd kv = ApplicationRole profile \<and> ApplicationRole profile \<noteq> []) \<or>
     (fst kv = ''application_name'' \<and> Transport profile = VerifiedTLS \<and> snd kv = query_Get q (fst kv))"

definition tls_shape :: "ConnectionProfile \<Rightarrow> string \<Rightarrow> ConnConfig \<Rightarrow> bool" where
  "tls_shape profile host c \<longleftrightarrow>
     (if Transport profile = LocalIdentityProxy then TLSConfig c = None \<and> conn_Password c = []
      else if plaintext profile then TLSConfig c = None
      else if Transport profile = PinnedAuthorityTLS then
        (case TLSConfig c of None \<Rightarrow> False
         | Some t \<Rightarrow> InsecureSkipVerify t \<and> VerifyPeerCertificate t \<and> ServerName t = [] \<and> \<not> VerifyConnection t)
      else
        (case TLSConfig c of None \<Rightarrow> False
         | Some t \<Rightarrow> \<not> InsecureSkipVerify t \<and> ServerName t = host \<and> \<not> VerifyPeerCertificate t \<and> \<not> VerifyConnection t))"

definition identity_bound :: "ConnectionProfile \<Rightarrow> ConnConfig \<Rightarrow> bool" where
  "identity_bound profile c \<longleftrightarrow>
     (profile_Host profile \<noteq> [] \<longrightarrow> conn_Host c = profile_Host profile) \<and>
     (profile_Port profile \<noteq> 0 \<longrightarrow> conn_Port c = profile_Port profile) \<and>
     (profile_Database profile \<noteq> [] \<longrightarrow> conn_Database c = profile_Database profile) \<and>
     (profile_User profile \<noteq> [] \<longrightarrow> conn_User c = profile_User profile)"

text \<open>The certificate pool of an accepted anchor is identified with its text.\<close>

definition pin_anchor :: "ConnectionProfile \<Rightarrow> ConnConfig \<Rightarrow> ConnConfig" where
  "pin_anchor profile c =
     (if ServerTrustAnchorPEM profile = [] then c
      else c\<lparr>TLSConfig := map_option (\<lambda>t. t\<lparr>RootCAs := Some (ServerTrustAnchorPEM profile)\<rparr>) (TLSConfig c)\<rparr>)"

definition user_name :: "url \<Rightarrow> string" where
  "user_name u = (case url_User u of None \<Rightarrow> [] | Some (name, _) \<Rightarrow> name)"

definition user_password :: "url \<Rightarrow> string option" where
  "user_password u = (case url_User u of None \<Rightarrow> None | Some (_, password) \<Rightarrow> password)"

definition password_text :: "url \<Rightarrow> string" where
  "password_text u = (case user_password u of None \<Rightarrow> [] | Some password \<Rightarrow> password)"

text \<open>What is checked of the driver's configuration after it was parsed from the rewritten URL.\<close>

definition config_matches :: "ConnectionProfile \<Rightarrow> url \<Rightarrow> query \<Rightarrow> string \<Rightarrow> nat \<Rightarrow> ConnConfig \<Rightarrow> bool" where
  "config_matches profile u q host port c \<longleftrightarrow>
     conn_Host c = host \<and> conn_Port c = port \<and> conn_Database c = TrimPrefix (url_Path u) ''/'' \<and>
     conn_User c = user_name u \<and> conn_Password c = password_text u \<and> Fallbacks c = 0 \<and>
     identity_bound profile c \<and> list_all (runtime_param_ok profile q) (RuntimeParams c) \<and> tls_shape profile host c"

definition ParseConnection :: "parsers \<Rightarrow> string \<Rightarrow> ConnectionProfile \<Rightarrow> bool \<Rightarrow> (conn_error, ConnConfig) result" where
  "ParseConnection P dsn profile tokenHook =
     (if validate_profile (accepted_anchor P) profile \<noteq> None then Inl ErrConnectionProfile
      else if Transport profile = [] then
        (case ParseConfig P dsn of Inl e \<Rightarrow> Inl (DriverError e) | Inr c \<Rightarrow> Inr c)
      else if list_ex (prefix ''PG'') (Environ P) then Inl ErrConnectionProfile
      else case url_Parse P dsn of
        None \<Rightarrow> Inl ErrConnectionProfile
      | Some u \<Rightarrow>
      if \<not> url_shape u then Inl ErrConnectionProfile
      else case ParseQuery P (RawQuery u) of
        None \<Rightarrow> Inl ErrConnectionProfile
      | Some q \<Rightarrow>
      if \<not> list_all (query_key_ok profile) q \<or> query_Get q ''role'' \<noteq> ApplicationRole profile
         \<or> ContainsAny (password_text u) line_breaks \<or> (tokenHook \<and> user_password u \<noteq> None)
      then Inl ErrConnectionProfile
      else case (if Transport profile = LocalIdentityProxy
                 then proxy_endpoint u q (user_password u \<noteq> None \<or> tokenHook)
                 else tcp_endpoint (IsLoopback P) profile u q) of
        None \<Rightarrow> Inl ErrConnectionProfile
      | Some (host, port) \<Rightarrow>
      (case ParseConfig_url P u (parsed_query q) of
        Inl e \<Rightarrow> Inl ErrConnectionProfile
      | Inr c \<Rightarrow>
          if \<not> config_matches profile u (parsed_query q) host port c then Inl ErrConnectionProfile
          else Inr (pin_anchor profile c)))"

section \<open>Opening pools\<close>

text \<open>
  A pool configuration is the driver's configuration with the credential hook and the validation
  hooks. \<open>host_env\<close> is what the opening functions call: the identity issuers, the policies and
  providers the caller named, the server checks, the clock, the driver.
\<close>

record 'w PoolConfig =
  pool_conn :: ConnConfig
  BeforeConnect :: "nat option"
  pool_hooks :: "'w pool_hooks"

record 'w host_env =
  env_parsers :: parsers
  env_issue :: "string \<Rightarrow> (string, nat) result"
  env_policy :: "nat \<Rightarrow> 'w policy"
  env_restrict :: "string list \<Rightarrow> 'w policy"
  env_qualify :: "string \<Rightarrow> 'w policy"
  env_now :: "'w \<Rightarrow> int"
  env_NewWithConfig :: "pool_kind \<Rightarrow> 'w PoolConfig \<Rightarrow> string option"
  env_Ping :: "pool_kind \<Rightarrow> 'w PoolConfig \<Rightarrow> string option"

datatype 'w pool_op =
    PoolOpened pool_kind "'w PoolConfig"
  | PoolPinged pool_kind
  | PoolClosed pool_kind

definition no_hooks :: "'w pool_hooks" where
  "no_hooks = \<lparr>AfterConnect = None, BeforeAcquire = None, PrepareConn = None\<rparr>"

definition installAccessTokenProvider :: "nat \<Rightarrow> 'w PoolConfig \<Rightarrow> 'w PoolConfig" where
  "installAccessTokenProvider provider pc = pc\<lparr>BeforeConnect := Some provider\<rparr>"

text \<open>The hook itself, over the providers \<open>provide\<close>: the password of a new connection is the provider's token for its login.\<close>

definition before_connect :: "(nat \<Rightarrow> string \<Rightarrow> (string, string) result) \<Rightarrow> 'w PoolConfig \<Rightarrow> (string, ConnConfig) result" where
  "before_connect provide pc =
     (case BeforeConnect pc of
        None \<Rightarrow> Inr (pool_conn pc)
      | Some provider \<Rightarrow>
          (case provide provider (conn_User (pool_conn pc)) of
             Inl e \<Rightarrow> Inl e
           | Inr token \<Rightarrow> Inr ((pool_conn pc)\<lparr>conn_Password := token\<rparr>)))"

definition pool_config :: "'w host_env \<Rightarrow> config \<Rightarrow> ConnConfig \<Rightarrow> 'w PoolConfig" where
  "pool_config E c conn =
     (let pc = \<lparr>pool_conn = conn, BeforeConnect = None, pool_hooks = no_hooks\<rparr> in
      case accessTokenProvider c of None \<Rightarrow> pc | Some provider \<Rightarrow> installAccessTokenProvider provider pc)"

definition validated_pool :: "'w host_env \<Rightarrow> config \<Rightarrow> 'w connectionValidation \<Rightarrow> 'w PoolConfig \<Rightarrow> 'w PoolConfig" where
  "validated_pool E c v pc =
     pc\<lparr>pool_hooks := installConnectionValidation (env_restrict E) (env_now E) c v (pool_hooks pc)\<rparr>"

definition capability_validation :: "'w host_env \<Rightarrow> string \<Rightarrow> nat option \<Rightarrow> 'w policy option \<Rightarrow> 'w connectionValidation" where
  "capability_validation E name chosen mandatory =
     \<lparr>validation_capability = name, onConnect = mandatory, validation_policy = map_option (env_policy E) chosen\<rparr>"

definition profileConnectionError :: "ConnectionProfile \<Rightarrow> conn_error \<Rightarrow> conn_error" where
  "profileConnectionError profile err = (if Transport profile \<noteq> [] then ErrConnectionUnavailable else err)"

definition capabilityConfigsWithProfiles :: "parsers \<Rightarrow> string \<Rightarrow> string \<Rightarrow> config \<Rightarrow> (conn_error, ConnConfig \<times> ConnConfig) result" where
  "capabilityConfigsWithProfiles P readOnly readWrite c =
     (if blank readOnly \<or> blank readWrite then Inl ArgumentRequired
      else case ParseConnection P readOnly (readerProfile c) (accessTokenProvider c \<noteq> None) of
        Inl e \<Rightarrow> Inl e
      | Inr r \<Rightarrow>
      (case ParseConnection P readWrite (writerProfile c) (accessTokenProvider c \<noteq> None) of
        Inl e \<Rightarrow> Inl e
      | Inr w \<Rightarrow>
          if blank (conn_User r) \<or> blank (conn_User w) \<or> TrimSpace (conn_User r) = TrimSpace (conn_User w)
          then Inl SameRole
          else if distinctProxySockets c \<and> Transport (readerProfile c) = LocalIdentityProxy
               \<and> Transport (writerProfile c) = LocalIdentityProxy \<and> conn_Host r = conn_Host w
          then Inl ErrConnectionProfile
          else Inr (r, w)))"

text \<open>\<open>configured\<close> followed by \<open>resolveExternalIdentity\<close>.\<close>

definition resolved_config :: "'w host_env \<Rightarrow> option_value option list \<Rightarrow> (conn_error, config) result" where
  "resolved_config E opts =
     (case rbind (configured (accepted_anchor (env_parsers E)) opts) (resolveExternalIdentity (env_issue E)) of
        Inl e \<Rightarrow> Inl (StoreError e)
      | Inr c \<Rightarrow> Inr c)"

definition Open :: "'w host_env \<Rightarrow> bool \<Rightarrow> string \<Rightarrow> string \<Rightarrow> 'c Authenticator option \<Rightarrow> option_value option list
    \<Rightarrow> (conn_error, 'c Factory) result \<times> 'w pool_op list" where
  "Open E ctx readOnly readWrite authenticator opts =
     (if \<not> ctx then (Inl ArgumentRequired, [])
      else case resolved_config E opts of Inl e \<Rightarrow> (Inl e, [])
      | Inr c \<Rightarrow>
      (case capabilityConfigsWithProfiles (env_parsers E) readOnly readWrite c of Inl e \<Rightarrow> (Inl e, [])
      | Inr (r, w) \<Rightarrow>
      (let rc = validated_pool E c (capability_validation E ''read-only'' (readerPolicy c) None) (pool_config E c r);
           wc = validated_pool E c (capability_validation E ''read-write'' (writerPolicy c) None) (pool_config E c w);
           both = [PoolOpened ReaderPool rc, PoolOpened WriterPool wc];
           closed = [PoolClosed ReaderPool, PoolClosed WriterPool] in
      case env_NewWithConfig E ReaderPool rc of
        Some e \<Rightarrow> (Inl (profileConnectionError (readerProfile c) (PoolFailed ReaderPool e)), [])
      | None \<Rightarrow>
      (case env_NewWithConfig E WriterPool wc of
        Some e \<Rightarrow> (Inl (profileConnectionError (writerProfile c) (PoolFailed WriterPool e)),
                   [PoolOpened ReaderPool rc, PoolClosed ReaderPool])
      | None \<Rightarrow>
      (case env_Ping E ReaderPool rc of
        Some e \<Rightarrow> (Inl (profileConnectionError (readerProfile c) (PingFailed ReaderPool e)), both @ closed)
      | None \<Rightarrow>
      (case env_Ping E WriterPool wc of
        Some e \<Rightarrow> (Inl (profileConnectionError (writerProfile c) (PingFailed WriterPool e)),
                   both @ [PoolPinged ReaderPool] @ closed)
      | None \<Rightarrow>
      (case newFactory (accepted_anchor (env_parsers E)) True True authenticator opts of
        Inl e \<Rightarrow> (Inl (profileConnectionError (readerProfile c) (profileConnectionError (writerProfile c) (StoreError e))),
                  both @ [PoolPinged ReaderPool, PoolPinged WriterPool] @ closed)
      | Inr f \<Rightarrow> (Inr f, both @ [PoolPinged ReaderPool, PoolPinged WriterPool]))))))))"

definition OpenPool :: "'w host_env \<Rightarrow> bool \<Rightarrow> string \<Rightarrow> ConnectionProfile \<Rightarrow> option_value option list
    \<Rightarrow> (conn_error, 'w PoolConfig) result \<times> 'w pool_op list" where
  "OpenPool E ctx dsn profile opts =
     (if \<not> ctx \<or> dsn = [] then (Inl ArgumentRequired, [])
      else case resolved_config E opts of Inl e \<Rightarrow> (Inl e, [])
      | Inr c \<Rightarrow>
      (case ParseConnection (env_parsers E) dsn profile (accessTokenProvider c \<noteq> None) of Inl e \<Rightarrow> (Inl e, [])
      | Inr conn \<Rightarrow>
      (let pc = pool_config E c conn in
      case env_NewWithConfig E WriterPool pc of
        Some e \<Rightarrow> (Inl (profileConnectionError profile (PoolFailed WriterPool e)), [])
      | None \<Rightarrow>
      (case env_Ping E WriterPool pc of
        Some e \<Rightarrow> (Inl (profileConnectionError profile (PingFailed WriterPool e)),
                   [PoolOpened WriterPool pc, PoolClosed WriterPool])
      | None \<Rightarrow> (Inr pc, [PoolOpened WriterPool pc, PoolPinged WriterPool])))))"

text \<open>The startup role of a maintenance connection.\<close>

definition set_role :: "string \<Rightarrow> ConnConfig \<Rightarrow> ConnConfig" where
  "set_role role c = c\<lparr>RuntimeParams := (''role'', role) # filter (\<lambda>kv. fst kv \<noteq> ''role'') (RuntimeParams c)\<rparr>"

definition startup_role :: "ConnConfig \<Rightarrow> string" where
  "startup_role c = (case map_of (RuntimeParams c) ''role'' of None \<Rightarrow> [] | Some r \<Rightarrow> r)"

definition OpenMaintenance :: "'w host_env \<Rightarrow> bool \<Rightarrow> string \<Rightarrow> string \<Rightarrow> option_value option list
    \<Rightarrow> (conn_error, config) result \<times> 'w pool_op list" where
  "OpenMaintenance E ctx dsn applicationRole opts =
     (if \<not> ctx \<or> blank dsn \<or> blank applicationRole then (Inl ArgumentRequired, [])
      else case resolved_config E opts of Inl e \<Rightarrow> (Inl e, [])
      | Inr c \<Rightarrow>
      (case ParseConnection (env_parsers E) dsn (maintenanceProfile c) (accessTokenProvider c \<noteq> None) of
        Inl e \<Rightarrow> (Inl (if Transport (maintenanceProfile c) \<noteq> [] then e else InvalidMaintenanceConnection), [])
      | Inr conn \<Rightarrow>
      if startup_role conn \<noteq> [] \<and> startup_role conn \<noteq> applicationRole then (Inl RoleConflict, [])
      else
      (let pc = validated_pool E c
             (capability_validation E ''maintenance'' (maintenancePolicy c) (Some (env_qualify E applicationRole)))
             (pool_config E c (set_role applicationRole conn)) in
      case env_NewWithConfig E MaintenancePool pc of
        Some e \<Rightarrow> (Inl (profileConnectionError (maintenanceProfile c) (PoolFailed MaintenancePool e)), [])
      | None \<Rightarrow>
      (case env_Ping E MaintenancePool pc of
        Some e \<Rightarrow> (Inl (profileConnectionError (maintenanceProfile c) (PingFailed MaintenancePool e)),
                   [PoolOpened MaintenancePool pc, PoolClosed MaintenancePool])
      | None \<Rightarrow>
      (case configured (accepted_anchor (env_parsers E)) opts of
        Inl e \<Rightarrow> (Inl (profileConnectionError (maintenanceProfile c) (StoreError e)),
                  [PoolOpened MaintenancePool pc, PoolPinged MaintenancePool, PoolClosed MaintenancePool])
      | Inr m \<Rightarrow> (Inr m, [PoolOpened MaintenancePool pc, PoolPinged MaintenancePool]))))))"

section \<open>What an accepted connection guarantees\<close>

lemma ParseConnection_explicit:
  assumes "ParseConnection P dsn profile hook = Inr c" "Transport profile \<noteq> []"
  obtains u q host port c0 where
    "validate_profile (accepted_anchor P) profile = None" "\<not> list_ex (prefix ''PG'') (Environ P)"
    "url_Parse P dsn = Some u" "url_shape u" "list_all (query_key_ok profile) q"
    "query_Get q ''role'' = ApplicationRole profile" "hook \<Longrightarrow> user_password u = None"
    "(if Transport profile = LocalIdentityProxy then proxy_endpoint u q (user_password u \<noteq> None \<or> hook)
      else tcp_endpoint (IsLoopback P) profile u q) = Some (host, port)"
    "config_matches profile u (parsed_query q) host port c0" "c = pin_anchor profile c0"
  using assms
  by (auto simp: ParseConnection_def split: if_split_asm option.split_asm sum.split_asm)

lemma pin_anchor_keeps [simp]:
  "conn_Host (pin_anchor p c) = conn_Host c" "conn_Port (pin_anchor p c) = conn_Port c"
  "conn_Database (pin_anchor p c) = conn_Database c" "conn_User (pin_anchor p c) = conn_User c"
  "conn_Password (pin_anchor p c) = conn_Password c" "Fallbacks (pin_anchor p c) = Fallbacks c"
  "RuntimeParams (pin_anchor p c) = RuntimeParams c" "identity_bound p (pin_anchor p c) = identity_bound p c"
  "TLSConfig (pin_anchor p c) = None \<longleftrightarrow> TLSConfig c = None"
  by (simp_all add: pin_anchor_def identity_bound_def)

lemma proxy_endpoint_Some:
  "proxy_endpoint u q credentials = Some (host, port) \<Longrightarrow>
     \<not> credentials \<and> IsAbs host \<and> Clean host = host \<and> host \<noteq> ''/'' \<and> 0 < port \<and> port < 2 ^ 16 \<and>
     length (host @ ''/.s.PGSQL.'' @ Itoa port) \<le> 103"
  by (auto simp: proxy_endpoint_def Let_def split: if_split_asm option.split_asm dest: ParseUint_bound)

lemma tcp_endpoint_Some:
  "tcp_endpoint loopback profile u q = Some (host, port) \<Longrightarrow>
     host \<noteq> [] \<and> 0 < port \<and> port < 2 ^ 16 \<and>
     (Transport profile = LocalLoopback \<longrightarrow> host = ''localhost'' \<or> loopback host)"
  by (auto simp: tcp_endpoint_def Let_def split: if_split_asm option.split_asm dest: ParseUint_bound)

lemmas transport_defs = VerifiedTLS_def LocalIdentityProxy_def MeshProtected_def PinnedAuthorityTLS_def LocalLoopback_def

text \<open>What the transports promise of the driver's configuration.\<close>

definition transport_kept :: "parsers \<Rightarrow> ConnectionProfile \<Rightarrow> ConnConfig \<Rightarrow> bool" where
  "transport_kept P profile c \<longleftrightarrow>
     (if Transport profile = VerifiedTLS then
        (\<exists>t. TLSConfig c = Some t \<and> \<not> InsecureSkipVerify t \<and> ServerName t = conn_Host c \<and> \<not> VerifyConnection t \<and>
           (ServerTrustAnchorPEM profile \<noteq> [] \<longrightarrow> RootCAs t = Some (ServerTrustAnchorPEM profile)))
      else if Transport profile = PinnedAuthorityTLS then
        (\<exists>t. TLSConfig c = Some t \<and> VerifyPeerCertificate t \<and> RootCAs t = Some (ServerTrustAnchorPEM profile) \<and>
           ServerTrustAnchorPEM profile \<noteq> [] \<and> accepted_anchor P (ServerTrustAnchorPEM profile))
      else if Transport profile = LocalIdentityProxy then
        TLSConfig c = None \<and> conn_Password c = [] \<and> IsAbs (conn_Host c) \<and> Clean (conn_Host c) = conn_Host c
      else if Transport profile = LocalLoopback then
        TLSConfig c = None \<and> (conn_Host c = ''localhost'' \<or> IsLoopback P (conn_Host c))
      else Transport profile = MeshProtected \<and> TLSConfig c = None)"

lemma transport_known:
  assumes "validate_profile trust p = None" "Transport p \<noteq> []"
  obtains "Transport p = VerifiedTLS" | "Transport p = PinnedAuthorityTLS" "ServerTrustAnchorPEM p \<noteq> []" "trust (ServerTrustAnchorPEM p)"
  | "Transport p = LocalIdentityProxy" | "Transport p = MeshProtected" | "Transport p = LocalLoopback"
  using assms by (auto simp: validate_profile_def split: if_split_asm)

lemma transport_kept_intro:
  assumes valid: "validate_profile (accepted_anchor P) profile = None" "Transport profile \<noteq> []"
    and ends: "(if Transport profile = LocalIdentityProxy then proxy_endpoint u q (user_password u \<noteq> None \<or> hook)
      else tcp_endpoint (IsLoopback P) profile u q) = Some (host, port)"
    and m: "config_matches profile u q' host port c"
  shows "transport_kept P profile (pin_anchor profile c)"
proof -
  have host: "conn_Host c = host" and shape: "tls_shape profile host c" using m by (auto simp: config_matches_def)
  show ?thesis
    using valid
  proof (cases rule: transport_known)
    case 1
    then show ?thesis using shape host
      by (auto simp: transport_kept_def tls_shape_def plaintext_def transport_defs pin_anchor_def split: option.splits)
  next
    case 2
    then show ?thesis using shape
      by (auto simp: transport_kept_def tls_shape_def plaintext_def transport_defs pin_anchor_def split: option.splits)
  next
    case 3
    then show ?thesis using shape host ends proxy_endpoint_Some [of u q _ host port]
      by (auto simp: transport_kept_def tls_shape_def transport_defs)
  next
    case 4
    then show ?thesis using shape by (auto simp: transport_kept_def tls_shape_def plaintext_def transport_defs)
  next
    case 5
    then show ?thesis using shape host ends tcp_endpoint_Some [of "IsLoopback P" profile u q host port]
      by (auto simp: transport_kept_def tls_shape_def plaintext_def transport_defs)
  qed
qed

text \<open>C12: a connection accepted under an explicit profile keeps what the profile's transport promises
  (verification against the host name or the pinned authority, or no TLS at all only for a proxy
  socket, the mesh or loopback), dials only the host, port, database and user the profile binds, has
  no fallback address, carries no password when a credential provider replaces it, and starts the
  session with no parameter beyond the declared role and, under verified TLS, the application
  name; and no \<open>PG*\<close> variable was in the environment.\<close>

theorem parse_connection_sound:
  assumes parsed: "ParseConnection P dsn profile tokenHook = Inr c" and explicit: "Transport profile \<noteq> []"
  shows "transport_kept P profile c \<and> identity_bound profile c \<and> Fallbacks c = 0 \<and>
    0 < conn_Port c \<and> conn_Port c < 2 ^ 16 \<and> conn_User c \<noteq> [] \<and> conn_Database c \<noteq> [] \<and>
    (tokenHook \<longrightarrow> conn_Password c = []) \<and>
    (\<forall>(key, value) \<in> set (RuntimeParams c).
       key = ''role'' \<and> value = ApplicationRole profile \<and> value \<noteq> [] \<or>
       key = ''application_name'' \<and> Transport profile = VerifiedTLS) \<and>
    \<not> list_ex (prefix ''PG'') (Environ P)"
proof -
  obtain u q host port c0 where v: "validate_profile (accepted_anchor P) profile = None"
    and env: "\<not> list_ex (prefix ''PG'') (Environ P)" and shape: "url_shape u"
    and tok: "tokenHook \<Longrightarrow> user_password u = None"
    and ends: "(if Transport profile = LocalIdentityProxy then proxy_endpoint u q (user_password u \<noteq> None \<or> tokenHook)
      else tcp_endpoint (IsLoopback P) profile u q) = Some (host, port)"
    and m: "config_matches profile u (parsed_query q) host port c0" and c: "c = pin_anchor profile c0"
    using ParseConnection_explicit [OF parsed explicit] by metis
  have port: "0 < port \<and> port < 2 ^ 16"
    using ends proxy_endpoint_Some tcp_endpoint_Some by (metis (no_types, lifting))
  have ids: "user_name u \<noteq> []" "TrimPrefix (url_Path u) ''/'' \<noteq> []"
    using shape by (auto simp: url_shape_def user_name_def TrimPrefix_def prefix_def split: option.splits)
  have params: "\<forall>(key, value) \<in> set (RuntimeParams c).
       key = ''role'' \<and> value = ApplicationRole profile \<and> value \<noteq> [] \<or>
       key = ''application_name'' \<and> Transport profile = VerifiedTLS"
    using m by (auto simp: c config_matches_def list_all_iff runtime_param_ok_def)
  have "transport_kept P profile c"
    unfolding c by (rule transport_kept_intro [OF v explicit ends m])
  moreover have "tokenHook \<longrightarrow> conn_Password c = []"
    using tok m by (auto simp: c config_matches_def password_text_def)
  ultimately show ?thesis
    using m port ids env params unfolding c by (auto simp: config_matches_def)
qed

lemma parsed_query_keeps:
  "kv \<in> set q \<Longrightarrow> fst kv \<notin> {''passfile'', ''sslrootcert'', ''sslcert'', ''sslkey''} \<Longrightarrow> kv \<in> set (parsed_query q)"
  by (auto simp: parsed_query_def query_Set_def default_missing_def)

text \<open>The query loop admits an application name for a pinned authority as it does for verified
  TLS, but the later check of the session parameters knows it for verified TLS only. With a driver
  that sends the name as a session parameter, a URL that carries one is always refused under a
  pinned authority.\<close>

theorem pinned_application_name_refused:
  assumes pinned: "Transport profile = PinnedAuthorityTLS"
    and url: "url_Parse P dsn = Some u" "ParseQuery P (RawQuery u) = Some q"
      "(''application_name'', [name]) \<in> set q" "\<not> ContainsAny name line_breaks"
    and driver: "\<And>c. ParseConfig_url P u (parsed_query q) = Inr c \<Longrightarrow>
      \<forall>v. (''application_name'', [v]) \<in> set (parsed_query q) \<longrightarrow> (''application_name'', v) \<in> set (RuntimeParams c)"
  shows "query_key_ok profile (''application_name'', [name]) \<and>
    ParseConnection P dsn profile tokenHook = Inl ErrConnectionProfile"
proof
  show "query_key_ok profile (''application_name'', [name])"
    using pinned url(4) by (simp add: query_key_ok_def tls_query_keys_def)
  have "(''application_name'', [name]) \<in> set (parsed_query q)" using url(3) by (auto intro: parsed_query_keeps)
  with driver have "ParseConfig_url P u (parsed_query q) = Inr c \<Longrightarrow> (''application_name'', name) \<in> set (RuntimeParams c)" for c
    by blast
  then have "ParseConfig_url P u (parsed_query q) = Inr c \<Longrightarrow>
      \<not> config_matches profile u (parsed_query q) host port c" for host port c
    using pinned by (fastforce simp: config_matches_def list_all_iff runtime_param_ok_def transport_defs)
  then show "ParseConnection P dsn profile tokenHook = Inl ErrConnectionProfile"
    using pinned url(1,2)
    by (auto simp: ParseConnection_def transport_defs split: option.splits sum.splits)
qed

section \<open>Pools are never leaked\<close>

text \<open>
  The contract of a function that opens pools: when it fails it has closed every pool it opened, and
  when it succeeds it has closed none and has reached the server through each.
\<close>

definition opened :: "pool_kind \<Rightarrow> 'w pool_op list \<Rightarrow> nat" where
  "opened k ops = length (filter (\<lambda>x. case x of PoolOpened k' _ \<Rightarrow> k' = k | _ \<Rightarrow> False) ops)"

definition closed_count :: "pool_kind \<Rightarrow> 'w pool_op list \<Rightarrow> nat" where
  "closed_count k ops = length (filter (\<lambda>x. case x of PoolClosed k' \<Rightarrow> k' = k | _ \<Rightarrow> False) ops)"

lemma pool_counts [simp]:
  "opened k [] = 0" "closed_count k [] = 0"
  "opened k (PoolOpened k' pc # ops) = (if k' = k then 1 else 0) + opened k ops"
  "opened k (PoolPinged k' # ops) = opened k ops" "opened k (PoolClosed k' # ops) = opened k ops"
  "closed_count k (PoolClosed k' # ops) = (if k' = k then 1 else 0) + closed_count k ops"
  "closed_count k (PoolPinged k' # ops) = closed_count k ops"
  "closed_count k (PoolOpened k' pc # ops) = closed_count k ops"
  by (simp_all add: opened_def closed_count_def)

locale pool_opener =
  fixes run :: "'x \<Rightarrow> (conn_error, 'r) result \<times> 'w pool_op list"
  assumes failure_releases: "run x = (Inl e, ops) \<Longrightarrow> opened k ops = closed_count k ops"
    and success_keeps: "run x = (Inr r, ops) \<Longrightarrow> closed_count k ops = 0"
    and success_reaches: "run x = (Inr r, ops) \<Longrightarrow> PoolOpened k pc \<in> set ops \<Longrightarrow> PoolPinged k \<in> set ops"
begin

lemma live_pools: "run x = (res, ops) \<Longrightarrow> opened k ops - closed_count k ops = (if is_ok res then opened k ops else 0)"
  using failure_releases [of x _ ops k] success_keeps [of x _ ops k] by (cases res) auto

lemma no_live_pool_unreached:
  "run x = (res, ops) \<Longrightarrow> PoolOpened k pc \<in> set ops \<Longrightarrow> PoolPinged k \<in> set ops \<or> opened k ops = closed_count k ops"
  using failure_releases [of x _ ops k] success_reaches [of x _ ops k pc] by (cases res) auto

end

interpretation open_both: pool_opener "\<lambda>(ctx, ro, rw, auth, opts). Open E ctx ro rw auth opts" for E
  by unfold_locales
    (auto simp: Open_def Let_def split: if_split_asm sum.split_asm option.split_asm prod.split_asm)

interpretation open_one: pool_opener "\<lambda>(ctx, dsn, profile, opts). OpenPool E ctx dsn profile opts" for E
  by unfold_locales
    (auto simp: OpenPool_def Let_def split: if_split_asm sum.split_asm option.split_asm)

interpretation open_maintenance: pool_opener "\<lambda>(ctx, dsn, role, opts). OpenMaintenance E ctx dsn role opts" for E
  by unfold_locales
    (auto simp: OpenMaintenance_def Let_def split: if_split_asm sum.split_asm option.split_asm)

text \<open>C13: none of the three functions that open pools leaks one: what is open when they return is
  nothing after a failure, whatever failed, and every opened pool after a success; and a pool that
  stays open has answered a ping.\<close>

theorem pools_released:
  "(Open E ctx ro rw auth opts = (res1, ops1) \<longrightarrow>
      opened k ops1 - closed_count k ops1 = (if is_ok res1 then opened k ops1 else 0) \<and>
      (PoolOpened k pc \<in> set ops1 \<longrightarrow> PoolPinged k \<in> set ops1 \<or> opened k ops1 = closed_count k ops1)) \<and>
   (OpenPool E ctx ro profile opts = (res2, ops2) \<longrightarrow>
      opened k ops2 - closed_count k ops2 = (if is_ok res2 then opened k ops2 else 0) \<and>
      (PoolOpened k pc \<in> set ops2 \<longrightarrow> PoolPinged k \<in> set ops2 \<or> opened k ops2 = closed_count k ops2)) \<and>
   (OpenMaintenance E ctx ro role opts = (res3, ops3) \<longrightarrow>
      opened k ops3 - closed_count k ops3 = (if is_ok res3 then opened k ops3 else 0) \<and>
      (PoolOpened k pc \<in> set ops3 \<longrightarrow> PoolPinged k \<in> set ops3 \<or> opened k ops3 = closed_count k ops3))"
  using open_both.live_pools [of E "(ctx, ro, rw, auth, opts)" res1 ops1 k]
    open_both.no_live_pool_unreached [of E "(ctx, ro, rw, auth, opts)" res1 ops1 k pc]
    open_one.live_pools [of E "(ctx, ro, profile, opts)" res2 ops2 k]
    open_one.no_live_pool_unreached [of E "(ctx, ro, profile, opts)" res2 ops2 k pc]
    open_maintenance.live_pools [of E "(ctx, ro, role, opts)" res3 ops3 k]
    open_maintenance.no_live_pool_unreached [of E "(ctx, ro, role, opts)" res3 ops3 k pc]
  by auto

section \<open>Separate capabilities\<close>

lemma parse_transport_kept:
  "ParseConnection P dsn profile hook = Inr c \<Longrightarrow> Transport profile \<noteq> [] \<Longrightarrow> transport_kept P profile c"
  by (elim ParseConnection_explicit) (auto intro: transport_kept_intro)

lemma capability_configs_Inr:
  assumes "capabilityConfigsWithProfiles P ro rw c = Inr (r, w)"
  shows "ParseConnection P ro (readerProfile c) (accessTokenProvider c \<noteq> None) = Inr r"
    "ParseConnection P rw (writerProfile c) (accessTokenProvider c \<noteq> None) = Inr w"
    "\<not> blank (conn_User r)" "\<not> blank (conn_User w)" "TrimSpace (conn_User r) \<noteq> TrimSpace (conn_User w)"
    "distinctProxySockets c \<Longrightarrow> Transport (readerProfile c) = LocalIdentityProxy \<Longrightarrow>
       Transport (writerProfile c) = LocalIdentityProxy \<Longrightarrow> conn_Host r \<noteq> conn_Host w"
  using assms by (auto simp: capabilityConfigsWithProfiles_def split: if_split_asm sum.split_asm)

lemma pool_config_fields [simp]:
  "pool_conn (validated_pool E c v (pool_config E c conn)) = conn"
  "BeforeConnect (validated_pool E c v (pool_config E c conn)) = accessTokenProvider c"
  by (auto simp: validated_pool_def pool_config_def installAccessTokenProvider_def Let_def split: option.splits)

lemma Open_Inr:
  assumes "Open E ctx ro rw auth opts = (Inr f, ops)"
  obtains c r w where "resolved_config E opts = Inr c"
    "capabilityConfigsWithProfiles (env_parsers E) ro rw c = Inr (r, w)"
    "newFactory (accepted_anchor (env_parsers E)) True True auth opts = Inr f"
    "ops = [PoolOpened ReaderPool (validated_pool E c (capability_validation E ''read-only'' (readerPolicy c) None) (pool_config E c r)),
       PoolOpened WriterPool (validated_pool E c (capability_validation E ''read-write'' (writerPolicy c) None) (pool_config E c w)),
       PoolPinged ReaderPool, PoolPinged WriterPool]"
  using assms by (auto simp: Open_def Let_def split: if_split_asm sum.split_asm option.split_asm prod.split_asm)

lemma newFactory_Inr:
  "newFactory trust r w auth opts = Inr f \<Longrightarrow> configured trust opts = Inr (factory_config f) \<and> auth = Some (factory_authenticator f)"
  by (auto simp: newFactory_def split: if_split_asm sum.split_asm option.split_asm)

text \<open>A factory that was opened reaches the server through exactly two pools, a reader and a
  writer, whose logins are distinct after trimming and not blank, each keeping its own profile's
  transport and both taking their password from the configured credential provider if there is one;
  its settings are those the options configure.\<close>

theorem opened_capabilities_separate:
  assumes "Open E ctx ro rw auth opts = (Inr f, ops)"
  shows "\<exists>c rc wc. resolved_config E opts = Inr c \<and>
    ops = [PoolOpened ReaderPool rc, PoolOpened WriterPool wc, PoolPinged ReaderPool, PoolPinged WriterPool] \<and>
    TrimSpace (conn_User (pool_conn rc)) \<noteq> TrimSpace (conn_User (pool_conn wc)) \<and>
    \<not> blank (conn_User (pool_conn rc)) \<and> \<not> blank (conn_User (pool_conn wc)) \<and>
    BeforeConnect rc = accessTokenProvider c \<and> BeforeConnect wc = accessTokenProvider c \<and>
    (Transport (readerProfile c) \<noteq> [] \<longrightarrow> transport_kept (env_parsers E) (readerProfile c) (pool_conn rc)) \<and>
    (Transport (writerProfile c) \<noteq> [] \<longrightarrow> transport_kept (env_parsers E) (writerProfile c) (pool_conn wc)) \<and>
    configured (accepted_anchor (env_parsers E)) opts = Inr (factory_config f)"
  using assms
proof (rule Open_Inr)
  fix c r w
  assume c: "resolved_config E opts = Inr c"
    and cc: "capabilityConfigsWithProfiles (env_parsers E) ro rw c = Inr (r, w)"
    and f: "newFactory (accepted_anchor (env_parsers E)) True True auth opts = Inr f"
    and ops: "ops = [PoolOpened ReaderPool (validated_pool E c (capability_validation E ''read-only'' (readerPolicy c) None) (pool_config E c r)),
       PoolOpened WriterPool (validated_pool E c (capability_validation E ''read-write'' (writerPolicy c) None) (pool_config E c w)),
       PoolPinged ReaderPool, PoolPinged WriterPool]"
  note parsed = capability_configs_Inr [OF cc]
  show ?thesis
    using parsed(3-5) newFactory_Inr [OF f] parse_transport_kept [OF parsed(1)] parse_transport_kept [OF parsed(2)]
    by (intro exI conjI) (rule c, rule ops, simp_all)
qed

section \<open>Sample connections\<close>

definition sample_url :: "string \<Rightarrow> url" where
  "sample_url user = \<lparr>Scheme = ''postgres'', Opaque = [], Fragment = [], url_User = Some (user, None), url_Host = ''db'',
     Hostname = ''db'', url_Port = [], url_Path = ''/store'', RawQuery = []\<rparr>"

definition sample_tls :: "bool \<Rightarrow> tls_config" where
  "sample_tls full = \<lparr>InsecureSkipVerify = \<not> full, ServerName = (if full then ''db'' else []),
     VerifyPeerCertificate = \<not> full, VerifyConnection = False, RootCAs = None\<rparr>"

definition sample_conn :: "string \<Rightarrow> query \<Rightarrow> ConnConfig" where
  "sample_conn user q = \<lparr>conn_Host = ''db'', conn_Port = 5432, conn_Database = ''store'', conn_User = user,
     conn_Password = [], Fallbacks = 0,
     RuntimeParams = map (\<lambda>kv. (fst kv, hd (snd kv))) (filter (\<lambda>kv. fst kv = ''application_name'') q),
     TLSConfig = Some (sample_tls (query_Get q ''sslmode'' = ''verify-full''))\<rparr>"

definition sample_query :: "string \<Rightarrow> query" where
  "sample_query mode = [(''sslmode'', [mode]), (''application_name'', [''api''])]"

definition sample_parsers :: "string \<Rightarrow> parsers" where
  "sample_parsers mode = \<lparr>url_Parse = (\<lambda>dsn. Some (sample_url dsn)), ParseQuery = (\<lambda>raw. Some (sample_query mode)),
     ParseConfig = (\<lambda>dsn. Inr (sample_conn dsn [])),
     ParseConfig_url = (\<lambda>u q. Inr (sample_conn (user_name u) q)), IsLoopback = (\<lambda>h. False),
     Environ = [], accepted_anchor = (\<lambda>pem. pem = ''authority'')\<rparr>"

definition sample_profile :: "string \<Rightarrow> ConnectionProfile" where
  "sample_profile transport = zero_profile\<lparr>Transport := transport, ServerTrustAnchorPEM := ''authority''\<rparr>"

lemma sample_shape: "url_shape (sample_url ''reader'')"
  by (simp add: url_shape_def sample_url_def line_breaks_def ContainsAny_def TrimPrefix_def NUL_def)

lemmas sample_conn_simps = sample_parsers_def sample_profile_def sample_query_def sample_url_def sample_conn_def
  sample_tls_def zero_profile_def transport_defs

lemma ParseConnection_intro:
  assumes "validate_profile (accepted_anchor P) profile = None" "Transport profile \<noteq> []"
    "\<not> list_ex (prefix ''PG'') (Environ P)" "url_Parse P dsn = Some u" "url_shape u"
    "ParseQuery P (RawQuery u) = Some q" "list_all (query_key_ok profile) q"
    "query_Get q ''role'' = ApplicationRole profile" "user_password u = None"
    "Transport profile \<noteq> LocalIdentityProxy" "tcp_endpoint (IsLoopback P) profile u q = Some (host, port)"
    "ParseConfig_url P u (parsed_query q) = Inr c" "config_matches profile u (parsed_query q) host port c"
  shows "ParseConnection P dsn profile hook = Inr (pin_anchor profile c)"
  using assms by (simp add: ParseConnection_def password_text_def ContainsAny_def)

lemma sample_parse:
  "ParseConnection (sample_parsers ''verify-full'') ''reader'' (sample_profile VerifiedTLS) True =
     Inr (pin_anchor (sample_profile VerifiedTLS) (sample_conn ''reader'' (parsed_query (sample_query ''verify-full''))))"
proof -
  let ?u = "sample_url ''reader''" and ?q = "sample_query ''verify-full''" and ?p = "sample_profile VerifiedTLS"
  show ?thesis
  proof (rule ParseConnection_intro [where u = ?u and q = ?q and host = "''db''" and port = 5432])
    show "validate_profile (accepted_anchor (sample_parsers ''verify-full'')) ?p = None"
      by (simp add: validate_profile_def sample_conn_simps)
    show "list_all (query_key_ok ?p) ?q"
      by (simp add: query_key_ok_def tls_query_keys_def sample_conn_simps ContainsAny_def line_breaks_def NUL_def)
    show "query_Get ?q ''role'' = ApplicationRole ?p"
      by (simp add: query_Get_def sample_conn_simps)
    show "tcp_endpoint (IsLoopback (sample_parsers ''verify-full'')) ?p ?u ?q = Some (''db'', 5432)"
      by (simp add: tcp_endpoint_def query_Get_def required_sslmode_def plaintext_def sample_conn_simps
          ContainsAny_def line_breaks_def NUL_def)
    show "config_matches ?p ?u (parsed_query ?q) ''db'' 5432 (sample_conn ''reader'' (parsed_query ?q))"
      by (simp add: config_matches_def identity_bound_def tls_shape_def plaintext_def runtime_param_ok_def
          parsed_query_def query_Set_def default_missing_def query_Get_def user_name_def password_text_def
          user_password_def TrimPrefix_def sample_conn_simps)
  qed (use sample_shape in \<open>simp_all add: sample_conn_simps user_name_def user_password_def\<close>)
qed

theorem parse_connection_sound_witness:
  "transport_kept (sample_parsers ''verify-full'') (sample_profile VerifiedTLS)
     (pin_anchor (sample_profile VerifiedTLS) (sample_conn ''reader'' (parsed_query (sample_query ''verify-full''))))"
  using parse_connection_sound [OF sample_parse] by (simp add: sample_conn_simps)

lemma sample_conn_sends:
  "(''application_name'', [v]) \<in> set q \<Longrightarrow> (''application_name'', v) \<in> set (RuntimeParams (sample_conn user q))"
  by (auto simp: sample_conn_def intro!: rev_image_eqI [of "(''application_name'', [v])"])

theorem pinned_application_name_refused_witness:
  "ParseConnection (sample_parsers ''verify-ca'') ''reader'' (sample_profile PinnedAuthorityTLS) False = Inl ErrConnectionProfile"
proof -
  have "ParseConfig_url (sample_parsers ''verify-ca'') (sample_url ''reader'') (parsed_query (sample_query ''verify-ca'')) = Inr c \<Longrightarrow>
      \<forall>v. (''application_name'', [v]) \<in> set (parsed_query (sample_query ''verify-ca'')) \<longrightarrow>
        (''application_name'', v) \<in> set (RuntimeParams c)" for c
    by (auto simp: sample_parsers_def intro: sample_conn_sends)
  then show ?thesis
    using pinned_application_name_refused [of "sample_profile PinnedAuthorityTLS" "sample_parsers ''verify-ca''" "''reader''"
        "sample_url ''reader''" "sample_query ''verify-ca''" "''api''" False]
    by (simp add: sample_parsers_def sample_profile_def sample_query_def ContainsAny_def line_breaks_def NUL_def)
qed

definition sample_env :: "sample_world host_env" where
  "sample_env = \<lparr>env_parsers = sample_parsers ''verify-full'', env_issue = (\<lambda>issuer. Inr 7), env_policy = (\<lambda>n. sample_policy),
     env_restrict = sample_restrict, env_qualify = (\<lambda>role ctx w. (qualify (snd w) role, w)), env_now = fst,
     env_NewWithConfig = (\<lambda>k pc. None), env_Ping = (\<lambda>k pc. if k = MaintenancePool then Some ''refused'' else None)\<rparr>"

lemma sample_options_resolved: "resolved_config sample_env sample_options = Inr sample_config"
  by (simp add: resolved_config_def sample_configured resolveExternalIdentity_def)
    (simp add: sample_config_def default_config_def)

lemma sample_profiles:
  "readerProfile sample_config = zero_profile" "writerProfile sample_config = zero_profile"
  "maintenanceProfile sample_config = zero_profile" "accessTokenProvider sample_config = None"
  by (simp_all add: sample_config_def default_config_def)

lemma zero_profile_valid: "validate_profile trust zero_profile = None" "Transport zero_profile = []"
  by (simp_all add: validate_profile_def zero_profile_def PinnedAuthorityTLS_def)

lemma sample_names_differ: "\<not> blank ''reader''" "\<not> blank ''writer''" "TrimSpace ''reader'' \<noteq> TrimSpace ''writer''"
  by code_simp+

lemma sample_legacy: "ParseConnection (sample_parsers m) dsn zero_profile hook = Inr (sample_conn dsn [])"
  by (simp add: ParseConnection_def zero_profile_valid) (simp add: sample_parsers_def)

lemma sample_configs:
  "capabilityConfigsWithProfiles (sample_parsers m) ''reader'' ''writer'' sample_config =
     Inr (sample_conn ''reader'' [], sample_conn ''writer'' [])"
  by (simp add: capabilityConfigsWithProfiles_def sample_names_differ sample_profiles sample_legacy)
    (simp add: sample_conn_def sample_names_differ zero_profile_valid LocalIdentityProxy_def)

lemma sample_open_ok:
  "\<exists>f ops. Open sample_env True ''reader'' ''writer'' (Some sample_requests) sample_options = (Inr f, ops)"
  by (simp add: Open_def sample_options_resolved Let_def)
    (simp add: sample_env_def sample_configs newFactory_def sample_configured)

theorem opened_capabilities_separate_witness:
  "\<exists>f ops rc wc. Open sample_env True ''reader'' ''writer'' (Some sample_requests) sample_options = (Inr f, ops) \<and>
     ops = [PoolOpened ReaderPool rc, PoolOpened WriterPool wc, PoolPinged ReaderPool, PoolPinged WriterPool] \<and>
     TrimSpace (conn_User (pool_conn rc)) \<noteq> TrimSpace (conn_User (pool_conn wc))"
  using sample_open_ok opened_capabilities_separate [of sample_env True "''reader''" "''writer''" "Some sample_requests" sample_options]
  by metis

lemma sample_maintenance:
  "\<exists>pc. OpenMaintenance sample_env True ''reader'' ''writer'' sample_options =
     (Inl (PingFailed MaintenancePool ''refused''), [PoolOpened MaintenancePool pc, PoolClosed MaintenancePool])"
  by (simp add: OpenMaintenance_def sample_options_resolved sample_names_differ Let_def sample_profiles)
    (simp add: sample_env_def sample_legacy startup_role_def sample_conn_def profileConnectionError_def zero_profile_valid
      sample_profiles)

theorem pools_released_witness:
  "\<exists>ops. OpenMaintenance sample_env True ''reader'' ''writer'' sample_options =
     (Inl (PingFailed MaintenancePool ''refused''), ops) \<and>
     opened MaintenancePool ops = 1 \<and> opened MaintenancePool ops - closed_count MaintenancePool ops = 0"
proof -
  obtain pc where run: "OpenMaintenance sample_env True ''reader'' ''writer'' sample_options =
     (Inl (PingFailed MaintenancePool ''refused''), [PoolOpened MaintenancePool pc, PoolClosed MaintenancePool])"
    using sample_maintenance by blast
  from pools_released [of sample_env True "''reader''" _ None sample_options _ _ MaintenancePool pc zero_profile _ _ "''writer''"] run
  show ?thesis by auto
qed

end
