(* ===== verification/HotReload.thy ===== *)
theory HotReload
  imports Schema
begin

text \<open>
  \<open>hotreload.go\<close>: what a saved migration file may do to a running database. The file's name
  decides whether it is a migration at all, its directory decides which lineage owns it, and the
  lineage's ledger decides whether it may be applied. golang-migrate is a parameter: what its
  \<open>Version\<close> and \<open>Up\<close> return on the opened handle; the trace records which of them were called.
\<close>

record migrationFile =
  mf_version :: nat
  mf_forward :: bool

definition parseMigrationFile :: "string \<Rightarrow> migrationFile option" where
  "parseMigrationFile name =
     (case FindStringSubmatch name of
        None \<Rightarrow> None
      | Some (digits, d) \<Rightarrow>
          (case ParseUint 64 digits of
             None \<Rightarrow> None
           | Some v \<Rightarrow> Some \<lparr>mf_version = v, mf_forward = (d = ''up'')\<rparr>))"

definition resolveMigrationPath :: "string \<Rightarrow> string \<Rightarrow> string" where
  "resolveMigrationPath location changed =
     (if IsAbs changed then Clean changed else Clean (path_Join [location, changed]))"

datatype reload_error =
    Unresolved schema_error
  | AmbiguousOwnership string string string
  | Handle "migration_error list"
  | CannotReadVersion string string
  | DirtyLedger string int string
  | AppliedMigrationEdited string nat nat
  | CannotApplyReload string string
  | CannotConfirm string string

fun find_owner :: "string \<Rightarrow> string \<Rightarrow> migrationSource option \<Rightarrow> migrationSource list
    \<Rightarrow> (reload_error, migrationSource option) result" where
  "find_owner changed parent owner [] = Inr owner"
| "find_owner changed parent owner (m # ms) =
     (if Clean (src_dir m) \<noteq> parent then find_owner changed parent owner ms
      else case owner of
             Some first \<Rightarrow> Inl (AmbiguousOwnership changed (label first) (label m))
           | None \<Rightarrow> find_owner changed parent (Some m) ms)"

definition owningMigrationSource :: "migrationSource list \<Rightarrow> string
    \<Rightarrow> (reload_error, migrationSource option) result" where
  "owningMigrationSource srcs changed = find_owner changed (Dir changed) None srcs"

definition dirtyLedgerError :: "migrationSource \<Rightarrow> int \<Rightarrow> reload_error" where
  "dirtyLedgerError src version = DirtyLedger (label src) version (trackingTable src)"

datatype version_result = NilVersion | VersionFailed string | AtVersion nat bool

datatype migrate_call = CallVersion | CallUp

record reload_env =
  opened :: "migration_error list option"
  version_before :: version_result
  up_outcome :: up_result
  version_after :: version_result
  closed :: "migration_error list"

text \<open>
  \<open>forward_run\<close> is the part of \<open>applyMigrationChange\<close> that holds an open handle. A confirming
  \<open>Version\<close> call returns an error for an empty ledger as well. \<open>uint(current)\<close> and the file's
  version are both 64-bit unsigned.
\<close>

definition run_forward :: "reload_env \<Rightarrow> migrationSource \<Rightarrow> nat option
    \<Rightarrow> (bool \<times> reload_error option) \<times> migrate_call list" where
  "run_forward E owner current =
     (case up_outcome E of
        UpDirty v \<Rightarrow> ((False, Some (dirtyLedgerError owner v)), [CallUp])
      | UpFailed e \<Rightarrow> ((False, Some (CannotApplyReload (label owner) e)), [CallUp])
      | _ \<Rightarrow>
          (case version_after E of
             NilVersion \<Rightarrow> ((False, Some (CannotConfirm (label owner) ''no migration'')), [CallUp, CallVersion])
           | VersionFailed e \<Rightarrow> ((False, Some (CannotConfirm (label owner) e)), [CallUp, CallVersion])
           | AtVersion updated d \<Rightarrow> ((current \<noteq> Some updated, None), [CallUp, CallVersion])))"

definition with_handle :: "reload_env \<Rightarrow> migrationSource \<Rightarrow> nat
    \<Rightarrow> (bool \<times> reload_error option) \<times> migrate_call list" where
  "with_handle E owner version =
     (case version_before E of
        NilVersion \<Rightarrow> (case run_forward E owner None of (r, calls) \<Rightarrow> (r, CallVersion # calls))
      | VersionFailed e \<Rightarrow> ((False, Some (CannotReadVersion (label owner) e)), [CallVersion])
      | AtVersion current dirty \<Rightarrow>
          if dirty then ((False, Some (dirtyLedgerError owner (int current))), [CallVersion])
          else if current \<ge> version
            then ((False, Some (AppliedMigrationEdited (label owner) current version)), [CallVersion])
          else (case run_forward E owner (Some current) of (r, calls) \<Rightarrow> (r, CallVersion # calls)))"

definition applyMigrationChange :: "filesystem \<Rightarrow> (string \<Rightarrow> string) \<Rightarrow> Service \<Rightarrow> (migrationSource \<Rightarrow> reload_env)
    \<Rightarrow> string \<Rightarrow> (bool \<times> reload_error list) \<times> migrate_call list" where
  "applyMigrationChange F Local s env changed =
     (let file = resolveMigrationPath (Location s) changed in
      case parseMigrationFile (Base file) of
        None \<Rightarrow> ((False, []), [])
      | Some migration \<Rightarrow>
      if \<not> mf_forward migration then ((False, []), [])
      else case resolveMigrationSources F Local s of
        Inl e \<Rightarrow> ((False, [Unresolved e]), [])
      | Inr (srcs, _) \<Rightarrow>
      (case owningMigrationSource srcs file of
        Inl e \<Rightarrow> ((False, [e]), [])
      | Inr None \<Rightarrow> ((False, []), [])
      | Inr (Some owner) \<Rightarrow>
      (case opened (env owner) of
        Some errs \<Rightarrow> ((False, [Handle errs]), [])
      | None \<Rightarrow>
      (case with_handle (env owner) owner (mf_version migration) of
        ((applied, err), calls) \<Rightarrow>
          ((applied, (case err of None \<Rightarrow> [] | Some e \<Rightarrow> [e])
              @ (if closed (env owner) = [] then [] else [Handle (closed (env owner))])), calls)))))"

section \<open>Lemmas\<close>

lemma find_owner_Inr:
  "find_owner changed parent owner ms = Inr (Some m) \<Longrightarrow>
     (owner = Some m \<and> (\<forall>x \<in> set ms. Clean (src_dir x) \<noteq> parent))
     \<or> owner = None \<and> (\<exists>xs ys. ms = xs @ m # ys \<and> Clean (src_dir m) = parent
          \<and> (\<forall>x \<in> set xs \<union> set ys. Clean (src_dir x) \<noteq> parent))"
proof (induction ms arbitrary: owner)
  case Nil
  then show ?case by simp
next
  case (Cons x ms)
  show ?case
  proof (cases "Clean (src_dir x) = parent")
    case False
    then have r: "find_owner changed parent owner ms = Inr (Some m)" using Cons.prems by simp
    from Cons.IH [OF r] False show ?thesis
      by (elim disjE conjE exE) (simp, intro disjI2 conjI, assumption, metis Un_iff append_Cons set_ConsD)
  next
    case True
    with Cons.prems have none: "owner = None" and r: "find_owner changed parent (Some x) ms = Inr (Some m)"
      by (auto split: option.splits)
    from Cons.IH [OF r] have "x = m" "\<forall>y \<in> set ms. Clean (src_dir y) \<noteq> parent" by auto
    with none True show ?thesis by (intro disjI2 conjI exI [of _ "[]"] exI [of _ ms]) auto
  qed
qed

lemma run_forward_calls: "run_forward E owner c = (r, calls) \<Longrightarrow> calls = [CallUp] \<or> calls = [CallUp, CallVersion]"
  by (auto simp: run_forward_def split: up_result.splits version_result.splits)

lemma with_handle_up:
  assumes "with_handle E owner v = (r, calls)" "CallUp \<in> set calls"
  shows "version_before E = NilVersion \<or> (\<exists>c. version_before E = AtVersion c False \<and> c < v)"
  using assms by (auto simp: with_handle_def split: version_result.splits if_splits prod.splits)

lemma with_handle_applied:
  assumes "with_handle E owner v = ((True, e), calls)"
  shows "CallUp \<in> set calls \<and> e = None \<and> up_outcome E \<in> {UpDone, UpNoChange}
    \<and> (\<exists>u d. version_after E = AtVersion u d \<and> (\<forall>c. version_before E = AtVersion c False \<longrightarrow> c \<noteq> u))"
  using assms
  by (auto simp: with_handle_def run_forward_def split: version_result.splits up_result.splits if_splits prod.splits)

lemma parseMigrationFile_Some:
  assumes "parseMigrationFile name = Some f"
  shows "\<exists>digits d. migration_name name digits d \<and> mf_version f = digits_val digits
       \<and> (mf_forward f \<longleftrightarrow> d = ''up'')"
proof -
  obtain digits d where "FindStringSubmatch name = Some (digits, d)" "mf_version f = digits_val digits"
    "mf_forward f \<longleftrightarrow> d = ''up''"
    using assms by (auto simp: parseMigrationFile_def ParseUint_def split: option.splits if_splits)
  then show ?thesis by (auto simp: FindStringSubmatch_Some)
qed

section \<open>Properties\<close>

text \<open>
  C4: hot reload is forward-only. golang-migrate is asked to move a lineage at most once per
  event, and only if the changed file's name is that of a forward migration, its parent directory
  is that of exactly one resolved source, and that source's ledger is empty, or clean and below the
  file's version; nothing but reading the version and moving forward is ever called.
\<close>

theorem hot_reload_forward_only:
  assumes "applyMigrationChange F Local s env changed = (r, calls)" and "CallUp \<in> set calls"
  shows "\<exists>digits srcs skips owner xs ys.
      migration_name (Base (resolveMigrationPath (Location s) changed)) digits ''up''
    \<and> resolveMigrationSources F Local s = Inr (srcs, skips)
    \<and> srcs = xs @ owner # ys
    \<and> Clean (src_dir owner) = Dir (resolveMigrationPath (Location s) changed)
    \<and> (\<forall>m \<in> set xs \<union> set ys. Clean (src_dir m) \<noteq> Dir (resolveMigrationPath (Location s) changed))
    \<and> (version_before (env owner) = NilVersion
       \<or> (\<exists>c. version_before (env owner) = AtVersion c False \<and> c < digits_val digits))
    \<and> count_list calls CallUp = 1"
proof -
  let ?file = "resolveMigrationPath (Location s) changed"
  obtain f srcs skips owner e where f: "parseMigrationFile (Base ?file) = Some f" "mf_forward f"
    and srcs: "resolveMigrationSources F Local s = Inr (srcs, skips)"
    and own: "owningMigrationSource srcs ?file = Inr (Some owner)"
    and h: "with_handle (env owner) owner (mf_version f) = (e, calls)"
    using assms by (auto simp: applyMigrationChange_def Let_def split: option.splits if_splits sum.splits prod.splits)
  obtain digits where d: "migration_name (Base ?file) digits ''up''" "mf_version f = digits_val digits"
    using parseMigrationFile_Some [OF f(1)] f(2) by auto
  obtain xs ys where o: "srcs = xs @ owner # ys" "Clean (src_dir owner) = Dir ?file"
    "\<forall>x \<in> set xs \<union> set ys. Clean (src_dir x) \<noteq> Dir ?file"
    using find_owner_Inr [OF own [unfolded owningMigrationSource_def]] by auto
  have "count_list calls CallUp = 1"
    using h assms(2)
    by (auto simp: with_handle_def split: version_result.splits if_splits prod.splits dest!: run_forward_calls)
  with d o srcs with_handle_up [OF h assms(2)] show ?thesis
    by (intro exI [of _ digits] exI [of _ srcs] exI [of _ skips] exI [of _ owner] exI [of _ xs] exI [of _ ys]) simp
qed

text \<open>
  An event is reported as applied only when the forward run succeeded and the confirmed
  version differs from a clean ledger's version before it; an edit of a migration at or below the
  applied version is refused without any forward run.
\<close>

theorem hot_reload_applied_means_moved:
  assumes "applyMigrationChange F Local s env changed = ((True, errs), calls)"
  shows "CallUp \<in> set calls \<and> (\<exists>owner u d. version_after (env owner) = AtVersion u d
    \<and> up_outcome (env owner) \<in> {UpDone, UpNoChange}
    \<and> (\<forall>c. version_before (env owner) = AtVersion c False \<longrightarrow> c \<noteq> u))"
proof -
  obtain owner v e where h: "with_handle (env owner) owner v = ((True, e), calls)"
    using assms by (auto simp: applyMigrationChange_def Let_def split: option.splits if_splits sum.splits prod.splits)
  from with_handle_applied [OF h] show ?thesis by blast
qed

section \<open>Witnesses\<close>

definition sample_reload :: "nat \<Rightarrow> migrationSource \<Rightarrow> reload_env" where
  "sample_reload n src = \<lparr>opened = None, version_before = AtVersion n False, up_outcome = UpDone,
     version_after = AtVersion 2 False, closed = []\<rparr>"

lemma sample_change:
  "applyMigrationChange sample_fs sample_local sample_sources_service (sample_reload 1)
     ''../api/migrations/2_b.up.sql'' = ((True, []), [CallVersion, CallUp, CallVersion])"
proof -
  have p: "parseMigrationFile ''2_b.up.sql'' = Some \<lparr>mf_version = 2, mf_forward = True\<rparr>"
    by (simp add: parseMigrationFile_def ParseUint_def digits_val_def digit_val_def FindStringSubmatch_def
        migration_tail_def cut_last_def direction_def is_alnum_def is_lower_def is_upper_def is_digit_def)
  have r: "resolveMigrationPath (Location sample_sources_service) ''../api/migrations/2_b.up.sql'' = ''/api/migrations/2_b.up.sql''"
    "Base ''/api/migrations/2_b.up.sql'' = ''2_b.up.sql''"
    "owningMigrationSource [sample_api] ''/api/migrations/2_b.up.sql'' = Inr (Some sample_api)"
    by code_simp+
  show ?thesis
    by (simp add: applyMigrationChange_def Let_def r p sample_resolved sample_reload_def with_handle_def run_forward_def)
qed

theorem hot_reload_forward_only_witness:
  "\<exists>digits. migration_name (Base (resolveMigrationPath (Location sample_sources_service) ''../api/migrations/2_b.up.sql''))
     digits ''up''"
  using hot_reload_forward_only [OF sample_change] by auto

theorem hot_reload_applied_means_moved_witness:
  "\<exists>owner u d. version_after (sample_reload 1 owner) = AtVersion u d"
  using hot_reload_applied_means_moved [OF sample_change] by blast

end
