(* ===== verification/ControlPlane.thy ===== *)
theory ControlPlane
  imports Prelude
begin

text \<open>
  The owner operations of \<open>libs/go/controlplane/access.go\<close>: validation of a requested runtime
  access, the grants it installs for every schema, the group roles of external-identity mode, and
  the reconciliation of role memberships.

  PostgreSQL itself is a parameter: a record \<open>postgres\<close> with what a transaction does for a
  statement and what the catalog queries of the file return, over any type of database state. A
  statement is a value of the datatype \<open>sql\<close>, whose concrete text is \<open>sql_text\<close>; the text is the
  source's string concatenation, over the driver's \<open>pq.QuoteIdentifier\<close> and \<open>pq.QuoteLiteral\<close>. A
  transaction is the database state together with the statements issued in it, in order, so that
  what the reconciler asks for is observable whatever the server answers.
\<close>

section \<open>Statements\<close>

datatype role_clause = WithAttributes "string list" | WithPassword "string list" string

datatype sql =
    RevokeDatabase string string
  | GrantConnect string string
  | RevokePublicCreate string
  | RevokeSchema string string
  | GrantUsage string string
  | RevokeTables string string
  | RevokeSequences string string
  | RevokeDefaultTables string string string
  | RevokeDefaultSequences string string string
  | GrantSelect string string
  | GrantDefaultSelect string string string
  | GrantDML string string
  | GrantSequenceUse string string
  | GrantDefaultDML string string string
  | GrantDefaultSequenceUse string string string
  | CreateRole string
  | AlterRole string role_clause
  | SetReadOnly string
  | ResetReadOnly string
  | SetDefaultRole string string
  | ResetRole string
  | GrantRole string string
  | RevokeRole string string
  | LockRuntimeAccess

record attributes =
  canLogin :: bool
  superuser :: bool
  createDB :: bool
  createRole :: bool
  inherits :: bool
  replication :: bool
  bypassRLS :: bool

text \<open>
  The server. \<open>ExecContext\<close> runs one statement; the four catalog queries may fail and do not
  change the state. \<open>RoleAttributes\<close> returns no row for an unknown role. \<open>ReaderAllowed\<close> is
  the one boolean that the authority query of \<open>validateReaderRoles\<close> computes from the role, the
  schemas and the protected roles.
\<close>

record 'db postgres =
  ExecContext :: "sql \<Rightarrow> 'db \<Rightarrow> string option \<times> 'db"
  RoleExists :: "string \<Rightarrow> 'db \<Rightarrow> (string, bool) result"
  RoleAttributes :: "string \<Rightarrow> 'db \<Rightarrow> (string, attributes option) result"
  MembersOf :: "string \<Rightarrow> 'db \<Rightarrow> (string, string list) result"
  RolesOf :: "string \<Rightarrow> 'db \<Rightarrow> (string, string list) result"
  ReaderAllowed :: "string \<Rightarrow> string list \<Rightarrow> string list \<Rightarrow> 'db \<Rightarrow> (string, bool) result"

record driver =
  QuoteIdentifier :: "string \<Rightarrow> string"
  QuoteLiteral :: "string \<Rightarrow> string"

definition runtimeAccessLockID :: string where
  "runtimeAccessLockID = ''hashtext('' @ [CHR 0x27] @ ''codefly-runtime-access:'' @ [CHR 0x27] @ '' || current_database())''"

fun sql_text :: "driver \<Rightarrow> sql \<Rightarrow> string" where
  "sql_text q (RevokeDatabase d r) =
     ''REVOKE ALL PRIVILEGES ON DATABASE '' @ QuoteIdentifier q d @ '' FROM '' @ QuoteIdentifier q r"
| "sql_text q (GrantConnect d r) =
     ''GRANT CONNECT ON DATABASE '' @ QuoteIdentifier q d @ '' TO '' @ QuoteIdentifier q r"
| "sql_text q (RevokePublicCreate s) =
     ''REVOKE CREATE ON SCHEMA '' @ QuoteIdentifier q s @ '' FROM PUBLIC''"
| "sql_text q (RevokeSchema s r) =
     ''REVOKE ALL PRIVILEGES ON SCHEMA '' @ QuoteIdentifier q s @ '' FROM '' @ QuoteIdentifier q r"
| "sql_text q (GrantUsage s r) =
     ''GRANT USAGE ON SCHEMA '' @ QuoteIdentifier q s @ '' TO '' @ QuoteIdentifier q r"
| "sql_text q (RevokeTables s r) =
     ''REVOKE ALL PRIVILEGES ON ALL TABLES IN SCHEMA '' @ QuoteIdentifier q s @ '' FROM '' @ QuoteIdentifier q r"
| "sql_text q (RevokeSequences s r) =
     ''REVOKE ALL PRIVILEGES ON ALL SEQUENCES IN SCHEMA '' @ QuoteIdentifier q s @ '' FROM '' @ QuoteIdentifier q r"
| "sql_text q (RevokeDefaultTables ow s r) =
     ''ALTER DEFAULT PRIVILEGES FOR ROLE '' @ QuoteIdentifier q ow @ '' IN SCHEMA '' @ QuoteIdentifier q s
       @ '' REVOKE ALL ON TABLES FROM '' @ QuoteIdentifier q r"
| "sql_text q (RevokeDefaultSequences ow s r) =
     ''ALTER DEFAULT PRIVILEGES FOR ROLE '' @ QuoteIdentifier q ow @ '' IN SCHEMA '' @ QuoteIdentifier q s
       @ '' REVOKE ALL ON SEQUENCES FROM '' @ QuoteIdentifier q r"
| "sql_text q (GrantSelect s r) =
     ''GRANT SELECT ON ALL TABLES IN SCHEMA '' @ QuoteIdentifier q s @ '' TO '' @ QuoteIdentifier q r"
| "sql_text q (GrantDefaultSelect ow s r) =
     ''ALTER DEFAULT PRIVILEGES FOR ROLE '' @ QuoteIdentifier q ow @ '' IN SCHEMA '' @ QuoteIdentifier q s
       @ '' GRANT SELECT ON TABLES TO '' @ QuoteIdentifier q r"
| "sql_text q (GrantDML s r) =
     ''GRANT SELECT, INSERT, UPDATE, DELETE ON ALL TABLES IN SCHEMA '' @ QuoteIdentifier q s
       @ '' TO '' @ QuoteIdentifier q r"
| "sql_text q (GrantSequenceUse s r) =
     ''GRANT USAGE, SELECT, UPDATE ON ALL SEQUENCES IN SCHEMA '' @ QuoteIdentifier q s
       @ '' TO '' @ QuoteIdentifier q r"
| "sql_text q (GrantDefaultDML ow s r) =
     ''ALTER DEFAULT PRIVILEGES FOR ROLE '' @ QuoteIdentifier q ow @ '' IN SCHEMA '' @ QuoteIdentifier q s
       @ '' GRANT SELECT, INSERT, UPDATE, DELETE ON TABLES TO '' @ QuoteIdentifier q r"
| "sql_text q (GrantDefaultSequenceUse ow s r) =
     ''ALTER DEFAULT PRIVILEGES FOR ROLE '' @ QuoteIdentifier q ow @ '' IN SCHEMA '' @ QuoteIdentifier q s
       @ '' GRANT USAGE, SELECT, UPDATE ON SEQUENCES TO '' @ QuoteIdentifier q r"
| "sql_text q (CreateRole r) = ''CREATE ROLE '' @ QuoteIdentifier q r"
| "sql_text q (AlterRole r (WithAttributes cs)) =
     ''ALTER ROLE '' @ QuoteIdentifier q r @ '' WITH '' @ Join cs '' ''"
| "sql_text q (AlterRole r (WithPassword cs p)) =
     ''ALTER ROLE '' @ QuoteIdentifier q r @ '' WITH '' @ Join cs '' '' @ '' PASSWORD '' @ QuoteLiteral q p"
| "sql_text q (SetReadOnly r) =
     ''ALTER ROLE '' @ QuoteIdentifier q r @ '' SET default_transaction_read_only = on''"
| "sql_text q (ResetReadOnly r) =
     ''ALTER ROLE '' @ QuoteIdentifier q r @ '' RESET default_transaction_read_only''"
| "sql_text q (SetDefaultRole p r) =
     ''ALTER ROLE '' @ QuoteIdentifier q p @ '' SET role = '' @ QuoteLiteral q r"
| "sql_text q (ResetRole p) = ''ALTER ROLE '' @ QuoteIdentifier q p @ '' RESET role''"
| "sql_text q (GrantRole r m) = ''GRANT '' @ QuoteIdentifier q r @ '' TO '' @ QuoteIdentifier q m"
| "sql_text q (RevokeRole r m) = ''REVOKE '' @ QuoteIdentifier q r @ '' FROM '' @ QuoteIdentifier q m"
| "sql_text q LockRuntimeAccess = ''SELECT pg_advisory_xact_lock('' @ runtimeAccessLockID @ '')''"

section \<open>Transactions\<close>

record 'db tx =
  db :: 'db
  issued :: "sql list"

datatype control_error =
    Sql string
  | ContextRequired
  | TransactionRequired
  | FieldRequired string
  | RolesMustDiffer
  | SchemaRequired
  | ReadWriteNeedsReconciliation
  | ReadOnlyNeedsReconciliation
  | BadReaderRole
  | EmptySchema
  | PrincipalsNeedExternalIdentity
  | EmptyPrincipal
  | AuthModeNotSupported string
  | NonReaderAuthority string
  | PrincipalMissing string
  | RoleMissing string
  | RoleElevated string

definition exec :: "'db postgres \<Rightarrow> sql \<Rightarrow> (control_error, 'db tx) action" where
  "exec S st t =
     (case ExecContext S st (db t) of
        (e, d) \<Rightarrow> (map_option Sql e, t\<lparr>db := d, issued := issued t @ [st]\<rparr>))"

text \<open>A catalog query whose error is returned as it is.\<close>

definition query :: "('db \<Rightarrow> (string, 'a) result) \<Rightarrow> ('a \<Rightarrow> (control_error, 'db tx) action)
    \<Rightarrow> (control_error, 'db tx) action" where
  "query f k t = (case f (db t) of Inl e \<Rightarrow> (Some (Sql e), t) | Inr a \<Rightarrow> k a t)"

section \<open>Requested access\<close>

definition AuthModePassword :: string where "AuthModePassword = ''password''"
definition AuthModeExternalIdentity :: string where "AuthModeExternalIdentity = ''external-identity''"

record RuntimeAccess =
  Database :: string
  OwnerRole :: string
  ReadOnlyRole :: string
  ReadWriteRole :: string
  Schemas :: "string list"
  ReadWriteRoles :: "string list"
  ReadOnlyRoles :: "string list"
  ReconcileReadOnlyRoleMemberships :: bool
  ReconcileReadWriteRoleMemberships :: bool
  access_AuthMode :: string
  ReadOnlyPrincipals :: "string list"
  ReadWritePrincipals :: "string list"

definition required_fields :: "RuntimeAccess \<Rightarrow> (string \<times> string) list" where
  "required_fields a =
     [(''database'', Database a), (''owner role'', OwnerRole a),
      (''read-only role'', ReadOnlyRole a), (''read-write role'', ReadWriteRole a)]"

fun check_reader_roles :: "string list \<Rightarrow> string list \<Rightarrow> control_error option" where
  "check_reader_roles seen [] = None"
| "check_reader_roles seen (role # rest) =
     (if role = [] \<or> TrimSpace role \<noteq> role \<or> length role > 63 \<or> NUL \<in> set role \<or> role \<in> set seen
      then Some BadReaderRole
      else check_reader_roles (role # seen) rest)"

text \<open>
  Go iterates over the map literal of required fields in no fixed order; the model takes the
  written order, which only decides which missing field is named.
\<close>

definition validateRuntimeAccess :: "RuntimeAccess \<Rightarrow> control_error option" where
  "validateRuntimeAccess a =
     (case first_error (\<lambda>(label, identifier). if blank identifier then Some (FieldRequired label) else None)
             (required_fields a) of
        Some e \<Rightarrow> Some e
      | None \<Rightarrow>
      if ReadOnlyRole a = ReadWriteRole a then Some RolesMustDiffer
      else if Schemas a = [] then Some SchemaRequired
      else if ReadWriteRoles a \<noteq> [] \<and> \<not> ReconcileReadWriteRoleMemberships a
        then Some ReadWriteNeedsReconciliation
      else if ReadOnlyRoles a \<noteq> [] \<and> \<not> ReconcileReadOnlyRoleMemberships a
        then Some ReadOnlyNeedsReconciliation
      else case check_reader_roles
             ([OwnerRole a, ReadOnlyRole a, ReadWriteRole a] @ ReadWriteRoles a
                @ ReadOnlyPrincipals a @ ReadWritePrincipals a) (ReadOnlyRoles a) of
        Some e \<Rightarrow> Some e
      | None \<Rightarrow>
      (case first_error (\<lambda>s. if blank s then Some EmptySchema else None) (Schemas a) of
        Some e \<Rightarrow> Some e
      | None \<Rightarrow>
      if access_AuthMode a = [] \<or> access_AuthMode a = AuthModePassword then
        (if ReadOnlyPrincipals a \<noteq> [] \<or> ReadWritePrincipals a \<noteq> []
         then Some PrincipalsNeedExternalIdentity else None)
      else if access_AuthMode a = AuthModeExternalIdentity then
        first_error (\<lambda>p. if blank p then Some EmptyPrincipal else None)
          (ReadOnlyPrincipals a @ ReadWritePrincipals a)
      else Some (AuthModeNotSupported (access_AuthMode a))))"

section \<open>Group roles\<close>

definition group_changes :: "attributes \<Rightarrow> string list" where
  "group_changes at =
     map snd (filter fst
       [(canLogin at, ''NOLOGIN''), (superuser at, ''NOSUPERUSER''), (createDB at, ''NOCREATEDB''),
        (createRole at, ''NOCREATEROLE''), (inherits at, ''NOINHERIT''),
        (replication at, ''NOREPLICATION''), (bypassRLS at, ''NOBYPASSRLS'')])"

definition no_rows :: string where "no_rows = ''sql: no rows in result set''"

definition ensureGroupRole :: "'db postgres \<Rightarrow> string \<Rightarrow> (control_error, 'db tx) action" where
  "ensureGroupRole S role =
     query (RoleExists S role) (\<lambda>exists.
       andThen (onlyIf (\<not> exists) (exec S (CreateRole role)))
         (query (RoleAttributes S role) (\<lambda>row. case row of
            None \<Rightarrow> fail_with (Sql no_rows)
          | Some at \<Rightarrow>
              onlyIf (group_changes at \<noteq> [])
                (exec S (AlterRole role (WithAttributes (group_changes at)))))))"

section \<open>Memberships\<close>

fun grant_principals :: "'db postgres \<Rightarrow> string \<Rightarrow> string list \<Rightarrow> string list
    \<Rightarrow> (control_error, 'db tx) action" where
  "grant_principals S grp current [] = done_ok"
| "grant_principals S grp current (p # ps) =
     (if p \<in> set current then grant_principals S grp current ps
      else query (RoleExists S p) (\<lambda>exists.
             if \<not> exists then fail_with (PrincipalMissing p)
             else andThen (exec S (GrantRole grp p)) (grant_principals S grp (p # current) ps)))"

text \<open>
  \<open>current\<close> is a Go map used as a set: the query's rows without repetition. Go ranges over it in
  no fixed order; the rows of the query have none either, so the model follows the rows.
\<close>

definition reconcileExternalPrincipals :: "'db postgres \<Rightarrow> string \<Rightarrow> string list
    \<Rightarrow> (control_error, 'db tx) action" where
  "reconcileExternalPrincipals S grp principals =
     query (MembersOf S grp) (\<lambda>rows.
       let current = dedup_seen [] rows in
       andThen
         (each (\<lambda>member. exec S (RevokeRole grp member))
            (filter (\<lambda>member. member \<notin> set principals) current))
         (grant_principals S grp current principals))"

definition elevated :: "attributes \<Rightarrow> bool" where
  "elevated at \<longleftrightarrow> canLogin at \<or> superuser at \<or> createDB at \<or> createRole at"

definition grant_configured :: "'db postgres \<Rightarrow> string \<Rightarrow> string \<Rightarrow> (control_error, 'db tx) action" where
  "grant_configured S member role =
     query (RoleAttributes S role) (\<lambda>row. case row of
        None \<Rightarrow> fail_with (RoleMissing role)
      | Some at \<Rightarrow>
          if elevated at then fail_with (RoleElevated role)
          else exec S (GrantRole role member))"

definition reconcileRuntimeRoleMemberships :: "'db postgres \<Rightarrow> string \<Rightarrow> string list
    \<Rightarrow> (control_error, 'db tx) action" where
  "reconcileRuntimeRoleMemberships S member configured =
     query (RolesOf S member) (\<lambda>current.
       andThen (each (\<lambda>role. exec S (RevokeRole role member)) current)
         (each (grant_configured S member) configured))"

section \<open>Reconciliation\<close>

definition validateReaderRoles :: "'db postgres \<Rightarrow> RuntimeAccess \<Rightarrow> (control_error, 'db tx) action" where
  "validateReaderRoles S a =
     each (\<lambda>role. query (ReaderAllowed S role (Schemas a)
                     ([OwnerRole a, ReadOnlyRole a, ReadWriteRole a] @ ReadWriteRoles a))
        (\<lambda>allowed. if \<not> allowed then fail_with (NonReaderAuthority role) else done_ok))
       (ReadOnlyRoles a)"

definition database_statements :: "RuntimeAccess \<Rightarrow> sql list" where
  "database_statements a =
     [RevokeDatabase (Database a) (ReadOnlyRole a), RevokeDatabase (Database a) (ReadWriteRole a),
      GrantConnect (Database a) (ReadOnlyRole a), GrantConnect (Database a) (ReadWriteRole a)]"

definition schema_statements :: "RuntimeAccess \<Rightarrow> string \<Rightarrow> sql list" where
  "schema_statements a s =
     (let ro = ReadOnlyRole a; rw = ReadWriteRole a; ow = OwnerRole a in
      [RevokePublicCreate s, RevokeSchema s ro, RevokeSchema s rw, GrantUsage s ro, GrantUsage s rw,
       RevokeTables s ro, RevokeTables s rw, RevokeSequences s ro, RevokeSequences s rw,
       RevokeDefaultTables ow s ro, RevokeDefaultTables ow s rw,
       RevokeDefaultSequences ow s ro, RevokeDefaultSequences ow s rw]
      @ (if \<not> ReconcileReadOnlyRoleMemberships a then [GrantSelect s ro, GrantDefaultSelect ow s ro] else [])
      @ (if ReadWriteRoles a = []
         then [GrantDML s rw, GrantSequenceUse s rw, GrantDefaultDML ow s rw, GrantDefaultSequenceUse ow s rw]
         else []))"

definition reconcile_steps :: "'db postgres \<Rightarrow> RuntimeAccess \<Rightarrow> (control_error, 'db tx) action" where
  "reconcile_steps S a =
     (let ext = access_AuthMode a = AuthModeExternalIdentity in
      andThen (onlyIf ext (ensureGroupRole S (ReadOnlyRole a)))
     (andThen (onlyIf ext (ensureGroupRole S (ReadWriteRole a)))
     (andThen (each (exec S) (database_statements a))
     (andThen (each (\<lambda>s. each (exec S) (schema_statements a s)) (Schemas a))
     (andThen (onlyIf (ReconcileReadOnlyRoleMemberships a)
        (andThen (validateReaderRoles S a)
           (reconcileRuntimeRoleMemberships S (ReadOnlyRole a) (ReadOnlyRoles a))))
     (andThen (onlyIf (ReconcileReadWriteRoleMemberships a)
        (reconcileRuntimeRoleMemberships S (ReadWriteRole a) (ReadWriteRoles a)))
     (onlyIf ext
        (andThen (reconcileExternalPrincipals S (ReadOnlyRole a) (ReadOnlyPrincipals a))
           (reconcileExternalPrincipals S (ReadWriteRole a) (ReadWritePrincipals a))))))))))"

text \<open>
  \<open>ctx\<close> and the transaction are pointers in the source; \<open>None\<close> is a nil one. The caller owns the
  transaction, so the outcome pairs the error with what became of it.
\<close>

definition ReconcileRuntimeAccess :: "'db postgres \<Rightarrow> unit option \<Rightarrow> 'db tx option \<Rightarrow> RuntimeAccess
    \<Rightarrow> control_error option \<times> 'db tx option" where
  "ReconcileRuntimeAccess S ctx tx a =
     (case ctx of None \<Rightarrow> (Some ContextRequired, tx)
      | Some _ \<Rightarrow>
        (case tx of None \<Rightarrow> (Some TransactionRequired, None)
         | Some t \<Rightarrow>
           (case validateRuntimeAccess a of
              Some e \<Rightarrow> (Some e, Some t)
            | None \<Rightarrow> (case reconcile_steps S a t of (r, t') \<Rightarrow> (r, Some t')))))"

section \<open>The policy the statements implement\<close>

text \<open>
  The access control lists that GRANT and REVOKE change, per grantee and object: what a statement
  does to them is PostgreSQL's documented meaning of it. \<open>wanted\<close> is the policy a request
  declares, stated without reference to statements: \<open>None\<close> where the request says nothing.
\<close>

datatype privilege = Connect | Usage | Create | Select | Insert | Update | Delete

datatype grantee = Public | Role string

datatype object =
    OnDatabase string
  | OnSchema string
  | OnTables string
  | OnSequences string
  | DefaultTables string string
  | DefaultSequences string string

type_synonym acl = "grantee \<Rightarrow> object \<Rightarrow> privilege set"

definition put :: "string \<Rightarrow> object \<Rightarrow> (privilege set \<Rightarrow> privilege set) \<Rightarrow> acl \<Rightarrow> acl" where
  "put r ob f A = (\<lambda>g o'. if g = Role r \<and> o' = ob then f (A g o') else A g o')"

abbreviation dml :: "privilege set" where "dml \<equiv> {Select, Insert, Update, Delete}"
abbreviation sequence_use :: "privilege set" where "sequence_use \<equiv> {Usage, Select, Update}"

fun effect :: "sql \<Rightarrow> acl \<Rightarrow> acl" where
  "effect (RevokeDatabase d r) = put r (OnDatabase d) (\<lambda>_. {})"
| "effect (GrantConnect d r) = put r (OnDatabase d) (insert Connect)"
| "effect (RevokePublicCreate s) =
     (\<lambda>A g ob. if g = Public \<and> ob = OnSchema s then A g ob - {Create} else A g ob)"
| "effect (RevokeSchema s r) = put r (OnSchema s) (\<lambda>_. {})"
| "effect (GrantUsage s r) = put r (OnSchema s) (insert Usage)"
| "effect (RevokeTables s r) = put r (OnTables s) (\<lambda>_. {})"
| "effect (RevokeSequences s r) = put r (OnSequences s) (\<lambda>_. {})"
| "effect (RevokeDefaultTables ow s r) = put r (DefaultTables ow s) (\<lambda>_. {})"
| "effect (RevokeDefaultSequences ow s r) = put r (DefaultSequences ow s) (\<lambda>_. {})"
| "effect (GrantSelect s r) = put r (OnTables s) (insert Select)"
| "effect (GrantDefaultSelect ow s r) = put r (DefaultTables ow s) (insert Select)"
| "effect (GrantDML s r) = put r (OnTables s) (\<lambda>P. P \<union> dml)"
| "effect (GrantSequenceUse s r) = put r (OnSequences s) (\<lambda>P. P \<union> sequence_use)"
| "effect (GrantDefaultDML ow s r) = put r (DefaultTables ow s) (\<lambda>P. P \<union> dml)"
| "effect (GrantDefaultSequenceUse ow s r) = put r (DefaultSequences ow s) (\<lambda>P. P \<union> sequence_use)"
| "effect _ = (\<lambda>A. A)"

definition replay :: "sql list \<Rightarrow> acl \<Rightarrow> acl" where
  "replay sts A = fold effect sts A"

definition table_policy :: "RuntimeAccess \<Rightarrow> string \<Rightarrow> privilege set" where
  "table_policy a r =
     (if r = ReadOnlyRole a then (if ReconcileReadOnlyRoleMemberships a then {} else {Select})
      else if ReadWriteRoles a = [] then dml else {})"

definition sequence_policy :: "RuntimeAccess \<Rightarrow> string \<Rightarrow> privilege set" where
  "sequence_policy a r =
     (if r = ReadWriteRole a \<and> ReadWriteRoles a = [] then sequence_use else {})"

fun wanted :: "RuntimeAccess \<Rightarrow> grantee \<Rightarrow> object \<Rightarrow> privilege set option" where
  "wanted a Public ob = None"
| "wanted a (Role r) ob =
     (if r \<noteq> ReadOnlyRole a \<and> r \<noteq> ReadWriteRole a then None
      else case ob of
        OnDatabase d \<Rightarrow> if d = Database a then Some {Connect} else None
      | OnSchema s \<Rightarrow> if s \<in> set (Schemas a) then Some {Usage} else None
      | OnTables s \<Rightarrow> if s \<in> set (Schemas a) then Some (table_policy a r) else None
      | OnSequences s \<Rightarrow> if s \<in> set (Schemas a) then Some (sequence_policy a r) else None
      | DefaultTables ow s \<Rightarrow>
          if ow = OwnerRole a \<and> s \<in> set (Schemas a) then Some (table_policy a r) else None
      | DefaultSequences ow s \<Rightarrow>
          if ow = OwnerRole a \<and> s \<in> set (Schemas a) then Some (sequence_policy a r) else None)"

definition installed :: "RuntimeAccess \<Rightarrow> acl \<Rightarrow> acl" where
  "installed a A g ob =
     (case wanted a g ob of
        Some ps \<Rightarrow> ps
      | None \<Rightarrow>
          if g = Public \<and> (\<exists>s \<in> set (Schemas a). ob = OnSchema s) then A g ob - {Create} else A g ob)"

text \<open>What a statement of a reconciliation may do besides privileges: role attributes and memberships.\<close>

fun role_authority :: "RuntimeAccess \<Rightarrow> sql \<Rightarrow> bool" where
  "role_authority a (CreateRole r) \<longleftrightarrow>
     access_AuthMode a = AuthModeExternalIdentity \<and> r \<in> {ReadOnlyRole a, ReadWriteRole a}"
| "role_authority a (AlterRole r (WithAttributes cs)) \<longleftrightarrow>
     access_AuthMode a = AuthModeExternalIdentity \<and> r \<in> {ReadOnlyRole a, ReadWriteRole a}
     \<and> list_all (prefix ''NO'') cs"
| "role_authority a (AlterRole r (WithPassword cs p)) \<longleftrightarrow> False"
| "role_authority a (GrantRole r m) \<longleftrightarrow>
     m = ReadOnlyRole a \<and> r \<in> set (ReadOnlyRoles a) \<or> m = ReadWriteRole a \<and> r \<in> set (ReadWriteRoles a)
     \<or> access_AuthMode a = AuthModeExternalIdentity
       \<and> (r = ReadOnlyRole a \<and> m \<in> set (ReadOnlyPrincipals a)
          \<or> r = ReadWriteRole a \<and> m \<in> set (ReadWritePrincipals a))"
| "role_authority a (SetReadOnly r) \<longleftrightarrow> False"
| "role_authority a (ResetReadOnly r) \<longleftrightarrow> False"
| "role_authority a (SetDefaultRole p r) \<longleftrightarrow> False"
| "role_authority a (ResetRole p) \<longleftrightarrow> False"
| "role_authority a LockRuntimeAccess \<longleftrightarrow> False"
| "role_authority a _ \<longleftrightarrow> True"

section \<open>What a server promises\<close>

text \<open>
  Documented behaviour of PostgreSQL that the reconciler relies on, as predicates over a server:
  a successful GRANT or REVOKE of a role changes exactly that membership (all of them granted by
  the reconciling owner), creating a role at most makes its creator a member of it, every other
  statement leaves memberships alone, and the catalog queries report them; a successful ALTER ROLE
  clears the attributes it names, and a role that was created exists.
\<close>

definition membership_laws :: "'db postgres \<Rightarrow> string \<Rightarrow> ('db \<Rightarrow> (string \<times> string) set) \<Rightarrow> bool" where
  "membership_laws S creator mem \<longleftrightarrow>
     (\<forall>st d d'. ExecContext S st d = (None, d') \<longrightarrow>
        (case st of
           GrantRole r m \<Rightarrow> mem d' = insert (r, m) (mem d)
         | RevokeRole r m \<Rightarrow> mem d' = mem d - {(r, m)}
         | CreateRole r \<Rightarrow> mem d \<subseteq> mem d' \<and> mem d' \<subseteq> insert (r, creator) (mem d)
         | _ \<Rightarrow> mem d' = mem d))
     \<and> (\<forall>m d rs. RolesOf S m d = Inr rs \<longrightarrow> set rs = {r. (r, m) \<in> mem d})
     \<and> (\<forall>r d ms. MembersOf S r d = Inr ms \<longrightarrow> set ms = {m. (r, m) \<in> mem d})"

definition clear_attribute :: "string \<Rightarrow> attributes \<Rightarrow> attributes" where
  "clear_attribute c at =
     (if c = ''NOLOGIN'' then at\<lparr>canLogin := False\<rparr>
      else if c = ''NOSUPERUSER'' then at\<lparr>superuser := False\<rparr>
      else if c = ''NOCREATEDB'' then at\<lparr>createDB := False\<rparr>
      else if c = ''NOCREATEROLE'' then at\<lparr>createRole := False\<rparr>
      else if c = ''NOINHERIT'' then at\<lparr>inherits := False\<rparr>
      else if c = ''NOREPLICATION'' then at\<lparr>replication := False\<rparr>
      else if c = ''NOBYPASSRLS'' then at\<lparr>bypassRLS := False\<rparr>
      else if c = ''LOGIN'' then at\<lparr>canLogin := True\<rparr>
      else at)"

definition alter_attributes :: "role_clause \<Rightarrow> attributes \<Rightarrow> attributes" where
  "alter_attributes c at =
     (case c of WithAttributes cs \<Rightarrow> fold clear_attribute cs at
      | WithPassword cs p \<Rightarrow> fold clear_attribute cs at)"

definition attribute_laws :: "'db postgres \<Rightarrow> ('db \<Rightarrow> string \<Rightarrow> attributes option) \<Rightarrow> bool" where
  "attribute_laws S attrs \<longleftrightarrow>
     (\<forall>st d d'. ExecContext S st d = (None, d') \<longrightarrow>
        (case st of
           AlterRole r c \<Rightarrow> attrs d' = (attrs d)(r := map_option (alter_attributes c) (attrs d r))
         | CreateRole r \<Rightarrow> (\<forall>r'. r' \<noteq> r \<longrightarrow> attrs d' r' = attrs d r')
         | _ \<Rightarrow> attrs d' = attrs d))
     \<and> (\<forall>r d row. RoleAttributes S r d = Inr row \<longrightarrow> row = attrs d r)"

section \<open>A sample server\<close>

text \<open>A server that keeps memberships and role attributes, for the witnesses.\<close>

record sample_db =
  sample_members :: "(string \<times> string) list"
  sample_roles_of :: "(string \<times> attributes) list"

definition fresh_role :: attributes where
  "fresh_role = \<lparr>canLogin = False, superuser = False, createDB = False, createRole = False,
     inherits = True, replication = False, bypassRLS = False\<rparr>"

fun sample_exec :: "sql \<Rightarrow> sample_db \<Rightarrow> string option \<times> sample_db" where
  "sample_exec (GrantRole r m) d = (None, d\<lparr>sample_members := (r, m) # sample_members d\<rparr>)"
| "sample_exec (RevokeRole r m) d = (None, d\<lparr>sample_members := filter (\<lambda>p. p \<noteq> (r, m)) (sample_members d)\<rparr>)"
| "sample_exec (CreateRole r) d = (None, d\<lparr>sample_roles_of := (r, fresh_role) # sample_roles_of d\<rparr>)"
| "sample_exec (AlterRole r c) d =
     (None, d\<lparr>sample_roles_of := map (\<lambda>(n, at). (n, if n = r then alter_attributes c at else at)) (sample_roles_of d)\<rparr>)"
| "sample_exec _ d = (None, d)"

definition sample_server :: "sample_db postgres" where
  "sample_server = \<lparr>ExecContext = sample_exec,
     RoleExists = (\<lambda>r d. Inr (map_of (sample_roles_of d) r \<noteq> None)),
     RoleAttributes = (\<lambda>r d. Inr (map_of (sample_roles_of d) r)),
     MembersOf = (\<lambda>r d. Inr (map snd (filter (\<lambda>p. fst p = r) (sample_members d)))),
     RolesOf = (\<lambda>m d. Inr (map fst (filter (\<lambda>p. snd p = m) (sample_members d)))),
     ReaderAllowed = (\<lambda>r ss rs d. Inr True)\<rparr>"

definition sample_access :: RuntimeAccess where
  "sample_access = \<lparr>Database = ''orders'', OwnerRole = ''owner'', ReadOnlyRole = ''ro'', ReadWriteRole = ''rw'',
     Schemas = [''public''], ReadWriteRoles = [''app''], ReadOnlyRoles = [],
     ReconcileReadOnlyRoleMemberships = False, ReconcileReadWriteRoleMemberships = True,
     access_AuthMode = [], ReadOnlyPrincipals = [], ReadWritePrincipals = []\<rparr>"

definition sample_external :: RuntimeAccess where
  "sample_external = \<lparr>Database = ''orders'', OwnerRole = ''owner'', ReadOnlyRole = ''ro'', ReadWriteRole = ''rw'',
     Schemas = [''public''], ReadWriteRoles = [], ReadOnlyRoles = [],
     ReconcileReadOnlyRoleMemberships = False, ReconcileReadWriteRoleMemberships = False,
     access_AuthMode = ''external-identity'', ReadOnlyPrincipals = [''u1''], ReadWritePrincipals = [''u2'']\<rparr>"

definition sample_tx :: "sample_db tx" where
  "sample_tx = \<lparr>db = \<lparr>sample_members = [(''old'', ''rw''), (''rw'', ''u9''), (''app'', ''someone'')],
     sample_roles_of = [(''app'', fresh_role), (''old'', fresh_role), (''rw'', fresh_role), (''ro'', fresh_role),
       (''u1'', fresh_role), (''u2'', fresh_role)]\<rparr>, issued = []\<rparr>"

section \<open>Lemmas on transactions\<close>

definition issues :: "(sql \<Rightarrow> bool) \<Rightarrow> 'db tx \<Rightarrow> 'db tx \<Rightarrow> bool" where
  "issues P t t' \<longleftrightarrow> (\<exists>sts. issued t' = issued t @ sts \<and> list_all P sts)"

lemma reflp_issues [simp]: "reflp (issues P)"
  by (auto simp: reflp_def issues_def)

lemma transp_issues [simp]: "transp (issues P)"
  by (auto simp: transp_def issues_def)

lemma keeps_exec: "P st \<Longrightarrow> keeps (issues P) (exec S st)"
  by (auto simp: keeps_def issues_def exec_def split: prod.splits)

lemma keeps_query: "reflp R \<Longrightarrow> (\<And>a. keeps R (k a)) \<Longrightarrow> keeps R (query f k)"
  by (auto simp: keeps_def query_def reflp_def split: sum.splits)

lemma keeps_mono: "keeps (issues P) f \<Longrightarrow> (\<And>st. P st \<Longrightarrow> Q st) \<Longrightarrow> keeps (issues Q) f"
  by (fastforce simp: keeps_def issues_def list_all_iff)

lemma exec_None [act_simps]:
  "exec S st t = (None, t') \<longleftrightarrow>
     (\<exists>d. ExecContext S st (db t) = (None, d) \<and> t' = t\<lparr>db := d, issued := issued t @ [st]\<rparr>)"
  by (auto simp: exec_def split: prod.splits)

lemma query_None [act_simps]:
  "query f k t = (None, t') \<longleftrightarrow> (\<exists>a. f (db t) = Inr a \<and> k a t = (None, t'))"
  by (auto simp: query_def split: sum.splits)

lemma each_exec_issued: "each (exec S) sts t = (None, t') \<Longrightarrow> issued t' = issued t @ sts"
  by (induction sts arbitrary: t) (auto simp: act_simps)

lemma each_each_exec_issued:
  "each (\<lambda>x. each (exec S) (f x)) xs t = (None, t') \<Longrightarrow> issued t' = issued t @ concat (map f xs)"
  by (induction xs arbitrary: t) (auto simp: act_simps dest!: each_exec_issued)

text \<open>
  An operation inside a transaction only appends to what was issued, and only statements of a
  given kind: the contract the reconciler relies on from every step it composes.
\<close>

locale sql_operation =
  fixes operation :: "('e, 'db tx) action"
    and permitted :: "sql \<Rightarrow> bool"
  assumes operation_issues: "keeps (issues permitted) operation"
begin

lemma operation_appends:
  assumes "operation t = (r, t')"
  obtains sts where "issued t' = issued t @ sts" "list_all permitted sts"
  using keepsD [OF operation_issues assms] by (auto simp: issues_def)

lemma operation_widens: "(\<And>st. permitted st \<Longrightarrow> P st) \<Longrightarrow> keeps (issues P) operation"
  using operation_issues by (rule keeps_mono)

end

definition group_statement :: "string \<Rightarrow> sql \<Rightarrow> bool" where
  "group_statement role st \<longleftrightarrow>
     st = CreateRole role \<or> (\<exists>cs. st = AlterRole role (WithAttributes cs) \<and> list_all (prefix ''NO'') cs)"

lemma group_changes_clear: "list_all (prefix ''NO'') (group_changes at)"
  by (simp add: group_changes_def)

interpretation group_role: sql_operation "ensureGroupRole S role" "group_statement role" for S role
  by unfold_locales
    (auto simp: ensureGroupRole_def group_statement_def group_changes_clear split: option.splits
      intro!: keeps_query keeps_andThen keeps_onlyIf keeps_exec keeps_fail)

definition membership_statement :: "string \<Rightarrow> string list \<Rightarrow> sql \<Rightarrow> bool" where
  "membership_statement member roles st \<longleftrightarrow>
     (\<exists>r. st = RevokeRole r member \<or> r \<in> set roles \<and> st = GrantRole r member)"

interpretation delegated: sql_operation "reconcileRuntimeRoleMemberships S member roles"
  "membership_statement member roles" for S member roles
  by unfold_locales
    (auto simp: reconcileRuntimeRoleMemberships_def grant_configured_def membership_statement_def
      split: option.splits
      intro!: keeps_query keeps_andThen keeps_each keeps_exec keeps_fail)

definition principal_statement :: "string \<Rightarrow> string list \<Rightarrow> sql \<Rightarrow> bool" where
  "principal_statement grp ps st \<longleftrightarrow>
     (\<exists>m. st = RevokeRole grp m \<or> m \<in> set ps \<and> st = GrantRole grp m)"

lemma keeps_grant_principals:
  "set ps \<subseteq> set qs \<Longrightarrow> keeps (issues (principal_statement grp qs)) (grant_principals S grp current ps)"
  by (induction ps arbitrary: current)
    (auto simp: principal_statement_def intro!: keeps_query keeps_andThen keeps_exec keeps_fail keeps_done)

interpretation principals: sql_operation "reconcileExternalPrincipals S grp ps"
  "principal_statement grp ps" for S grp ps
  by unfold_locales
    (auto simp: reconcileExternalPrincipals_def Let_def intro!: keeps_query keeps_andThen keeps_each
      keeps_exec keeps_grant_principals, auto simp: principal_statement_def)

section \<open>Lemmas on privileges\<close>

definition within :: "RuntimeAccess \<Rightarrow> sql \<Rightarrow> bool" where
  "within a st \<longleftrightarrow> role_authority a st
     \<and> (\<forall>A g ob. effect st A g ob \<subseteq> A g ob \<union> (case wanted a g ob of Some ps \<Rightarrow> ps | None \<Rightarrow> {}))"

lemma replay_Nil [simp]: "replay [] A = A"
  and replay_Cons [simp]: "replay (st # sts) A = replay sts (effect st A)"
  and replay_append [simp]: "replay (xs @ ys) A = replay ys (replay xs A)"
  by (simp_all add: replay_def)

lemma put_apply [simp]: "put r ob f A g o' = (if g = Role r \<and> o' = ob then f (A g o') else A g o')"
  by (simp add: put_def)

lemma replay_within:
  "list_all (within a) sts \<Longrightarrow>
     replay sts A g ob \<subseteq> A g ob \<union> (case wanted a g ob of Some ps \<Rightarrow> ps | None \<Rightarrow> {})"
proof (induction sts arbitrary: A)
  case Nil
  then show ?case by simp
next
  case (Cons st sts)
  then have "effect st A g ob \<subseteq> A g ob \<union> (case wanted a g ob of Some ps \<Rightarrow> ps | None \<Rightarrow> {})"
    by (simp add: within_def)
  moreover have "replay sts (effect st A) g ob
      \<subseteq> effect st A g ob \<union> (case wanted a g ob of Some ps \<Rightarrow> ps | None \<Rightarrow> {})"
    using Cons by simp
  ultimately show ?case by auto
qed

text \<open>Statements that concern roles only have no effect on the access control lists.\<close>

fun role_statement :: "sql \<Rightarrow> bool" where
  "role_statement (CreateRole r) = True"
| "role_statement (AlterRole r c) = True"
| "role_statement (GrantRole r m) = True"
| "role_statement (RevokeRole r m) = True"
| "role_statement _ = False"

lemma role_statement_effect: "role_statement st \<Longrightarrow> effect st A = A"
  by (cases st) auto

lemma replay_role_statements: "list_all role_statement sts \<Longrightarrow> replay sts A = A"
  by (induction sts) (auto simp: role_statement_effect)

lemma role_statements:
  "group_statement r st \<Longrightarrow> role_statement st"
  "membership_statement m rs st \<Longrightarrow> role_statement st"
  "principal_statement g ps st \<Longrightarrow> role_statement st"
  by (auto simp: group_statement_def membership_statement_def principal_statement_def)

lemma database_statements_within: "list_all (within a) (database_statements a)"
  by (auto simp: database_statements_def within_def split: grantee.splits object.splits)

lemma schema_statements_within:
  "ReadOnlyRole a \<noteq> ReadWriteRole a \<Longrightarrow> s \<in> set (Schemas a) \<Longrightarrow> list_all (within a) (schema_statements a s)"
  by (auto simp: schema_statements_def Let_def within_def table_policy_def sequence_policy_def)

lemma role_operations_within:
  "group_statement r st \<Longrightarrow> access_AuthMode a = AuthModeExternalIdentity
     \<Longrightarrow> r \<in> {ReadOnlyRole a, ReadWriteRole a} \<Longrightarrow> within a st"
  "membership_statement (ReadOnlyRole a) (ReadOnlyRoles a) st \<Longrightarrow> within a st"
  "membership_statement (ReadWriteRole a) (ReadWriteRoles a) st \<Longrightarrow> within a st"
  "principal_statement (ReadOnlyRole a) (ReadOnlyPrincipals a) st
     \<Longrightarrow> access_AuthMode a = AuthModeExternalIdentity \<Longrightarrow> within a st"
  "principal_statement (ReadWriteRole a) (ReadWritePrincipals a) st
     \<Longrightarrow> access_AuthMode a = AuthModeExternalIdentity \<Longrightarrow> within a st"
  by (auto simp: group_statement_def membership_statement_def principal_statement_def within_def)

lemma keeps_validateReaderRoles: "keeps (issues P) (validateReaderRoles S a)"
  by (auto simp: validateReaderRoles_def intro!: keeps_query keeps_each keeps_fail keeps_done)

lemma keeps_reconcile_steps:
  assumes "ReadOnlyRole a \<noteq> ReadWriteRole a"
  shows "keeps (issues (within a)) (reconcile_steps S a)"
proof -
  have "keeps (issues (within a)) (each (exec S) (database_statements a))"
    using database_statements_within [of a] by (auto simp: list_all_iff intro!: keeps_each keeps_exec)
  moreover have "keeps (issues (within a)) (each (\<lambda>s. each (exec S) (schema_statements a s)) (Schemas a))"
    using schema_statements_within [OF assms] by (auto simp: list_all_iff intro!: keeps_each keeps_exec)
  ultimately show ?thesis
    unfolding reconcile_steps_def Let_def
    by (intro keeps_andThen keeps_onlyIf keeps_validateReaderRoles)
      (auto intro!: group_role.operation_widens delegated.operation_widens principals.operation_widens
        intro: role_operations_within)
qed


text \<open>What the statements for one schema leave, whatever was there before.\<close>

definition objects :: "RuntimeAccess \<Rightarrow> string \<Rightarrow> object set" where
  "objects a s = {OnSchema s, OnTables s, OnSequences s, DefaultTables (OwnerRole a) s, DefaultSequences (OwnerRole a) s}"

definition settled :: "RuntimeAccess \<Rightarrow> grantee \<Rightarrow> object \<Rightarrow> privilege set \<Rightarrow> privilege set" where
  "settled a g ob ps =
     (if g = Public then (case ob of OnSchema s \<Rightarrow> ps - {Create} | _ \<Rightarrow> ps)
      else if g \<noteq> Role (ReadOnlyRole a) \<and> g \<noteq> Role (ReadWriteRole a) then ps
      else let r = (case g of Role r \<Rightarrow> r) in
        (case ob of OnSchema s \<Rightarrow> {Usage} | OnTables s \<Rightarrow> table_policy a r | OnSequences s \<Rightarrow> sequence_policy a r
         | DefaultTables ow s \<Rightarrow> table_policy a r | DefaultSequences ow s \<Rightarrow> sequence_policy a r | _ \<Rightarrow> ps))"

lemma settled_idem [simp]: "settled a g ob (settled a g ob ps) = settled a g ob ps"
  by (auto simp: settled_def split: object.splits)

lemma replay_schema_statements:
  assumes "ReadOnlyRole a \<noteq> ReadWriteRole a"
  shows "replay (schema_statements a s) A g ob = (if ob \<in> objects a s then settled a g ob (A g ob) else A g ob)"
proof (cases g)
  case Public
  then show ?thesis
    by (cases ob) (simp_all add: schema_statements_def objects_def settled_def Let_def)
next
  case (Role r)
  note defs = schema_statements_def objects_def settled_def Let_def table_policy_def sequence_policy_def
  consider (ro) "r = ReadOnlyRole a" "r \<noteq> ReadWriteRole a"
    | (rw) "r \<noteq> ReadOnlyRole a" "r = ReadWriteRole a"
    | (other) "r \<noteq> ReadOnlyRole a" "r \<noteq> ReadWriteRole a"
    using assms by auto
  then show ?thesis
  proof cases
    case ro
    with Role show ?thesis by (cases ob) (simp_all add: defs)
  next
    case rw
    with Role show ?thesis by (cases ob) (simp_all add: defs)
  next
    case other
    with Role show ?thesis by (cases ob) (simp_all add: defs)
  qed
qed

lemma replay_schemas:
  assumes "ReadOnlyRole a \<noteq> ReadWriteRole a"
  shows "replay (concat (map (schema_statements a) ss)) A g ob =
    (if \<exists>s \<in> set ss. ob \<in> objects a s then settled a g ob (A g ob) else A g ob)"
proof (induction ss arbitrary: A)
  case Nil
  then show ?case by simp
next
  case (Cons s ss)
  then show ?case by (simp add: replay_schema_statements [OF assms])
qed

lemma replay_database_statements:
  "replay (database_statements a) A g ob =
     (if ob = OnDatabase (Database a) \<and> (g = Role (ReadOnlyRole a) \<or> g = Role (ReadWriteRole a))
      then {Connect} else A g ob)"
  by (cases g; cases "g = Role (ReadOnlyRole a)"; cases "g = Role (ReadWriteRole a)"; cases "ob = OnDatabase (Database a)")
    (simp_all add: database_statements_def)

lemma replay_installed:
  assumes "ReadOnlyRole a \<noteq> ReadWriteRole a"
  shows "replay (concat (map (schema_statements a) (Schemas a))) (replay (database_statements a) A) = installed a A"
proof (intro ext)
  fix g ob
  show "replay (concat (map (schema_statements a) (Schemas a))) (replay (database_statements a) A) g ob
      = installed a A g ob"
    using assms
    by (cases g; cases ob)
      (auto simp: replay_schemas [OF assms] replay_database_statements objects_def installed_def settled_def)
qed

lemma operation_role_trace:
  assumes "keeps (issues role_statement) f" "f t = (r, t')"
  obtains sts where "issued t' = issued t @ sts" "list_all role_statement sts"
  using keepsD [OF assms] by (auto simp: issues_def)

lemma keeps_role_part:
  "keeps (issues role_statement) (onlyIf b (ensureGroupRole S r))"
  "keeps (issues role_statement) (onlyIf b (andThen (validateReaderRoles S a) (reconcileRuntimeRoleMemberships S m rs)))"
  "keeps (issues role_statement) (onlyIf b (reconcileRuntimeRoleMemberships S m rs))"
  "keeps (issues role_statement) (onlyIf b (andThen (reconcileExternalPrincipals S g ps) (reconcileExternalPrincipals S g' ps')))"
  by (auto intro!: keeps_onlyIf keeps_andThen keeps_validateReaderRoles group_role.operation_widens
      delegated.operation_widens principals.operation_widens intro: role_statements)

lemma reconcile_steps_stages:
  assumes "reconcile_steps S a t = (None, t')"
  obtains t1 t2 t3 t4 t5 t6 where
    "onlyIf (access_AuthMode a = AuthModeExternalIdentity) (ensureGroupRole S (ReadOnlyRole a)) t = (None, t1)"
    "onlyIf (access_AuthMode a = AuthModeExternalIdentity) (ensureGroupRole S (ReadWriteRole a)) t1 = (None, t2)"
    "each (exec S) (database_statements a) t2 = (None, t3)"
    "each (\<lambda>s. each (exec S) (schema_statements a s)) (Schemas a) t3 = (None, t4)"
    "onlyIf (ReconcileReadOnlyRoleMemberships a) (andThen (validateReaderRoles S a)
           (reconcileRuntimeRoleMemberships S (ReadOnlyRole a) (ReadOnlyRoles a))) t4 = (None, t5)"
    "onlyIf (ReconcileReadWriteRoleMemberships a)
        (reconcileRuntimeRoleMemberships S (ReadWriteRole a) (ReadWriteRoles a)) t5 = (None, t6)"
    "onlyIf (access_AuthMode a = AuthModeExternalIdentity)
        (andThen (reconcileExternalPrincipals S (ReadOnlyRole a) (ReadOnlyPrincipals a))
           (reconcileExternalPrincipals S (ReadWriteRole a) (ReadWritePrincipals a))) t6 = (None, t')"
  using assms unfolding reconcile_steps_def Let_def andThen_None by blast

lemma reconcile_steps_issued:
  assumes "reconcile_steps S a t = (None, t')"
  obtains pre post where
    "issued t' = issued t @ pre @ database_statements a @ concat (map (schema_statements a) (Schemas a)) @ post"
    "list_all role_statement pre" "list_all role_statement post"
proof -
  from assms obtain t1 t2 t3 t4 t5 t6 where
    s: "onlyIf (access_AuthMode a = AuthModeExternalIdentity) (ensureGroupRole S (ReadOnlyRole a)) t = (None, t1)"
    "onlyIf (access_AuthMode a = AuthModeExternalIdentity) (ensureGroupRole S (ReadWriteRole a)) t1 = (None, t2)"
    "each (exec S) (database_statements a) t2 = (None, t3)"
    "each (\<lambda>s. each (exec S) (schema_statements a s)) (Schemas a) t3 = (None, t4)"
    "onlyIf (ReconcileReadOnlyRoleMemberships a) (andThen (validateReaderRoles S a)
           (reconcileRuntimeRoleMemberships S (ReadOnlyRole a) (ReadOnlyRoles a))) t4 = (None, t5)"
    "onlyIf (ReconcileReadWriteRoleMemberships a)
        (reconcileRuntimeRoleMemberships S (ReadWriteRole a) (ReadWriteRoles a)) t5 = (None, t6)"
    "onlyIf (access_AuthMode a = AuthModeExternalIdentity)
        (andThen (reconcileExternalPrincipals S (ReadOnlyRole a) (ReadOnlyPrincipals a))
           (reconcileExternalPrincipals S (ReadWriteRole a) (ReadWritePrincipals a))) t6 = (None, t')"
    by (rule reconcile_steps_stages)
  obtain x1 where x1: "issued t1 = issued t @ x1" "list_all role_statement x1"
    using keeps_role_part(1) s(1) by (rule operation_role_trace)
  obtain x2 where x2: "issued t2 = issued t1 @ x2" "list_all role_statement x2"
    using keeps_role_part(1) s(2) by (rule operation_role_trace)
  obtain x5 where x5: "issued t5 = issued t4 @ x5" "list_all role_statement x5"
    using keeps_role_part(2) s(5) by (rule operation_role_trace)
  obtain x6 where x6: "issued t6 = issued t5 @ x6" "list_all role_statement x6"
    using keeps_role_part(3) s(6) by (rule operation_role_trace)
  obtain x7 where x7: "issued t' = issued t6 @ x7" "list_all role_statement x7"
    using keeps_role_part(4) s(7) by (rule operation_role_trace)
  show thesis
    by (rule that [of "x1 @ x2" "x5 @ x6 @ x7"])
      (use x1 x2 x5 x6 x7 each_exec_issued [OF s(3)] each_each_exec_issued [OF s(4)] in auto)
qed

lemma ReconcileRuntimeAccess_steps:
  assumes "ReconcileRuntimeAccess S ctx (Some t) a = (r, Some t')"
  shows "t' = t \<and> r \<noteq> None \<or> validateRuntimeAccess a = None \<and> reconcile_steps S a t = (r, t')"
  using assms by (auto simp: ReconcileRuntimeAccess_def split: option.splits prod.splits)

lemma validateRuntimeAccess_None:
  assumes "validateRuntimeAccess a = None"
  shows "ReadOnlyRole a \<noteq> ReadWriteRole a" "Schemas a \<noteq> []"
    "ReadWriteRoles a \<noteq> [] \<Longrightarrow> ReconcileReadWriteRoleMemberships a"
    "ReadOnlyRoles a \<noteq> [] \<Longrightarrow> ReconcileReadOnlyRoleMemberships a"
  using assms by (auto simp: validateRuntimeAccess_def split: option.splits if_splits)

section \<open>Lemmas on memberships and attributes\<close>

lemma exec_members:
  assumes "membership_laws S creator mem" "exec S st t = (None, t')"
  shows "case st of
       GrantRole r m \<Rightarrow> mem (db t') = insert (r, m) (mem (db t))
     | RevokeRole r m \<Rightarrow> mem (db t') = mem (db t) - {(r, m)}
     | CreateRole r \<Rightarrow> mem (db t) \<subseteq> mem (db t') \<and> mem (db t') \<subseteq> insert (r, creator) (mem (db t))
     | _ \<Rightarrow> mem (db t') = mem (db t)"
  using assms by (auto simp: exec_None membership_laws_def)

lemma each_revoke_members:
  assumes "membership_laws S creator mem"
  shows "each (\<lambda>x. exec S (RevokeRole (f x) (g x))) xs t = (None, t')
    \<Longrightarrow> mem (db t') = mem (db t) - (\<lambda>x. (f x, g x)) ` set xs"
proof (induction xs arbitrary: t)
  case Nil
  then show ?case by (simp add: act_simps)
next
  case (Cons x xs)
  then obtain u where u: "exec S (RevokeRole (f x) (g x)) t = (None, u)"
    and rest: "each (\<lambda>x. exec S (RevokeRole (f x) (g x))) xs u = (None, t')"
    by (auto simp: andThen_None)
  from exec_members [OF assms u] have "mem (db u) = mem (db t) - {(f x, g x)}" by simp
  with Cons.IH [OF rest] show ?case by auto
qed

lemma grant_configured_None:
  assumes "grant_configured S m r t = (None, t')"
  obtains at where "RoleAttributes S r (db t) = Inr (Some at)" "\<not> elevated at"
    "exec S (GrantRole r m) t = (None, t')"
  using assms by (auto simp: grant_configured_def query_None fail_with_eq split: option.splits if_splits)

lemma each_grant_members:
  assumes "membership_laws S creator mem"
  shows "each (grant_configured S m) rs t = (None, t')
    \<Longrightarrow> mem (db t') = mem (db t) \<union> (\<lambda>r. (r, m)) ` set rs"
proof (induction rs arbitrary: t)
  case Nil
  then show ?case by (simp add: act_simps)
next
  case (Cons r rs)
  then obtain u where u: "grant_configured S m r t = (None, u)"
    and rest: "each (grant_configured S m) rs u = (None, t')"
    by (auto simp: andThen_None)
  from u have "exec S (GrantRole r m) t = (None, u)" by (rule grant_configured_None)
  from exec_members [OF assms this] have "mem (db u) = insert (r, m) (mem (db t))" by simp
  with Cons.IH [OF rest] show ?case by auto
qed

lemma delegated_members:
  assumes laws: "membership_laws S creator mem" and ok: "reconcileRuntimeRoleMemberships S m rs t = (None, t')"
  shows "mem (db t') = {p \<in> mem (db t). snd p \<noteq> m} \<union> (\<lambda>r. (r, m)) ` set rs"
proof -
  from ok obtain cur u where cur: "RolesOf S m (db t) = Inr cur"
    and rev: "each (\<lambda>role. exec S (RevokeRole role m)) cur t = (None, u)"
    and gr: "each (grant_configured S m) rs u = (None, t')"
    by (auto simp: reconcileRuntimeRoleMemberships_def act_simps)
  have "set cur = {r. (r, m) \<in> mem (db t)}" using laws cur by (auto simp: membership_laws_def)
  then show ?thesis
    using each_revoke_members [OF laws, of "\<lambda>x. x" "\<lambda>_. m", OF rev] each_grant_members [OF laws gr] by auto
qed

lemma grant_principals_members:
  assumes "membership_laws S creator mem"
  shows "grant_principals S grp current ps t = (None, t')
    \<Longrightarrow> mem (db t') = mem (db t) \<union> (\<lambda>p. (grp, p)) ` (set ps - set current)"
proof (induction ps arbitrary: current t)
  case Nil
  then show ?case by (simp add: act_simps)
next
  case (Cons p ps)
  show ?case
  proof (cases "p \<in> set current")
    case True
    with Cons.prems Cons.IH [of current t] show ?thesis by (simp add: insert_Diff_if)
  next
    case False
    with Cons.prems obtain u where u: "exec S (GrantRole grp p) t = (None, u)"
      and rest: "grant_principals S grp (p # current) ps u = (None, t')"
      by (auto simp: act_simps split: if_splits)
    from exec_members [OF assms u] have "mem (db u) = insert (grp, p) (mem (db t))" by simp
    with Cons.IH [OF rest] False show ?thesis by auto
  qed
qed

lemma principals_members:
  assumes laws: "membership_laws S creator mem" and ok: "reconcileExternalPrincipals S grp ps t = (None, t')"
  shows "mem (db t') = {p \<in> mem (db t). fst p \<noteq> grp} \<union> (\<lambda>p. (grp, p)) ` set ps"
proof -
  from ok obtain rows u where rows: "MembersOf S grp (db t) = Inr rows"
    and rev: "each (\<lambda>x. exec S (RevokeRole grp x)) (filter (\<lambda>x. x \<notin> set ps) (dedup_seen [] rows)) t = (None, u)"
    and gr: "grant_principals S grp (dedup_seen [] rows) ps u = (None, t')"
    by (auto simp: reconcileExternalPrincipals_def Let_def act_simps)
  have "set rows = {m. (grp, m) \<in> mem (db t)}" using laws rows by (auto simp: membership_laws_def)
  then show ?thesis
    using each_revoke_members [OF laws, of "\<lambda>_. grp" "\<lambda>x. x", OF rev] grant_principals_members [OF laws gr]
    by auto
qed

text \<open>Steps that leave memberships, or attributes, of everything outside a set alone.\<close>

definition same_members :: "('db \<Rightarrow> (string \<times> string) set) \<Rightarrow> 'db tx \<Rightarrow> 'db tx \<Rightarrow> bool" where
  "same_members mem t t' \<longleftrightarrow> mem (db t') = mem (db t)"

definition same_attributes :: "('db \<Rightarrow> string \<Rightarrow> attributes option) \<Rightarrow> 'db tx \<Rightarrow> 'db tx \<Rightarrow> bool" where
  "same_attributes attrs t t' \<longleftrightarrow> attrs (db t') = attrs (db t)"

lemma same_preorder [simp]:
  "reflp (same_members mem)" "transp (same_members mem)"
  "reflp (same_attributes attrs)" "transp (same_attributes attrs)"
  by (auto simp: same_members_def same_attributes_def reflp_def transp_def)

lemma ensures_query: "(\<And>a. ensures R (k a)) \<Longrightarrow> ensures R (query f k)"
  by (auto simp: ensures_def query_None)

lemma plain_statements:
  "st \<in> set (database_statements a) \<Longrightarrow> \<not> role_statement st"
  "st \<in> set (schema_statements a s) \<Longrightarrow> \<not> role_statement st"
  by (auto simp: database_statements_def schema_statements_def Let_def split: if_splits)

lemma plain_members:
  assumes "membership_laws S creator mem"
  shows "ensures (same_members mem) (each (exec S) (database_statements a))"
    "ensures (same_members mem) (each (\<lambda>s. each (exec S) (schema_statements a s)) ss)"
proof -
  have "ensures (same_members mem) (exec S st)" if "\<not> role_statement st" for st
    using exec_members [OF assms] that unfolding ensures_def same_members_def by (cases st) fastforce+
  then show "ensures (same_members mem) (each (exec S) (database_statements a))"
    "ensures (same_members mem) (each (\<lambda>s. each (exec S) (schema_statements a s)) ss)"
    by (auto intro!: ensures_each dest: plain_statements)
qed

lemma reader_check_keeps_all: "keeps (=) (validateReaderRoles S a)"
  unfolding validateReaderRoles_def
  by (auto simp: reflp_def transp_def intro!: keeps_query keeps_each keeps_fail keeps_done)

lemma exec_attributes:
  assumes "attribute_laws S attrs" "exec S st t = (None, t')"
  shows "case st of
       AlterRole r c \<Rightarrow> attrs (db t') = (attrs (db t))(r := map_option (alter_attributes c) (attrs (db t) r))
     | CreateRole r \<Rightarrow> (\<forall>r'. r' \<noteq> r \<longrightarrow> attrs (db t') r' = attrs (db t) r')
     | _ \<Rightarrow> attrs (db t') = attrs (db t)"
  using assms by (auto simp: exec_None attribute_laws_def)

definition unprivileged :: attributes where
  "unprivileged = \<lparr>canLogin = False, superuser = False, createDB = False, createRole = False,
     inherits = False, replication = False, bypassRLS = False\<rparr>"

lemma fold_group_changes: "fold clear_attribute (group_changes at) at = unprivileged"
  by (cases at) (simp add: group_changes_def clear_attribute_def unprivileged_def)

lemma group_role_attributes:
  assumes laws: "attribute_laws S attrs" and ok: "ensureGroupRole S r t = (None, t')"
  shows "attrs (db t') r = Some unprivileged \<and> (\<forall>r'. r' \<noteq> r \<longrightarrow> attrs (db t') r' = attrs (db t) r')"
proof -
  from ok obtain ex u at where u: "onlyIf (\<not> ex) (exec S (CreateRole r)) t = (None, u)"
    and row: "RoleAttributes S r (db u) = Inr (Some at)"
    and alter: "onlyIf (group_changes at \<noteq> []) (exec S (AlterRole r (WithAttributes (group_changes at)))) u = (None, t')"
    by (auto simp: ensureGroupRole_def query_None andThen_None fail_with_eq split: option.splits)
  have other: "attrs (db u) r' = attrs (db t) r'" if "r' \<noteq> r" for r'
    using u that by (auto simp: onlyIf_eq split: if_splits dest!: exec_attributes [OF laws])
  have at: "attrs (db u) r = Some at" using laws row by (auto simp: attribute_laws_def)
  show ?thesis
  proof (cases "group_changes at = []")
    case True
    then have "at = unprivileged" using fold_group_changes [of at] by simp
    with True alter at other show ?thesis by (auto simp: onlyIf_eq)
  next
    case False
    with alter have "exec S (AlterRole r (WithAttributes (group_changes at))) u = (None, t')"
      by (simp add: onlyIf_eq)
    from exec_attributes [OF laws this] at other show ?thesis
      by (simp add: alter_attributes_def fold_group_changes)
  qed
qed

text \<open>Statements that are neither CREATE ROLE nor ALTER ROLE keep every attribute.\<close>

fun keeps_attributes :: "sql \<Rightarrow> bool" where
  "keeps_attributes (CreateRole r) = False"
| "keeps_attributes (AlterRole r c) = False"
| "keeps_attributes _ = True"

lemma exec_keeps_attributes:
  "attribute_laws S attrs \<Longrightarrow> keeps_attributes st \<Longrightarrow> exec S st t = (None, t') \<Longrightarrow> attrs (db t') = attrs (db t)"
  by (drule (1) exec_attributes) (cases st; simp)

lemma exec_same_attributes:
  "attribute_laws S attrs \<Longrightarrow> keeps_attributes st \<Longrightarrow> ensures (same_attributes attrs) (exec S st)"
  by (auto simp: ensures_def same_attributes_def dest: exec_keeps_attributes)

lemma same_attributes_steps:
  assumes "attribute_laws S attrs"
  shows "ensures (same_attributes attrs) (each (exec S) (database_statements a))"
    "ensures (same_attributes attrs) (each (\<lambda>s. each (exec S) (schema_statements a s)) ss)"
    "ensures (same_attributes attrs) (reconcileRuntimeRoleMemberships S m rs)"
    "ensures (same_attributes attrs) (grant_configured S m r)"
    "ensures (same_attributes attrs) (reconcileExternalPrincipals S grp ps)"
proof -
  have k: "st \<in> set (database_statements a) \<or> st \<in> set (schema_statements a s) \<Longrightarrow> keeps_attributes st" for st s
    using plain_statements [of st a] by (cases st) auto
  show "ensures (same_attributes attrs) (each (exec S) (database_statements a))"
    "ensures (same_attributes attrs) (each (\<lambda>s. each (exec S) (schema_statements a s)) ss)"
    using k by (auto intro!: ensures_each exec_same_attributes [OF assms])
  show g: "ensures (same_attributes attrs) (grant_configured S m r)" for r
    by (auto simp: grant_configured_def split: option.splits
        intro!: ensures_query exec_same_attributes [OF assms])
  then show "ensures (same_attributes attrs) (reconcileRuntimeRoleMemberships S m rs)"
    by (auto simp: reconcileRuntimeRoleMemberships_def
        intro!: ensures_query ensures_andThen ensures_each exec_same_attributes [OF assms])
  have "ensures (same_attributes attrs) (grant_principals S grp cur ps)" for cur
    by (induction ps arbitrary: cur)
      (auto intro!: ensures_query ensures_andThen exec_same_attributes [OF assms])
  then show "ensures (same_attributes attrs) (reconcileExternalPrincipals S grp ps)"
    by (auto simp: reconcileExternalPrincipals_def Let_def
        intro!: ensures_query ensures_andThen ensures_each exec_same_attributes [OF assms])
qed

lemma each_grant_safe:
  assumes laws: "attribute_laws S attrs"
  shows "each (grant_configured S m) rs t = (None, t') \<Longrightarrow> r \<in> set rs
    \<Longrightarrow> \<exists>at. attrs (db t') r = Some at \<and> \<not> elevated at"
proof (induction rs arbitrary: t)
  case Nil
  then show ?case by simp
next
  case (Cons x rs)
  then obtain u where u: "grant_configured S m x t = (None, u)"
    and rest: "each (grant_configured S m) rs u = (None, t')"
    by (auto simp: andThen_None)
  obtain at where at: "RoleAttributes S x (db t) = Inr (Some at)" "\<not> elevated at"
    using u by (rule grant_configured_None)
  have "attrs (db t) x = Some at" using laws at by (auto simp: attribute_laws_def)
  moreover have "attrs (db u) = attrs (db t)"
    using ensuresD [OF same_attributes_steps(4) [OF laws] u] by (simp add: same_attributes_def)
  moreover have "attrs (db t') = attrs (db u)"
    using ensuresD [OF ensures_each [OF _ _ same_attributes_steps(4) [OF laws]] rest]
    by (simp add: same_attributes_def)
  ultimately show ?case using Cons at(2) rest by (cases "r = x") auto
qed

lemma delegated_safe:
  assumes laws: "attribute_laws S attrs" and ok: "reconcileRuntimeRoleMemberships S m rs t = (None, t')"
    and r: "r \<in> set rs"
  shows "\<exists>at. attrs (db t') r = Some at \<and> \<not> elevated at"
  using ok each_grant_safe [OF laws _ r]
  by (auto simp: reconcileRuntimeRoleMemberships_def query_None andThen_None)

lemma ReconcileRuntimeAccess_None:
  assumes "ReconcileRuntimeAccess S ctx (Some t) a = (None, Some t')"
  shows "validateRuntimeAccess a = None" "reconcile_steps S a t = (None, t')"
  using ReconcileRuntimeAccess_steps [OF assms] by auto

lemma delegated_roles_core:
  assumes laws: "membership_laws S creator mem"
    and run: "ReconcileRuntimeAccess S ctx (Some t) a = (None, Some t')"
    and mode: "access_AuthMode a \<noteq> AuthModeExternalIdentity" "ReconcileReadWriteRoleMemberships a"
  shows "{r. (r, ReadWriteRole a) \<in> mem (db t')} = set (ReadWriteRoles a)
    \<and> {r. (r, ReadOnlyRole a) \<in> mem (db t')} =
        (if ReconcileReadOnlyRoleMemberships a then set (ReadOnlyRoles a)
         else {r. (r, ReadOnlyRole a) \<in> mem (db t)})
    \<and> (\<forall>r m. m \<notin> {ReadOnlyRole a, ReadWriteRole a} \<longrightarrow> (r, m) \<in> mem (db t') \<longleftrightarrow> (r, m) \<in> mem (db t))"
proof -
  note ok = ReconcileRuntimeAccess_None [OF run]
  have ne: "ReadOnlyRole a \<noteq> ReadWriteRole a" by (rule validateRuntimeAccess_None [OF ok(1)])
  obtain t3 t4 t5 where s: "each (exec S) (database_statements a) t = (None, t3)"
    "each (\<lambda>s. each (exec S) (schema_statements a s)) (Schemas a) t3 = (None, t4)"
    "onlyIf (ReconcileReadOnlyRoleMemberships a) (andThen (validateReaderRoles S a)
           (reconcileRuntimeRoleMemberships S (ReadOnlyRole a) (ReadOnlyRoles a))) t4 = (None, t5)"
    "reconcileRuntimeRoleMemberships S (ReadWriteRole a) (ReadWriteRoles a) t5 = (None, t')"
    using ok(2) mode by (elim reconcile_steps_stages) (simp add: onlyIf_eq)
  have m4: "mem (db t4) = mem (db t)"
    using ensuresD [OF plain_members(1) [OF laws] s(1)] ensuresD [OF plain_members(2) [OF laws] s(2)]
    by (simp add: same_members_def)
  have m5: "mem (db t5) = (if ReconcileReadOnlyRoleMemberships a
      then {p \<in> mem (db t). snd p \<noteq> ReadOnlyRole a} \<union> (\<lambda>r. (r, ReadOnlyRole a)) ` set (ReadOnlyRoles a)
      else mem (db t))"
  proof (cases "ReconcileReadOnlyRoleMemberships a")
    case True
    with s(3) obtain u where u: "validateReaderRoles S a t4 = (None, u)"
      and d: "reconcileRuntimeRoleMemberships S (ReadOnlyRole a) (ReadOnlyRoles a) u = (None, t5)"
      by (auto simp: onlyIf_eq andThen_None)
    from keepsD [OF reader_check_keeps_all u] have "t4 = u" .
    with delegated_members [OF laws d] True m4 show ?thesis by simp
  next
    case False
    with s(3) m4 show ?thesis by (simp add: onlyIf_eq)
  qed
  show ?thesis
    using delegated_members [OF laws s(4)] ne unfolding m5 by auto
qed

section \<open>Properties\<close>

text \<open>
  C1: whenever a reconciliation succeeds, replaying the statements it issued on any access control
  lists gives exactly the declared policy: CONNECT on the database and USAGE on each schema, SELECT
  for the reader unless reader roles are delegated, DML and sequence use for the writer only when
  no roles are delegated, the same as default privileges of the owner, no CREATE for PUBLIC, and
  every other entry as it was.
\<close>

theorem reconcile_installs_policy:
  assumes "ReconcileRuntimeAccess S ctx (Some t) a = (None, Some t')"
  shows "\<exists>sts. issued t' = issued t @ sts \<and> (\<forall>A. replay sts A = installed a A)"
proof -
  from ReconcileRuntimeAccess_steps [OF assms] have v: "validateRuntimeAccess a = None"
    and s: "reconcile_steps S a t = (None, t')" by auto
  obtain pre post where tr: "issued t' = issued t @ pre @ database_statements a
      @ concat (map (schema_statements a) (Schemas a)) @ post"
    and role: "list_all role_statement pre" "list_all role_statement post"
    using reconcile_steps_issued [OF s] .
  show ?thesis
    by (rule exI, rule conjI, rule tr)
      (simp add: role replay_role_statements replay_installed [OF validateRuntimeAccess_None(1) [OF v]])
qed

lemmas sample_run_defs = reconcile_steps_def andThen_def onlyIf_def done_ok_def fail_with_def query_def
  exec_def sample_server_def sample_tx_def database_statements_def schema_statements_def
  validateReaderRoles_def reconcileRuntimeRoleMemberships_def grant_configured_def
  reconcileExternalPrincipals_def ensureGroupRole_def AuthModeExternalIdentity_def Let_def
  sample_access_def sample_external_def elevated_def fresh_role_def group_changes_def
  alter_attributes_def clear_attribute_def

lemma sample_run:
  "fst (ReconcileRuntimeAccess sample_server (Some ()) (Some sample_tx) sample_access) = None"
  "fst (ReconcileRuntimeAccess sample_server (Some ()) (Some sample_tx) sample_external) = None"
proof -
  have b: "\<not> blank s" if "s \<noteq> []" "list_all is_graph s" for s
    using that by (simp add: blank_iff_not_graph)
  have nb: "\<not> blank ''orders''" "\<not> blank ''owner''" "\<not> blank ''ro''" "\<not> blank ''rw''" "\<not> blank ''public''"
    "\<not> blank ''u1''" "\<not> blank ''u2''"
    by (rule b; simp add: is_graph_def)+
  have v: "validateRuntimeAccess sample_access = None" "validateRuntimeAccess sample_external = None"
    by (simp_all add: validateRuntimeAccess_def required_fields_def sample_access_def sample_external_def nb
        AuthModePassword_def AuthModeExternalIdentity_def)
  have r: "fst (reconcile_steps sample_server sample_access sample_tx) = None"
     "fst (reconcile_steps sample_server sample_external sample_tx) = None"
    by (simp_all add: sample_run_defs)
  show "fst (ReconcileRuntimeAccess sample_server (Some ()) (Some sample_tx) sample_access) = None"
    "fst (ReconcileRuntimeAccess sample_server (Some ()) (Some sample_tx) sample_external) = None"
    using v r by (simp_all add: ReconcileRuntimeAccess_def case_prod_unfold)
qed

lemma ReconcileRuntimeAccess_tx:
  "\<exists>r t'. ReconcileRuntimeAccess S ctx (Some t) a = (r, Some t')"
  by (auto simp: ReconcileRuntimeAccess_def split: option.splits prod.splits)

lemma sample_runs:
  obtains t1 t2 where
    "ReconcileRuntimeAccess sample_server (Some ()) (Some sample_tx) sample_access = (None, Some t1)"
    "ReconcileRuntimeAccess sample_server (Some ()) (Some sample_tx) sample_external = (None, Some t2)"
proof -
  obtain r1 t1 r2 t2 where
    1: "ReconcileRuntimeAccess sample_server (Some ()) (Some sample_tx) sample_access = (r1, Some t1)" and
    2: "ReconcileRuntimeAccess sample_server (Some ()) (Some sample_tx) sample_external = (r2, Some t2)"
    using ReconcileRuntimeAccess_tx by metis
  then have "r1 = None" "r2 = None" using sample_run by simp_all
  with 1 2 show thesis using that by blast
qed

lemma sample_laws:
  "membership_laws sample_server [] (\<lambda>d. set (sample_members d))"
  "attribute_laws sample_server (\<lambda>d. map_of (sample_roles_of d))"
proof -
  show "membership_laws sample_server [] (\<lambda>d. set (sample_members d))"
    unfolding membership_laws_def sample_server_def
    by (intro conjI) (auto elim!: sample_exec.elims split: sql.splits, force+)
  have alter: "map_of (map (\<lambda>(n, at). (n, if n = r then f at else at)) xs) =
      (map_of xs)(r := map_option f (map_of xs r))" for r f and xs :: "(string \<times> attributes) list"
    by (induction xs) (auto simp: fun_eq_iff)
  show "attribute_laws sample_server (\<lambda>d. map_of (sample_roles_of d))"
    unfolding attribute_laws_def sample_server_def
    by (auto elim!: sample_exec.elims split: sql.splits simp: alter)
qed

theorem reconcile_installs_policy_witness:
  "\<exists>t'. ReconcileRuntimeAccess sample_server (Some ()) (Some sample_tx) sample_access = (None, Some t')
     \<and> (\<forall>A. replay (issued t') A (Role ''rw'') (OnTables ''public'') = {}
          \<and> replay (issued t') A (Role ''ro'') (OnTables ''public'') = {Select})"
proof -
  obtain t1 t2 where run: "ReconcileRuntimeAccess sample_server (Some ()) (Some sample_tx) sample_access = (None, Some t1)"
    by (rule sample_runs)
  from reconcile_installs_policy [OF run] have "\<forall>A. replay (issued t1) A = installed sample_access A"
    by (simp add: sample_tx_def)
  with run show ?thesis by (simp add: installed_def sample_access_def table_policy_def)
qed

text \<open>
  C2: whatever the server answers and wherever a reconciliation stops, it has issued only
  statements of its own authority: no privilege beyond the declared policy is ever granted, no
  password or login attribute is set, roles are granted only between the managed principals and
  the roles the request configures, and role attributes are only ever cleared.
\<close>

theorem reconcile_least_authority:
  assumes "ReconcileRuntimeAccess S ctx (Some t) a = (r, Some t')"
  shows "\<exists>sts. issued t' = issued t @ sts \<and> list_all (role_authority a) sts
    \<and> (\<forall>A g ob. replay sts A g ob \<subseteq> A g ob \<union> (case wanted a g ob of Some ps \<Rightarrow> ps | None \<Rightarrow> {}))"
proof -
  consider "t' = t" | "validateRuntimeAccess a = None" "reconcile_steps S a t = (r, t')"
    using ReconcileRuntimeAccess_steps [OF assms] by auto
  then show ?thesis
  proof cases
    case 1
    then show ?thesis by (intro exI [of _ "[]"]) simp
  next
    case 2
    have "issues (within a) t t'"
      by (rule keepsD [OF keeps_reconcile_steps 2(2)]) (rule validateRuntimeAccess_None(1) [OF 2(1)])
    then obtain sts where "issued t' = issued t @ sts" "list_all (within a) sts"
      by (auto simp: issues_def)
    then show ?thesis
      using replay_within by (intro exI [of _ sts]) (auto simp: within_def list_all_iff)
  qed
qed

theorem reconcile_least_authority_witness:
  "\<exists>t'. ReconcileRuntimeAccess sample_server (Some ()) (Some sample_tx) sample_external = (None, Some t')
     \<and> list_all (role_authority sample_external) (issued t')"
proof -
  obtain t1 t2 where run: "ReconcileRuntimeAccess sample_server (Some ()) (Some sample_tx) sample_external = (None, Some t2)"
    by (rule sample_runs)
  from reconcile_least_authority [OF run] run show ?thesis by (auto simp: sample_tx_def)
qed

text \<open>
  On a server that does for memberships what PostgreSQL documents, a successful password-mode
  reconciliation leaves the writer a member of exactly the configured roles, the reader a member of
  exactly its delegated roles when reader delegation is on and of what it was before when it is
  off, and every other role's memberships untouched, whatever they were.
\<close>

theorem delegated_roles_exact:
  assumes laws: "membership_laws S creator mem"
    and run: "ReconcileRuntimeAccess S ctx (Some t) a = (None, Some t')"
    and mode: "access_AuthMode a \<noteq> AuthModeExternalIdentity" "ReconcileReadWriteRoleMemberships a"
  shows "{r. (r, ReadWriteRole a) \<in> mem (db t')} = set (ReadWriteRoles a)
    \<and> {r. (r, ReadOnlyRole a) \<in> mem (db t')} =
        (if ReconcileReadOnlyRoleMemberships a then set (ReadOnlyRoles a)
         else {r. (r, ReadOnlyRole a) \<in> mem (db t)})
    \<and> (\<forall>r m. m \<notin> {ReadOnlyRole a, ReadWriteRole a} \<longrightarrow> (r, m) \<in> mem (db t') \<longleftrightarrow> (r, m) \<in> mem (db t))"
  by (rule delegated_roles_core [OF assms])

theorem delegated_roles_exact_witness:
  "\<exists>t'. ReconcileRuntimeAccess sample_server (Some ()) (Some sample_tx) sample_access = (None, Some t')
     \<and> {r. (r, ''rw'') \<in> set (sample_members (db t'))} = {''app''}"
proof -
  obtain t1 t2 where run: "ReconcileRuntimeAccess sample_server (Some ()) (Some sample_tx) sample_access = (None, Some t1)"
    by (rule sample_runs)
  from delegated_roles_exact [OF sample_laws(1) run] run show ?thesis
    by (simp add: sample_access_def AuthModeExternalIdentity_def)
qed

text \<open>
  In external-identity mode a successful reconciliation makes the members of each group role
  exactly the configured principals: former members are revoked and new ones granted.
\<close>

theorem external_principals_exact:
  assumes laws: "membership_laws S creator mem"
    and run: "ReconcileRuntimeAccess S ctx (Some t) a = (None, Some t')"
    and mode: "access_AuthMode a = AuthModeExternalIdentity"
  shows "{m. (ReadOnlyRole a, m) \<in> mem (db t')} = set (ReadOnlyPrincipals a)
    \<and> {m. (ReadWriteRole a, m) \<in> mem (db t')} = set (ReadWritePrincipals a)"
proof -
  note ok = ReconcileRuntimeAccess_None [OF run]
  have ne: "ReadOnlyRole a \<noteq> ReadWriteRole a" by (rule validateRuntimeAccess_None [OF ok(1)])
  obtain t6 t7 where
    s: "reconcileExternalPrincipals S (ReadOnlyRole a) (ReadOnlyPrincipals a) t6 = (None, t7)"
    "reconcileExternalPrincipals S (ReadWriteRole a) (ReadWritePrincipals a) t7 = (None, t')"
    using ok(2) mode by (elim reconcile_steps_stages) (auto simp: onlyIf_eq andThen_None)
  show ?thesis
    using principals_members [OF laws s(2)] principals_members [OF laws s(1)] ne by auto
qed

theorem external_principals_exact_witness:
  "\<exists>t'. ReconcileRuntimeAccess sample_server (Some ()) (Some sample_tx) sample_external = (None, Some t')
     \<and> {m. (''rw'', m) \<in> set (sample_members (db t'))} = {''u2''}"
proof -
  obtain t1 t2 where run: "ReconcileRuntimeAccess sample_server (Some ()) (Some sample_tx) sample_external = (None, Some t2)"
    by (rule sample_runs)
  from external_principals_exact [OF sample_laws(1) run] run show ?thesis
    by (simp add: sample_external_def AuthModeExternalIdentity_def)
qed

text \<open>
  After a successful reconciliation every delegated role exists and is NOLOGIN, NOSUPERUSER,
  NOCREATEDB and NOCREATEROLE, and in external-identity mode both group roles exist with every
  guarded attribute cleared, whatever attributes they had before.
\<close>

theorem reconciled_roles_unprivileged:
  assumes laws: "attribute_laws S attrs"
    and run: "ReconcileRuntimeAccess S ctx (Some t) a = (None, Some t')"
  shows "(\<forall>r \<in> set (ReadWriteRoles a) \<union> set (ReadOnlyRoles a). \<exists>at. attrs (db t') r = Some at \<and> \<not> elevated at)
    \<and> (access_AuthMode a = AuthModeExternalIdentity \<longrightarrow>
        attrs (db t') (ReadOnlyRole a) = Some unprivileged \<and> attrs (db t') (ReadWriteRole a) = Some unprivileged)"
proof -
  note ok = ReconcileRuntimeAccess_None [OF run]
  note v = validateRuntimeAccess_None [OF ok(1)]
  note same = same_attributes_steps [OF laws]
  obtain t1 t2 t3 t4 t5 t6 where
    s: "onlyIf (access_AuthMode a = AuthModeExternalIdentity) (ensureGroupRole S (ReadOnlyRole a)) t = (None, t1)"
    "onlyIf (access_AuthMode a = AuthModeExternalIdentity) (ensureGroupRole S (ReadWriteRole a)) t1 = (None, t2)"
    "each (exec S) (database_statements a) t2 = (None, t3)"
    "each (\<lambda>s. each (exec S) (schema_statements a s)) (Schemas a) t3 = (None, t4)"
    "onlyIf (ReconcileReadOnlyRoleMemberships a) (andThen (validateReaderRoles S a)
           (reconcileRuntimeRoleMemberships S (ReadOnlyRole a) (ReadOnlyRoles a))) t4 = (None, t5)"
    "onlyIf (ReconcileReadWriteRoleMemberships a)
        (reconcileRuntimeRoleMemberships S (ReadWriteRole a) (ReadWriteRoles a)) t5 = (None, t6)"
    "onlyIf (access_AuthMode a = AuthModeExternalIdentity)
        (andThen (reconcileExternalPrincipals S (ReadOnlyRole a) (ReadOnlyPrincipals a))
           (reconcileExternalPrincipals S (ReadWriteRole a) (ReadWritePrincipals a))) t6 = (None, t')"
    using ok(2) by (rule reconcile_steps_stages)
  have reader: "ensures (same_attributes attrs) (andThen (validateReaderRoles S a)
           (reconcileRuntimeRoleMemberships S (ReadOnlyRole a) (ReadOnlyRoles a)))"
    using reader_check_keeps_all [of S a] same(3)
    by (intro ensures_andThen) (auto simp: ensures_def same_attributes_def dest: keepsD)
  have at: "attrs (db t3) = attrs (db t2)" "attrs (db t4) = attrs (db t3)" "attrs (db t5) = attrs (db t4)"
    "attrs (db t6) = attrs (db t5)" "attrs (db t') = attrs (db t6)"
    using ensuresD [OF same(1) s(3)] ensuresD [OF same(2) s(4)] ensuresD [OF ensures_onlyIf [OF _ reader] s(5)]
      ensuresD [OF ensures_onlyIf [OF _ same(3)] s(6)]
      ensuresD [OF ensures_onlyIf [OF _ ensures_andThen [OF _ same(5) same(5)]] s(7)]
    by (simp_all add: same_attributes_def)
  have "\<exists>at. attrs (db t') r = Some at \<and> \<not> elevated at" if r: "r \<in> set (ReadWriteRoles a)" for r
  proof -
    have "ReadWriteRoles a \<noteq> []" using r by auto
    with s(6) v(3) have "reconcileRuntimeRoleMemberships S (ReadWriteRole a) (ReadWriteRoles a) t5 = (None, t6)"
      by (simp add: onlyIf_eq)
    from delegated_safe [OF laws this r] at(5) show ?thesis by simp
  qed
  moreover have "\<exists>at. attrs (db t') r = Some at \<and> \<not> elevated at" if r: "r \<in> set (ReadOnlyRoles a)" for r
  proof -
    have "ReadOnlyRoles a \<noteq> []" using r by auto
    with s(5) v(4) obtain u where
      "reconcileRuntimeRoleMemberships S (ReadOnlyRole a) (ReadOnlyRoles a) u = (None, t5)"
      by (auto simp: onlyIf_eq andThen_None)
    from delegated_safe [OF laws this r] at(4,5) show ?thesis by simp
  qed
  moreover have "attrs (db t') (ReadOnlyRole a) = Some unprivileged \<and> attrs (db t') (ReadWriteRole a) = Some unprivileged"
    if "access_AuthMode a = AuthModeExternalIdentity"
    using group_role_attributes [OF laws, of "ReadOnlyRole a" t t1]
      group_role_attributes [OF laws, of "ReadWriteRole a" t1 t2] s(1,2) that v(1) at
    by (auto simp: onlyIf_eq)
  ultimately show ?thesis by blast
qed

theorem reconciled_roles_unprivileged_witness:
  "\<exists>t'. ReconcileRuntimeAccess sample_server (Some ()) (Some sample_tx) sample_external = (None, Some t')
     \<and> map_of (sample_roles_of (db t')) ''ro'' = Some unprivileged"
proof -
  obtain t1 t2 where run: "ReconcileRuntimeAccess sample_server (Some ()) (Some sample_tx) sample_external = (None, Some t2)"
    by (rule sample_runs)
  from reconciled_roles_unprivileged [OF sample_laws(2) run] run show ?thesis
    by (simp add: sample_external_def AuthModeExternalIdentity_def)
qed

end
