(* ===== verification/Reconcile.thy ===== *)
theory Reconcile
  imports RuntimeAccess ControlPlane
begin

text \<open>
  The SQL half of \<open>runtime_access.go\<close>: the login principals the self-hosted runtime owns, their
  session defaults, and the one transaction in which \<open>ensureRuntimeAccessLocked\<close> takes the
  advisory lock, provisions the managed logins, reconciles their grants through the control-plane
  package and repeats that for every declared login. The connection pool and the transaction
  boundary are a parameter record \<open>cluster\<close> around the server of \<open>ControlPlane\<close>.
\<close>

section \<open>Login principals\<close>

definition login_attributes :: "attributes \<Rightarrow> string list" where
  "login_attributes at =
     [''LOGIN'', ''NOINHERIT'']
     @ map snd (filter fst
         [(superuser at, ''NOSUPERUSER''), (createDB at, ''NOCREATEDB''), (createRole at, ''NOCREATEROLE''),
          (replication at, ''NOREPLICATION''), (bypassRLS at, ''NOBYPASSRLS'')])"

definition ensureLoginRole :: "'db postgres \<Rightarrow> string \<Rightarrow> string \<Rightarrow> bool \<Rightarrow> (control_error, 'db tx) action" where
  "ensureLoginRole S role password readOnly =
     query (RoleExists S role) (\<lambda>exists.
       andThen (onlyIf (\<not> exists) (exec S (CreateRole role)))
         (query (RoleAttributes S role) (\<lambda>row. case row of
            None \<Rightarrow> fail_with (Sql no_rows)
          | Some at \<Rightarrow>
              andThen (exec S (AlterRole role (WithPassword (login_attributes at) password)))
                (if readOnly then exec S (SetReadOnly role) else exec S (ResetReadOnly role)))))"

definition ensureDefaultRole :: "'db postgres \<Rightarrow> string \<Rightarrow> string \<Rightarrow> (control_error, 'db tx) action" where
  "ensureDefaultRole S login role =
     (if role = [] then exec S (ResetRole login) else exec S (SetDefaultRole login role))"

section \<open>The reconciliation transaction\<close>

record 'db cluster =
  server :: "'db postgres"
  OpenDB :: "string \<Rightarrow> string option"
  BeginTx :: "'db \<Rightarrow> string option"
  Commit :: "'db tx \<Rightarrow> string option \<times> 'db"

datatype ensure_error =
    ExternalIdentityMode
  | BadSettings access_error
  | CannotOpen string
  | CannotBegin string
  | Step string control_error
  | CannotCommit string

text \<open>The call of \<open>pgcontrol.ReconcileRuntimeAccess\<close>, with the transaction the caller holds.\<close>

definition access_for :: "Service \<Rightarrow> string \<Rightarrow> string \<Rightarrow> string list \<Rightarrow> string list \<Rightarrow> RuntimeAccess" where
  "access_for s readOnlyRole readWriteRole schemas readWriteRoles =
     \<lparr>Database = DatabaseName (settings s), OwnerRole = postgresUser s,
      ReadOnlyRole = readOnlyRole, ReadWriteRole = readWriteRole, Schemas = schemas,
      ReadWriteRoles = readWriteRoles, ReadOnlyRoles = [],
      ReconcileReadOnlyRoleMemberships = False, ReconcileReadWriteRoleMemberships = True,
      access_AuthMode = [], ReadOnlyPrincipals = [], ReadWritePrincipals = []\<rparr>"

definition reconcile :: "'db postgres \<Rightarrow> RuntimeAccess \<Rightarrow> (control_error, 'db tx) action" where
  "reconcile S a t =
     (case ReconcileRuntimeAccess S (Some ()) (Some t) a of (r, t') \<Rightarrow> (r, case t' of Some u \<Rightarrow> u | None \<Rightarrow> t))"

definition wrapped :: "string \<Rightarrow> (control_error, 'db tx) action \<Rightarrow> (ensure_error, 'db tx) action" where
  "wrapped what f t = (case f t of (r, t') \<Rightarrow> (map_option (Step what) r, t'))"

definition ensure_login :: "'db postgres \<Rightarrow> Service \<Rightarrow> string \<Rightarrow> string list \<Rightarrow> runtimeLogin
    \<Rightarrow> (ensure_error, 'db tx) action" where
  "ensure_login S s readOnlyRole schemas l =
     andThen (wrapped ''provision'' (ensureLoginRole S (login_role l) (login_password s (login_name l)) False))
    (andThen (wrapped ''reconcile''
        (reconcile S (access_for s readOnlyRole (login_role l) schemas (login_readWriteRoles l))))
      (wrapped ''default role''
        (ensureDefaultRole S (login_role l) (defaultRuntimeReadWriteRole (login_readWriteRoles l)))))"

definition access_transaction :: "platform \<Rightarrow> 'db postgres \<Rightarrow> Service \<Rightarrow> string \<Rightarrow> string \<Rightarrow> string list
    \<Rightarrow> string list \<Rightarrow> (ensure_error, 'db tx) action" where
  "access_transaction P S s ro rw schemas roles =
     andThen (wrapped ''lock'' (exec S LockRuntimeAccess))
    (andThen (wrapped ''read-only'' (ensureLoginRole S ro (readOnlyPassword s) True))
    (andThen (wrapped ''read-write'' (ensureLoginRole S rw (readWritePassword s) False))
    (andThen (wrapped ''grants'' (reconcile S (access_for s ro rw schemas roles)))
    (andThen (wrapped ''default role'' (ensureDefaultRole S rw (defaultRuntimeReadWriteRole roles)))
      (case resolveRuntimeLogins P (settings s) of
         Inl e \<Rightarrow> fail_with (BadSettings e)
       | Inr logins \<Rightarrow> each (ensure_login S s ro schemas) logins)))))"

text \<open>
  The deferred \<open>tx.Rollback\<close> runs on every early return, so those leave the database as it was.
  The issued statements are returned beside it: they were sent whether or not they were kept.
\<close>

definition run_transaction :: "'db cluster \<Rightarrow> (ensure_error, 'db tx) action \<Rightarrow> 'db
    \<Rightarrow> ensure_error option \<times> 'db \<times> sql list" where
  "run_transaction K body d =
     (case body \<lparr>db = d, issued = []\<rparr> of
        (Some e, t) \<Rightarrow> (Some e, d, issued t)
      | (None, t) \<Rightarrow>
          (case Commit K t of
             (Some e, d') \<Rightarrow> (Some (CannotCommit e), d', issued t)
           | (None, d') \<Rightarrow> (None, d', issued t)))"

definition ensureRuntimeAccessLocked :: "platform \<Rightarrow> 'db cluster \<Rightarrow> Service \<Rightarrow> 'db
    \<Rightarrow> ensure_error option \<times> 'db \<times> sql list" where
  "ensureRuntimeAccessLocked P K s d =
     (if externalIdentity (settings s) then (Some ExternalIdentityMode, d, [])
      else case normalizedRuntimeSchemas (RuntimeSchemas (settings s)) of
        Inl e \<Rightarrow> (Some (BadSettings e), d, [])
      | Inr schemas \<Rightarrow>
        (case runtimeRoleNames P (DatabaseName (settings s)) of (ro, rw) \<Rightarrow>
        (case normalizedRuntimeReadWriteRoles (RuntimeReadWriteRoles (settings s)) [ro, rw] of
           Inl e \<Rightarrow> (Some (BadSettings e), d, [])
         | Inr roles \<Rightarrow>
           (case OpenDB K (connection s) of Some e \<Rightarrow> (Some (CannotOpen e), d, [])
            | None \<Rightarrow>
            (case BeginTx K d of Some e \<Rightarrow> (Some (CannotBegin e), d, [])
             | None \<Rightarrow> run_transaction K (access_transaction P (server K) s ro rw schemas roles) d)))))"

section \<open>A sample cluster\<close>

definition sample_cluster :: "sample_db cluster" where
  "sample_cluster = \<lparr>server = sample_server, OpenDB = (\<lambda>_. None), BeginTx = (\<lambda>_. None),
     Commit = (\<lambda>t. (None, db t))\<rparr>"

definition sample_cluster_db :: sample_db where
  "sample_cluster_db = \<lparr>sample_members = [(''old'', ''codefly_orders_db_00000000_rw'')],
     sample_roles_of = [(''app_request'', fresh_role), (''app_runtime'', fresh_role), (''old'', fresh_role)]\<rparr>"

section \<open>Lemmas on the transaction\<close>

lemma wrapped_None [act_simps]: "wrapped w f t = (None, t') \<longleftrightarrow> f t = (None, t')"
  by (auto simp: wrapped_def split: prod.splits)

lemma keeps_wrapped [intro]: "keeps R f \<Longrightarrow> keeps R (wrapped w f)"
  by (auto simp: keeps_def wrapped_def split: prod.splits) (metis snd_conv)

lemma reconcile_None:
  "reconcile S a t = (None, t') \<longleftrightarrow> ReconcileRuntimeAccess S (Some ()) (Some t) a = (None, Some t')"
  using ReconcileRuntimeAccess_tx [of S "Some ()" t a] by (auto simp: reconcile_def)

definition any_statement :: "sql \<Rightarrow> bool" where "any_statement st = True"

lemma keeps_reconcile: "keeps (issues any_statement) (reconcile S a)"
proof -
  have "issues any_statement t (snd (reconcile S a t))" for t
  proof -
    obtain r t' where run: "ReconcileRuntimeAccess S (Some ()) (Some t) a = (r, Some t')"
      using ReconcileRuntimeAccess_tx by metis
    consider "t' = t" | "validateRuntimeAccess a = None" "reconcile_steps S a t = (r, t')"
      using ReconcileRuntimeAccess_steps [OF run] by auto
    then have "issues any_statement t t'"
    proof cases
      case 1
      then show ?thesis by (simp add: issues_def)
    next
      case 2
      have "issues (within a) t t'"
        by (rule keepsD [OF keeps_reconcile_steps 2(2)]) (rule validateRuntimeAccess_None(1) [OF 2(1)])
      then show ?thesis by (auto simp: issues_def any_statement_def list_all_iff)
    qed
    with run show ?thesis by (simp add: reconcile_def)
  qed
  then show ?thesis by (simp add: keeps_def)
qed

definition login_statement :: "string \<Rightarrow> sql \<Rightarrow> bool" where
  "login_statement role st \<longleftrightarrow> st \<in> {CreateRole role, SetReadOnly role, ResetReadOnly role}
     \<or> (\<exists>at p. st = AlterRole role (WithPassword (login_attributes at) p))"

interpretation login_role: sql_operation "ensureLoginRole S role password readOnly" "login_statement role"
  for S role password readOnly
  by unfold_locales
    (auto simp: ensureLoginRole_def login_statement_def split: option.splits
      intro!: keeps_query keeps_andThen keeps_onlyIf keeps_exec keeps_fail, blast+)

interpretation default_role: sql_operation "ensureDefaultRole S login role"
  "\<lambda>st. st = ResetRole login \<or> st = SetDefaultRole login role" for S login role
  by unfold_locales (auto simp: ensureDefaultRole_def intro!: keeps_exec)

lemma keeps_access_steps:
  "keeps (issues any_statement) (ensureLoginRole S role password readOnly)"
  "keeps (issues any_statement) (ensureDefaultRole S login role)"
  "keeps (issues any_statement) (ensure_login S s ro schemas l)"
  by (auto simp: ensure_login_def any_statement_def intro!: keeps_andThen keeps_wrapped keeps_reconcile
      login_role.operation_widens default_role.operation_widens)

lemma access_transaction_locks_first:
  assumes "access_transaction P S s ro rw schemas roles \<lparr>db = d, issued = []\<rparr> = (r, t)"
  shows "\<exists>sts. issued t = LockRuntimeAccess # sts"
proof -
  let ?rest = "andThen (wrapped ''read-only'' (ensureLoginRole S ro (readOnlyPassword s) True))
    (andThen (wrapped ''read-write'' (ensureLoginRole S rw (readWritePassword s) False))
    (andThen (wrapped ''grants'' (reconcile S (access_for s ro rw schemas roles)))
    (andThen (wrapped ''default role'' (ensureDefaultRole S rw (defaultRuntimeReadWriteRole roles)))
      (case resolveRuntimeLogins P (settings s) of
         Inl e \<Rightarrow> fail_with (BadSettings e)
       | Inr logins \<Rightarrow> each (ensure_login S s ro schemas) logins))))"
  have rest: "keeps (issues any_statement) ?rest"
    by (auto split: sum.splits intro!: keeps_andThen keeps_wrapped keeps_reconcile keeps_each keeps_fail
        keeps_access_steps)
  let ?u = "snd (wrapped ''lock'' (exec S LockRuntimeAccess) \<lparr>db = d, issued = []\<rparr>)"
  have u: "issued ?u = [LockRuntimeAccess]"
    by (auto simp: wrapped_def exec_def split: prod.splits)
  from assms show ?thesis unfolding access_transaction_def
  proof (rule andThen_cases)
    fix e assume "wrapped ''lock'' (exec S LockRuntimeAccess) \<lparr>db = d, issued = []\<rparr> = (Some e, t)"
    with u show ?thesis by simp
  next
    fix v assume "wrapped ''lock'' (exec S LockRuntimeAccess) \<lparr>db = d, issued = []\<rparr> = (None, v)"
      and "?rest v = (r, t)"
    with u keepsD [OF rest] show ?thesis by (fastforce simp: issues_def)
  qed
qed

section \<open>Lemmas on the principals\<close>

definition login_only :: attributes where
  "login_only = \<lparr>canLogin = True, superuser = False, createDB = False, createRole = False,
     inherits = False, replication = False, bypassRLS = False\<rparr>"

lemma fold_login_attributes: "fold clear_attribute (login_attributes at) at = login_only"
  by (cases at) (simp add: login_attributes_def clear_attribute_def login_only_def)

lemma ensureLoginRole_stages:
  assumes "ensureLoginRole S role p b t = (None, t')"
  obtains ex u at v st where "onlyIf (\<not> ex) (exec S (CreateRole role)) t = (None, u)"
    "RoleAttributes S role (db u) = Inr (Some at)"
    "exec S (AlterRole role (WithPassword (login_attributes at) p)) u = (None, v)"
    "exec S st v = (None, t')" "st \<in> {SetReadOnly role, ResetReadOnly role}"
  using assms
  by (auto simp: ensureLoginRole_def query_None andThen_None fail_with_eq split: option.splits if_splits)

lemma ensureLoginRole_attributes:
  assumes laws: "attribute_laws S attrs" and ok: "ensureLoginRole S role p b t = (None, t')"
  shows "attrs (db t') = (attrs (db t))(role := Some login_only)"
proof -
  obtain ex u at v st where s: "onlyIf (\<not> ex) (exec S (CreateRole role)) t = (None, u)"
    "RoleAttributes S role (db u) = Inr (Some at)"
    "exec S (AlterRole role (WithPassword (login_attributes at) p)) u = (None, v)"
    "exec S st v = (None, t')" "st \<in> {SetReadOnly role, ResetReadOnly role}"
    using ok by (rule ensureLoginRole_stages)
  have other: "attrs (db u) r' = attrs (db t) r'" if "r' \<noteq> role" for r'
    using s(1) that by (auto simp: onlyIf_eq split: if_splits dest!: exec_attributes [OF laws])
  have "attrs (db u) role = Some at" using laws s(2) by (auto simp: attribute_laws_def)
  with exec_attributes [OF laws s(3)] have "attrs (db v) = (attrs (db u))(role := Some login_only)"
    by (simp add: alter_attributes_def fold_login_attributes)
  moreover have "attrs (db t') = attrs (db v)"
    using exec_attributes [OF laws s(4)] s(5) by auto
  ultimately show ?thesis using other by auto
qed

lemma ensureLoginRole_members:
  assumes laws: "membership_laws S creator mem" and ok: "ensureLoginRole S role p b t = (None, t')"
  shows "mem (db t) \<subseteq> mem (db t') \<and> mem (db t') \<subseteq> insert (role, creator) (mem (db t))"
proof -
  obtain ex u at v st where s: "onlyIf (\<not> ex) (exec S (CreateRole role)) t = (None, u)"
    "RoleAttributes S role (db u) = Inr (Some at)"
    "exec S (AlterRole role (WithPassword (login_attributes at) p)) u = (None, v)"
    "exec S st v = (None, t')" "st \<in> {SetReadOnly role, ResetReadOnly role}"
    using ok by (rule ensureLoginRole_stages)
  have "mem (db t) \<subseteq> mem (db u) \<and> mem (db u) \<subseteq> insert (role, creator) (mem (db t))"
    using s(1) by (auto simp: onlyIf_eq split: if_splits dest!: exec_members [OF laws])
  moreover have "mem (db v) = mem (db u)" using exec_members [OF laws s(3)] by simp
  moreover have "mem (db t') = mem (db v)" using exec_members [OF laws s(4)] s(5) by auto
  ultimately show ?thesis by simp
qed

lemma ensureDefaultRole_same:
  assumes "ensureDefaultRole S l r t = (None, t')"
  shows "membership_laws S creator mem \<Longrightarrow> mem (db t') = mem (db t)"
    "attribute_laws S attrs \<Longrightarrow> attrs (db t') = attrs (db t)"
  using assms by (auto simp: ensureDefaultRole_def split: if_splits dest: exec_members exec_attributes)

text \<open>A password-mode reconciliation touches no attribute.\<close>

lemma reconcile_attributes:
  assumes laws: "attribute_laws S attrs"
    and run: "reconcile S (access_for s ro rw schemas roles) t = (None, t')"
  shows "attrs (db t') = attrs (db t)"
proof -
  let ?a = "access_for s ro rw schemas roles"
  have ok: "reconcile_steps S ?a t = (None, t')"
    using ReconcileRuntimeAccess_None(2) run by (simp add: reconcile_None)
  have m: "access_AuthMode ?a \<noteq> AuthModeExternalIdentity" "\<not> ReconcileReadOnlyRoleMemberships ?a"
    "ReconcileReadWriteRoleMemberships ?a"
    by (simp_all add: access_for_def AuthModeExternalIdentity_def)
  note same = same_attributes_steps [OF laws]
  obtain t3 t4 where
    s: "each (exec S) (database_statements ?a) t = (None, t3)"
    "each (\<lambda>x. each (exec S) (schema_statements ?a x)) (Schemas ?a) t3 = (None, t4)"
    "reconcileRuntimeRoleMemberships S (ReadWriteRole ?a) (ReadWriteRoles ?a) t4 = (None, t')"
    using ok m by (elim reconcile_steps_stages) (simp add: onlyIf_eq)
  show ?thesis
    using ensuresD [OF same(1) s(1)] ensuresD [OF same(2) s(2)] ensuresD [OF same(3) s(3)]
    by (simp add: same_attributes_def)
qed

lemma reconcile_members:
  assumes laws: "membership_laws S creator mem"
    and run: "reconcile S (access_for s ro rw schemas roles) t = (None, t')"
  shows "{r. (r, rw) \<in> mem (db t')} = set roles"
    "m \<noteq> rw \<Longrightarrow> (r, m) \<in> mem (db t') \<longleftrightarrow> (r, m) \<in> mem (db t)"
proof -
  let ?a = "access_for s ro rw schemas roles"
  have run': "ReconcileRuntimeAccess S (Some ()) (Some t) ?a = (None, Some t')"
    using run by (simp add: reconcile_None)
  have f: "access_AuthMode ?a \<noteq> AuthModeExternalIdentity" "ReconcileReadWriteRoleMemberships ?a"
    by (simp_all add: access_for_def AuthModeExternalIdentity_def)
  note core = delegated_roles_core [OF laws run' f]
  then show "{r. (r, rw) \<in> mem (db t')} = set roles" by (simp add: access_for_def)
  have "{r. (r, ro) \<in> mem (db t')} = {r. (r, ro) \<in> mem (db t)}"
    "\<forall>r m. m \<notin> {ro, rw} \<longrightarrow> (r, m) \<in> mem (db t') \<longleftrightarrow> (r, m) \<in> mem (db t)"
    using core by (simp_all add: access_for_def)
  then show "m \<noteq> rw \<Longrightarrow> (r, m) \<in> mem (db t') \<longleftrightarrow> (r, m) \<in> mem (db t)"
    by (cases "m = ro") auto
qed

lemma ensure_login_members:
  assumes laws: "membership_laws S creator mem" and ok: "ensure_login S s ro schemas l t = (None, t')"
    and fresh: "creator \<noteq> login_role l"
  shows "{r. (r, login_role l) \<in> mem (db t')} = set (login_readWriteRoles l)"
    "m \<noteq> login_role l \<Longrightarrow> m \<noteq> creator \<Longrightarrow> (r, m) \<in> mem (db t') \<longleftrightarrow> (r, m) \<in> mem (db t)"
proof -
  obtain u v p d where s: "ensureLoginRole S (login_role l) p False t = (None, u)"
    "reconcile S (access_for s ro (login_role l) schemas (login_readWriteRoles l)) u = (None, v)"
    "ensureDefaultRole S (login_role l) d v = (None, t')"
    using ok by (auto simp: ensure_login_def act_simps)
  note m = ensureLoginRole_members [OF laws s(1)] reconcile_members [OF laws s(2)]
    ensureDefaultRole_same(1) [OF s(3) laws]
  show "{r. (r, login_role l) \<in> mem (db t')} = set (login_readWriteRoles l)"
    using m by simp
  show "m \<noteq> login_role l \<Longrightarrow> m \<noteq> creator \<Longrightarrow> (r, m) \<in> mem (db t') \<longleftrightarrow> (r, m) \<in> mem (db t)"
    using m by auto
qed

lemma ensure_login_attributes:
  assumes laws: "attribute_laws S attrs" and ok: "ensure_login S s ro schemas l t = (None, t')"
  shows "attrs (db t') = (attrs (db t))(login_role l := Some login_only)"
proof -
  obtain u v p d where s: "ensureLoginRole S (login_role l) p False t = (None, u)"
    "reconcile S (access_for s ro (login_role l) schemas (login_readWriteRoles l)) u = (None, v)"
    "ensureDefaultRole S (login_role l) d v = (None, t')"
    using ok by (auto simp: ensure_login_def act_simps)
  then show ?thesis
    using ensureLoginRole_attributes [OF laws s(1)] reconcile_attributes [OF laws s(2)]
      ensureDefaultRole_same(2) [OF s(3) laws] by simp
qed

lemma each_login_members:
  assumes laws: "membership_laws S creator mem"
  shows "each (ensure_login S s ro schemas) ls t = (None, t') \<Longrightarrow> distinct (map login_role ls)
    \<Longrightarrow> creator \<notin> login_role ` set ls \<Longrightarrow>
      (\<forall>l \<in> set ls. {r. (r, login_role l) \<in> mem (db t')} = set (login_readWriteRoles l))
      \<and> (\<forall>m r. m \<notin> insert creator (login_role ` set ls) \<longrightarrow> (r, m) \<in> mem (db t') \<longleftrightarrow> (r, m) \<in> mem (db t))"
proof (induction ls arbitrary: t)
  case Nil
  then show ?case by (simp add: act_simps)
next
  case (Cons l ls)
  then obtain u where u: "ensure_login S s ro schemas l t = (None, u)"
    and rest: "each (ensure_login S s ro schemas) ls u = (None, t')"
    by (auto simp: andThen_None)
  have ih: "\<forall>l \<in> set ls. {r. (r, login_role l) \<in> mem (db t')} = set (login_readWriteRoles l)"
    "\<forall>m r. m \<notin> insert creator (login_role ` set ls) \<longrightarrow> (r, m) \<in> mem (db t') \<longleftrightarrow> (r, m) \<in> mem (db u)"
    using Cons.IH [OF rest] Cons.prems by auto
  have ne: "creator \<noteq> login_role l" using Cons.prems by auto
  note step = ensure_login_members [OF laws u ne]
  have "{r. (r, login_role l) \<in> mem (db t')} = set (login_readWriteRoles l)"
    using step(1) ih(2) Cons.prems by auto
  moreover have "(r, m) \<in> mem (db t') \<longleftrightarrow> (r, m) \<in> mem (db t)"
    if "m \<notin> insert creator (login_role ` set (l # ls))" for m r
    using step(2) [of m r] ih(2) that by simp
  ultimately show ?case using ih(1) by simp
qed

lemma each_login_attributes:
  assumes laws: "attribute_laws S attrs"
  shows "each (ensure_login S s ro schemas) ls t = (None, t') \<Longrightarrow>
    attrs (db t') r = (if r \<in> login_role ` set ls then Some login_only else attrs (db t) r)"
proof (induction ls arbitrary: t)
  case Nil
  then show ?case by (simp add: act_simps)
next
  case (Cons l ls)
  then obtain u where u: "ensure_login S s ro schemas l t = (None, u)"
    and rest: "each (ensure_login S s ro schemas) ls u = (None, t')"
    by (auto simp: andThen_None)
  from Cons.IH [OF rest] ensure_login_attributes [OF laws u] show ?case by simp
qed

lemma access_transaction_stages:
  assumes "access_transaction P S s ro rw schemas roles t = (None, t')"
  obtains logins t1 t2 t3 t4 t5 where "resolveRuntimeLogins P (settings s) = Inr logins"
    "exec S LockRuntimeAccess t = (None, t1)"
    "ensureLoginRole S ro (readOnlyPassword s) True t1 = (None, t2)"
    "ensureLoginRole S rw (readWritePassword s) False t2 = (None, t3)"
    "reconcile S (access_for s ro rw schemas roles) t3 = (None, t4)"
    "ensureDefaultRole S rw (defaultRuntimeReadWriteRole roles) t4 = (None, t5)"
    "each (ensure_login S s ro schemas) logins t5 = (None, t')"
  using assms by (auto simp: access_transaction_def act_simps split: sum.splits)

lemma ensureRuntimeAccessLocked_None:
  assumes "ensureRuntimeAccessLocked P K s d = (None, d', sts)"
  obtains ro rw schemas roles t where "runtimeRoleNames P (DatabaseName (settings s)) = (ro, rw)"
    "normalizedRuntimeReadWriteRoles (RuntimeReadWriteRoles (settings s)) [ro, rw] = Inr roles"
    "access_transaction P (server K) s ro rw schemas roles \<lparr>db = d, issued = []\<rparr> = (None, t)"
    "Commit K t = (None, d')" "sts = issued t"
  using assms
  by (auto simp: ensureRuntimeAccessLocked_def run_transaction_def
      split: if_splits sum.splits prod.splits option.splits)

lemma resolved_roles_fresh:
  assumes "resolveRuntimeLogins P s = Inr logins" "runtimeRoleNames P (DatabaseName s) = (ro, rw)"
  shows "distinct (map login_role logins)" "ro \<noteq> rw" "ro \<notin> login_role ` set logins" "rw \<notin> login_role ` set logins"
proof -
  let ?db = "DatabaseName s"
  have all: "list_all2 (login_of P ?db) (map rl_Name (RuntimeLogins s)) logins"
    and d: "distinct (map rl_Name (RuntimeLogins s))"
    using resolveRuntimeLogins_Inr [OF assms(1)] by auto
  show "distinct (map login_role logins)" using login_of_distinct [OF all d] by simp
  have n: "ro = runtimeRolePrefix P ?db @ ''_ro''" "rw = runtimeRolePrefix P ?db @ ''_rw''"
    using assms(2) by (auto simp: runtimeRoleNames_def Let_def)
  then show "ro \<noteq> rw" by simp
  show "ro \<notin> login_role ` set logins" "rw \<notin> login_role ` set logins"
    using login_of_set [OF all] unfolding n login_of_def by force+
qed

section \<open>Properties\<close>

text \<open>
  A runtime-access reconciliation is all or nothing: every failure other than that of the
  commit itself leaves the database as it was, nothing at all is sent in external-identity mode,
  and otherwise the first statement sent is the advisory lock that serialises reconcilers.
\<close>

theorem runtime_access_atomic:
  "case ensureRuntimeAccessLocked P K s d of (r, d', sts) \<Rightarrow>
     if externalIdentity (settings s) then r = Some ExternalIdentityMode \<and> d' = d \<and> sts = []
     else (r = None \<or> (\<exists>e. r = Some (CannotCommit e)) \<or> d' = d)
       \<and> (sts = [] \<or> hd sts = LockRuntimeAccess)"
  by (auto simp: ensureRuntimeAccessLocked_def run_transaction_def
      split: if_splits sum.splits prod.splits option.splits dest!: access_transaction_locks_first)

text \<open>
  C3: on a server that keeps memberships and attributes as PostgreSQL documents, after a
  successful reconciliation every managed and declared login is a LOGIN role with no other
  attribute, the managed writer is a member of exactly its normalised delegated roles, and each
  declared login of exactly its own: reconciling one never disturbs another.
\<close>

theorem runtime_principals_exact:
  assumes mem: "membership_laws (server K) (postgresUser s) mem"
    and attrs: "attribute_laws (server K) attrs"
    and commit: "\<forall>t d. Commit K t = (None, d) \<longrightarrow> mem d = mem (db t) \<and> attrs d = attrs (db t)"
    and run: "ensureRuntimeAccessLocked P K s d = (None, d', sts)"
    and names: "runtimeRoleNames P (DatabaseName (settings s)) = (ro, rw)"
    and logins: "resolveRuntimeLogins P (settings s) = Inr logins"
    and owner: "postgresUser s \<notin> insert rw (login_role ` set logins)"
  shows "(\<exists>roles. normalizedRuntimeReadWriteRoles (RuntimeReadWriteRoles (settings s)) [ro, rw] = Inr roles
            \<and> {r. (r, rw) \<in> mem d'} = set roles)
    \<and> (\<forall>l \<in> set logins. {r. (r, login_role l) \<in> mem d'} = set (login_readWriteRoles l))
    \<and> (\<forall>r \<in> {ro, rw} \<union> login_role ` set logins. attrs d' r = Some login_only)"
proof -
  obtain ro' rw' schemas roles t where c: "runtimeRoleNames P (DatabaseName (settings s)) = (ro', rw')"
    "normalizedRuntimeReadWriteRoles (RuntimeReadWriteRoles (settings s)) [ro', rw'] = Inr roles"
    "access_transaction P (server K) s ro' rw' schemas roles \<lparr>db = d, issued = []\<rparr> = (None, t)"
    "Commit K t = (None, d')" "sts = issued t"
    using run by (rule ensureRuntimeAccessLocked_None)
  have eq: "ro' = ro" "rw' = rw" using c(1) names by auto
  obtain logins' t1 t2 t3 t4 t5 where s: "resolveRuntimeLogins P (settings s) = Inr logins'"
    "exec (server K) LockRuntimeAccess \<lparr>db = d, issued = []\<rparr> = (None, t1)"
    "ensureLoginRole (server K) ro (readOnlyPassword s) True t1 = (None, t2)"
    "ensureLoginRole (server K) rw (readWritePassword s) False t2 = (None, t3)"
    "reconcile (server K) (access_for s ro rw schemas roles) t3 = (None, t4)"
    "ensureDefaultRole (server K) rw (defaultRuntimeReadWriteRole roles) t4 = (None, t5)"
    "each (ensure_login (server K) s ro schemas) logins' t5 = (None, t)"
    using c(3) unfolding eq by (rule access_transaction_stages)
  have l: "logins' = logins" using s(1) logins by simp
  note fresh = resolved_roles_fresh [OF logins names]
  have fin: "mem d' = mem (db t)" "attrs d' = attrs (db t)" using commit c(4) by auto
  note each_mem = each_login_members [OF mem s(7) [unfolded l] fresh(1)]
  have "{r. (r, rw) \<in> mem (db t5)} = set roles"
    using reconcile_members(1) [OF mem s(5)] ensureDefaultRole_same(1) [OF s(6) mem] by simp
  then have rw: "{r. (r, rw) \<in> mem d'} = set roles"
    using each_mem owner fresh(4) fin by auto
  have at5: "attrs (db t5) = ((attrs (db t1))(ro := Some login_only))(rw := Some login_only)"
    using ensureLoginRole_attributes [OF attrs s(3)] ensureLoginRole_attributes [OF attrs s(4)]
      reconcile_attributes [OF attrs s(5)] ensureDefaultRole_same(2) [OF s(6) attrs] by simp
  have "attrs d' r = Some login_only" if "r \<in> {ro, rw} \<union> login_role ` set logins" for r
    using each_login_attributes [OF attrs s(7) [unfolded l], of r] at5 fin that by auto
  moreover have "\<forall>l \<in> set logins. {r. (r, login_role l) \<in> mem d'} = set (login_readWriteRoles l)"
    using each_mem owner fin by auto
  ultimately show ?thesis using rw c(2) eq by blast
qed

lemma sample_creator: "membership_laws sample_server c (\<lambda>d. set (sample_members d))"
  using sample_laws(1) by (auto simp: membership_laws_def sample_server_def split: sql.splits)

lemma sample_access_settings:
  "normalizedRuntimeSchemas (RuntimeSchemas sample_settings) = Inr [''public'']"
  "normalizedRuntimeReadWriteRoles (RuntimeReadWriteRoles sample_settings)
     [''codefly_orders_db_00000000_ro'', ''codefly_orders_db_00000000_rw''] = Inr [''app_request'']"
  "\<not> externalIdentity sample_settings"
  by code_simp+

lemma sample_reconcile_valid:
  "validateRuntimeAccess (access_for sample_service ''codefly_orders_db_00000000_ro'' ''codefly_orders_db_00000000_rw''
     [''public''] [''app_request'']) = None"
  "validateRuntimeAccess (access_for sample_service ''codefly_orders_db_00000000_ro'' ''codefly_orders_db_00000000_maintenance''
     [''public''] [''app_runtime'']) = None"
proof -
  have b: "\<not> blank s" if "s \<noteq> []" "list_all is_graph s" for s
    using that by (simp add: blank_iff_not_graph)
  have nb: "\<not> blank ''Orders-DB''" "\<not> blank ''postgres''" "\<not> blank ''codefly_orders_db_00000000_ro''"
    "\<not> blank ''codefly_orders_db_00000000_rw''" "\<not> blank ''codefly_orders_db_00000000_maintenance''" "\<not> blank ''public''"
    by (rule b; simp add: is_graph_def)+
  show "validateRuntimeAccess (access_for sample_service ''codefly_orders_db_00000000_ro'' ''codefly_orders_db_00000000_rw''
     [''public''] [''app_request'']) = None"
    "validateRuntimeAccess (access_for sample_service ''codefly_orders_db_00000000_ro'' ''codefly_orders_db_00000000_maintenance''
     [''public''] [''app_runtime'']) = None"
    by (simp_all add: validateRuntimeAccess_def required_fields_def access_for_def sample_service_def
        sample_settings_def nb)
qed

lemma sample_ensure:
  "fst (ensureRuntimeAccessLocked sample_platform sample_cluster sample_service sample_cluster_db) = None"
proof -
  have st: "settings sample_service = sample_settings" by (simp add: sample_service_def)
  show ?thesis
    unfolding ensureRuntimeAccessLocked_def st sample_roles sample_logins sample_access_settings
    by (simp add: sample_access_settings access_transaction_def sample_logins st
        sample_cluster_def sample_cluster_db_def run_transaction_def wrapped_def ensure_login_def
        ensureLoginRole_def ensureDefaultRole_def defaultRuntimeReadWriteRole_def login_attributes_def
        reconcile_def ReconcileRuntimeAccess_def
        sample_reconcile_valid [unfolded access_for_def st] sample_run_defs access_for_def)
qed

theorem runtime_principals_exact_witness:
  "\<exists>d' sts. ensureRuntimeAccessLocked sample_platform sample_cluster sample_service sample_cluster_db = (None, d', sts)
     \<and> {r. (r, ''codefly_orders_db_00000000_maintenance'') \<in> set (sample_members d')} = {''app_runtime''}"
proof -
  obtain d' sts where run: "ensureRuntimeAccessLocked sample_platform sample_cluster sample_service sample_cluster_db
      = (None, d', sts)"
    using sample_ensure by (metis prod.collapse)
  have st: "settings sample_service = sample_settings" by (simp add: sample_service_def)
  have srv: "server sample_cluster = sample_server" by (simp add: sample_cluster_def)
  let ?ls = "[\<lparr>login_name = ''maintenance'', login_role = ''codefly_orders_db_00000000_maintenance'',
           login_passwordKey = ''POSTGRES_MAINTENANCE_PASSWORD'',
           login_connectionKey = ''maintenance-connection'', login_readWriteRoles = [''app_runtime'']\<rparr>]"
  have "\<forall>l \<in> set ?ls. {r. (r, login_role l) \<in> set (sample_members d')} = set (login_readWriteRoles l)"
    using runtime_principals_exact [of sample_cluster sample_service "\<lambda>d. set (sample_members d)"
        "\<lambda>d. map_of (sample_roles_of d)", OF _ _ _ run _ _, of "''codefly_orders_db_00000000_ro''"
        "''codefly_orders_db_00000000_rw''" ?ls]
      sample_laws sample_roles sample_logins
    by (simp add: st srv sample_creator) (simp add: sample_cluster_def sample_service_def)
  with run show ?thesis by simp
qed

end
