(* ===== verification/HostIPC.thy ===== *)
theory HostIPC
  imports GoText
begin

text \<open>
  \<open>hostipc.go\<close> and \<open>hostipc_darwin.go\<close>: recovery of System V resources that an interrupted native
  PostgreSQL left behind. The tables that \<open>ipcs\<close> prints are parsed, a removal plan is computed
  from them, the removals are issued in batches, and what happened is decided by reading the
  tables again. The processes alive and the outputs of the two commands are parameters.
\<close>

section \<open>Reading tables\<close>

text \<open>\<open>strings.Fields\<close>: the maximal runs without white space.\<close>

fun fields_from :: "string \<Rightarrow> string \<Rightarrow> nat \<Rightarrow> string list" where
  "fields_from word [] n = (if word = [] then [] else [rev word])"
| "fields_from word (c # s) (Suc n) = fields_from word s n"
| "fields_from word (c # s) 0 =
     (case find (\<lambda>p. prefix p (c # s)) space_runes of
        Some p \<Rightarrow> (if word = [] then fields_from [] s (length p - 1) else rev word # fields_from [] s (length p - 1))
      | None \<Rightarrow> fields_from (c # word) s 0)"

definition Fields :: "string \<Rightarrow> string list" where
  "Fields s = fields_from [] s 0"

text \<open>
  The lines a \<open>bufio.Scanner\<close> yields, a trailing carriage return removed, the last one only if it
  is not empty; a line that does not fit the scanner's 64 KiB buffer ends the scan with an error.
\<close>

definition drop_cr :: "string \<Rightarrow> string" where
  "drop_cr l = (if l \<noteq> [] \<and> last l = CR then butlast l else l)"

definition scan_lines :: "string \<Rightarrow> string list" where
  "scan_lines output =
     (let ls = Split output LF in if last ls = [] then butlast ls else ls)"

definition maxTokenSize :: nat where "maxTokenSize = 65536"

text \<open>\<open>strconv.Atoi\<close>: an optional sign and decimal digits within 64-bit signed range.\<close>

definition Atoi :: "string \<Rightarrow> int option" where
  "Atoi s =
     (let neg = (s \<noteq> [] \<and> hd s = CHR ''-'');
          ds = (if s \<noteq> [] \<and> (hd s = CHR ''-'' \<or> hd s = CHR ''+'') then tl s else s);
          v = (if neg then - int (digits_val ds) else int (digits_val ds))
      in if ds \<noteq> [] \<and> list_all is_digit ds \<and> int64 v then Some v else None)"

text \<open>\<open>strconv.ParseUint(s, 0, 64)\<close>: the base comes from the prefix, underscores may separate digits.\<close>

definition digit_of :: "char \<Rightarrow> nat option" where
  "digit_of c =
     (let l = lower_char c in
      if is_digit c then Some (digit_val c)
      else if CHR ''a'' \<le> l \<and> l \<le> CHR ''z'' then Some (of_char l - 87)
      else None)"

definition base_of :: "string \<Rightarrow> nat \<times> string" where
  "base_of s =
     (case s of
        CHR ''0'' # c # d # r \<Rightarrow>
          (if lower_char c = CHR ''b'' then (2, d # r)
           else if lower_char c = CHR ''o'' then (8, d # r)
           else if lower_char c = CHR ''x'' then (16, d # r)
           else (8, c # d # r))
      | CHR ''0'' # r \<Rightarrow> (8, r)
      | _ \<Rightarrow> (10, s))"

fun underscore_ok :: "bool \<Rightarrow> char \<Rightarrow> string \<Rightarrow> bool" where
  "underscore_ok hex i [] = (i \<noteq> CHR ''_'')"
| "underscore_ok hex i (c # s) =
     (if is_digit c \<or> hex \<and> CHR ''a'' \<le> lower_char c \<and> lower_char c \<le> CHR ''f'' then underscore_ok hex CHR ''0'' s
      else if c = CHR ''_'' then i = CHR ''0'' \<and> underscore_ok hex c s
      else i \<noteq> CHR ''_'' \<and> underscore_ok hex CHR ''!'' s)"

definition underscoreOK :: "string \<Rightarrow> bool" where
  "underscoreOK s =
     (case s of
        CHR ''0'' # c # r \<Rightarrow>
          (if lower_char c \<in> {CHR ''b'', CHR ''o'', CHR ''x''}
           then underscore_ok (lower_char c = CHR ''x'') CHR ''0'' r
           else underscore_ok False CHR ''^'' s)
      | _ \<Rightarrow> underscore_ok False CHR ''^'' s)"

fun uint_digits :: "nat \<Rightarrow> nat \<Rightarrow> string \<Rightarrow> nat option" where
  "uint_digits base n [] = Some n"
| "uint_digits base n (c # s) =
     (if c = CHR ''_'' then uint_digits base n s
      else case digit_of c of
             Some d \<Rightarrow> if d < base \<and> n * base + d < 2 ^ 64 then uint_digits base (n * base + d) s else None
           | None \<Rightarrow> None)"

definition ParseUint0 :: "string \<Rightarrow> nat option" where
  "ParseUint0 s =
     (if s = [] then None
      else case base_of s of
        (base, r) \<Rightarrow>
          (case uint_digits base 0 r of
             Some n \<Rightarrow> if CHR ''_'' \<in> set r \<and> \<not> underscoreOK s then None else Some n
           | None \<Rightarrow> None))"

section \<open>Rows\<close>

record postgresSharedMemoryRow =
  shm_id :: int
  shm_key :: nat
  shm_owner :: string
  shm_attachments :: int
  shm_size :: int
  shm_creatorPID :: int

record postgresSemaphoreRow =
  sem_id :: int
  sem_key :: nat
  sem_mode :: string
  sem_owner :: string
  sem_semaphores :: int
  sem_createdAt :: string

datatype ipc_error =
    ListFailed string
  | BadSharedRow string
  | BadSemaphoreRow string
  | ScanFailed
  | NoUser string
  | Cancelled
  | Survived "int list" "int list" "string list"
  | VerifyFailed ipc_error "string list"

definition shared_row :: "string list \<Rightarrow> postgresSharedMemoryRow option" where
  "shared_row fs =
     (case (Atoi (fs ! 1), ParseUint0 (fs ! 2), Atoi (fs ! 8), Atoi (fs ! 9), Atoi (fs ! 10)) of
        (Some i, Some k, Some a, Some s, Some p) \<Rightarrow>
          Some \<lparr>shm_id = i, shm_key = k, shm_owner = fs ! 4, shm_attachments = a, shm_size = s, shm_creatorPID = p\<rparr>
      | _ \<Rightarrow> None)"

definition semaphore_row :: "string list \<Rightarrow> postgresSemaphoreRow option" where
  "semaphore_row fs =
     (case (Atoi (fs ! 1), ParseUint0 (fs ! 2), Atoi (fs ! 8)) of
        (Some i, Some k, Some n) \<Rightarrow>
          Some \<lparr>sem_id = i, sem_key = k, sem_mode = fs ! 3, sem_owner = fs ! 4, sem_semaphores = n,
                sem_createdAt = fs ! 10\<rparr>
      | _ \<Rightarrow> None)"

text \<open>The scanning loop the two parsers share: skip what is not a row, stop at a bad one.\<close>

fun parse_rows :: "string \<Rightarrow> (string list \<Rightarrow> 'r option) \<Rightarrow> (string \<Rightarrow> ipc_error) \<Rightarrow> string list
    \<Rightarrow> (ipc_error, 'r list) result" where
  "parse_rows tag row bad [] = Inr []"
| "parse_rows tag row bad (l # ls) =
     (if length l \<ge> maxTokenSize then Inl ScanFailed
      else let fs = Fields (drop_cr l) in
        if length fs < 11 \<or> fs ! 0 \<noteq> tag then parse_rows tag row bad ls
        else case row fs of
               None \<Rightarrow> Inl (bad (drop_cr l))
             | Some r \<Rightarrow> (case parse_rows tag row bad ls of Inl e \<Rightarrow> Inl e | Inr rs \<Rightarrow> Inr (r # rs)))"

definition parsePostgresSharedMemoryRows :: "string \<Rightarrow> (ipc_error, postgresSharedMemoryRow list) result" where
  "parsePostgresSharedMemoryRows output = parse_rows ''m'' shared_row BadSharedRow (scan_lines output)"

definition parsePostgresSemaphoreRows :: "string \<Rightarrow> (ipc_error, postgresSemaphoreRow list) result" where
  "parsePostgresSemaphoreRows output = parse_rows ''s'' semaphore_row BadSemaphoreRow (scan_lines output)"

section \<open>The removal plan\<close>

definition postgresDarwinControlSegmentBytes :: int where "postgresDarwinControlSegmentBytes = 56"
definition postgresDarwinSemaphoresPerSet :: int where "postgresDarwinSemaphoresPerSet = 20"
definition postgresDarwinSemaphoreKeySpan :: nat where "postgresDarwinSemaphoreKeySpan = 1024"
definition postgresIPCRemovalBatchSize :: nat where "postgresIPCRemovalBatchSize = 256"

definition control_segment :: "string \<Rightarrow> postgresSharedMemoryRow \<Rightarrow> bool" where
  "control_segment username r \<longleftrightarrow>
     \<not> (shm_owner r \<noteq> username \<or> shm_size r \<noteq> postgresDarwinControlSegmentBytes) \<and> \<not> shm_creatorPID r \<le> 1"

definition segment_active :: "(int \<Rightarrow> bool) \<Rightarrow> postgresSharedMemoryRow \<Rightarrow> bool" where
  "segment_active alive r \<longleftrightarrow> shm_attachments r > 0 \<or> alive (shm_creatorPID r)"

definition active_bases :: "string \<Rightarrow> (int \<Rightarrow> bool) \<Rightarrow> postgresSharedMemoryRow list \<Rightarrow> nat list" where
  "active_bases username alive rows =
     map shm_key (filter (\<lambda>r. control_segment username r \<and> segment_active alive r) rows)"

definition orphaned_segments :: "string \<Rightarrow> (int \<Rightarrow> bool) \<Rightarrow> postgresSharedMemoryRow list
    \<Rightarrow> postgresSharedMemoryRow list" where
  "orphaned_segments username alive rows =
     filter (\<lambda>r. control_segment username r \<and> \<not> segment_active alive r) rows"

definition semaphore_candidate :: "string \<Rightarrow> postgresSemaphoreRow \<Rightarrow> bool" where
  "semaphore_candidate username r \<longleftrightarrow>
     sem_key r > 0 \<and> sem_owner r = username \<and> sem_mode r = ''--ra-------''
     \<and> sem_semaphores r = postgresDarwinSemaphoresPerSet"

definition belongsToActivePostgres :: "nat list \<Rightarrow> nat \<Rightarrow> bool" where
  "belongsToActivePostgres bases key \<longleftrightarrow>
     list_ex (\<lambda>base. key > base \<and> key - base \<le> postgresDarwinSemaphoreKeySpan) bases"

text \<open>A maximal prefix of rows that each continue the one before, and the rest.\<close>

fun take_run :: "('r \<Rightarrow> 'r \<Rightarrow> bool) \<Rightarrow> 'r \<Rightarrow> 'r list \<Rightarrow> 'r list \<times> 'r list" where
  "take_run follows prev [] = ([], [])"
| "take_run follows prev (r # rs) =
     (if follows prev r then (case take_run follows r rs of (run, rest) \<Rightarrow> (r # run, rest)) else ([], r # rs))"

lemma take_run_append: "take_run follows prev rs = (run, rest) \<Longrightarrow> rs = run @ rest"
  by (induction rs arbitrary: prev run) (auto split: if_splits prod.splits)

definition consecutive :: "postgresSemaphoreRow \<Rightarrow> postgresSemaphoreRow \<Rightarrow> bool" where
  "consecutive a b \<longleftrightarrow> sem_key b = (sem_key a + 1) mod 2 ^ 64"

function consecutive_runs :: "postgresSemaphoreRow list \<Rightarrow> postgresSemaphoreRow list list" where
  "consecutive_runs [] = []"
| "consecutive_runs (r # rs) =
     (case take_run consecutive r rs of (run, rest) \<Rightarrow> (r # run) # consecutive_runs rest)"
  by pat_completeness auto
termination
  by (relation "measure length") (auto dest!: take_run_append [OF sym])

definition run_removed :: "nat list \<Rightarrow> nat list \<Rightarrow> postgresSemaphoreRow list \<Rightarrow> bool" where
  "run_removed active orphaned run \<longleftrightarrow>
     \<not> list_ex (\<lambda>r. belongsToActivePostgres active (sem_key r)) run
     \<and> (sem_key (hd run) - 1 \<in> set orphaned
        \<or> length run \<ge> 2 \<and> sem_createdAt (hd run) \<noteq> []
          \<and> list_all (\<lambda>r. sem_createdAt r = sem_createdAt (hd run)) (tl run))"

text \<open>Clusters within the key span of their first row, for rows of one creation time in key order.\<close>

function span_clusters :: "postgresSemaphoreRow list \<Rightarrow> postgresSemaphoreRow list list" where
  "span_clusters [] = []"
| "span_clusters (r # rs) =
     (let near = (\<lambda>x. sem_key x - sem_key r \<le> postgresDarwinSemaphoreKeySpan) in
      (r # takeWhile near rs) # span_clusters (dropWhile near rs))"
  by pat_completeness auto
termination
  by (relation "measure length") (auto simp: length_dropWhile_le less_Suc_eq_le)

definition cluster_removed :: "nat list \<Rightarrow> postgresSemaphoreRow list \<Rightarrow> bool" where
  "cluster_removed active cluster \<longleftrightarrow>
     \<not> list_ex (\<lambda>r. belongsToActivePostgres active (sem_key r)) cluster \<and> length cluster \<ge> 2"

definition creation_times :: "postgresSemaphoreRow list \<Rightarrow> string list" where
  "creation_times rows = dedup_seen [] (map sem_createdAt rows)"

definition removed_runs :: "nat list \<Rightarrow> nat list \<Rightarrow> postgresSemaphoreRow list \<Rightarrow> postgresSemaphoreRow list" where
  "removed_runs active orphaned candidates =
     concat (filter (run_removed active orphaned) (consecutive_runs candidates))"

definition removed_clusters :: "nat list \<Rightarrow> postgresSemaphoreRow list \<Rightarrow> postgresSemaphoreRow list" where
  "removed_clusters active rows =
     concat (map (\<lambda>t. concat (filter (cluster_removed active)
        (span_clusters (sort_key sem_key (filter (\<lambda>r. sem_createdAt r = t) rows))))) (creation_times rows))"

definition planned_semaphores :: "nat list \<Rightarrow> nat list \<Rightarrow> postgresSemaphoreRow list \<Rightarrow> postgresSemaphoreRow list" where
  "planned_semaphores active orphaned candidates =
     (let first = removed_runs active orphaned candidates in
      first @ removed_clusters active
        (filter (\<lambda>r. sem_id r \<notin> sem_id ` set first) candidates))"

definition postgresIPCRemovalPlan :: "string \<Rightarrow> string \<Rightarrow> string \<Rightarrow> (int \<Rightarrow> bool)
    \<Rightarrow> (ipc_error, int list \<times> int list) result" where
  "postgresIPCRemovalPlan sharedOutput semaphoreOutput username alive =
     (case parsePostgresSharedMemoryRows sharedOutput of
        Inl e \<Rightarrow> Inl e
      | Inr shared \<Rightarrow>
      (case parsePostgresSemaphoreRows semaphoreOutput of
        Inl e \<Rightarrow> Inl e
      | Inr semaphores \<Rightarrow>
          (let active = active_bases username alive shared;
               orphans = orphaned_segments username alive shared;
               candidates = sort_key sem_key (filter (semaphore_candidate username) semaphores)
           in Inr (sort (map shm_id orphans),
                   sort (map sem_id (planned_semaphores active (map shm_key orphans) candidates))))))"

section \<open>Removal and verdict\<close>

definition removal_operations :: "int list \<Rightarrow> int list \<Rightarrow> (char \<times> int) list" where
  "removal_operations sharedIDs semaphoreIDs =
     map (\<lambda>i. (CHR ''m'', i)) sharedIDs @ map (\<lambda>i. (CHR ''s'', i)) semaphoreIDs"

text \<open>
  The operations are pairs of arguments, a flag and an identifier, so that a batch of twice
  \<open>postgresIPCRemovalBatchSize\<close> arguments is that many pairs.
\<close>

function batches :: "(char \<times> int) list \<Rightarrow> (char \<times> int) list list" where
  "batches ops =
     (if ops = [] then []
      else take postgresIPCRemovalBatchSize ops # batches (drop postgresIPCRemovalBatchSize ops))"
  by pat_completeness auto
termination
  by (relation "measure length") (auto simp: postgresIPCRemovalBatchSize_def)

declare batches.simps [simp del]

definition runIPCRemove :: "((char \<times> int) list \<Rightarrow> string option) \<Rightarrow> int list \<Rightarrow> int list \<Rightarrow> string list" where
  "runIPCRemove ipcrm sharedIDs semaphoreIDs =
     List.map_filter ipcrm (batches (removal_operations sharedIDs semaphoreIDs))"

record hostResourceRecovery =
  SharedSegments :: int
  SemaphoreSets :: int

record survivors =
  surviving_shared :: "int list"
  surviving_semaphores :: "int list"

definition survivingIDs :: "string \<Rightarrow> string \<Rightarrow> int list \<Rightarrow> int list \<Rightarrow> (ipc_error, survivors) result" where
  "survivingIDs sharedOutput semaphoreOutput sharedIDs semaphoreIDs =
     (case parsePostgresSharedMemoryRows sharedOutput of
        Inl e \<Rightarrow> Inl e
      | Inr shared \<Rightarrow>
      (case parsePostgresSemaphoreRows semaphoreOutput of
        Inl e \<Rightarrow> Inl e
      | Inr semaphores \<Rightarrow>
          Inr \<lparr>surviving_shared = filter (\<lambda>i. i \<in> shm_id ` set shared) sharedIDs,
               surviving_semaphores = filter (\<lambda>i. i \<in> sem_id ` set semaphores) semaphoreIDs\<rparr>))"

definition nothing_recovered :: hostResourceRecovery where
  "nothing_recovered = \<lparr>SharedSegments = 0, SemaphoreSets = 0\<rparr>"

definition recoveryVerdict :: "int list \<Rightarrow> int list \<Rightarrow> survivors \<Rightarrow> string list
    \<Rightarrow> hostResourceRecovery \<times> ipc_error option" where
  "recoveryVerdict sharedIDs semaphoreIDs remaining reported =
     (let recovery = \<lparr>SharedSegments = int (length sharedIDs) - int (length (surviving_shared remaining)),
                      SemaphoreSets = int (length semaphoreIDs) - int (length (surviving_semaphores remaining))\<rparr>
      in if surviving_shared remaining \<noteq> [] \<or> surviving_semaphores remaining \<noteq> []
         then (recovery, Some (Survived (surviving_shared remaining) (surviving_semaphores remaining) reported))
         else (recovery, None))"

text \<open>\<open>reapHostIPC\<close>: the tables before and after are what \<open>ipcs\<close> prints then.\<close>

record ipc_host =
  cancelled :: bool
  username :: "(string, string) result"
  process_alive :: "int \<Rightarrow> bool"
  tables_before :: "(ipc_error, string \<times> string) result"
  tables_after :: "(ipc_error, string \<times> string) result"
  ipcrm :: "(char \<times> int) list \<Rightarrow> string option"

definition removePostgresIPC :: "ipc_host \<Rightarrow> int list \<Rightarrow> int list \<Rightarrow> hostResourceRecovery \<times> ipc_error option" where
  "removePostgresIPC H sharedIDs semaphoreIDs =
     (let removalOutput = runIPCRemove (ipcrm H) sharedIDs semaphoreIDs in
      case tables_after H of
        Inl e \<Rightarrow> (nothing_recovered, Some (VerifyFailed e removalOutput))
      | Inr (shared, semaphores) \<Rightarrow>
      (case survivingIDs shared semaphores sharedIDs semaphoreIDs of
        Inl e \<Rightarrow> (nothing_recovered, Some (VerifyFailed e removalOutput))
      | Inr remaining \<Rightarrow> recoveryVerdict sharedIDs semaphoreIDs remaining removalOutput))"

definition reapHostIPC :: "ipc_host \<Rightarrow> hostResourceRecovery \<times> ipc_error option" where
  "reapHostIPC H =
     (if cancelled H then (nothing_recovered, Some Cancelled)
      else case username H of
        Inl e \<Rightarrow> (nothing_recovered, Some (NoUser e))
      | Inr name \<Rightarrow>
      (case tables_before H of
        Inl e \<Rightarrow> (nothing_recovered, Some e)
      | Inr (shared, semaphores) \<Rightarrow>
      (case postgresIPCRemovalPlan shared semaphores name (process_alive H) of
        Inl e \<Rightarrow> (nothing_recovered, Some e)
      | Inr (sharedIDs, semaphoreIDs) \<Rightarrow>
          if sharedIDs = [] \<and> semaphoreIDs = [] then (nothing_recovered, None)
          else removePostgresIPC H sharedIDs semaphoreIDs)))"

definition recovery_empty :: "hostResourceRecovery \<Rightarrow> bool" where
  "recovery_empty r \<longleftrightarrow> SharedSegments r = 0 \<and> SemaphoreSets r = 0"

section \<open>Runs\<close>

lemma take_run_successively: "take_run f prev rs = (run, rest) \<Longrightarrow> successively f (prev # run)"
  by (induction rs arbitrary: prev run) (auto simp: successively_Cons split: if_splits prod.splits)

lemma consecutive_runs_concat: "concat (consecutive_runs xs) = xs"
  by (induction xs rule: consecutive_runs.induct) (auto split: prod.splits dest: take_run_append)

lemma consecutive_runs_run: "run \<in> set (consecutive_runs xs) \<Longrightarrow> run \<noteq> [] \<and> successively consecutive run"
  by (induction xs rule: consecutive_runs.induct) (auto split: prod.splits dest: take_run_successively take_run_successively [OF sym])

lemma sorted_concat_part:
  "sorted (map f (concat xss)) \<Longrightarrow> xs \<in> set xss \<Longrightarrow> sorted (map f xs)"
  by (induction xss) (auto simp: sorted_append)

lemma run_keys:
  assumes "successively consecutive run" "sorted (map sem_key run)" "i < length run"
  shows "sem_key (run ! i) = sem_key (run ! 0) + i"
  using assms(3)
proof (induction i)
  case 0
  then show ?case by simp
next
  case (Suc i)
  let ?a = "sem_key (run ! i)" and ?b = "sem_key (run ! Suc i)"
  have "?b = (?a + 1) mod 2 ^ 64"
    using assms(1) Suc.prems by (simp add: successively_conv_nth consecutive_def)
  moreover have "?a \<le> ?b" using assms(2) Suc.prems by (simp add: sorted_iff_nth_mono)
  ultimately have b: "?b = (?a + 1) mod 2 ^ 64" "?a \<le> ?b" by simp_all
  have lt: "?b < 2 ^ 64" unfolding b(1) by (rule mod_less_divisor) simp
  have "?a + 1 \<noteq> 2 ^ 64"
  proof
    assume e: "?a + 1 = 2 ^ 64"
    then have "?b = 0" using b(1) by (metis mod_self)
    with b(2) e show False by simp
  qed
  with lt b(2) have "?a + 1 < 2 ^ 64" by linarith
  then have "?b = ?a + 1" using b(1) by (metis mod_less)
  with Suc show ?case by simp
qed

section \<open>Clusters\<close>

lemma span_clusters_concat: "concat (span_clusters xs) = xs"
  by (induction xs rule: span_clusters.induct) (auto simp: Let_def)

lemma span_clusters_near:
  "cluster \<in> set (span_clusters xs) \<Longrightarrow> sorted (map sem_key xs) \<Longrightarrow> x \<in> set cluster \<Longrightarrow> y \<in> set cluster
   \<Longrightarrow> sem_key x \<le> sem_key y + postgresDarwinSemaphoreKeySpan"
proof (induction xs rule: span_clusters.induct)
  case 1
  then show ?case by simp
next
  case (2 r rs)
  let ?near = "\<lambda>x. sem_key x - sem_key r \<le> postgresDarwinSemaphoreKeySpan"
  show ?case
  proof (cases "cluster = r # takeWhile ?near rs")
    case True
    have ge: "sem_key r \<le> sem_key z" if "z \<in> set cluster" for z
      using 2(3) that True by (auto dest: set_takeWhileD)
    have "sem_key x \<le> sem_key r + postgresDarwinSemaphoreKeySpan"
      using 2(4) True by (auto dest: set_takeWhileD)
    with ge [OF 2(5)] show ?thesis by simp
  next
    case False
    then have "cluster \<in> set (span_clusters (dropWhile ?near rs))" using 2(2) by (simp add: Let_def)
    moreover have "sorted (map sem_key (dropWhile ?near rs))"
      using 2(3) by (simp add: sorted_dropWhile dropWhile_map [symmetric] comp_def)
        (metis (no_types, lifting) map_append sorted_append takeWhile_dropWhile_id)
    ultimately show ?thesis using 2(1) 2(4,5) by (simp add: Let_def)
  qed
qed

lemma another_id:
  assumes "distinct (map sem_id xs)" "length xs \<ge> 2" "r \<in> set xs"
  shows "\<exists>r' \<in> set xs. sem_id r' \<noteq> sem_id r"
proof (rule ccontr)
  assume "\<not> (\<exists>r' \<in> set xs. sem_id r' \<noteq> sem_id r)"
  then have "set (map sem_id xs) \<subseteq> {sem_id r}" by auto
  then have "card (set (map sem_id xs)) \<le> 1" by (metis card.empty card_insert_disjoint card_mono empty_iff finite.emptyI finite_insert One_nat_def)
  moreover have "card (set (map sem_id xs)) = length xs" using distinct_card [OF assms(1)] by simp
  ultimately show False using assms(2) by linarith
qed

lemma distinct_concat_part: "distinct (map f (concat xss)) \<Longrightarrow> xs \<in> set xss \<Longrightarrow> distinct (map f xs)"
  by (induction xss) auto

section \<open>What is planned\<close>

definition orphan_run :: "nat list \<Rightarrow> postgresSemaphoreRow list \<Rightarrow> postgresSemaphoreRow \<Rightarrow> bool" where
  "orphan_run orphaned candidates r \<longleftrightarrow>
     (\<exists>base \<in> set orphaned. base < sem_key r
        \<and> (\<forall>k. base < k \<and> k \<le> sem_key r \<longrightarrow> (\<exists>c \<in> set candidates. sem_key c = k)))"

definition has_sibling :: "postgresSemaphoreRow list \<Rightarrow> postgresSemaphoreRow \<Rightarrow> bool" where
  "has_sibling candidates r \<longleftrightarrow>
     (\<exists>s \<in> set candidates. sem_id s \<noteq> sem_id r \<and> sem_createdAt s = sem_createdAt r
        \<and> sem_key s \<le> sem_key r + 1024 \<and> sem_key r \<le> sem_key s + 1024)"

lemma removed_run_row:
  assumes cand: "sorted (map sem_key candidates)" "distinct (map sem_id candidates)" "\<forall>c \<in> set candidates. 0 < sem_key c"
    and run: "run \<in> set (consecutive_runs candidates)" "run_removed active orphaned run" and r: "r \<in> set run"
  shows "\<not> belongsToActivePostgres active (sem_key r) \<and> (orphan_run orphaned candidates r \<or> has_sibling candidates r)"
proof -
  have conc: "concat (consecutive_runs candidates) = candidates" by (rule consecutive_runs_concat)
  have sub: "set run \<subseteq> set candidates" using run(1) conc by (metis UN_upper set_concat)
  have so: "sorted (map sem_key run)" using sorted_concat_part [OF _ run(1)] cand(1) conc by metis
  have di: "distinct (map sem_id run)" using distinct_concat_part [OF _ run(1)] cand(2) conc by metis
  note rn = consecutive_runs_run [OF run(1)]
  have act: "\<not> belongsToActivePostgres active (sem_key r)"
    using run(2) r by (auto simp: run_removed_def list_ex_iff)
  obtain i where i: "i < length run" "r = run ! i" using r by (auto simp: in_set_conv_nth)
  have keys: "sem_key (run ! j) = sem_key (hd run) + j" if "j < length run" for j
    using run_keys [OF _ so that] rn that by (simp add: hd_conv_nth)
  have pos: "0 < sem_key (hd run)" using sub cand(3) rn by (metis hd_in_set subsetD)
  consider (orphan) "sem_key (hd run) - 1 \<in> set orphaned"
    | (pair) "length run \<ge> 2" "list_all (\<lambda>x. sem_createdAt x = sem_createdAt (hd run)) (tl run)"
    using run(2) by (auto simp: run_removed_def)
  then show ?thesis
  proof cases
    case orphan
    have "\<exists>c \<in> set candidates. sem_key c = k" if "sem_key (hd run) - 1 < k" "k \<le> sem_key r" for k
    proof -
      have "k - sem_key (hd run) < length run" using that keys [OF i(1)] i by simp
      moreover from this have "sem_key (run ! (k - sem_key (hd run))) = k" using keys that pos by simp
      ultimately show ?thesis using sub by (metis nth_mem subsetD)
    qed
    moreover have "sem_key (hd run) - 1 < sem_key r" using keys [OF i(1)] i(2) pos by simp
    ultimately have "orphan_run orphaned candidates r" using orphan by (auto simp: orphan_run_def)
    with act show ?thesis by blast
  next
    case pair
    have same: "sem_createdAt x = sem_createdAt (hd run)" if "x \<in> set run" for x
      using pair(2) that by (cases run) (auto simp: list_all_iff)
    define j where "j = (if i = 0 then 1 else i - 1)"
    have j: "j < length run" "j \<noteq> i" using pair(1) i(1) by (auto simp: j_def)
    have "sem_id (run ! j) \<noteq> sem_id r"
      using di j i by (metis distinct_conv_nth length_map nth_map)
    moreover have "sem_key (run ! j) \<le> sem_key r + 1024" "sem_key r \<le> sem_key (run ! j) + 1024"
      using keys [OF j(1)] keys [OF i(1)] i(2) by (auto simp: j_def)
    moreover have "run ! j \<in> set candidates" "sem_createdAt (run ! j) = sem_createdAt r"
      using sub same j(1) r by (auto simp: nth_mem)
    ultimately have "has_sibling candidates r" by (auto simp: has_sibling_def)
    with act show ?thesis by blast
  qed
qed

lemma removed_cluster_row:
  assumes di: "distinct (map sem_id rows)" and r: "r \<in> set (removed_clusters active rows)"
  shows "r \<in> set rows \<and> \<not> belongsToActivePostgres active (sem_key r) \<and> has_sibling rows r"
proof -
  obtain t cluster where c: "cluster \<in> set (span_clusters (sort_key sem_key (filter (\<lambda>x. sem_createdAt x = t) rows)))"
    "cluster_removed active cluster" "r \<in> set cluster"
    using r by (auto simp: removed_clusters_def)
  let ?xs = "sort_key sem_key (filter (\<lambda>x. sem_createdAt x = t) rows)"
  have conc: "concat (span_clusters ?xs) = ?xs" by (rule span_clusters_concat)
  have sub: "set cluster \<subseteq> {x \<in> set rows. sem_createdAt x = t}"
  proof
    fix x assume "x \<in> set cluster"
    then have "x \<in> set (concat (span_clusters ?xs))" using c(1) by auto
    then show "x \<in> {x \<in> set rows. sem_createdAt x = t}" unfolding conc by simp
  qed
  have "distinct (map sem_id ?xs)"
  proof -
    have "distinct (map sem_id (filter (\<lambda>x. sem_createdAt x = t) rows))" using di by (rule distinct_map_filter)
    then show ?thesis by (simp add: distinct_map)
  qed
  then have dc: "distinct (map sem_id cluster)" using distinct_concat_part [OF _ c(1)] conc by metis
  obtain s where s: "s \<in> set cluster" "sem_id s \<noteq> sem_id r"
    using another_id [OF dc _ c(3)] c(2) by (auto simp: cluster_removed_def)
  have "sem_key s \<le> sem_key r + 1024" "sem_key r \<le> sem_key s + 1024"
    using span_clusters_near [OF c(1)] s(1) c(3) by (auto simp: postgresDarwinSemaphoreKeySpan_def)
  with s sub c show ?thesis
    by (auto simp: has_sibling_def cluster_removed_def list_ex_iff)
qed

lemma has_sibling_mono: "has_sibling xs r \<Longrightarrow> set xs \<subseteq> set ys \<Longrightarrow> has_sibling ys r"
  by (auto simp: has_sibling_def)

lemma planned_semaphores_row:
  assumes "sorted (map sem_key candidates)" "distinct (map sem_id candidates)" "\<forall>c \<in> set candidates. 0 < sem_key c"
    and r: "r \<in> set (planned_semaphores active orphaned candidates)"
  shows "r \<in> set candidates \<and> \<not> belongsToActivePostgres active (sem_key r)
    \<and> (orphan_run orphaned candidates r \<or> has_sibling candidates r)"
proof -
  let ?first = "removed_runs active orphaned candidates"
  let ?left = "filter (\<lambda>r. sem_id r \<notin> sem_id ` set ?first) candidates"
  consider "r \<in> set ?first" | "r \<in> set (removed_clusters active ?left)"
    using r by (auto simp: planned_semaphores_def Let_def)
  then show ?thesis
  proof cases
    case 1
    then obtain run where run: "run \<in> set (consecutive_runs candidates)" "run_removed active orphaned run" "r \<in> set run"
      by (auto simp: removed_runs_def)
    have "r \<in> set candidates" using run(1,3) consecutive_runs_concat [of candidates] by (metis UN_I set_concat)
    with removed_run_row [OF assms(1-3) run] show ?thesis by blast
  next
    case 2
    have "distinct (map sem_id ?left)" using assms(2) by (rule distinct_map_filter)
    from removed_cluster_row [OF this 2] show ?thesis using has_sibling_mono [of ?left r candidates] by auto
  qed
qed

lemma removal_plan_Inr:
  assumes "postgresIPCRemovalPlan sharedOutput semaphoreOutput user alive = Inr (shm, sems)"
    "parsePostgresSharedMemoryRows sharedOutput = Inr shared"
    "parsePostgresSemaphoreRows semaphoreOutput = Inr semaphores"
  shows "shm = sort (map shm_id (orphaned_segments user alive shared))"
    "sems = sort (map sem_id (planned_semaphores (active_bases user alive shared)
        (map shm_key (orphaned_segments user alive shared))
        (sort_key sem_key (filter (semaphore_candidate user) semaphores))))"
  using assms by (auto simp: postgresIPCRemovalPlan_def Let_def)

lemma batches_concat: "concat (batches ops) = ops"
  by (induction ops rule: batches.induct) (subst batches.simps, simp)

lemma batches_bounded: "b \<in> set (batches ops) \<Longrightarrow> 0 < length b \<and> length b \<le> postgresIPCRemovalBatchSize"
proof (induction ops rule: batches.induct)
  case (1 ops)
  show ?case
  proof (cases "ops = []")
    case True
    with 1 show ?thesis by (simp add: batches.simps)
  next
    case False
    with 1 show ?thesis
      by (subst (asm) (2) batches.simps) (auto simp: postgresIPCRemovalBatchSize_def)
  qed
qed

lemma survivingIDs_subset:
  "survivingIDs a b xs ys = Inr s \<Longrightarrow>
     length (surviving_shared s) \<le> length xs \<and> length (surviving_semaphores s) \<le> length ys"
  by (auto simp: survivingIDs_def split: sum.splits)

section \<open>Properties\<close>

text \<open>
  The removal plan only names resources of the current user that no live PostgreSQL can own: a
  planned segment is an unattached 56-byte control segment whose recorded creator is dead; a
  planned semaphore set has PostgreSQL's shape, lies outside the key span of every live control
  segment, and either continues an unbroken run of candidate keys from a dead control segment or
  has another candidate of the same creation time within the key span. A lone set is never named.
\<close>

theorem ipc_removal_plan_safe:
  assumes "postgresIPCRemovalPlan sharedOutput semaphoreOutput user alive = Inr (shm, sems)"
    and "parsePostgresSharedMemoryRows sharedOutput = Inr shared"
    and "parsePostgresSemaphoreRows semaphoreOutput = Inr semaphores"
    and "distinct (map sem_id semaphores)"
  shows "(\<forall>i \<in> set shm. \<exists>r \<in> set shared. shm_id r = i \<and> shm_owner r = user \<and> shm_size r = 56
        \<and> 1 < shm_creatorPID r \<and> shm_attachments r \<le> 0 \<and> \<not> alive (shm_creatorPID r))
    \<and> (\<forall>i \<in> set sems. \<exists>r \<in> set semaphores. sem_id r = i \<and> sem_owner r = user \<and> sem_semaphores r = 20
        \<and> (\<forall>c \<in> set shared. control_segment user c \<and> segment_active alive c
              \<longrightarrow> sem_key r \<le> shm_key c \<or> shm_key c + 1024 < sem_key r)
        \<and> (orphan_run (map shm_key (orphaned_segments user alive shared))
              (filter (semaphore_candidate user) semaphores) r
           \<or> has_sibling (filter (semaphore_candidate user) semaphores) r))"
proof -
  note plan = removal_plan_Inr [OF assms(1-3)]
  let ?cs = "filter (semaphore_candidate user) semaphores"
  let ?active = "active_bases user alive shared" and ?orph = "map shm_key (orphaned_segments user alive shared)"
  have cand: "sorted (map sem_key (sort_key sem_key ?cs))" by simp
  have di: "distinct (map sem_id (sort_key sem_key ?cs))"
    using distinct_map_filter [OF assms(4), of "semaphore_candidate user"] by (simp add: distinct_map)
  have pos: "\<forall>c \<in> set (sort_key sem_key ?cs). 0 < sem_key c" by (simp add: semaphore_candidate_def)
  have sems: "\<exists>r \<in> set semaphores. sem_id r = i \<and> sem_owner r = user \<and> sem_semaphores r = 20
        \<and> (\<forall>c \<in> set shared. control_segment user c \<and> segment_active alive c
              \<longrightarrow> sem_key r \<le> shm_key c \<or> shm_key c + 1024 < sem_key r)
        \<and> (orphan_run ?orph ?cs r \<or> has_sibling ?cs r)" if i: "i \<in> set sems" for i
  proof -
    obtain r where r: "r \<in> set (planned_semaphores ?active ?orph (sort_key sem_key ?cs))" "sem_id r = i"
      using i plan(2) by auto
    note row = planned_semaphores_row [OF cand di pos r(1)]
    then have "r \<in> set semaphores" "semaphore_candidate user r" by auto
    moreover have "sem_key r \<le> shm_key c \<or> shm_key c + 1024 < sem_key r"
      if "c \<in> set shared" "control_segment user c" "segment_active alive c" for c
    proof -
      have "shm_key c \<in> set ?active" using that by (auto simp: active_bases_def)
      with row show ?thesis
        by (auto simp: belongsToActivePostgres_def list_ex_iff postgresDarwinSemaphoreKeySpan_def)
    qed
    moreover have "orphan_run ?orph ?cs r \<or> has_sibling ?cs r"
      using row by (auto simp: orphan_run_def has_sibling_def)
    ultimately show ?thesis
      using r(2) by (auto simp: semaphore_candidate_def postgresDarwinSemaphoresPerSet_def)
  qed
  moreover have "\<forall>i \<in> set shm. \<exists>r \<in> set shared. shm_id r = i \<and> shm_owner r = user \<and> shm_size r = 56
        \<and> 1 < shm_creatorPID r \<and> shm_attachments r \<le> 0 \<and> \<not> alive (shm_creatorPID r)"
    unfolding plan(1)
    by (auto simp: orphaned_segments_def control_segment_def segment_active_def postgresDarwinControlSegmentBytes_def)
  ultimately show ?thesis by blast
qed

text \<open>
  The removals are issued completely, in order and in batches of at most 256 whole pairs, and
  the verdict accounts for every planned identifier: what is reported as removed plus what is still
  listed is what was planned, and an error is reported exactly when something is still listed.
\<close>

theorem ipc_recovery_accounted:
  assumes "survivingIDs sharedOutput semaphoreOutput sharedIDs semaphoreIDs = Inr remaining"
  shows "concat (batches (removal_operations sharedIDs semaphoreIDs)) = removal_operations sharedIDs semaphoreIDs
    \<and> (\<forall>b \<in> set (batches (removal_operations sharedIDs semaphoreIDs)). 0 < length b \<and> length b \<le> 256)
    \<and> (case recoveryVerdict sharedIDs semaphoreIDs remaining reported of (recovered, e) \<Rightarrow>
         0 \<le> SharedSegments recovered \<and> 0 \<le> SemaphoreSets recovered
         \<and> SharedSegments recovered + int (length (surviving_shared remaining)) = int (length sharedIDs)
         \<and> SemaphoreSets recovered + int (length (surviving_semaphores remaining)) = int (length semaphoreIDs)
         \<and> (e = None \<longleftrightarrow> surviving_shared remaining = [] \<and> surviving_semaphores remaining = []))"
  using survivingIDs_subset [OF assms] batches_concat batches_bounded
  by (auto simp: recoveryVerdict_def Let_def postgresIPCRemovalBatchSize_def)

section \<open>Witnesses\<close>

definition sample_shared_table :: string where
  "sample_shared_table = ''T ID KEY'' @ [LF] @ ''m 1 0x10 rw me g me g 0 56 99'' @ [LF]"

definition sample_semaphore_table :: string where
  "sample_semaphore_table = ''s 5 0x11 --ra------- me g me g 20 x t'' @ [LF]"

lemma sample_tables_parsed:
  "parsePostgresSharedMemoryRows sample_shared_table =
     Inr [\<lparr>shm_id = 1, shm_key = 16, shm_owner = ''me'', shm_attachments = 0, shm_size = 56, shm_creatorPID = 99\<rparr>]"
  "parsePostgresSemaphoreRows sample_semaphore_table =
     Inr [\<lparr>sem_id = 5, sem_key = 17, sem_mode = ''--ra-------'', sem_owner = ''me'', sem_semaphores = 20, sem_createdAt = ''t''\<rparr>]"
proof -
  have lines: "scan_lines sample_shared_table = [''T ID KEY'', ''m 1 0x10 rw me g me g 0 56 99'']"
    "scan_lines sample_semaphore_table = [''s 5 0x11 --ra------- me g me g 20 x t'']"
    by code_simp+
  have fs: "Fields ''T ID KEY'' = [''T'', ''ID'', ''KEY'']"
    "Fields ''m 1 0x10 rw me g me g 0 56 99'' = [''m'', ''1'', ''0x10'', ''rw'', ''me'', ''g'', ''me'', ''g'', ''0'', ''56'', ''99'']"
    "Fields ''s 5 0x11 --ra------- me g me g 20 x t'' =
       [''s'', ''5'', ''0x11'', ''--ra-------'', ''me'', ''g'', ''me'', ''g'', ''20'', ''x'', ''t'']"
    by code_simp+
  have low: "lower_char CHR ''x'' = CHR ''x''" "lower_char CHR ''1'' = CHR ''1''" "lower_char CHR ''0'' = CHR ''0''"
    by code_simp+
  have atoi: "Atoi ''1'' = Some 1" "Atoi ''0'' = Some 0" "Atoi ''56'' = Some 56" "Atoi ''99'' = Some 99"
    "Atoi ''5'' = Some 5" "Atoi ''20'' = Some 20"
    by (simp_all add: Atoi_def Let_def digits_val_def digit_val_def is_digit_def int64_def)
  have keys: "ParseUint0 ''0x10'' = Some 16" "ParseUint0 ''0x11'' = Some 17"
    by (simp_all add: ParseUint0_def base_of_def low digit_of_def Let_def is_digit_def digit_val_def)
  show "parsePostgresSharedMemoryRows sample_shared_table =
     Inr [\<lparr>shm_id = 1, shm_key = 16, shm_owner = ''me'', shm_attachments = 0, shm_size = 56, shm_creatorPID = 99\<rparr>]"
    "parsePostgresSemaphoreRows sample_semaphore_table =
     Inr [\<lparr>sem_id = 5, sem_key = 17, sem_mode = ''--ra-------'', sem_owner = ''me'', sem_semaphores = 20, sem_createdAt = ''t''\<rparr>]"
    by (simp_all add: parsePostgresSharedMemoryRows_def parsePostgresSemaphoreRows_def lines fs drop_cr_def
        maxTokenSize_def shared_row_def semaphore_row_def atoi keys Let_def)
qed

lemma sample_removal_plan:
  "postgresIPCRemovalPlan sample_shared_table sample_semaphore_table ''me'' (\<lambda>_. False) = Inr ([1], [5])"
  by (simp add: postgresIPCRemovalPlan_def sample_tables_parsed active_bases_def orphaned_segments_def
      control_segment_def segment_active_def postgresDarwinControlSegmentBytes_def semaphore_candidate_def
      postgresDarwinSemaphoresPerSet_def planned_semaphores_def removed_runs_def run_removed_def
      removed_clusters_def creation_times_def cluster_removed_def belongsToActivePostgres_def Let_def)

theorem ipc_removal_plan_safe_witness:
  "orphan_run [16] [\<lparr>sem_id = 5, sem_key = 17, sem_mode = ''--ra-------'', sem_owner = ''me'',
      sem_semaphores = 20, sem_createdAt = ''t''\<rparr>]
    \<lparr>sem_id = 5, sem_key = 17, sem_mode = ''--ra-------'', sem_owner = ''me'', sem_semaphores = 20, sem_createdAt = ''t''\<rparr>"
  using ipc_removal_plan_safe [OF sample_removal_plan sample_tables_parsed]
  by (simp add: has_sibling_def orphaned_segments_def control_segment_def segment_active_def
      postgresDarwinControlSegmentBytes_def semaphore_candidate_def postgresDarwinSemaphoresPerSet_def)

theorem ipc_recovery_accounted_witness:
  "concat (batches (removal_operations [1] [5])) = removal_operations [1] [5]"
proof -
  have "survivingIDs [] sample_semaphore_table [1] [5] = Inr \<lparr>surviving_shared = [], surviving_semaphores = [5]\<rparr>"
    by (simp add: survivingIDs_def sample_tables_parsed parsePostgresSharedMemoryRows_def scan_lines_def)
  from ipc_recovery_accounted [OF this] show ?thesis by blast
qed

end
