(* ===== verification/RunServer.thy ===== *)
theory RunServer
  imports HostIPC FilePath
begin

text \<open>
  The run's shared native server: the process identities, the holder records, the postmaster record
  and the lock file of \<open>nixpg.go\<close>, with acquiring, releasing, stopping and collecting. What the
  agent's own operations own (the holder files and the postmaster record of every run root, and the
  signals sent) is explicit; everything else (the process table, the clock, the cluster directory,
  nix, \<open>pg_ctl\<close>) is a world of type \<open>'w\<close> that the environment's operations read and change. A
  record written by \<open>json.Marshal\<close> is its parsed value, and a file that does not parse is \<open>None\<close>.
\<close>

section \<open>Processes\<close>

record process_identity =
  ident_StartID :: nat
  ident_BootID :: string
  ident_Executable :: string

datatype inspection = Inspected process_identity | ErrProcessNotFound | InspectionFailed string

record processMark =
  PID :: int
  StartID :: nat
  BootID :: string

datatype signal = SIGINT | SIGQUIT

datatype remove_result = FileRemoved | ErrNotExist | RemoveFailed string

record serverHolder =
  holder_Service :: string
  holder_Agent :: processMark
  holder_Run :: "processMark option"

record postmasterRecord =
  Postmaster :: processMark
  SocketDir :: string

record run_files =
  holder_files :: "(string \<times> serverHolder option) list"
  record_file :: "postmasterRecord option"

record 'w host =
  world :: 'w
  run_dirs :: "string \<Rightarrow> run_files"
  signals :: "(int \<times> process_identity \<times> signal) list"

text \<open>
  \<open>InspectProcess\<close> and \<open>SignalProcess\<close> are functions of the core library; \<open>signal0\<close> is the probe
  of \<open>processAlive\<close>; \<open>Call\<close> is an operation of the host that yields no value, an error or
  none; the connection string of \<open>adminDSN\<close> is its parts; \<open>can_remove\<close> says whether \<open>os.Remove\<close> of one of
  the agent's own files succeeds.
\<close>

record admin_dsn =
  dsn_User :: string
  dsn_Password :: string
  dsn_Path :: string
  dsn_host :: string
  dsn_port :: string
  dsn_sslmode :: string

datatype host_call =
    WriteFile string string
  | WriteOwnerOnly string string
  | ChmodPrivate string
  | NewNixEnvironment string
  | NixInit string string
  | NewProcess string "string list"
  | RunProcess string "string list"
  | ExecAdmin admin_dsn string
  | PingAdmin admin_dsn

record 'w native_env =
  InspectProcess :: "'w \<Rightarrow> int \<Rightarrow> inspection"
  signal0 :: "'w \<Rightarrow> int \<Rightarrow> bool"
  Now :: "'w \<Rightarrow> int"
  Sleep :: "int \<Rightarrow> 'w \<Rightarrow> 'w"
  SignalProcess :: "int \<Rightarrow> process_identity \<Rightarrow> signal \<Rightarrow> 'w \<Rightarrow> string option \<times> 'w"
  ReadPidFile :: "'w \<Rightarrow> string \<Rightarrow> string option"
  RemovePidFile :: "string \<Rightarrow> 'w \<Rightarrow> remove_result \<times> 'w"
  RemoveAll :: "string \<Rightarrow> 'w \<Rightarrow> string option \<times> 'w"
  can_remove :: "'w \<Rightarrow> string \<Rightarrow> bool"
  holders_error :: "'w \<Rightarrow> string \<Rightarrow> string option"
  MkdirAll :: "string \<Rightarrow> 'w \<Rightarrow> string option \<times> 'w"
  lock_root :: "string \<Rightarrow> 'w \<Rightarrow> string option \<times> 'w"
  try_lock :: "string \<Rightarrow> 'w \<Rightarrow> bool"
  ctx_done :: "'w \<Rightarrow> bool"
  server_roots :: "'w \<Rightarrow> (string \<times> bool) list option"
  Call :: "host_call \<Rightarrow> 'w \<Rightarrow> string option \<times> 'w"
  MkdirTemp :: "string \<Rightarrow> 'w \<Rightarrow> (string, string) result \<times> 'w"
  RandRead :: "'w \<Rightarrow> (string, string) result \<times> 'w"
  FileExists :: "'w \<Rightarrow> string \<Rightarrow> bool"
  Glob :: "'w \<Rightarrow> string \<Rightarrow> string list option"
  ReadText :: "'w \<Rightarrow> string \<Rightarrow> (string, string) result"
  pgFlake :: "string \<times> string"
  unicode_tables :: unicode
  write_file :: "'w \<Rightarrow> string \<Rightarrow> string option"
  close_forwarder :: "nat \<Rightarrow> 'w \<Rightarrow> string option \<times> 'w"
  service_hash :: "string \<Rightarrow> string"

definition same_birth :: "process_identity \<Rightarrow> processMark \<Rightarrow> bool" where
  "same_birth i m \<longleftrightarrow> ident_StartID i = StartID m \<and> ident_BootID i = BootID m"

definition markProcess :: "'w native_env \<Rightarrow> 'w \<Rightarrow> int \<Rightarrow> (string, processMark) result" where
  "markProcess E w pid =
     (case InspectProcess E w pid of
        Inspected i \<Rightarrow> Inr \<lparr>PID = pid, StartID = ident_StartID i, BootID = ident_BootID i\<rparr>
      | ErrProcessNotFound \<Rightarrow> Inl ''process not found''
      | InspectionFailed e \<Rightarrow> Inl e)"

definition mark_alive :: "'w native_env \<Rightarrow> 'w \<Rightarrow> processMark \<Rightarrow> bool" where
  "mark_alive E w m =
     (case InspectProcess E w (PID m) of
        Inspected i \<Rightarrow> same_birth i m
      | ErrProcessNotFound \<Rightarrow> False
      | InspectionFailed e \<Rightarrow> True)"

definition confirmed :: "'w native_env \<Rightarrow> 'w \<Rightarrow> processMark \<Rightarrow> bool" where
  "confirmed E w m =
     (case InspectProcess E w (PID m) of Inspected i \<Rightarrow> same_birth i m | _ \<Rightarrow> False)"

definition holder_alive :: "'w native_env \<Rightarrow> 'w \<Rightarrow> serverHolder \<Rightarrow> bool" where
  "holder_alive E w h =
     (if \<not> mark_alive E w (holder_Agent h) then False
      else case holder_Run h of None \<Rightarrow> True | Some run \<Rightarrow> mark_alive E w run)"

section \<open>The postmaster record and the lock file\<close>

definition postmasterRecordPath :: "string \<Rightarrow> string" where
  "postmasterRecordPath root = path_Join [root, ''postmaster.json'']"

definition readPostmasterRecord :: "'w host \<Rightarrow> string \<Rightarrow> postmasterRecord option" where
  "readPostmasterRecord h root =
     (case record_file (run_dirs h root) of
        None \<Rightarrow> None
      | Some r \<Rightarrow> if PID (Postmaster r) \<le> 0 then None else Some r)"

definition put_record :: "string \<Rightarrow> postmasterRecord option \<Rightarrow> 'w host \<Rightarrow> 'w host" where
  "put_record root r h = h\<lparr>run_dirs := (run_dirs h)(root := (run_dirs h root)\<lparr>record_file := r\<rparr>)\<rparr>"

definition put_holders :: "string \<Rightarrow> (string \<times> serverHolder option) list \<Rightarrow> 'w host \<Rightarrow> 'w host" where
  "put_holders root hs h = h\<lparr>run_dirs := (run_dirs h)(root := (run_dirs h root)\<lparr>holder_files := hs\<rparr>)\<rparr>"

definition writePostmasterRecord :: "'w native_env \<Rightarrow> string \<Rightarrow> postmasterRecord \<Rightarrow> 'w host \<Rightarrow> string option \<times> 'w host" where
  "writePostmasterRecord E root r h =
     (case write_file E (world h) (postmasterRecordPath root) of
        Some e \<Rightarrow> (Some e, h)
      | None \<Rightarrow> (None, put_record root (Some r) h))"

definition forgetPostmasterRecord :: "'w native_env \<Rightarrow> string \<Rightarrow> bool \<Rightarrow> 'w host \<Rightarrow> 'w host" where
  "forgetPostmasterRecord E root recorded h =
     (if \<not> recorded \<or> \<not> can_remove E (world h) (postmasterRecordPath root) then h else put_record root None h)"

definition postmasterPidFileOwner :: "'w native_env \<Rightarrow> 'w \<Rightarrow> string \<Rightarrow> int option" where
  "postmasterPidFileOwner E w pidPath =
     (case ReadPidFile E w pidPath of
        None \<Rightarrow> None
      | Some data \<Rightarrow>
          (case Fields data of
             [] \<Rightarrow> None
           | first # _ \<Rightarrow>
               (case Atoi first of
                  None \<Rightarrow> None
                | Some pid \<Rightarrow> if pid \<le> 0 \<or> \<not> signal0 E w pid then None else Some pid)))"

definition isPostmasterExecutable :: "string \<Rightarrow> bool" where
  "isPostmasterExecutable executable \<longleftrightarrow> executable = ''postgres'' \<or> executable = ''postmaster''"

datatype pid_refusal = HeldByAnother int int | HeldUnrecorded int | CannotInspect int string | CannotRemove string

definition pid_path :: "string \<Rightarrow> string" where
  "pid_path dataDir = path_Join [dataDir, ''postmaster.pid'']"

definition remove_pid :: "'w native_env \<Rightarrow> string \<Rightarrow> bool \<Rightarrow> 'w \<Rightarrow> pid_refusal option \<times> 'w" where
  "remove_pid E path absent_ok w =
     (case RemovePidFile E path w of
        (FileRemoved, w') \<Rightarrow> (None, w')
      | (ErrNotExist, w') \<Rightarrow> (if absent_ok then None else Some (CannotRemove path), w')
      | (RemoveFailed e, w') \<Rightarrow> (Some (CannotRemove e), w'))"

definition clearDisownedPostmasterPid :: "'w native_env \<Rightarrow> string \<Rightarrow> postmasterRecord option \<Rightarrow> 'w
    \<Rightarrow> pid_refusal option \<times> 'w" where
  "clearDisownedPostmasterPid E dataDir recorded w =
     (case postmasterPidFileOwner E w (pid_path dataDir) of
        None \<Rightarrow> remove_pid E (pid_path dataDir) True w
      | Some pid \<Rightarrow>
          (case InspectProcess E w pid of
             ErrProcessNotFound \<Rightarrow> remove_pid E (pid_path dataDir) False w
           | InspectionFailed e \<Rightarrow> (Some (CannotInspect pid e), w)
           | Inspected i \<Rightarrow>
               if isPostmasterExecutable (ident_Executable i)
               then (Some (case recorded of
                      Some r \<Rightarrow> HeldByAnother pid (PID (Postmaster r)) | None \<Rightarrow> HeldUnrecorded pid), w)
               else remove_pid E (pid_path dataDir) False w))"

definition attachedPostmaster :: "'w native_env \<Rightarrow> string \<Rightarrow> string \<Rightarrow> 'w host
    \<Rightarrow> (pid_refusal, postmasterRecord option) result \<times> 'w host" where
  "attachedPostmaster E root dataDir h =
     (let recorded = readPostmasterRecord h root in
      case recorded of
        Some r \<Rightarrow>
          if mark_alive E (world h) (Postmaster r) \<and> SocketDir r \<noteq> [] then (Inr (Some r), h)
          else (case clearDisownedPostmasterPid E dataDir recorded (world h) of
                  (Some e, w) \<Rightarrow> (Inl e, h\<lparr>world := w\<rparr>) | (None, w) \<Rightarrow> (Inr None, h\<lparr>world := w\<rparr>))
      | None \<Rightarrow>
          (case clearDisownedPostmasterPid E dataDir recorded (world h) of
             (Some e, w) \<Rightarrow> (Inl e, h\<lparr>world := w\<rparr>) | (None, w) \<Rightarrow> (Inr None, h\<lparr>world := w\<rparr>)))"

section \<open>Stopping the server\<close>

text \<open>The birth is checked again right before the signal, and the signal goes to that very identity.\<close>

definition signalPostmaster :: "'w native_env \<Rightarrow> processMark \<Rightarrow> signal \<Rightarrow> 'w host \<Rightarrow> string option \<times> 'w host" where
  "signalPostmaster E m sig h =
     (case InspectProcess E (world h) (PID m) of
        ErrProcessNotFound \<Rightarrow> (Some ''process not found'', h)
      | InspectionFailed e \<Rightarrow> (Some e, h)
      | Inspected i \<Rightarrow>
          if \<not> same_birth i m then (Some ''no longer the process this run started'', h)
          else (case SignalProcess E (PID m) i sig (world h) of
                  (e, w) \<Rightarrow> (e, h\<lparr>world := w, signals := signals h @ [(PID m, i, sig)]\<rparr>)))"

text \<open>The polling loop; times are in milliseconds. It may not end for a clock that stands still.\<close>

partial_function (option) waitGone_until :: "'w native_env \<Rightarrow> processMark \<Rightarrow> int \<Rightarrow> 'w \<Rightarrow> (bool \<times> 'w) option" where
  "waitGone_until E m deadline w =
     (if Now E w < deadline then
        (if \<not> confirmed E w m then Some (True, w) else waitGone_until E m deadline (Sleep E 100 w))
      else Some (\<not> confirmed E w m, w))"

definition waitGone :: "'w native_env \<Rightarrow> processMark \<Rightarrow> int \<Rightarrow> 'w \<Rightarrow> (bool \<times> 'w) option" where
  "waitGone E m budget w = waitGone_until E m (Now E w + budget) w"

definition serverStopTimeout :: int where "serverStopTimeout = 60000"

definition stopped_server :: "'w native_env \<Rightarrow> string \<Rightarrow> string \<Rightarrow> postmasterRecord \<Rightarrow> 'w host \<Rightarrow> 'w host" where
  "stopped_server E root dataDir r h =
     (let h1 = (if prefix ''cfpg-'' (Base (SocketDir r)) then h\<lparr>world := snd (RemoveAll E (SocketDir r) (world h))\<rparr> else h);
          h2 = forgetPostmasterRecord E root True h1 in
      h2\<lparr>world := snd (RemovePidFile E (pid_path dataDir) (world h2))\<rparr>)"

definition stopServer :: "'w native_env \<Rightarrow> string \<Rightarrow> string \<Rightarrow> 'w host \<Rightarrow> ((bool \<times> string option) \<times> 'w host) option" where
  "stopServer E root dataDir h =
     (case readPostmasterRecord h root of
        None \<Rightarrow> Some ((False, None), forgetPostmasterRecord E root False h)
      | Some r \<Rightarrow>
          (let m = Postmaster r in
           if \<not> confirmed E (world h) m then Some ((False, None), forgetPostmasterRecord E root True h)
           else case signalPostmaster E m SIGINT h of
             (Some e, h1) \<Rightarrow>
               if \<not> confirmed E (world h1) m then Some ((False, None), forgetPostmasterRecord E root True h1)
               else Some ((False, Some e), h1)
           | (None, h1) \<Rightarrow>
               (case waitGone E m serverStopTimeout (world h1) of
                  None \<Rightarrow> None
                | Some (True, w2) \<Rightarrow> Some ((True, None), stopped_server E root dataDir r (h1\<lparr>world := w2\<rparr>))
                | Some (False, w2) \<Rightarrow>
                    (let h3 = snd (signalPostmaster E m SIGQUIT (h1\<lparr>world := w2\<rparr>)) in
                     case waitGone E m 10000 (world h3) of
                       None \<Rightarrow> None
                     | Some (False, w4) \<Rightarrow> Some ((False, Some ''did not stop''), h3\<lparr>world := w4\<rparr>)
                     | Some (True, w4) \<Rightarrow> Some ((True, None), stopped_server E root dataDir r (h3\<lparr>world := w4\<rparr>))))))"

section \<open>Holders\<close>

definition holder_kept :: "'w native_env \<Rightarrow> 'w \<Rightarrow> string \<times> serverHolder option \<Rightarrow> bool" where
  "holder_kept E w entry =
     (case snd entry of None \<Rightarrow> False | Some holder \<Rightarrow> holder_alive E w holder)"

definition holder_name :: "'w native_env \<Rightarrow> string \<Rightarrow> string" where
  "holder_name E service = take 16 (service_hash E service) @ ''.json''"

definition holder_path :: "string \<Rightarrow> string \<Rightarrow> string" where
  "holder_path root name = path_Join [root, ''holders'', name]"

text \<open>Other entries of the directory are skipped; a record whose removal fails stays.\<close>

definition pruneHolders :: "'w native_env \<Rightarrow> string \<Rightarrow> 'w host \<Rightarrow> (string, nat) result \<times> 'w host" where
  "pruneHolders E root h =
     (case holders_error E (world h) root of
        Some e \<Rightarrow> (Inl e, h)
      | None \<Rightarrow>
          (let entries = holder_files (run_dirs h root);
               json = (\<lambda>entry. suffix ''.json'' (fst entry)) in
           (Inr (length (filter (\<lambda>x. json x \<and> holder_kept E (world h) x) entries)),
            put_holders root (filter (\<lambda>x. \<not> json x \<or> holder_kept E (world h) x
                \<or> \<not> can_remove E (world h) (holder_path root (fst x))) entries) h)))"

text \<open>The agent's own process and its parent's are given as \<open>Getpid\<close> and \<open>Getppid\<close>.\<close>

definition register :: "'w native_env \<Rightarrow> int \<times> int \<Rightarrow> string \<Rightarrow> string \<Rightarrow> 'w host \<Rightarrow> (string, string) result \<times> 'w host" where
  "register E self root service h =
     (case markProcess E (world h) (fst self) of
        Inl e \<Rightarrow> (Inl e, h)
      | Inr agent \<Rightarrow>
          (let run = (if snd self > 1 then
                        (case markProcess E (world h) (snd self) of Inr m \<Rightarrow> Some m | Inl _ \<Rightarrow> None)
                      else None);
               name = holder_name E service in
           case write_file E (world h) (holder_path root name) of
             Some e \<Rightarrow> (Inl e, h)
           | None \<Rightarrow>
               (Inr name, put_holders root
                  ((name, Some \<lparr>holder_Service = service, holder_Agent = agent, holder_Run = run\<rparr>)
                     # filter (\<lambda>x. fst x \<noteq> name) (holder_files (run_dirs h root))) h)))"

section \<open>Acquiring and releasing\<close>

record nixPostgres =
  np_root :: string
  np_dataDir :: string
  np_socketDir :: string
  np_adminPassword :: string
  np_holder :: string
  np_forwarder :: "nat option"

datatype acquire_error =
    DirectoryError string
  | LockError string
  | HoldersError string
  | PidError pid_refusal
  | StartError string
  | PasswordError string
  | PingError string
  | RegisterError string

section \<open>The server's options\<close>

definition serverSocketPort :: nat where "serverSocketPort = 5432"
definition serverMaxConnections :: nat where "serverMaxConnections = 500"

definition serverOptions :: "unicode \<Rightarrow> string \<Rightarrow> string \<Rightarrow> (string, string) result" where
  "serverOptions U socketDir logLevel =
     (if ContainsAny socketDir [CHR 0x20, CHR 0x09, CHR 0x0A, CHR 0x27, CHR 0x22, CHR 0x5C, CHR 0x24, CHR 0x60]
      then Inl ''socket dir''
      else
       (let options = [''-c listen_addresses='' @ [CHR 0x27, CHR 0x27], ''-k '' @ socketDir,
              ''-p '' @ Itoa serverSocketPort, ''-c max_connections='' @ Itoa serverMaxConnections];
            low = map (ToLower U) (runes (TrimSpace logLevel));
            lvl = map char_of low in
        if low = [] then Inr (Join options '' '')
        else if \<not> list_all (\<lambda>r. 97 \<le> r \<and> r \<le> 122 \<or> 48 \<le> r \<and> r \<le> 57) low then Inl ''log level''
        else Inr (Join (options @ [''-c log_min_messages='' @ lvl, ''-c log_statement=none'',
               ''-c log_connections=off'', ''-c log_disconnections=off'']) '' '')))"

definition nativeMajor :: string where "nativeMajor = ''17''"

definition runServerKey :: "string \<Rightarrow> string \<Rightarrow> string" where
  "runServerKey workspacePath namingScope =
     workspacePath @ NUL # ''naming-scope'' @ NUL # namingScope @ NUL # ''postgres'' @ NUL # nativeMajor"

text \<open>The first build with the server and its control program, preferring one with pgvector.\<close>

fun pick_bin_dir :: "(string \<Rightarrow> bool) \<Rightarrow> string \<Rightarrow> string list \<Rightarrow> string option" where
  "pick_bin_dir exists fallback [] = (if fallback \<noteq> [] then Some fallback else None)"
| "pick_bin_dir exists fallback (m # ms) =
     (let binDir = Dir m in
      if \<not> (exists (path_Join [binDir, ''postgres'']) \<and> exists (path_Join [binDir, ''pg_ctl'']))
      then pick_bin_dir exists fallback ms
      else if exists (path_Join [Dir binDir, ''share'', ''postgresql'', ''extension'', ''vector.control''])
      then Some binDir
      else pick_bin_dir exists (if fallback = [] then binDir else fallback) ms)"

definition resolveBinDir :: "(string \<Rightarrow> string list option) \<Rightarrow> (string \<Rightarrow> bool) \<Rightarrow> string option" where
  "resolveBinDir glob exists =
     (case glob (''/nix/store/*postgresql*'' @ nativeMajor @ ''*/bin/initdb'') of
        None \<Rightarrow> None
      | Some matches \<Rightarrow> pick_bin_dir exists [] matches)"

section \<open>Starting the server\<close>

definition serverAdminRole :: string where "serverAdminRole = ''codefly_admin''"
definition serverStartSeconds :: nat where "serverStartSeconds = 60"

definition adminPasswordPath :: "string \<Rightarrow> string" where
  "adminPasswordPath root = path_Join [root, ''admin.password'']"

definition readAdminPassword :: "'w native_env \<Rightarrow> 'w \<Rightarrow> string \<Rightarrow> (string, string) result" where
  "readAdminPassword E w root =
     (case ReadText E w (adminPasswordPath root) of
        Inl e \<Rightarrow> Inl e
      | Inr data \<Rightarrow> if TrimSpace data = [] then Inl ''empty password'' else Inr (TrimSpace data))"

definition adminDSN :: "string \<Rightarrow> string \<Rightarrow> string \<Rightarrow> admin_dsn" where
  "adminDSN socketDir password database =
     \<lparr>dsn_User = serverAdminRole, dsn_Password = password, dsn_Path = ''/'' @ database,
      dsn_host = socketDir, dsn_port = Itoa serverSocketPort, dsn_sslmode = ''disable''\<rparr>"

definition initdbArgs :: "string \<Rightarrow> string \<Rightarrow> string list" where
  "initdbArgs dataDir passwordFile =
     [''-D'', dataDir, ''-U'', serverAdminRole, ''--auth-local=scram-sha-256'', ''--auth-host=scram-sha-256'',
      ''--pwfile='' @ passwordFile, ''--no-locale'', ''-E'', ''UTF8'']"

text \<open>Creating a process and running it.\<close>

definition run_process :: "'w native_env \<Rightarrow> string \<Rightarrow> string list \<Rightarrow> (string, 'w) action" where
  "run_process E program args = andThen (Call E (NewProcess program args)) (Call E (RunProcess program args))"

definition initdbIfNeeded :: "'w native_env \<Rightarrow> string \<Rightarrow> string \<Rightarrow> string \<Rightarrow> (string, 'w) action" where
  "initdbIfNeeded E root dataDir binDir w =
     (if FileExists E w (path_Join [dataDir, ''PG_VERSION'']) then (None, w)
      else case andThen (RemoveAll E dataDir) (MkdirAll E dataDir) w of
        (Some e, w1) \<Rightarrow> (Some e, w1)
      | (None, w1) \<Rightarrow>
          (case RandRead E w1 of
             (Inl e, w2) \<Rightarrow> (Some e, w2)
           | (Inr secret, w2) \<Rightarrow>
               andThen (Call E (WriteOwnerOnly (adminPasswordPath root) (EncodeToString secret @ [CHR 0x0A])))
                 (run_process E (path_Join [binDir, ''initdb'']) (initdbArgs dataDir (adminPasswordPath root))) w2))"

definition nix_prepared :: "'w native_env \<Rightarrow> string \<Rightarrow> (string, 'w) action" where
  "nix_prepared E root =
     (let flakeDir = path_Join [root, ''nix''] in
      andThen (MkdirAll E flakeDir)
      (andThen (Call E (WriteFile (path_Join [flakeDir, ''flake.nix'']) (fst (pgFlake E))))
      (andThen (Call E (WriteFile (path_Join [flakeDir, ''flake.lock'']) (snd (pgFlake E))))
      (andThen (Call E (NewNixEnvironment flakeDir))
      (Call E (NixInit flakeDir (path_Join [root, ''.nix-cache''])))))))"

text \<open>From the private socket directory on, every failure removes that directory again.\<close>

definition pg_ctl_start :: "'w native_env \<Rightarrow> string \<Rightarrow> string \<Rightarrow> string \<Rightarrow> string \<Rightarrow> string \<Rightarrow> (string, 'w) action" where
  "pg_ctl_start E root dataDir logLevel binDir socketDir =
     andThen (Call E (ChmodPrivate socketDir))
       (\<lambda>w. case serverOptions (unicode_tables E) socketDir logLevel of
          Inl e \<Rightarrow> (Some e, w)
        | Inr options \<Rightarrow>
            run_process E (path_Join [binDir, ''pg_ctl''])
              [''start'', ''-D'', dataDir, ''-w'', ''-t'', Itoa serverStartSeconds,
               ''-l'', path_Join [root, ''server.log''], ''-o'', options] w)"

definition launch :: "'w native_env \<Rightarrow> string \<Rightarrow> string \<Rightarrow> string \<Rightarrow> 'w \<Rightarrow> (string, string) result \<times> 'w" where
  "launch E root dataDir logLevel w =
     (case nix_prepared E root w of
        (Some e, w1) \<Rightarrow> (Inl e, w1)
      | (None, w1) \<Rightarrow>
          (case resolveBinDir (Glob E w1) (FileExists E w1) of
             None \<Rightarrow> (Inl ''no nix postgresql'', w1)
           | Some binDir \<Rightarrow>
               (case initdbIfNeeded E root dataDir binDir w1 of
                  (Some e, w2) \<Rightarrow> (Inl e, w2)
                | (None, w2) \<Rightarrow>
                    (case MkdirTemp E (''cfpg-'' @ take 8 (Base root) @ ''-'') w2 of
                       (Inl e, w3) \<Rightarrow> (Inl e, w3)
                     | (Inr socketDir, w3) \<Rightarrow>
                         (case pg_ctl_start E root dataDir logLevel binDir socketDir w3 of
                            (Some e, w4) \<Rightarrow> (Inl e, snd (RemoveAll E socketDir w4))
                          | (None, w4) \<Rightarrow> (Inr socketDir, w4))))))"

definition restrictMaintenanceDatabases :: "'w native_env \<Rightarrow> string \<Rightarrow> string \<Rightarrow> (string, 'w) action" where
  "restrictMaintenanceDatabases E root socketDir w =
     (case readAdminPassword E w root of
        Inl e \<Rightarrow> (Some e, w)
      | Inr password \<Rightarrow>
          each (\<lambda>q. Call E (ExecAdmin (adminDSN socketDir password ''postgres'') q))
            [''REVOKE ALL ON DATABASE postgres FROM PUBLIC'', ''REVOKE ALL ON DATABASE template1 FROM PUBLIC''] w)"

definition start_server :: "'w native_env \<Rightarrow> string \<Rightarrow> string \<Rightarrow> string \<Rightarrow> 'w host
    \<Rightarrow> (acquire_error, postmasterRecord) result \<times> 'w host" where
  "start_server E root dataDir logLevel h =
     (case launch E root dataDir logLevel (world h) of
        (Inl e, w) \<Rightarrow> (Inl (StartError e), h\<lparr>world := w\<rparr>)
      | (Inr socketDir, w) \<Rightarrow>
          (case postmasterPidFileOwner E w (pid_path dataDir) of
             None \<Rightarrow> (Inl (StartError ''no live postmaster''), h\<lparr>world := w\<rparr>)
           | Some pid \<Rightarrow>
               (case markProcess E w pid of
                  Inl e \<Rightarrow> (Inl (StartError e), h\<lparr>world := w\<rparr>)
                | Inr m \<Rightarrow>
                    (let r = \<lparr>Postmaster = m, SocketDir = socketDir\<rparr> in
                     case writePostmasterRecord E root r (h\<lparr>world := w\<rparr>) of
                       (Some e, h1) \<Rightarrow> (Inl (StartError e), h1)
                     | (None, h1) \<Rightarrow>
                         (case restrictMaintenanceDatabases E root socketDir (world h1) of
                            (Some e, w2) \<Rightarrow> (Inl (StartError e), h1\<lparr>world := w2\<rparr>)
                          | (None, w2) \<Rightarrow> (Inr r, h1\<lparr>world := w2\<rparr>))))))"

text \<open>One other run root, if it is a directory, not this run's, and its lock is free.\<close>

definition collect_root :: "'w native_env \<Rightarrow> string \<Rightarrow> 'w host \<Rightarrow> 'w host option" where
  "collect_root E root h =
     (if \<not> try_lock E root (world h) then Some h
      else case pruneHolders E root h of
        (Inl e, h1) \<Rightarrow> Some h1
      | (Inr live, h1) \<Rightarrow>
          if live = 0 then map_option snd (stopServer E root (path_Join [root, ''pgdata'']) h1) else Some h1)"

fun collect_roots :: "'w native_env \<Rightarrow> string \<Rightarrow> string \<Rightarrow> (string \<times> bool) list \<Rightarrow> 'w host \<Rightarrow> 'w host option" where
  "collect_roots E servers self [] h = Some h"
| "collect_roots E servers self ((name, isDir) # entries) h =
     (let root = path_Join [servers, name] in
      if \<not> isDir \<or> root = self \<or> ctx_done E (world h) then collect_roots E servers self entries h
      else case collect_root E root h of
        None \<Rightarrow> None
      | Some h1 \<Rightarrow> collect_roots E servers self entries h1)"

definition collectAbandonedServers :: "'w native_env \<Rightarrow> string \<Rightarrow> string \<Rightarrow> 'w host \<Rightarrow> 'w host option" where
  "collectAbandonedServers E servers self h =
     (case server_roots E (world h) of None \<Rightarrow> Some h | Some entries \<Rightarrow> collect_roots E servers self entries h)"

text \<open>What follows a running server: the password, the ping and the holder record.\<close>

definition attach_server :: "'w native_env \<Rightarrow> int \<times> int \<Rightarrow> string \<Rightarrow> string \<Rightarrow> string \<Rightarrow> postmasterRecord \<Rightarrow> 'w host
    \<Rightarrow> (acquire_error, nixPostgres) result \<times> 'w host" where
  "attach_server E self root dataDir service r h =
     (case readAdminPassword E (world h) root of
        Inl e \<Rightarrow> (Inl (PasswordError e), h)
      | Inr password \<Rightarrow>
          (case Call E (PingAdmin (adminDSN (SocketDir r) password ''postgres'')) (world h) of
             (Some e, w) \<Rightarrow> (Inl (PingError e), h\<lparr>world := w\<rparr>)
           | (None, w) \<Rightarrow>
               (case register E self root service (h\<lparr>world := w\<rparr>) of
                  (Inl e, h1) \<Rightarrow> (Inl (RegisterError e), h1)
                | (Inr name, h1) \<Rightarrow>
                    (Inr \<lparr>np_root = root, np_dataDir = dataDir, np_socketDir = SocketDir r,
                          np_adminPassword = password, np_holder = name, np_forwarder = None\<rparr>, h1))))"

text \<open>The section of \<open>acquireRunServer\<close> under the run's lock; a failed call stops a server it started for nobody.\<close>

definition acquire_locked :: "'w native_env \<Rightarrow> int \<times> int \<Rightarrow> string \<Rightarrow> string \<Rightarrow> string \<Rightarrow> 'w host
    \<Rightarrow> ((acquire_error, nixPostgres) result \<times> 'w host) option" where
  "acquire_locked E self root service logLevel h =
     (let dataDir = path_Join [root, ''pgdata''] in
      case pruneHolders E root h of
        (Inl e, h1) \<Rightarrow> Some (Inl (HoldersError e), h1)
      | (Inr live, h1) \<Rightarrow>
          (case attachedPostmaster E root dataDir h1 of
             (Inl e, h2) \<Rightarrow> Some (Inl (PidError e), h2)
           | (Inr (Some r), h2) \<Rightarrow> Some (attach_server E self root dataDir service r h2)
           | (Inr None, h2) \<Rightarrow>
               (let (result, h3) = (case start_server E root dataDir logLevel h2 of
                      (Inl e, h3) \<Rightarrow> (Inl e, h3)
                    | (Inr r, h3) \<Rightarrow> attach_server E self root dataDir service r h3) in
                case result of
                  Inr n \<Rightarrow> Some (Inr n, h3)
                | Inl e \<Rightarrow>
                    if live = 0 then map_option (\<lambda>(x, h4). (Inl e, h4)) (stopServer E root dataDir h3)
                    else Some (Inl e, h3))))"

definition acquireRunServer :: "'w native_env \<Rightarrow> int \<times> int \<Rightarrow> string \<Rightarrow> string \<Rightarrow> string \<Rightarrow> string \<Rightarrow> 'w host
    \<Rightarrow> ((acquire_error, nixPostgres) result \<times> 'w host) option" where
  "acquireRunServer E self servers key service logLevel h =
     (let root = path_Join [servers, take 16 (service_hash E key)] in
      case MkdirAll E (path_Join [root, ''holders'']) (world h) of
        (Some e, w) \<Rightarrow> Some (Inl (DirectoryError e), h\<lparr>world := w\<rparr>)
      | (None, w) \<Rightarrow>
          (case collectAbandonedServers E servers root (h\<lparr>world := w\<rparr>) of
             None \<Rightarrow> None
           | Some h1 \<Rightarrow>
               (case lock_root E root (world h1) of
                  (Some e, w2) \<Rightarrow> Some (Inl (LockError e), h1\<lparr>world := w2\<rparr>)
                | (None, w2) \<Rightarrow> acquire_locked E self root service logLevel (h1\<lparr>world := w2\<rparr>))))"

text \<open>The section of \<open>release\<close> under the lock.\<close>

definition release_locked :: "'w native_env \<Rightarrow> nixPostgres \<Rightarrow> 'w host \<Rightarrow> ((bool \<times> string option) \<times> nixPostgres \<times> 'w host) option" where
  "release_locked E n h =
     (let root = np_root n; hs = holder_files (run_dirs h root) in
      if np_holder n \<noteq> [] \<and> np_holder n \<in> set (map fst hs) \<and> \<not> can_remove E (world h) (holder_path root (np_holder n))
      then Some ((False, Some ''remove holder''), n, h)
      else
       (let h1 = (if np_holder n \<noteq> [] then put_holders root (filter (\<lambda>x. fst x \<noteq> np_holder n) hs) h else h);
            n1 = n\<lparr>np_holder := []\<rparr> in
        case pruneHolders E root h1 of
          (Inl e, h2) \<Rightarrow> Some ((False, Some e), n1, h2)
        | (Inr live, h2) \<Rightarrow>
            if live > 0 then Some ((False, None), n1, h2)
            else map_option (\<lambda>(r, h3). (r, n1, h3)) (stopServer E root (np_dataDir n) h2)))"

definition release_server :: "'w native_env \<Rightarrow> nixPostgres \<Rightarrow> 'w host
    \<Rightarrow> ((bool \<times> string option list) \<times> nixPostgres \<times> 'w host) option" where
  "release_server E n h =
     (let (forwardErr, w) = (case np_forwarder n of None \<Rightarrow> (None, world h) | Some f \<Rightarrow> close_forwarder E f (world h));
          n1 = n\<lparr>np_forwarder := None\<rparr>; h1 = h\<lparr>world := w\<rparr> in
      if np_root n = [] then Some ((False, [forwardErr]), n1, h1)
      else case lock_root E (np_root n) w of
        (Some e, w2) \<Rightarrow> Some ((False, [forwardErr, Some e]), n1, h1\<lparr>world := w2\<rparr>)
      | (None, w2) \<Rightarrow>
          map_option (\<lambda>((stopped, err), n2, h2). ((stopped, [forwardErr, err]), n2, h2))
            (release_locked E n1 (h1\<lparr>world := w2\<rparr>)))"

section \<open>The waits end\<close>

definition clock_runs :: "'w native_env \<Rightarrow> bool" where
  "clock_runs E \<longleftrightarrow> (\<forall>d w. 0 < d \<longrightarrow> Now E w + d \<le> Now E (Sleep E d w))"

declare waitGone_until.simps [code]

lemma waitGone_until_returns:
  assumes "clock_runs E"
  shows "\<exists>r. waitGone_until E m deadline w = Some r"
proof (induction "nat (deadline - Now E w)" arbitrary: w rule: less_induct)
  case less
  have "Now E w + 100 \<le> Now E (Sleep E 100 w)"
    using assms unfolding clock_runs_def by (metis zero_less_numeral)
  then have "Now E w < deadline \<Longrightarrow> \<exists>r. waitGone_until E m deadline (Sleep E 100 w) = Some r"
    by (intro less) auto
  then show ?case by (subst waitGone_until.simps) auto
qed

lemma waitGone_returns: "clock_runs E \<Longrightarrow> waitGone E m budget w \<noteq> None"
  using waitGone_until_returns [of E m] by (auto simp: waitGone_def)

lemma stopServer_returns: "clock_runs E \<Longrightarrow> stopServer E root dataDir h \<noteq> None"
  by (auto simp: stopServer_def Let_def waitGone_returns split: option.splits prod.splits bool.splits)

lemma collect_root_returns: "clock_runs E \<Longrightarrow> collect_root E root h \<noteq> None"
  by (auto simp: collect_root_def stopServer_returns simp del: not_None_eq split: prod.splits sum.splits)

lemma collect_roots_returns: "clock_runs E \<Longrightarrow> collect_roots E servers self entries h \<noteq> None"
proof (induction entries arbitrary: h)
  case (Cons e entries)
  then show ?case
    by (cases e) (auto simp: Let_def collect_root_returns simp del: not_None_eq split: option.splits)
qed simp

lemma acquire_locked_returns: "clock_runs E \<Longrightarrow> acquire_locked E self root service lvl h \<noteq> None"
  by (auto simp: acquire_locked_def Let_def stopServer_returns simp del: not_None_eq
      split: prod.splits sum.splits option.splits)

lemma release_locked_returns: "clock_runs E \<Longrightarrow> release_locked E n h \<noteq> None"
  by (auto simp: release_locked_def Let_def stopServer_returns simp del: not_None_eq
      split: prod.splits sum.splits option.splits)


section \<open>Who is signalled\<close>

text \<open>A run of signals to the recorded birth, and the files it leaves alone.\<close>

definition signals_birth :: "processMark \<Rightarrow> 'w host \<Rightarrow> 'w host \<Rightarrow> bool" where
  "signals_birth m h h' \<longleftrightarrow>
     (\<exists>sent. signals h' = signals h @ sent \<and> (\<forall>(pid, i, sig) \<in> set sent. pid = PID m \<and> same_birth i m))"

lemma signals_birth_refl [simp]: "signals_birth m h h"
  by (auto simp: signals_birth_def)

lemma signals_birth_trans: "signals_birth m h h' \<Longrightarrow> signals_birth m h' h'' \<Longrightarrow> signals_birth m h h''"
  unfolding signals_birth_def by (metis (no_types, lifting) Un_iff append.assoc set_append)

lemma signals_birth_same: "signals h' = signals h \<Longrightarrow> signals_birth m h h'"
  by (auto simp: signals_birth_def)

lemma put_fields [simp]:
  "signals (put_record root r h) = signals h" "signals (put_holders root hs h) = signals h"
  "world (put_record root r h) = world h" "world (put_holders root hs h) = world h"
  "holder_files (run_dirs (put_record root r h) root') = holder_files (run_dirs h root')"
  "holder_files (run_dirs (put_holders root hs h) root) = hs"
  "record_file (run_dirs (put_holders root hs h) root') = record_file (run_dirs h root')"
  by (simp_all add: put_record_def put_holders_def)

lemma forget_fields [simp]:
  "signals (forgetPostmasterRecord E root b h) = signals h" "world (forgetPostmasterRecord E root b h) = world h"
  "holder_files (run_dirs (forgetPostmasterRecord E root b h) root') = holder_files (run_dirs h root')"
  by (simp_all add: forgetPostmasterRecord_def)

lemma signalPostmaster_birth:
  "signalPostmaster E m sig h = (e, h') \<Longrightarrow> signals_birth m h h' \<and> run_dirs h' = run_dirs h"
  by (auto simp: signalPostmaster_def signals_birth_def split: inspection.splits if_splits prod.splits)

lemma stopped_server_fields [simp]:
  "signals (stopped_server E root dataDir r h) = signals h"
  "holder_files (run_dirs (stopped_server E root dataDir r h) root') = holder_files (run_dirs h root')"
  by (simp_all add: stopped_server_def Let_def)

lemma readPostmasterRecord_holders [simp]:
  "readPostmasterRecord (put_holders root hs h) root' = readPostmasterRecord h root'"
  by (simp add: readPostmasterRecord_def)

text \<open>What each step of \<open>stopServer\<close> keeps, the whole keeps.\<close>

lemma stopServer_keeps:
  assumes run: "stopServer E root dataDir h = Some (res, h')"
    and R: "\<And>u. R u u" "\<And>u v x. R u v \<Longrightarrow> R v x \<Longrightarrow> R u x"
    and sig: "\<And>r sig u. readPostmasterRecord h root = Some r \<Longrightarrow> R u (snd (signalPostmaster E (Postmaster r) sig u))"
    and wait: "\<And>m b u c w. waitGone E m b (world u) = Some (c, w) \<Longrightarrow> R u (u\<lparr>world := w\<rparr>)"
    and forget: "\<And>u b. R u (forgetPostmasterRecord E root b u)"
    and stop: "\<And>u r. R u (stopped_server E root dataDir r u)"
  shows "R h h'"
proof (cases "readPostmasterRecord h root")
  case None
  then show ?thesis using run forget by (simp add: stopServer_def) metis
next
  case (Some r)
  obtain e h1 where s1: "signalPostmaster E (Postmaster r) SIGINT h = (e, h1)" by fastforce
  have h1: "R h h1" using sig [OF Some, of h SIGINT] s1 by simp
  show ?thesis
  proof (cases "confirmed E (world h) (Postmaster r)")
    case False
    then show ?thesis using run Some forget by (simp add: stopServer_def Let_def) metis
  next
    case conf: True
    show ?thesis
    proof (cases e)
      case (Some e')
      then have "h' = h1 \<or> h' = forgetPostmasterRecord E root True h1"
        using run \<open>readPostmasterRecord h root = Some r\<close> s1 conf
        by (simp add: stopServer_def Let_def split: if_splits)
      then show ?thesis by (elim disjE) (simp_all add: h1 R(2) [OF h1 forget])
    next
      case None
      then obtain c w2 where w2: "waitGone E (Postmaster r) serverStopTimeout (world h1) = Some (c, w2)"
        using run Some s1 conf by (auto simp: stopServer_def Let_def split: option.splits)
      let ?h2 = "h1\<lparr>world := w2\<rparr>" and ?h3 = "snd (signalPostmaster E (Postmaster r) SIGQUIT (h1\<lparr>world := w2\<rparr>))"
      have h2: "R h ?h2" using h1 wait [OF w2] R(2) by blast
      show ?thesis
      proof (cases c)
        case True
        then have "h' = stopped_server E root dataDir r ?h2"
          using run Some s1 conf None w2 by (simp add: stopServer_def Let_def)
        then show ?thesis by (simp add: R(2) [OF h2 stop])
      next
        case False
        then obtain d w4 where w4: "waitGone E (Postmaster r) 10000 (world ?h3) = Some (d, w4)"
          using run Some s1 conf None w2 by (auto simp: stopServer_def Let_def split: option.splits)
        have h4: "R h (?h3\<lparr>world := w4\<rparr>)"
          using h2 sig [OF Some, of ?h2 SIGQUIT] wait [OF w4] R(2) by blast
        have "h' = ?h3\<lparr>world := w4\<rparr> \<or> h' = stopped_server E root dataDir r (?h3\<lparr>world := w4\<rparr>)"
          using run Some s1 conf None w2 False w4 by (cases d) (simp_all add: stopServer_def Let_def)
        then show ?thesis by (elim disjE) (simp_all add: h4 R(2) [OF h4 stop])
      qed
    qed
  qed
qed

lemma stopServer_signals:
  assumes run: "stopServer E root dataDir h = Some (res, h')"
  shows "signals h' = signals h \<or> (\<exists>r. readPostmasterRecord h root = Some r \<and> signals_birth (Postmaster r) h h')"
proof (cases "readPostmasterRecord h root")
  case None
  then show ?thesis using run by (auto simp: stopServer_def)
next
  case (Some r)
  have "signals_birth (Postmaster r) h h'"
  proof (rule stopServer_keeps [OF run, where R = "signals_birth (Postmaster r)"])
    fix r' sig u assume "readPostmasterRecord h root = Some r'"
    then show "signals_birth (Postmaster r) u (snd (signalPostmaster E (Postmaster r') sig u))"
      using Some signalPostmaster_birth [of E "Postmaster r" sig u] by (metis option.inject prod.collapse)
  qed (auto intro: signals_birth_trans signals_birth_same)
  with Some show ?thesis by blast
qed

lemma stopServer_holder_files:
  assumes run: "stopServer E root dataDir h = Some (res, h')"
  shows "holder_files (run_dirs h' root') = holder_files (run_dirs h root')"
proof -
  have "(\<lambda>u v. holder_files (run_dirs v root') = holder_files (run_dirs u root')) h h'"
    by (rule stopServer_keeps [OF run])
      (auto simp: signalPostmaster_def split: inspection.splits prod.splits)
  then show ?thesis .
qed

lemma pruneHolders_Inr:
  assumes "pruneHolders E root h = (Inr live, h')"
  shows "signals h' = signals h" "world h' = world h" "readPostmasterRecord h' root = readPostmasterRecord h root"
    "live = 0 \<longleftrightarrow> (\<forall>x \<in> set (holder_files (run_dirs h root)). suffix ''.json'' (fst x) \<longrightarrow> \<not> holder_kept E (world h) x)"
  using assms by (auto simp: pruneHolders_def Let_def filter_empty_conv split: option.splits)

lemma collect_root_signals:
  assumes "collect_root E root h = Some h'"
  shows "signals h' = signals h \<or>
    (\<exists>r. readPostmasterRecord h root = Some r \<and> signals_birth (Postmaster r) h h') \<and>
    (\<forall>x \<in> set (holder_files (run_dirs h root)). suffix ''.json'' (fst x) \<longrightarrow> \<not> holder_kept E (world h) x)"
proof (cases "signals h' = signals h")
  case False
  then obtain live h1 res where p: "pruneHolders E root h = (Inr live, h1)" "live = 0"
    and s: "stopServer E root (path_Join [root, ''pgdata'']) h1 = Some (res, h')"
    using assms by (auto simp: collect_root_def pruneHolders_def Let_def split: if_splits prod.splits sum.splits option.splits)
  note pr = pruneHolders_Inr [OF p(1)]
  from stopServer_signals [OF s] False pr
  obtain r where "readPostmasterRecord h root = Some r" "signals_birth (Postmaster r) h1 h'" by auto
  moreover from this(2) have "signals_birth (Postmaster r) h h'" using pr(1) by (simp add: signals_birth_def)
  ultimately show ?thesis using pr(4) p(2) by blast
qed simp

lemma release_locked_signals:
  assumes "release_locked E n h = Some (res, n', h')"
  shows "signals h' = signals h \<or>
    (\<exists>r. readPostmasterRecord h (np_root n) = Some r \<and> signals_birth (Postmaster r) h h') \<and>
    (\<forall>x \<in> set (holder_files (run_dirs h (np_root n))). fst x \<noteq> np_holder n \<longrightarrow> suffix ''.json'' (fst x) \<longrightarrow>
       \<not> holder_kept E (world h) x)"
proof (cases "signals h' = signals h")
  case False
  let ?root = "np_root n"
  let ?h1 = "if np_holder n \<noteq> [] then put_holders ?root
      (filter (\<lambda>x. fst x \<noteq> np_holder n) (holder_files (run_dirs h ?root))) h else h"
  have same: "signals ?h1 = signals h" "world ?h1 = world h" "readPostmasterRecord ?h1 ?root = readPostmasterRecord h ?root"
    by simp_all
  obtain live h2 res' where p: "pruneHolders E ?root ?h1 = (Inr live, h2)" "live = 0"
    and s: "stopServer E ?root (np_dataDir n) h2 = Some (res', h')"
    using assms False
    by (auto simp: release_locked_def pruneHolders_def Let_def split: if_splits prod.splits sum.splits option.splits)
  note pr = pruneHolders_Inr [OF p(1)]
  from stopServer_signals [OF s] False pr same
  obtain r where "readPostmasterRecord h ?root = Some r" "signals_birth (Postmaster r) h2 h'" by auto
  moreover from this(2) have "signals_birth (Postmaster r) h h'" using pr(1) same by (simp add: signals_birth_def)
  moreover have "\<forall>x \<in> set (holder_files (run_dirs ?h1 ?root)). suffix ''.json'' (fst x) \<longrightarrow> \<not> holder_kept E (world h) x"
    using pr(4) p(2) same by metis
  ultimately show ?thesis by (auto split: if_splits)
qed simp

text \<open>The holder file is named by the service alone, so a second agent of one service takes the place of
  the first one's record: of that name only the second agent's is left.\<close>

lemma same_service_holder_replaced:
  assumes "register E self root service h = (Inr name, h')"
  shows "name = holder_name E service \<and>
    (\<exists>holder. filter (\<lambda>x. fst x = name) (holder_files (run_dirs h' root)) = [(name, Some holder)] \<and>
       PID (holder_Agent holder) = fst self)"
  using assms
  by (auto simp: register_def markProcess_def put_holders_def Let_def split: sum.splits option.splits inspection.splits)

section \<open>Holders survive while they live\<close>

text \<open>
  What is assumed of the host. \<open>later\<close> relates a world to what it can become, and every operation
  only moves forward; \<open>dead\<close> says that the process of a birth has ended, which is for good; and a
  process that was inspected once is afterwards either dead or seen alive under its birth (an
  inspection that fails counts as alive).
\<close>

definition ops_later :: "'w native_env \<Rightarrow> ('w \<Rightarrow> 'w \<Rightarrow> bool) \<Rightarrow> bool" where
  "ops_later E later \<longleftrightarrow>
     (\<forall>w. (\<forall>d. later w (Sleep E d w)) \<and> (\<forall>p i s. later w (snd (SignalProcess E p i s w))) \<and>
       (\<forall>f. later w (snd (RemovePidFile E f w))) \<and> (\<forall>f. later w (snd (RemoveAll E f w))) \<and>
       (\<forall>f. later w (snd (MkdirAll E f w))) \<and> (\<forall>c. later w (snd (Call E c w))) \<and>
       (\<forall>d. later w (snd (MkdirTemp E d w))) \<and> later w (snd (RandRead E w)))"

text \<open>An action that only moves forward; the combinators of actions keep that.\<close>

definition forward :: "('w \<Rightarrow> 'w \<Rightarrow> bool) \<Rightarrow> (string, 'w) action \<Rightarrow> bool" where
  "forward later a \<longleftrightarrow> (\<forall>w. later w (snd (a w)))"

lemma forward_andThen: "transp later \<Longrightarrow> forward later a \<Longrightarrow> forward later b \<Longrightarrow> forward later (andThen a b)"
  by (auto simp: forward_def andThen_def split: prod.splits option.splits) (metis snd_conv transpD)+

lemma forward_each: "reflp later \<Longrightarrow> transp later \<Longrightarrow> (\<And>x. forward later (f x)) \<Longrightarrow> forward later (each f xs)"
  by (induction xs) (simp_all add: forward_andThen, simp add: forward_def done_ok_def reflpD)

lemma forward_ops:
  assumes "ops_later E later"
  shows "forward later (Call E c)" "forward later (MkdirAll E p)" "forward later (RemoveAll E p)"
  using assms by (auto simp: ops_later_def forward_def)

lemma launch_later:
  assumes laws: "reflp later" "transp later" "ops_later E later"
  shows "later w (snd (launch E root dataDir lvl w))"
proof -
  note fwd = forward_andThen [OF laws(2)] forward_ops [OF laws(3)]
  have run: "forward later (run_process E p a)" for p a by (simp add: run_process_def fwd)
  have nix: "forward later (nix_prepared E root)" by (simp add: nix_prepared_def Let_def fwd)
  have init: "forward later (initdbIfNeeded E root dataDir b)" for b
  proof -
    have "later u (snd (initdbIfNeeded E root dataDir b u))" for u
    proof -
      have 1: "later u (snd (andThen (RemoveAll E dataDir) (MkdirAll E dataDir) u))"
        using fwd(1) [OF fwd(4) fwd(3)] by (auto simp: forward_def)
      have 2: "later v (snd (andThen (Call E c) (run_process E p a) v))" for v c p a
        using fwd(1) [OF fwd(2) run] by (auto simp: forward_def)
      have 3: "later v (snd (RandRead E v))" for v using laws(3) by (simp add: ops_later_def)
      show ?thesis
        using 1 2 3 laws(1,2)
        by (auto simp: initdbIfNeeded_def reflpD split: prod.splits option.splits sum.splits) (metis snd_conv transpD)+
    qed
    then show ?thesis by (simp add: forward_def)
  qed
  have ctl: "forward later (pg_ctl_start E root dataDir lvl b s)" for b s
    unfolding pg_ctl_start_def
    by (rule fwd(1) [OF fwd(2)]) (use run laws(1) in \<open>auto simp: forward_def reflpD split: sum.splits\<close>)
  have "later v (snd (MkdirTemp E d v))" "later v (snd (RemoveAll E d v))" for v d using laws(3) by (simp_all add: ops_later_def)
  then show ?thesis
    using nix init ctl laws(2)
    by (auto simp: launch_def forward_def split: prod.splits option.splits sum.splits) (metis snd_conv transpD)+
qed

lemma restrict_later:
  assumes "reflp later" "transp later" "ops_later E later"
  shows "later w (snd (restrictMaintenanceDatabases E root d w))"
proof -
  have "forward later (each (\<lambda>q. Call E (ExecAdmin dsn q)) qs)" for dsn qs
    using assms by (intro forward_each forward_ops)
  then show ?thesis
    using assms(1) by (auto simp: restrictMaintenanceDatabases_def forward_def reflpD simp del: each.simps split: sum.splits)
qed

definition process_laws :: "'w native_env \<Rightarrow> ('w \<Rightarrow> 'w \<Rightarrow> bool) \<Rightarrow> ('w \<Rightarrow> processMark \<Rightarrow> bool) \<Rightarrow> bool" where
  "process_laws E later dead \<longleftrightarrow>
     reflp later \<and> transp later \<and> ops_later E later \<and>
     (\<forall>w w' m. later w w' \<longrightarrow> dead w m \<longrightarrow> dead w' m) \<and>
     (\<forall>w w' pid m. markProcess E w pid = Inr m \<longrightarrow> later w w' \<longrightarrow> dead w' m \<or> mark_alive E w' m)"

definition preserves :: "'w native_env \<Rightarrow> ('w \<Rightarrow> 'w \<Rightarrow> bool) \<Rightarrow> string \<Rightarrow> string \<Rightarrow> 'w host \<Rightarrow> 'w host \<Rightarrow> bool" where
  "preserves E later root own h h' \<longleftrightarrow>
     later (world h) (world h') \<and>
     (\<forall>x \<in> set (holder_files (run_dirs h root)). fst x \<noteq> own \<longrightarrow> x \<in> set (holder_files (run_dirs h' root)) \<or>
        (\<exists>w. later (world h) w \<and> later w (world h') \<and> \<not> holder_kept E w x))"

lemma preserves_trans:
  assumes "transp later" "preserves E later root own h h1" "preserves E later root own h1 h2"
  shows "preserves E later root own h h2"
  using assms unfolding preserves_def by (metis transpD)

lemma preserves_world:
  assumes "reflp later" "later (world h) (world h')"
    "holder_files (run_dirs h' root) = holder_files (run_dirs h root)"
  shows "preserves E later root own h h'"
  using assms by (auto simp: preserves_def)

lemma preserves_prune:
  assumes "reflp later" "pruneHolders E root h = (res, h')"
  shows "preserves E later root own h h'"
  using assms by (auto simp: pruneHolders_def preserves_def Let_def reflpD split: option.splits)

lemma waitGone_later:
  assumes laws: "transp later" "reflp later" and run: "waitGone E m b w = Some r" and ops: "ops_later E later"
  shows "later w (snd r)"
proof -
  have ret: "waitGone_until E m (Now E w + b) w = Some r" using run by (simp add: waitGone_def)
  have "ops_later E later \<longrightarrow> later w (snd r)"
  proof (rule waitGone_until.raw_induct [where P = "\<lambda>E m d w r. ops_later E later \<longrightarrow> later w (snd r)", OF _ ret])
    fix f :: "'a native_env \<Rightarrow> processMark \<Rightarrow> int \<Rightarrow> 'a \<Rightarrow> (bool \<times> 'a) option" and E m deadline w r
    assume IH: "\<And>E m d w r. f E m d w = Some r \<Longrightarrow> ops_later E later \<longrightarrow> later w (snd r)"
      and eq: "(if Now E w < deadline then
          if \<not> confirmed E w m then Some (True, w) else f E m deadline (Sleep E 100 w)
        else Some (\<not> confirmed E w m, w)) = Some r"
    show "ops_later E later \<longrightarrow> later w (snd r)"
    proof
      assume ops: "ops_later E later"
      then have "later w (Sleep E 100 w)" by (simp add: ops_later_def)
      with eq IH [of E m deadline "Sleep E 100 w" r] ops laws show "later w (snd r)"
        by (auto split: if_splits dest: transpD reflpD)
    qed
  qed
  with ops show ?thesis by simp
qed

lemma stopServer_later:
  assumes laws: "process_laws E later dead" and run: "stopServer E root dataDir h = Some (res, h')"
  shows "later (world h) (world h')"
proof -
  have T: "transp later" "reflp later" "ops_later E later" using laws by (auto simp: process_laws_def)
  show ?thesis
  proof (rule stopServer_keeps [OF run, where R = "\<lambda>u v. later (world u) (world v)"])
    show "later (world u) (world u)" for u using T(2) by (auto dest: reflpD)
    show "later (world u) (world x)" if "later (world u) (world v)" "later (world v) (world x)" for u v x :: "'a host"
      using that T(1) by (auto dest: transpD)
    show "later (world u) (world (snd (signalPostmaster E (Postmaster r) sig u)))" for r sig u
      using T by (auto simp: signalPostmaster_def ops_later_def reflpD split: inspection.splits prod.splits
          dest: spec [of _ "world u"] intro: reflpD) (metis snd_conv)
    show "later (world u) (world (u\<lparr>world := w\<rparr>))" if "waitGone E m b (world u) = Some (c, w)" for m b u c w
      using waitGone_later [OF T(1,2) that T(3)] by simp
    show "later (world u) (world (forgetPostmasterRecord E root b u))" for u b using T(2) by (auto dest: reflpD)
    show "later (world u) (world (stopped_server E root dataDir r u))" for u r
      using T by (auto simp: stopped_server_def Let_def ops_later_def) (metis transpD)
  qed
qed

lemma preserves_stop:
  assumes laws: "process_laws E later dead" and run: "stopServer E root' dataDir h = Some (res, h')"
  shows "preserves E later root own h h'"
  using stopServer_later [OF assms] stopServer_holder_files [OF run] laws
  by (intro preserves_world) (auto simp: process_laws_def)

lemma attached_preserves:
  assumes laws: "process_laws E later dead" and run: "attachedPostmaster E root dataDir h = (res, h')"
  shows "preserves E later root own h h' \<and> signals h' = signals h"
proof -
  have "later w (snd (clearDisownedPostmasterPid E dataDir rec w))" for rec w
    using laws by (auto simp: clearDisownedPostmasterPid_def remove_pid_def process_laws_def ops_later_def reflpD
        split: option.splits inspection.splits prod.splits remove_result.splits) (metis snd_conv reflpD)+
  then have "later (world h) (world h')" "run_dirs h' = run_dirs h" "signals h' = signals h"
    using run laws
    by (auto simp: attachedPostmaster_def Let_def process_laws_def reflpD split: option.splits prod.splits if_splits)
      (metis snd_conv)+
  then show ?thesis using laws by (auto intro: preserves_world simp: process_laws_def)
qed

lemma start_preserves:
  assumes laws: "process_laws E later dead" and run: "start_server E root dataDir lvl h = (res, h')"
  shows "preserves E later root own h h' \<and> signals h' = signals h"
proof -
  have "later w (snd (launch E root dataDir lvl w))" "later w (snd (restrictMaintenanceDatabases E root d w))" for w d
    using laws launch_later restrict_later by (auto simp: process_laws_def)
  then have "later (world h) (world h')"
    using run laws
    by (auto simp: start_server_def writePostmasterRecord_def Let_def process_laws_def
        split: prod.splits sum.splits option.splits) (metis snd_conv transpD)+
  moreover have "holder_files (run_dirs h' root) = holder_files (run_dirs h root)" "signals h' = signals h"
    using run
    by (auto simp: start_server_def writePostmasterRecord_def Let_def split: prod.splits sum.splits option.splits)
  ultimately show ?thesis using laws by (auto intro: preserves_world simp: process_laws_def)
qed

lemma attach_preserves:
  assumes laws: "process_laws E later dead" and run: "attach_server E self root dataDir service r h = (res, h')"
  shows "preserves E later root (holder_name E service) h h' \<and> signals h' = signals h"
proof -
  have "later w (snd (Call E c w))" "later w w" for w c
    using laws by (auto simp: process_laws_def ops_later_def reflpD)
  then show ?thesis
    using run
    by (auto simp: attach_server_def register_def preserves_def Let_def split: prod.splits sum.splits option.splits)
      (metis snd_conv)+
qed

text \<open>The stages of the locked section of an acquisition.\<close>

lemma acquire_locked_stages:
  assumes "acquire_locked E self root service lvl h = Some (res, h')"
  obtains (holders) e where "pruneHolders E root h = (Inl e, h')" "res = Inl (HoldersError e)"
  | (attached) live h1 at h2 h3 r0 where "pruneHolders E root h = (Inr live, h1)"
      "attachedPostmaster E root (path_Join [root, ''pgdata'']) h1 = (at, h2)"
      "h3 = h2 \<or> start_server E root (path_Join [root, ''pgdata'']) lvl h2 = (r0, h3)"
      "(\<exists>e. res = Inl e) \<and> h' = h3 \<or>
       (\<exists>r. attach_server E self root (path_Join [root, ''pgdata'']) service r h3 = (res, h')) \<or>
       (\<exists>r e h4 x. (h4 = h3 \<or> attach_server E self root (path_Join [root, ''pgdata'']) service r h3 = (Inl e, h4)) \<and>
          res = Inl e \<and> live = 0 \<and> stopServer E root (path_Join [root, ''pgdata'']) h4 = Some (x, h'))"
proof (cases "pruneHolders E root h")
  case (Pair pr h1)
  let ?d = "path_Join [root, ''pgdata'']"
  show ?thesis
  proof (cases pr)
    case (Inl e)
    then show ?thesis using assms Pair holders by (simp add: acquire_locked_def Let_def)
  next
    case (Inr live)
    obtain at h2 where at: "attachedPostmaster E root ?d h1 = (at, h2)" by fastforce
    obtain r0 h3 where st: "start_server E root ?d lvl h2 = (r0, h3)" by fastforce
    note go = attached [OF Pair [unfolded Inr] at]
    show ?thesis
    proof (cases "\<exists>a. at = Inr None")
      case False
      then show ?thesis
        using assms Pair Inr at go [of h2 r0]
        by (auto simp: acquire_locked_def Let_def split: sum.splits option.splits)
    next
      case True
      show ?thesis
        using assms Pair Inr at st True go [of h3 r0]
        by (auto simp: acquire_locked_def Let_def split: sum.splits option.splits prod.splits if_splits) blast+
    qed
  qed
qed

lemma acquire_preserves:
  assumes laws: "process_laws E later dead" and run: "acquire_locked E self root service lvl h = Some (res, h')"
  shows "preserves E later root (holder_name E service) h h'"
  using run
proof (cases rule: acquire_locked_stages)
  case holders
  then show ?thesis using laws preserves_prune by (auto simp: process_laws_def)
next
  case (attached live h1 at h2 h3 r0)
  let ?P = "preserves E later root (holder_name E service)"
  have tr: "?P u v \<Longrightarrow> ?P v x \<Longrightarrow> ?P u x" for u v x using laws preserves_trans by (auto simp: process_laws_def)
  have "?P h h1" using attached(1) laws preserves_prune by (auto simp: process_laws_def)
  then have h2: "?P h h2" using tr attached_preserves [OF laws attached(2)] by blast
  then have h3: "?P h h3" using attached(3) tr start_preserves [OF laws] by blast
  show ?thesis
    using attached(4)
  proof (elim disjE exE conjE)
    fix r assume "attach_server E self root (path_Join [root, ''pgdata'']) service r h3 = (res, h')"
    then show ?thesis using h3 tr attach_preserves [OF laws] by blast
  next
    fix r e h4 x assume "h4 = h3" "stopServer E root (path_Join [root, ''pgdata'']) h4 = Some (x, h')"
    then show ?thesis using h3 tr preserves_stop [OF laws] by blast
  next
    fix r e h4 x assume a: "attach_server E self root (path_Join [root, ''pgdata'']) service r h3 = (Inl e, h4)"
      and s: "stopServer E root (path_Join [root, ''pgdata'']) h4 = Some (x, h')"
    have "?P h h4" using tr [OF h3] attach_preserves [OF laws a] by blast
    then show ?thesis using tr preserves_stop [OF laws s] by blast
  qed (use h3 in simp)
qed

lemma acquire_signals_unheld:
  assumes laws: "process_laws E later dead" and run: "acquire_locked E self root service lvl h = Some (res, h')"
    and sent: "signals h' \<noteq> signals h"
  shows "\<forall>x \<in> set (holder_files (run_dirs h root)). suffix ''.json'' (fst x) \<longrightarrow> \<not> holder_kept E (world h) x"
  using run
proof (cases rule: acquire_locked_stages)
  case holders
  then show ?thesis using sent by (auto simp: pruneHolders_def Let_def split: option.splits)
next
  case (attached live h1 at h2 h3 r0)
  have "signals h3 = signals h"
    using attached(3) pruneHolders_Inr(1) [OF attached(1)] attached_preserves [OF laws attached(2), of "[]"]
      start_preserves [OF laws, of root "path_Join [root, ''pgdata'']" lvl h2 r0 h3 "[]"] by auto
  then have "live = 0"
    using attached(4) sent attach_preserves [OF laws] by metis
  then show ?thesis using pruneHolders_Inr(4) [OF attached(1)] by blast
qed

lemma collect_preserves:
  assumes laws: "process_laws E later dead" and run: "collect_root E root h = Some h'"
  shows "preserves E later root own h h'"
proof -
  have refl: "preserves E later root own u u" for u
    using laws by (auto simp: process_laws_def preserves_def reflpD)
  obtain res h1 where p: "pruneHolders E root h = (res, h1)" by fastforce
  then have h1: "preserves E later root own h h1" using laws preserves_prune by (auto simp: process_laws_def)
  have "h' = h \<or> h' = h1 \<or> (\<exists>x. stopServer E root (path_Join [root, ''pgdata'']) h1 = Some (x, h'))"
    using run p by (auto simp: collect_root_def split: if_splits sum.splits)
  moreover have "transp later" using laws by (simp add: process_laws_def)
  ultimately show ?thesis
    using refl h1 preserves_trans [OF _ h1 preserves_stop [OF laws]] by blast
qed

lemma release_preserves:
  assumes laws: "process_laws E later dead" and run: "release_locked E n h = Some (res, n', h')"
  shows "preserves E later (np_root n) (np_holder n) h h'"
proof -
  let ?root = "np_root n" let ?P = "preserves E later ?root (np_holder n)"
  let ?h1 = "if np_holder n \<noteq> [] then put_holders ?root
      (filter (\<lambda>x. fst x \<noteq> np_holder n) (holder_files (run_dirs h ?root))) h else h"
  have R: "reflp later" "transp later" using laws by (auto simp: process_laws_def)
  have refl: "?P u u" for u using R by (auto simp: preserves_def reflpD)
  have h1: "?P h ?h1" using R by (auto simp: preserves_def reflpD)
  obtain pr h2 where p: "pruneHolders E ?root ?h1 = (pr, h2)" by fastforce
  then have h2: "?P h h2" using preserves_trans [OF R(2) h1 preserves_prune [OF R(1) p]] by blast
  have "h' = h \<or> h' = h2 \<or> (\<exists>x. stopServer E ?root (np_dataDir n) h2 = Some (x, h'))"
    using run p by (auto simp: release_locked_def Let_def split: if_splits sum.splits)
  then show ?thesis
    using refl h2 preserves_trans [OF R(2) h2 preserves_stop [OF laws]] by blast
qed

section \<open>The run as a transition system\<close>

text \<open>
  The agents of one run, in the order the run's lock serialises them: an agent acquires the server
  for its service, or fails to; a service that holds it releases it; an agent of another run
  collects; and time passes, which may end processes and change other runs' directories. \<open>rs_held\<close>
  is which services hold the server, with the attachment and the holder record they wrote.
\<close>

record 'w run_state =
  rs_host :: "'w host"
  rs_held :: "string \<Rightarrow> (nixPostgres \<times> serverHolder) option"

datatype run_event = Acquire string | Release string | Collect | Elapse

inductive run_step :: "'w native_env \<Rightarrow> ('w \<Rightarrow> 'w \<Rightarrow> bool) \<Rightarrow> string set \<Rightarrow> string \<Rightarrow> 'w run_state \<Rightarrow> run_event \<Rightarrow> 'w run_state \<Rightarrow> bool"
  for E :: "'w native_env" and later :: "'w \<Rightarrow> 'w \<Rightarrow> bool" and services :: "string set" and root :: string where
  step_acquired: "service \<in> services \<Longrightarrow> rs_held s service = None \<Longrightarrow>
    acquire_locked E self root service lvl (rs_host s) = Some (Inr n, h') \<Longrightarrow>
    (np_holder n, Some holder) \<in> set (holder_files (run_dirs h' root)) \<Longrightarrow>
    run_step E later services root s (Acquire service)
      (s\<lparr>rs_host := h', rs_held := (rs_held s)(service \<mapsto> (n, holder))\<rparr>)"
| step_refused: "service \<in> services \<Longrightarrow> rs_held s service = None \<Longrightarrow>
    acquire_locked E self root service lvl (rs_host s) = Some (Inl e, h') \<Longrightarrow>
    run_step E later services root s (Acquire service) (s\<lparr>rs_host := h'\<rparr>)"
| step_released: "rs_held s service = Some (n, holder) \<Longrightarrow> release_locked E n (rs_host s) = Some (res, n', h') \<Longrightarrow>
    run_step E later services root s (Release service)
      (s\<lparr>rs_host := h', rs_held := (rs_held s)(service := if np_holder n' = [] then None else Some (n', holder))\<rparr>)"
| step_collected: "collect_root E root (rs_host s) = Some h' \<Longrightarrow>
    run_step E later services root s Collect (s\<lparr>rs_host := h'\<rparr>)"
| step_elapsed: "later (world (rs_host s)) (world h') \<Longrightarrow> run_dirs h' root = run_dirs (rs_host s) root \<Longrightarrow>
    signals h' = signals (rs_host s) \<Longrightarrow> run_step E later services root s Elapse (s\<lparr>rs_host := h'\<rparr>)"

definition nobody_holds :: "'w run_state \<Rightarrow> bool" where
  "nobody_holds s \<longleftrightarrow> rs_held s = (\<lambda>service. None)"

text \<open>A holder is gone when its agent's or its run's process has ended.\<close>

definition holder_gone :: "('w \<Rightarrow> processMark \<Rightarrow> bool) \<Rightarrow> 'w \<Rightarrow> serverHolder \<Rightarrow> bool" where
  "holder_gone dead w holder \<longleftrightarrow>
     dead w (holder_Agent holder) \<or> (\<exists>run. holder_Run holder = Some run \<and> dead w run)"

definition seen_born :: "'w native_env \<Rightarrow> ('w \<Rightarrow> 'w \<Rightarrow> bool) \<Rightarrow> ('w \<Rightarrow> processMark \<Rightarrow> bool) \<Rightarrow> 'w \<Rightarrow> processMark \<Rightarrow> bool" where
  "seen_born E later dead w m \<longleftrightarrow> (\<forall>w'. later w w' \<longrightarrow> dead w' m \<or> mark_alive E w' m)"

definition held_ok :: "'w native_env \<Rightarrow> ('w \<Rightarrow> 'w \<Rightarrow> bool) \<Rightarrow> ('w \<Rightarrow> processMark \<Rightarrow> bool) \<Rightarrow> string \<Rightarrow> 'w host \<Rightarrow> string
    \<Rightarrow> nixPostgres \<Rightarrow> serverHolder \<Rightarrow> bool" where
  "held_ok E later dead root h service n holder \<longleftrightarrow>
     np_root n = root \<and> np_holder n = holder_name E service \<and>
     seen_born E later dead (world h) (holder_Agent holder) \<and>
     (\<forall>run. holder_Run holder = Some run \<longrightarrow> seen_born E later dead (world h) run) \<and>
     (holder_gone dead (world h) holder \<or> (np_holder n, Some holder) \<in> set (holder_files (run_dirs h root)))"

definition holders_recorded :: "'w native_env \<Rightarrow> ('w \<Rightarrow> 'w \<Rightarrow> bool) \<Rightarrow> ('w \<Rightarrow> processMark \<Rightarrow> bool) \<Rightarrow> string set \<Rightarrow> string \<Rightarrow> 'w run_state \<Rightarrow> bool" where
  "holders_recorded E later dead services root s \<longleftrightarrow>
     (\<forall>service n holder. rs_held s service = Some (n, holder) \<longrightarrow>
        service \<in> services \<and> held_ok E later dead root (rs_host s) service n holder)"

lemma holder_name_json: "suffix ''.json'' (holder_name E service)"
  by (simp add: holder_name_def suffix_def)

lemma holder_name_nonempty: "holder_name E service \<noteq> []"
  by (simp add: holder_name_def)

lemma not_kept_gone:
  assumes "seen_born E later dead w (holder_Agent holder)"
    and "\<forall>run. holder_Run holder = Some run \<longrightarrow> seen_born E later dead w run"
    and "later w w'" "\<not> holder_kept E w' (name, Some holder)"
  shows "holder_gone dead w' holder"
  using assms by (auto simp: holder_kept_def holder_alive_def holder_gone_def seen_born_def split: if_splits option.splits)

lemma held_ok_preserved:
  assumes laws: "process_laws E later dead" and ok: "held_ok E later dead root h service n holder"
    and p: "preserves E later root own h h'" and other: "own \<noteq> holder_name E service"
  shows "held_ok E later dead root h' service n holder"
proof -
  have tr: "transp later" and persist: "\<And>w w' m. later w w' \<Longrightarrow> dead w m \<Longrightarrow> dead w' m"
    using laws by (auto simp: process_laws_def)
  have fwd: "later (world h) (world h')" using p by (simp add: preserves_def)
  have born: "seen_born E later dead (world h) m \<Longrightarrow> seen_born E later dead (world h') m" for m
    using fwd tr unfolding seen_born_def by (metis transpD)
  have gone: "holder_gone dead w holder \<Longrightarrow> later w w' \<Longrightarrow> holder_gone dead w' holder" for w w'
    using persist unfolding holder_gone_def by blast
  have "holder_gone dead (world h') holder \<or> (np_holder n, Some holder) \<in> set (holder_files (run_dirs h' root))"
  proof (cases "holder_gone dead (world h) holder")
    case True
    then show ?thesis using gone fwd by blast
  next
    case False
    then have "(np_holder n, Some holder) \<in> set (holder_files (run_dirs h root))" "fst (np_holder n, Some holder) \<noteq> own"
      using ok other by (auto simp: held_ok_def)
    then consider "(np_holder n, Some holder) \<in> set (holder_files (run_dirs h' root))"
      | w where "later (world h) w" "later w (world h')" "\<not> holder_kept E w (np_holder n, Some holder)"
      using p unfolding preserves_def by blast
    then show ?thesis
    proof cases
      case 2
      then have "holder_gone dead w holder" using ok by (auto simp: held_ok_def intro: not_kept_gone)
      then show ?thesis using gone 2 by blast
    qed simp
  qed
  then show ?thesis using ok born by (auto simp: held_ok_def)
qed

lemma attach_registers:
  assumes run: "attach_server E self root dataDir service r h = (Inr n, h')"
    and entry: "(np_holder n, Some holder) \<in> set (holder_files (run_dirs h' root))"
  shows "np_root n = root \<and> np_holder n = holder_name E service \<and>
    (\<exists>w. w = world h' \<and> markProcess E w (fst self) = Inr (holder_Agent holder) \<and>
      (\<forall>run. holder_Run holder = Some run \<longrightarrow> markProcess E w (snd self) = Inr run))"
  using run entry
  by (auto simp: attach_server_def register_def Let_def split: sum.splits prod.splits option.splits if_splits)

lemma acquire_registers:
  assumes laws: "process_laws E later dead"
    and run: "acquire_locked E self root service lvl h = Some (Inr n, h')"
    and entry: "(np_holder n, Some holder) \<in> set (holder_files (run_dirs h' root))"
  shows "held_ok E later dead root h' service n holder"
proof -
  obtain r u where "attach_server E self root (path_Join [root, ''pgdata'']) service r u = (Inr n, h')"
    using run by (cases rule: acquire_locked_stages) auto
  from attach_registers [OF this entry] laws show ?thesis
    using entry unfolding held_ok_def seen_born_def process_laws_def by blast
qed

lemma release_keeps: "release_locked E n h = Some (res, n', h') \<Longrightarrow> n' = n \<and> h' = h \<or> np_holder n' = []"
  by (auto simp: release_locked_def Let_def split: if_split_asm prod.splits sum.splits)

definition lawful_run :: "'w native_env \<Rightarrow> ('w \<Rightarrow> 'w \<Rightarrow> bool) \<Rightarrow> ('w \<Rightarrow> processMark \<Rightarrow> bool) \<Rightarrow> string set \<Rightarrow> bool" where
  "lawful_run E later dead services \<longleftrightarrow> process_laws E later dead \<and> inj_on (holder_name E) services"

lemma holders_recorded_step:
  assumes lawful: "lawful_run E later dead services"
    and inv: "holders_recorded E later dead services root s" and step: "run_step E later services root s ev t"
  shows "holders_recorded E later dead services root t"
proof -
  have laws: "process_laws E later dead" and inj: "inj_on (holder_name E) services"
    using lawful by (auto simp: lawful_run_def)
  have held: "service \<in> services \<and> held_ok E later dead root (rs_host s) service n holder"
    if "rs_held s service = Some (n, holder)" for service n holder
    using inv that by (auto simp: holders_recorded_def)
  have other: "holder_name E a \<noteq> holder_name E b" if "a \<in> services" "b \<in> services" "a \<noteq> b" for a b
    using inj that by (auto dest: inj_onD)
  show ?thesis
    using step
  proof cases
    case (step_acquired service self lvl n h' holder)
    have p: "preserves E later root (holder_name E service) (rs_host s) h'"
      using acquire_preserves [OF laws] step_acquired by blast
    have new: "held_ok E later dead root h' service n holder"
      using acquire_registers [OF laws] step_acquired by blast
    show ?thesis
      using held held_ok_preserved [OF laws _ p] other new step_acquired
      by (auto simp: holders_recorded_def)
  next
    case (step_refused service self lvl e h')
    have p: "preserves E later root (holder_name E service) (rs_host s) h'"
      using acquire_preserves [OF laws] step_refused by blast
    show ?thesis
      using held held_ok_preserved [OF laws _ p] other step_refused
      by (auto simp: holders_recorded_def) (metis option.distinct(1))
  next
    case (step_released service n holder res n' h')
    have n: "service \<in> services" "np_root n = root" "np_holder n = holder_name E service"
      using held [OF step_released(3)] by (auto simp: held_ok_def)
    have p: "preserves E later root (holder_name E service) (rs_host s) h'"
      using release_preserves [OF laws step_released(4)] n by simp
    show ?thesis
    proof (cases "np_holder n' = []")
      case True
      then show ?thesis
        using held held_ok_preserved [OF laws _ p] other n step_released
        by (auto simp: holders_recorded_def)
    next
      case False
      then have "n' = n \<and> h' = rs_host s" using release_keeps [OF step_released(4)] by blast
      then show ?thesis using inv step_released False by (auto simp: holders_recorded_def)
    qed
  next
    case (step_collected h')
    have "held_ok E later dead root h' service n holder" if "rs_held s service = Some (n, holder)" for service n holder
      using held_ok_preserved [OF laws conjunct2 [OF held [OF that]] collect_preserves [OF laws step_collected(3)]
          not_sym [OF holder_name_nonempty]] .
    then show ?thesis using held step_collected by (auto simp: holders_recorded_def)
  next
    case (step_elapsed h')
    have p: "preserves E later root [] (rs_host s) h'"
      using step_elapsed laws by (intro preserves_world) (auto simp: process_laws_def)
    have "held_ok E later dead root h' service n holder" if "rs_held s service = Some (n, holder)" for service n holder
      using held_ok_preserved [OF laws conjunct2 [OF held [OF that]] p not_sym [OF holder_name_nonempty]] .
    then show ?thesis using held step_elapsed by (auto simp: holders_recorded_def)
  qed
qed

interpretation run_server: invariant_system nobody_holds
  "\<lambda>s ev t. lawful_run E later dead services \<and> run_step E later services root s ev t"
  "holders_recorded E later dead services root" for E later dead services root
proof unfold_locales
  show "holders_recorded E later dead services root s" if "nobody_holds s" for s
    using that by (simp add: nobody_holds_def holders_recorded_def)
  show "holders_recorded E later dead services root t" if "holders_recorded E later dead services root s"
    "lawful_run E later dead services \<and> run_step E later services root s ev t" for s ev t
    using that holders_recorded_step by blast
qed

lemma reachable_lawful:
  assumes "lawful_run E later dead services" "reachable nobody_holds (run_step E later services root) s"
  shows "reachable nobody_holds (\<lambda>s ev t. lawful_run E later dead services \<and> run_step E later services root s ev t) s"
  using assms(2)
proof (induction rule: reachable.induct)
  case (reachable_init s)
  then show ?case by (rule reachable.reachable_init)
next
  case (reachable_step s e t)
  then show ?case
    using assms(1) reachable.reachable_step [of nobody_holds "\<lambda>s ev t. lawful_run E later dead services \<and> run_step E later services root s ev t" s e t]
    by blast
qed

lemma step_signals_unheld:
  assumes lawful: "lawful_run E later dead services" and step: "run_step E later services root s ev t"
    and sent: "signals (rs_host t) \<noteq> signals (rs_host s)"
    and inv: "holders_recorded E later dead services root s"
    and held: "rs_held s other = Some (n, holder)" "ev \<noteq> Release other"
  shows "\<not> holder_kept E (world (rs_host s)) (np_holder n, Some holder) \<or>
    (np_holder n, Some holder) \<notin> set (holder_files (run_dirs (rs_host s) root))"
proof -
  have laws: "process_laws E later dead" and inj: "inj_on (holder_name E) services"
    using lawful by (auto simp: lawful_run_def)
  have o: "other \<in> services" "np_holder n = holder_name E other"
    using inv held(1) by (auto simp: holders_recorded_def held_ok_def)
  show ?thesis
    using step
  proof cases
    case step_acquired
    then show ?thesis using acquire_signals_unheld [OF laws] sent o holder_name_json by fastforce
  next
    case step_refused
    then show ?thesis using acquire_signals_unheld [OF laws] sent o holder_name_json by fastforce
  next
    case (step_released service n2 holder2 res n' h')
    then have "service \<in> services" "np_root n2 = root" "np_holder n2 = holder_name E service" "service \<noteq> other"
      using inv held(2) by (auto simp: holders_recorded_def held_ok_def)
    moreover from this have "holder_name E other \<noteq> holder_name E service" using inj o by (auto dest: inj_onD)
    ultimately show ?thesis
      using release_locked_signals [OF step_released(4)] sent step_released o holder_name_json by fastforce
  next
    case (step_collected h')
    then show ?thesis using collect_root_signals [OF step_collected(3)] sent o holder_name_json by fastforce
  next
    case step_elapsed
    then show ?thesis using sent by simp
  qed
qed

text \<open>C14: the shared server is never stopped under a service that holds it. In every state the agents
  of a run can reach, whatever the order in which they acquire, fail, release, die and are
  collected, a step that sends any signal is taken only when the agent, or the codefly run, of every
  other service that holds the server has ended.\<close>

theorem server_kept_while_held:
  assumes lawful: "lawful_run E later dead services"
    and reach: "reachable nobody_holds (run_step E later services root) s"
    and step: "run_step E later services root s ev t"
    and sent: "signals (rs_host t) \<noteq> signals (rs_host s)"
    and held: "rs_held s other = Some (n, holder)" "ev \<noteq> Release other"
  shows "holder_gone dead (world (rs_host s)) holder"
proof -
  have laws: "process_laws E later dead" using lawful by (simp add: lawful_run_def)
  have inv: "holders_recorded E later dead services root s"
    using run_server.inv_reachable [OF reachable_lawful [OF lawful reach]] .
  then have ok: "held_ok E later dead root (rs_host s) other n holder"
    using held(1) by (auto simp: holders_recorded_def)
  show ?thesis
  proof (cases "(np_holder n, Some holder) \<in> set (holder_files (run_dirs (rs_host s) root))")
    case True
    then have "\<not> holder_kept E (world (rs_host s)) (np_holder n, Some holder)"
      using step_signals_unheld [OF lawful step sent inv held] by blast
    then show ?thesis
      using ok laws
      by (intro not_kept_gone [where E = E and later = later and w = "world (rs_host s)" and name = "np_holder n"])
        (auto simp: held_ok_def process_laws_def reflpD)
  next
    case False
    then show ?thesis using ok by (auto simp: held_ok_def)
  qed
qed

text \<open>C15: stopping a run's server signals at most the process whose birth was recorded when the server
  was started: each signal goes to the recorded number, and to a process with the recorded start and
  boot, as it was inspected immediately before; with no readable record, or when the recorded birth
  cannot be confirmed at the start, nothing is signalled at all, and the holder records of every run
  are left alone.\<close>

theorem stop_signals_recorded_birth:
  assumes "stopServer E root dataDir h = Some (res, h')"
  shows "(\<exists>sent. signals h' = signals h @ sent \<and>
      (\<forall>(pid, i, sig) \<in> set sent. \<exists>r. readPostmasterRecord h root = Some r \<and> pid = PID (Postmaster r) \<and>
         ident_StartID i = StartID (Postmaster r) \<and> ident_BootID i = BootID (Postmaster r))) \<and>
    ((\<nexists>r. readPostmasterRecord h root = Some r \<and> confirmed E (world h) (Postmaster r)) \<longrightarrow> signals h' = signals h) \<and>
    (\<forall>root'. holder_files (run_dirs h' root') = holder_files (run_dirs h root'))"
proof (intro conjI)
  show "\<exists>sent. signals h' = signals h @ sent \<and>
      (\<forall>(pid, i, sig) \<in> set sent. \<exists>r. readPostmasterRecord h root = Some r \<and> pid = PID (Postmaster r) \<and>
         ident_StartID i = StartID (Postmaster r) \<and> ident_BootID i = BootID (Postmaster r))"
    using stopServer_signals [OF assms] by (fastforce simp: signals_birth_def same_birth_def)
  show "(\<nexists>r. readPostmasterRecord h root = Some r \<and> confirmed E (world h) (Postmaster r)) \<longrightarrow> signals h' = signals h"
    using assms by (auto simp: stopServer_def split: option.splits)
  show "\<forall>root'. holder_files (run_dirs h' root') = holder_files (run_dirs h root')"
    using stopServer_holder_files [OF assms] by blast
qed

section \<open>The lock file of a cluster\<close>

text \<open>A second postmaster is never started on a cluster that one holds. When looking for the run's
  server finds none, the process named by the cluster's lock file, if it answers at all, was
  inspected and is not a postmaster; and when a postmaster does hold the cluster without being the
  recorded live server, the call refuses and neither the lock file nor anything else was touched.\<close>

theorem second_postmaster_refused:
  assumes run: "attachedPostmaster E root dataDir h = (res, h')"
    and owner: "postmasterPidFileOwner E (world h) (pid_path dataDir) = Some pid"
    and inspected: "InspectProcess E (world h) pid = Inspected i"
  shows "(res = Inr None \<longrightarrow> \<not> isPostmasterExecutable (ident_Executable i)) \<and>
    (isPostmasterExecutable (ident_Executable i) \<longrightarrow> h' = h \<and>
      (is_ok res \<longrightarrow> (\<exists>r. res = Inr (Some r) \<and> readPostmasterRecord h root = Some r \<and> mark_alive E (world h) (Postmaster r))))"
  using run owner inspected
  by (auto simp: attachedPostmaster_def clearDisownedPostmasterPid_def Let_def
      split: option.splits if_splits prod.splits)

section \<open>A sample host\<close>

text \<open>The world is a clock and the processes that have ended; 99 is the postmaster.\<close>

type_synonym sample_procs = "int \<times> int list"

definition sample_identity :: "int \<Rightarrow> process_identity" where
  "sample_identity pid = \<lparr>ident_StartID = 1, ident_BootID = ''boot'', ident_Executable = (if pid = 99 then ''postgres'' else ''agent'')\<rparr>"

definition sample_native :: "sample_procs native_env" where
  "sample_native = \<lparr>
     InspectProcess = (\<lambda>w pid. if pid \<in> {10, 20, 99} \<and> pid \<notin> set (snd w) then Inspected (sample_identity pid) else ErrProcessNotFound),
     signal0 = (\<lambda>w pid. pid \<in> {10, 20, 99} \<and> pid \<notin> set (snd w)), Now = fst, Sleep = (\<lambda>d w. (fst w + d, snd w)),
     SignalProcess = (\<lambda>pid i sig w. (None, (fst w, pid # snd w))), ReadPidFile = (\<lambda>w path. Some ''99''),
     RemovePidFile = (\<lambda>path w. (FileRemoved, w)), RemoveAll = (\<lambda>path w. (None, w)), can_remove = (\<lambda>w path. True),
     holders_error = (\<lambda>w root. None), MkdirAll = (\<lambda>path w. (None, w)), lock_root = (\<lambda>root w. (None, w)),
     try_lock = (\<lambda>root w. True), ctx_done = (\<lambda>w. False), server_roots = (\<lambda>w. Some []),
     Call = (\<lambda>c w. (None, w)), MkdirTemp = (\<lambda>d w. (Inr (''/tmp/'' @ d), w)), RandRead = (\<lambda>w. (Inr ''random'', w)),
     FileExists = (\<lambda>w path. True), Glob = (\<lambda>w pattern. None), ReadText = (\<lambda>w path. Inr ''secret''), pgFlake = ([], []),
     unicode_tables = \<lparr>high_letter = (\<lambda>r. False), high_digit = (\<lambda>r. False), high_lower = id\<rparr>, write_file = (\<lambda>w path. None),
     close_forwarder = (\<lambda>f w. (None, w)), service_hash = id\<rparr>"

definition sample_later :: "sample_procs \<Rightarrow> sample_procs \<Rightarrow> bool" where
  "sample_later w w' \<longleftrightarrow> set (snd w) \<subseteq> set (snd w')"

definition sample_dead :: "sample_procs \<Rightarrow> processMark \<Rightarrow> bool" where
  "sample_dead w m \<longleftrightarrow> PID m \<in> set (snd w)"

definition sample_mark :: "int \<Rightarrow> processMark" where
  "sample_mark pid = \<lparr>PID = pid, StartID = 1, BootID = ''boot''\<rparr>"

lemma sample_sleep: "0 < d \<Longrightarrow> Now sample_native w + d \<le> Now sample_native (Sleep sample_native d w)"
  by (simp add: sample_native_def)

lemma sample_clock: "clock_runs sample_native"
  by (simp add: clock_runs_def sample_sleep)

lemma sample_lawful: "lawful_run sample_native sample_later sample_dead {''a'', ''b''}"
proof -
  have "reflp sample_later" by (auto intro!: reflpI simp: sample_later_def)
  moreover have "transp sample_later" by (auto intro!: transpI simp: sample_later_def)
  moreover have "ops_later sample_native sample_later"
    by (auto simp: ops_later_def sample_native_def sample_later_def)
  moreover have "\<forall>w w' m. sample_later w w' \<longrightarrow> sample_dead w m \<longrightarrow> sample_dead w' m"
    by (auto simp: sample_later_def sample_dead_def)
  moreover have "\<forall>w w' pid m. markProcess sample_native w pid = Inr m \<longrightarrow> sample_later w w' \<longrightarrow>
      sample_dead w' m \<or> mark_alive sample_native w' m"
    by (auto simp: markProcess_def mark_alive_def sample_native_def sample_dead_def same_birth_def sample_identity_def
        split: if_splits)
  moreover have "inj_on (holder_name sample_native) {''a'', ''b''}"
    by (auto simp: inj_on_def holder_name_def sample_native_def)
  ultimately show ?thesis by (simp add: lawful_run_def process_laws_def)
qed


definition sample_record :: postmasterRecord where
  "sample_record = \<lparr>Postmaster = sample_mark 99, SocketDir = ''/tmp/sock''\<rparr>"

definition sample_holder :: "string \<Rightarrow> int \<Rightarrow> serverHolder" where
  "sample_holder service pid = \<lparr>holder_Service = service, holder_Agent = sample_mark pid, holder_Run = None\<rparr>"

definition sample_host :: "sample_procs \<Rightarrow> (string \<times> serverHolder option) list \<Rightarrow> sample_procs host" where
  "sample_host w hs = \<lparr>world = w, run_dirs = (\<lambda>root. \<lparr>holder_files = [], record_file = None\<rparr>)
     (''/r'' := \<lparr>holder_files = hs, record_file = Some sample_record\<rparr>), signals = []\<rparr>"

definition sample_attachment :: "string \<Rightarrow> nixPostgres" where
  "sample_attachment service = \<lparr>np_root = ''/r'', np_dataDir = path_Join [''/r'', ''pgdata''], np_socketDir = ''/tmp/sock'',
     np_adminPassword = ''secret'', np_holder = service @ ''.json'', np_forwarder = None\<rparr>"

lemma sample_native_simps [simp]:
  "InspectProcess sample_native w pid =
     (if pid \<in> {10, 20, 99} \<and> pid \<notin> set (snd w) then Inspected (sample_identity pid) else ErrProcessNotFound)"
  "holders_error sample_native w root = None" "can_remove sample_native w path = True"
  "write_file sample_native w path = None" "readAdminPassword sample_native w root = Inr ''secret''"
  "Call sample_native c w = (None, w)" "service_hash sample_native s = s" "Now sample_native w = fst w"
  "SignalProcess sample_native pid i sig w = (None, (fst w, pid # snd w))"
  by (simp_all add: sample_native_def readAdminPassword_def TrimSpace_graph is_graph_def)

lemma sample_put [simp]:
  "put_holders ''/r'' hs' (sample_host w hs) = sample_host w hs'" "world (sample_host w hs) = w"
  "holder_files (run_dirs (sample_host w hs) ''/r'') = hs" "readPostmasterRecord (sample_host w hs) ''/r'' = Some sample_record"
  "(sample_host w hs)\<lparr>world := w'\<rparr> = sample_host w' hs" "signals (sample_host w hs) = []"
  by (simp_all add: sample_host_def put_holders_def readPostmasterRecord_def sample_record_def sample_mark_def fun_eq_iff)

lemma sample_acquire:
  assumes "99 \<notin> set (snd w)" "pid \<in> {10, 20}" "pid \<notin> set (snd w)" "length service \<le> 16"
    and fresh: "list_all (\<lambda>x. suffix ''.json'' (fst x) \<and> holder_kept sample_native w x \<and> fst x \<noteq> service @ ''.json'') hs"
  shows "acquire_locked sample_native (pid, 1) ''/r'' service [] (sample_host w hs) =
    Some (Inr (sample_attachment service), sample_host w ((service @ ''.json'', Some (sample_holder service pid)) # hs))"
proof -
  have "filter (\<lambda>x. \<not> suffix ''.json'' (fst x) \<or> holder_kept sample_native w x) hs = hs"
    "filter (\<lambda>x. fst x \<noteq> service @ ''.json'') hs = hs"
    using fresh by (auto simp: list_all_iff filter_id_conv)
  then show ?thesis
    using assms(1-4)
    by (auto simp: acquire_locked_def pruneHolders_def attachedPostmaster_def mark_alive_def attach_server_def register_def
        markProcess_def Let_def sample_record_def sample_mark_def sample_identity_def same_birth_def holder_name_def
        sample_attachment_def sample_holder_def)
qed

lemma sample_stop:
  assumes "99 \<notin> set (snd w)"
  shows "stopServer sample_native ''/r'' dataDir (sample_host w hs) = Some ((True, None),
    stopped_server sample_native ''/r'' dataDir sample_record
      ((sample_host (fst w, 99 # snd w) hs)\<lparr>signals := [(99, sample_identity 99, SIGINT)]\<rparr>))"
proof -
  have "waitGone_until sample_native (sample_mark 99) (fst w + 60000) (fst w, 99 # snd w) = Some (True, (fst w, 99 # snd w))"
    by (subst waitGone_until.simps) (simp add: confirmed_def sample_mark_def)
  moreover have "(sample_host (fst w, 99 # snd w) hs)\<lparr>signals := x\<rparr> = (sample_host w hs)\<lparr>world := (fst w, 99 # snd w), signals := x\<rparr>" for x
    by (simp add: sample_host_def)
  ultimately show ?thesis
    using assms
    by (simp add: stopServer_def confirmed_def signalPostmaster_def waitGone_def serverStopTimeout_def sample_record_def
        sample_identity_def same_birth_def Let_def)
      (simp add: sample_mark_def sample_identity_def same_birth_def sample_host_def)
qed

definition sample_run :: "sample_procs \<Rightarrow> string list \<Rightarrow> sample_procs run_state" where
  "sample_run w held = \<lparr>rs_host = sample_host w (map (\<lambda>s. (s @ ''.json'', Some (sample_holder s (if s = ''a'' then 10 else 20)))) held),
     rs_held = (\<lambda>s. if s \<in> set held then Some (sample_attachment s, sample_holder s (if s = ''a'' then 10 else 20)) else None)\<rparr>"

lemma sample_acquired:
  assumes s: "service \<in> {''a'', ''b''}" "service \<notin> set held" "set held \<subseteq> {''a'', ''b''}"
  shows "run_step sample_native sample_later {''a'', ''b''} ''/r'' (sample_run (0, []) held) (Acquire service)
    (sample_run (0, []) (service # held))"
proof -
  let ?pid = "if service = ''a'' then 10 else 20 :: int"
  have "length service \<le> 16" using s(1) by auto
  then have run: "acquire_locked sample_native (?pid, 1) ''/r'' service [] (rs_host (sample_run (0, []) held)) =
    Some (Inr (sample_attachment service), rs_host (sample_run (0, []) (service # held)))"
    using s unfolding sample_run_def run_state.simps list.map
    by (intro sample_acquire)
      (auto simp: list_all_iff suffix_def holder_kept_def holder_alive_def mark_alive_def sample_holder_def sample_mark_def
        sample_identity_def same_birth_def)
  have "sample_run (0, []) (service # held) = (sample_run (0, []) held)\<lparr>rs_host := rs_host (sample_run (0, []) (service # held)),
      rs_held := (rs_held (sample_run (0, []) held))(service \<mapsto> (sample_attachment service, sample_holder service ?pid))\<rparr>"
    by (auto simp: sample_run_def fun_eq_iff)
  moreover have "(np_holder (sample_attachment service), Some (sample_holder service ?pid))
      \<in> set (holder_files (run_dirs (rs_host (sample_run (0, []) (service # held))) ''/r''))"
    by (simp add: sample_run_def sample_attachment_def)
  ultimately show ?thesis
    using step_acquired [OF s(1) _ run] s(2) by (simp add: sample_run_def)
qed

lemma sample_reach:
  "reachable nobody_holds (run_step sample_native sample_later {''a'', ''b''} ''/r'') (sample_run (0, [10]) [''b'', ''a''])"
proof -
  let ?step = "run_step sample_native sample_later {''a'', ''b''} ''/r''"
  have init: "nobody_holds (sample_run (0, []) [])" by (simp add: nobody_holds_def sample_run_def)
  have a: "?step (sample_run (0, []) []) (Acquire ''a'') (sample_run (0, []) [''a''])"
    and b: "?step (sample_run (0, []) [''a'']) (Acquire ''b'') (sample_run (0, []) [''b'', ''a''])"
    by (rule sample_acquired; simp)+
  have "sample_run (0, [10]) [''b'', ''a''] = (sample_run (0, []) [''b'', ''a''])\<lparr>rs_host := rs_host (sample_run (0, [10]) [''b'', ''a''])\<rparr>"
    by (simp add: sample_run_def)
  moreover have "?step (sample_run (0, []) [''b'', ''a'']) Elapse
      ((sample_run (0, []) [''b'', ''a''])\<lparr>rs_host := rs_host (sample_run (0, [10]) [''b'', ''a''])\<rparr>)"
    by (rule step_elapsed) (simp_all add: sample_run_def sample_later_def sample_host_def)
  ultimately have c: "?step (sample_run (0, []) [''b'', ''a'']) Elapse (sample_run (0, [10]) [''b'', ''a''])" by simp
  have "reachable nobody_holds ?step (sample_run (0, []) [])" using init by (rule reachable_init)
  then have "reachable nobody_holds ?step (sample_run (0, []) [''a''])" using a by (rule reachable_step)
  then have "reachable nobody_holds ?step (sample_run (0, []) [''b'', ''a''])" using b by (rule reachable_step)
  then show ?thesis using c by (rule reachable_step)
qed

lemma sample_release:
  "\<exists>n' h'. release_locked sample_native (sample_attachment ''b'') (rs_host (sample_run (0, [10]) [''b'', ''a''])) =
     Some ((True, None), n', h') \<and> signals h' \<noteq> []"
  using sample_stop [of "(0, [10])" "path_Join [''/r'', ''pgdata'']" "[]"]
  by (simp add: release_locked_def pruneHolders_def sample_run_def sample_attachment_def Let_def suffix_def
      holder_kept_def holder_alive_def mark_alive_def sample_holder_def sample_mark_def)

theorem server_kept_while_held_witness:
  "\<exists>t. run_step sample_native sample_later {''a'', ''b''} ''/r'' (sample_run (0, [10]) [''b'', ''a'']) (Release ''b'') t \<and>
     signals (rs_host t) \<noteq> [] \<and> holder_gone sample_dead (0, [10]) (sample_holder ''a'' 10)"
proof -
  let ?s = "sample_run (0, [10]) [''b'', ''a'']"
  obtain n' h' where run: "release_locked sample_native (sample_attachment ''b'') (rs_host ?s) = Some ((True, None), n', h')"
    and sent: "signals h' \<noteq> []" using sample_release by blast
  have held: "rs_held ?s ''b'' = Some (sample_attachment ''b'', sample_holder ''b'' 20)"
    "rs_held ?s ''a'' = Some (sample_attachment ''a'', sample_holder ''a'' 10)" by (simp_all add: sample_run_def)
  note step = step_released [OF held(1) run]
  have "signals (rs_host ?s) = []" "world (rs_host ?s) = (0, [10])" by (simp_all add: sample_run_def)
  then have "holder_gone sample_dead (0, [10]) (sample_holder ''a'' 10)"
    using server_kept_while_held [OF sample_lawful sample_reach step _ held(2)] sent by simp
  with step sent show ?thesis by (intro exI conjI) (rule step, simp_all)
qed

theorem stop_signals_recorded_birth_witness:
  "\<exists>h'. stopServer sample_native ''/r'' ''/r/pgdata'' (sample_host (0, []) []) = Some ((True, None), h') \<and>
     length (signals h') = 1 \<and> (\<forall>(pid, i, sig) \<in> set (signals h'). pid = 99)"
  using stop_signals_recorded_birth [OF sample_stop [of "(0, [])" "''/r/pgdata''" "[]"]] sample_stop [of "(0, [])" "''/r/pgdata''" "[]"]
  by simp

lemma sample_owner: "postmasterPidFileOwner sample_native (0, [10]) path = Some 99"
proof -
  have "Fields ''99'' = [''99'']" "Atoi ''99'' = Some 99" by code_simp+
  then show ?thesis by (simp add: postmasterPidFileOwner_def) (simp add: sample_native_def)
qed

theorem second_postmaster_refused_witness:
  "fst (attachedPostmaster sample_native ''/r'' ''/r/pgdata'' (put_record ''/r'' None (sample_host (0, [10]) []))) \<noteq> Inr None"
  using second_postmaster_refused [of sample_native "''/r''" "''/r/pgdata''" "put_record ''/r'' None (sample_host (0, [10]) [])"
      "fst (attachedPostmaster sample_native ''/r'' ''/r/pgdata'' (put_record ''/r'' None (sample_host (0, [10]) [])))" _ 99 "sample_identity 99"]
    sample_owner
  by (auto simp: sample_identity_def isPostmasterExecutable_def prod_eq_iff)

section \<open>A server that was started but not recorded\<close>

text \<open>A server that was started and whose record could not be written is left running. The acquisition
  fails and the cleanup that is to stop a server nobody was handed finds no record to act on, so
  nothing is signalled; the holders are untouched and the world is the one in which the server runs.\<close>

theorem unrecorded_server_left_running:
  assumes "pruneHolders E root h = (Inr live, h1)"
    and "attachedPostmaster E root (path_Join [root, ''pgdata'']) h1 = (Inr None, h2)"
    and "readPostmasterRecord h2 root = None"
    and "launch E root (path_Join [root, ''pgdata'']) lvl (world h2) = (Inr socketDir, w)"
    and "postmasterPidFileOwner E w (pid_path (path_Join [root, ''pgdata''])) = Some pid"
    and "markProcess E w pid = Inr m"
    and "write_file E w (postmasterRecordPath root) = Some e"
  shows "acquire_locked E self root service lvl h = Some (Inl (StartError e), h2\<lparr>world := w\<rparr>) \<and>
    signals (h2\<lparr>world := w\<rparr>) = signals h2"
proof -
  have "start_server E root (path_Join [root, ''pgdata'']) lvl h2 = (Inl (StartError e), h2\<lparr>world := w\<rparr>)"
    using assms by (simp add: start_server_def writePostmasterRecord_def Let_def)
  moreover have "stopServer E root (path_Join [root, ''pgdata'']) (h2\<lparr>world := w\<rparr>) = Some ((False, None), h2\<lparr>world := w\<rparr>)"
    using assms(3) by (simp add: stopServer_def forgetPostmasterRecord_def readPostmasterRecord_def split: option.splits)
  ultimately show ?thesis using assms(1,2) by (simp add: acquire_locked_def Let_def)
qed

text \<open>A host whose disk is full, where the pid file appears once a process has run.\<close>

definition sample_full_disk :: "sample_procs native_env" where
  "sample_full_disk = sample_native\<lparr>
     Call := (\<lambda>c w. (None, case c of RunProcess p a \<Rightarrow> (fst w + 1, snd w) | _ \<Rightarrow> w)),
     MkdirTemp := (\<lambda>p w. (Inr ''/tmp/s'', w)),
     Glob := (\<lambda>w pattern. Some [''/nix/store/pg/bin/initdb'']),
     ReadPidFile := (\<lambda>w path. if fst w = 0 then None else Some ''99''),
     write_file := (\<lambda>w path. Some ''no space'')\<rparr>"

definition sample_empty_host :: "sample_procs host" where
  "sample_empty_host = \<lparr>world = (0, []), run_dirs = (\<lambda>root. \<lparr>holder_files = [], record_file = None\<rparr>), signals = []\<rparr>"

lemma sample_options: "\<exists>opts. serverOptions U ''/tmp/s'' [] = Inr opts"
  by (simp add: serverOptions_def ContainsAny_def Let_def)

lemma sample_bin_dir: "\<exists>b. \<forall>w. resolveBinDir (Glob sample_full_disk w) (FileExists sample_full_disk w) = Some b"
  by (simp add: resolveBinDir_def sample_full_disk_def sample_native_def Let_def)

lemma sample_launch: "launch sample_full_disk ''/r'' d [] (0, []) = (Inr ''/tmp/s'', (1, []))"
proof -
  obtain b where b: "resolveBinDir (Glob sample_full_disk w) (FileExists sample_full_disk w) = Some b" for w
    using sample_bin_dir by blast
  obtain opts where opts: "serverOptions (unicode_tables sample_full_disk) ''/tmp/s'' [] = Inr opts" using sample_options by blast
  have env: "MkdirTemp sample_full_disk p w = (Inr ''/tmp/s'', w)" "FileExists sample_full_disk w p" "MkdirAll sample_full_disk p w = (None, w)"
    "Call sample_full_disk c w = (None, case c of RunProcess p a \<Rightarrow> (fst w + 1, snd w) | _ \<Rightarrow> w)" for c p w
    by (simp_all add: sample_full_disk_def sample_native_def)
  show ?thesis
    by (simp add: launch_def nix_prepared_def pg_ctl_start_def run_process_def initdbIfNeeded_def andThen_def Let_def env b opts)
qed

lemma sample_full_disk_pid: "postmasterPidFileOwner sample_full_disk (1, []) p = Some 99"
proof -
  have "Fields ''99'' = [''99'']" "Atoi ''99'' = Some 99" by code_simp+
  then show ?thesis by (simp add: postmasterPidFileOwner_def sample_full_disk_def sample_native_def)
qed

theorem unrecorded_server_left_running_witness:
  "acquire_locked sample_full_disk (10, 1) ''/r'' ''a'' [] sample_empty_host =
     Some (Inl (StartError ''no space''), sample_empty_host\<lparr>world := (1, [])\<rparr>)"
proof -
  have "attachedPostmaster sample_full_disk ''/r'' d sample_empty_host = (Inr None, sample_empty_host)" for d
    by (simp add: attachedPostmaster_def readPostmasterRecord_def clearDisownedPostmasterPid_def postmasterPidFileOwner_def
        remove_pid_def sample_full_disk_def sample_native_def sample_empty_host_def)
  moreover have "pruneHolders sample_full_disk ''/r'' sample_empty_host = (Inr 0, sample_empty_host)"
    by (simp add: pruneHolders_def sample_full_disk_def sample_native_def sample_empty_host_def put_holders_def fun_eq_iff)
  moreover have "launch sample_full_disk ''/r'' d [] (world sample_empty_host) = (Inr ''/tmp/s'', (1, []))" for d
    by (simp add: sample_empty_host_def sample_launch)
  moreover have "markProcess sample_full_disk (1, []) 99 = Inr (sample_mark 99)"
    by (simp add: markProcess_def sample_full_disk_def sample_native_def sample_identity_def sample_mark_def)
  moreover have "write_file sample_full_disk w p = Some ''no space''" "readPostmasterRecord sample_empty_host ''/r'' = None" for w p
    by (simp_all add: sample_full_disk_def sample_empty_host_def readPostmasterRecord_def)
  ultimately show ?thesis
    using unrecorded_server_left_running [of sample_full_disk "''/r''" sample_empty_host] sample_full_disk_pid by blast
qed

end
