(* ===== verification/Provision.thy ===== *)
theory Provision
  imports Prelude
begin

text \<open>
  Giving a service its database on the run's shared server: \<open>provisionDatabase\<close> of \<open>nixpg.go\<close>.
  The server is a parameter: two queries and the statements of the function, each of which may fail.
  \<open>databases\<close> is what the catalogue says of a database: its owner, its comment and whether \<open>PUBLIC\<close>
  has any privilege on it.
\<close>

datatype provision_sql =
    CreateRole string
  | ConfigureOwner string string
  | CreateDatabase string string
  | CommentOnDatabase string string
  | AlterDatabaseOwner string string
  | RevokeAllFromPublic string

record 's run_server_db =
  lock_run_server :: "'s \<Rightarrow> string option \<times> 's"
  exec_admin :: "provision_sql \<Rightarrow> 's \<Rightarrow> string option \<times> 's"
  lookup_database :: "string \<Rightarrow> 's \<Rightarrow> (string, (string option \<times> string) option) result"
  lookup_owner :: "string \<Rightarrow> 's \<Rightarrow> (string, bool \<times> bool) result"

datatype provision_error =
    RunLockFailed string
  | DatabaseLookupFailed string
  | OwnedByAnother string
  | ClaimedByAnother string
  | OwnerLookupFailed string
  | OwnerGranted
  | StatementFailed provision_sql string

definition databaseClaimPrefix :: string where "databaseClaimPrefix = ''codefly service ''"

definition databaseClaim :: "string \<Rightarrow> string" where "databaseClaim service = databaseClaimPrefix @ service"

definition admin :: "'s run_server_db \<Rightarrow> provision_sql \<Rightarrow> (provision_error, 's) action" where
  "admin S q s = (case exec_admin S q s of (Some e, s') \<Rightarrow> (Some (StatementFailed q e), s') | (None, s') \<Rightarrow> (None, s'))"

text \<open>\<open>claim\<close> is the comment and \<open>createDatabase\<close> whether the lookup found no row.\<close>

definition provision_steps :: "'s run_server_db \<Rightarrow> string \<Rightarrow> string \<Rightarrow> string \<Rightarrow> string \<Rightarrow> bool \<Rightarrow> string option \<Rightarrow> (provision_error, 's) action" where
  "provision_steps S service database owner password createDatabase claim s =
     (case lookup_owner S owner s of
        Inl e \<Rightarrow> (Some (OwnerLookupFailed e), s)
      | Inr (exists, granted) \<Rightarrow>
          if granted then (Some OwnerGranted, s)
          else
            andThen (onlyIf (\<not> exists) (admin S (CreateRole owner)))
            (andThen (admin S (ConfigureOwner owner password))
            (andThen (onlyIf createDatabase (admin S (CreateDatabase database owner)))
            (andThen (onlyIf (claim = None) (admin S (CommentOnDatabase database (databaseClaim service))))
            (each (admin S) [AlterDatabaseOwner database owner, RevokeAllFromPublic database])))) s)"

definition provisionDatabase :: "'s run_server_db \<Rightarrow> string \<Rightarrow> string \<Rightarrow> string \<Rightarrow> string \<Rightarrow> (provision_error, 's) action" where
  "provisionDatabase S service database owner password s =
     (case lock_run_server S s of
        (Some e, s1) \<Rightarrow> (Some (RunLockFailed e), s1)
      | (None, s1) \<Rightarrow>
          (case lookup_database S database s1 of
             Inl e \<Rightarrow> (Some (DatabaseLookupFailed e), s1)
           | Inr None \<Rightarrow> provision_steps S service database owner password True None s1
           | Inr (Some (claim, currentOwner)) \<Rightarrow>
               if currentOwner \<noteq> owner then (Some (OwnedByAnother currentOwner), s1)
               else (case claim of
                  Some c \<Rightarrow>
                    if c \<noteq> databaseClaim service then (Some (ClaimedByAnother (TrimPrefix c databaseClaimPrefix)), s1)
                    else provision_steps S service database owner password False claim s1
                | None \<Rightarrow> provision_steps S service database owner password False claim s1)))"

section \<open>What the catalogue says afterwards\<close>

record database_entry =
  entry_owner :: string
  entry_claim :: "string option"
  entry_public :: bool

text \<open>The documented effect of the statements on the catalogue, and that the queries read it.\<close>

fun catalogue_effect :: "provision_sql \<Rightarrow> (string \<rightharpoonup> database_entry) \<Rightarrow> (string \<rightharpoonup> database_entry)" where
  "catalogue_effect (CreateRole r) c = c"
| "catalogue_effect (ConfigureOwner r p) c = c"
| "catalogue_effect (CreateDatabase d r) c = c(d \<mapsto> \<lparr>entry_owner = r, entry_claim = None, entry_public = True\<rparr>)"
| "catalogue_effect (CommentOnDatabase d t) c = c(d := map_option (\<lambda>e. e\<lparr>entry_claim := Some t\<rparr>) (c d))"
| "catalogue_effect (AlterDatabaseOwner d r) c = c(d := map_option (\<lambda>e. e\<lparr>entry_owner := r\<rparr>) (c d))"
| "catalogue_effect (RevokeAllFromPublic d) c = c(d := map_option (\<lambda>e. e\<lparr>entry_public := False\<rparr>) (c d))"

definition catalogue_laws :: "'s run_server_db \<Rightarrow> ('s \<Rightarrow> string \<rightharpoonup> database_entry) \<Rightarrow> bool" where
  "catalogue_laws S databases \<longleftrightarrow>
     (\<forall>s e s'. lock_run_server S s = (e, s') \<longrightarrow> databases s' = databases s) \<and>
     (\<forall>q s s'. exec_admin S q s = (None, s') \<longrightarrow> databases s' = catalogue_effect q (databases s)) \<and>
     (\<forall>d s r. lookup_database S d s = Inr r \<longrightarrow> r = map_option (\<lambda>e. (entry_claim e, entry_owner e)) (databases s d))"

lemma admin_None: "catalogue_laws S databases \<Longrightarrow> admin S q s = (None, s') \<Longrightarrow> databases s' = catalogue_effect q (databases s)"
  by (auto simp: admin_def catalogue_laws_def split: prod.splits option.splits)

lemma provision_steps_None:
  assumes laws: "catalogue_laws S databases"
    and run: "provision_steps S service database owner password create claim s = (None, s')"
    and start: "if create then claim = None else \<exists>e. databases s database = Some e \<and> entry_claim e = claim"
  shows "databases s' = (databases s)(database \<mapsto> \<lparr>entry_owner = owner,
      entry_claim = (case claim of None \<Rightarrow> Some (databaseClaim service) | Some c \<Rightarrow> Some c), entry_public = False\<rparr>)"
proof -
  obtain exists where chain: "andThen (onlyIf (\<not> exists) (admin S (CreateRole owner)))
      (andThen (admin S (ConfigureOwner owner password))
      (andThen (onlyIf create (admin S (CreateDatabase database owner)))
      (andThen (onlyIf (claim = None) (admin S (CommentOnDatabase database (databaseClaim service))))
      (each (admin S) [AlterDatabaseOwner database owner, RevokeAllFromPublic database])))) s = (None, s')"
    using run by (auto simp: provision_steps_def split: sum.splits if_splits prod.splits)
  then obtain s1 s2 s3 s4 where
    "onlyIf (\<not> exists) (admin S (CreateRole owner)) s = (None, s1)" "admin S (ConfigureOwner owner password) s1 = (None, s2)"
    "onlyIf create (admin S (CreateDatabase database owner)) s2 = (None, s3)"
    "onlyIf (claim = None) (admin S (CommentOnDatabase database (databaseClaim service))) s3 = (None, s4)"
    "each (admin S) [AlterDatabaseOwner database owner, RevokeAllFromPublic database] s4 = (None, s')"
    unfolding andThen_None by blast
  note steps = this
  have only: "databases u' = (if c then catalogue_effect q (databases u) else databases u)"
    if "onlyIf c (admin S q) u = (None, u')" for c q u u'
    using that admin_None [OF laws] by (auto simp: onlyIf_def done_ok_def split: if_splits)
  obtain s5 where "admin S (AlterDatabaseOwner database owner) s4 = (None, s5)" "admin S (RevokeAllFromPublic database) s5 = (None, s')"
    using steps(5) by (auto simp: act_simps)
  note q = only [OF steps(1)] admin_None [OF laws steps(2)] only [OF steps(3)] only [OF steps(4)]
    admin_None [OF laws this(1)] admin_None [OF laws this(2)]
  show ?thesis using start by (auto simp: q fun_eq_iff split: option.splits if_splits)
qed


section \<open>A sample server\<close>

type_synonym sample_cluster = "string \<rightharpoonup> database_entry"

definition sample_cluster_server :: "sample_cluster run_server_db" where
  "sample_cluster_server = \<lparr>lock_run_server = (\<lambda>s. (None, s)), exec_admin = (\<lambda>q s. (None, catalogue_effect q s)),
     lookup_database = (\<lambda>d s. Inr (map_option (\<lambda>e. (entry_claim e, entry_owner e)) (s d))),
     lookup_owner = (\<lambda>r s. Inr (False, False))\<rparr>"

lemma sample_cluster_laws: "catalogue_laws sample_cluster_server (\<lambda>s. s)"
  by (simp add: catalogue_laws_def sample_cluster_server_def)

lemma sample_provision:
  "\<exists>s'. provisionDatabase sample_cluster_server ''shop/store'' ''store'' ''store_owner'' ''pw'' Map.empty = (None, s')"
  by (simp add: provisionDatabase_def provision_steps_def sample_cluster_server_def andThen_def onlyIf_def admin_def done_ok_def)


end
