(* ===== verification/GoURL.thy ===== *)
theory GoURL
  imports GoText FilePath
begin

text \<open>
  The query half of Go's \<open>net/url\<close>, which the agent and the libraries rewrite connection strings with:
  percent encoding, \<open>Values.Encode\<close>, \<open>ParseQuery\<close> and \<open>Values.Set\<close>/\<open>Get\<close>. A query is an association list with
  distinct keys; \<open>Encode\<close> sorts it, as Go does. The round trip of the encoding is proved here, because
  the connection strings are re-parsed by the code that receives them.
\<close>

type_synonym url_values = "(string \<times> string list) list"

definition upper_hex :: "nat \<Rightarrow> char" where
  "upper_hex n = (if n < 10 then char_of (48 + n) else char_of (55 + n))"

definition percent :: "char \<Rightarrow> string" where
  "percent c = [CHR ''%'', upper_hex (byte c div 16), upper_hex (byte c mod 16)]"

definition escape :: "(char \<Rightarrow> bool) \<Rightarrow> string \<Rightarrow> string" where
  "escape keep s = concat (map (\<lambda>c. if keep c then [c] else percent c) s)"

definition unreserved :: "char \<Rightarrow> bool" where
  "unreserved c \<longleftrightarrow> is_alnum c \<or> c \<in> {CHR ''-'', CHR ''_'', CHR ''.'', CHR ''~''}"

definition unhex :: "char \<Rightarrow> nat option" where
  "unhex c =
     (if is_digit c then Some (digit_val c)
      else if 65 \<le> byte c \<and> byte c \<le> 70 then Some (byte c - 55)
      else if 97 \<le> byte c \<and> byte c \<le> 102 then Some (byte c - 87)
      else None)"

definition escape_char :: "char \<Rightarrow> string" where
  "escape_char c =
     (if unreserved c then [c] else if c = CHR '' '' then ''+''
      else percent c)"

definition QueryEscape :: "string \<Rightarrow> string" where
  "QueryEscape s = concat (map escape_char s)"

fun QueryUnescape :: "string \<Rightarrow> string option" where
  "QueryUnescape [] = Some []"
| "QueryUnescape (c # cs) =
     (if c = CHR ''%'' then
        (case cs of
           a # b # rest \<Rightarrow>
             (case (unhex a, unhex b) of
                (Some x, Some y) \<Rightarrow> map_option ((#) (char_of (16 * x + y))) (QueryUnescape rest)
              | _ \<Rightarrow> None)
         | _ \<Rightarrow> None)
      else map_option ((#) (if c = CHR ''+'' then CHR '' '' else c)) (QueryUnescape cs))"

definition Values_Add :: "string \<Rightarrow> string \<Rightarrow> url_values \<Rightarrow> url_values" where
  "Values_Add k v q =
     (if k \<in> set (map fst q) then map (\<lambda>(k', vs). if k' = k then (k', vs @ [v]) else (k', vs)) q else q @ [(k, [v])])"

text \<open>One segment of the loop of \<open>parseQuery\<close>; \<open>None\<close> is the error that the loop remembers.\<close>

definition parse_pair :: "string \<Rightarrow> (string \<times> string) option" where
  "parse_pair seg =
     (case Cut seg (CHR ''='') of (key, value, _) \<Rightarrow>
        (case (QueryUnescape key, QueryUnescape value) of
           (Some k, Some v) \<Rightarrow> Some (k, v) | _ \<Rightarrow> None))"

fun parse_segments :: "string list \<Rightarrow> url_values \<Rightarrow> bool \<times> url_values" where
  "parse_segments [] q = (True, q)"
| "parse_segments (seg # segs) q =
     (if CHR '';'' \<in> set seg then (False, snd (parse_segments segs q))
      else if seg = [] then parse_segments segs q
      else case parse_pair seg of
        None \<Rightarrow> (False, snd (parse_segments segs q))
      | Some (k, v) \<Rightarrow> parse_segments segs (Values_Add k v q))"

text \<open>\<open>ParseQuery\<close> with its error, and \<open>URL.Query\<close>, which keeps what was parsed.\<close>

definition values_ParseQuery :: "string \<Rightarrow> url_values option" where
  "values_ParseQuery s = (case parse_segments (Split s (CHR ''&'')) [] of (ok, q) \<Rightarrow> if ok then Some q else None)"

definition Query :: "string \<Rightarrow> url_values" where
  "Query s = snd (parse_segments (Split s (CHR ''&'')) [])"

definition Values_Get :: "url_values \<Rightarrow> string \<Rightarrow> string" where
  "Values_Get q k = (case map_of q k of Some (v # _) \<Rightarrow> v | _ \<Rightarrow> [])"

definition Values_Set :: "string \<Rightarrow> string \<Rightarrow> url_values \<Rightarrow> url_values" where
  "Values_Set k v q = (if k \<in> set (map fst q) then map (\<lambda>(k', vs). (k', if k' = k then [v] else vs)) q else q @ [(k, [v])])"

definition encoded_pairs :: "url_values \<Rightarrow> (string \<times> string) list" where
  "encoded_pairs q = concat (map (\<lambda>(k, vs). map (Pair k) vs) (sort_key fst q))"

definition Values_Encode :: "url_values \<Rightarrow> string" where
  "Values_Encode q = Join (map (\<lambda>(k, v). QueryEscape k @ ''='' @ QueryEscape v) (encoded_pairs q)) ''&''"

section \<open>The round trip\<close>

lemma unhex_upper_hex: "n < 16 \<Longrightarrow> unhex (upper_hex n) = Some n"
proof -
  have "\<forall>n \<in> set [0 ..< 16]. unhex (upper_hex n) = Some n" by code_simp
  then show "n < 16 \<Longrightarrow> unhex (upper_hex n) = Some n" by (simp only: set_upt atLeastLessThan_iff) simp
qed

lemma unreserved_codes: "unreserved c \<Longrightarrow> c \<notin> {CHR ''%'', CHR ''+'', CHR ''&'', CHR ''='', CHR '';''}"
proof -
  have "\<forall>c \<in> set ''%+&=;''. \<not> unreserved c" by code_simp
  then show "unreserved c \<Longrightarrow> ?thesis" by auto
qed

lemma unescape_escape_char: "QueryUnescape (escape_char c @ s) = map_option ((#) c) (QueryUnescape s)"
  using unreserved_codes [of c] byte_div_16 [of c]
  by (auto simp: escape_char_def percent_def unhex_upper_hex mult.commute)

lemma QueryUnescape_QueryEscape: "QueryUnescape (QueryEscape s) = Some s"
  by (induction s) (simp_all add: QueryEscape_def unescape_escape_char)

lemma upper_hex_unreserved: "n < 16 \<Longrightarrow> unreserved (upper_hex n)"
proof -
  have "\<forall>n \<in> set [0 ..< 16]. unreserved (upper_hex n)" by code_simp
  then show "n < 16 \<Longrightarrow> unreserved (upper_hex n)" by (simp only: set_upt atLeastLessThan_iff) simp
qed

lemma escape_char_codes: "c \<in> set (escape_char x) \<Longrightarrow> unreserved c \<or> c = CHR ''+'' \<or> c = CHR ''%''"
  using upper_hex_unreserved [OF byte_div_16 [of x]] upper_hex_unreserved [of "byte x mod 16"]
  by (simp add: escape_char_def percent_def split: if_splits) blast

lemma QueryEscape_safe: "c \<in> set (QueryEscape s) \<Longrightarrow> c \<notin> {CHR ''&'', CHR ''='', CHR '';''}"
  using escape_char_codes [of c] unreserved_codes [of c] unfolding QueryEscape_def by fastforce

lemma Cut_append: "c \<notin> set a \<Longrightarrow> Cut (a @ c # b) c = (a, b, True)"
  by (auto simp: Cut_def takeWhile_append dropWhile_append)

lemma parse_pair_encoded: "parse_pair (QueryEscape k @ ''='' @ QueryEscape v) = Some (k, v)"
proof -
  have "CHR ''='' \<notin> set (QueryEscape k)" using QueryEscape_safe [of "CHR ''=''" k] by blast
  then show ?thesis by (simp add: parse_pair_def Cut_append QueryUnescape_QueryEscape)
qed

definition encode_pair :: "string \<times> string \<Rightarrow> string" where
  "encode_pair kv = QueryEscape (fst kv) @ ''='' @ QueryEscape (snd kv)"

lemma encode_pair_clean: "CHR ''&'' \<notin> set (encode_pair kv)" "CHR '';'' \<notin> set (encode_pair kv)" "encode_pair kv \<noteq> []"
  using QueryEscape_safe [of _ "fst kv"] QueryEscape_safe [of _ "snd kv"] by (auto simp: encode_pair_def)

lemma parse_segments_encoded:
  "parse_segments (map encode_pair kvs) q = (True, foldl (\<lambda>q (k, v). Values_Add k v q) q kvs)"
proof (induction kvs arbitrary: q)
  case (Cons kv kvs)
  then show ?case using encode_pair_clean [of kv] parse_pair_encoded [of "fst kv" "snd kv"]
    by (cases kv) (simp add: encode_pair_def)
qed simp

lemma foldl_Values_Add_same:
  "k \<notin> set (map fst q) \<Longrightarrow> foldl (\<lambda>q (k, v). Values_Add k v q) (q @ [(k, us)]) (map (Pair k) vs) = q @ [(k, us @ vs)]"
proof (induction vs arbitrary: us)
  case (Cons v vs)
  have "Values_Add k v (q @ [(k, us)]) = q @ [(k, us @ [v])]"
    using Cons.prems by (auto simp: Values_Add_def image_iff intro!: map_idI)
  then show ?case using Cons by simp
qed simp

lemma foldl_Values_Add:
  "distinct (map fst (acc @ q)) \<Longrightarrow> list_all (\<lambda>kv. snd kv \<noteq> []) q \<Longrightarrow>
     foldl (\<lambda>q (k, v). Values_Add k v q) acc (concat (map (\<lambda>(k, vs). map (Pair k) vs) q)) = acc @ q"
proof (induction q arbitrary: acc)
  case (Cons kv q)
  obtain k v vs where kv: "kv = (k, v # vs)" using Cons.prems(2) by (cases kv) (auto simp: neq_Nil_conv)
  have "k \<notin> set (map fst acc)" using Cons.prems(1) by (auto simp: kv)
  then have "foldl (\<lambda>q (k, v). Values_Add k v q) acc (map (Pair k) (v # vs)) = acc @ [(k, v # vs)]"
    using foldl_Values_Add_same [of k acc "[v]" vs] by (simp add: Values_Add_def)
  then show ?case using Cons.IH [of "acc @ [kv]"] Cons.prems by (simp add: kv)
qed simp

text \<open>A query as Go has it: a map, no key without a value.\<close>

definition well_values :: "url_values \<Rightarrow> bool" where
  "well_values q \<longleftrightarrow> distinct (map fst q) \<and> list_all (\<lambda>kv. snd kv \<noteq> []) q"

lemma encoded_segments: "Values_Encode q = Join (map encode_pair (encoded_pairs q)) ''&''"
  by (simp add: Values_Encode_def encode_pair_def [abs_def] case_prod_unfold)

lemma distinct_sort_key: "distinct (map fst q) \<Longrightarrow> distinct (map fst (sort_key fst q))"
  by (metis distinct_map distinct_sort set_sort)

lemma parse_encoded:
  assumes "well_values q"
  shows "parse_segments (Split (Values_Encode q) (CHR ''&'')) [] = (True, sort_key fst q)"
proof -
  have fold: "foldl (\<lambda>q (k, v). Values_Add k v q) [] (encoded_pairs q) = sort_key fst q"
    using foldl_Values_Add [of "[]" "sort_key fst q"] assms distinct_sort_key [of q]
    by (simp add: well_values_def encoded_pairs_def list_all_iff)
  show ?thesis
  proof (cases "encoded_pairs q = []")
    case True
    then show ?thesis using fold by (simp add: encoded_segments)
  next
    case False
    then have "Split (Values_Encode q) (CHR ''&'') = map encode_pair (encoded_pairs q)"
      unfolding encoded_segments by (intro Split_Join) (simp_all add: list_all_iff encode_pair_clean)
    then show ?thesis using fold by (simp add: parse_segments_encoded)
  qed
qed

lemma map_of_sort_key: "distinct (map fst q) \<Longrightarrow> map_of (sort_key fst q) = map_of q"
  by (metis distinct_sort_key map_of_inject_set set_sort)

lemma Values_round_trip:
  assumes "well_values q"
  shows "Query (Values_Encode q) = sort_key fst q" "values_ParseQuery (Values_Encode q) = Some (sort_key fst q)"
    "map_of (Query (Values_Encode q)) = map_of q" "Values_Get (Query (Values_Encode q)) = Values_Get q"
    "well_values (Query (Values_Encode q))" "set (Query (Values_Encode q)) = set q"
  using parse_encoded [OF assms] assms distinct_sort_key [of q] map_of_sort_key [of q]
  by (simp_all add: Query_def values_ParseQuery_def well_values_def list_all_iff fun_eq_iff Values_Get_def)

lemma well_Values_Add: "well_values q \<Longrightarrow> well_values (Values_Add k v q)"
  by (auto simp: well_values_def Values_Add_def list_all_iff comp_def case_prod_unfold if_distrib cong: if_cong)

lemma well_Values_Set [simp]: "well_values q \<Longrightarrow> well_values (Values_Set k v q)"
  by (auto simp: well_values_def Values_Set_def list_all_iff comp_def case_prod_unfold)

lemma well_parse_segments: "well_values q \<Longrightarrow> well_values (snd (parse_segments segs q))"
  by (induction segs arbitrary: q) (auto simp: well_Values_Add split: option.splits)

lemma well_Query [simp]: "well_values (Query s)"
  unfolding Query_def by (rule well_parse_segments) (simp add: well_values_def)

lemma well_ParseQuery: "values_ParseQuery s = Some q \<Longrightarrow> well_values q \<and> Query s = q"
  using well_Query [of s] by (auto simp: values_ParseQuery_def Query_def split: prod.splits if_splits)

lemma keys_Values_Set [simp]: "fst ` set (Values_Set k v q) = insert k (fst ` set q)"
  by (force simp: Values_Set_def)

lemma map_of_Values_Set: "map_of (Values_Set k v q) = (map_of q)(k \<mapsto> [v])"
proof -
  have "map_of (map (\<lambda>(k', vs). (k', if k' = k then [v] else vs)) q) = (\<lambda>k'. if k' = k then map_option (\<lambda>_. [v]) (map_of q k) else map_of q k')"
    by (induction q) (auto simp: fun_eq_iff)
  moreover have "map_of q k = None \<longleftrightarrow> k \<notin> set (map fst q)" by (simp add: map_of_eq_None_iff)
  ultimately show ?thesis
    by (auto simp: Values_Set_def fun_eq_iff map_add_def split: option.splits)
qed

lemma Get_Set [simp]: "Values_Get (Values_Set k v q) k' = (if k' = k then v else Values_Get q k')"
  by (simp add: Values_Get_def map_of_Values_Set)

section \<open>Hexadecimal strings determine their bytes\<close>

lemma hex_digit_inject: "d < 16 \<Longrightarrow> e < 16 \<Longrightarrow> hex_digit d = hex_digit e \<Longrightarrow> d = e"
  by (auto simp: hex_digit_def char_of_eq_iff take_bit_eq_mod split: if_splits)

lemma hex_byte_inject:
  assumes "hex_digit (byte b div 16) = hex_digit (byte c div 16)" and "hex_digit (byte b mod 16) = hex_digit (byte c mod 16)"
  shows "b = c"
proof -
  have "byte b div 16 = byte c div 16" "byte b mod 16 = byte c mod 16"
    using assms hex_digit_inject byte_div_16 by auto
  then have "byte b = byte c" by (metis div_mult_mod_eq)
  then show ?thesis by simp
qed

lemma EncodeToString_inject: "EncodeToString xs = EncodeToString ys \<Longrightarrow> xs = ys"
proof (induction xs arbitrary: ys)
  case Nil
  then show ?case using length_EncodeToString [of ys] by (simp add: EncodeToString_def)
next
  case (Cons x xs)
  then obtain y ys' where "ys = y # ys'" by (cases ys) (auto simp: EncodeToString_def)
  then show ?case using Cons by (auto simp: EncodeToString_def intro: hex_byte_inject)
qed

end
