(* ===== verification/Published.thy ===== *)
theory Published
  imports RuntimeAccess GoURL
begin

text \<open>
  What the agent publishes to its consumers (\<open>main.go\<close>): connection strings, the templates that
  leave a password as a reference, and the configurations that carry either. Go's \<open>net/url\<close> is
  written out as far as it is used: percent encoding in the modes of user information, host and
  path, and \<open>URL.String\<close> for a URL with user information and an absolute path.
\<close>

section \<open>The modes of percent encoding\<close>

definition userinfo_char :: "char \<Rightarrow> bool" where
  "userinfo_char c \<longleftrightarrow> unreserved c \<or> c \<in> {CHR ''$'', CHR ''&'', CHR ''+'', CHR '','', CHR '';'', CHR ''=''}"

definition path_char :: "char \<Rightarrow> bool" where
  "path_char c \<longleftrightarrow> userinfo_char c \<or> c \<in> {CHR ''/'', CHR '':'', CHR ''@''}"

definition host_char :: "char \<Rightarrow> bool" where
  "host_char c \<longleftrightarrow> unreserved c \<or>
     c \<in> {CHR ''!'', CHR ''$'', CHR ''&'', CHR 0x27, CHR ''('', CHR '')'', CHR ''*'', CHR ''+'', CHR '','', CHR '';'',
          CHR ''='', CHR '':'', CHR ''['', CHR '']'', CHR ''<'', CHR ''>'', CHR 0x22}"

section \<open>Connection strings\<close>

definition postgresSSLMode :: "string \<Rightarrow> bool \<Rightarrow> string" where
  "postgresSSLMode address withSSL =
     (if \<not> withSSL \<or> sublist ''localhost'' address \<or> sublist ''host.docker.internal'' address
      then ''disable'' else [])"

definition postgresConnectionString :: "string \<Rightarrow> string \<Rightarrow> string \<Rightarrow> string \<Rightarrow> bool \<Rightarrow> bool \<Rightarrow> string" where
  "postgresConnectionString address database user password withSSL passwordless =
     (let sslMode = postgresSSLMode address withSSL;
          rawQuery = (if sslMode \<noteq> [] then ''sslmode='' @ escape unreserved sslMode else []);
          userinfo = (if passwordless then escape userinfo_char user
                      else escape userinfo_char user @ '':'' @ escape userinfo_char password) in
      ''postgresql://'' @ userinfo @ ''@'' @ escape host_char address @ escape path_char (''/'' @ database)
        @ (if rawQuery \<noteq> [] then ''?'' @ rawQuery else []))"

datatype template_segment = Literal string | Reference string string

definition postgresConnectionTemplate :: "string \<Rightarrow> string \<Rightarrow> string \<Rightarrow> string \<Rightarrow> bool \<Rightarrow> template_segment list" where
  "postgresConnectionTemplate address database user passwordKey withSSL =
     (let withoutPassword = postgresConnectionString address database user [] withSSL True;
          (userinfo, target, _) = Cut withoutPassword CHR ''@'' in
      [Literal (userinfo @ '':''), Reference ''postgres'' passwordKey, Literal (''@'' @ target)])"

section \<open>Configurations\<close>

record ConfigurationValue =
  cv_Key :: string
  cv_Value :: string
  cv_Secret :: bool
  cv_Template :: "template_segment list option"

record Configuration =
  conf_Origin :: string
  conf_Address :: string
  conf_Name :: string
  conf_Values :: "ConfigurationValue list"

definition published :: "string \<Rightarrow> string \<Rightarrow> ConfigurationValue" where
  "published key v = \<lparr>cv_Key = key, cv_Value = v, cv_Secret = True, cv_Template = None\<rparr>"

definition promised :: "Settings \<Rightarrow> string \<Rightarrow> template_segment list \<Rightarrow> ConfigurationValue" where
  "promised s key t = \<lparr>cv_Key = key, cv_Value = [], cv_Secret = True,
     cv_Template = (if externalIdentity s then None else Some t)\<rparr>"

text \<open>The instance is its address; the runtime context that core derives from it is not used here.\<close>

definition CreateConnectionConfiguration :: "platform \<Rightarrow> string \<Rightarrow> config_values \<Rightarrow> string \<Rightarrow> bool \<Rightarrow> Service
    \<Rightarrow> (access_error, Configuration) result \<times> Service" where
  "CreateConnectionConfiguration P unique conf address withSSL s =
     (case LoadConfiguration P conf s of
        (Some e, s) \<Rightarrow> (Inl e, s)
      | (None, s) \<Rightarrow>
          (let database = DatabaseName (settings s);
               (readOnlyRole, readWriteRole) = runtimeRoleNames P database;
               passwordless = externalIdentity (settings s);
               dsn = (\<lambda>user password. postgresConnectionString address database user password withSSL passwordless);
               values = [published ownerConnectionKey (dsn (postgresUser s) (postgresPassword s)),
                         published readOnlyConnectionKey (dsn readOnlyRole (readOnlyPassword s)),
                         published readWriteConnectionKey (dsn readWriteRole (readWritePassword s))] in
           case resolveRuntimeLogins P (settings s) of
             Inl e \<Rightarrow> (Inl e, s)
           | Inr logins \<Rightarrow>
               (Inr \<lparr>conf_Origin = unique, conf_Address = address, conf_Name = ''postgres'',
                  conf_Values = values @ map (\<lambda>l. published (login_connectionKey l)
                    (dsn (login_role l) (login_password s (login_name l)))) logins\<rparr>, s)))"

definition createOwnerConnectionString :: "platform \<Rightarrow> config_values \<Rightarrow> string \<Rightarrow> bool \<Rightarrow> Service
    \<Rightarrow> (access_error, string) result \<times> Service" where
  "createOwnerConnectionString P conf address withSSL s =
     (case LoadConfiguration P conf s of
        (Some e, s) \<Rightarrow> (Inl e, s)
      | (None, s) \<Rightarrow>
          (Inr (postgresConnectionString address (DatabaseName (settings s)) (postgresUser s) (postgresPassword s)
             withSSL (externalIdentity (settings s))), s))"

text \<open>A settings error is ignored: nothing is rendered for the logins.\<close>

definition promotableConnectionConfiguration :: "platform \<Rightarrow> string \<Rightarrow> string \<Rightarrow> bool \<Rightarrow> Service \<Rightarrow> Configuration" where
  "promotableConnectionConfiguration P unique address withSSL s =
     (let database = DatabaseName (settings s);
          (readOnlyRole, readWriteRole) = runtimeRoleNames P database;
          template = (\<lambda>role key. postgresConnectionTemplate address database role key withSSL);
          logins = (case resolveRuntimeLogins P (settings s) of Inr ls \<Rightarrow> ls | Inl _ \<Rightarrow> []) in
      \<lparr>conf_Origin = unique, conf_Address = address, conf_Name = ''postgres'',
       conf_Values = [promised (settings s) readOnlyConnectionKey (template readOnlyRole ''POSTGRES_READ_ONLY_PASSWORD''),
                      promised (settings s) readWriteConnectionKey (template readWriteRole ''POSTGRES_READ_WRITE_PASSWORD'')]
         @ map (\<lambda>l. promised (settings s) (login_connectionKey l) (template (login_role l) (login_passwordKey l))) logins\<rparr>)"

section \<open>Assembling a template\<close>

text \<open>Whoever delivers a value replaces a reference by the secret, encoded as user information.\<close>

fun assemble_segment :: "(string \<Rightarrow> string \<Rightarrow> string) \<Rightarrow> template_segment \<Rightarrow> string" where
  "assemble_segment secret (Literal s) = s"
| "assemble_segment secret (Reference configuration key) = escape userinfo_char (secret configuration key)"

definition assemble :: "(string \<Rightarrow> string \<Rightarrow> string) \<Rightarrow> template_segment list \<Rightarrow> string" where
  "assemble secret t = concat (map (assemble_segment secret) t)"

lemma upper_hex_not_at: "n < 16 \<Longrightarrow> upper_hex n \<noteq> CHR ''@''"
proof -
  assume n: "n < 16"
  have "of_char (upper_hex n) \<noteq> (64 :: nat)" using n by (auto simp: upper_hex_def)
  then show ?thesis by auto
qed

lemma at_not_in_escape: "CHR ''@'' \<notin> set (escape userinfo_char s)"
proof -
  have "\<not> userinfo_char CHR ''@''" by (simp add: userinfo_char_def unreserved_def is_alnum_def is_lower_def is_upper_def is_digit_def)
  moreover have "CHR ''@'' \<notin> set (percent c)" for c
  proof -
    have "byte c < 256" by (metis of_char_mod_256 mod_less_divisor zero_less_numeral)
    then have "byte c div 16 < 16" "byte c mod 16 < 16" by (auto intro: less_mult_imp_div_less)
    note upper_hex_not_at [OF this(1)] upper_hex_not_at [OF this(2)]
    then show ?thesis by (simp add: percent_def)
  qed
  ultimately show ?thesis by (auto simp: escape_def)
qed

lemma template_assembles:
  "assemble secret (postgresConnectionTemplate address database user key withSSL) =
     postgresConnectionString address database user (secret ''postgres'' key) withSSL False"
proof -
  obtain rest where rest: "postgresConnectionString address database user p withSSL b =
      (''postgresql://'' @ (if b then escape userinfo_char user else escape userinfo_char user @ '':'' @ escape userinfo_char p))
        @ CHR ''@'' # rest" for p b
    by (simp add: postgresConnectionString_def Let_def)
  have "CHR ''@'' \<notin> set (''postgresql://'' @ escape userinfo_char user)" using at_not_in_escape by auto
  then have "Cut (postgresConnectionString address database user [] withSSL True) CHR ''@'' =
      (''postgresql://'' @ escape userinfo_char user, rest, True)"
    unfolding rest if_True by (rule Cut_append)
  then show ?thesis
    unfolding postgresConnectionTemplate_def Let_def by (simp add: assemble_def rest)
qed

section \<open>What consumers receive\<close>

text \<open>The store holds what the bootstrap sets on the roles: the runtime passwords by their keys.\<close>

definition stored_password :: "platform \<Rightarrow> Service \<Rightarrow> string \<Rightarrow> string" where
  "stored_password P s key =
     (if key = ''POSTGRES_READ_ONLY_PASSWORD'' then readOnlyPassword s
      else if key = ''POSTGRES_READ_WRITE_PASSWORD'' then readWritePassword s
      else case resolveRuntimeLogins P (settings s) of
        Inl _ \<Rightarrow> []
      | Inr logins \<Rightarrow>
          (case find (\<lambda>l. login_passwordKey l = key) logins of None \<Rightarrow> [] | Some l \<Rightarrow> login_password s (login_name l)))"

definition delivered :: "platform \<Rightarrow> Service \<Rightarrow> ConfigurationValue \<Rightarrow> string" where
  "delivered P s v = (case cv_Template v of None \<Rightarrow> [] | Some t \<Rightarrow> assemble (\<lambda>_. stored_password P s) t)"

lemma find_key: "distinct (map f xs) \<Longrightarrow> x \<in> set xs \<Longrightarrow> find (\<lambda>y. f y = f x) xs = Some x"
  by (induction xs) auto

lemma stored_login_password:
  assumes "resolveRuntimeLogins P (settings s) = Inr logins" "l \<in> set logins"
  shows "stored_password P s (login_passwordKey l) = login_password s (login_name l)"
proof -
  have all: "list_all2 (login_of P (DatabaseName (settings s))) (map rl_Name (RuntimeLogins (settings s))) logins"
    and d: "distinct (map rl_Name (RuntimeLogins (settings s)))"
    using resolveRuntimeLogins_Inr [OF assms(1)] by auto
  show ?thesis
    using login_of_passwordKey [OF login_of_set [OF all assms(2)]] find_key [OF login_of_distinct(3) [OF all d] assms(2)]
    by (simp add: stored_password_def assms(1))
qed

text \<open>C24: a deployed consumer receives the connection strings that a local one does. In password mode, what
  is assembled from the promoted templates and the stored runtime passwords is key by key the value
  of the local configuration without the migration owner's, which is never promoted. Every value is
  marked secret, no promoted value carries one, and no key is used twice.\<close>

theorem published_connections_agree:
  assumes made: "CreateConnectionConfiguration P unique conf address withSSL s = (Inr full, s')"
    and mode: "\<not> externalIdentity (settings s)"
    and promoted: "promoted = conf_Values (promotableConnectionConfiguration P unique address withSSL s')"
  shows "map (\<lambda>v. (cv_Key v, cv_Value v)) (conf_Values full) =
      (ownerConnectionKey, postgresConnectionString address (DatabaseName (settings s)) (postgresUser s') (postgresPassword s') withSSL False)
      # map (\<lambda>v. (cv_Key v, delivered P s' v)) promoted \<and>
    distinct (map cv_Key (conf_Values full)) \<and>
    list_all cv_Secret (conf_Values full) \<and> list_all (\<lambda>v. cv_Secret v \<and> cv_Value v = []) promoted"
proof -
  from made have load: "LoadConfiguration P conf s = (None, s')"
    by (auto simp: CreateConnectionConfiguration_def Let_def split: prod.splits option.splits sum.splits)
  then have st: "settings s' = settings s" using LoadConfiguration_owner by blast
  obtain logins where l: "resolveRuntimeLogins P (settings s') = Inr logins"
    using made by (auto simp: CreateConnectionConfiguration_def Let_def split: prod.splits option.splits sum.splits)
  have ext: "\<not> externalIdentity (settings s')" using mode st by simp
  have roles: "stored_password P s' ''POSTGRES_READ_ONLY_PASSWORD'' = readOnlyPassword s'"
    "stored_password P s' ''POSTGRES_READ_WRITE_PASSWORD'' = readWritePassword s'"
    by (simp_all add: stored_password_def)
  have entries: "map (\<lambda>v. (cv_Key v, cv_Value v)) (conf_Values full) =
      (ownerConnectionKey, postgresConnectionString address (DatabaseName (settings s)) (postgresUser s') (postgresPassword s') withSSL False)
      # map (\<lambda>v. (cv_Key v, delivered P s' v)) promoted"
    using made ext l unfolding CreateConnectionConfiguration_def load
    by (auto simp: promoted promotableConnectionConfiguration_def Let_def published_def
        promised_def delivered_def template_assembles roles stored_login_password [OF l] st split: prod.splits)
  have all: "list_all2 (login_of P (DatabaseName (settings s'))) (map rl_Name (RuntimeLogins (settings s'))) logins"
    and d: "distinct (map rl_Name (RuntimeLogins (settings s')))"
    using resolveRuntimeLogins_Inr [OF l] by auto
  have keys: "map cv_Key (conf_Values full) =
      [ownerConnectionKey, readOnlyConnectionKey, readWriteConnectionKey] @ map login_connectionKey logins"
    using made load l by (auto simp: CreateConnectionConfiguration_def Let_def published_def split: prod.splits)
  have "login_connectionKey x \<notin> {ownerConnectionKey, readOnlyConnectionKey, readWriteConnectionKey}" if "x \<in> set logins" for x
    by (rule login_of_connectionKey [OF login_of_set [OF all that]])
  moreover have "distinct [ownerConnectionKey, readOnlyConnectionKey, readWriteConnectionKey]"
    by (simp add: connection_keys)
  ultimately have distinct: "distinct (map cv_Key (conf_Values full))"
    unfolding keys distinct_append using login_of_distinct(2) [OF all d] by fastforce
  have "list_all cv_Secret (conf_Values full) \<and> list_all (\<lambda>v. cv_Secret v \<and> cv_Value v = []) promoted"
    using made load l
    by (auto simp: CreateConnectionConfiguration_def promoted promotableConnectionConfiguration_def Let_def published_def
        promised_def list_all_iff split: prod.splits)
  with entries distinct show ?thesis by blast
qed

theorem published_connections_agree_witness:
  "\<exists>full s'. CreateConnectionConfiguration sample_platform ''shop/store'' sample_conf ''db:5432'' True
       (sample_service\<lparr>loginPasswords := []\<rparr>) = (Inr full, s') \<and> distinct (map cv_Key (conf_Values full))"
proof -
  have made: "\<exists>full s'. CreateConnectionConfiguration sample_platform ''shop/store'' sample_conf ''db:5432'' True
      (sample_service\<lparr>loginPasswords := []\<rparr>) = (Inr full, s')"
    unfolding CreateConnectionConfiguration_def sample_load
    by (simp add: sample_logins sample_service_def Let_def split: prod.splits)
  have "\<not> externalIdentity (settings (sample_service\<lparr>loginPasswords := []\<rparr>))" by code_simp
  then show ?thesis using made published_connections_agree by blast
qed

end
