(* ===== verification/Lifecycle.thy ===== *)
theory Lifecycle
  imports HotReload Reconcile RunServer Provision Published
begin

text \<open>
  The runtime handlers of \<open>runtime.go\<close> and \<open>runtime_native.go\<close>: \<open>Init\<close>, \<open>Start\<close>, \<open>Stop\<close>,
  \<open>Destroy\<close> and the hot-reload \<open>EventHandler\<close>, composed from the operations of the other theories
  as the code composes them. What a handler does to the database, to the shared server and to the
  container is recorded as a list of stages; a stage is recorded when it is entered, also when it
  then fails. The Docker engine, the watcher of the core library, \<open>net/url\<close>'s query encoding and
  the database's answers are the environment. Log messages are left out, except that skipped
  prerequisites are reported. \<open>None\<close> means that a handler does not return.
\<close>

section \<open>State\<close>

datatype ended_by = Canceled | DeadlineExceeded

datatype probe_result = ProbeReady | ProbeEnded | ProbeFailed string

datatype docker_image = PinnedImage string string | NamedImage string | DefaultImage

record container_spec =
  spec_Ports :: "nat \<times> nat"
  spec_Env :: "(string \<times> string) list"
  spec_Command :: "string list"

datatype agent_error =
    NetworkError string
  | ConfigurationError access_error
  | ConnectTimeoutError
  | AcquireFailed acquire_error
  | ProvisionFailed provision_error
  | ForwardFailed string
  | ContainerFailed string
  | PrerequisiteFailed schema_error
  | OpenFailedDB string
  | NotReady ended_by "string option"
  | Cancelled string
  | ExtensionFailed schema_error
  | MigrationFailed "string \<times> migration_error list"
  | AccessFailed ensure_error
  | ReleaseFailed "string option list"
  | StoppedByInvocation
  | Joined agent_error agent_error

datatype stage =
    HostReaped
  | ServerAcquired
  | DatabaseProvisioned
  | EndpointPublished
  | ContainerStarted
  | DatabaseReady
  | ControlPlaneAcquired
  | ExtensionStage string
  | MigrationStage
  | SkipsReported "skippedPrerequisite list"
  | WatcherArmed
  | AccessStage
  | StartCommitted
  | SupervisionArmed
  | ReloadStage
  | ControlPlaneReleased
  | ServerReleased bool
  | ContainerStopped
  | ContainerRemoved

record ('w, 'db) agent_env =
  agent_platform :: platform
  agent_native :: "'w native_env"
  agent_self :: "int \<times> int"
  agent_servers :: string
  agent_unique :: string
  agent_run :: "string \<times> string"
  agent_catalogue :: "'w host run_server_db"
  agent_files :: filesystem
  agent_local :: "string \<Rightarrow> string"
  agent_cluster :: "'db cluster"
  ctx_err :: "'w \<Rightarrow> string option"
  wait_turn :: "'w \<Rightarrow> string option \<times> 'w"
  sql_open :: "string \<Rightarrow> string option"
  clock :: "'w \<Rightarrow> int"
  probeReady :: "string \<Rightarrow> int \<Rightarrow> 'w \<Rightarrow> probe_result \<times> 'w"
  select_retry :: "int \<Rightarrow> 'w \<Rightarrow> ended_by option \<times> 'w"
  create_on :: "string \<Rightarrow> 'db \<Rightarrow> string \<Rightarrow> string option"
  after_extensions :: "string \<Rightarrow> schemaPrerequisites \<Rightarrow> 'db \<Rightarrow> 'db"
  migration_run :: "'db \<Rightarrow> migrationSource \<Rightarrow> (nat \<Rightarrow> handle_env) \<times> (nat \<Rightarrow> nat) \<times> (nat \<Rightarrow> up_result)"
  after_migrations :: "migrationSource list \<Rightarrow> 'db \<Rightarrow> 'db"
  reload_run :: "'db \<Rightarrow> migrationSource \<Rightarrow> reload_env"
  after_reload :: "string \<Rightarrow> 'db \<Rightarrow> 'db"
  url_set_query :: "string \<Rightarrow> string \<Rightarrow> string \<Rightarrow> string option"
  dsn_string :: "admin_dsn \<Rightarrow> string"
  forwardToSocket :: "string \<Rightarrow> string \<Rightarrow> 'w \<Rightarrow> (string, nat) result \<times> 'w"
  setup_watcher :: "'w \<Rightarrow> string option \<times> 'w"
  recover_resources :: "'w \<Rightarrow> 'w"
  new_docker :: "docker_image \<Rightarrow> string \<Rightarrow> 'w \<Rightarrow> (string, nat) result \<times> 'w"
  mount_data :: "nat \<Rightarrow> string \<Rightarrow> string \<Rightarrow> 'w \<Rightarrow> (string, string) result \<times> 'w"
  docker_init :: "nat \<Rightarrow> container_spec \<Rightarrow> 'w \<Rightarrow> string option \<times> 'w"
  docker_stop :: "nat \<Rightarrow> 'w \<Rightarrow> string option \<times> 'w"
  docker_shutdown :: "nat \<Rightarrow> 'w \<Rightarrow> string option \<times> 'w"

record ('w, 'db) Runtime =
  rt_service :: Service
  rt_nix :: bool
  nixRuntime :: "nixPostgres option"
  runnerEnvironment :: "nat option"
  extensionAdmin :: string
  released :: bool
  retainedDataPath :: string
  watching :: bool
  RuntimeConfigurations :: "Configuration list"
  rt_host :: "'w host"
  rt_db :: 'db
  stages :: "stage list"

type_synonym ('w, 'db) outcome = "(agent_error option \<times> ('w, 'db) Runtime) option"

definition reach :: "stage \<Rightarrow> ('w, 'db) Runtime \<Rightarrow> ('w, 'db) Runtime" where
  "reach st r = r\<lparr>stages := stages r @ [st]\<rparr>"

abbreviation rt_world :: "('w, 'db) Runtime \<Rightarrow> 'w" where
  "rt_world r \<equiv> world (rt_host r)"

definition set_world :: "'w \<Rightarrow> ('w, 'db) Runtime \<Rightarrow> ('w, 'db) Runtime" where
  "set_world w r = r\<lparr>rt_host := (rt_host r)\<lparr>world := w\<rparr>\<rparr>"

abbreviation rt_settings :: "('w, 'db) Runtime \<Rightarrow> Settings" where
  "rt_settings r \<equiv> settings (rt_service r)"

definition chain :: "('s \<Rightarrow> ('e option \<times> 's) option) \<Rightarrow> ('s \<Rightarrow> ('e option \<times> 's) option) \<Rightarrow> 's \<Rightarrow> ('e option \<times> 's) option" where
  "chain f g s =
     (case f s of None \<Rightarrow> None | Some (Some e, s') \<Rightarrow> Some (Some e, s') | Some (None, s') \<Rightarrow> g s')"

section \<open>Readiness\<close>

definition postgresDataCacheKey :: string where "postgresDataCacheKey = ''postgres-data''"
definition postgresDataDirectory :: string where "postgresDataDirectory = ''/var/lib/postgresql/data''"
definition readinessProbeInterval :: int where "readinessProbeInterval = 3 * time_Second"

text \<open>The failure names what ended the wait, and the last failure of the database if there was one.\<close>

definition readinessFailure :: "ended_by \<Rightarrow> string option \<Rightarrow> agent_error" where
  "readinessFailure ended lastProbeErr = NotReady ended lastProbeErr"

partial_function (option) await_ready :: "('w, 'db) agent_env \<Rightarrow> string \<Rightarrow> int \<Rightarrow> string option \<Rightarrow> 'w
    \<Rightarrow> (agent_error option \<times> 'w) option" where
  "await_ready A conn deadline lastProbeErr w =
     (case probeReady A conn deadline w of
        (ProbeReady, w1) \<Rightarrow> Some (None, w1)
      | (ProbeEnded, w1) \<Rightarrow>
          (case select_retry A deadline w1 of
             (Some ended, w2) \<Rightarrow> Some (Some (readinessFailure ended lastProbeErr), w2)
           | (None, w2) \<Rightarrow> await_ready A conn deadline lastProbeErr w2)
      | (ProbeFailed e, w1) \<Rightarrow>
          (case select_retry A deadline w1 of
             (Some ended, w2) \<Rightarrow> Some (Some (readinessFailure ended (Some e)), w2)
           | (None, w2) \<Rightarrow> await_ready A conn deadline (Some e) w2))"

definition WaitForReady :: "('w, 'db) agent_env \<Rightarrow> ('w, 'db) Runtime \<Rightarrow> ('w, 'db) outcome" where
  "WaitForReady A r =
     (let budget = readiness_budget (settings_Timeouts (rt_settings r)) in
      case sql_open A (connection (rt_service r)) of
        Some e \<Rightarrow> Some (Some (OpenFailedDB e), r)
      | None \<Rightarrow>
          (case await_ready A (connection (rt_service r)) (clock A (rt_world r) + budget) None (rt_world r) of
             None \<Rightarrow> None
           | Some (Some e, w) \<Rightarrow> Some (Some e, set_world w r)
           | Some (None, w) \<Rightarrow> Some (None, reach DatabaseReady (set_world w r))))"

section \<open>The schema transition\<close>

text \<open>\<open>controlPlaneLock.acquire\<close>: an expired context is refused first, then one of the two ready
  cases of the \<open>select\<close> is taken (\<open>wait_turn\<close>).\<close>

definition acquire_control :: "('w, 'db) agent_env \<Rightarrow> (agent_error, ('w, 'db) Runtime) action" where
  "acquire_control A r =
     (case ctx_err A (rt_world r) of
        Some e \<Rightarrow> (Some (Cancelled e), r)
      | None \<Rightarrow>
          (case wait_turn A (rt_world r) of
             (Some e, w) \<Rightarrow> (Some (Cancelled e), set_world w r)
           | (None, w) \<Rightarrow> (None, reach ControlPlaneAcquired (set_world w r))))"

definition with_control :: "('w, 'db) agent_env \<Rightarrow> (agent_error, ('w, 'db) Runtime) action \<Rightarrow> (agent_error, ('w, 'db) Runtime) action" where
  "with_control A body r =
     (case acquire_control A r of
        (Some e, r1) \<Rightarrow> (Some e, r1)
      | (None, r1) \<Rightarrow> (case body r1 of (res, r2) \<Rightarrow> (res, reach ControlPlaneReleased r2)))"

definition extensionConnection :: "('w, 'db) Runtime \<Rightarrow> string" where
  "extensionConnection r = (if extensionAdmin r \<noteq> [] then extensionAdmin r else connection (rt_service r))"

definition extension_stage :: "('w, 'db) agent_env \<Rightarrow> schemaPrerequisites \<Rightarrow> ('w, 'db) Runtime
    \<Rightarrow> agent_error option \<times> schemaPrerequisites \<times> ('w, 'db) Runtime" where
  "extension_stage A p r =
     (let conn = extensionConnection r in
      case ensureExtensions (sql_open A conn) (create_on A conn (rt_db r)) p of
        (res, p') \<Rightarrow> (map_option ExtensionFailed res, p',
           reach (ExtensionStage conn) (r\<lparr>rt_db := after_extensions A conn p (rt_db r)\<rparr>)))"

definition migration_stage :: "('w, 'db) agent_env \<Rightarrow> migrationSource list \<Rightarrow> (agent_error, ('w, 'db) Runtime) action" where
  "migration_stage A srcs r =
     (map_option MigrationFailed (applyMigration (\<lambda>src.
        case migration_run A (rt_db r) src of (env, took, up) \<Rightarrow>
          fst (applySource env took up (settings_Timeouts (rt_settings r)) src)) srcs),
      reach MigrationStage (r\<lparr>rt_db := after_migrations A srcs (rt_db r)\<rparr>))"

definition applySchema :: "('w, 'db) agent_env \<Rightarrow> schemaPrerequisites \<Rightarrow> (agent_error, ('w, 'db) Runtime) action" where
  "applySchema A p r =
     (case extension_stage A p r of
        (Some e, p', r1) \<Rightarrow> (Some e, reach (SkipsReported (skipped p')) r1)
      | (None, p', r1) \<Rightarrow>
          (case onlyIf (\<not> NoMigration (rt_settings r)) (migration_stage A (sources p')) r1 of
             (res, r2) \<Rightarrow> (res, reach (SkipsReported (skipped p')) r2)))"

definition access_stage :: "('w, 'db) agent_env \<Rightarrow> (agent_error, ('w, 'db) Runtime) action" where
  "access_stage A r =
     (case ensureRuntimeAccessLocked (agent_platform A) (agent_cluster A) (rt_service r) (rt_db r) of
        (res, d, _) \<Rightarrow> (map_option AccessFailed res, reach AccessStage (r\<lparr>rt_db := d\<rparr>)))"

definition resolve_prerequisites :: "('w, 'db) agent_env \<Rightarrow> ('w, 'db) Runtime \<Rightarrow> (schema_error, schemaPrerequisites) result" where
  "resolve_prerequisites A r = resolveSchemaPrerequisites (agent_files A) (agent_local A) (rt_service r)"

definition migrateOnInit :: "('w, 'db) agent_env \<Rightarrow> ('w, 'db) Runtime \<Rightarrow> ('w, 'db) outcome" where
  "migrateOnInit A r =
     (case resolve_prerequisites A r of
        Inl e \<Rightarrow> Some (Some (PrerequisiteFailed e), r)
      | Inr p \<Rightarrow>
          chain (WaitForReady A) (\<lambda>r. Some (with_control A (andThen (applySchema A p) (access_stage A)) r)) r)"

section \<open>Init\<close>

definition withConnectTimeout :: "('w, 'db) agent_env \<Rightarrow> string \<Rightarrow> int \<Rightarrow> string option" where
  "withConnectTimeout A dsn limit = url_set_query A dsn ''connect_timeout'' (Itoa (nat (quot limit time_Second)))"

definition socketPath :: "nixPostgres \<Rightarrow> string" where
  "socketPath n = path_Join [np_socketDir n, ''.s.PGSQL.'' @ Itoa serverSocketPort]"

text \<open>The handle is the one the runtime holds; a failed release keeps it, with what was released of it.\<close>

definition releaseNative :: "('w, 'db) agent_env \<Rightarrow> nixPostgres \<Rightarrow> ('w, 'db) Runtime
    \<Rightarrow> ((agent_error, string) result \<times> ('w, 'db) Runtime) option" where
  "releaseNative A n r =
     (case release_server (agent_native A) n (rt_host r) of
        None \<Rightarrow> None
      | Some ((stopped, errs), n', h) \<Rightarrow>
          if list_ex (\<lambda>e. e \<noteq> None) errs then Some (Inl (ReleaseFailed errs), r\<lparr>rt_host := h, nixRuntime := Some n'\<rparr>)
          else Some (Inr (if stopped then ''stopped native postgres''
                 else ''released this service's database; the run's native postgres server keeps serving its other services''),
               reach (ServerReleased stopped)
                 (r\<lparr>rt_host := h, nixRuntime := None, extensionAdmin := [], released := True\<rparr>)))"

text \<open>The stages of \<open>initNative\<close> once the server is held.\<close>

definition native_stages :: "('w, 'db) agent_env \<Rightarrow> nixPostgres \<Rightarrow> nat \<Rightarrow> ('w, 'db) Runtime \<Rightarrow> ('w, 'db) outcome" where
  "native_stages A n port r =
     (let s = rt_service r; database = DatabaseName (settings s) in
      case provisionDatabase (agent_catalogue A) (agent_unique A) database (postgresUser s) (postgresPassword s) (rt_host r) of
        (Some e, h) \<Rightarrow> Some (Some (ProvisionFailed e), r\<lparr>rt_host := h\<rparr>)
      | (None, h) \<Rightarrow>
          (let r1 = reach DatabaseProvisioned (r\<lparr>rt_host := h\<rparr>) in
           case forwardToSocket A (''127.0.0.1:'' @ Itoa port) (socketPath n) (rt_world r1) of
             (Inl e, w) \<Rightarrow> Some (Some (ForwardFailed e), set_world w r1)
           | (Inr f, w) \<Rightarrow>
               (let r2 = reach EndpointPublished ((set_world w r1)\<lparr>nixRuntime := Some (n\<lparr>np_forwarder := Some f\<rparr>)\<rparr>) in
                case withConnectTimeout A (dsn_string A (adminDSN (np_socketDir n) (np_adminPassword n) database))
                       (connect_budget (settings_Timeouts (settings s))) of
                  None \<Rightarrow> Some (Some ConnectTimeoutError, r2\<lparr>extensionAdmin := []\<rparr>)
                | Some dsn \<Rightarrow>
                    migrateOnInit A (r2\<lparr>extensionAdmin := dsn, retainedDataPath := np_dataDir n, released := False\<rparr>))))"

definition initNative :: "('w, 'db) agent_env \<Rightarrow> nat \<Rightarrow> ('w, 'db) Runtime \<Rightarrow> ('w, 'db) outcome" where
  "initNative A port r =
     (case acquireRunServer (agent_native A) (agent_self A) (agent_servers A)
             (runServerKey (fst (agent_run A)) (snd (agent_run A))) (agent_unique A) (LogLevel (rt_settings r)) (rt_host r) of
        None \<Rightarrow> None
      | Some (Inl e, h) \<Rightarrow> Some (Some (AcquireFailed e), r\<lparr>rt_host := h\<rparr>)
      | Some (Inr n, h) \<Rightarrow>
          (case native_stages A n port (reach ServerAcquired (r\<lparr>rt_host := h, nixRuntime := Some n\<rparr>)) of
             None \<Rightarrow> None
           | Some (None, r1) \<Rightarrow> Some (None, r1)
           | Some (Some e, r1) \<Rightarrow>
               (case nixRuntime r1 of
                  None \<Rightarrow> Some (Some e, r1)
                | Some n1 \<Rightarrow>
                    (case releaseNative A n1 r1 of
                       None \<Rightarrow> None
                     | Some (Inl e', r2) \<Rightarrow> Some (Some (Joined e e'), r2)
                     | Some (Inr _, r2) \<Rightarrow> Some (Some e, r2)))))"

definition dockerImage :: "Settings \<Rightarrow> docker_image" where
  "dockerImage s =
     (if Image s \<noteq> []
      then (case Cut (Image s) CHR ''@'' of (name, digest, pinned) \<Rightarrow> if pinned then PinnedImage name digest else NamedImage (Image s))
      else DefaultImage)"

text \<open>\<open>strings.ToLower\<close> maps code points; the flags carry what it yields.\<close>

definition container :: "platform \<Rightarrow> (nat list \<Rightarrow> string) \<Rightarrow> nat \<Rightarrow> nat \<Rightarrow> Service \<Rightarrow> container_spec" where
  "container P encode port postgresPort s =
     (let lvl = map (ToLower (tables P)) (runes (TrimSpace (LogLevel (settings s)))) in
      \<lparr>spec_Ports = (port mod 65536, postgresPort),
       spec_Env = [(''POSTGRES_USER'', postgresUser s), (''POSTGRES_PASSWORD'', postgresPassword s),
                   (''POSTGRES_DB'', DatabaseName (settings s))],
       spec_Command = (if lvl = [] then []
          else [''postgres'', ''-c'', ''log_min_messages='' @ encode lvl, ''-c'', ''log_statement=none'',
                ''-c'', ''log_connections=off'', ''-c'', ''log_disconnections=off''])\<rparr>)"

definition initDocker :: "('w, 'db) agent_env \<Rightarrow> (nat list \<Rightarrow> string) \<Rightarrow> nat \<Rightarrow> ('w, 'db) Runtime \<Rightarrow> ('w, 'db) outcome" where
  "initDocker A encode port r =
     (case new_docker A (dockerImage (rt_settings r)) (agent_unique A) (rt_world r) of
        (Inl e, w) \<Rightarrow> Some (Some (ContainerFailed e), set_world w r)
      | (Inr runner, w) \<Rightarrow>
          (case mount_data A runner postgresDataCacheKey postgresDataDirectory w of
             (Inl e, w1) \<Rightarrow> Some (Some (ContainerFailed e), set_world w1 r)
           | (Inr dataPath, w1) \<Rightarrow>
               (let r1 = (set_world w1 r)\<lparr>retainedDataPath := dataPath, runnerEnvironment := Some runner\<rparr> in
                case docker_init A runner (container (agent_platform A) encode port 5432 (rt_service r)) w1 of
                  (Some e, w2) \<Rightarrow> Some (Some (ContainerFailed e), set_world w2 r1)
                | (None, w2) \<Rightarrow> migrateOnInit A (reach ContainerStarted ((set_world w2 r1)\<lparr>released := False\<rparr>)))))"

fun publish_instances :: "('w, 'db) agent_env \<Rightarrow> config_values \<Rightarrow> string list \<Rightarrow> (agent_error, ('w, 'db) Runtime) action" where
  "publish_instances A conf [] r = (None, r)"
| "publish_instances A conf (address # addresses) r =
     (case CreateConnectionConfiguration (agent_platform A) (agent_unique A) conf address False (rt_service r) of
        (Inl e, s) \<Rightarrow> (Some (ConfigurationError e), r\<lparr>rt_service := s\<rparr>)
      | (Inr c, s) \<Rightarrow>
          publish_instances A conf addresses
            (r\<lparr>rt_service := s, RuntimeConfigurations := RuntimeConfigurations r @ [c]\<rparr>))"

text \<open>The owner connection that the agent itself uses, and the credentials.\<close>

definition connect_owner :: "('w, 'db) agent_env \<Rightarrow> config_values \<Rightarrow> string \<Rightarrow> (agent_error, ('w, 'db) Runtime) action" where
  "connect_owner A conf address r =
     (case createOwnerConnectionString (agent_platform A) conf address False (rt_service r) of
        (Inl e, s) \<Rightarrow> (Some (ConfigurationError e), r\<lparr>rt_service := s\<rparr>)
      | (Inr dsn, s) \<Rightarrow>
          (case withConnectTimeout A dsn (connect_budget (settings_Timeouts (settings s))) of
             None \<Rightarrow> (Some ConnectTimeoutError, r\<lparr>rt_service := s\<lparr>connection := []\<rparr>\<rparr>)
           | Some c \<Rightarrow>
               (case LoadConfiguration (agent_platform A) conf (s\<lparr>connection := c\<rparr>) of
                  (res, s2) \<Rightarrow> (map_option ConfigurationError res, r\<lparr>rt_service := s2\<rparr>))))"

record init_request =
  req_nix :: bool
  req_configuration :: config_values
  req_addresses :: "(string, string list) result"
  req_instance :: "(string, string \<times> nat) result"

definition reapHostResources :: "('w, 'db) agent_env \<Rightarrow> ('w, 'db) Runtime \<Rightarrow> ('w, 'db) Runtime" where
  "reapHostResources A r = reach HostReaped (set_world (recover_resources A (rt_world r)) r)"

definition Init :: "('w, 'db) agent_env \<Rightarrow> (nat list \<Rightarrow> string) \<Rightarrow> init_request \<Rightarrow> ('w, 'db) Runtime \<Rightarrow> ('w, 'db) outcome" where
  "Init A encode q r =
     (let owner = (if req_nix q then nativeOwnerRole (agent_platform A) (DatabaseName (rt_settings r)) else []);
          r0 = r\<lparr>rt_nix := req_nix q, rt_service := (rt_service r)\<lparr>nativeOwner := owner\<rparr>\<rparr> in
      case req_addresses q of
        Inl e \<Rightarrow> Some (Some (NetworkError e), r0)
      | Inr addresses \<Rightarrow>
          (case req_instance q of
             Inl e \<Rightarrow> Some (Some (NetworkError e), r0)
           | Inr (address, port) \<Rightarrow>
               (case andThen (publish_instances A (req_configuration q) addresses)
                       (connect_owner A (req_configuration q) address) r0 of
                  (Some e, r1) \<Rightarrow> Some (Some e, r1)
                | (None, r1) \<Rightarrow>
                    if req_nix q then initNative A port (reapHostResources A r1)
                    else initDocker A encode port r1)))"

section \<open>Start, Stop, Destroy and hot reload\<close>

definition arm_watcher :: "('w, 'db) agent_env \<Rightarrow> (agent_error, ('w, 'db) Runtime) action" where
  "arm_watcher A r =
     (if \<not> NoMigration (rt_settings r) \<and> HotReload (rt_settings r)
      then (case setup_watcher A (rt_world r) of
              (Some e, w) \<Rightarrow> (None, set_world w r)
            | (None, w) \<Rightarrow> (None, reach WatcherArmed ((set_world w r)\<lparr>watching := True\<rparr>)))
      else (None, r))"

definition commit_start :: "(agent_error, ('w, 'db) Runtime) action" where
  "commit_start r =
     (None, (if nixRuntime r \<noteq> None then reach SupervisionArmed (reach StartCommitted r) else reach StartCommitted r))"

definition Start :: "('w, 'db) agent_env \<Rightarrow> ('w, 'db) Runtime \<Rightarrow> ('w, 'db) outcome" where
  "Start A r =
     (if released r then Some (Some StoppedByInvocation, r)
      else case resolve_prerequisites A r of
        Inl e \<Rightarrow> Some (Some (PrerequisiteFailed e), r)
      | Inr p \<Rightarrow>
          chain (WaitForReady A) (\<lambda>r. Some (with_control A
            (andThen (applySchema A p) (andThen (arm_watcher A) (andThen (access_stage A) commit_start))) r)) r)"

definition stopContainer :: "('w, 'db) agent_env \<Rightarrow> nat \<Rightarrow> 'w \<Rightarrow> string option \<times> 'w" where
  "stopContainer A c w =
     (case docker_stop A c w of
        (None, w1) \<Rightarrow> (None, w1)
      | (Some e, w1) \<Rightarrow> if ctx_err A w1 \<noteq> None then (Some e, w1) else docker_stop A c w1)"

definition retentionSummary :: "string \<Rightarrow> ('w, 'db) Runtime \<Rightarrow> string" where
  "retentionSummary action r =
     (if retainedDataPath r = [] then action @ ''; database state retained''
      else action @ ''; database state retained at '' @ retainedDataPath r)"

definition StopWatcher :: "('w, 'db) Runtime \<Rightarrow> ('w, 'db) Runtime" where
  "StopWatcher r = r\<lparr>watching := False\<rparr>"

type_synonym ('w, 'db) response = "((agent_error, string) result \<times> ('w, 'db) Runtime) option"

definition release_held :: "('w, 'db) agent_env \<Rightarrow> nixPostgres \<Rightarrow> ('w, 'db) Runtime \<Rightarrow> ('w, 'db) response" where
  "release_held A n r =
     (case releaseNative A n r of
        None \<Rightarrow> None
      | Some (Inl e, r1) \<Rightarrow> Some (Inl e, r1)
      | Some (Inr action, r1) \<Rightarrow> (let r2 = reapHostResources A r1 in Some (Inr (retentionSummary action r2), r2)))"

definition Stop :: "('w, 'db) agent_env \<Rightarrow> ('w, 'db) Runtime \<Rightarrow> ('w, 'db) response" where
  "Stop A r =
     (let r0 = StopWatcher r in
      if KeepRunning (rt_settings r) \<and> nixRuntime r = None \<and> \<not> rt_nix r
      then Some (Inr (retentionSummary ''kept postgres running for reuse'' r0), r0)
      else case nixRuntime r of
        Some n \<Rightarrow> release_held A n r0
      | None \<Rightarrow>
          (case runnerEnvironment r of
             Some c \<Rightarrow>
               (case stopContainer A c (rt_world r0) of
                  (Some e, w) \<Rightarrow> Some (Inl (ContainerFailed e), set_world w r0)
                | (None, w) \<Rightarrow>
                    (let r1 = reach ContainerStopped ((set_world w r0)\<lparr>released := True\<rparr>) in
                     Some (Inr (retentionSummary ''stopped postgres container'' r1), r1)))
           | None \<Rightarrow> Some (Inr (retentionSummary ''no postgres owned by this invocation'' r0), r0)))"

definition destroy_runner :: "('w, 'db) agent_env \<Rightarrow> ('w, 'db) Runtime \<Rightarrow> (string, nat) result \<times> 'w" where
  "destroy_runner A r =
     (case runnerEnvironment r of
        Some c \<Rightarrow> (Inr c, rt_world r)
      | None \<Rightarrow> new_docker A (dockerImage (rt_settings r)) (agent_unique A) (rt_world r))"

definition Destroy :: "('w, 'db) agent_env \<Rightarrow> ('w, 'db) Runtime \<Rightarrow> ('w, 'db) response" where
  "Destroy A r =
     (let r0 = StopWatcher r in
      case nixRuntime r of
        Some n \<Rightarrow> release_held A n r0
      | None \<Rightarrow>
          if rt_nix r then Some (Inr (retentionSummary ''native postgres already stopped'' r0), r0)
          else
           (case destroy_runner A r0 of
              (Inl e, w) \<Rightarrow> Some (Inl (ContainerFailed e), set_world w r0)
            | (Inr c, w) \<Rightarrow>
                (case docker_shutdown A c w of
                   (Some e, w1) \<Rightarrow> Some (Inl (ContainerFailed e), set_world w1 r0)
                 | (None, w1) \<Rightarrow>
                     (let r1 = reach ContainerRemoved ((set_world w1 r0)\<lparr>runnerEnvironment := None, released := True\<rparr>) in
                      Some (Inr (retentionSummary ''removed postgres container'' r1), r1)))))"

text \<open>The handler's context is the background context, which is never done.\<close>

definition background :: "('w, 'db) agent_env \<Rightarrow> ('w, 'db) agent_env" where
  "background A = A\<lparr>ctx_err := (\<lambda>w. None), wait_turn := (\<lambda>w. (None, snd (wait_turn A w)))\<rparr>"

definition reload_stage :: "('w, 'db) agent_env \<Rightarrow> string \<Rightarrow> (agent_error, ('w, 'db) Runtime) action" where
  "reload_stage A path r =
     (case applyMigrationChange (agent_files A) (agent_local A) (rt_service r) (reload_run A (rt_db r)) path of
        ((applied, errs), calls) \<Rightarrow>
          (let r1 = reach ReloadStage (r\<lparr>rt_db := after_reload A path (rt_db r)\<rparr>) in
           if \<not> applied then (None, r1) else (None, snd (access_stage A r1))))"

definition EventHandler :: "('w, 'db) agent_env \<Rightarrow> string \<Rightarrow> (agent_error, ('w, 'db) Runtime) action" where
  "EventHandler A path = with_control (background A) (reload_stage (background A) path)"

section \<open>The handlers return\<close>

text \<open>A failed probe is retried only after time has passed, and at most one probe interval late.\<close>

definition ready_clock :: "('w, 'db) agent_env \<Rightarrow> bool" where
  "ready_clock A \<longleftrightarrow>
     (\<forall>conn deadline w res w1 w2. probeReady A conn deadline w = (res, w1) \<longrightarrow> res \<noteq> ProbeReady \<longrightarrow>
        select_retry A deadline w1 = (None, w2) \<longrightarrow>
        clock A w < clock A w2 \<and> clock A w2 < deadline + readinessProbeInterval)"

declare await_ready.simps [code]

lemma await_ready_returns:
  assumes "ready_clock A"
  shows "await_ready A conn deadline failure w \<noteq> None"
proof (induction "nat (deadline + readinessProbeInterval - clock A w)" arbitrary: w failure rule: less_induct)
  case less
  obtain res w1 where p: "probeReady A conn deadline w = (res, w1)" by fastforce
  obtain ended w2 where s: "select_retry A deadline w1 = (ended, w2)" by fastforce
  have "await_ready A conn deadline l w2 \<noteq> None" if "res \<noteq> ProbeReady" "ended = None" for l
  proof (rule less)
    show "nat (deadline + readinessProbeInterval - clock A w2) < nat (deadline + readinessProbeInterval - clock A w)"
      using assms p s that unfolding ready_clock_def by (smt (verit) nat_less_eq_zless)
  qed
  then show ?case
    by (subst await_ready.simps) (auto simp: p s simp del: not_None_eq split: probe_result.splits option.splits)
qed

lemma chain_returns: "f s \<noteq> None \<Longrightarrow> (\<And>s'. g s' \<noteq> None) \<Longrightarrow> chain f g s \<noteq> None"
  by (auto simp: chain_def simp del: not_None_eq split: option.splits)

lemma WaitForReady_returns: "ready_clock A \<Longrightarrow> WaitForReady A r \<noteq> None"
  using await_ready_returns [of A] by (auto simp: WaitForReady_def Let_def simp del: not_None_eq split: option.splits)

lemma migrateOnInit_returns: "ready_clock A \<Longrightarrow> migrateOnInit A r \<noteq> None"
  by (cases "resolve_prerequisites A r") (simp_all add: migrateOnInit_def chain_returns WaitForReady_returns del: not_None_eq)

lemma acquireRunServer_returns: "clock_runs E \<Longrightarrow> acquireRunServer E self servers key service lvl h \<noteq> None"
  by (auto simp: acquireRunServer_def collectAbandonedServers_def Let_def acquire_locked_returns collect_roots_returns
      simp del: not_None_eq split: prod.splits option.splits)

lemma release_server_returns: "clock_runs E \<Longrightarrow> release_server E n h \<noteq> None"
  by (auto simp: release_server_def Let_def release_locked_returns simp del: not_None_eq split: prod.splits option.splits)

lemma releaseNative_returns: "clock_runs (agent_native A) \<Longrightarrow> releaseNative A n r \<noteq> None"
  using release_server_returns [of "agent_native A"]
  by (auto simp: releaseNative_def simp del: not_None_eq split: option.splits)

lemma initNative_returns:
  assumes "ready_clock A" "clock_runs (agent_native A)"
  shows "initNative A port r \<noteq> None"
proof -
  have "native_stages A n port u \<noteq> None" for n u
    using migrateOnInit_returns [OF assms(1)]
    by (auto simp: native_stages_def Let_def simp del: not_None_eq split: prod.splits option.splits sum.splits)
  then show ?thesis
    using acquireRunServer_returns [OF assms(2)] releaseNative_returns [OF assms(2)]
    by (auto simp: initNative_def simp del: not_None_eq split: option.splits sum.splits prod.splits)
qed

lemma initDocker_returns: "ready_clock A \<Longrightarrow> initDocker A encode port r \<noteq> None"
  by (auto simp: initDocker_def Let_def migrateOnInit_returns simp del: not_None_eq split: prod.splits sum.splits option.splits)

lemma release_held_returns: "clock_runs (agent_native A) \<Longrightarrow> release_held A n r \<noteq> None"
  using releaseNative_returns [of A]
  by (auto simp: release_held_def Let_def simp del: not_None_eq split: option.splits sum.splits)


section \<open>One control-plane transition at a time\<close>

fun mutates :: "stage \<Rightarrow> bool" where
  "mutates (ExtensionStage c) = True"
| "mutates MigrationStage = True"
| "mutates AccessStage = True"
| "mutates ReloadStage = True"
| "mutates WatcherArmed = True"
| "mutates _ = False"

text \<open>Running through the stages, is the control plane held? \<open>None\<close> after a violation.\<close>

fun control :: "bool option \<Rightarrow> stage \<Rightarrow> bool option" where
  "control None st = None"
| "control (Some held) st =
     (if st = ControlPlaneAcquired then (if held then None else Some True)
      else if st = ControlPlaneReleased then (if held then Some False else None)
      else if mutates st \<and> \<not> held then None else Some held)"

definition moves :: "bool \<Rightarrow> ('w, 'db) Runtime \<Rightarrow> ('w, 'db) Runtime \<Rightarrow> bool \<Rightarrow> bool" where
  "moves h r r' h' \<longleftrightarrow> (\<exists>xs. stages r' = stages r @ xs \<and> foldl control (Some h) xs = Some h')"

lemma moves_refl: "stages r' = stages r \<Longrightarrow> moves h r r' h"
  by (simp add: moves_def)

lemma moves_trans: "moves a r r1 b \<Longrightarrow> moves b r1 r2 c \<Longrightarrow> moves a r r2 c"
  by (fastforce simp: moves_def)

text \<open>What the runtime holds: the stages that work on the schema leave it alone.\<close>

definition holdings :: "('w, 'db) Runtime \<Rightarrow> nixPostgres option \<times> nat option \<times> string \<times> bool \<times> string \<times> bool" where
  "holdings r = (nixRuntime r, runnerEnvironment r, extensionAdmin r, released r, retainedDataPath r, rt_nix r)"

definition works :: "bool \<Rightarrow> ('w, 'db) Runtime \<Rightarrow> ('w, 'db) Runtime \<Rightarrow> bool \<Rightarrow> bool" where
  "works h r r' h' \<longleftrightarrow> moves h r r' h' \<and> holdings r' = holdings r"

lemma works_trans: "works a r r1 b \<Longrightarrow> works b r1 r2 c \<Longrightarrow> works a r r2 c"
  by (auto simp: works_def intro: moves_trans)

lemma works_refl [simp]: "works h r r h"
  by (simp add: works_def moves_refl)

lemma stages_simps [simp]:
  "stages (reach st r) = stages r @ [st]" "stages (set_world w r) = stages r" "stages (StopWatcher r) = stages r"
  by (simp_all add: reach_def set_world_def StopWatcher_def)

lemma holdings_simps [simp]:
  "holdings (reach st r) = holdings r" "holdings (set_world w r) = holdings r" "holdings (StopWatcher r) = holdings r"
  "holdings (r\<lparr>rt_db := d\<rparr>) = holdings r" "holdings (r\<lparr>watching := b\<rparr>) = holdings r"
  "holdings (r\<lparr>rt_service := s\<rparr>) = holdings r" "holdings (r\<lparr>RuntimeConfigurations := c\<rparr>) = holdings r"
  "holdings (r\<lparr>rt_host := h\<rparr>) = holdings r"
  by (simp_all add: holdings_def reach_def set_world_def StopWatcher_def)

lemma works_andThen:
  assumes "andThen f g r = (res, r')" "\<And>res u. f r = (res, u) \<Longrightarrow> works a r u a"
    "\<And>u res u'. g u = (res, u') \<Longrightarrow> works a u u' a"
  shows "works a r r' a"
  using assms by (auto simp: andThen_def split: prod.splits option.splits intro: works_trans)

lemma applySchema_works: "applySchema A p r = (res, r') \<Longrightarrow> works True r r' True"
  by (auto simp: applySchema_def extension_stage_def migration_stage_def onlyIf_def done_ok_def Let_def works_def moves_def
      split: prod.splits option.splits if_splits)

lemma access_stage_works: "access_stage A r = (res, r') \<Longrightarrow> works True r r' True"
  by (auto simp: access_stage_def works_def moves_def split: prod.splits)

lemma arm_watcher_works: "arm_watcher A r = (res, r') \<Longrightarrow> works True r r' True"
  by (auto simp: arm_watcher_def works_def moves_def split: prod.splits option.splits if_splits)

lemma commit_start_works: "commit_start r = (res, r') \<Longrightarrow> works True r r' True"
  by (auto simp: commit_start_def works_def moves_def split: if_splits)

lemma reload_stage_works: "reload_stage A path r = (res, r') \<Longrightarrow> works True r r' True"
  by (auto simp: reload_stage_def access_stage_def works_def moves_def Let_def split: prod.splits if_splits)

lemma with_control_works:
  assumes run: "with_control A body r = (res, r')"
    and body: "\<And>u res u'. body u = (res, u') \<Longrightarrow> works True u u' True"
  shows "works False r r' False"
proof (cases "acquire_control A r")
  case (Pair res1 r1)
  show ?thesis
  proof (cases res1)
    case None
    obtain res2 r2 where b: "body r1 = (res2, r2)" by fastforce
    have "works False r r1 True"
      using Pair None by (auto simp: acquire_control_def works_def moves_def split: option.splits prod.splits)
    moreover have "works True r2 r' False"
      using run Pair None b by (auto simp: with_control_def works_def moves_def)
    ultimately show ?thesis using body [OF b] by (blast intro: works_trans)
  next
    case (Some e)
    then show ?thesis
      using run Pair
      by (auto simp: with_control_def acquire_control_def works_def moves_refl split: option.splits prod.splits)
  qed
qed

lemma WaitForReady_works: "WaitForReady A r = Some (res, r') \<Longrightarrow> works False r r' False"
  by (auto simp: WaitForReady_def works_def moves_def Let_def split: option.splits)

lemma chain_works:
  assumes "chain f g r = Some (res, r')" "\<And>res u. f r = Some (res, u) \<Longrightarrow> works a r u a"
    "\<And>u res u'. g u = Some (res, u') \<Longrightarrow> works a u u' a"
  shows "works a r r' a"
  using assms by (auto simp: chain_def split: option.splits intro: works_trans)

lemmas body_works = applySchema_works access_stage_works arm_watcher_works commit_start_works reload_stage_works

lemma migrateOnInit_works: "migrateOnInit A r = Some (res, r') \<Longrightarrow> works False r r' False"
  by (auto simp: migrateOnInit_def split: sum.splits
      elim!: chain_works WaitForReady_works with_control_works works_andThen body_works)

lemma Start_works: "Start A r = Some (res, r') \<Longrightarrow> works False r r' False"
  by (auto simp: Start_def split: sum.splits if_splits
      elim!: chain_works WaitForReady_works with_control_works works_andThen body_works)

lemma releaseNative_moves: "releaseNative A n r = Some (res, r') \<Longrightarrow> moves False r r' False"
  by (auto simp: releaseNative_def moves_def split: option.splits if_splits)

lemma releaseNative_holds:
  assumes "releaseNative A n r = Some (res, r')"
  shows "case res of Inl e \<Rightarrow> (\<exists>errs. e = ReleaseFailed errs) \<and> nixRuntime r' \<noteq> None \<and> extensionAdmin r' = extensionAdmin r
    | Inr msg \<Rightarrow> nixRuntime r' = None \<and> extensionAdmin r' = [] \<and> released r'"
  using assms by (auto simp: releaseNative_def reach_def split: option.splits if_splits)

lemma works_moves: "works h r r' h' \<Longrightarrow> moves h r r' h'"
  by (simp add: works_def)

lemma moves_from: "moves h u r' h' \<Longrightarrow> moves h r u h \<Longrightarrow> moves h r r' h'"
  by (blast intro: moves_trans)

text \<open>How far the stages of \<open>initNative\<close> got, and what is held then.\<close>

lemma native_stages_cases:
  assumes "native_stages A n port r = Some (res, r')" "nixRuntime r = Some n"
  obtains (early) "res \<noteq> None" "moves False r r' False" "nixRuntime r' \<noteq> None"
  | (migrating) u f where "migrateOnInit A u = Some (res, r')" "stages u = stages r @ [DatabaseProvisioned, EndpointPublished]"
      "nixRuntime u = Some (n\<lparr>np_forwarder := Some f\<rparr>)" "\<not> released u" "retainedDataPath u = np_dataDir n"
proof -
  let ?s = "rt_service r" and ?db = "DatabaseName (rt_settings r)"
  note run = assms(1) [unfolded native_stages_def Let_def]
  obtain pe h where p: "provisionDatabase (agent_catalogue A) (agent_unique A) ?db (postgresUser ?s) (postgresPassword ?s) (rt_host r) = (pe, h)"
    by fastforce
  let ?r1 = "reach DatabaseProvisioned (r\<lparr>rt_host := h\<rparr>)"
  obtain fr w where f: "forwardToSocket A (''127.0.0.1:'' @ Itoa port) (socketPath n) (rt_world ?r1) = (fr, w)" by fastforce
  let ?c = "withConnectTimeout A (dsn_string A (adminDSN (np_socketDir n) (np_adminPassword n) ?db)) (connect_budget (settings_Timeouts (rt_settings r)))"
  consider (stop) "pe \<noteq> None \<or> (\<exists>e. fr = Inl e) \<or> ?c = None" | (on) fw dsn where "pe = None" "fr = Inr fw" "?c = Some dsn"
    by (cases pe; cases fr; cases ?c) auto
  then show ?thesis
  proof cases
    case stop
    show ?thesis
      by (rule early) (use run p f stop assms(2) in \<open>auto simp: moves_def reach_def set_world_def split: option.splits sum.splits\<close>)
  next
    case on
    show ?thesis
      by (rule migrating [of "(reach EndpointPublished ((set_world w ?r1)\<lparr>nixRuntime := Some (n\<lparr>np_forwarder := Some fw\<rparr>)\<rparr>))
        \<lparr>extensionAdmin := dsn, retainedDataPath := np_dataDir n, released := False\<rparr>" fw])
        (use run p f on in \<open>auto simp: reach_def set_world_def\<close>)
  qed
qed

lemma native_stages_moves:
  assumes "native_stages A n port r = Some (res, r')" "nixRuntime r = Some n"
  shows "moves False r r' False \<and> nixRuntime r' \<noteq> None"
  using assms
proof (cases rule: native_stages_cases)
  case (migrating u f)
  then have "moves False r u False" by (simp add: moves_def)
  with migrateOnInit_works [OF migrating(1)] migrating(3) show ?thesis
    by (auto simp: works_def holdings_def intro: moves_trans)
qed simp

lemma initNative_moves:
  assumes run: "initNative A port r = Some (res, r')" and adm: "nixRuntime r = None \<longrightarrow> extensionAdmin r = []"
  shows "moves False r r' False \<and> (nixRuntime r' = None \<longrightarrow> extensionAdmin r' = [])"
proof (cases "\<exists>n h. acquireRunServer (agent_native A) (agent_self A) (agent_servers A)
    (runServerKey (fst (agent_run A)) (snd (agent_run A))) (agent_unique A) (LogLevel (rt_settings r)) (rt_host r) = Some (Inr n, h)")
  case True
  then obtain n h where acq: "acquireRunServer (agent_native A) (agent_self A) (agent_servers A)
    (runServerKey (fst (agent_run A)) (snd (agent_run A))) (agent_unique A) (LogLevel (rt_settings r)) (rt_host r) = Some (Inr n, h)"
    by blast
  let ?r0 = "reach ServerAcquired (r\<lparr>rt_host := h, nixRuntime := Some n\<rparr>)"
  have r0: "moves False r ?r0 False" "nixRuntime ?r0 = Some n" by (simp_all add: moves_def reach_def)
  obtain res1 r1 where st: "native_stages A n port ?r0 = Some (res1, r1)"
    using run acq by (auto simp: initNative_def split: option.splits)
  note m = native_stages_moves [OF st r0(2)]
  then have r1: "moves False r r1 False" using r0(1) by (blast intro: moves_trans)
  show ?thesis
  proof (cases res1)
    case None
    then show ?thesis using run acq st m r1 by (auto simp: initNative_def)
  next
    case (Some e)
    obtain n1 res2 where rel: "releaseNative A n1 r1 = Some (res2, r')"
      using run acq st m Some by (auto simp: initNative_def split: option.splits sum.splits)
    then show ?thesis
      using releaseNative_moves [OF rel] releaseNative_holds [OF rel] r1 by (auto intro: moves_trans split: sum.splits)
  qed
next
  case False
  then show ?thesis using run adm by (auto simp: initNative_def moves_def split: option.splits sum.splits prod.splits)
qed

lemma initDocker_moves:
  assumes "initDocker A encode port r = Some (res, r')" "nixRuntime r = None \<longrightarrow> extensionAdmin r = []"
  shows "moves False r r' False \<and> (nixRuntime r' = None \<longrightarrow> extensionAdmin r' = [])"
proof -
  have init: "moves False r r' False \<and> (nixRuntime r' = None \<longrightarrow> extensionAdmin r' = [])"
    if "migrateOnInit A u = Some (res, r')" "moves False r u False" "nixRuntime u = nixRuntime r" "extensionAdmin u = extensionAdmin r" for u
    using migrateOnInit_works [OF that(1)] that(2-4) assms(2) by (auto simp: works_def holdings_def intro: moves_trans)
  show ?thesis
    using assms
    by (auto simp: initDocker_def Let_def split: prod.splits option.splits sum.splits)
      (auto simp: moves_def reach_def set_world_def dest!: init)
qed

lemma publish_works: "publish_instances A conf addresses r = (res, r') \<Longrightarrow> works False r r' False"
proof (induction addresses arbitrary: r)
  case (Cons a addresses)
  then show ?case
    by (auto simp: works_def moves_def split: prod.splits sum.splits dest!: Cons.IH)
qed simp

lemma connect_owner_works: "connect_owner A conf address r = (res, r') \<Longrightarrow> works False r r' False"
  by (auto simp: connect_owner_def works_def moves_def split: prod.splits sum.splits option.splits)

lemma Init_moves:
  assumes run: "Init A encode q r = Some (res, r')" and adm: "nixRuntime r = None \<longrightarrow> extensionAdmin r = []"
  shows "moves False r r' False \<and> (nixRuntime r' = None \<longrightarrow> extensionAdmin r' = [])"
proof -
  let ?owner = "if req_nix q then nativeOwnerRole (agent_platform A) (DatabaseName (rt_settings r)) else []"
  let ?r0 = "r\<lparr>rt_nix := req_nix q, rt_service := (rt_service r)\<lparr>nativeOwner := ?owner\<rparr>\<rparr>"
  have r0: "moves False r ?r0 False" "nixRuntime ?r0 = nixRuntime r" "extensionAdmin ?r0 = extensionAdmin r"
    by (simp_all add: moves_def)
  show ?thesis
  proof (cases "\<exists>e. req_addresses q = Inl e \<or> req_instance q = Inl e")
    case True
    then show ?thesis using run adm by (auto simp: Init_def Let_def moves_def split: sum.splits prod.splits)
  next
    case False
    then obtain addresses address port where q: "req_addresses q = Inr addresses" "req_instance q = Inr (address, port)"
      by (cases "req_addresses q"; cases "req_instance q") auto
    obtain pre r1 where p: "andThen (publish_instances A (req_configuration q) addresses)
        (connect_owner A (req_configuration q) address) ?r0 = (pre, r1)" by fastforce
    have "works False ?r0 r1 False" by (rule works_andThen [OF p publish_works connect_owner_works])
    then have r1: "moves False r r1 False" "nixRuntime r1 = None \<longrightarrow> extensionAdmin r1 = []"
      using r0 adm by (auto simp: works_def holdings_def intro: moves_trans)
    let ?r2 = "reapHostResources A r1"
    have r2: "moves False r1 ?r2 False" "nixRuntime ?r2 = None \<longrightarrow> extensionAdmin ?r2 = []"
      using r1(2) by (auto simp: reapHostResources_def moves_def reach_def set_world_def)
    show ?thesis
    proof (cases pre)
      case (Some e)
      then show ?thesis using run q p r1 by (simp add: Init_def Let_def)
    next
      case None
      then have "if req_nix q then initNative A port ?r2 = Some (res, r') else initDocker A encode port r1 = Some (res, r')"
        using run q p by (auto simp: Init_def Let_def split: if_splits)
      then show ?thesis
        using initNative_moves [OF _ r2(2)] initDocker_moves [OF _ r1(2)] r1(1) r2(1)
        by (auto split: if_splits intro: moves_trans)
    qed
  qed
qed

lemma release_held_moves:
  assumes "release_held A n r = Some (res, r')"
  shows "moves False r r' False \<and> (nixRuntime r' = None \<longrightarrow> extensionAdmin r' = [])"
proof -
  obtain res1 r1 where rel: "releaseNative A n r = Some (res1, r1)"
    using assms by (auto simp: release_held_def split: option.splits)
  have "moves False r1 r' False \<and> nixRuntime r' = nixRuntime r1 \<and> extensionAdmin r' = extensionAdmin r1"
    using assms rel
    by (auto simp: release_held_def reapHostResources_def reach_def set_world_def moves_def Let_def split: sum.splits)
  then show ?thesis
    using releaseNative_moves [OF rel] releaseNative_holds [OF rel] by (auto intro: moves_trans split: sum.splits)
qed

lemma StopWatcher_start [simp]:
  "moves h (StopWatcher r) r' h' = moves h r r' h'" "nixRuntime (StopWatcher r) = nixRuntime r"
  "extensionAdmin (StopWatcher r) = extensionAdmin r"
  by (simp_all add: moves_def StopWatcher_def)

lemma Stop_moves:
  assumes "Stop A r = Some (res, r')" "nixRuntime r = None \<longrightarrow> extensionAdmin r = []"
  shows "moves False r r' False \<and> (nixRuntime r' = None \<longrightarrow> extensionAdmin r' = [])"
proof (cases "nixRuntime r")
  case None
  then show ?thesis
    using assms
    by (auto simp: Stop_def Let_def moves_refl split: if_splits option.splits prod.splits)
      (auto simp: moves_def reach_def set_world_def StopWatcher_def)
next
  case (Some n)
  then have "release_held A n (StopWatcher r) = Some (res, r')" using assms by (simp add: Stop_def Let_def)
  then show ?thesis using release_held_moves by fastforce
qed

lemma Destroy_moves:
  assumes "Destroy A r = Some (res, r')" "nixRuntime r = None \<longrightarrow> extensionAdmin r = []"
  shows "moves False r r' False \<and> (nixRuntime r' = None \<longrightarrow> extensionAdmin r' = [])"
proof (cases "nixRuntime r")
  case None
  then show ?thesis
    using assms
    by (auto simp: Destroy_def Let_def moves_refl split: if_splits option.splits prod.splits sum.splits)
      (auto simp: moves_def reach_def set_world_def StopWatcher_def)
next
  case (Some n)
  then have "release_held A n (StopWatcher r) = Some (res, r')" using assms by (simp add: Destroy_def Let_def)
  then show ?thesis using release_held_moves by fastforce
qed

lemma EventHandler_works: "EventHandler A path r = (res, r') \<Longrightarrow> works False r r' False"
  by (auto simp: EventHandler_def elim!: with_control_works reload_stage_works)

section \<open>The runtime as a state machine\<close>

datatype lifecycle_event = InitEvent init_request | StartEvent | StopEvent | DestroyEvent | FileChanged string

text \<open>A change is delivered while a watcher is armed. The handlers' environment may differ from call to call.\<close>

inductive lifecycle_step :: "('w, 'db) Runtime \<Rightarrow> lifecycle_event \<Rightarrow> ('w, 'db) Runtime \<Rightarrow> bool" where
  init_step: "Init A encode q r = Some (res, r') \<Longrightarrow> lifecycle_step r (InitEvent q) r'"
| start_step: "Start A r = Some (res, r') \<Longrightarrow> lifecycle_step r StartEvent r'"
| stop_step: "Stop A r = Some (ans, r') \<Longrightarrow> lifecycle_step r StopEvent r'"
| destroy_step: "Destroy A r = Some (ans, r') \<Longrightarrow> lifecycle_step r DestroyEvent r'"
| change_step: "watching r \<Longrightarrow> EventHandler A path r = (res, r') \<Longrightarrow> lifecycle_step r (FileChanged path) r'"

definition NewRuntime :: "('w, 'db) Runtime \<Rightarrow> bool" where
  "NewRuntime r \<longleftrightarrow> nixRuntime r = None \<and> runnerEnvironment r = None \<and> extensionAdmin r = [] \<and> \<not> released r \<and>
     retainedDataPath r = [] \<and> \<not> watching r \<and> RuntimeConfigurations r = [] \<and> stages r = []"

definition disciplined :: "('w, 'db) Runtime \<Rightarrow> bool" where
  "disciplined r \<longleftrightarrow> foldl control (Some False) (stages r) = Some False \<and> (nixRuntime r = None \<longrightarrow> extensionAdmin r = [])"

interpretation runtime_lifecycle: invariant_system NewRuntime lifecycle_step disciplined
proof
  show "NewRuntime r \<Longrightarrow> disciplined r" for r :: "('w, 'db) Runtime" by (simp add: NewRuntime_def disciplined_def)
  fix r r' :: "('w, 'db) Runtime" and e
  assume inv: "disciplined r" and step: "lifecycle_step r e r'"
  then have adm: "nixRuntime r = None \<longrightarrow> extensionAdmin r = []" by (simp add: disciplined_def)
  from step have "moves False r r' False \<and> (nixRuntime r' = None \<longrightarrow> extensionAdmin r' = [])"
  proof cases
    case (start_step A res)
    then show ?thesis using Start_works [OF start_step(2)] adm by (auto simp: works_def holdings_def)
  next
    case (change_step A path res)
    then show ?thesis using EventHandler_works [OF change_step(3)] adm by (auto simp: works_def holdings_def)
  qed (use Init_moves [OF _ adm] Stop_moves [OF _ adm] Destroy_moves [OF _ adm] in blast)+
  then show "disciplined r'" using inv by (auto simp: disciplined_def moves_def)
qed

text \<open>C19: in every state the runtime can reach, through any sequence of \<open>Init\<close>, \<open>Start\<close>, \<open>Stop\<close>,
  \<open>Destroy\<close> and hot-reload changes, whatever fails in them, every stage that changes the schema or
  the grants ran while the control plane was held, it was never acquired twice, and it is free again
  now. Besides, the administrator connection is kept only along with the hold on the server.\<close>

theorem control_plane_discipline:
  assumes "reachable NewRuntime lifecycle_step r"
  shows "foldl control (Some False) (stages r) = Some False \<and> (nixRuntime r = None \<longrightarrow> extensionAdmin r = [])"
  using runtime_lifecycle.inv_reachable [OF assms] by (simp add: disciplined_def)

section \<open>What a successful handler has done\<close>

definition schema_trace :: "('w, 'db) Runtime \<Rightarrow> skippedPrerequisite list \<Rightarrow> stage list" where
  "schema_trace r skips = ExtensionStage (extensionConnection r) #
     (if NoMigration (rt_settings r) then [] else [MigrationStage]) @ [SkipsReported skips]"

definition schema_db :: "('w, 'db) agent_env \<Rightarrow> schemaPrerequisites \<Rightarrow> ('w, 'db) Runtime \<Rightarrow> 'db" where
  "schema_db A p r =
     (let d = after_extensions A (extensionConnection r) p (rt_db r) in
      if NoMigration (rt_settings r) then d else after_migrations A (sources p) d)"

definition lineages_applied :: "('w, 'db) agent_env \<Rightarrow> schemaPrerequisites \<Rightarrow> ('w, 'db) Runtime \<Rightarrow> bool" where
  "lineages_applied A p r \<longleftrightarrow> NoMigration (rt_settings r) \<or>
     (\<forall>src \<in> set (sources p). case migration_run A (after_extensions A (extensionConnection r) p (rt_db r)) src of
        (env, took, up) \<Rightarrow> fst (applySource env took up (settings_Timeouts (rt_settings r)) src) = [])"

lemma applyMigration_None: "applyMigration f srcs = None \<longleftrightarrow> (\<forall>src \<in> set srcs. f src = [])"
  by (induction srcs) (auto split: list.splits)

lemma ensureExtensions_sources: "ensureExtensions odb c p = (res, p') \<Longrightarrow> sources p' = sources p"
  by (auto simp: ensureExtensions_def split: option.splits prod.splits)

lemma record_frame [simp]:
  "rt_service (reach st r) = rt_service r" "rt_service (set_world w r) = rt_service r"
  "rt_db (reach st r) = rt_db r" "rt_db (set_world w r) = rt_db r"
  "extensionAdmin (reach st r) = extensionAdmin r" "extensionAdmin (set_world w r) = extensionAdmin r"
  "nixRuntime (reach st r) = nixRuntime r" "nixRuntime (set_world w r) = nixRuntime r"
  "watching (reach st r) = watching r" "watching (set_world w r) = watching r"
  "released (reach st r) = released r" "released (set_world w r) = released r"
  "retainedDataPath (reach st r) = retainedDataPath r" "retainedDataPath (set_world w r) = retainedDataPath r"
  "runnerEnvironment (reach st r) = runnerEnvironment r" "runnerEnvironment (set_world w r) = runnerEnvironment r"
  "rt_nix (reach st r) = rt_nix r" "rt_nix (set_world w r) = rt_nix r"
  by (simp_all add: reach_def set_world_def)

lemma applySchema_None:
  assumes "applySchema A p r = (None, r')"
  shows "\<exists>skips. stages r' = stages r @ schema_trace r skips" "rt_db r' = schema_db A p r" "lineages_applied A p r"
    "rt_service r' = rt_service r"
  using assms
  by (auto simp: applySchema_def extension_stage_def migration_stage_def onlyIf_def done_ok_def Let_def schema_trace_def
      schema_db_def lineages_applied_def applyMigration_None ensureExtensions_sources
      split: prod.splits option.splits if_splits)

lemma access_stage_None:
  assumes "access_stage A r = (None, r')"
  shows "stages r' = stages r @ [AccessStage]" "rt_service r' = rt_service r" "nixRuntime r' = nixRuntime r"
    "\<exists>sts. ensureRuntimeAccessLocked (agent_platform A) (agent_cluster A) (rt_service r) (rt_db r) = (None, rt_db r', sts)"
  using assms by (auto simp: access_stage_def split: prod.splits)

lemma arm_watcher_None:
  assumes "arm_watcher A r = (None, r')"
  shows "stages r' = stages r \<or> \<not> NoMigration (rt_settings r) \<and> HotReload (rt_settings r) \<and> stages r' = stages r @ [WatcherArmed]"
    "rt_service r' = rt_service r" "rt_db r' = rt_db r" "nixRuntime r' = nixRuntime r"
  using assms by (auto simp: arm_watcher_def split: if_splits prod.splits option.splits)

lemma with_control_None:
  assumes "with_control A body r = (None, r')"
  obtains r1 r2 where "stages r1 = stages r @ [ControlPlaneAcquired]" "rt_service r1 = rt_service r" "rt_db r1 = rt_db r"
    "extensionAdmin r1 = extensionAdmin r" "nixRuntime r1 = nixRuntime r" "body r1 = (None, r2)" "r' = reach ControlPlaneReleased r2"
proof -
  from assms obtain w r2 where "body (reach ControlPlaneAcquired (set_world w r)) = (None, r2)" "r' = reach ControlPlaneReleased r2"
    by (auto simp: with_control_def acquire_control_def split: prod.splits option.splits)
  then show ?thesis by (intro that [of "reach ControlPlaneAcquired (set_world w r)" r2]) simp_all
qed

lemma WaitForReady_None:
  assumes "WaitForReady A r = Some (None, r')"
  shows "stages r' = stages r @ [DatabaseReady]" "rt_service r' = rt_service r" "rt_db r' = rt_db r"
    "extensionAdmin r' = extensionAdmin r" "nixRuntime r' = nixRuntime r"
  using assms by (auto simp: WaitForReady_def Let_def split: option.splits)

lemma chain_None:
  assumes "chain f g r = Some (None, r')"
  obtains u where "f r = Some (None, u)" "g u = Some (None, r')"
  using assms by (auto simp: chain_def split: option.splits)

lemma same_connection: "rt_service u = rt_service r \<Longrightarrow> extensionAdmin u = extensionAdmin r \<Longrightarrow> rt_db u = rt_db r \<Longrightarrow>
    schema_trace u skips = schema_trace r skips \<and> schema_db A p u = schema_db A p r \<and> lineages_applied A p u = lineages_applied A p r"
  by (simp add: schema_trace_def schema_db_def lineages_applied_def extensionConnection_def)


lemma releaseNative_stage:
  assumes "releaseNative A n r = Some (Inr msg, r')"
  obtains stopped where "stages r' = stages r @ [ServerReleased stopped]"
proof -
  obtain s errs n' h where "release_server (agent_native A) n (rt_host r) = Some ((s, errs), n', h)"
    using assms by (auto simp: releaseNative_def split: option.splits)
  then show ?thesis using assms that [of s] by (auto simp: releaseNative_def split: if_splits)
qed

lemma migrateOnInit_None:
  assumes run: "migrateOnInit A r = Some (None, r')"
  shows "\<exists>skips. stages r' = stages r @ [DatabaseReady, ControlPlaneAcquired] @ schema_trace r skips @ [AccessStage, ControlPlaneReleased]"
    "rt_service r' = rt_service r"
proof -
  obtain p where ch: "chain (WaitForReady A) (\<lambda>r. Some (with_control A (andThen (applySchema A p) (access_stage A)) r)) r = Some (None, r')"
    using run by (auto simp: migrateOnInit_def split: sum.splits)
  obtain u where u: "WaitForReady A r = Some (None, u)" and c: "with_control A (andThen (applySchema A p) (access_stage A)) u = (None, r')"
    using ch by (auto elim: chain_None)
  note U = WaitForReady_None [OF u]
  from c obtain r1 r2 where r1: "stages r1 = stages u @ [ControlPlaneAcquired]" "rt_service r1 = rt_service u" "rt_db r1 = rt_db u"
    "extensionAdmin r1 = extensionAdmin u" and body: "andThen (applySchema A p) (access_stage A) r1 = (None, r2)"
    and r': "r' = reach ControlPlaneReleased r2"
    by (rule with_control_None)
  then obtain a where a: "applySchema A p r1 = (None, a)" and d: "access_stage A a = (None, r2)" unfolding andThen_None by blast
  have "schema_trace r1 x = schema_trace r x" for x using same_connection [of r1 r x] r1 U by auto
  then show "\<exists>skips. stages r' = stages r @ [DatabaseReady, ControlPlaneAcquired] @ schema_trace r skips @ [AccessStage, ControlPlaneReleased]"
    using applySchema_None(1) [OF a] access_stage_None(1) [OF d] r1(1) U(1) r' by auto
  show "rt_service r' = rt_service r"
    using applySchema_None(4) [OF a] access_stage_None(2) [OF d] r1(2) U(2) r' by simp
qed



section \<open>A sample agent\<close>

text \<open>The database answers from second five on; the host's clock is the first component of its world.\<close>

definition sample_handle :: handle_env where
  "sample_handle = \<lparr>err_open = None, err_conn = None, err_set = (\<lambda>s. None), err_lock = None, err_driver = None, err_source = None,
     err_migrate = None, err_unlock = None, err_close_source = None, err_close_conn = None, err_close_driver = None, err_close_pool = None\<rparr>"

definition sample_agent :: "(sample_procs, sample_db) agent_env" where
  "sample_agent = \<lparr>agent_platform = sample_platform, agent_native = sample_native, agent_self = (10, 1),
     agent_servers = ''/srv'', agent_unique = ''shop/store'', agent_run = (''/work'', ''dev''),
     agent_catalogue = \<lparr>lock_run_server = Pair None, exec_admin = (\<lambda>q. Pair None), lookup_database = (\<lambda>d s. Inr None),
       lookup_owner = (\<lambda>r s. Inr (False, False))\<rparr>,
     agent_files = sample_fs, agent_local = sample_local, agent_cluster = sample_cluster,
     ctx_err = (\<lambda>w. None), wait_turn = Pair None, sql_open = (\<lambda>d. None), clock = fst,
     probeReady = (\<lambda>conn d w. (if fst w < 5 * time_Second then ProbeFailed ''starting up'' else ProbeReady, w)),
     select_retry = (\<lambda>d w. if fst w \<ge> d then (Some DeadlineExceeded, w) else (None, (fst w + readinessProbeInterval, snd w))),
     create_on = (\<lambda>conn d q. None), after_extensions = (\<lambda>conn p d. d),
     migration_run = (\<lambda>d src. (\<lambda>k. sample_handle, \<lambda>k. 0, \<lambda>k. UpDone)), after_migrations = (\<lambda>srcs d. d), reload_run = (\<lambda>d. sample_reload 1), after_reload = (\<lambda>p d. d),
     url_set_query = (\<lambda>dsn k v. Some dsn), dsn_string = (\<lambda>d. ''admin''), forwardToSocket = (\<lambda>a s w. (Inr 7, w)),
     setup_watcher = Pair None, recover_resources = id, new_docker = (\<lambda>i n w. (Inr 1, w)),
     mount_data = (\<lambda>c k p w. (Inr ''/cache/postgres-data'', w)), docker_init = (\<lambda>c s. Pair None), docker_stop = (\<lambda>c. Pair None),
     docker_shutdown = (\<lambda>c. Pair None)\<rparr>"

definition sample_runtime :: "(sample_procs, sample_db) Runtime" where
  "sample_runtime = \<lparr>rt_service = sample_service, rt_nix = True, nixRuntime = None, runnerEnvironment = None, extensionAdmin = [],
     released = False, retainedDataPath = [], watching = False, RuntimeConfigurations = [],
     rt_host = \<lparr>world = (9 * time_Second, []), run_dirs = (\<lambda>root. \<lparr>holder_files = [], record_file = Some sample_record\<rparr>), signals = []\<rparr>,
     rt_db = sample_cluster_db, stages = []\<rparr>"

lemma sample_agent_simps [simp]:
  "agent_native sample_agent = sample_native" "agent_platform sample_agent = sample_platform" "agent_cluster sample_agent = sample_cluster"
  "ctx_err sample_agent w = None" "wait_turn sample_agent w = (None, w)" "sql_open sample_agent conn = None" "clock sample_agent w = fst w"
  "after_extensions sample_agent conn p d = d" "after_migrations sample_agent srcs d = d" "create_on sample_agent conn d q = None"
  "setup_watcher sample_agent w = (None, w)" "forwardToSocket sample_agent a s w = (Inr 7, w)" "withConnectTimeout sample_agent dsn l = Some dsn"
  "agent_self sample_agent = (10, 1)"
  by (simp_all add: sample_agent_def withConnectTimeout_def)

lemma sample_ready_clock: "ready_clock sample_agent"
  by (auto simp: ready_clock_def sample_agent_def readinessProbeInterval_def time_Second_def split: if_splits)


lemma sample_prerequisites:
  "\<exists>exts. resolveSchemaPrerequisites sample_fs sample_local sample_service = Inr \<lparr>sources = [], extensions = exts, skipped = []\<rparr>"
proof -
  have "resolveMigrationSources sample_fs sample_local sample_service = Inr ([], [])" by code_simp
  moreover have "\<exists>exts. resolveExtensions (Extensions (settings sample_service)) = Inr exts"
    by (simp add: resolveExtensions_def sample_service_def sample_settings_def split: prod.splits)
  ultimately show ?thesis by (auto simp: resolveSchemaPrerequisites_def)
qed

lemma sample_wait:
  assumes "rt_service r = sample_service" "fst (rt_world r) = 9 * time_Second"
  shows "WaitForReady sample_agent r = Some (None, reach DatabaseReady r)"
proof -
  have "set_world (rt_world r) r = r" by (simp add: set_world_def)
  then show ?thesis
    using assms
    by (simp add: WaitForReady_def Let_def) (subst await_ready.simps, simp add: sample_agent_def time_Second_def)
qed

lemma ensure_extensions_created: "(\<And>q. create q = None) \<Longrightarrow> ensure_extensions create xs skips = (None, skips)"
  by (induction xs) simp_all

lemma sample_schema:
  assumes "rt_service r = sample_service" "sources p = []"
  shows "\<exists>r'. applySchema sample_agent p r = (None, r') \<and> rt_service r' = sample_service \<and> rt_db r' = rt_db r"
  using assms
  by (auto simp: applySchema_def extension_stage_def migration_stage_def onlyIf_def done_ok_def ensureExtensions_def
      ensure_extensions_created Let_def split: option.splits)

lemma sample_access:
  assumes "rt_service r = sample_service" "rt_db r = sample_cluster_db"
  shows "\<exists>r'. access_stage sample_agent r = (None, r')"
  using assms sample_ensure by (auto simp: access_stage_def split: prod.splits)

lemma sample_control: "(\<And>u. rt_service u = rt_service r \<Longrightarrow> rt_db u = rt_db r \<Longrightarrow> \<exists>u'. body u = (None, u')) \<Longrightarrow>
    \<exists>r'. with_control sample_agent body r = (None, r')"
  by (auto simp: with_control_def acquire_control_def split: prod.splits) (metis fst_conv record_frame(1-4))

lemma sample_transition:
  assumes "rt_service r = sample_service" "rt_db r = sample_cluster_db" "sources p = []"
  shows "\<exists>r'. applySchema sample_agent p r = (None, r') \<and> (\<exists>r''. access_stage sample_agent r' = (None, r''))"
  using sample_schema [OF assms(1,3)] sample_access assms(2) by metis

lemma sample_start: "\<exists>r'. Start sample_agent sample_runtime = Some (None, r')"
proof -
  obtain exts where p: "resolve_prerequisites sample_agent sample_runtime = Inr \<lparr>sources = [], extensions = exts, skipped = []\<rparr>"
    using sample_prerequisites by (auto simp: resolve_prerequisites_def sample_agent_def sample_runtime_def)
  let ?p = "\<lparr>sources = [], extensions = exts, skipped = []\<rparr> :: schemaPrerequisites"
  let ?u = "reach DatabaseReady sample_runtime"
  have w: "WaitForReady sample_agent sample_runtime = Some (None, ?u)"
    by (rule sample_wait) (simp_all add: sample_runtime_def)
  have "\<exists>r'. with_control sample_agent (andThen (applySchema sample_agent ?p)
      (andThen (arm_watcher sample_agent) (andThen (access_stage sample_agent) commit_start))) ?u = (None, r')"
  proof (rule sample_control)
    fix u :: "(sample_procs, sample_db) Runtime" assume u: "rt_service u = rt_service ?u" "rt_db u = rt_db ?u"
    then obtain a where a: "applySchema sample_agent ?p u = (None, a)" "rt_service a = sample_service" "rt_db a = sample_cluster_db"
      using sample_schema [of u ?p] by (auto simp: sample_runtime_def)
    have "\<exists>b. arm_watcher sample_agent a = (None, b)" by (simp add: arm_watcher_def)
    then obtain b where b: "arm_watcher sample_agent a = (None, b)" ..
    obtain c where "access_stage sample_agent b = (None, c)"
      using sample_access arm_watcher_None(2,3) [OF b] a(2,3) by metis
    then show "\<exists>u'. andThen (applySchema sample_agent ?p) (andThen (arm_watcher sample_agent)
        (andThen (access_stage sample_agent) commit_start)) u = (None, u')"
      using a(1) b by (simp add: andThen_def commit_start_def)
  qed
  then show ?thesis using p w by (simp add: Start_def chain_def sample_runtime_def)
qed



theorem control_plane_discipline_witness:
  "\<exists>r :: (sample_procs, sample_db) Runtime. reachable NewRuntime lifecycle_step r \<and> stages r = [ContainerRemoved] \<and>
     foldl control (Some False) (stages r) = Some False"
proof -
  let ?r = "sample_runtime\<lparr>rt_nix := False\<rparr>"
  obtain ans r' where d: "Destroy sample_agent ?r = Some (ans, r')" and st: "stages r' = [ContainerRemoved]"
    by (simp add: Destroy_def Let_def destroy_runner_def sample_agent_def sample_runtime_def StopWatcher_def)
  have "reachable NewRuntime lifecycle_step ?r"
    by (rule reachable.intros) (simp add: NewRuntime_def sample_runtime_def)
  then have "reachable NewRuntime lifecycle_step r'" by (rule reachable.intros(2)) (rule destroy_step [OF d])
  with control_plane_discipline [OF this] st show ?thesis by auto
qed

lemma sample_acquired_server:
  "\<exists>n h. acquireRunServer sample_native (10, 1) servers key service lvl (rt_host sample_runtime) = Some (Inr n, h) \<and>
     world h = (9 * time_Second, [])"
proof -
  have "MkdirAll sample_native p w = (None, w)" "lock_root sample_native p w = (None, w)" "server_roots sample_native w = Some []" for p w
    by (simp_all add: sample_native_def)
  then show ?thesis
    by (simp add: acquireRunServer_def collectAbandonedServers_def acquire_locked_def pruneHolders_def attachedPostmaster_def
      readPostmasterRecord_def mark_alive_def attach_server_def register_def markProcess_def put_holders_def Let_def
      sample_record_def sample_mark_def sample_identity_def same_birth_def sample_runtime_def)
qed

lemma sample_migrate:
  assumes "rt_service r = sample_service" "rt_db r = sample_cluster_db" "fst (rt_world r) = 9 * time_Second"
  shows "\<exists>r'. migrateOnInit sample_agent r = Some (None, r')"
proof -
  obtain exts where p: "resolve_prerequisites sample_agent r = Inr \<lparr>sources = [], extensions = exts, skipped = []\<rparr>"
    using sample_prerequisites assms(1) by (auto simp: resolve_prerequisites_def sample_agent_def)
  let ?p = "\<lparr>sources = [], extensions = exts, skipped = []\<rparr> :: schemaPrerequisites"
  have "\<exists>r'. with_control sample_agent (andThen (applySchema sample_agent ?p) (access_stage sample_agent)) (reach DatabaseReady r) = (None, r')"
  proof (rule sample_control)
    fix u :: "(sample_procs, sample_db) Runtime" assume "rt_service u = rt_service (reach DatabaseReady r)" "rt_db u = rt_db (reach DatabaseReady r)"
    then show "\<exists>u'. andThen (applySchema sample_agent ?p) (access_stage sample_agent) u = (None, u')"
      using sample_transition [of u ?p] assms(1,2) by (auto simp: andThen_def)
  qed
  then show ?thesis using p sample_wait [OF assms(1,3)] by (simp add: migrateOnInit_def chain_def)
qed

lemma sample_init_native: "\<exists>r'. initNative sample_agent 5433 sample_runtime = Some (None, r')"
proof -
  obtain n h where acq: "acquireRunServer sample_native (10, 1) (agent_servers sample_agent)
      (runServerKey (fst (agent_run sample_agent)) (snd (agent_run sample_agent))) (agent_unique sample_agent)
      (LogLevel (rt_settings sample_runtime)) (rt_host sample_runtime) = Some (Inr n, h)" and h: "world h = (9 * time_Second, [])"
    using sample_acquired_server by blast
  have prov: "provisionDatabase (agent_catalogue sample_agent) u d o' p s = (None, s)" for u d o' p s
    by (simp add: provisionDatabase_def provision_steps_def sample_agent_def andThen_def onlyIf_def admin_def done_ok_def)
  have "\<exists>r'. native_stages sample_agent n 5433 (reach ServerAcquired (sample_runtime\<lparr>rt_host := h, nixRuntime := Some n\<rparr>)) = Some (None, r')"
    by (simp add: native_stages_def Let_def prov)
      (rule sample_migrate, simp_all add: sample_runtime_def h reach_def set_world_def)
  then show ?thesis using acq by (auto simp: initNative_def)
qed


section \<open>The control-plane lock\<close>

text \<open>
  \<open>controlPlaneLock\<close> under concurrent calls of \<open>acquire\<close>. The channel of capacity one is \<open>lock_owner\<close>:
  the call that sent into it owns the lock until its release function receives from it again. A call
  first checks its context and fails at once if that is done; then it waits in the \<open>select\<close>, where it
  can enter while the channel is free, or fail when its context is done, whichever is chosen.
\<close>

record lock_state =
  lock_owner :: "nat option"
  lock_waiting :: "nat set"
  lock_called :: "nat set"
  ctx_expired :: "nat set"
  called_expired :: "nat set"
  lock_entered :: "nat list"
  lock_left :: "nat list"

datatype lock_event = CallAcquire nat | EnterLock nat | GiveUp nat | LeaveLock nat | ExpireContext nat

inductive lock_step :: "lock_state \<Rightarrow> lock_event \<Rightarrow> lock_state \<Rightarrow> bool" where
  expire_ctx: "lock_step l (ExpireContext c) (l\<lparr>ctx_expired := insert c (ctx_expired l)\<rparr>)"
| call_refused: "c \<notin> lock_called l \<Longrightarrow> c \<in> ctx_expired l \<Longrightarrow>
    lock_step l (CallAcquire c) (l\<lparr>lock_called := insert c (lock_called l), called_expired := insert c (called_expired l)\<rparr>)"
| call_waits: "c \<notin> lock_called l \<Longrightarrow> c \<notin> ctx_expired l \<Longrightarrow>
    lock_step l (CallAcquire c) (l\<lparr>lock_called := insert c (lock_called l), lock_waiting := insert c (lock_waiting l)\<rparr>)"
| lock_enter: "c \<in> lock_waiting l \<Longrightarrow> lock_owner l = None \<Longrightarrow>
    lock_step l (EnterLock c) (l\<lparr>lock_owner := Some c, lock_waiting := lock_waiting l - {c}, lock_entered := lock_entered l @ [c]\<rparr>)"
| wait_given_up: "c \<in> lock_waiting l \<Longrightarrow> c \<in> ctx_expired l \<Longrightarrow>
    lock_step l (GiveUp c) (l\<lparr>lock_waiting := lock_waiting l - {c}\<rparr>)"
| lock_leave: "lock_owner l = Some c \<Longrightarrow>
    lock_step l (LeaveLock c) (l\<lparr>lock_owner := None, lock_left := lock_left l @ [c]\<rparr>)"

inductive_cases lock_stepE: "lock_step l e l'"

definition lock_free :: "lock_state \<Rightarrow> bool" where
  "lock_free l \<longleftrightarrow> lock_owner l = None \<and> lock_waiting l = {} \<and> lock_called l = {} \<and> called_expired l = {} \<and>
     lock_entered l = [] \<and> lock_left l = []"

definition lock_exclusive :: "lock_state \<Rightarrow> bool" where
  "lock_exclusive l \<longleftrightarrow>
     lock_entered l = lock_left l @ (case lock_owner l of None \<Rightarrow> [] | Some c \<Rightarrow> [c]) \<and>
     distinct (lock_entered l) \<and> set (lock_entered l) \<union> lock_waiting l \<union> called_expired l \<subseteq> lock_called l \<and>
     set (lock_entered l) \<inter> lock_waiting l = {} \<and> called_expired l \<inter> (set (lock_entered l) \<union> lock_waiting l) = {}"

interpretation control_lock: invariant_system lock_free lock_step lock_exclusive
proof
  show "lock_free l \<Longrightarrow> lock_exclusive l" for l by (simp add: lock_free_def lock_exclusive_def)
  show "lock_exclusive l'" if "lock_exclusive l" "lock_step l e l'" for l e l'
    using that(2,1) by (auto elim!: lock_stepE simp: lock_exclusive_def)
qed

text \<open>The control plane has one owner at a time: at every moment the calls that entered are those that
  left, in the same order, and possibly one more that is inside. No call enters twice, and a call
  whose context was already done when it was made never enters.\<close>

theorem control_plane_exclusive:
  assumes "reachable lock_free lock_step l"
  shows "lock_entered l = lock_left l @ (case lock_owner l of None \<Rightarrow> [] | Some c \<Rightarrow> [c]) \<and>
    distinct (lock_entered l) \<and> set (lock_entered l) \<inter> called_expired l = {}"
  using control_lock.inv_reachable [OF assms] by (auto simp: lock_exclusive_def)

theorem control_plane_exclusive_witness:
  "\<exists>l. reachable lock_free lock_step l \<and> lock_entered l = [1] \<and> set (lock_entered l) \<inter> called_expired l = {}"
proof -
  let ?l = "\<lparr>lock_owner = None, lock_waiting = {}, lock_called = {}, ctx_expired = {}, called_expired = {}, lock_entered = [], lock_left = []\<rparr>"
  have "reachable lock_free lock_step ?l" by (rule reachable.intros) (simp add: lock_free_def)
  then have "reachable lock_free lock_step (?l\<lparr>lock_called := {1}, lock_waiting := {1}\<rparr>)"
    by (rule reachable.intros(2)) (use call_waits [of 1 ?l] in simp)
  then have "reachable lock_free lock_step (?l\<lparr>lock_called := {1}, lock_owner := Some 1, lock_entered := [1]\<rparr>)"
    by (rule reachable.intros(2)) (use lock_enter [of 1 "?l\<lparr>lock_called := {1}, lock_waiting := {1}\<rparr>"] in simp)
  from control_plane_exclusive [OF this] this show ?thesis by force
qed

end
