(* ===== verification/BootPackage.thy ===== *)
theory BootPackage
  imports SchemaPlan
begin

text \<open>
  \<open>libs/go/bootstrap/package.go\<close>: the managed bootstrap reads a schema package, verifies it against
  the deployment's binding and copies the attested bytes into a private directory. The package
  directory is a parameter (\<open>schema_package\<close>), opened as a rooted file system; decoding \<open>plan.json\<close>
  is a parameter too, and yields the plan and whether the reader roles were present. The staged copy is
  the list of files written, by directory and name.
\<close>

section \<open>Names\<close>

definition component :: "string \<Rightarrow> bool" where
  "component s \<longleftrightarrow> s \<noteq> [] \<and> s \<noteq> ''.'' \<and> s \<noteq> ''..'' \<and> \<not> ContainsAny s [CHR ''/'', CHR 0x5C, NUL]"

definition boot_identifier :: "string \<Rightarrow> bool" where
  "boot_identifier s \<longleftrightarrow> TrimSpace s \<noteq> [] \<and> length s \<le> 63 \<and> NUL \<notin> set s"

text \<open>\<open>ledgerName\<close>, \<open>^[A-Za-z_][A-Za-z0-9_]{0,62}$\<close>.\<close>

definition word_char :: "char \<Rightarrow> bool" where
  "word_char c \<longleftrightarrow> is_alnum c \<or> c = CHR ''_''"

definition ledgerName :: "string \<Rightarrow> bool" where
  "ledgerName s =
     (case s of [] \<Rightarrow> False | c # cs \<Rightarrow> word_char c \<and> \<not> is_digit c \<and> list_all word_char cs \<and> length cs \<le> 62)"

section \<open>The binding\<close>

record Binding =
  bind_PlanSHA256 :: string
  bind_PlanDigest :: string
  bind_OwnerRole :: string
  bind_ReadOnlyPrincipals :: "string list"
  bind_ReadWritePrincipals :: "string list"

datatype boot_error =
    CannotReadPlan
  | FileIdentityMismatch
  | InvalidJSON
  | PlanIdentityMismatch
  | MissingRoles
  | GroupsMustDiffer
  | RolesNotDistinct
  | PrincipalsRequired
  | BadSchemas
  | CannotOpenPackage
  | TempFailed string
  | BadLineage
  | BadSourceDirectory
  | SourceInventory
  | BadMigrationName
  | BadMigrationVersion
  | DuplicateVersion
  | NotRegularFile
  | CannotReadMigration
  | ContentMismatch
  | BadExtension

fun check_roles :: "string list \<Rightarrow> string list \<Rightarrow> boot_error option" where
  "check_roles seen [] = None"
| "check_roles seen (r # rs) = (if \<not> boot_identifier r \<or> r \<in> set seen then Some RolesNotDistinct else check_roles (r # seen) rs)"

fun check_schemas :: "string option \<Rightarrow> string list \<Rightarrow> boot_error option" where
  "check_schemas previous [] = None"
| "check_schemas previous (s # ss) = (if \<not> boot_identifier s \<or> previous = Some s then Some BadSchemas else check_schemas (Some s) ss)"

definition validateBinding :: "Plan \<Rightarrow> Binding \<Rightarrow> boot_error option" where
  "validateBinding p b =
     (let a = plan_Access p; ro = access_ReadOnlyRole a; rw = access_ReadWriteRole a; owner = bind_OwnerRole b in
      if \<not> boot_identifier (plan_Database p) \<or> \<not> boot_identifier owner \<or> \<not> boot_identifier ro \<or> \<not> boot_identifier rw \<or> access_Schemas a = []
      then Some MissingRoles
      else if ro = owner \<or> rw = owner \<or> rw = ro then Some GroupsMustDiffer
      else case check_roles [rw, ro, owner] (access_ReadOnlyRoles a @ access_ReadWriteRoles a
                  @ bind_ReadOnlyPrincipals b @ bind_ReadWritePrincipals b) of
        Some e \<Rightarrow> Some e
      | None \<Rightarrow>
          if bind_ReadOnlyPrincipals b = [] \<or> bind_ReadWritePrincipals b = [] then Some PrincipalsRequired
          else check_schemas None (sort (access_Schemas a)))"

section \<open>The snapshot\<close>

datatype node = DirNode | FileNode | LinkNode | OtherNode

record schema_package =
  pkg_plan :: "string option"
  pkg_open :: bool
  pkg_Lstat :: "string \<Rightarrow> node option"
  pkg_count :: "string \<Rightarrow> nat option"
  pkg_read :: "string \<Rightarrow> string option"
  tmp_create :: "(string, string) result"
  tmp_mkdir :: "string \<Rightarrow> string option"
  tmp_write :: "string \<Rightarrow> string \<Rightarrow> string option"

type_synonym staged_file = "string \<times> string \<times> string"

fun stage_files :: "platform \<Rightarrow> schema_package \<Rightarrow> string \<Rightarrow> string \<Rightarrow> (nat \<times> string) list \<Rightarrow> plan_File list
    \<Rightarrow> (boot_error, staged_file list) result" where
  "stage_files P F stage previous versions [] = Inr []"
| "stage_files P F stage previous versions (f # fs) =
     (let name = file_Name f; path = ''sources/'' @ stage @ ''/'' @ name in
      case FindStringSubmatch name of
        None \<Rightarrow> Inl BadMigrationName
      | Some (digits, updown) \<Rightarrow>
      if \<not> component name \<or> \<not> previous < name then Inl BadMigrationName
      else case ParseUint 64 digits of
        None \<Rightarrow> Inl BadMigrationVersion
      | Some version \<Rightarrow>
      if (version, updown) \<in> set versions then Inl DuplicateVersion
      else if pkg_Lstat F path \<noteq> Some FileNode then Inl NotRegularFile
      else case pkg_read F path of
        None \<Rightarrow> Inl CannotReadMigration
      | Some data \<Rightarrow>
      if ''sha256:'' @ EncodeToString (sha256 P data) \<noteq> file_Digest f then Inl ContentMismatch
      else case tmp_write F stage name of
        Some e \<Rightarrow> Inl (TempFailed e)
      | None \<Rightarrow>
      (case stage_files P F stage name ((version, updown) # versions) fs of
        Inl e \<Rightarrow> Inl e
      | Inr rest \<Rightarrow> Inr ((stage, name, data) # rest)))"

fun stage_lineages :: "platform \<Rightarrow> schema_package \<Rightarrow> string list \<Rightarrow> string list \<Rightarrow> plan_Lineage list
    \<Rightarrow> (boot_error, staged_file list) result" where
  "stage_lineages P F stages ledgers [] = Inr []"
| "stage_lineages P F stages ledgers (l # ls) =
     (let stage = lineage_Stage l; source = ''sources/'' @ stage in
      if \<not> component stage \<or> \<not> component (lineage_Label l) \<or> \<not> ledgerName (lineage_Ledger l) \<or> stage \<in> set stages
         \<or> lineage_Ledger l \<in> set ledgers \<or> lineage_Files l = [] \<or> lineage_Digest l \<noteq> Lineage_ContentDigest P l
      then Inl BadLineage
      else if pkg_Lstat F ''sources'' \<noteq> Some DirNode \<or> pkg_Lstat F source \<noteq> Some DirNode then Inl BadSourceDirectory
      else if pkg_count F source \<noteq> Some (length (lineage_Files l)) then Inl SourceInventory
      else case tmp_mkdir F stage of
        Some e \<Rightarrow> Inl (TempFailed e)
      | None \<Rightarrow>
      (case stage_files P F stage [] [] (lineage_Files l) of
        Inl e \<Rightarrow> Inl e
      | Inr files \<Rightarrow>
      (case stage_lineages P F (stage # stages) (lineage_Ledger l # ledgers) ls of
        Inl e \<Rightarrow> Inl e
      | Inr rest \<Rightarrow> Inr (files @ rest))))"

fun check_extensions :: "string list \<Rightarrow> (string \<times> bool) list \<Rightarrow> boot_error option" where
  "check_extensions seen [] = None"
| "check_extensions seen ((name, required) # es) =
     (if \<not> boot_identifier name \<or> name \<in> set seen then Some BadExtension else check_extensions (name # seen) es)"

definition max_plan :: nat where "max_plan = 4194304"

definition identified_plan :: "platform \<Rightarrow> (string \<Rightarrow> (Plan \<times> bool) option) \<Rightarrow> Binding \<Rightarrow> string option \<Rightarrow> (boot_error, Plan) result" where
  "identified_plan P decode b plan_json =
     (case plan_json of
        None \<Rightarrow> Inl CannotReadPlan
      | Some data \<Rightarrow>
      if length data > max_plan then Inl CannotReadPlan
      else if bind_PlanSHA256 b \<noteq> EncodeToString (sha256 P data) then Inl FileIdentityMismatch
      else case decode data of
        None \<Rightarrow> Inl InvalidJSON
      | Some (p, readers_present) \<Rightarrow>
      if (plan_ContractVersion p \<noteq> ContractVersion \<and> plan_ContractVersion p \<noteq> ReaderRolesContractVersion)
         \<or> (plan_ContractVersion p = ContractVersion \<and> readers_present)
         \<or> plan_Digest p \<noteq> Plan_ContentDigest P p \<or> plan_Digest p \<noteq> bind_PlanDigest b
      then Inl PlanIdentityMismatch
      else case validateBinding p b of Some e \<Rightarrow> Inl e | None \<Rightarrow> Inr p)"

text \<open>The second component says whether the temporary directory is left behind.\<close>

definition snapshot :: "platform \<Rightarrow> (string \<Rightarrow> (Plan \<times> bool) option) \<Rightarrow> schema_package \<Rightarrow> Binding
    \<Rightarrow> (boot_error, Plan \<times> string \<times> staged_file list) result \<times> bool" where
  "snapshot P decode F b =
     (case identified_plan P decode b (pkg_plan F) of
        Inl e \<Rightarrow> (Inl e, False)
      | Inr p \<Rightarrow>
      if \<not> pkg_open F then (Inl CannotOpenPackage, False)
      else case tmp_create F of
        Inl e \<Rightarrow> (Inl (TempFailed e), False)
      | Inr temp \<Rightarrow>
      (case stage_lineages P F [] [] (plan_Lineages p) of
        Inl e \<Rightarrow> (Inl e, False)
      | Inr files \<Rightarrow>
      (case check_extensions [] (plan_Extensions p) of
        Some e \<Rightarrow> (Inl e, False)
      | None \<Rightarrow> (Inr (p, temp, files), True))))"

section \<open>What a snapshot holds\<close>

lemma check_roles_None:
  "check_roles seen rs = None \<longleftrightarrow> list_all boot_identifier rs \<and> distinct rs \<and> set rs \<inter> set seen = {}"
  by (induction rs arbitrary: seen) auto

lemma check_schemas_None:
  "sorted ss \<Longrightarrow> (case previous of None \<Rightarrow> True | Some s \<Rightarrow> \<forall>x \<in> set ss. s \<le> x) \<Longrightarrow>
     check_schemas previous ss = None \<longleftrightarrow> list_all boot_identifier ss \<and> distinct ss \<and> (\<forall>s. previous = Some s \<longrightarrow> s \<notin> set ss)"
proof (induction ss arbitrary: previous)
  case (Cons s ss)
  have IH: "check_schemas (Some s) ss = None \<longleftrightarrow> list_all boot_identifier ss \<and> distinct ss \<and> s \<notin> set ss"
    using Cons.IH [of "Some s"] Cons.prems(1) by simp
  show ?case using IH Cons.prems by (auto split: option.splits)
qed simp

lemma check_extensions_None:
  "check_extensions seen es = None \<longleftrightarrow> list_all (\<lambda>e. boot_identifier (fst e)) es \<and> distinct (map fst es) \<and> set (map fst es) \<inter> set seen = {}"
  by (induction seen es rule: check_extensions.induct) auto

lemma validateBinding_None:
  assumes "validateBinding p b = None"
  shows "distinct (bind_OwnerRole b # access_ReadOnlyRole (plan_Access p) # access_ReadWriteRole (plan_Access p)
      # access_ReadOnlyRoles (plan_Access p) @ access_ReadWriteRoles (plan_Access p) @ bind_ReadOnlyPrincipals b @ bind_ReadWritePrincipals b)"
    "distinct (access_Schemas (plan_Access p))" "access_Schemas (plan_Access p) \<noteq> []"
    "bind_ReadOnlyPrincipals b \<noteq> []" "bind_ReadWritePrincipals b \<noteq> []"
  using assms
  by (auto simp: validateBinding_def Let_def check_roles_None check_schemas_None split: if_splits option.splits)

definition attested :: "platform \<Rightarrow> staged_file \<Rightarrow> string \<times> string \<times> string" where
  "attested P = (\<lambda>(stage, name, data). (stage, name, ''sha256:'' @ EncodeToString (sha256 P data)))"

definition declared_files :: "plan_Lineage \<Rightarrow> (string \<times> string \<times> string) list" where
  "declared_files l = map (\<lambda>f. (lineage_Stage l, file_Name f, file_Digest f)) (lineage_Files l)"

definition file_version :: "string \<Rightarrow> (nat \<times> string) option" where
  "file_version name =
     (case FindStringSubmatch name of
        None \<Rightarrow> None
      | Some (digits, updown) \<Rightarrow> map_option (\<lambda>v. (v, updown)) (ParseUint 64 digits))"

definition from_package :: "schema_package \<Rightarrow> staged_file \<Rightarrow> bool" where
  "from_package F = (\<lambda>(stage, name, data). component stage \<and> component name \<and>
     pkg_Lstat F (''sources/'' @ stage @ ''/'' @ name) = Some FileNode \<and> pkg_read F (''sources/'' @ stage @ ''/'' @ name) = Some data)"

lemma stage_files_Inr:
  assumes "stage_files P F stage previous versions fs = Inr files" "component stage"
  shows "map (attested P) files = map (\<lambda>f. (stage, file_Name f, file_Digest f)) fs \<and> list_all (from_package F) files \<and>
    sorted_wrt (<) (previous # map file_Name fs) \<and>
    (\<exists>vs. map file_version (map file_Name fs) = map Some vs \<and> distinct vs \<and> set vs \<inter> set versions = {})"
  using assms
proof (induction fs arbitrary: previous versions files)
  case (Cons f fs)
  let ?path = "''sources/'' @ stage @ ''/'' @ file_Name f"
  from Cons.prems(1) obtain digits ud v data rest where
    m: "FindStringSubmatch (file_Name f) = Some (digits, ud)" "component (file_Name f)" "previous < file_Name f"
      "ParseUint 64 digits = Some v" "(v, ud) \<notin> set versions" "pkg_Lstat F ?path = Some FileNode" "pkg_read F ?path = Some data"
      "''sha256:'' @ EncodeToString (sha256 P data) = file_Digest f"
    and r: "stage_files P F stage (file_Name f) ((v, ud) # versions) fs = Inr rest" "files = (stage, file_Name f, data) # rest"
    by (auto simp: Let_def split: option.splits if_splits sum.splits)
  note IH = Cons.IH [OF r(1) Cons.prems(2)]
  then obtain vs where vs: "map file_version (map file_Name fs) = map Some vs" "distinct vs" "set vs \<inter> set ((v, ud) # versions) = {}"
    by blast
  have "file_version (file_Name f) = Some (v, ud)" using m by (simp add: file_version_def)
  then have "map file_version (map file_Name (f # fs)) = map Some ((v, ud) # vs)" "distinct ((v, ud) # vs)"
    "set ((v, ud) # vs) \<inter> set versions = {}"
    using vs m(5) by auto
  then have ver: "\<exists>vs. map file_version (map file_Name (f # fs)) = map Some vs \<and> distinct vs \<and> set vs \<inter> set versions = {}" by blast
  have "sorted_wrt (<) (previous # map file_Name (f # fs))"
    using IH m(3) by (auto intro: less_trans)
  moreover have "map (attested P) files = map (\<lambda>f. (stage, file_Name f, file_Digest f)) (f # fs)" "list_all (from_package F) files"
    using IH m r(2) Cons.prems(2) by (auto simp: attested_def from_package_def)
  ultimately show ?case using ver by blast
qed simp

definition ordered_lineage :: "plan_Lineage \<Rightarrow> bool" where
  "ordered_lineage l \<longleftrightarrow> lineage_Files l \<noteq> [] \<and> sorted_wrt (<) (map file_Name (lineage_Files l)) \<and>
     (\<exists>vs. map (\<lambda>f. file_version (file_Name f)) (lineage_Files l) = map Some vs \<and> distinct vs)"

lemma stage_lineages_Inr:
  assumes "stage_lineages P F stages ledgers ls = Inr files"
  shows "map (attested P) files = concat (map declared_files ls) \<and> list_all (from_package F) files \<and>
    distinct (map lineage_Stage ls) \<and> set (map lineage_Stage ls) \<inter> set stages = {} \<and>
    distinct (map lineage_Ledger ls) \<and> set (map lineage_Ledger ls) \<inter> set ledgers = {} \<and>
    list_all (\<lambda>l. ledgerName (lineage_Ledger l) \<and> ordered_lineage l \<and> lineage_Digest l = Lineage_ContentDigest P l) ls"
  using assms
proof (induction ls arbitrary: stages ledgers files)
  case (Cons l ls)
  let ?s = "lineage_Stage l"
  from Cons.prems obtain fs rest where
    ok: "component ?s" "ledgerName (lineage_Ledger l)" "?s \<notin> set stages" "lineage_Ledger l \<notin> set ledgers"
      "lineage_Files l \<noteq> []" "lineage_Digest l = Lineage_ContentDigest P l"
    and fs: "stage_files P F ?s [] [] (lineage_Files l) = Inr fs"
    and rest: "stage_lineages P F (?s # stages) (lineage_Ledger l # ledgers) ls = Inr rest" "files = fs @ rest"
    by (auto simp: Let_def split: option.splits if_splits sum.splits)
  have "ordered_lineage l" using stage_files_Inr [OF fs ok(1)] ok(5) by (auto simp: ordered_lineage_def comp_def)
  with stage_files_Inr [OF fs ok(1)] Cons.IH [OF rest(1)] rest(2) ok show ?case
    by (auto simp: declared_files_def)
qed simp

text \<open>C25: the migration job runs only what the deployment approved. A snapshot that succeeds holds, in the
  plan's order, exactly the declared files of every lineage, each a regular file of the package below
  its source directory whose bytes have the declared digest; the plan file itself is the one named by
  the binding, and the plan's digest and every lineage digest are the recomputed ones. No stage and no
  ledger is used twice, the files of a lineage are in strict order, no two of them share a version and
  direction, no extension is declared twice, and the owner, the groups, the delegated roles and the
  principals are all different. A snapshot that fails leaves no directory behind.\<close>

theorem snapshot_attested:
  assumes "snapshot P decode F b = (res, left)"
  shows "(left \<longleftrightarrow> is_ok res) \<and> (\<forall>p temp files. res = Inr (p, temp, files) \<longrightarrow>
      (\<exists>data readers. pkg_plan F = Some data \<and> EncodeToString (sha256 P data) = bind_PlanSHA256 b \<and> decode data = Some (p, readers)) \<and>
      plan_Digest p = bind_PlanDigest b \<and> plan_Digest p = Plan_ContentDigest P p \<and>
      map (attested P) files = concat (map declared_files (plan_Lineages p)) \<and> list_all (from_package F) files \<and>
      distinct (map lineage_Stage (plan_Lineages p)) \<and> distinct (map lineage_Ledger (plan_Lineages p)) \<and>
      list_all (\<lambda>l. ledgerName (lineage_Ledger l) \<and> ordered_lineage l \<and> lineage_Digest l = Lineage_ContentDigest P l) (plan_Lineages p) \<and>
      distinct (map fst (plan_Extensions p)) \<and>
      distinct (bind_OwnerRole b # access_ReadOnlyRole (plan_Access p) # access_ReadWriteRole (plan_Access p)
        # access_ReadOnlyRoles (plan_Access p) @ access_ReadWriteRoles (plan_Access p) @ bind_ReadOnlyPrincipals b @ bind_ReadWritePrincipals b))"
    (is "_ \<and> (\<forall>p temp files. _ \<longrightarrow> ?good p files)")
proof -
  have plan: "(\<exists>data readers. pkg_plan F = Some data \<and> EncodeToString (sha256 P data) = bind_PlanSHA256 b \<and> decode data = Some (p, readers)) \<and>
      plan_Digest p = bind_PlanDigest b \<and> plan_Digest p = Plan_ContentDigest P p \<and> validateBinding p b = None"
    if "identified_plan P decode b (pkg_plan F) = Inr p" for p
    using that by (auto simp: identified_plan_def split: option.splits if_splits)
  have ok: "left \<longleftrightarrow> is_ok res"
    using assms by (auto simp: snapshot_def split: sum.splits option.splits if_splits)
  have ext: "identified_plan P decode b (pkg_plan F) = Inr p \<and> stage_lineages P F [] [] (plan_Lineages p) = Inr files \<and>
      check_extensions [] (plan_Extensions p) = None" if "res = Inr (p, temp, files)" for p temp files
    using assms that by (auto simp: snapshot_def split: sum.splits option.splits if_splits)
  have good: "?good p files" if "identified_plan P decode b (pkg_plan F) = Inr p" "stage_lineages P F [] [] (plan_Lineages p) = Inr files"
      "check_extensions [] (plan_Extensions p) = None" for p files
    using plan [OF that(1)] stage_lineages_Inr [OF that(2)] validateBinding_None(1) [of p b] that(3) [unfolded check_extensions_None]
    by (intro conjI; elim conjE; assumption?) (simp_all only:)
  show ?thesis
  proof (rule conjI [OF ok], intro allI impI)
    fix p temp files assume "res = Inr (p, temp, files)"
    from ext [OF this] show "?good p files" by (elim conjE) (rule good)
  qed
qed

section \<open>A sample package\<close>

definition sample_boot_lineage :: plan_Lineage where
  "sample_boot_lineage = (let l = \<lparr>lineage_Label = ''own'', lineage_Ledger = ''schema_migrations'', lineage_Stage = ''00-own'', lineage_Digest = [],
       lineage_Files = [\<lparr>file_Name = ''1_a.up.sql'', file_Digest = ''sha256:'' @ EncodeToString (sha256 sample_platform ''sql'')\<rparr>]\<rparr>
     in l\<lparr>lineage_Digest := Lineage_ContentDigest sample_platform l\<rparr>)"

definition sample_boot_plan :: Plan where
  "sample_boot_plan = (let p = \<lparr>plan_ContractVersion = ContractVersion, plan_Database = ''orders'', plan_Extensions = [(''pgcrypto'', False)],
       plan_Lineages = [sample_boot_lineage], plan_Access = \<lparr>access_ReadOnlyRole = ''orders_ro'', access_ReadWriteRole = ''orders_rw'',
         access_Schemas = [''public''], access_ReadWriteRoles = [''app''], access_ReadOnlyRoles = []\<rparr>, plan_Digest = []\<rparr>
     in p\<lparr>plan_Digest := Plan_ContentDigest sample_platform p\<rparr>)"

definition sample_binding :: Binding where
  "sample_binding = \<lparr>bind_PlanSHA256 = EncodeToString (sha256 sample_platform ''{}''), bind_PlanDigest = plan_Digest sample_boot_plan,
     bind_OwnerRole = ''owner'', bind_ReadOnlyPrincipals = [''reader''], bind_ReadWritePrincipals = [''writer'']\<rparr>"

definition sample_package :: schema_package where
  "sample_package = \<lparr>pkg_plan = Some ''{}'', pkg_open = True,
     pkg_Lstat = (\<lambda>p. if suffix ''.sql'' p then Some FileNode else Some DirNode), pkg_count = (\<lambda>p. Some 1), pkg_read = (\<lambda>p. Some ''sql''),
     tmp_create = Inr ''/tmp/boot'', tmp_mkdir = (\<lambda>d. None), tmp_write = (\<lambda>d f. None)\<rparr>"

lemma sample_sha: "sha256 sample_platform x = replicate 32 NUL"
  by (simp add: sample_platform_def)

lemma sample_version: "ParseUint 64 ''1'' = Some 1"
  by (simp add: ParseUint_def digits_val_def digit_val_def is_digit_def)

lemma sample_names:
  "component ''00-own''" "component ''own''" "ledgerName ''schema_migrations''" "component ''1_a.up.sql''"
  "FindStringSubmatch ''1_a.up.sql'' = Some (''1'', ''up'')" "[] < ''1_a.up.sql''"
  "boot_identifier ''pgcrypto''" "boot_identifier ''orders''" "boot_identifier ''owner''"
  "boot_identifier ''orders_ro''" "boot_identifier ''orders_rw''" "boot_identifier ''app''" "boot_identifier ''reader''"
  "boot_identifier ''writer''" "boot_identifier ''public''"
  by code_simp+

lemma sample_snapshot:
  "snapshot sample_platform (\<lambda>d. Some (sample_boot_plan, False)) sample_package sample_binding =
     (Inr (sample_boot_plan, ''/tmp/boot'', [(''00-own'', ''1_a.up.sql'', ''sql'')]), True)"
proof -
  have b: "validateBinding sample_boot_plan sample_binding = None"
    by (simp add: validateBinding_def sample_boot_plan_def sample_binding_def Let_def sample_names)
  have d: "plan_Digest sample_boot_plan = Plan_ContentDigest sample_platform sample_boot_plan"
    by (simp add: sample_boot_plan_def Let_def Plan_ContentDigest_def sample_sha)
  have "identified_plan sample_platform (\<lambda>d. Some (sample_boot_plan, False)) sample_binding (Some ''{}'') = Inr sample_boot_plan"
    using b d by (simp add: identified_plan_def max_plan_def sample_binding_def) (simp add: sample_boot_plan_def Let_def)
  moreover have "stage_lineages sample_platform sample_package [] [] [sample_boot_lineage] = Inr [(''00-own'', ''1_a.up.sql'', ''sql'')]"
    by (simp add: sample_boot_lineage_def Let_def sample_names sample_version Lineage_ContentDigest_def sample_sha sample_package_def suffix_def)
  moreover have "plan_Lineages sample_boot_plan = [sample_boot_lineage]" "plan_Extensions sample_boot_plan = [(''pgcrypto'', False)]"
    by (simp_all add: sample_boot_plan_def Let_def)
  moreover have "pkg_plan sample_package = Some ''{}''" "pkg_open sample_package" "tmp_create sample_package = Inr ''/tmp/boot''"
    by (simp_all add: sample_package_def)
  ultimately show ?thesis by (simp add: snapshot_def sample_names del: stage_lineages.simps)
qed

theorem snapshot_attested_witness: "distinct (map lineage_Stage (plan_Lineages sample_boot_plan))"
  using snapshot_attested [OF sample_snapshot] by blast

end
