(* ===== verification/GoNet.thy ===== *)
theory GoNet
  imports Prelude
begin

text \<open>
  Go's \<open>net\<close> on addresses, as far as the program uses it: \<open>JoinHostPort\<close>, \<open>SplitHostPort\<close>, and
  whether \<open>ParseIP\<close> accepts a literal.
\<close>

section \<open>Host and port\<close>

definition JoinHostPort :: "string \<Rightarrow> string \<Rightarrow> string" where
  "JoinHostPort host port =
     (if ContainsAny host '':%'' then ''['' @ host @ '']:'' @ port else host @ '':'' @ port)"

text \<open>The part before the last colon, and the part after it.\<close>

definition cut_last_colon :: "string \<Rightarrow> (string \<times> string) option" where
  "cut_last_colon s =
     (if CHR '':'' \<in> set s
      then Some (rev (tl (dropWhile (\<lambda>c. c \<noteq> CHR '':'') (rev s))), rev (takeWhile (\<lambda>c. c \<noteq> CHR '':'') (rev s)))
      else None)"

definition SplitHostPort :: "string \<Rightarrow> (string \<times> string) option" where
  "SplitHostPort hostport =
     (case cut_last_colon hostport of
        None \<Rightarrow> None
      | Some (before, port) \<Rightarrow>
          if hd hostport = CHR ''['' then
            (case Cut hostport (CHR '']'') of (inner, rest, closed) \<Rightarrow>
               if closed \<and> rest = CHR '':'' # port \<and> CHR ''['' \<notin> set (tl hostport) \<and> CHR '']'' \<notin> set rest then Some (tl inner, port)
               else None)
          else if CHR '':'' \<in> set before \<or> CHR ''['' \<in> set hostport \<or> CHR '']'' \<in> set hostport then None
          else Some (before, port))"

lemma cut_last_colon_append: "CHR '':'' \<notin> set p \<Longrightarrow> cut_last_colon (h @ CHR '':'' # p) = Some (h, p)"
  by (auto simp: cut_last_colon_def dropWhile_append takeWhile_append takeWhile_tail)

text \<open>Splitting undoes joining, for a host and a port that hold no bracket and a port without a colon.\<close>

lemma SplitHostPort_JoinHostPort:
  assumes "set h \<inter> {CHR ''['', CHR '']''} = {}" and "set p \<inter> {CHR ''['', CHR '']'', CHR '':''} = {}"
  shows "SplitHostPort (JoinHostPort h p) = Some (h, p)"
proof (cases "ContainsAny h '':%''")
  case True
  have "Cut (CHR ''['' # h @ CHR '']'' # CHR '':'' # p) CHR '']'' = (CHR ''['' # h, CHR '':'' # p, True)"
    using assms(1) by (auto simp: Cut_def takeWhile_append dropWhile_append takeWhile_tail)
  then show ?thesis
    using True assms cut_last_colon_append [of p "CHR ''['' # h @ '']''"] by (simp add: SplitHostPort_def JoinHostPort_def)
next
  case False
  then show ?thesis
    using assms cut_last_colon_append [of p h] by (cases h) (auto simp: SplitHostPort_def JoinHostPort_def ContainsAny_def list_ex_iff)
qed

section \<open>Address literals\<close>

definition ipv4_field :: "string \<Rightarrow> bool" where
  "ipv4_field f \<longleftrightarrow> f \<noteq> [] \<and> list_all is_digit f \<and> digits_val f \<le> 255 \<and> (hd f = CHR ''0'' \<longrightarrow> length f = 1)"

definition parseIPv4 :: "string \<Rightarrow> bool" where
  "parseIPv4 s \<longleftrightarrow> length (Split s CHR ''.'') = 4 \<and> list_all ipv4_field (Split s CHR ''.'')"

definition hex_char :: "char \<Rightarrow> bool" where
  "hex_char c \<longleftrightarrow> is_digit c \<or> c \<in> set ''abcdefABCDEF''"

text \<open>
  The loop of \<open>parseIPv6\<close>: \<open>i\<close> bytes are set and an ellipsis was seen or not. What is left of the text
  begins with a group of hexadecimal digits; a dot after it makes the rest an IPv4 tail.
\<close>

function ipv6_loop :: "nat \<Rightarrow> bool \<Rightarrow> string \<Rightarrow> bool" where
  "ipv6_loop i ellipsis s =
     (if 16 \<le> i then s = [] \<and> \<not> ellipsis
      else let digits = takeWhile hex_char s; rest = dropWhile hex_char s in
        if digits = [] \<or> length digits > 4 then False
        else case rest of
          [] \<Rightarrow> if i + 2 < 16 then ellipsis else \<not> ellipsis
        | c # more \<Rightarrow>
            if c = CHR ''.'' then
              (ellipsis \<or> i = 12) \<and> i + 4 \<le> 16 \<and> parseIPv4 s \<and> (if i + 4 < 16 then ellipsis else \<not> ellipsis)
            else if c \<noteq> CHR '':'' \<or> more = [] then False
            else if hd more = CHR '':'' then
              \<not> ellipsis \<and> (if tl more = [] then i + 2 < 16 else ipv6_loop (i + 2) True (tl more))
            else ipv6_loop (i + 2) ellipsis more)"
  by pat_completeness auto
termination
  by (relation "measure (\<lambda>(i, _, _). 16 - i)") auto

declare ipv6_loop.simps [simp del]

definition parseIPv6 :: "string \<Rightarrow> bool" where
  "parseIPv6 s \<longleftrightarrow>
     (if prefix ''::'' s then drop 2 s = [] \<or> ipv6_loop 0 True (drop 2 s) else ipv6_loop 0 False s)"

definition ParseIP :: "string \<Rightarrow> bool" where
  "ParseIP s \<longleftrightarrow>
     CHR ''%'' \<notin> set s \<and>
     (case dropWhile (\<lambda>c. c \<noteq> CHR ''.'' \<and> c \<noteq> CHR '':'') s of
        [] \<Rightarrow> False
      | c # _ \<Rightarrow> if c = CHR ''.'' then parseIPv4 s else parseIPv6 s)"

lemma ParseIP_samples:
  "list_all ParseIP [''::1'', ''10.0.0.1'', ''2001:db8::8:800:200c:417a'', ''::ffff:1.2.3.4'']"
  "\<not> list_ex ParseIP [''1:2'', ''localhost:5432'', ''10.0.0.256'', ''1:2:3:4:5:6:7:8:9'', ''1::2::3'', ''1:2:3:4:5:6:7::8'', ''fe80::1%eth0'']"
  by code_simp+

end
