(* ===== verification/BootConnection.thy ===== *)
theory BootConnection
  imports BootPackage Connections GoURL GoNet
begin

text \<open>
  The connection strings of \<open>libs/go/bootstrap/run.go\<close>: \<open>connection\<close> settles the one string the job
  uses, \<open>withAnchorFile\<close> names the staged authority in it, \<open>managedConfig\<close> derives the configuration of
  the job's own connection and the loop over the lineages derives the string of each \<open>migrate\<close> child.
  The query half of \<open>net/url\<close> is the one of \<open>GoURL\<close>; parsing and printing the rest of a URL, the
  driver's configuration parser and the environment are parameters.
\<close>

record boot_options =
  opt_Connection :: string
  opt_Timeout :: int
  opt_LockTimeout :: int
  opt_StatementTimeout :: int
  opt_MigrateExecutable :: string
  opt_ExternalIdentity :: string
  opt_ServerTrustAnchorPEM :: string

record connector =
  net_Parse :: "string \<Rightarrow> url option"
  url_String :: "url \<Rightarrow> string"
  pgx_ParseConfig :: "string \<Rightarrow> ConnConfig option"
  PGSERVICE :: string

section \<open>The strings\<close>

text \<open>\<open>fmt.Sprint(d.Milliseconds())\<close>\<close>

definition Sprint_int :: "int \<Rightarrow> string" where
  "Sprint_int i = (if i < 0 then CHR ''-'' # Itoa (nat (- i)) else Itoa (nat i))"

definition milliseconds :: "int \<Rightarrow> string" where
  "milliseconds duration = Sprint_int (quot duration 1000000)"

definition url_bound :: "Binding \<Rightarrow> Plan \<Rightarrow> url \<Rightarrow> bool" where
  "url_bound b p u \<longleftrightarrow>
     Scheme u = ''postgres'' \<and> url_User u = Some (bind_OwnerRole b, None) \<and>
     url_Path u = ''/'' @ plan_Database p \<and> Fragment u = []"

definition caller_keys :: "string list" where
  "caller_keys = [''sslmode'', ''sslrootcert'', ''sslcert'', ''sslkey'', ''host'']"

definition caller_query_ok :: "url_values \<Rightarrow> bool" where
  "caller_query_ok q \<longleftrightarrow>
     list_all (\<lambda>(key, vs). key \<in> set caller_keys \<and> length vs = 1) q \<and>
     \<not> (''host'' \<in> fst ` set q \<and> Values_Get q ''host'' = [])"

text \<open>The endpoint: a private socket named by the query, or the host of the URL with a port.\<close>

definition boot_endpoint :: "url \<Rightarrow> url_values \<Rightarrow> (url \<times> url_values) option" where
  "boot_endpoint u q =
     (let socket = Values_Get q ''host'' in
      if ContainsAny (Hostname u) '','' then None
      else if socket \<noteq> [] then
        if url_Host u \<noteq> [] \<or> \<not> IsAbs socket \<or> ContainsAny socket [CHR '','', NUL] \<or> Values_Get q ''sslmode'' \<noteq> ''disable''
        then None else Some (u, Values_Set ''port'' ''5432'' q)
      else if Hostname u = [] then None
      else Some (if url_Port u = [] then u\<lparr>url_Host := JoinHostPort (Hostname u) ''5432'', url_Port := ''5432''\<rparr> else u, q))"

definition reprint :: "connector \<Rightarrow> url \<Rightarrow> url_values \<Rightarrow> string" where
  "reprint C u q = url_String C (u\<lparr>RawQuery := Values_Encode q\<rparr>)"

definition fixed_settings :: "boot_options \<Rightarrow> url_values \<Rightarrow> url_values" where
  "fixed_settings o' q =
     Values_Set ''statement_timeout'' (milliseconds (opt_StatementTimeout o'))
      (Values_Set ''lock_timeout'' (milliseconds (opt_LockTimeout o'))
        (Values_Set ''connect_timeout'' ''5'' (Values_Set ''search_path'' ''public'' q)))"

definition managed_connection :: "connector \<Rightarrow> boot_options \<Rightarrow> Binding \<Rightarrow> Plan \<Rightarrow> string option" where
  "managed_connection C o' b p =
     (case net_Parse C (opt_Connection o') of
        None \<Rightarrow> None
      | Some u \<Rightarrow>
          if \<not> url_bound b p u then None
          else case values_ParseQuery (RawQuery u) of
            None \<Rightarrow> None
          | Some q \<Rightarrow>
              if \<not> caller_query_ok q then None
              else case boot_endpoint u q of
                None \<Rightarrow> None
              | Some (u', q') \<Rightarrow>
                  if Values_Get q' ''sslmode'' = [] then None
                  else Some (reprint C u' (fixed_settings o' q')))"

definition withAnchorFile :: "connector \<Rightarrow> string \<Rightarrow> string \<Rightarrow> string option" where
  "withAnchorFile C dsn path =
     (case net_Parse C dsn of
        None \<Rightarrow> None
      | Some u \<Rightarrow>
          (let q = Query (RawQuery u); existing = Values_Get q ''sslrootcert'' in
           if existing \<noteq> [] \<and> existing \<noteq> path then None
           else Some (reprint C u (Values_Set ''sslrootcert'' path q))))"

text \<open>The string of the child of one lineage; \<open>None\<close> is the nil dereference of an unparsable string.\<close>

definition child_dsn :: "connector \<Rightarrow> string \<Rightarrow> string \<Rightarrow> string \<Rightarrow> string option" where
  "child_dsn C dsn ledger app =
     map_option (\<lambda>u. reprint C u (Values_Set ''application_name'' app
       (Values_Set ''x-migrations-table'' ledger (Query (RawQuery u))))) (net_Parse C dsn)"

definition ambient_overrides :: "(string \<times> string) list" where
  "ambient_overrides = [(''password'', []), (''passfile'', ''/dev/null''), (''servicefile'', ''/dev/null''), (''sslpassword'', []),
     (''sslsni'', ''1''), (''sslnegotiation'', ''postgres''), (''options'', []), (''target_session_attrs'', ''any'')]"

definition set_default :: "url_values \<Rightarrow> string \<Rightarrow> url_values" where
  "set_default q key = (if key \<in> fst ` set q then q else Values_Set key [] q)"

definition managed_query :: "url_values \<Rightarrow> url_values" where
  "managed_query q = foldl set_default (foldl (\<lambda>q (k, v). Values_Set k v q) q ambient_overrides) [''sslcert'', ''sslkey'', ''sslrootcert'']"

definition managedConfig :: "connector \<Rightarrow> string \<Rightarrow> boot_options \<Rightarrow> ConnConfig option" where
  "managedConfig C dsn o' =
     (if PGSERVICE C \<noteq> [] then None
      else case net_Parse C dsn of
        None \<Rightarrow> None
      | Some u \<Rightarrow>
          map_option (\<lambda>c. c\<lparr>conn_Password := [],
              RuntimeParams := [(''lock_timeout'', milliseconds (opt_LockTimeout o')),
                (''statement_timeout'', milliseconds (opt_StatementTimeout o')), (''search_path'', ''public'')]\<rparr>)
            (pgx_ParseConfig C (reprint C u (managed_query (Query (RawQuery u))))))"

section \<open>What the strings carry\<close>

text \<open>
  \<open>net/url\<close> as the code relies on it: a parsed \<open>postgres\<close> URL with a user and an absolute path, with
  its query replaced and, where it had none, its port completed, is read back as it was printed.
\<close>

definition hierarchical :: "url \<Rightarrow> bool" where
  "hierarchical u \<longleftrightarrow> Scheme u = ''postgres'' \<and> url_User u \<noteq> None \<and> prefix ''/'' (url_Path u) \<and> Fragment u = []"

definition with_port :: "url \<Rightarrow> url" where
  "with_port u = u\<lparr>url_Host := JoinHostPort (Hostname u) ''5432'', url_Port := ''5432''\<rparr>"

definition url_round_trip :: "connector \<Rightarrow> bool" where
  "url_round_trip C \<longleftrightarrow>
     (\<forall>s u q. net_Parse C s = Some u \<and> hierarchical u \<longrightarrow>
        net_Parse C (reprint C u q) = Some (u\<lparr>RawQuery := Values_Encode q\<rparr>) \<and>
        (Hostname u \<noteq> [] \<and> url_Port u = [] \<longrightarrow>
           net_Parse C (reprint C (with_port u) q) = Some ((with_port u)\<lparr>RawQuery := Values_Encode q\<rparr>)))"

text \<open>The state of the job's string: what it names, however often it was rewritten since.\<close>

definition job_keys :: "string set" where
  "job_keys = set caller_keys \<union> {''port'', ''search_path'', ''connect_timeout'', ''lock_timeout'', ''statement_timeout''}"

definition endpoint_named :: "url \<Rightarrow> url_values \<Rightarrow> bool" where
  "endpoint_named u q \<longleftrightarrow>
     (if Values_Get q ''host'' \<noteq> [] then url_Host u = [] \<and> IsAbs (Values_Get q ''host'') \<and> Values_Get q ''sslmode'' = ''disable''
      else Hostname u \<noteq> [] \<and> url_Port u \<noteq> [])"

definition job_string :: "connector \<Rightarrow> boot_options \<Rightarrow> Binding \<Rightarrow> Plan \<Rightarrow> string set \<Rightarrow> url \<Rightarrow> url_values \<Rightarrow> bool" where
  "job_string C o' b p keys u q \<longleftrightarrow>
     url_bound b p u \<and> RawQuery u = Values_Encode q \<and> well_values q \<and> fst ` set q \<subseteq> keys \<and> endpoint_named u q \<and>
     Values_Get q ''sslmode'' \<noteq> [] \<and> Values_Get q ''search_path'' = ''public'' \<and>
     Values_Get q ''lock_timeout'' = milliseconds (opt_LockTimeout o') \<and>
     Values_Get q ''statement_timeout'' = milliseconds (opt_StatementTimeout o')"

lemma url_bound_hierarchical: "url_bound b p u \<Longrightarrow> hierarchical u"
  by (simp add: url_bound_def hierarchical_def)

lemma connection_string:
  assumes laws: "url_round_trip C" and ok: "managed_connection C o' b p = Some dsn"
  obtains u q where "net_Parse C dsn = Some u" "job_string C o' b p job_keys u q"
proof -
  from ok obtain u0 q0 u1 q1 where c: "net_Parse C (opt_Connection o') = Some u0" "url_bound b p u0"
    "values_ParseQuery (RawQuery u0) = Some q0" "caller_query_ok q0" "boot_endpoint u0 q0 = Some (u1, q1)"
    "Values_Get q1 ''sslmode'' \<noteq> []" and dsn: "dsn = reprint C u1 (fixed_settings o' q1)"
    by (auto simp: managed_connection_def split: option.splits if_splits)
  let ?q = "fixed_settings o' q1"
  have keys: "well_values q0" "fst ` set q0 \<subseteq> set caller_keys"
    using well_ParseQuery [OF c(3)] c(4) by (auto simp: caller_query_ok_def list_all_iff)
  have one: "u1 = u0 \<or> (u1 = with_port u0 \<and> Hostname u0 \<noteq> [] \<and> url_Port u0 = [])"
      and q01: "q1 = q0 \<or> q1 = Values_Set ''port'' ''5432'' q0" and at: "endpoint_named u1 q1"
    using c(5) by (auto simp: boot_endpoint_def endpoint_named_def with_port_def Let_def split: if_splits)
  have q1: "well_values q1" "fst ` set q1 \<subseteq> insert ''port'' (set caller_keys)"
    using q01 keys by (elim disjE; simp add: subset_insertI2)+
  have parsed: "net_Parse C dsn = Some (u1\<lparr>RawQuery := Values_Encode ?q\<rparr>)"
    using laws c(1) url_bound_hierarchical [OF c(2)] one unfolding url_round_trip_def dsn by blast
  have "url_bound b p u1" using c(2) one by (auto simp: url_bound_def with_port_def)
  then have "job_string C o' b p job_keys (u1\<lparr>RawQuery := Values_Encode ?q\<rparr>) ?q"
    using q1 at c(6) by (auto simp: job_string_def url_bound_def endpoint_named_def fixed_settings_def job_keys_def)
  with parsed that show thesis by blast
qed

text \<open>A rewrite of the query keeps the rest; its new keys are added to the ones the string may have.\<close>

lemma rewritten_string:
  assumes "url_round_trip C" "net_Parse C dsn = Some u" "job_string C o' b p keys u q"
    and q': "well_values q'" "fst ` set q' \<subseteq> keys'"
      "\<And>k. k \<in> {''host'', ''sslmode'', ''search_path'', ''lock_timeout'', ''statement_timeout''} \<Longrightarrow> Values_Get q' k = Values_Get q k"
  shows "\<exists>u'. net_Parse C (reprint C u q') = Some u' \<and> job_string C o' b p keys' u' q'"
proof -
  have "hierarchical u" using assms(3) by (auto simp: job_string_def intro: url_bound_hierarchical)
  then have "net_Parse C (reprint C u q') = Some (u\<lparr>RawQuery := Values_Encode q'\<rparr>)"
    using assms(1,2) unfolding url_round_trip_def by blast
  moreover have "job_string C o' b p keys' (u\<lparr>RawQuery := Values_Encode q'\<rparr>) q'"
    using assms(3) q' by (simp add: job_string_def url_bound_def endpoint_named_def)
  ultimately show ?thesis by blast
qed

lemma Query_sorted: "job_string C o' b p keys u q \<Longrightarrow> Query (RawQuery u) = sort_key fst q"
  by (simp add: job_string_def Values_round_trip)

lemma Get_sort_key: "well_values q \<Longrightarrow> Values_Get (sort_key fst q) k = Values_Get q k"
  using Values_round_trip(1,4) [of q] by simp

lemma well_sort_key: "well_values q \<Longrightarrow> well_values (sort_key fst q)"
  using Values_round_trip(1,5) [of q] by simp

lemma keys_sort_key: "fst ` set (sort_key fst q) = fst ` set (q :: url_values)"
  by simp

lemma withAnchorFile_string:
  assumes "url_round_trip C" "net_Parse C dsn = Some u" "job_string C o' b p job_keys u q" "withAnchorFile C dsn path = Some dsn'"
  shows "\<exists>u' q'. net_Parse C dsn' = Some u' \<and> job_string C o' b p job_keys u' q' \<and> Values_Get q' ''sslrootcert'' = path"
proof -
  let ?q = "Values_Set ''sslrootcert'' path (sort_key fst q)"
  have q: "well_values q" "fst ` set q \<subseteq> job_keys" using assms(3) by (simp_all add: job_string_def)
  have "dsn' = reprint C u ?q"
    using assms(2,4) Query_sorted [OF assms(3)] by (auto simp: withAnchorFile_def Let_def split: if_splits)
  moreover have "\<exists>u'. net_Parse C (reprint C u ?q) = Some u' \<and> job_string C o' b p job_keys u' ?q"
    by (rule rewritten_string [OF assms(1,2,3)]) (use q in \<open>auto simp: well_sort_key Get_sort_key job_keys_def caller_keys_def\<close>)
  ultimately show ?thesis by (metis Get_Set)
qed

lemma child_string:
  assumes "url_round_trip C" "net_Parse C dsn = Some u" "job_string C o' b p job_keys u q"
  shows "\<exists>dsn' u' q'. child_dsn C dsn ledger app = Some dsn' \<and> net_Parse C dsn' = Some u' \<and>
    job_string C o' b p (job_keys \<union> {''x-migrations-table'', ''application_name''}) u' q' \<and>
    Values_Get q' ''x-migrations-table'' = ledger \<and> Values_Get q' ''application_name'' = app"
proof -
  let ?q = "Values_Set ''application_name'' app (Values_Set ''x-migrations-table'' ledger (sort_key fst q))"
  have q: "well_values q" "fst ` set q \<subseteq> job_keys" using assms(3) by (simp_all add: job_string_def)
  have "child_dsn C dsn ledger app = Some (reprint C u ?q)"
    using assms(2) Query_sorted [OF assms(3)] by (simp add: child_dsn_def)
  moreover have "\<exists>u'. net_Parse C (reprint C u ?q) = Some u' \<and>
      job_string C o' b p (job_keys \<union> {''x-migrations-table'', ''application_name''}) u' ?q"
    by (rule rewritten_string [OF assms(1,2,3)]) (use q in \<open>auto simp: well_sort_key Get_sort_key\<close>)
  moreover have "Values_Get ?q ''x-migrations-table'' = ledger" "Values_Get ?q ''application_name'' = app" by simp_all
  ultimately show ?thesis by blast
qed

lemma set_defaults_keep:
  "well_values q \<Longrightarrow> well_values (foldl set_default q ks) \<and> fst ` set (foldl set_default q ks) = fst ` set q \<union> set ks \<and>
     (k \<in> fst ` set q \<longrightarrow> Values_Get (foldl set_default q ks) k = Values_Get q k) \<and> (k \<notin> set ks \<longrightarrow> Values_Get (foldl set_default q ks) k = Values_Get q k)"
proof (induction ks arbitrary: q)
  case (Cons x ks)
  have step: "well_values (set_default q x)" "fst ` set (set_default q x) = insert x (fst ` set q)"
    "k \<in> fst ` set q \<Longrightarrow> Values_Get (set_default q x) k = Values_Get q k" "k \<noteq> x \<Longrightarrow> Values_Get (set_default q x) k = Values_Get q k"
    using Cons.prems by (auto simp: set_default_def)
  from Cons.IH [OF step(1)] step show ?case by auto
qed simp

lemma sets_keep:
  "well_values q \<Longrightarrow> well_values (foldl (\<lambda>q (k, v). Values_Set k v q) q kvs) \<and>
     fst ` set (foldl (\<lambda>q (k, v). Values_Set k v q) q kvs) = fst ` set q \<union> fst ` set kvs \<and>
     (\<forall>k. k \<notin> fst ` set kvs \<longrightarrow> Values_Get (foldl (\<lambda>q (k, v). Values_Set k v q) q kvs) k = Values_Get q k) \<and>
     (distinct (map fst kvs) \<longrightarrow> list_all (\<lambda>(k, v). Values_Get (foldl (\<lambda>q (k, v). Values_Set k v q) q kvs) k = v) kvs)"
proof (induction kvs arbitrary: q)
  case (Cons kv kvs)
  obtain k v where kv: "kv = (k, v)" by (cases kv)
  from Cons.IH [of "Values_Set k v q"] Cons.prems show ?case by (simp add: kv)
qed simp

lemma distinct_overrides: "distinct (map fst ambient_overrides)"
  by (simp add: ambient_overrides_def)

lemma managed_query_facts:
  assumes "well_values q"
  shows "well_values (managed_query q)" "fst ` set (managed_query q) = fst ` set q \<union> fst ` set ambient_overrides \<union> {''sslcert'', ''sslkey'', ''sslrootcert''}"
    "list_all (\<lambda>(k, v). Values_Get (managed_query q) k = v) ambient_overrides"
    "k \<notin> fst ` set ambient_overrides \<union> {''sslcert'', ''sslkey'', ''sslrootcert''} \<Longrightarrow> Values_Get (managed_query q) k = Values_Get q k"
proof -
  let ?o = "foldl (\<lambda>q (k, v). Values_Set k v q) q ambient_overrides"
  have o: "well_values ?o" "fst ` set ?o = fst ` set q \<union> fst ` set ambient_overrides"
    "list_all (\<lambda>(k, v). Values_Get ?o k = v) ambient_overrides" "k \<notin> fst ` set ambient_overrides \<Longrightarrow> Values_Get ?o k = Values_Get q k" for k
    using sets_keep [OF assms, of ambient_overrides] distinct_overrides by simp_all
  show "well_values (managed_query q)"
    "fst ` set (managed_query q) = fst ` set q \<union> fst ` set ambient_overrides \<union> {''sslcert'', ''sslkey'', ''sslrootcert''}"
    using set_defaults_keep [OF o(1), of "[''sslcert'', ''sslkey'', ''sslrootcert'']"] o(2) unfolding managed_query_def by simp_all
  show "list_all (\<lambda>(k, v). Values_Get (managed_query q) k = v) ambient_overrides"
  proof -
    have "Values_Get (managed_query q) k = Values_Get ?o k" if "k \<in> fst ` set ambient_overrides" for k
      using set_defaults_keep [OF o(1), of "[''sslcert'', ''sslkey'', ''sslrootcert'']" k] o(2) that unfolding managed_query_def by blast
    then have "\<forall>(k, v) \<in> set ambient_overrides. Values_Get (managed_query q) k = Values_Get ?o k" by force
    then show ?thesis using o(3) by (auto simp: list_all_iff)
  qed
  show "Values_Get (managed_query q) k = Values_Get q k" if "k \<notin> fst ` set ambient_overrides \<union> {''sslcert'', ''sslkey'', ''sslrootcert''}"
    using set_defaults_keep [OF o(1), of "[''sslcert'', ''sslkey'', ''sslrootcert'']" k] o(4) [of k] that unfolding managed_query_def by simp
qed

lemma managedConfig_string:
  assumes "url_round_trip C" "net_Parse C dsn = Some u" "job_string C o' b p job_keys u q" "managedConfig C dsn o' = Some c"
  shows "\<exists>dsn' u' q' c0. net_Parse C dsn' = Some u' \<and> pgx_ParseConfig C dsn' = Some c0 \<and>
    job_string C o' b p (job_keys \<union> fst ` set ambient_overrides) u' q' \<and>
    list_all (\<lambda>(k, v). Values_Get q' k = v) ambient_overrides \<and>
    c = c0\<lparr>conn_Password := [], RuntimeParams := [(''lock_timeout'', milliseconds (opt_LockTimeout o')),
      (''statement_timeout'', milliseconds (opt_StatementTimeout o')), (''search_path'', ''public'')]\<rparr>"
proof -
  let ?q = "managed_query (sort_key fst q)"
  have q: "well_values (sort_key fst q)" "fst ` set q \<subseteq> job_keys" "Values_Get (sort_key fst q) = Values_Get q"
    using assms(3) by (auto simp: job_string_def Get_sort_key well_sort_key)
  from assms(2,4) Query_sorted [OF assms(3)] obtain c0 where c: "pgx_ParseConfig C (reprint C u ?q) = Some c0"
    "c = c0\<lparr>conn_Password := [], RuntimeParams := [(''lock_timeout'', milliseconds (opt_LockTimeout o')),
      (''statement_timeout'', milliseconds (opt_StatementTimeout o')), (''search_path'', ''public'')]\<rparr>"
    by (auto simp: managedConfig_def split: if_splits)
  have "\<exists>u'. net_Parse C (reprint C u ?q) = Some u' \<and> job_string C o' b p (job_keys \<union> fst ` set ambient_overrides) u' ?q"
  proof (rule rewritten_string [OF assms(1,2,3)])
    show "fst ` set ?q \<subseteq> job_keys \<union> fst ` set ambient_overrides"
      using managed_query_facts(2) [OF q(1)] q(2) by (auto simp: job_keys_def caller_keys_def)
    show "Values_Get ?q k = Values_Get q k" if "k \<in> {''host'', ''sslmode'', ''search_path'', ''lock_timeout'', ''statement_timeout''}" for k
      using managed_query_facts(4) [OF q(1), of k] that q(3) by (auto simp: ambient_overrides_def)
  qed (rule managed_query_facts(1) [OF q(1)])
  then show ?thesis using c managed_query_facts(3) [OF q(1)] by blast
qed

lemma managed_string:
  assumes "url_round_trip C" "managed_connection C o' b p = Some dsn0" "dsn = dsn0 \<or> withAnchorFile C dsn0 path = Some dsn"
  shows "\<exists>u q. net_Parse C dsn = Some u \<and> job_string C o' b p job_keys u q"
proof -
  obtain u0 q0 where u0: "net_Parse C dsn0 = Some u0" "job_string C o' b p job_keys u0 q0"
    using connection_string [OF assms(1,2)] .
  then show ?thesis using assms(3) withAnchorFile_string [OF assms(1) u0] by blast
qed

text \<open>C28: the connection the managed bootstrap settles stays the one the binding names. The string that
  is accepted, also with the staged authority, is a URL of the owner without a password, of the plan's
  database, at a named endpoint and with an explicit \<open>sslmode\<close>; beyond the caller's TLS settings it
  only carries the search path and the time budgets. Every child's string is that one with the ledger
  of its lineage and its application name, and can always be built. The job's own configuration comes from that string
  with every ambient default overridden, no password, and only the budgets and the search path as
  session parameters; a service selected by the environment is refused.\<close>

theorem managed_connection_bound:
  assumes "url_round_trip C" "managed_connection C o' b p = Some dsn0" "dsn = dsn0 \<or> withAnchorFile C dsn0 path = Some dsn"
  shows "(\<exists>u q. net_Parse C dsn = Some u \<and> job_string C o' b p job_keys u q) \<and>
    (\<forall>ledger app. \<exists>dsn' u q. child_dsn C dsn ledger app = Some dsn' \<and> net_Parse C dsn' = Some u \<and>
       job_string C o' b p (job_keys \<union> {''x-migrations-table'', ''application_name''}) u q \<and>
       Values_Get q ''x-migrations-table'' = ledger \<and> Values_Get q ''application_name'' = app) \<and>
    (\<forall>c. managedConfig C dsn o' = Some c \<longrightarrow> PGSERVICE C = [] \<and>
       (\<exists>dsn' u q c0. net_Parse C dsn' = Some u \<and> pgx_ParseConfig C dsn' = Some c0 \<and>
         job_string C o' b p (job_keys \<union> fst ` set ambient_overrides) u q \<and>
         list_all (\<lambda>(k, v). Values_Get q k = v) ambient_overrides \<and>
         c = c0\<lparr>conn_Password := [], RuntimeParams := [(''lock_timeout'', milliseconds (opt_LockTimeout o')),
           (''statement_timeout'', milliseconds (opt_StatementTimeout o')), (''search_path'', ''public'')]\<rparr>))"
proof -
  obtain u q where u: "net_Parse C dsn = Some u" "job_string C o' b p job_keys u q"
    using managed_string [OF assms] by blast
  have "PGSERVICE C = []" if "managedConfig C dsn o' = Some c" for c
    using that by (auto simp: managedConfig_def split: if_splits)
  then show ?thesis
    using u child_string [OF assms(1) u] managedConfig_string [OF assms(1) u] by blast
qed

text \<open>A connector whose URLs differ in their query only.\<close>

definition sample_job_url :: url where
  "sample_job_url = \<lparr>Scheme = ''postgres'', Opaque = [], Fragment = [], url_User = Some (''owner'', None), url_Host = ''db:5432'',
     Hostname = ''db'', url_Port = ''5432'', url_Path = ''/orders'', RawQuery = []\<rparr>"

definition sample_connector :: connector where
  "sample_connector = \<lparr>net_Parse = (\<lambda>s. Some (sample_job_url\<lparr>RawQuery := s\<rparr>)), url_String = RawQuery,
     pgx_ParseConfig = (\<lambda>s. Some \<lparr>conn_Host = ''db'', conn_Port = 5432, conn_Database = ''orders'', conn_User = ''owner'', conn_Password = ''x'',
       Fallbacks = 0, RuntimeParams = [], TLSConfig = None\<rparr>), PGSERVICE = []\<rparr>"

definition sample_boot_options :: boot_options where
  "sample_boot_options = \<lparr>opt_Connection = ''sslmode=verify-full'', opt_Timeout = 60000000000, opt_LockTimeout = 5000000000,
     opt_StatementTimeout = 9000000000, opt_MigrateExecutable = ''/bin/migrate'', opt_ExternalIdentity = [], opt_ServerTrustAnchorPEM = []\<rparr>"

lemma sample_round_trip: "url_round_trip sample_connector"
  by (auto simp: url_round_trip_def sample_connector_def reprint_def sample_job_url_def with_port_def)

lemma sample_query: "values_ParseQuery ''sslmode=verify-full'' = Some [(''sslmode'', [''verify-full''])]"
  by code_simp

lemma sample_connection: "managed_connection sample_connector sample_boot_options sample_binding sample_boot_plan =
    Some (Values_Encode (fixed_settings sample_boot_options [(''sslmode'', [''verify-full''])]))"
proof -
  have "url_bound sample_binding sample_boot_plan (sample_job_url\<lparr>RawQuery := s\<rparr>)" for s
    by (simp add: url_bound_def sample_job_url_def sample_binding_def sample_boot_plan_def Let_def)
  moreover have "caller_query_ok [(''sslmode'', [''verify-full''])]" by code_simp
  moreover have "boot_endpoint (sample_job_url\<lparr>RawQuery := s\<rparr>) [(''sslmode'', [''verify-full''])] =
      Some (sample_job_url\<lparr>RawQuery := s\<rparr>, [(''sslmode'', [''verify-full''])])" for s
    by (simp add: boot_endpoint_def sample_job_url_def Values_Get_def ContainsAny_def)
  moreover have "Values_Get [(''sslmode'', [''verify-full''])] ''sslmode'' = ''verify-full''" by code_simp
  ultimately show ?thesis
    by (simp add: managed_connection_def sample_connector_def sample_boot_options_def sample_query reprint_def)
qed

theorem managed_connection_bound_witness:
  "\<exists>dsn u q. managed_connection sample_connector sample_boot_options sample_binding sample_boot_plan = Some dsn \<and>
     net_Parse sample_connector dsn = Some u \<and> job_string sample_connector sample_boot_options sample_binding sample_boot_plan job_keys u q"
  using managed_connection_bound [OF sample_round_trip sample_connection disjI1 [OF refl]] sample_connection by blast

end
