(* ===== verification/TrustAnchor.thy ===== *)
theory TrustAnchor
  imports Prelude
begin

text \<open>
  \<open>libs/go/trustanchor.go\<close>: the certificate authority a connection pins. The PEM decoder and the X.509
  parser are parameters, with the one fact the loop rests on, that a decoded block consumes input. The
  loop is a partial function, so that returning is something the theorem has to show.
\<close>

record certificate =
  cert_Raw :: string
  IsCA :: bool
  CommonName :: string
  NotAfter :: int

record pem_library =
  pem_Decode :: "string \<Rightarrow> ((string \<times> string) \<times> string) option"
  ParseCertificate :: "string \<Rightarrow> (string, certificate) result"
  Now :: "nat \<Rightarrow> int"

datatype anchor_error =
    NotCertificates string
  | Unparsable string
  | NotAuthority string
  | ExpiredAuthority string int
  | ContainsNoCertificate

text \<open>The body of the loop up to \<open>pool.AddCert\<close>; the clock is read once for each certificate.\<close>

definition anchor_block :: "pem_library \<Rightarrow> nat \<Rightarrow> string \<times> string \<Rightarrow> (anchor_error, certificate) result" where
  "anchor_block L certificates block =
     (if fst block \<noteq> ''CERTIFICATE'' then Inl (NotCertificates (fst block))
      else case ParseCertificate L (snd block) of
        Inl e \<Rightarrow> Inl (Unparsable e)
      | Inr c \<Rightarrow>
          if \<not> IsCA c then Inl (NotAuthority (CommonName c))
          else if Now L certificates > NotAfter c then Inl (ExpiredAuthority (CommonName c) (NotAfter c))
          else Inr c)"

text \<open>\<open>CertPool.AddCert\<close> keeps one copy of a certificate.\<close>

definition AddCert :: "certificate list \<Rightarrow> certificate \<Rightarrow> certificate list" where
  "AddCert pool c = (if cert_Raw c \<in> cert_Raw ` set pool then pool else pool @ [c])"

partial_function (option) anchor_loop ::
  "pem_library \<Rightarrow> certificate list \<Rightarrow> nat \<Rightarrow> string \<Rightarrow> (anchor_error, certificate list) result option" where
  "anchor_loop L pool certificates rest =
     (case pem_Decode L rest of
        None \<Rightarrow> Some (if certificates = 0 then Inl ContainsNoCertificate else Inr pool)
      | Some (block, rest') \<Rightarrow>
          (case anchor_block L certificates block of
             Inl e \<Rightarrow> Some (Inl e)
           | Inr c \<Rightarrow> anchor_loop L (AddCert pool c) (Suc certificates) rest'))"

declare anchor_loop.simps [code]

definition serverTrustAnchor :: "pem_library \<Rightarrow> string \<Rightarrow> (anchor_error, certificate list) result option" where
  "serverTrustAnchor L anchor = anchor_loop L [] 0 anchor"

section \<open>The blocks of a text\<close>

text \<open>The blocks the decoder finds, one after the other.\<close>

inductive pem_blocks :: "pem_library \<Rightarrow> string \<Rightarrow> (string \<times> string) list \<Rightarrow> bool" for L where
  no_block: "pem_Decode L t = None \<Longrightarrow> pem_blocks L t []"
| next_block: "pem_Decode L t = Some (b, rest) \<Longrightarrow> pem_blocks L rest bs \<Longrightarrow> pem_blocks L t (b # bs)"

inductive_cases pem_blocks_ConsE: "pem_blocks L t (b # bs)"
inductive_cases pem_blocks_NilE: "pem_blocks L t []"

lemma pem_blocks_unique: "pem_blocks L t bs \<Longrightarrow> pem_blocks L t bs' \<Longrightarrow> bs' = bs"
  by (induction arbitrary: bs' rule: pem_blocks.induct) (erule pem_blocks.cases; simp)+

definition consuming :: "pem_library \<Rightarrow> bool" where
  "consuming L \<longleftrightarrow> (\<forall>t b rest. pem_Decode L t = Some (b, rest) \<longrightarrow> length rest < length t)"

lemma pem_blocks_exist: "consuming L \<Longrightarrow> \<exists>bs. pem_blocks L t bs"
proof (induction t rule: length_induct)
  case (1 t)
  show ?case
  proof (cases "pem_Decode L t")
    case None then show ?thesis by (blast intro: no_block)
  next
    case (Some x)
    then obtain b rest where x: "pem_Decode L t = Some (b, rest)" by (cases x) auto
    then have "length rest < length t" using 1(2) unfolding consuming_def by blast
    then obtain bs where "pem_blocks L rest bs" using 1 by blast
    then show ?thesis using x by (blast intro: next_block)
  qed
qed

text \<open>What the loop computes over a list of blocks: the error of the first refused one, or the pool.\<close>

fun anchors_of :: "pem_library \<Rightarrow> certificate list \<Rightarrow> nat \<Rightarrow> (string \<times> string) list \<Rightarrow> (anchor_error, certificate list) result" where
  "anchors_of L pool n [] = (if n = 0 then Inl ContainsNoCertificate else Inr pool)"
| "anchors_of L pool n (b # bs) =
     (case anchor_block L n b of Inl e \<Rightarrow> Inl e | Inr c \<Rightarrow> anchors_of L (AddCert pool c) (Suc n) bs)"

lemma anchor_loop_blocks: "pem_blocks L t bs \<Longrightarrow> anchor_loop L pool n t = Some (anchors_of L pool n bs)"
proof (induction arbitrary: pool n rule: pem_blocks.induct)
  case (no_block t) then show ?case by (simp add: anchor_loop.simps)
next
  case (next_block t b rest bs)
  then show ?case by (simp add: anchor_loop.simps [of L pool n t] split: sum.splits)
qed

text \<open>What an anchor is made of: authorities that are not expired when they are read.\<close>

definition authority_block :: "pem_library \<Rightarrow> nat \<Rightarrow> string \<times> string \<Rightarrow> bool" where
  "authority_block L n b \<longleftrightarrow> fst b = ''CERTIFICATE'' \<and>
     (case ParseCertificate L (snd b) of Inl e \<Rightarrow> False | Inr c \<Rightarrow> IsCA c \<and> Now L n \<le> NotAfter c)"

lemma anchor_block_ok: "anchor_block L n b = Inr c \<longleftrightarrow> authority_block L n b \<and> ParseCertificate L (snd b) = Inr c"
  by (auto simp: anchor_block_def authority_block_def split: sum.splits)

lemma anchors_of_ok:
  "is_ok (anchors_of L pool n bs) \<longleftrightarrow> 0 < n + length bs \<and> (\<forall>i < length bs. authority_block L (n + i) (bs ! i))"
proof (induction bs arbitrary: pool n)
  case (Cons b bs)
  show ?case
  proof (cases "anchor_block L n b")
    case (Inl e)
    then have "\<not> authority_block L (n + 0) ((b # bs) ! 0)"
      by (auto simp: anchor_block_def authority_block_def split: sum.splits if_splits)
    then show ?thesis using Inl by fastforce
  next
    case (Inr c)
    then show ?thesis using Cons.IH [of _ "Suc n"] anchor_block_ok [of L n b c]
      by (auto simp: nth_Cons' All_less_Suc2)
  qed
qed simp

lemma anchors_of_pool:
  assumes "anchors_of L pool n bs = Inr certs" "distinct (map cert_Raw pool)"
  shows "distinct (map cert_Raw certs) \<and>
    cert_Raw ` set certs = cert_Raw ` set pool \<union> {cert_Raw c |c b. b \<in> set bs \<and> ParseCertificate L (snd b) = Inr c}"
  using assms
proof (induction bs arbitrary: pool n)
  case (Cons b bs)
  from Cons.prems(1) obtain c where c: "anchor_block L n b = Inr c" "anchors_of L (AddCert pool c) (Suc n) bs = Inr certs"
    by (auto split: sum.splits)
  have "distinct (map cert_Raw (AddCert pool c))" "cert_Raw ` set (AddCert pool c) = insert (cert_Raw c) (cert_Raw ` set pool)"
    using Cons.prems(2) by (auto simp: AddCert_def)
  with Cons.IH [OF c(2)] c(1) show ?case by (cases b) (auto simp: anchor_block_ok)
qed (auto split: if_splits)

lemma anchor_returns: "consuming L \<Longrightarrow> \<exists>r. serverTrustAnchor L anchor = Some r"
  using pem_blocks_exist [of L anchor] by (auto simp: serverTrustAnchor_def anchor_loop_blocks)

text \<open>The pinned authority is read strictly and always to an answer. A text of PEM blocks is accepted
  exactly when it has a block and every block is a certificate, of an authority, not expired when it
  is read; the pool then has the certificates of all blocks, each once. Anything else is refused, so
  that neither an empty declaration nor a pasted key or server certificate falls through to the
  system's roots.\<close>

theorem trust_anchor_exact:
  assumes "consuming L"
  shows "\<exists>bs r. pem_blocks L anchor bs \<and> serverTrustAnchor L anchor = Some r \<and>
    (is_ok r \<longleftrightarrow> bs \<noteq> [] \<and> (\<forall>i < length bs. authority_block L i (bs ! i))) \<and>
    (\<forall>pool. r = Inr pool \<longrightarrow> distinct (map cert_Raw pool) \<and>
      cert_Raw ` set pool = {cert_Raw c |c b. b \<in> set bs \<and> ParseCertificate L (snd b) = Inr c})"
proof -
  obtain bs where bs: "pem_blocks L anchor bs" using pem_blocks_exist [OF assms] by blast
  then have "serverTrustAnchor L anchor = Some (anchors_of L [] 0 bs)"
    by (simp add: serverTrustAnchor_def anchor_loop_blocks)
  then show ?thesis
    using bs anchors_of_ok [of L "[]" 0 bs] anchors_of_pool [of L "[]" 0 bs] by fastforce
qed

text \<open>A decoder for which every character is one block, typed by itself.\<close>

definition sample_pem :: pem_library where
  "sample_pem = \<lparr>pem_Decode = (\<lambda>t. case t of [] \<Rightarrow> None | c # cs \<Rightarrow> Some ((if c = CHR ''c'' then ''CERTIFICATE'' else ''KEY'', [c]), cs)),
     ParseCertificate = (\<lambda>b. Inr \<lparr>cert_Raw = b, IsCA = True, CommonName = b, NotAfter = 9\<rparr>), Now = int\<rparr>"

lemma sample_consuming: "consuming sample_pem"
  by (auto simp: consuming_def sample_pem_def split: list.splits)

theorem trust_anchor_exact_witness:
  "\<exists>r. serverTrustAnchor sample_pem ''cc'' = Some r \<and> is_ok r"
proof -
  from trust_anchor_exact [OF sample_consuming, of "''cc''"] obtain bs r where r: "pem_blocks sample_pem ''cc'' bs"
    "serverTrustAnchor sample_pem ''cc'' = Some r" "is_ok r \<longleftrightarrow> bs \<noteq> [] \<and> (\<forall>i < length bs. authority_block sample_pem i (bs ! i))"
    by blast
  have "pem_blocks sample_pem ''cc'' [(''CERTIFICATE'', ''c''), (''CERTIFICATE'', ''c'')]"
    by (rule next_block [of _ _ _ "''c''"], simp add: sample_pem_def, rule next_block [of _ _ _ "[]"], simp add: sample_pem_def,
      rule no_block, simp add: sample_pem_def)
  then have "bs = [(''CERTIFICATE'', ''c''), (''CERTIFICATE'', ''c'')]" using r(1) by (rule pem_blocks_unique)
  then show ?thesis using r by (simp add: authority_block_def sample_pem_def All_less_Suc)
qed

end
