(* ===== verification/Bootstrap.thy ===== *)
theory Bootstrap
  imports BootConnection TrustAnchor Reconcile
begin

text \<open>
  \<open>libs/go/bootstrap/run.go\<close>: the managed bootstrap job. It verifies the package, connects as the
  migration owner, takes the runtime-access lock, creates extensions, applies every lineage through the
  \<open>migrate\<close> executable and reconciles the runtime access in one transaction. The database, the child
  processes and the credential issuers are the environment; what the job does is recorded as a list of
  steps, in order, including the deferred cleanups. The connection strings are those of
  \<open>BootConnection\<close>, the pinned authority is read by \<open>TrustAnchor\<close>; a job whose certificate decoder
  never ends has no value.
\<close>

record child_process =
  child_program :: string
  child_args :: "string list"
  child_env :: "string list"

datatype boot_step =
    BootConnected
  | BootLocked
  | BootExtension string
  | BootChild string child_process
  | BootDrained string
  | BootBegan
  | BootReconciled
  | BootCommitted
  | BootRolledBack
  | BootConnectionClosed
  | BootStageRemoved

datatype run_error =
    BadBudgets
  | RelativeExecutable
  | ExecutableUnavailable
  | PackageError boot_error
  | ConnectionInvalid
  | AuthorityNotStaged
  | AuthorityConflict
  | IdentityError store_error
  | ConfigInvalid
  | AuthorityInvalid anchor_error
  | AuthorityWithoutTLS
  | ConnectionFailed
  | BindingMismatch
  | GroupUnverified
  | GroupElevated
  | PrincipalNotLogin
  | LockUnavailable
  | RequiredExtensionFailed
  | DeadlineReached
  | NilURL
  | CredentialFailed
  | CleanupUncertain
  | LineageFailed
  | CannotBeginAccess
  | AccessReconciliationFailed
  | AccessCommitFailed

record boot_result =
  res_PlanSHA256 :: string
  res_PlanDigest :: string
  res_CompletedLineages :: "string list"
  res_SkippedExtensions :: "string list"
  res_AccessCommitted :: bool

text \<open>
  The environment. \<open>provide\<close> is what an issued provider mints for a principal at its \<open>n\<close>-th call: the
  job's own connection makes the first, every lineage one more.
\<close>

record 'db boot_env =
  boot_cluster :: "'db cluster"
  boot_connector :: connector
  boot_pem :: pem_library
  executable :: "string \<Rightarrow> bool"
  boot_package :: schema_package
  boot_decode :: "string \<Rightarrow> (Plan \<times> bool) option"
  anchor_written :: bool
  issue_identity :: "string \<Rightarrow> (string, nat) result"
  provide :: "nat \<Rightarrow> nat \<Rightarrow> string \<Rightarrow> string option"
  boot_connect :: "ConnConfig \<Rightarrow> 'db \<Rightarrow> bool"
  current_identity :: "'db \<Rightarrow> (string \<times> string) option"
  take_lock :: "'db \<Rightarrow> bool"
  boot_extension :: "string \<Rightarrow> 'db \<Rightarrow> bool \<times> 'db"
  ctx_over :: "nat \<Rightarrow> bool"
  randomIdentity :: "nat \<Rightarrow> string"
  run_child :: "child_process \<Rightarrow> 'db \<Rightarrow> bool \<times> 'db"
  terminate_sessions :: "string \<Rightarrow> 'db \<Rightarrow> bool \<times> 'db"
  remaining_sessions :: "string \<Rightarrow> 'db \<Rightarrow> nat option"

definition ExternalIdentityProvider :: "(string \<Rightarrow> (string, nat) result) \<Rightarrow> string \<Rightarrow> (store_error, nat option) result" where
  "ExternalIdentityProvider issue declaration =
     (case rbind (apply_option (\<lambda>_. False) (WithExternalIdentity declaration) (default_config\<lparr>tenantSetting := [], userSetting := []\<rparr>))
             (resolveExternalIdentity issue) of
        Inl e \<Rightarrow> Inl e
      | Inr c \<Rightarrow> Inr (accessTokenProvider c))"

definition time_Millisecond :: int where "time_Millisecond = 1000000"
definition time_Hour :: int where "time_Hour = 3600 * time_Second"

definition budgets_ok :: "boot_options \<Rightarrow> bool" where
  "budgets_ok o' \<longleftrightarrow>
     time_Second \<le> opt_Timeout o' \<and> opt_Timeout o' \<le> time_Hour \<and>
     time_Millisecond \<le> opt_LockTimeout o' \<and> opt_LockTimeout o' \<le> opt_Timeout o' \<and>
     time_Millisecond \<le> opt_StatementTimeout o' \<and> opt_StatementTimeout o' \<le> opt_Timeout o'"

section \<open>Preflight\<close>

definition elevated :: "attributes \<Rightarrow> bool" where
  "elevated at \<longleftrightarrow> canLogin at \<or> superuser at \<or> createDB at \<or> createRole at \<or> replication at \<or> bypassRLS at"

fun check_groups :: "'db postgres \<Rightarrow> 'db \<Rightarrow> string list \<Rightarrow> run_error option" where
  "check_groups S d [] = None"
| "check_groups S d (g # gs) =
     (case RoleAttributes S g d of
        Inl e \<Rightarrow> Some GroupUnverified
      | Inr None \<Rightarrow> check_groups S d gs
      | Inr (Some at) \<Rightarrow> if elevated at then Some GroupElevated else check_groups S d gs)"

fun check_principals :: "'db postgres \<Rightarrow> 'db \<Rightarrow> string list \<Rightarrow> run_error option" where
  "check_principals S d [] = None"
| "check_principals S d (p # ps) =
     (case RoleAttributes S p d of
        Inr (Some at) \<Rightarrow> if canLogin at then check_principals S d ps else Some PrincipalNotLogin
      | _ \<Rightarrow> Some PrincipalNotLogin)"

definition preflight :: "'db postgres \<Rightarrow> 'db \<Rightarrow> Plan \<Rightarrow> Binding \<Rightarrow> run_error option" where
  "preflight S d p b =
     (case check_groups S d [access_ReadOnlyRole (plan_Access p), access_ReadWriteRole (plan_Access p)] of
        Some e \<Rightarrow> Some e
      | None \<Rightarrow> check_principals S d (bind_ReadOnlyPrincipals b @ bind_ReadWritePrincipals b))"

section \<open>Extensions and lineages\<close>

fun boot_extensions :: "'db boot_env \<Rightarrow> (string \<times> bool) list \<Rightarrow> 'db \<Rightarrow> run_error option \<times> string list \<times> 'db \<times> boot_step list" where
  "boot_extensions E [] d = (None, [], d, [])"
| "boot_extensions E ((name, required) # es) d =
     (case boot_extension E name d of
        (True, d1) \<Rightarrow> (case boot_extensions E es d1 of (r, sk, d2, tr) \<Rightarrow> (r, sk, d2, BootExtension name # tr))
      | (False, d1) \<Rightarrow>
          if required then (Some RequiredExtensionFailed, [], d1, [BootExtension name])
          else (case boot_extensions E es d1 of (r, sk, d2, tr) \<Rightarrow> (r, name # sk, d2, BootExtension name # tr)))"

definition drainChild :: "'db boot_env \<Rightarrow> string \<Rightarrow> 'db \<Rightarrow> bool \<times> 'db" where
  "drainChild E app d =
     (case terminate_sessions E app d of
        (False, d1) \<Rightarrow> (False, d1)
      | (True, d1) \<Rightarrow> (remaining_sessions E app d1 = Some 0, d1))"

definition lineage_child :: "'db boot_env \<Rightarrow> boot_options \<Rightarrow> string \<Rightarrow> string \<Rightarrow> string \<Rightarrow> string option \<Rightarrow> plan_Lineage \<Rightarrow> child_process option" where
  "lineage_child E o' dsn stagedDir app token l =
     map_option (\<lambda>database.
       \<lparr>child_program = opt_MigrateExecutable o',
        child_args = [''-path'', path_Join [stagedDir, lineage_Stage l], ''-database'', database, ''up''],
        child_env = ''PGPASSFILE=/dev/null'' # (case token of None \<Rightarrow> [] | Some t \<Rightarrow> [''PGPASSWORD='' @ t])\<rparr>)
       (child_dsn (boot_connector E) dsn (lineage_Ledger l) app)"

definition application_name :: "'db boot_env \<Rightarrow> nat \<Rightarrow> string" where
  "application_name E n = ''codefly-bootstrap-'' @ EncodeToString (randomIdentity E n)"

definition lineage_token :: "'db boot_env \<Rightarrow> nat option \<Rightarrow> Binding \<Rightarrow> nat \<Rightarrow> string option option" where
  "lineage_token E credential b n =
     (case credential of None \<Rightarrow> Some None | Some provider \<Rightarrow> map_option Some (provide E provider (Suc n) (bind_OwnerRole b)))"

fun boot_lineages :: "'db boot_env \<Rightarrow> boot_options \<Rightarrow> Binding \<Rightarrow> nat option \<Rightarrow> string \<Rightarrow> string \<Rightarrow> nat \<Rightarrow> plan_Lineage list \<Rightarrow> 'db
    \<Rightarrow> run_error option \<times> string list \<times> 'db \<times> boot_step list" where
  "boot_lineages E o' b credential dsn stagedDir n [] d = (None, [], d, [])"
| "boot_lineages E o' b credential dsn stagedDir n (l # ls) d =
     (if ctx_over E n then (Some DeadlineReached, [], d, [])
      else if net_Parse (boot_connector E) dsn = None then (Some NilURL, [], d, [])
      else case lineage_token E credential b n of
        None \<Rightarrow> (Some CredentialFailed, [], d, [])
      | Some token \<Rightarrow>
          (case lineage_child E o' dsn stagedDir (application_name E n) token l of
             None \<Rightarrow> (Some NilURL, [], d, [])
           | Some child \<Rightarrow>
               (case run_child E child d of
                  (succeeded, d1) \<Rightarrow>
                    (case drainChild E (application_name E n) d1 of
                       (False, d2) \<Rightarrow> (Some CleanupUncertain, [], d2, [BootChild (lineage_Label l) child])
                     | (True, d2) \<Rightarrow>
                         if \<not> succeeded then (Some LineageFailed, [], d2, [BootChild (lineage_Label l) child, BootDrained (application_name E n)])
                         else case boot_lineages E o' b credential dsn stagedDir (Suc n) ls d2 of
                           (r, completed, d3, tr) \<Rightarrow>
                             (r, lineage_Label l # completed, d3, BootChild (lineage_Label l) child # BootDrained (application_name E n) # tr)))))"

section \<open>The access transaction\<close>

definition boot_access :: "Plan \<Rightarrow> Binding \<Rightarrow> RuntimeAccess" where
  "boot_access p b =
     \<lparr>Database = plan_Database p, OwnerRole = bind_OwnerRole b, ReadOnlyRole = access_ReadOnlyRole (plan_Access p),
      ReadWriteRole = access_ReadWriteRole (plan_Access p), Schemas = access_Schemas (plan_Access p),
      ReadWriteRoles = access_ReadWriteRoles (plan_Access p), ReadOnlyRoles = access_ReadOnlyRoles (plan_Access p),
      ReconcileReadOnlyRoleMemberships = (plan_ContractVersion p = ReaderRolesContractVersion),
      ReconcileReadWriteRoleMemberships = True, access_AuthMode = AuthModeExternalIdentity,
      ReadOnlyPrincipals = bind_ReadOnlyPrincipals b, ReadWritePrincipals = bind_ReadWritePrincipals b\<rparr>"

definition access_transition :: "'db boot_env \<Rightarrow> Plan \<Rightarrow> Binding \<Rightarrow> 'db \<Rightarrow> run_error option \<times> 'db \<times> boot_step list" where
  "access_transition E p b d =
     (let K = boot_cluster E in
      case cluster.BeginTx K d of
        Some e \<Rightarrow> (Some CannotBeginAccess, d, [])
      | None \<Rightarrow>
          (case preflight (server K) d p b of
             Some e \<Rightarrow> (Some e, d, [BootBegan, BootRolledBack])
           | None \<Rightarrow>
               (case ReconcileRuntimeAccess (server K) (Some ()) (Some \<lparr>db = d, issued = []\<rparr>) (boot_access p b) of
                  (Some e, _) \<Rightarrow> (Some AccessReconciliationFailed, d, [BootBegan, BootRolledBack])
                | (None, None) \<Rightarrow> (Some AccessReconciliationFailed, d, [BootBegan, BootRolledBack])
                | (None, Some t) \<Rightarrow>
                    (case cluster.Commit K t of
                       (Some e, d') \<Rightarrow> (Some AccessCommitFailed, d', [BootBegan, BootReconciled, BootRolledBack])
                     | (None, d') \<Rightarrow> (None, d', [BootBegan, BootReconciled, BootCommitted])))))"

section \<open>The job\<close>

definition no_result :: boot_result where
  "no_result = \<lparr>res_PlanSHA256 = [], res_PlanDigest = [], res_CompletedLineages = [], res_SkippedExtensions = [], res_AccessCommitted = False\<rparr>"

text \<open>From the lock on; the caller closes the connection and removes the staged copy afterwards.\<close>

definition locked_run :: "'db boot_env \<Rightarrow> boot_options \<Rightarrow> Binding \<Rightarrow> Plan \<Rightarrow> nat option \<Rightarrow> string \<Rightarrow> string \<Rightarrow> 'db
    \<Rightarrow> run_error option \<times> boot_result \<times> 'db \<times> boot_step list" where
  "locked_run E o' b p credential dsn stagedDir d =
     (let r0 = no_result\<lparr>res_PlanDigest := plan_Digest p, res_PlanSHA256 := bind_PlanSHA256 b\<rparr> in
      case boot_extensions E (plan_Extensions p) d of
        (Some e, sk, d1, tr) \<Rightarrow> (Some e, r0\<lparr>res_SkippedExtensions := sk\<rparr>, d1, tr)
      | (None, sk, d1, tr) \<Rightarrow>
          (let r1 = r0\<lparr>res_SkippedExtensions := sk\<rparr> in
           case boot_lineages E o' b credential dsn stagedDir 0 (plan_Lineages p) d1 of
             (Some e, done', d2, tr2) \<Rightarrow> (Some e, r1\<lparr>res_CompletedLineages := done'\<rparr>, d2, tr @ tr2)
           | (None, done', d2, tr2) \<Rightarrow>
               (let r2 = r1\<lparr>res_CompletedLineages := done'\<rparr> in
                case access_transition E p b d2 of
                  (Some e, d3, tr3) \<Rightarrow> (Some e, r2, d3, tr @ tr2 @ tr3)
                | (None, d3, tr3) \<Rightarrow> (None, r2\<lparr>res_AccessCommitted := True\<rparr>, d3, tr @ tr2 @ tr3))))"

definition connected_run :: "'db boot_env \<Rightarrow> boot_options \<Rightarrow> Binding \<Rightarrow> Plan \<Rightarrow> nat option \<Rightarrow> string \<Rightarrow> string \<Rightarrow> 'db
    \<Rightarrow> run_error option \<times> boot_result \<times> 'db \<times> boot_step list" where
  "connected_run E o' b p credential dsn stagedDir d =
     (case (if current_identity E d \<noteq> Some (plan_Database p, bind_OwnerRole b) then Some BindingMismatch
            else case preflight (server (boot_cluster E)) d p b of
              Some e \<Rightarrow> Some e
            | None \<Rightarrow> if take_lock E d then None else Some LockUnavailable) of
        Some e \<Rightarrow> (Some e, no_result, d, [BootConnected, BootConnectionClosed])
      | None \<Rightarrow>
          (case locked_run E o' b p credential dsn stagedDir d of
             (e, r, d', tr) \<Rightarrow> (e, r, d', [BootConnected, BootLocked] @ tr @ [BootConnectionClosed])))"

text \<open>What is settled between the snapshot and the connection: the string, the credential and the configuration with its pinned authority.\<close>

definition anchored_dsn :: "'db boot_env \<Rightarrow> boot_options \<Rightarrow> Binding \<Rightarrow> Plan \<Rightarrow> string \<Rightarrow> (run_error, string) result" where
  "anchored_dsn E o' b p stagedDir =
     (case managed_connection (boot_connector E) o' b p of
        None \<Rightarrow> Inl ConnectionInvalid
      | Some dsn \<Rightarrow>
          if opt_ServerTrustAnchorPEM o' = [] then Inr dsn
          else if \<not> anchor_written E then Inl AuthorityNotStaged
          else case withAnchorFile (boot_connector E) dsn (path_Join [stagedDir, ''server-authority.pem'']) of
            None \<Rightarrow> Inl AuthorityConflict
          | Some dsn' \<Rightarrow> Inr dsn')"

definition boot_credential :: "'db boot_env \<Rightarrow> boot_options \<Rightarrow> (run_error, nat option) result" where
  "boot_credential E o' =
     (if opt_ExternalIdentity o' = [] then Inr None
      else case ExternalIdentityProvider (issue_identity E) (opt_ExternalIdentity o') of
        Inl e \<Rightarrow> Inl (IdentityError e)
      | Inr provider \<Rightarrow> Inr provider)"

definition pinned_config :: "'db boot_env \<Rightarrow> boot_options \<Rightarrow> ConnConfig \<Rightarrow> (run_error, ConnConfig) result option" where
  "pinned_config E o' cfg =
     (if opt_ServerTrustAnchorPEM o' = [] then Some (Inr cfg)
      else case serverTrustAnchor (boot_pem E) (opt_ServerTrustAnchorPEM o') of
        None \<Rightarrow> None
      | Some (Inl e) \<Rightarrow> Some (Inl (AuthorityInvalid e))
      | Some (Inr pool) \<Rightarrow>
          (case TLSConfig cfg of
             None \<Rightarrow> Some (Inl AuthorityWithoutTLS)
           | Some tls \<Rightarrow> Some (Inr (cfg\<lparr>TLSConfig := Some (tls\<lparr>RootCAs := Some (opt_ServerTrustAnchorPEM o')\<rparr>)\<rparr>))))"

definition boot_target :: "'db boot_env \<Rightarrow> boot_options \<Rightarrow> Binding \<Rightarrow> Plan \<Rightarrow> string
    \<Rightarrow> (run_error, string \<times> nat option \<times> ConnConfig) result option" where
  "boot_target E o' b p stagedDir =
     (case anchored_dsn E o' b p stagedDir of
        Inl e \<Rightarrow> Some (Inl e)
      | Inr dsn \<Rightarrow>
          (case boot_credential E o' of
             Inl e \<Rightarrow> Some (Inl e)
           | Inr credential \<Rightarrow>
               (case managedConfig (boot_connector E) dsn o' of
                  None \<Rightarrow> Some (Inl ConfigInvalid)
                | Some cfg \<Rightarrow>
                    map_option (\<lambda>r. case r of Inl e \<Rightarrow> Inl e | Inr cfg' \<Rightarrow> Inr (dsn, credential, cfg')) (pinned_config E o' cfg))))"

text \<open>The hook of \<open>OpenDB\<close> sets the password of a new connection to the minted token.\<close>

definition credentialed :: "'db boot_env \<Rightarrow> nat option \<Rightarrow> ConnConfig \<Rightarrow> ConnConfig option" where
  "credentialed E credential cfg =
     (case credential of
        None \<Rightarrow> Some cfg
      | Some provider \<Rightarrow> map_option (\<lambda>token. cfg\<lparr>conn_Password := token\<rparr>) (provide E provider 0 (conn_User cfg)))"

definition boot_connected :: "'db boot_env \<Rightarrow> nat option \<Rightarrow> ConnConfig \<Rightarrow> 'db \<Rightarrow> bool" where
  "boot_connected E credential cfg d = (case credentialed E credential cfg of None \<Rightarrow> False | Some c \<Rightarrow> boot_connect E c d)"

definition Run :: "platform \<Rightarrow> 'db boot_env \<Rightarrow> boot_options \<Rightarrow> Binding \<Rightarrow> 'db
    \<Rightarrow> (run_error option \<times> boot_result \<times> 'db \<times> boot_step list) option" where
  "Run P E o' b d =
     (if \<not> budgets_ok o' then Some (Some BadBudgets, no_result, d, [])
      else if \<not> IsAbs (opt_MigrateExecutable o') then Some (Some RelativeExecutable, no_result, d, [])
      else if \<not> executable E (opt_MigrateExecutable o') then Some (Some ExecutableUnavailable, no_result, d, [])
      else case fst (snapshot P (boot_decode E) (boot_package E) b) of
        Inl e \<Rightarrow> Some (Some (PackageError e), no_result, d, [])
      | Inr (p, stagedDir, files) \<Rightarrow>
          map_option (\<lambda>target. case target of
              Inl e \<Rightarrow> (Some e, no_result, d, [BootStageRemoved])
            | Inr (dsn, credential, cfg) \<Rightarrow>
                if \<not> boot_connected E credential cfg d then (Some ConnectionFailed, no_result, d, [BootStageRemoved])
                else case connected_run E o' b p credential dsn stagedDir d of
                  (e, r, d', tr) \<Rightarrow> (e, r, d', tr @ [BootStageRemoved]))
            (boot_target E o' b p stagedDir))"

section \<open>What the job has done\<close>

text \<open>The steps that one lineage leaves: its child, then the drained sessions of that child.\<close>

definition ran_lineage :: "plan_Lineage \<times> child_process \<times> string \<Rightarrow> boot_step list" where
  "ran_lineage x = [BootChild (lineage_Label (fst x)) (fst (snd x)), BootDrained (snd (snd x))]"

text \<open>The child is the one of its lineage, for some token.\<close>

definition child_of :: "'db boot_env \<Rightarrow> boot_options \<Rightarrow> string \<Rightarrow> string \<Rightarrow> plan_Lineage \<Rightarrow> child_process \<Rightarrow> bool" where
  "child_of E o' dsn dir l child \<longleftrightarrow> (\<exists>n token. lineage_child E o' dsn dir (application_name E n) token l = Some child)"

definition access_traces :: "boot_step list set" where
  "access_traces = {[], [BootBegan, BootRolledBack], [BootBegan, BootReconciled, BootRolledBack], [BootBegan, BootReconciled, BootCommitted]}"

lemma boot_extensions_trace:
  "boot_extensions E es d = (r, sk, d', tr) \<Longrightarrow>
     prefix tr (map (\<lambda>e. BootExtension (fst e)) es) \<and> (r = None \<longrightarrow> tr = map (\<lambda>e. BootExtension (fst e)) es) \<and>
     set sk \<subseteq> fst ` {e \<in> set es. \<not> snd e}"
proof (induction es arbitrary: d r sk d' tr)
  case (Cons e es)
  obtain name required where e: "e = (name, required)" by (cases e)
  obtain ok d1 where x: "boot_extension E name d = (ok, d1)" by fastforce
  obtain r1 sk1 d2 tr1 where y: "boot_extensions E es d1 = (r1, sk1, d2, tr1)" by (metis prod_cases4)
  have step: "set sk \<subseteq> set sk1 \<union> (if required then {} else {name})" "prefix tr (BootExtension name # tr1)"
    "r = None \<longrightarrow> r1 = None \<and> tr = BootExtension name # tr1"
    using Cons.prems by (auto simp: e x y split: if_splits bool.splits)
  have "(if required then {} else {name}) \<subseteq> fst ` {x \<in> set (e # es). \<not> snd x}" "set sk1 \<subseteq> fst ` {x \<in> set (e # es). \<not> snd x}"
    using Cons.IH [OF y] by (auto simp: e image_iff)
  then have "set sk \<subseteq> fst ` {x \<in> set (e # es). \<not> snd x}" using step(1) by blast
  moreover have "prefix tr (map (\<lambda>e. BootExtension (fst e)) (e # es))"
    using step(2) Cons.IH [OF y] by (auto simp: e intro: prefix_order.trans)
  ultimately show ?case using step(3) Cons.IH [OF y] by (simp add: e)
qed simp

text \<open>A run over the lineages: the pairs of a prefix of them, and at most one child that was not drained.\<close>

definition lineage_run :: "'db boot_env \<Rightarrow> boot_options \<Rightarrow> string \<Rightarrow> string \<Rightarrow> plan_Lineage list \<Rightarrow> run_error option \<Rightarrow> string list \<Rightarrow> boot_step list \<Rightarrow> bool" where
  "lineage_run E o' dsn dir ls r completed tr \<longleftrightarrow>
     (\<exists>xs rest. tr = concat (map ran_lineage xs) @ rest \<and> prefix (map fst xs) ls \<and>
        list_all (\<lambda>x. child_of E o' dsn dir (fst x) (fst (snd x))) xs \<and>
        prefix completed (map (lineage_Label \<circ> fst) xs) \<and> length xs \<le> Suc (length completed) \<and>
        (rest = [] \<or> r = Some CleanupUncertain \<and> length completed = length xs \<and>
          (\<exists>l child. rest = [BootChild (lineage_Label l) child] \<and> child_of E o' dsn dir l child \<and> prefix (map fst xs @ [l]) ls)) \<and>
        (r = None \<longrightarrow> rest = [] \<and> map fst xs = ls \<and> completed = map lineage_Label ls) \<and>
        (length xs = Suc (length completed) \<longrightarrow> r = Some LineageFailed))"

lemma lineage_run_none: "r \<noteq> None \<Longrightarrow> lineage_run E o' dsn dir ls r [] []"
  unfolding lineage_run_def by (intro exI [of _ "[]"]) auto

lemma lineage_run_step:
  assumes "lineage_run E o' dsn dir ls r completed tr" "child_of E o' dsn dir l child"
  shows "lineage_run E o' dsn dir (l # ls) r (lineage_Label l # completed) (BootChild (lineage_Label l) child # BootDrained a # tr)"
proof -
  from assms(1) obtain xs rest where x: "tr = concat (map ran_lineage xs) @ rest" "prefix (map fst xs) ls"
    "list_all (\<lambda>x. child_of E o' dsn dir (fst x) (fst (snd x))) xs" "prefix completed (map (lineage_Label \<circ> fst) xs)" "length xs \<le> Suc (length completed)"
    "rest = [] \<or> r = Some CleanupUncertain \<and> length completed = length xs \<and>
      (\<exists>l child. rest = [BootChild (lineage_Label l) child] \<and> child_of E o' dsn dir l child \<and> prefix (map fst xs @ [l]) ls)"
    "r = None \<longrightarrow> rest = [] \<and> map fst xs = ls \<and> completed = map lineage_Label ls" "length xs = Suc (length completed) \<longrightarrow> r = Some LineageFailed"
    unfolding lineage_run_def by blast
  show ?thesis
    unfolding lineage_run_def
  proof (intro exI [of _ "(l, child, a) # xs"] exI [of _ rest] conjI)
    show "rest = [] \<or> r = Some CleanupUncertain \<and> length (lineage_Label l # completed) = length ((l, child, a) # xs) \<and>
      (\<exists>l' child'. rest = [BootChild (lineage_Label l') child'] \<and> child_of E o' dsn dir l' child' \<and> prefix (map fst ((l, child, a) # xs) @ [l']) (l # ls))"
      using x(6) by auto
    show "r = None \<longrightarrow> rest = [] \<and> map fst ((l, child, a) # xs) = l # ls \<and> lineage_Label l # completed = map lineage_Label (l # ls)"
      using x(7) by auto
    show "list_all (\<lambda>x. child_of E o' dsn dir (fst x) (fst (snd x))) ((l, child, a) # xs)" using x(3) assms(2) by simp
  qed (simp_all add: ran_lineage_def x(1,2,4,5,8))
qed

lemma boot_lineages_trace:
  "boot_lineages E o' b credential dsn dir n ls d = (r, completed, d', tr) \<Longrightarrow> lineage_run E o' dsn dir ls r completed tr"
proof (induction ls arbitrary: n d r completed d' tr)
  case Nil
  then show ?case by (auto simp: lineage_run_def intro: exI [of _ "[]"])
next
  case (Cons l ls)
  show ?case
  proof (cases "ctx_over E n \<or> net_Parse (boot_connector E) dsn = None \<or> lineage_token E credential b n = None")
    case True
    then have "completed = [] \<and> tr = [] \<and> r \<noteq> None" using Cons.prems by (auto split: if_splits option.splits)
    then show ?thesis by (simp add: lineage_run_none)
  next
    case False
    then obtain token where tok: "lineage_token E credential b n = Some token" by blast
    from False obtain child where child: "lineage_child E o' dsn dir (application_name E n) token l = Some child"
      by (auto simp: lineage_child_def child_dsn_def)
    then have of_l: "child_of E o' dsn dir l child" by (auto simp: child_of_def)
    obtain ok d1 where c: "run_child E child d = (ok, d1)" by fastforce
    obtain dr d2 where dr: "drainChild E (application_name E n) d1 = (dr, d2)" by fastforce
    obtain r1 cm d3 tr1 where y: "boot_lineages E o' b credential dsn dir (Suc n) ls d2 = (r1, cm, d3, tr1)" by (metis prod_cases4)
    note run = Cons.prems [simplified boot_lineages.simps tok option.case child c dr y prod.case]
    let ?pair = "[BootChild (lineage_Label l) child, BootDrained (application_name E n)]"
    consider (ok) "dr \<and> ok" | (failed) "dr \<and> \<not> ok" | (uncertain) "\<not> dr" by blast
    then show ?thesis
    proof cases
      case ok
      then have "r = r1" "completed = lineage_Label l # cm" "tr = ?pair @ tr1" using run False by auto
      then show ?thesis using lineage_run_step [OF Cons.IH [OF y] of_l] by simp
    next
      case failed
      then have "r = Some LineageFailed" "completed = []" "tr = ?pair" using run False by auto
      then show ?thesis
        using of_l unfolding lineage_run_def
        by (intro exI [of _ "[(l, child, application_name E n)]"] exI [of _ "[]"]) (simp add: ran_lineage_def)
    next
      case uncertain
      then have "r = Some CleanupUncertain" "completed = []" "tr = [BootChild (lineage_Label l) child]" using run False by auto
      then show ?thesis
        using of_l unfolding lineage_run_def by (intro exI [of _ "[]"] exI [of _ "[BootChild (lineage_Label l) child]"]) auto
    qed
  qed
qed

lemma access_transition_trace:
  assumes "access_transition E p b d = (e, d', tr)"
  shows "tr \<in> access_traces" "e = None \<longleftrightarrow> BootCommitted \<in> set tr"
    "e = None \<Longrightarrow> preflight (server (boot_cluster E)) d p b = None"
  using assms by (auto simp: access_transition_def access_traces_def Let_def split: option.splits prod.splits)

text \<open>What the steps between the lock and the end of the connection look like.\<close>

definition job_trace :: "'db boot_env \<Rightarrow> boot_options \<Rightarrow> Plan \<Rightarrow> string \<Rightarrow> string \<Rightarrow> boot_result \<Rightarrow> boot_step list \<Rightarrow> boot_step list \<Rightarrow> bool" where
  "job_trace E o' p dsn dir r tr acc \<longleftrightarrow>
     (\<exists>ext lin lr. tr = ext @ lin @ acc \<and> acc \<in> access_traces \<and>
        prefix ext (map (\<lambda>x. BootExtension (fst x)) (plan_Extensions p)) \<and>
        (lin @ acc \<noteq> [] \<longrightarrow> ext = map (\<lambda>x. BootExtension (fst x)) (plan_Extensions p)) \<and>
        set (res_SkippedExtensions r) \<subseteq> fst ` {x \<in> set (plan_Extensions p). \<not> snd x} \<and>
        lineage_run E o' dsn dir (plan_Lineages p) lr (res_CompletedLineages r) lin \<and>
        (acc \<noteq> [] \<longrightarrow> lr = None))"

lemma job_traceI:
  assumes "tr = ext @ lin @ acc" "acc \<in> access_traces" "prefix ext (map (\<lambda>x. BootExtension (fst x)) (plan_Extensions p))"
    "lin @ acc \<noteq> [] \<Longrightarrow> ext = map (\<lambda>x. BootExtension (fst x)) (plan_Extensions p)"
    "set (res_SkippedExtensions r) \<subseteq> fst ` {x \<in> set (plan_Extensions p). \<not> snd x}"
    "lineage_run E o' dsn dir (plan_Lineages p) lr (res_CompletedLineages r) lin" "acc \<noteq> [] \<Longrightarrow> lr = None"
  shows "job_trace E o' p dsn dir r tr acc"
  unfolding job_trace_def using assms by blast

lemma child_step_no_commit: "lineage_run E o' dsn dir ls lr cm lin \<Longrightarrow> BootCommitted \<notin> set lin"
  by (auto simp: lineage_run_def ran_lineage_def)

lemma extension_no_commit: "prefix ext (map (\<lambda>x. BootExtension (fst x)) es) \<Longrightarrow> BootCommitted \<notin> set ext"
  using set_mono_prefix by fastforce

lemma locked_run_trace:
  assumes "locked_run E o' b p credential dsn dir d = (e, r, d', tr)"
  shows "\<exists>acc. job_trace E o' p dsn dir r tr acc \<and> (e = None \<longleftrightarrow> BootCommitted \<in> set acc) \<and> (e = None \<longleftrightarrow> res_AccessCommitted r) \<and>
    res_PlanDigest r = plan_Digest p \<and> res_PlanSHA256 r = bind_PlanSHA256 b \<and>
    (e = None \<longrightarrow> (\<exists>dm. access_transition E p b dm = (None, d', acc) \<and> preflight (server (boot_cluster E)) dm p b = None))"
proof -
  obtain r1 sk d1 tr1 where x: "boot_extensions E (plan_Extensions p) d = (r1, sk, d1, tr1)" by (metis prod_cases4)
  obtain r2 cm d2 tr2 where l: "boot_lineages E o' b credential dsn dir 0 (plan_Lineages p) d1 = (r2, cm, d2, tr2)" by (metis prod_cases4)
  obtain r3 d3 tr3 where a: "access_transition E p b d2 = (r3, d3, tr3)" by (metis prod_cases3)
  note ext = boot_extensions_trace [OF x] and lin = boot_lineages_trace [OF l] and acc = access_transition_trace [OF a]
  consider (ext) e1 where "r1 = Some e1" | (lin) e2 where "r1 = None" "r2 = Some e2" | (acc) "r1 = None" "r2 = None" by fastforce
  then show ?thesis
  proof cases
    case ext
    then have "tr = tr1" "e = Some e1" "res_SkippedExtensions r = sk" "res_CompletedLineages r = []" "\<not> res_AccessCommitted r"
      "res_PlanDigest r = plan_Digest p" "res_PlanSHA256 r = bind_PlanSHA256 b"
      using assms by (auto simp: locked_run_def Let_def x no_result_def)
    moreover have "job_trace E o' p dsn dir r tr []"
      using calculation boot_extensions_trace [OF x] lineage_run_none [of "Some e1" E o' dsn dir "plan_Lineages p"]
      by (intro job_traceI [of tr tr1 "[]" "[]"]) (simp_all add: access_traces_def)
    ultimately show ?thesis by (intro exI [of _ "[]"]) simp
  next
    case lin
    then have "tr = tr1 @ tr2" "e = Some e2" "res_SkippedExtensions r = sk" "res_CompletedLineages r = cm" "\<not> res_AccessCommitted r"
      "res_PlanDigest r = plan_Digest p" "res_PlanSHA256 r = bind_PlanSHA256 b"
      using assms by (auto simp: locked_run_def Let_def x l no_result_def)
    moreover have "job_trace E o' p dsn dir r tr []"
      using calculation ext boot_lineages_trace [OF l] lin
      by (intro job_traceI [of tr tr1 tr2 "[]"]) (simp_all add: access_traces_def)
    ultimately show ?thesis by (intro exI [of _ "[]"]) simp
  next
    case acc
    then have "tr = tr1 @ tr2 @ tr3" "e = r3" "d' = d3" "res_SkippedExtensions r = sk" "res_CompletedLineages r = cm"
      "res_AccessCommitted r \<longleftrightarrow> r3 = None" "res_PlanDigest r = plan_Digest p" "res_PlanSHA256 r = bind_PlanSHA256 b"
      using assms by (auto simp: locked_run_def Let_def x l a no_result_def split: option.splits)
    moreover have "job_trace E o' p dsn dir r tr tr3"
      using calculation ext lin acc access_transition_trace(1) [OF a]
      by (intro job_traceI [of tr tr1 tr2 tr3]) simp_all
    ultimately show ?thesis using access_transition_trace [OF a] a by metis
  qed
qed

lemma access_traces_kinds: "acc \<in> access_traces \<Longrightarrow> BootChild name child \<notin> set acc"
  by (auto simp: access_traces_def)

lemma job_trace_commit:
  assumes "job_trace E o' p dsn dir r tr acc"
  shows "BootCommitted \<in> set tr \<longleftrightarrow> BootCommitted \<in> set acc"
    "BootCommitted \<in> set acc \<Longrightarrow> res_CompletedLineages r = map lineage_Label (plan_Lineages p)"
proof -
  from assms obtain ext lin lr where x: "tr = ext @ lin @ acc" "prefix ext (map (\<lambda>x. BootExtension (fst x)) (plan_Extensions p))"
    "lineage_run E o' dsn dir (plan_Lineages p) lr (res_CompletedLineages r) lin" "acc \<noteq> [] \<longrightarrow> lr = None"
    unfolding job_trace_def by blast
  show "BootCommitted \<in> set tr \<longleftrightarrow> BootCommitted \<in> set acc"
    using x(1) child_step_no_commit [OF x(3)] extension_no_commit [OF x(2)] by simp
  show "res_CompletedLineages r = map lineage_Label (plan_Lineages p)" if "BootCommitted \<in> set acc"
  proof -
    have "lr = None" using x(4) that by auto
    then show ?thesis using x(3) unfolding lineage_run_def by blast
  qed
qed

lemma lineage_run_child:
  assumes "lineage_run E o' dsn dir ls lr cm lin" "BootChild name child \<in> set lin"
  shows "\<exists>l \<in> set ls. name = lineage_Label l \<and> child_of E o' dsn dir l child"
proof -
  from assms(1) obtain xs rest where x: "lin = concat (map ran_lineage xs) @ rest" "prefix (map fst xs) ls"
    "list_all (\<lambda>x. child_of E o' dsn dir (fst x) (fst (snd x))) xs"
    "rest = [] \<or> (\<exists>l child. rest = [BootChild (lineage_Label l) child] \<and> child_of E o' dsn dir l child \<and> prefix (map fst xs @ [l]) ls)"
    unfolding lineage_run_def by blast
  have in_ls: "fst x \<in> set ls" if "x \<in> set xs" for x using set_mono_prefix [OF x(2)] that by auto
  consider y where "y \<in> set xs" "name = lineage_Label (fst y)" "child = fst (snd y)" | "BootChild name child \<in> set rest"
    using assms(2) x(1) by (auto simp: ran_lineage_def)
  then show ?thesis
  proof cases
    case 1 then show ?thesis using in_ls [OF 1(1)] x(3) unfolding list_all_iff by blast
  next
    case 2
    then obtain l where l: "name = lineage_Label l" "child_of E o' dsn dir l child" "prefix (map fst xs @ [l]) ls" using x(4) by auto
    then show ?thesis using set_mono_prefix [OF l(3)] by auto
  qed
qed

lemma job_trace_child:
  assumes "job_trace E o' p dsn dir r tr acc" "BootChild name child \<in> set tr"
  shows "\<exists>l \<in> set (plan_Lineages p). name = lineage_Label l \<and> child_of E o' dsn dir l child"
proof -
  from assms(1) obtain ext lin lr where x: "tr = ext @ lin @ acc" "prefix ext (map (\<lambda>x. BootExtension (fst x)) (plan_Extensions p))"
    "lineage_run E o' dsn dir (plan_Lineages p) lr (res_CompletedLineages r) lin" "acc \<in> access_traces"
    unfolding job_trace_def by blast
  have "BootChild name child \<notin> set ext" using set_mono_prefix [OF x(2)] by auto
  then show ?thesis using assms(2) x(1) access_traces_kinds [OF x(4)] lineage_run_child [OF x(3)] by auto
qed

lemma target_string:
  assumes "boot_target E o' b p dir = Some (Inr (dsn, credential, cfg))"
  shows "\<exists>dsn0. managed_connection (boot_connector E) o' b p = Some dsn0 \<and>
    (dsn = dsn0 \<or> withAnchorFile (boot_connector E) dsn0 (path_Join [dir, ''server-authority.pem'']) = Some dsn)"
proof -
  have "anchored_dsn E o' b p dir = Inr dsn"
    using assms by (auto simp: boot_target_def split: sum.splits option.splits) (metis sumE)
  then show ?thesis by (auto simp: anchored_dsn_def split: option.splits if_splits)
qed

lemma Run_target:
  assumes "Run P E o' b d = Some (e, r, d', tr)"
  shows "(e \<noteq> None \<and> \<not> res_AccessCommitted r \<and> d' = d \<and>
      tr \<in> {[], [BootStageRemoved], [BootConnected, BootConnectionClosed, BootStageRemoved]}) \<or>
    (\<exists>p dir files dsn credential cfg tr1. fst (snapshot P (boot_decode E) (boot_package E) b) = Inr (p, dir, files) \<and>
      boot_target E o' b p dir = Some (Inr (dsn, credential, cfg)) \<and> boot_connected E credential cfg d \<and> take_lock E d \<and>
      current_identity E d = Some (plan_Database p, bind_OwnerRole b) \<and> preflight (server (boot_cluster E)) d p b = None \<and>
      locked_run E o' b p credential dsn dir d = (e, r, d', tr1) \<and>
      tr = [BootConnected, BootLocked] @ tr1 @ [BootConnectionClosed, BootStageRemoved])"
proof -
  consider "tr = []" "e \<noteq> None" "d' = d" "r = no_result"
    | p dir files target where "fst (snapshot P (boot_decode E) (boot_package E) b) = Inr (p, dir, files)"
        "boot_target E o' b p dir = Some target" "(e, r, d', tr) = (case target of
              Inl e \<Rightarrow> (Some e, no_result, d, [BootStageRemoved])
            | Inr (dsn, credential, cfg) \<Rightarrow>
                if \<not> boot_connected E credential cfg d then (Some ConnectionFailed, no_result, d, [BootStageRemoved])
                else case connected_run E o' b p credential dsn dir d of
                  (e, r, d', tr) \<Rightarrow> (e, r, d', tr @ [BootStageRemoved]))"
    using assms by (auto simp: Run_def split: if_splits sum.splits)
  then show ?thesis
  proof cases
    case 1 then show ?thesis by (simp add: no_result_def)
  next
    case (2 p dir files target)
    show ?thesis
    proof (cases "\<exists>dsn credential cfg. target = Inr (dsn, credential, cfg) \<and> boot_connected E credential cfg d")
      case False
      then have "e \<noteq> None \<and> r = no_result \<and> d' = d \<and> tr = [BootStageRemoved]" using 2(3) by (auto split: sum.splits if_splits)
      then show ?thesis by (simp add: no_result_def)
    next
      case True
      then obtain dsn credential cfg where t: "target = Inr (dsn, credential, cfg)" "boot_connected E credential cfg d" by blast
      obtain e1 r1 d1 tr1 where l: "locked_run E o' b p credential dsn dir d = (e1, r1, d1, tr1)" by (metis prod_cases4)
      show ?thesis
      proof (cases "current_identity E d = Some (plan_Database p, bind_OwnerRole b) \<and> preflight (server (boot_cluster E)) d p b = None \<and> take_lock E d")
        case True
        then have "e = e1 \<and> r = r1 \<and> d' = d1 \<and> tr = [BootConnected, BootLocked] @ tr1 @ [BootConnectionClosed, BootStageRemoved]"
          using 2(3) t l by (simp add: connected_run_def)
        then show ?thesis using True 2(1,2) t l by blast
      next
        case False
        then have "e \<noteq> None \<and> r = no_result \<and> d' = d \<and> tr = [BootConnected, BootConnectionClosed, BootStageRemoved]"
          using 2(3) t by (auto simp: connected_run_def split: option.splits if_splits)
        then show ?thesis by (simp add: no_result_def)
      qed
    qed
  qed
qed

lemma Run_returns: "consuming (boot_pem E) \<Longrightarrow> \<exists>e r d' tr. Run P E o' b d = Some (e, r, d', tr)"
proof -
  assume c: "consuming (boot_pem E)"
  have "\<exists>r. pinned_config E o' cfg = Some r" for cfg
    using anchor_returns [OF c, of "opt_ServerTrustAnchorPEM o'"] by (auto simp: pinned_config_def split: option.splits sum.splits)
  then have target: "boot_target E o' b p dir \<noteq> None" for p dir
    by (simp add: boot_target_def split: option.splits sum.splits)
  have "Run P E o' b d \<noteq> None"
    using target by (cases "fst (snapshot P (boot_decode E) (boot_package E) b)") (simp_all add: Run_def case_prod_unfold del: not_None_eq)
  then show ?thesis by (metis not_None_eq prod_cases4)
qed


text \<open>C27: no credential reaches the command line of a child. Every child of a run is the configured
  executable with the staged directory of one lineage of the plan and a connection string that names
  the owner without a password and the ledger of that lineage; a minted token is only in its
  environment, which otherwise inherits nothing.\<close>

theorem bootstrap_children_passwordless:
  assumes "url_round_trip (boot_connector E)" "Run P E o' b d = Some (e, r, d', tr)" "BootChild name child \<in> set tr"
  shows "\<exists>p dir files l database u q. fst (snapshot P (boot_decode E) (boot_package E) b) = Inr (p, dir, files) \<and>
    l \<in> set (plan_Lineages p) \<and> name = lineage_Label l \<and> child_program child = opt_MigrateExecutable o' \<and>
    child_args child = [''-path'', path_Join [dir, lineage_Stage l], ''-database'', database, ''up''] \<and>
    net_Parse (boot_connector E) database = Some u \<and>
    job_string (boot_connector E) o' b p (job_keys \<union> {''x-migrations-table'', ''application_name''}) u q \<and>
    user_password u = None \<and> Values_Get q ''x-migrations-table'' = lineage_Ledger l \<and>
    (child_env child = [''PGPASSFILE=/dev/null''] \<or> (\<exists>token. child_env child = [''PGPASSFILE=/dev/null'', ''PGPASSWORD='' @ token]))"
proof -
  from Run_target [OF assms(2)] assms(3) obtain p dir files dsn credential cfg tr1 where
    snap: "fst (snapshot P (boot_decode E) (boot_package E) b) = Inr (p, dir, files)"
    and target: "boot_target E o' b p dir = Some (Inr (dsn, credential, cfg))"
    and locked: "locked_run E o' b p credential dsn dir d = (e, r, d', tr1)" "BootChild name child \<in> set tr1"
    by fastforce
  from locked_run_trace [OF locked(1)] locked(2) obtain l where l: "l \<in> set (plan_Lineages p)" "name = lineage_Label l"
      "child_of E o' dsn dir l child"
    using job_trace_child by blast
  then obtain n token where child: "lineage_child E o' dsn dir (application_name E n) token l = Some child" by (auto simp: child_of_def)
  from target_string [OF target] obtain dsn0 path where "managed_connection (boot_connector E) o' b p = Some dsn0"
    "dsn = dsn0 \<or> withAnchorFile (boot_connector E) dsn0 path = Some dsn" by blast
  from managed_string [OF assms(1) this] obtain u0 q0 where u0: "net_Parse (boot_connector E) dsn = Some u0" "job_string (boot_connector E) o' b p job_keys u0 q0"
    by blast
  from child_string [OF assms(1) u0] obtain database u q where s: "child_dsn (boot_connector E) dsn (lineage_Ledger l) (application_name E n) = Some database"
    "net_Parse (boot_connector E) database = Some u" "Values_Get q ''x-migrations-table'' = lineage_Ledger l"
    "job_string (boot_connector E) o' b p (job_keys \<union> {''x-migrations-table'', ''application_name''}) u q" by blast
  have "user_password u = None" using s(4) by (simp add: job_string_def url_bound_def user_password_def)
  moreover have "child_args child = [''-path'', path_Join [dir, lineage_Stage l], ''-database'', database, ''up'']"
    "child_program child = opt_MigrateExecutable o'"
    "child_env child = [''PGPASSFILE=/dev/null''] \<or> (\<exists>token. child_env child = [''PGPASSFILE=/dev/null'', ''PGPASSWORD='' @ token])"
    using child s(1) by (auto simp: lineage_child_def split: option.splits)
  ultimately show ?thesis using snap l s by blast
qed

section \<open>A sample run\<close>

text \<open>A package with one lineage whose child fails.\<close>

definition sample_boot_db :: sample_db where
  "sample_boot_db = \<lparr>sample_members = [], sample_roles_of = [(''reader'', fresh_role\<lparr>canLogin := True\<rparr>), (''writer'', fresh_role\<lparr>canLogin := True\<rparr>)]\<rparr>"

definition sample_boot_env :: "sample_db boot_env" where
  "sample_boot_env = \<lparr>boot_cluster = sample_cluster, boot_connector = sample_connector, boot_pem = sample_pem, executable = (\<lambda>_. True),
     boot_package = sample_package, boot_decode = (\<lambda>_. Some (sample_boot_plan, False)), anchor_written = True,
     issue_identity = (\<lambda>_. Inl []), provide = (\<lambda>_ _ _. None), boot_connect = (\<lambda>_ _. True),
     current_identity = (\<lambda>_. Some (''orders'', ''owner'')), take_lock = (\<lambda>_. True), boot_extension = (\<lambda>_ d. (True, d)),
     ctx_over = (\<lambda>_. False), randomIdentity = (\<lambda>_. []), run_child = (\<lambda>_ d. (False, d)),
     terminate_sessions = (\<lambda>_ d. (True, d)), remaining_sessions = (\<lambda>_ _. Some 0)\<rparr>"

lemma sample_env_simps [simp]:
  "boot_cluster sample_boot_env = sample_cluster" "boot_connector sample_boot_env = sample_connector" "boot_pem sample_boot_env = sample_pem"
  "executable sample_boot_env x" "boot_package sample_boot_env = sample_package" "boot_decode sample_boot_env = (\<lambda>_. Some (sample_boot_plan, False))"
  "boot_connect sample_boot_env c d" "current_identity sample_boot_env d = Some (''orders'', ''owner'')" "take_lock sample_boot_env d"
  "boot_extension sample_boot_env n d = (True, d)" "\<not> ctx_over sample_boot_env m" "run_child sample_boot_env k d = (False, d)"
  "drainChild sample_boot_env app d = (True, d)"
  by (simp_all add: sample_boot_env_def drainChild_def)

lemma sample_preflight: "preflight (server sample_cluster) sample_boot_db sample_boot_plan sample_binding = None"
  by (simp add: preflight_def sample_cluster_def sample_server_def sample_boot_db_def sample_boot_plan_def sample_binding_def Let_def)

lemma sample_target: "\<exists>dsn cfg. boot_target sample_boot_env sample_boot_options sample_binding sample_boot_plan dir = Some (Inr (dsn, None, cfg))"
proof -
  have opts: "opt_ServerTrustAnchorPEM sample_boot_options = []" "opt_ExternalIdentity sample_boot_options = []"
    by (simp_all add: sample_boot_options_def)
  moreover have "\<exists>c. managedConfig sample_connector dsn sample_boot_options = Some c" for dsn
    by (simp add: managedConfig_def sample_connector_def)
  ultimately show ?thesis
    by (auto simp: boot_target_def anchored_dsn_def sample_connection boot_credential_def pinned_config_def split: option.splits)
qed

lemma sample_lineages:
  "\<exists>child. boot_lineages sample_boot_env sample_boot_options sample_binding None dsn dir 0 [sample_boot_lineage] d =
     (Some LineageFailed, [], d, [BootChild ''own'' child, BootDrained (application_name sample_boot_env 0)])"
  by (simp add: lineage_token_def lineage_child_def child_dsn_def sample_connector_def sample_boot_lineage_def Let_def)

lemma sample_run_result:
  "\<exists>r child. Run sample_platform sample_boot_env sample_boot_options sample_binding sample_boot_db =
     Some (Some LineageFailed, r, sample_boot_db, [BootConnected, BootLocked, BootExtension ''pgcrypto'', BootChild ''own'' child,
       BootDrained (application_name sample_boot_env 0), BootConnectionClosed, BootStageRemoved])"
proof -
  obtain dsn cfg where t: "boot_target sample_boot_env sample_boot_options sample_binding sample_boot_plan ''/tmp/boot'' = Some (Inr (dsn, None, cfg))"
    using sample_target by blast
  obtain child where c: "boot_lineages sample_boot_env sample_boot_options sample_binding None dsn ''/tmp/boot'' 0 [sample_boot_lineage] sample_boot_db =
     (Some LineageFailed, [], sample_boot_db, [BootChild ''own'' child, BootDrained (application_name sample_boot_env 0)])"
    using sample_lineages by blast
  have p: "plan_Lineages sample_boot_plan = [sample_boot_lineage]" "plan_Extensions sample_boot_plan = [(''pgcrypto'', False)]"
    "plan_Database sample_boot_plan = ''orders''" "bind_OwnerRole sample_binding = ''owner''"
    by (simp_all add: sample_boot_plan_def sample_binding_def Let_def)
  have start: "budgets_ok sample_boot_options" "IsAbs (opt_MigrateExecutable sample_boot_options)"
    by (simp_all add: budgets_ok_def sample_boot_options_def IsAbs_def time_Hour_def time_Second_def time_Millisecond_def)
  show ?thesis
    by (simp add: Run_def start sample_snapshot t boot_connected_def credentialed_def connected_run_def p sample_preflight
        locked_run_def c del: boot_lineages.simps)
qed


theorem bootstrap_children_passwordless_witness:
  "\<exists>child. (\<exists>e r d' tr. Run sample_platform sample_boot_env sample_boot_options sample_binding sample_boot_db = Some (e, r, d', tr) \<and>
     BootChild ''own'' child \<in> set tr) \<and> child_program child = ''/bin/migrate''"
proof -
  obtain r child where run: "Run sample_platform sample_boot_env sample_boot_options sample_binding sample_boot_db =
     Some (Some LineageFailed, r, sample_boot_db, [BootConnected, BootLocked, BootExtension ''pgcrypto'', BootChild ''own'' child,
       BootDrained (application_name sample_boot_env 0), BootConnectionClosed, BootStageRemoved])" (is "_ = Some (?e, r, ?d, ?tr)")
    using sample_run_result by blast
  have "url_round_trip (boot_connector sample_boot_env)" using sample_round_trip by simp
  moreover have "BootChild ''own'' child \<in> set ?tr" by simp
  ultimately have "child_program child = opt_MigrateExecutable sample_boot_options"
    using bootstrap_children_passwordless [OF _ run] by blast
  then have "child_program child = ''/bin/migrate''" by (simp add: sample_boot_options_def)
  with run show ?thesis by (intro exI [of _ child]) auto
qed

end
