(* ===== verification/Forwarder.thy ===== *)
theory Forwarder
  imports Prelude
begin

text \<open>
  \<open>forward.go\<close>: the loopback endpoint of a service, carried to the run's Unix socket. The accept loop,
  one goroutine for each session and any number of callers of \<open>Close\<close> run concurrently; a step is one
  critical section of the mutex or one call that may block. Connections are numbers, and a connection
  that was closed stays closed. The wait group is the counter it is.
\<close>

datatype serve_pc = Accepting | Accepted nat | Spawning nat | ServeDone

datatype pipe_pc = Dialing | Dialed nat | Copying nat | Draining nat | LeavingServer nat | Leaving

record socketForwarder =
  fw_listening :: bool
  fw_closed :: bool
  fw_conns :: "nat set"
  fw_open :: "nat set"
  fw_used :: "nat set"
  fw_serve :: serve_pc
  fw_pipes :: "nat \<rightharpoonup> pipe_pc"
  fw_wg :: nat
  fw_waiting :: "nat \<rightharpoonup> string option"
  fw_returned :: "nat \<rightharpoonup> string option"

section \<open>The operations\<close>

definition ErrClosed :: string where "ErrClosed = ''use of closed network connection''"

definition new_forwarder :: socketForwarder where
  "new_forwarder = \<lparr>fw_listening = True, fw_closed = False, fw_conns = {}, fw_open = {}, fw_used = {}, fw_serve = Accepting,
     fw_pipes = Map.empty, fw_wg = 1, fw_waiting = Map.empty, fw_returned = Map.empty\<rparr>"

definition forwardToSocket :: "string option \<Rightarrow> (string, socketForwarder) result" where
  "forwardToSocket listen_error = (case listen_error of Some e \<Rightarrow> Inl e | None \<Rightarrow> Inr new_forwarder)"

definition track :: "nat \<Rightarrow> socketForwarder \<Rightarrow> bool \<times> socketForwarder" where
  "track conn f = (if fw_closed f then (False, f) else (True, f\<lparr>fw_conns := insert conn (fw_conns f)\<rparr>))"

definition close_conn :: "nat \<Rightarrow> socketForwarder \<Rightarrow> socketForwarder" where
  "close_conn conn f = f\<lparr>fw_open := fw_open f - {conn}\<rparr>"

definition untrack :: "nat \<Rightarrow> socketForwarder \<Rightarrow> socketForwarder" where
  "untrack conn f = close_conn conn (f\<lparr>fw_conns := fw_conns f - {conn}\<rparr>)"

text \<open>The critical section of \<open>Close\<close>: closing a closed listener is \<open>net.ErrClosed\<close>.\<close>

definition Close_marked :: "nat \<Rightarrow> string option \<Rightarrow> socketForwarder \<Rightarrow> socketForwarder" where
  "Close_marked k listener_error f =
     f\<lparr>fw_closed := True, fw_listening := False, fw_open := fw_open f - fw_conns f,
       fw_waiting := (fw_waiting f)(k \<mapsto> if fw_listening f then listener_error else Some ErrClosed)\<rparr>"

definition Close_result :: "string option \<Rightarrow> string option" where
  "Close_result err = (if err = Some ErrClosed then None else err)"

definition opened :: "nat \<Rightarrow> socketForwarder \<Rightarrow> socketForwarder" where
  "opened conn f = f\<lparr>fw_open := insert conn (fw_open f), fw_used := insert conn (fw_used f)\<rparr>"

definition pipe_at :: "nat \<Rightarrow> pipe_pc \<Rightarrow> socketForwarder \<Rightarrow> socketForwarder" where
  "pipe_at c pc f = f\<lparr>fw_pipes := (fw_pipes f)(c \<mapsto> pc)\<rparr>"

datatype forward_event = Peer | Goroutine | CallsClose nat | CloseReturns nat

text \<open>
  \<open>Peer\<close> steps are those that wait for someone else: a client connects, a peer ends its side, the
  listener fails by itself. A \<open>Goroutine\<close> step is never kept waiting by a peer: dialling returns within its
  timeout, and copying returns once one of its connections is closed.
\<close>

inductive forward_step :: "socketForwarder \<Rightarrow> forward_event \<Rightarrow> socketForwarder \<Rightarrow> bool" where
  accept: "fw_serve f = Accepting \<Longrightarrow> fw_listening f \<Longrightarrow> c \<notin> fw_used f \<Longrightarrow>
    forward_step f Peer (opened c f\<lparr>fw_serve := Accepted c\<rparr>)"
| accept_error: "fw_serve f = Accepting \<Longrightarrow> fw_listening f \<Longrightarrow>
    forward_step f Peer (f\<lparr>fw_serve := ServeDone, fw_wg := fw_wg f - 1\<rparr>)"
| accept_closed: "fw_serve f = Accepting \<Longrightarrow> \<not> fw_listening f \<Longrightarrow>
    forward_step f Goroutine (f\<lparr>fw_serve := ServeDone, fw_wg := fw_wg f - 1\<rparr>)"
| client_tracked: "fw_serve f = Accepted c \<Longrightarrow> track c f = (True, g) \<Longrightarrow>
    forward_step f Goroutine (g\<lparr>fw_serve := Spawning c\<rparr>)"
| client_refused: "fw_serve f = Accepted c \<Longrightarrow> track c f = (False, g) \<Longrightarrow>
    forward_step f Goroutine (close_conn c g\<lparr>fw_serve := ServeDone, fw_wg := fw_wg f - 1\<rparr>)"
| spawn: "fw_serve f = Spawning c \<Longrightarrow>
    forward_step f Goroutine (pipe_at c Dialing f\<lparr>fw_serve := Accepting, fw_wg := fw_wg f + 1\<rparr>)"
| dialed: "fw_pipes f c = Some Dialing \<Longrightarrow> s \<notin> fw_used f \<Longrightarrow> forward_step f Goroutine (pipe_at c (Dialed s) (opened s f))"
| dial_failed: "fw_pipes f c = Some Dialing \<Longrightarrow> forward_step f Goroutine (pipe_at c Leaving f)"
| server_tracked: "fw_pipes f c = Some (Dialed s) \<Longrightarrow> track s f = (True, g) \<Longrightarrow> forward_step f Goroutine (pipe_at c (Copying s) g)"
| server_refused: "fw_pipes f c = Some (Dialed s) \<Longrightarrow> track s f = (False, g) \<Longrightarrow>
    forward_step f Goroutine (pipe_at c Leaving (close_conn s g))"
| peer_ended: "fw_pipes f c = Some (Copying s) \<Longrightarrow> c \<in> fw_open f \<Longrightarrow> s \<in> fw_open f \<Longrightarrow>
    forward_step f Peer (pipe_at c (Draining s) (close_conn s (close_conn c f)))"
| copy_ended: "fw_pipes f c = Some (Copying s) \<Longrightarrow> c \<notin> fw_open f \<or> s \<notin> fw_open f \<Longrightarrow>
    forward_step f Goroutine (pipe_at c (Draining s) (close_conn s (close_conn c f)))"
| drained: "fw_pipes f c = Some (Draining s) \<Longrightarrow> c \<notin> fw_open f \<Longrightarrow> s \<notin> fw_open f \<Longrightarrow>
    forward_step f Goroutine (pipe_at c (LeavingServer s) f)"
| server_untracked: "fw_pipes f c = Some (LeavingServer s) \<Longrightarrow> forward_step f Goroutine (pipe_at c Leaving (untrack s f))"
| client_untracked: "fw_pipes f c = Some Leaving \<Longrightarrow>
    forward_step f Goroutine (untrack c f\<lparr>fw_pipes := (fw_pipes f)(c := None), fw_wg := fw_wg f - 1\<rparr>)"
| close_called: "fw_waiting f k = None \<Longrightarrow> fw_returned f k = None \<Longrightarrow> forward_step f (CallsClose k) (Close_marked k e f)"
| close_returned: "fw_waiting f k = Some e \<Longrightarrow> fw_wg f = 0 \<Longrightarrow>
    forward_step f (CloseReturns k) (f\<lparr>fw_waiting := (fw_waiting f)(k := None), fw_returned := (fw_returned f)(k \<mapsto> Close_result e)\<rparr>)"

inductive_cases forward_stepE: "forward_step f e g"

section \<open>The invariant\<close>

definition server_of :: "pipe_pc \<Rightarrow> nat set" where
  "server_of pc = (case pc of Copying s \<Rightarrow> {s} | Draining s \<Rightarrow> {s} | LeavingServer s \<Rightarrow> {s} | _ \<Rightarrow> {})"

definition serving :: "serve_pc \<Rightarrow> nat" where
  "serving pc = (if pc = ServeDone then 0 else 1)"

text \<open>The connections of the sessions, those they hold before they have tracked them, and those they have closed.\<close>

definition pipe_conns :: "(nat \<rightharpoonup> pipe_pc) \<Rightarrow> nat set" where
  "pipe_conns m = {x. m x \<noteq> None \<or> (\<exists>c pc. m c = Some pc \<and> x \<in> server_of pc)}"

definition pipe_held :: "(nat \<rightharpoonup> pipe_pc) \<Rightarrow> nat set" where
  "pipe_held m = {x. \<exists>c. m c = Some (Dialed x)}"

definition pipe_drained :: "(nat \<rightharpoonup> pipe_pc) \<Rightarrow> nat set" where
  "pipe_drained m = {x. \<exists>c s. m c = Some (Draining s) \<and> x \<in> {c, s}}"

fun serve_tracked :: "serve_pc \<Rightarrow> nat set" where
  "serve_tracked (Spawning c) = {c}"
| "serve_tracked _ = {}"

fun serve_held :: "serve_pc \<Rightarrow> nat set" where
  "serve_held (Accepted c) = {c}"
| "serve_held _ = {}"

text \<open>How the open, the tracked and the held connections relate, for the sets of one state.\<close>

definition conns_ok :: "bool \<Rightarrow> nat set \<Rightarrow> nat set \<Rightarrow> nat set \<Rightarrow> nat set \<Rightarrow> nat set \<Rightarrow> nat set \<Rightarrow> bool" where
  "conns_ok closed used opn conns session held drained' \<longleftrightarrow>
     opn \<union> conns \<union> session \<union> held \<subseteq> used \<and> (closed \<longrightarrow> opn \<inter> conns = {}) \<and>
     opn \<subseteq> conns \<union> held \<and> conns \<subseteq> session \<and> session \<inter> opn \<subseteq> conns \<and> drained' \<inter> opn = {} \<and> drained' \<subseteq> session"

definition forwarder_ok :: "socketForwarder \<Rightarrow> bool" where
  "forwarder_ok f \<longleftrightarrow>
     finite (dom (fw_pipes f)) \<and> finite (fw_used f) \<and> fw_wg f = serving (fw_serve f) + card (dom (fw_pipes f)) \<and>
     (\<forall>c \<in> serve_held (fw_serve f) \<union> serve_tracked (fw_serve f). fw_pipes f c = None) \<and>
     (fw_closed f \<longleftrightarrow> \<not> fw_listening f) \<and>
     (fw_waiting f \<noteq> Map.empty \<longrightarrow> fw_closed f) \<and> (fw_returned f \<noteq> Map.empty \<longrightarrow> fw_closed f \<and> fw_wg f = 0) \<and>
     conns_ok (fw_closed f) (fw_used f) (fw_open f) (fw_conns f) (serve_tracked (fw_serve f) \<union> pipe_conns (fw_pipes f))
       (serve_held (fw_serve f) \<union> pipe_held (fw_pipes f)) (pipe_drained (fw_pipes f))"

lemmas forward_ops = track_def close_conn_def untrack_def opened_def pipe_at_def Close_marked_def

lemma conns_ok_used: "conns_ok closed used opn conns S H D \<Longrightarrow> x \<notin> used \<Longrightarrow> x \<notin> opn \<and> x \<notin> conns \<and> x \<notin> S \<and> x \<notin> H \<and> x \<notin> D"
  unfolding conns_ok_def by blast

text \<open>The moves of the steps on these sets.\<close>

lemma conns_opened:
  assumes "conns_ok closed used opn conns S H D" "x \<notin> used" "S' = S" "H' = insert x H" "D' \<subseteq> D"
  shows "conns_ok closed (insert x used) (insert x opn) conns S' H' D'"
  using assms unfolding conns_ok_def by blast

lemma conns_tracked:
  assumes "conns_ok False used opn conns S H D" "x \<in> H" "S' = insert x S" "H - {x} \<subseteq> H'" "H' \<subseteq> H" "D' \<subseteq> D"
  shows "conns_ok False used opn (insert x conns) S' H' D'"
  using assms unfolding conns_ok_def by blast

lemma conns_closed:
  assumes "conns_ok closed used opn conns S H D" "S' = S" "H - X \<subseteq> H'" "H' \<subseteq> H" "D' \<subseteq> D \<union> (X \<inter> S)"
  shows "conns_ok closed used (opn - X) conns S' H' D'"
  using assms unfolding conns_ok_def by blast

lemma conns_untracked:
  assumes "conns_ok closed used opn conns S H D" "S - {x} \<subseteq> S'" "S' \<subseteq> S" "H' = H" "D' \<subseteq> D \<inter> S'"
  shows "conns_ok closed used (opn - {x}) (conns - {x}) S' H' D'"
  using assms unfolding conns_ok_def by blast

lemma conns_closed_all:
  "conns_ok closed used opn conns S H D \<Longrightarrow> conns_ok True used (opn - conns) conns S H D"
  unfolding conns_ok_def by blast

lemma conns_same: "conns_ok closed used opn conns S H D \<Longrightarrow> S' = S \<Longrightarrow> H' = H \<Longrightarrow> D' \<subseteq> D \<Longrightarrow> conns_ok closed used opn conns S' H' D'"
  unfolding conns_ok_def by blast

lemma server_of_simps [simp]:
  "server_of Dialing = {}" "server_of (Dialed s) = {}" "server_of (Copying s) = {s}" "server_of (Draining s) = {s}"
  "server_of (LeavingServer s) = {s}" "server_of Leaving = {}"
  by (simp_all add: server_of_def)

text \<open>What a session's own move does to them.\<close>

lemma pipe_conns_upd:
  assumes "m c = Some pc0"
  shows "pipe_conns m - server_of pc0 \<union> server_of pc \<union> {c} \<subseteq> pipe_conns (m(c \<mapsto> pc))" "pipe_conns (m(c \<mapsto> pc)) \<subseteq> pipe_conns m \<union> server_of pc"
proof -
  show "pipe_conns m - server_of pc0 \<union> server_of pc \<union> {c} \<subseteq> pipe_conns (m(c \<mapsto> pc))"
  proof
    fix x assume x: "x \<in> pipe_conns m - server_of pc0 \<union> server_of pc \<union> {c}"
    then consider "x \<in> server_of pc \<or> x = c \<or> m x \<noteq> None" | k p where "m k = Some p" "x \<in> server_of p" "x \<notin> server_of pc0"
      by (auto simp: pipe_conns_def)
    then show "x \<in> pipe_conns (m(c \<mapsto> pc))"
    proof cases
      case 1 then show ?thesis by (auto simp: pipe_conns_def)
    next
      case 2
      then have "k \<noteq> c" using assms by auto
      then show ?thesis using 2 by (auto simp: pipe_conns_def)
    qed
  qed
  show "pipe_conns (m(c \<mapsto> pc)) \<subseteq> pipe_conns m \<union> server_of pc"
    using assms by (auto simp: pipe_conns_def split: if_splits)
qed

lemma pipe_held_upd:
  assumes "m c = Some pc0"
  shows "pipe_held m - {x. pc0 = Dialed x} \<union> {x. pc = Dialed x} \<subseteq> pipe_held (m(c \<mapsto> pc))" "pipe_held (m(c \<mapsto> pc)) \<subseteq> pipe_held m \<union> {x. pc = Dialed x}"
  using assms by (auto simp: pipe_held_def split: if_splits) (metis option.inject)

lemma pipe_drained_upd: "pipe_drained (m(c \<mapsto> pc)) \<subseteq> pipe_drained m \<union> {x. \<exists>s. pc = Draining s \<and> x \<in> {c, s}}"
  by (auto simp: pipe_drained_def split: if_splits)

lemma pipe_removed:
  assumes "m c = Some Leaving"
  shows "pipe_conns m - {c} \<subseteq> pipe_conns (m(c := None))" "pipe_conns (m(c := None)) \<subseteq> pipe_conns m"
    "pipe_held (m(c := None)) = pipe_held m" "pipe_drained (m(c := None)) \<subseteq> pipe_drained m" "pipe_drained (m(c := None)) \<subseteq> pipe_conns (m(c := None))"
proof -
  show "pipe_conns m - {c} \<subseteq> pipe_conns (m(c := None))"
  proof
    fix x assume x: "x \<in> pipe_conns m - {c}"
    then consider "m x \<noteq> None" "x \<noteq> c" | k p where "m k = Some p" "x \<in> server_of p" by (auto simp: pipe_conns_def)
    then show "x \<in> pipe_conns (m(c := None))"
    proof cases
      case 1 then show ?thesis by (auto simp: pipe_conns_def)
    next
      case 2
      then have "k \<noteq> c" using assms by auto
      then show ?thesis using 2 by (auto simp: pipe_conns_def)
    qed
  qed
  show "pipe_held (m(c := None)) = pipe_held m" using assms by (auto simp: pipe_held_def) (metis option.inject pipe_pc.distinct(17))
qed (auto simp: pipe_conns_def pipe_drained_def split: if_splits)

lemma pipe_new:
  assumes "m c = None"
  shows "pipe_conns (m(c \<mapsto> Dialing)) = insert c (pipe_conns m)" "pipe_held (m(c \<mapsto> Dialing)) = pipe_held m" "pipe_drained (m(c \<mapsto> Dialing)) = pipe_drained m"
proof -
  show "pipe_conns (m(c \<mapsto> Dialing)) = insert c (pipe_conns m)" using assms by (auto simp: pipe_conns_def split: if_splits) (metis option.distinct(1))
  have "((m(c \<mapsto> Dialing)) k = Some (Dialed x)) = (m k = Some (Dialed x))" "((m(c \<mapsto> Dialing)) k = Some (Draining s)) = (m k = Some (Draining s))" for k x s
    using assms by auto
  then show "pipe_held (m(c \<mapsto> Dialing)) = pipe_held m" "pipe_drained (m(c \<mapsto> Dialing)) = pipe_drained m"
    by (simp_all only: pipe_held_def pipe_drained_def)
qed

lemma forwarder_okD:
  assumes "forwarder_ok f"
  shows "finite (dom (fw_pipes f))" "finite (fw_used f)" "fw_wg f = serving (fw_serve f) + card (dom (fw_pipes f))"
    "\<forall>c \<in> serve_held (fw_serve f) \<union> serve_tracked (fw_serve f). fw_pipes f c = None" "fw_closed f \<longleftrightarrow> \<not> fw_listening f"
    "fw_waiting f \<noteq> Map.empty \<longrightarrow> fw_closed f" "fw_returned f \<noteq> Map.empty \<longrightarrow> fw_closed f \<and> fw_wg f = 0"
    "conns_ok (fw_closed f) (fw_used f) (fw_open f) (fw_conns f) (serve_tracked (fw_serve f) \<union> pipe_conns (fw_pipes f))
       (serve_held (fw_serve f) \<union> pipe_held (fw_pipes f)) (pipe_drained (fw_pipes f))"
  using assms unfolding forwarder_ok_def by blast+

lemma forwarder_okI:
  assumes "finite (dom (fw_pipes f))" "finite (fw_used f)" "fw_wg f = serving (fw_serve f) + card (dom (fw_pipes f))"
    "\<forall>c \<in> serve_held (fw_serve f) \<union> serve_tracked (fw_serve f). fw_pipes f c = None" "fw_closed f \<longleftrightarrow> \<not> fw_listening f"
    "fw_waiting f \<noteq> Map.empty \<longrightarrow> fw_closed f" "fw_returned f \<noteq> Map.empty \<longrightarrow> fw_closed f \<and> fw_wg f = 0"
    "conns_ok (fw_closed f) (fw_used f) (fw_open f) (fw_conns f) (serve_tracked (fw_serve f) \<union> pipe_conns (fw_pipes f))
       (serve_held (fw_serve f) \<union> pipe_held (fw_pipes f)) (pipe_drained (fw_pipes f))"
  shows "forwarder_ok f"
  using assms unfolding forwarder_ok_def by blast

text \<open>A step of a session that stays, one of the accept loop: a goroutine that is alive keeps \<open>Close\<close> from returning.\<close>

lemma session_step_ok:
  assumes ok: "forwarder_ok f" and pc0: "fw_pipes f c = Some pc0"
    and sets: "conns_ok (fw_closed f) (fw_used g) (fw_open g) (fw_conns g) (serve_tracked (fw_serve f) \<union> pipe_conns ((fw_pipes f)(c \<mapsto> pc)))
       (serve_held (fw_serve f) \<union> pipe_held ((fw_pipes f)(c \<mapsto> pc))) (pipe_drained ((fw_pipes f)(c \<mapsto> pc)))"
    and g: "fw_serve g = fw_serve f" "fw_wg g = fw_wg f" "fw_pipes g = (fw_pipes f)(c \<mapsto> pc)" "fw_closed g = fw_closed f"
      "fw_listening g = fw_listening f" "fw_waiting g = fw_waiting f" "fw_returned g = fw_returned f" "finite (fw_used g)"
  shows "forwarder_ok g"
proof -
  have d: "dom ((fw_pipes f)(c \<mapsto> pc)) = dom (fw_pipes f)" using pc0 by auto
  have n: "\<forall>c' \<in> serve_held (fw_serve f) \<union> serve_tracked (fw_serve f). ((fw_pipes f)(c \<mapsto> pc)) c' = None"
    using forwarder_okD(4) [OF ok] pc0 by auto
  show ?thesis
    unfolding forwarder_ok_def g(1-7) d using forwarder_okD(1,3,5-7) [OF ok] n sets g(8) by blast
qed

lemma serve_step_ok:
  assumes ok: "forwarder_ok f" and alive: "fw_serve f \<noteq> ServeDone"
    and sets: "conns_ok (fw_closed f) (fw_used g) (fw_open g) (fw_conns g) (serve_tracked (fw_serve g) \<union> pipe_conns (fw_pipes f))
      (serve_held (fw_serve g) \<union> pipe_held (fw_pipes f)) (pipe_drained (fw_pipes f))"
    and g: "fw_pipes g = fw_pipes f" "fw_closed g = fw_closed f" "fw_listening g = fw_listening f" "fw_waiting g = fw_waiting f" "fw_returned g = fw_returned f"
      "fw_wg g = serving (fw_serve g) + card (dom (fw_pipes f))" "finite (fw_used g)"
      "\<forall>c \<in> serve_held (fw_serve g) \<union> serve_tracked (fw_serve g). fw_pipes f c = None"
  shows "forwarder_ok g"
proof -
  have "fw_returned f = Map.empty" using forwarder_okD(3,7) [OF ok] alive by (auto simp: serving_def)
  then show ?thesis
    unfolding forwarder_ok_def g(1-5) using forwarder_okD(1,5,6) [OF ok] sets g(6-8) by blast
qed

lemma serving_simps [simp]: "serving Accepting = 1" "serving (Accepted c) = 1" "serving (Spawning c) = 1" "serving ServeDone = 0"
  by (simp_all add: serving_def)

text \<open>A copy ends, for either reason: both connections are closed.\<close>

lemma copy_step_ok:
  assumes "forwarder_ok f" "fw_pipes f c = Some (Copying s)"
  shows "forwarder_ok (pipe_at c (Draining s) (close_conn s (close_conn c f)))"
proof -
  note ok = forwarder_okD [OF assms(1)] and upd = pipe_conns_upd [where m = "fw_pipes f" and c = c and pc = "Draining s", OF assms(2)]
    pipe_held_upd [where m = "fw_pipes f" and c = c and pc = "Draining s", OF assms(2)] pipe_drained_upd [of "fw_pipes f" c "Draining s"]
  have cs: "{c, s} \<subseteq> pipe_conns (fw_pipes f)" using assms(2) by (force simp: pipe_conns_def)
  have S: "serve_tracked (fw_serve f) \<union> pipe_conns ((fw_pipes f)(c \<mapsto> Draining s)) = serve_tracked (fw_serve f) \<union> pipe_conns (fw_pipes f)"
    and H: "serve_held (fw_serve f) \<union> pipe_held (fw_pipes f) - {c, s} \<subseteq> serve_held (fw_serve f) \<union> pipe_held ((fw_pipes f)(c \<mapsto> Draining s))"
      "serve_held (fw_serve f) \<union> pipe_held ((fw_pipes f)(c \<mapsto> Draining s)) \<subseteq> serve_held (fw_serve f) \<union> pipe_held (fw_pipes f)"
    and D: "pipe_drained ((fw_pipes f)(c \<mapsto> Draining s)) \<subseteq> pipe_drained (fw_pipes f) \<union> ({c, s} \<inter> (serve_tracked (fw_serve f) \<union> pipe_conns (fw_pipes f)))"
    using upd cs by auto
  show ?thesis
    by (rule session_step_ok [OF assms]) (use ok conns_closed [OF ok(8) S H D] in \<open>simp_all add: pipe_at_def close_conn_def Diff_insert2 [symmetric]\<close>)
qed

lemma accept_ok:
  assumes "fw_serve f = Accepting" "fw_listening f" "c \<notin> fw_used f" "forwarder_ok f"
  shows "forwarder_ok (opened c f\<lparr>fw_serve := Accepted c\<rparr>)"
proof -
  note ok = forwarder_okD [OF assms(4)]
  have new: "fw_pipes f c = None" using conns_ok_used [OF ok(8) assms(3)] by (auto simp: pipe_conns_def)
  show ?thesis
    by (rule serve_step_ok [OF assms(4)]) (use assms ok new conns_opened [OF ok(8) assms(3) refl refl subset_refl] in \<open>simp_all add: opened_def\<close>)
qed

lemma accept_error_ok:
  assumes "fw_serve f = Accepting" "fw_listening f" "forwarder_ok f"
  shows "forwarder_ok (f\<lparr>fw_serve := ServeDone, fw_wg := fw_wg f - 1\<rparr>)"
proof -
  note ok = forwarder_okD [OF assms(3)]
  show ?thesis
    by (rule serve_step_ok [OF assms(3)]) (use assms ok in simp_all)
qed

lemma accept_closed_ok:
  assumes "fw_serve f = Accepting" "\<not> fw_listening f" "forwarder_ok f"
  shows "forwarder_ok (f\<lparr>fw_serve := ServeDone, fw_wg := fw_wg f - 1\<rparr>)"
proof -
  note ok = forwarder_okD [OF assms(3)]
  show ?thesis
    by (rule serve_step_ok [OF assms(3)]) (use assms ok in simp_all)
qed

lemma client_tracked_ok:
  assumes "fw_serve f = Accepted c" "track c f = (True, g)" "forwarder_ok f"
  shows "forwarder_ok (g\<lparr>fw_serve := Spawning c\<rparr>)"
proof -
  note ok = forwarder_okD [OF assms(3)]
  have c: "\<not> fw_closed f" "g = f\<lparr>fw_conns := insert c (fw_conns f)\<rparr>" using assms(2) by (auto simp: track_def split: if_splits)
  have "conns_ok False (fw_used f) (fw_open f) (insert c (fw_conns f)) (insert c (pipe_conns (fw_pipes f))) (pipe_held (fw_pipes f)) (pipe_drained (fw_pipes f))"
    by (rule conns_tracked [where S = "pipe_conns (fw_pipes f)" and H = "insert c (pipe_held (fw_pipes f))" and D = "pipe_drained (fw_pipes f)"])
      (use ok(8) c(1) assms(1) in auto)
  then show ?thesis
    by (intro serve_step_ok [OF assms(3)]) (use assms(1) ok c in simp_all)
qed

lemma client_refused_ok:
  assumes "fw_serve f = Accepted c" "track c f = (False, g)" "forwarder_ok f"
  shows "forwarder_ok (close_conn c g\<lparr>fw_serve := ServeDone, fw_wg := fw_wg f - 1\<rparr>)"
proof -
  note ok = forwarder_okD [OF assms(3)]
  have c: "fw_closed f" "g = f" using assms(2) by (auto simp: track_def split: if_splits)
  have "conns_ok (fw_closed f) (fw_used f) (fw_open f - {c}) (fw_conns f) (pipe_conns (fw_pipes f)) (pipe_held (fw_pipes f)) (pipe_drained (fw_pipes f))"
    by (rule conns_closed [OF ok(8)]) (use assms(1) in auto)
  then show ?thesis
    by (intro serve_step_ok [OF assms(3)]) (use assms(1) ok c in \<open>simp_all add: close_conn_def\<close>)
qed

lemma spawn_ok:
  assumes "fw_serve f = Spawning c" "forwarder_ok f"
  shows "forwarder_ok (pipe_at c Dialing f\<lparr>fw_serve := Accepting, fw_wg := fw_wg f + 1\<rparr>)"
proof -
  note ok = forwarder_okD [OF assms(2)]
  have new: "fw_pipes f c = None" using ok(4) assms(1) by simp
  have "fw_returned f = Map.empty" using ok(3,7) assms(1) by auto
  moreover have "card (dom ((fw_pipes f)(c \<mapsto> Dialing))) = Suc (card (dom (fw_pipes f)))" using ok(1) new by (simp add: domIff)
  ultimately show ?thesis
    using ok assms(1) pipe_new [where c = c and m = "fw_pipes f"] new by (simp add: forwarder_ok_def pipe_at_def)
qed

lemma dialed_ok:
  assumes "fw_pipes f c = Some Dialing" "s \<notin> fw_used f" "forwarder_ok f"
  shows "forwarder_ok (pipe_at c (Dialed s) (opened s f))"
proof -
  note ok = forwarder_okD [OF assms(3)] and upd = pipe_conns_upd [where m = "fw_pipes f" and c = c and pc = "Dialed s", OF assms(1)] pipe_held_upd [where m = "fw_pipes f" and c = c and pc = "Dialed s", OF assms(1)]
    pipe_drained_upd [of "fw_pipes f" c "Dialed s"]
  have S: "serve_tracked (fw_serve f) \<union> pipe_conns ((fw_pipes f)(c \<mapsto> Dialed s)) = serve_tracked (fw_serve f) \<union> pipe_conns (fw_pipes f)"
    and H: "serve_held (fw_serve f) \<union> pipe_held ((fw_pipes f)(c \<mapsto> Dialed s)) = insert s (serve_held (fw_serve f) \<union> pipe_held (fw_pipes f))"
    and D: "pipe_drained ((fw_pipes f)(c \<mapsto> Dialed s)) \<subseteq> pipe_drained (fw_pipes f)"
    using upd by auto
  show ?thesis
    by (rule session_step_ok [OF assms(3,1)]) (use ok conns_opened [OF ok(8) assms(2) S H D] in \<open>simp_all add: opened_def pipe_at_def\<close>)
qed

lemma dial_failed_ok:
  assumes "fw_pipes f c = Some Dialing" "forwarder_ok f"
  shows "forwarder_ok (pipe_at c Leaving f)"
proof -
  note ok = forwarder_okD [OF assms(2)] and upd = pipe_conns_upd [where m = "fw_pipes f" and c = c and pc = Leaving, OF assms(1)] pipe_held_upd [where m = "fw_pipes f" and c = c and pc = Leaving, OF assms(1)]
    pipe_drained_upd [of "fw_pipes f" c Leaving]
  have S: "serve_tracked (fw_serve f) \<union> pipe_conns ((fw_pipes f)(c \<mapsto> Leaving)) = serve_tracked (fw_serve f) \<union> pipe_conns (fw_pipes f)"
    and H: "serve_held (fw_serve f) \<union> pipe_held ((fw_pipes f)(c \<mapsto> Leaving)) = serve_held (fw_serve f) \<union> pipe_held (fw_pipes f)"
    and D: "pipe_drained ((fw_pipes f)(c \<mapsto> Leaving)) \<subseteq> pipe_drained (fw_pipes f)"
    using upd by auto
  show ?thesis
    by (rule session_step_ok [OF assms(2,1)]) (use ok conns_same [OF ok(8) S H D] in \<open>simp_all add: pipe_at_def\<close>)
qed

lemma server_tracked_ok:
  assumes "fw_pipes f c = Some (Dialed s)" "track s f = (True, g)" "forwarder_ok f"
  shows "forwarder_ok (pipe_at c (Copying s) g)"
proof -
  note ok = forwarder_okD [OF assms(3)] and upd = pipe_conns_upd [where m = "fw_pipes f" and c = c and pc = "Copying s", OF assms(1)]
    pipe_held_upd [where m = "fw_pipes f" and c = c and pc = "Copying s", OF assms(1)] pipe_drained_upd [of "fw_pipes f" c "Copying s"]
  have c: "\<not> fw_closed f" "g = f\<lparr>fw_conns := insert s (fw_conns f)\<rparr>" using assms(2) by (auto simp: track_def split: if_splits)
  have s: "s \<in> serve_held (fw_serve f) \<union> pipe_held (fw_pipes f)" using assms(1) by (auto simp: pipe_held_def)
  have S: "serve_tracked (fw_serve f) \<union> pipe_conns ((fw_pipes f)(c \<mapsto> Copying s)) = insert s (serve_tracked (fw_serve f) \<union> pipe_conns (fw_pipes f))"
    using upd by auto
  have H: "serve_held (fw_serve f) \<union> pipe_held (fw_pipes f) - {s} \<subseteq> serve_held (fw_serve f) \<union> pipe_held ((fw_pipes f)(c \<mapsto> Copying s))"
    "serve_held (fw_serve f) \<union> pipe_held ((fw_pipes f)(c \<mapsto> Copying s)) \<subseteq> serve_held (fw_serve f) \<union> pipe_held (fw_pipes f)"
    and D: "pipe_drained ((fw_pipes f)(c \<mapsto> Copying s)) \<subseteq> pipe_drained (fw_pipes f)"
    using upd by auto
  have "fw_closed f = False" using c(1) by simp
  note sets = conns_tracked [OF ok(8) [unfolded this] s S H D, folded this]
  show ?thesis
    by (rule session_step_ok [OF assms(3,1)]) (use ok c sets in \<open>simp_all add: pipe_at_def\<close>)
qed

lemma server_refused_ok:
  assumes "fw_pipes f c = Some (Dialed s)" "track s f = (False, g)" "forwarder_ok f"
  shows "forwarder_ok (pipe_at c Leaving (close_conn s g))"
proof -
  note ok = forwarder_okD [OF assms(3)] and upd = pipe_conns_upd [where m = "fw_pipes f" and c = c and pc = Leaving, OF assms(1)]
    pipe_held_upd [where m = "fw_pipes f" and c = c and pc = Leaving, OF assms(1)] pipe_drained_upd [of "fw_pipes f" c Leaving]
  have c: "g = f" using assms(2) by (auto simp: track_def split: if_splits)
  have S: "serve_tracked (fw_serve f) \<union> pipe_conns ((fw_pipes f)(c \<mapsto> Leaving)) = serve_tracked (fw_serve f) \<union> pipe_conns (fw_pipes f)"
    and H: "serve_held (fw_serve f) \<union> pipe_held (fw_pipes f) - {s} \<subseteq> serve_held (fw_serve f) \<union> pipe_held ((fw_pipes f)(c \<mapsto> Leaving))"
      "serve_held (fw_serve f) \<union> pipe_held ((fw_pipes f)(c \<mapsto> Leaving)) \<subseteq> serve_held (fw_serve f) \<union> pipe_held (fw_pipes f)"
    and D: "pipe_drained ((fw_pipes f)(c \<mapsto> Leaving)) \<subseteq> pipe_drained (fw_pipes f) \<union> ({s} \<inter> (serve_tracked (fw_serve f) \<union> pipe_conns (fw_pipes f)))"
    using upd by auto
  show ?thesis
    by (rule session_step_ok [OF assms(3,1)]) (use ok c conns_closed [OF ok(8) S H D] in \<open>simp_all add: pipe_at_def close_conn_def\<close>)
qed

lemma drained_ok:
  assumes "fw_pipes f c = Some (Draining s)" "c \<notin> fw_open f" "s \<notin> fw_open f" "forwarder_ok f"
  shows "forwarder_ok (pipe_at c (LeavingServer s) f)"
proof -
  note ok = forwarder_okD [OF assms(4)] and upd = pipe_conns_upd [where m = "fw_pipes f" and c = c and pc = "LeavingServer s", OF assms(1)]
    pipe_held_upd [where m = "fw_pipes f" and c = c and pc = "LeavingServer s", OF assms(1)] pipe_drained_upd [of "fw_pipes f" c "LeavingServer s"]
  have "s \<in> pipe_conns (fw_pipes f)" using assms(1) by (force simp: pipe_conns_def)
  then have S: "serve_tracked (fw_serve f) \<union> pipe_conns ((fw_pipes f)(c \<mapsto> LeavingServer s)) = serve_tracked (fw_serve f) \<union> pipe_conns (fw_pipes f)"
    and H: "serve_held (fw_serve f) \<union> pipe_held ((fw_pipes f)(c \<mapsto> LeavingServer s)) = serve_held (fw_serve f) \<union> pipe_held (fw_pipes f)"
    and D: "pipe_drained ((fw_pipes f)(c \<mapsto> LeavingServer s)) \<subseteq> pipe_drained (fw_pipes f)"
    using upd by auto
  show ?thesis
    by (rule session_step_ok [OF assms(4,1)]) (use ok conns_same [OF ok(8) S H D] in \<open>simp_all add: pipe_at_def\<close>)
qed

lemma server_untracked_ok:
  assumes "fw_pipes f c = Some (LeavingServer s)" "forwarder_ok f"
  shows "forwarder_ok (pipe_at c Leaving (untrack s f))"
proof -
  note ok = forwarder_okD [OF assms(2)] and upd = pipe_conns_upd [where m = "fw_pipes f" and c = c and pc = Leaving, OF assms(1)]
    pipe_held_upd [where m = "fw_pipes f" and c = c and pc = Leaving, OF assms(1)] pipe_drained_upd [of "fw_pipes f" c Leaving]
  have S: "serve_tracked (fw_serve f) \<union> pipe_conns (fw_pipes f) - {s} \<subseteq> serve_tracked (fw_serve f) \<union> pipe_conns ((fw_pipes f)(c \<mapsto> Leaving))"
      "serve_tracked (fw_serve f) \<union> pipe_conns ((fw_pipes f)(c \<mapsto> Leaving)) \<subseteq> serve_tracked (fw_serve f) \<union> pipe_conns (fw_pipes f)"
    and H: "serve_held (fw_serve f) \<union> pipe_held ((fw_pipes f)(c \<mapsto> Leaving)) = serve_held (fw_serve f) \<union> pipe_held (fw_pipes f)"
    using upd by auto
  have D: "pipe_drained ((fw_pipes f)(c \<mapsto> Leaving)) \<subseteq> pipe_drained (fw_pipes f) \<inter> (serve_tracked (fw_serve f) \<union> pipe_conns ((fw_pipes f)(c \<mapsto> Leaving)))"
    using upd by (auto simp: pipe_drained_def pipe_conns_def split: if_splits) 
  show ?thesis
    by (rule session_step_ok [OF assms(2,1)]) (use ok conns_untracked [OF ok(8) S H D] in \<open>simp_all add: pipe_at_def untrack_def close_conn_def\<close>)
qed

lemma client_untracked_ok:
  assumes "fw_pipes f c = Some Leaving" "forwarder_ok f"
  shows "forwarder_ok (untrack c f\<lparr>fw_pipes := (fw_pipes f)(c := None), fw_wg := fw_wg f - 1\<rparr>)"
proof -
  note ok = forwarder_okD [OF assms(2)] and rm = pipe_removed [where m = "fw_pipes f", OF assms(1)]
  have live: "0 < card (dom (fw_pipes f))" using ok(1) assms(1) by (auto simp: card_gt_0_iff)
  then have "fw_returned f = Map.empty" using ok(3,7) by auto
  moreover have "conns_ok (fw_closed f) (fw_used f) (fw_open f - {c}) (fw_conns f - {c})
      (serve_tracked (fw_serve f) \<union> pipe_conns ((fw_pipes f)(c := None))) (serve_held (fw_serve f) \<union> pipe_held ((fw_pipes f)(c := None)))
      (pipe_drained ((fw_pipes f)(c := None)))"
    by (rule conns_untracked [OF ok(8)]) (use rm in auto)
  moreover have "dom ((fw_pipes f)(c := None)) = dom (fw_pipes f) - {c}" by auto
  moreover have "card (dom (fw_pipes f) - {c}) = card (dom (fw_pipes f)) - 1" using ok(1) assms(1) by (simp add: card_Diff_singleton domIff)
  ultimately show ?thesis
    using ok live by (simp add: forwarder_ok_def untrack_def close_conn_def)
qed

lemma close_called_ok:
  assumes "fw_waiting f k = None" "fw_returned f k = None" "forwarder_ok f"
  shows "forwarder_ok (Close_marked k e f)"
proof -
  note ok = forwarder_okD [OF assms(3)]
  show ?thesis using ok conns_closed_all [OF ok(8)] by (simp add: forwarder_ok_def Close_marked_def)
qed

lemma close_returned_ok:
  assumes "fw_waiting f k = Some e" "fw_wg f = 0" "forwarder_ok f"
  shows "forwarder_ok (f\<lparr>fw_waiting := (fw_waiting f)(k := None), fw_returned := (fw_returned f)(k \<mapsto> Close_result e)\<rparr>)"
proof -
  note ok = forwarder_okD [OF assms(3)]
  have "fw_closed f" using ok(6) assms(1) by auto
  then show ?thesis using ok assms(2) by (simp add: forwarder_ok_def)
qed

lemma forwarder_ok_step: "forward_step f e g \<Longrightarrow> forwarder_ok f \<Longrightarrow> forwarder_ok g"
  by (induction rule: forward_step.induct) (fact accept_ok accept_error_ok accept_closed_ok client_tracked_ok client_refused_ok spawn_ok
    dialed_ok dial_failed_ok server_tracked_ok server_refused_ok copy_step_ok drained_ok server_untracked_ok client_untracked_ok
    close_called_ok close_returned_ok | blast intro: copy_step_ok)+

section \<open>Closing\<close>

lemma forwarder_ok_new: "forwarder_ok new_forwarder"
  by (simp add: forwarder_ok_def new_forwarder_def conns_ok_def pipe_conns_def pipe_held_def pipe_drained_def)

interpretation forwarder: invariant_system "\<lambda>f. f = new_forwarder" forward_step forwarder_ok
  by unfold_locales (simp_all add: forwarder_ok_new forwarder_ok_step)

text \<open>The steps that the goroutines of a closed forwarder still have to make.\<close>

fun serve_work :: "serve_pc \<Rightarrow> nat" where
  "serve_work Accepting = 1"
| "serve_work (Accepted c) = 2"
| "serve_work (Spawning c) = 8"
| "serve_work ServeDone = 0"

fun pipe_work :: "pipe_pc \<Rightarrow> nat" where
  "pipe_work Dialing = 6"
| "pipe_work (Dialed s) = 5"
| "pipe_work (Copying s) = 4"
| "pipe_work (Draining s) = 3"
| "pipe_work (LeavingServer s) = 2"
| "pipe_work Leaving = 1"

definition work :: "socketForwarder \<Rightarrow> nat" where
  "work f = serve_work (fw_serve f) + (\<Sum>c \<in> dom (fw_pipes f). pipe_work (the (fw_pipes f c)))"

lemma pipes_work_upd:
  assumes "finite (dom m)" "m c = Some pc0"
  shows "(\<Sum>k \<in> dom (m(c \<mapsto> pc)). pipe_work (the ((m(c \<mapsto> pc)) k))) + pipe_work pc0 = (\<Sum>k \<in> dom m. pipe_work (the (m k))) + pipe_work pc"
    "(\<Sum>k \<in> dom (m(c := None)). pipe_work (the ((m(c := None)) k))) + pipe_work pc0 = (\<Sum>k \<in> dom m. pipe_work (the (m k)))"
proof -
  have c: "c \<in> dom m" using assms(2) by auto
  have rest: "(\<Sum>k \<in> dom m - {c}. pipe_work (the ((m(c := v)) k))) = (\<Sum>k \<in> dom m - {c}. pipe_work (the (m k)))" for v
    by (rule sum.cong) auto
  have d: "dom (m(c \<mapsto> pc)) = dom m" "dom (m(c := None)) = dom m - {c}" using c by auto
  show "(\<Sum>k \<in> dom (m(c \<mapsto> pc)). pipe_work (the ((m(c \<mapsto> pc)) k))) + pipe_work pc0 = (\<Sum>k \<in> dom m. pipe_work (the (m k))) + pipe_work pc"
    unfolding d sum.remove [OF assms(1) c] rest [of "Some pc"] using assms(2) by simp
  show "(\<Sum>k \<in> dom (m(c := None)). pipe_work (the ((m(c := None)) k))) + pipe_work pc0 = (\<Sum>k \<in> dom m. pipe_work (the (m k)))"
    unfolding d rest [of None] sum.remove [OF assms(1) c] using assms(2) by simp
qed

lemma pipes_work_new:
  assumes "finite (dom m)" "m c = None"
  shows "(\<Sum>k \<in> dom (m(c \<mapsto> pc)). pipe_work (the ((m(c \<mapsto> pc)) k))) = (\<Sum>k \<in> dom m. pipe_work (the (m k))) + pipe_work pc"
proof -
  have "c \<notin> dom m" using assms(2) by auto
  moreover have "(\<Sum>k \<in> dom m. pipe_work (the ((m(c \<mapsto> pc)) k))) = (\<Sum>k \<in> dom m. pipe_work (the (m k)))"
    by (rule sum.cong) (use calculation in auto)
  ultimately show ?thesis using assms(1) by simp
qed

lemma closed_step_work:
  assumes "forwarder_ok f" "fw_closed f" "forward_step f e g" "e = Peer \<or> e = Goroutine"
  shows "work g < work f"
proof -
  note ok = forwarder_okD [OF assms(1)]
  have l: "\<not> fw_listening f" using ok(5) assms(2) by blast
  note upd = pipes_work_upd [where m = "fw_pipes f", OF ok(1)]
  from assms(3,4,2) l show ?thesis
  proof (cases rule: forward_step.cases)
    case (spawn c)
    then have "fw_pipes f c = None" using ok(4) by simp
    from pipes_work_new [OF ok(1) this, of Dialing] spawn show ?thesis by (simp add: work_def pipe_at_def)
  next
    case (dialed c s)
    then show ?thesis using upd(1) [of c Dialing "Dialed s"] by (simp add: work_def pipe_at_def opened_def)
  next
    case (dial_failed c)
    then show ?thesis using upd(1) [of c Dialing Leaving] by (simp add: work_def pipe_at_def)
  next
    case (server_refused c s g')
    then show ?thesis using upd(1) [of c "Dialed s" Leaving] by (auto simp: work_def pipe_at_def track_def close_conn_def split: if_splits)
  next
    case (peer_ended c s)
    then show ?thesis using upd(1) [of c "Copying s" "Draining s"] by (simp add: work_def pipe_at_def close_conn_def)
  next
    case (copy_ended c s)
    then show ?thesis using upd(1) [of c "Copying s" "Draining s"] by (simp add: work_def pipe_at_def close_conn_def)
  next
    case (drained c s)
    then show ?thesis using upd(1) [of c "Draining s" "LeavingServer s"] by (simp add: work_def pipe_at_def)
  next
    case (server_untracked c s)
    then show ?thesis using upd(1) [of c "LeavingServer s" Leaving] by (simp add: work_def pipe_at_def untrack_def close_conn_def)
  next
    case (client_untracked c)
    then show ?thesis using upd(2) [of c Leaving] by (simp add: work_def untrack_def close_conn_def)
  qed (auto simp: work_def track_def close_conn_def split: if_splits)
qed

lemma closed_progress:
  assumes "forwarder_ok f" "fw_closed f" "0 < fw_wg f"
  shows "\<exists>g. forward_step f Goroutine g"
proof -
  note ok = forwarder_okD [OF assms(1)]
  have l: "\<not> fw_listening f" using ok(5) assms(2) by blast
  have none_open: "x \<notin> fw_open f" if "x \<in> pipe_conns (fw_pipes f)" for x
    using ok(8) assms(2) that unfolding conns_ok_def by blast
  have refused: "track x f = (False, f)" for x using assms(2) by (simp add: track_def)
  show ?thesis
  proof (cases "fw_serve f")
    case Accepting then show ?thesis using accept_closed l by blast
  next
    case (Accepted c) then show ?thesis using client_refused refused by blast
  next
    case (Spawning c) then show ?thesis using spawn by blast
  next
    case ServeDone
    then have "dom (fw_pipes f) \<noteq> {}" using ok(3) assms(3) by auto
    then obtain c where "c \<in> dom (fw_pipes f)" by blast
    then obtain pc where c: "fw_pipes f c = Some pc" by blast
    have conns: "c \<in> pipe_conns (fw_pipes f)" "server_of pc \<subseteq> pipe_conns (fw_pipes f)" using c by (auto simp: pipe_conns_def)
    show ?thesis
    proof (cases pc)
      case Dialing then show ?thesis using dial_failed c by blast
    next
      case (Dialed s) then show ?thesis using server_refused refused c by blast
    next
      case (Copying s) then show ?thesis using copy_ended c none_open [OF conns(1)] by blast
    next
      case (Draining s)
      then have "s \<notin> fw_open f" using none_open conns(2) by simp
      then show ?thesis using drained c none_open [OF conns(1)] Draining by blast
    next
      case (LeavingServer s) then show ?thesis using server_untracked c by blast
    next
      case Leaving then show ?thesis using client_untracked c by blast
    qed
  qed
qed

text \<open>C30: a closed endpoint is gone. In every reachable state, whatever was accepting, dialling, copying or
  closing at that moment: once a call of \<open>Close\<close> has returned the listener is closed, no goroutine of
  the forwarder is left and no connection it accepted or dialled is open or tracked. Before that, a
  closed forwarder accepts nothing more, always has a step to make that waits for no peer, and
  every step its goroutines make brings the end nearer, so that \<open>Close\<close> returns after at most
  \<open>work f\<close> of them.\<close>

theorem forwarder_close_complete:
  assumes "reachable (\<lambda>f. f = new_forwarder) forward_step f" "fw_closed f"
  shows "\<not> fw_listening f \<and>
    (fw_wg f = 0 \<longrightarrow> fw_open f = {} \<and> fw_conns f = {} \<and> fw_pipes f = Map.empty \<and> fw_serve f = ServeDone) \<and>
    (\<forall>k. fw_returned f k \<noteq> None \<longrightarrow> fw_wg f = 0) \<and>
    (fw_wg f \<noteq> 0 \<longrightarrow> (\<exists>g. forward_step f Goroutine g)) \<and>
    (\<forall>e g. forward_step f e g \<longrightarrow> e = Peer \<or> e = Goroutine \<longrightarrow> work g < work f) \<and>
    (\<forall>k. fw_waiting f k \<noteq> None \<and> fw_wg f = 0 \<longrightarrow> (\<exists>g. forward_step f (CloseReturns k) g))"
proof -
  have ok: "forwarder_ok f" using assms(1) by (rule forwarder.inv_reachable)
  note facts = forwarder_okD [OF ok]
  have gone: "fw_open f = {} \<and> fw_conns f = {} \<and> fw_pipes f = Map.empty \<and> fw_serve f = ServeDone" if "fw_wg f = 0"
  proof -
    have s: "fw_serve f = ServeDone" using facts(3) that by (auto simp: serving_def split: if_splits)
    have p: "fw_pipes f = Map.empty" using facts(1,3) that by auto
    then have "pipe_conns (fw_pipes f) = {}" "pipe_held (fw_pipes f) = {}" by (simp_all add: pipe_conns_def pipe_held_def)
    then show ?thesis using facts(8) s p unfolding conns_ok_def by auto
  qed
  have ret: "fw_wg f = 0" if "fw_returned f k \<noteq> None" for k using facts(7) that by auto
  show ?thesis
    using facts(5) assms(2) gone ret closed_progress [OF ok assms(2)] closed_step_work [OF ok assms(2)] close_returned
    by (intro conjI allI impI) blast+
qed

theorem forwarder_close_complete_witness:
  "\<exists>f. reachable (\<lambda>f. f = new_forwarder) forward_step f \<and> fw_closed f \<and> fw_returned f 7 \<noteq> None \<and> fw_open f = {}"
proof -
  let ?f1 = "Close_marked 7 None new_forwarder"
  let ?f2 = "?f1\<lparr>fw_serve := ServeDone, fw_wg := fw_wg ?f1 - 1\<rparr>"
  let ?f3 = "?f2\<lparr>fw_waiting := (fw_waiting ?f2)(7 := None), fw_returned := (fw_returned ?f2)(7 \<mapsto> Close_result None)\<rparr>"
  have "forward_step new_forwarder (CallsClose 7) ?f1" by (rule close_called) (simp_all add: new_forwarder_def)
  moreover have "forward_step ?f1 Goroutine ?f2" by (rule accept_closed) (simp_all add: new_forwarder_def Close_marked_def)
  moreover have "forward_step ?f2 (CloseReturns 7) ?f3" by (rule close_returned) (simp_all add: new_forwarder_def Close_marked_def)
  ultimately have r: "reachable (\<lambda>f. f = new_forwarder) forward_step ?f3"
    by (metis (mono_tags, lifting) reachable_init reachable_step)
  have "fw_closed ?f3" "fw_returned ?f3 7 \<noteq> None" by (simp_all add: Close_marked_def)
  with r obtain f where f: "reachable (\<lambda>f. f = new_forwarder) forward_step f" "fw_closed f" "fw_returned f 7 \<noteq> None" by blast
  from forwarder_close_complete [OF f(1,2)] f(3) have "fw_open f = {}" by metis
  with f show ?thesis by blast
qed

end
