(* ===== verification/PgLog.thy ===== *)
theory PgLog
  imports Prelude
begin

text \<open>
  \<open>pglog.go\<close>: the server's log stream, split into lines and re-emitted at a level. The parser of one line
  is the \<open>gortk\<close> library's and a parameter; the writer's buffer and the entries it hands to the logger
  are explicit.
\<close>

record log_record =
  rec_Level :: string
  rec_msg :: "string option"
  rec_pid :: "string option"

datatype Loglevel = FATAL | ERROR | WARN | INFO | DEBUG

type_synonym log_entry = "Loglevel \<times> string \<times> (string \<times> string) list"

definition woolLevel :: "string \<Rightarrow> Loglevel" where
  "woolLevel level =
     (if level = ''fatal'' then FATAL else if level = ''error'' then ERROR else if level = ''warn'' then WARN
      else if level = ''debug'' then DEBUG else INFO)"

definition TrimRight :: "char \<Rightarrow> string \<Rightarrow> string" where
  "TrimRight c s = rev (dropWhile (\<lambda>x. x = c) (rev s))"

text \<open>The entries of one line: none for a blank line. A field that is no string reads as the empty string.\<close>

definition emit :: "(string \<Rightarrow> log_record) \<Rightarrow> string \<Rightarrow> log_entry list" where
  "emit Parse line =
     (if blank line then []
      else
       (let rec = Parse line; msg = (case rec_msg rec of None \<Rightarrow> [] | Some m \<Rightarrow> m) in
        [(woolLevel (rec_Level rec), msg, case rec_pid rec of Some pid \<Rightarrow> if pid \<noteq> [] then [(''pid'', pid)] else [] | None \<Rightarrow> [])]))"

lemma Cut_found: "c \<in> set s \<Longrightarrow> \<exists>a b. s = a @ c # b \<and> c \<notin> set a \<and> Cut s c = (a, b, True)"
proof -
  assume "c \<in> set s"
  then obtain a b where s: "s = a @ c # b" "c \<notin> set a" by (metis split_list_first)
  then have "Cut s c = (a, b, True)" by (auto simp: Cut_def takeWhile_append dropWhile_append)
  with s show ?thesis by blast
qed

lemma Cut_shorter: "Cut s c = (a, b, True) \<Longrightarrow> length b < length s"
proof -
  assume h: "Cut s c = (a, b, True)"
  then have "c \<in> set s" by (simp add: Cut_def split: if_splits)
  from Cut_found [OF this] h show ?thesis by auto
qed

function write_loop :: "(string \<Rightarrow> log_record) \<Rightarrow> string \<Rightarrow> log_entry list \<times> string" where
  "write_loop Parse buf =
     (case Cut buf LF of (line, rest, found) \<Rightarrow>
        if \<not> found then ([], buf)
        else (case write_loop Parse rest of (entries, left) \<Rightarrow> (emit Parse (TrimRight CR line) @ entries, left)))"
  by auto
termination
  by (relation "measure (length \<circ> snd)") (auto dest!: sym [of "(_, _)" "Cut _ _"] dest: Cut_shorter)

declare write_loop.simps [simp del]

text \<open>\<open>Write\<close> returns the length of its argument and no error, beside the entries and the new buffer.\<close>

definition Write :: "(string \<Rightarrow> log_record) \<Rightarrow> string \<Rightarrow> string \<Rightarrow> (nat \<times> log_entry list) \<times> string" where
  "Write Parse b buf = (case write_loop Parse (buf @ b) of (entries, left) \<Rightarrow> ((length b, entries), left))"

fun write_all :: "(string \<Rightarrow> log_record) \<Rightarrow> string list \<Rightarrow> string \<Rightarrow> log_entry list \<times> string" where
  "write_all Parse [] buf = ([], buf)"
| "write_all Parse (b # bs) buf =
     (case Write Parse b buf of ((n, entries), left) \<Rightarrow> (case write_all Parse bs left of (later, last') \<Rightarrow> (entries @ later, last')))"

section \<open>Chunks do not matter\<close>

lemma write_loop_line: "LF \<notin> set a \<Longrightarrow> write_loop Parse (a @ LF # b) =
    (emit Parse (TrimRight CR a) @ fst (write_loop Parse b), snd (write_loop Parse b))"
  by (subst write_loop.simps) (auto simp: Cut_def takeWhile_append dropWhile_append split: prod.splits)

lemma write_loop_partial: "LF \<notin> set buf \<Longrightarrow> write_loop Parse buf = ([], buf)"
  by (subst write_loop.simps) (simp add: Cut_def)

lemma lines_induct [case_names partial line]:
  assumes "\<And>buf. LF \<notin> set buf \<Longrightarrow> P buf" "\<And>a b. LF \<notin> set a \<Longrightarrow> P b \<Longrightarrow> P (a @ LF # b)"
  shows "P buf"
proof (induction buf rule: length_induct)
  case (1 buf)
  show ?case
  proof (cases "LF \<in> set buf")
    case True
    then obtain a b where "buf = a @ LF # b" "LF \<notin> set a" by (metis split_list_first)
    then show ?thesis using assms(2) 1 by simp
  qed (rule assms(1))
qed

lemma write_loop_append:
  "write_loop Parse (a @ b) = (fst (write_loop Parse a) @ fst (write_loop Parse (snd (write_loop Parse a) @ b)), snd (write_loop Parse (snd (write_loop Parse a) @ b)))"
proof (induction a rule: lines_induct)
  case (partial buf) then show ?case by (simp add: write_loop_partial)
next
  case (line l rest)
  then show ?case using write_loop_line [of l Parse "rest @ b"] write_loop_line [of l Parse rest] by simp
qed

lemma write_loop_lines:
  "write_loop Parse buf = (concat (map (emit Parse \<circ> TrimRight CR) (butlast (Split buf LF))), last (Split buf LF))"
proof (induction buf rule: lines_induct)
  case (partial buf)
  then have "Split buf LF = [buf]" by (induction buf) auto
  then show ?case using partial by (simp add: write_loop_partial)
next
  case (line l rest)
  have "Split (l @ LF # rest) LF = l # Split rest LF" using line(1) by (induction l) auto
  then show ?case using line by (simp add: write_loop_line)
qed

text \<open>C31: the log is the same however the runner cuts the stream. Writing any chunks one after the other
  emits exactly the non-blank, newline-terminated lines of the whole stream, in order, each once
  and without its carriage returns, at the level of its severity; what follows the last newline
  is kept for the next chunk, and every chunk is reported as consumed.\<close>

theorem log_chunking_irrelevant:
  "write_all Parse chunks [] =
     (concat (map (emit Parse \<circ> TrimRight CR) (butlast (Split (concat chunks) LF))), last (Split (concat chunks) LF)) \<and>
   list_all (\<lambda>b. fst (fst (Write Parse b buf)) = length b) chunks"
proof -
  have all: "write_all Parse bs buf = write_loop Parse (buf @ concat bs)" if "LF \<notin> set buf" for bs buf
    using that
  proof (induction bs arbitrary: buf)
    case Nil then show ?case by (simp add: write_loop_partial)
  next
    case (Cons b bs)
    have "LF \<notin> set (snd (write_loop Parse (buf @ b)))"
      unfolding write_loop_lines snd_conv by (rule Split_sep_free [of _ "buf @ b"]) simp
    from Cons.IH [OF this] show ?case
      using write_loop_append [of Parse "buf @ b" "concat bs"] by (simp add: Write_def case_prod_unfold)
  qed
  show ?thesis using all [of "[]" chunks] by (simp add: write_loop_lines Write_def list_all_iff split: prod.splits)
qed

end
