(* ===== verification/CloudIdentity.thy ===== *)
theory CloudIdentity
  imports GoURL
begin

text \<open>
  \<open>libs/go/gcpcloudsql.go\<close> and \<open>libs/go/azureentra.go\<close>: the credentials a workload mints for its database
  logins. Google's token sources, the IAM service, JSON and the clock formats are parameters; \<open>oauth2\<close>'s
  reuse of a token is one too, with the documented fact that it only hands out a token its source
  minted. Every request to IAM and every token it returned are recorded.
\<close>

definition gcpCloudSQLScope :: string where "gcpCloudSQLScope = ''https://www.googleapis.com/auth/sqlservice.login''"
definition gcpImpersonationScope :: string where "gcpImpersonationScope = ''https://www.googleapis.com/auth/cloud-platform''"
definition gcpServiceAccountSuffix :: string where "gcpServiceAccountSuffix = ''.gserviceaccount.com''"
definition gcpIAMCredentialsEndpoint :: string where "gcpIAMCredentialsEndpoint = ''https://iamcredentials.googleapis.com''"
definition gcpTokenLifetime :: nat where "gcpTokenLifetime = 3600"
definition gcpMaxResponseBytes :: nat where "gcpMaxResponseBytes = 65536"

section \<open>Login names\<close>

text \<open>\<open>gcpSQLLoginPattern\<close>, \<open>^[a-z][a-z0-9-]{4,28}[a-z0-9]@[a-z0-9][a-z0-9.:-]{4,28}[a-z0-9]\.iam$\<close>.\<close>

definition lower_or_digit :: "char \<Rightarrow> bool" where
  "lower_or_digit c \<longleftrightarrow> is_lower c \<or> is_digit c"

definition bracketed :: "(char \<Rightarrow> bool) \<Rightarrow> (char \<Rightarrow> bool) \<Rightarrow> string \<Rightarrow> bool" where
  "bracketed first middle s \<longleftrightarrow>
     6 \<le> length s \<and> length s \<le> 30 \<and> first (hd s) \<and> list_all middle (butlast (tl s)) \<and> lower_or_digit (last s)"

definition account_char :: "char \<Rightarrow> bool" where
  "account_char c \<longleftrightarrow> lower_or_digit c \<or> c = CHR ''-''"

definition project_char :: "char \<Rightarrow> bool" where
  "project_char c \<longleftrightarrow> lower_or_digit c \<or> c \<in> {CHR ''.'', CHR '':'', CHR ''-''}"

definition gcpSQLLoginPattern :: "string \<Rightarrow> bool" where
  "gcpSQLLoginPattern s =
     (case Cut s (CHR ''@'') of (name, rest, found) \<Rightarrow>
        found \<and> bracketed is_lower account_char name \<and> suffix ''.iam'' rest \<and>
        bracketed lower_or_digit project_char (TrimSuffix rest ''.iam''))"

text \<open>\<open>url.PathEscape\<close>: one path segment.\<close>

definition segment_char :: "char \<Rightarrow> bool" where
  "segment_char c \<longleftrightarrow> unreserved c \<or> c \<in> {CHR ''$'', CHR ''&'', CHR ''+'', CHR '':'', CHR ''='', CHR ''@''}"

definition PathEscape :: "string \<Rightarrow> string" where
  "PathEscape s = escape segment_char s"

section \<open>The identity\<close>

record oauth_token =
  AccessToken :: string
  TokenType :: string
  Expiry :: "int option"

record iam_request =
  req_url :: string
  req_scope :: "string list"
  req_lifetime :: string
  req_bearer :: oauth_token

record iam_response =
  StatusCode :: nat
  Body :: string

datatype cloud_error =
    TokenSourceMissing
  | NotServiceAccount string
  | NoLogin
  | NotALogin
  | SourceFailed string
  | CallerTokenFailed string
  | RequestFailed string
  | ReadFailed string
  | Refused nat
  | NotDecoded string
  | EmptyMinted string
  | NoExpiry string
  | EmptyToken
  | ResolveFailed string

text \<open>
  \<open>Token_of\<close> are the ambient sources by scope; \<open>Do\<close> is the HTTP exchange, \<open>ReadAll\<close> the bounded read of a
  body, \<open>reused\<close> the token that \<open>oauth2\<close> still considers fresh for a principal.
\<close>

record cloud =
  DefaultTokenSource :: "string \<Rightarrow> string option"
  metadata_Email :: "(string, string) result"
  Token_of :: "string \<Rightarrow> nat \<Rightarrow> (string, oauth_token) result"
  Do :: "iam_request \<Rightarrow> nat \<Rightarrow> (string, iam_response) result"
  ReadAll :: "nat \<Rightarrow> string \<Rightarrow> (string, string) result"
  Unmarshal_minted :: "string \<Rightarrow> (string, string \<times> string) result"
  time_Parse :: "string \<Rightarrow> int option"
  reused :: "string \<Rightarrow> (string \<times> oauth_token) list \<Rightarrow> nat \<Rightarrow> oauth_token option"

record gcpIdentity =
  ownLogin :: string
  own_scope :: string
  caller_scope :: string
  endpoint :: string
  borrowed :: "string list"
  requested :: "iam_request list"
  minted :: "(string \<times> oauth_token) list"
  ticks :: nat

definition newGCPIdentity :: "string \<Rightarrow> string option \<Rightarrow> string option \<Rightarrow> string \<Rightarrow> (cloud_error, gcpIdentity) result" where
  "newGCPIdentity login own caller ep =
     (case (own, caller) of
        (Some o', Some c) \<Rightarrow>
          if \<not> gcpSQLLoginPattern login then Inl (NotServiceAccount login)
          else Inr \<lparr>ownLogin = login, own_scope = o', caller_scope = c, endpoint = TrimSuffix ep ''/'', borrowed = [],
                 requested = [], minted = [], ticks = 0\<rparr>
      | _ \<Rightarrow> Inl TokenSourceMissing)"

definition gcpCloudSQLIAM :: "cloud \<Rightarrow> (cloud_error, gcpIdentity) result" where
  "gcpCloudSQLIAM C =
     (case DefaultTokenSource C gcpCloudSQLScope of
        Some e \<Rightarrow> Inl (ResolveFailed e)
      | None \<Rightarrow>
          (case DefaultTokenSource C gcpImpersonationScope of
             Some e \<Rightarrow> Inl (ResolveFailed e)
           | None \<Rightarrow>
               (case metadata_Email C of
                  Inl e \<Rightarrow> Inl (ResolveFailed e)
                | Inr email \<Rightarrow>
                    newGCPIdentity (TrimSuffix (TrimSpace email) gcpServiceAccountSuffix) (Some gcpCloudSQLScope)
                      (Some gcpImpersonationScope) gcpIAMCredentialsEndpoint)))"

section \<open>Minting\<close>

definition exchange_request :: "gcpIdentity \<Rightarrow> string \<Rightarrow> oauth_token \<Rightarrow> iam_request" where
  "exchange_request g account caller =
     \<lparr>req_url = endpoint g @ ''/v1/projects/-/serviceAccounts/'' @ PathEscape account @ '':generateAccessToken'',
      req_scope = [gcpCloudSQLScope], req_lifetime = Itoa gcpTokenLifetime @ ''s'', req_bearer = caller\<rparr>"

text \<open>What IAM's answer is worth.\<close>

definition minted_token :: "cloud \<Rightarrow> string \<Rightarrow> iam_response \<Rightarrow> (cloud_error, oauth_token) result" where
  "minted_token C account response =
     (case ReadAll C gcpMaxResponseBytes (Body response) of
        Inl e \<Rightarrow> Inl (ReadFailed account)
      | Inr payload \<Rightarrow>
          if StatusCode response \<noteq> 200 then Inl (Refused (StatusCode response))
          else case Unmarshal_minted C payload of
            Inl e \<Rightarrow> Inl (NotDecoded account)
          | Inr (access, expires) \<Rightarrow>
              if access = [] then Inl (EmptyMinted account)
              else case time_Parse C expires of
                None \<Rightarrow> Inl (NoExpiry account)
              | Some expiry \<Rightarrow> Inr \<lparr>AccessToken = access, TokenType = ''Bearer'', Expiry = Some expiry\<rparr>)"

definition exchange :: "cloud \<Rightarrow> string \<Rightarrow> gcpIdentity \<Rightarrow> (cloud_error, oauth_token) result \<times> gcpIdentity" where
  "exchange C account g =
     (case Token_of C (caller_scope g) (ticks g) of
        Inl e \<Rightarrow> (Inl (CallerTokenFailed e), g\<lparr>ticks := Suc (ticks g)\<rparr>)
      | Inr caller \<Rightarrow>
          (let req = exchange_request g account caller; g1 = g\<lparr>ticks := Suc (ticks g), requested := requested g @ [req]\<rparr> in
           case Do C req (ticks g) of
             Inl e \<Rightarrow> (Inl (RequestFailed account), g1)
           | Inr response \<Rightarrow>
               (case minted_token C account response of
                  Inl e \<Rightarrow> (Inl e, g1)
                | Inr t \<Rightarrow> (Inr t, g1\<lparr>minted := minted g1 @ [(account, t)]\<rparr>))))"

definition borrow :: "string \<Rightarrow> gcpIdentity \<Rightarrow> (cloud_error, string) result \<times> gcpIdentity" where
  "borrow login g =
     (if \<not> gcpSQLLoginPattern login then (Inl NotALogin, g)
      else (Inr (login @ gcpServiceAccountSuffix), if login \<in> set (borrowed g) then g else g\<lparr>borrowed := borrowed g @ [login]\<rparr>))"

definition accessTokenFrom :: "(cloud_error, oauth_token) result \<Rightarrow> (cloud_error, string) result" where
  "accessTokenFrom r = (case r of Inl e \<Rightarrow> Inl e | Inr t \<Rightarrow> if AccessToken t = [] then Inl EmptyToken else Inr (AccessToken t))"

definition ambient_token :: "cloud \<Rightarrow> string \<Rightarrow> gcpIdentity \<Rightarrow> (cloud_error, oauth_token) result \<times> gcpIdentity" where
  "ambient_token C scope g =
     ((case Token_of C scope (ticks g) of Inl e \<Rightarrow> Inl (SourceFailed e) | Inr t \<Rightarrow> Inr t), g\<lparr>ticks := Suc (ticks g)\<rparr>)"

definition borrowed_token :: "cloud \<Rightarrow> string \<Rightarrow> gcpIdentity \<Rightarrow> (cloud_error, oauth_token) result \<times> gcpIdentity" where
  "borrowed_token C account g =
     (case reused C account (minted g) (ticks g) of Some t \<Rightarrow> (Inr t, g) | None \<Rightarrow> exchange C account g)"

definition gcp_token :: "cloud \<Rightarrow> string \<Rightarrow> gcpIdentity \<Rightarrow> (cloud_error, string) result \<times> gcpIdentity" where
  "gcp_token C account g =
     (let login = TrimSpace account in
      if login = [] then (Inl NoLogin, g)
      else if login = ownLogin g then (case ambient_token C (own_scope g) g of (r, g1) \<Rightarrow> (accessTokenFrom r, g1))
      else case borrow login g of
        (Inl e, g1) \<Rightarrow> (Inl e, g1)
      | (Inr source, g1) \<Rightarrow> (case borrowed_token C source g1 of (r, g2) \<Rightarrow> (accessTokenFrom r, g2)))"

section \<open>Azure\<close>

definition azureEntraScope :: string where "azureEntraScope = ''https://ossrdbms-aad.database.windows.net/.default''"

definition azureEntraWorkloadIdentity :: "string option \<Rightarrow> cloud_error option" where
  "azureEntraWorkloadIdentity err = map_option ResolveFailed err"

definition accessTokenProviderFromCredential :: "(string list \<Rightarrow> (string, string) result) \<Rightarrow> string \<Rightarrow> (cloud_error, string) result" where
  "accessTokenProviderFromCredential GetToken account =
     (case GetToken [azureEntraScope] of Inl e \<Rightarrow> Inl (SourceFailed e) | Inr t \<Rightarrow> if t = [] then Inl EmptyToken else Inr t)"

section \<open>What is handed out\<close>

lemma bracketed_chars:
  assumes "bracketed first middle s" "\<And>c. first c \<Longrightarrow> P c" "\<And>c. middle c \<Longrightarrow> P c" "\<And>c. lower_or_digit c \<Longrightarrow> P c"
  shows "list_all P s"
proof -
  from assms(1) have len: "6 \<le> length s" by (simp add: bracketed_def)
  then have "s = hd s # butlast (tl s) @ [last s]" by (cases s; cases "tl s" rule: rev_cases) auto
  moreover have "P (hd s)" "list_all P (butlast (tl s))" "P (last s)" using assms by (auto simp: bracketed_def list_all_iff)
  ultimately show ?thesis by (metis list.pred_inject(1,2) list_all_append)
qed

lemma login_chars: "lower_or_digit c \<or> c \<in> {CHR ''-'', CHR ''.'', CHR '':'', CHR ''@''} \<Longrightarrow> segment_char c \<and> c \<noteq> CHR ''/''"
proof -
  have "\<not> lower_or_digit (CHR ''/'')" by code_simp
  then show "lower_or_digit c \<or> c \<in> {CHR ''-'', CHR ''.'', CHR '':'', CHR ''@''} \<Longrightarrow> ?thesis"
    by (auto simp: segment_char_def unreserved_def is_alnum_def lower_or_digit_def)
qed

lemma login_shape:
  assumes "gcpSQLLoginPattern s"
  shows "list_all (\<lambda>c. segment_char c \<and> c \<noteq> CHR ''/'') s" "length s \<le> 65"
proof -
  let ?ok = "\<lambda>c. segment_char c \<and> c \<noteq> CHR ''/''"
  obtain name rest where cut: "Cut s (CHR ''@'') = (name, rest, True)" and parts: "bracketed is_lower account_char name" "suffix ''.iam'' rest"
    "bracketed lower_or_digit project_char (TrimSuffix rest ''.iam'')"
    using assms by (auto simp: gcpSQLLoginPattern_def split: prod.splits)
  have s: "s = name @ CHR ''@'' # rest"
  proof -
    have "CHR ''@'' \<in> set s" using cut by (simp add: Cut_def split: if_splits)
    then obtain a b where "s = a @ CHR ''@'' # b" "CHR ''@'' \<notin> set a" by (metis split_list_first)
    then show ?thesis using cut Cut_append [of "CHR ''@''" a b] by simp
  qed
  obtain project where rest: "rest = project @ ''.iam''" using parts(2) by (auto simp: suffix_def)
  then have project: "bracketed lower_or_digit project_char project" using parts(3) by (simp add: TrimSuffix_def suffix_def)
  have "list_all ?ok name" by (rule bracketed_chars [OF parts(1)]) (auto simp: account_char_def lower_or_digit_def intro!: login_chars)
  moreover have "list_all ?ok project" by (rule bracketed_chars [OF project]) (auto simp: project_char_def intro!: login_chars)
  moreover have "list_all ?ok ''@.iam''" using login_chars by (simp add: lower_or_digit_def is_lower_def)
  ultimately show "list_all ?ok s" using s rest by simp
  show "length s \<le> 65" using parts(1) project s rest by (simp add: bracketed_def)
qed

lemma PathEscape_id: "list_all segment_char s \<Longrightarrow> PathEscape s = s"
  by (induction s) (simp_all add: PathEscape_def escape_def)

lemma principal_verbatim:
  assumes "gcpSQLLoginPattern login"
  shows "PathEscape (login @ gcpServiceAccountSuffix) = login @ gcpServiceAccountSuffix"
proof (rule PathEscape_id)
  have "list_all segment_char gcpServiceAccountSuffix" by code_simp
  then show "list_all segment_char (login @ gcpServiceAccountSuffix)" using login_shape(1) [OF assms] by (auto simp: list_all_iff)
qed

text \<open>What a request to IAM may be, and what a recorded token is: IAM's own answer to such a request.\<close>

definition login_request :: "gcpIdentity \<Rightarrow> iam_request \<Rightarrow> bool" where
  "login_request g req \<longleftrightarrow>
     (\<exists>login. gcpSQLLoginPattern login \<and> login \<noteq> ownLogin g \<and>
        req_url req = endpoint g @ ''/v1/projects/-/serviceAccounts/'' @ login @ gcpServiceAccountSuffix @ '':generateAccessToken'') \<and>
     req_scope req = [gcpCloudSQLScope] \<and> req_lifetime req = ''3600s''"

definition iam_minted :: "cloud \<Rightarrow> gcpIdentity \<Rightarrow> string \<times> oauth_token \<Rightarrow> bool" where
  "iam_minted C g pt \<longleftrightarrow>
     (\<exists>caller n response. Do C (exchange_request g (fst pt) caller) n = Inr response \<and> exchange_request g (fst pt) caller \<in> set (requested g) \<and>
        StatusCode response = 200 \<and> minted_token C (fst pt) response = Inr (snd pt)) \<and>
     AccessToken (snd pt) \<noteq> [] \<and> Expiry (snd pt) \<noteq> None"

definition identity_ok :: "cloud \<Rightarrow> gcpIdentity \<Rightarrow> bool" where
  "identity_ok C g \<longleftrightarrow>
     gcpSQLLoginPattern (ownLogin g) \<and> distinct (borrowed g) \<and> list_all (\<lambda>l. gcpSQLLoginPattern l \<and> l \<noteq> ownLogin g) (borrowed g) \<and>
     list_all (login_request g) (requested g) \<and> list_all (iam_minted C g) (minted g)"

text \<open>\<open>oauth2\<close> hands out a token again only if its source minted it.\<close>

definition reuse_law :: "cloud \<Rightarrow> bool" where
  "reuse_law C \<longleftrightarrow> (\<forall>account ts n t. reused C account ts n = Some t \<longrightarrow> (account, t) \<in> set ts)"

lemma minted_token_ok: "minted_token C account response = Inr t \<Longrightarrow> StatusCode response = 200 \<and> AccessToken t \<noteq> [] \<and> Expiry t \<noteq> None"
  by (auto simp: minted_token_def split: sum.splits prod.splits if_splits option.splits)

lemma iam_minted_mono:
  "iam_minted C g pt \<Longrightarrow> endpoint g' = endpoint g \<Longrightarrow> set (requested g) \<subseteq> set (requested g') \<Longrightarrow> iam_minted C g' pt"
proof -
  assume h: "iam_minted C g pt" "endpoint g' = endpoint g" "set (requested g) \<subseteq> set (requested g')"
  have "exchange_request g' = exchange_request g" using h(2) by (simp add: exchange_request_def [abs_def])
  then show ?thesis using h(1,3) unfolding iam_minted_def by (simp only:) blast
qed

lemma login_request_frame: "ownLogin g' = ownLogin g \<Longrightarrow> endpoint g' = endpoint g \<Longrightarrow> login_request g' = login_request g"
  by (simp add: login_request_def [abs_def])

lemma identity_ok_grows:
  assumes "identity_ok C g" "ownLogin g' = ownLogin g" "endpoint g' = endpoint g" "set (requested g) \<subseteq> set (requested g')"
    "distinct (borrowed g')" "\<And>l. l \<in> set (borrowed g') \<Longrightarrow> l \<in> set (borrowed g) \<or> gcpSQLLoginPattern l \<and> l \<noteq> ownLogin g"
    "\<And>x. x \<in> set (requested g') \<Longrightarrow> x \<in> set (requested g) \<or> login_request g x"
    "\<And>x. x \<in> set (minted g') \<Longrightarrow> x \<in> set (minted g) \<or> iam_minted C g' x"
  shows "identity_ok C g'"
  using assms iam_minted_mono [OF _ assms(3,4)] login_request_frame [OF assms(2,3)]
  unfolding identity_ok_def list_all_iff by metis

lemma exchange_ok:
  assumes "identity_ok C g" "gcpSQLLoginPattern login" "login \<noteq> ownLogin g" "exchange C (login @ gcpServiceAccountSuffix) g = (r, g')"
  shows "identity_ok C g' \<and> ownLogin g' = ownLogin g \<and> endpoint g' = endpoint g \<and>
    (\<forall>t. r = Inr t \<longrightarrow> (login @ gcpServiceAccountSuffix, t) \<in> set (minted g'))"
proof (cases "Token_of C (caller_scope g) (ticks g)")
  case (Inl e)
  then have "r = Inl (CallerTokenFailed e)" "g' = g\<lparr>ticks := Suc (ticks g)\<rparr>" using assms(4) by (simp_all add: exchange_def)
  moreover have "identity_ok C (g\<lparr>ticks := Suc (ticks g)\<rparr>)"
    by (rule identity_ok_grows [OF assms(1)]) (use assms(1) in \<open>simp_all add: identity_ok_def\<close>)
  ultimately show ?thesis by simp
next
  case (Inr caller)
  let ?p = "login @ gcpServiceAccountSuffix"
  let ?req = "exchange_request g ?p caller"
  let ?g1 = "g\<lparr>ticks := Suc (ticks g), requested := requested g @ [?req]\<rparr>"
  have "Itoa gcpTokenLifetime @ ''s'' = ''3600s''" by code_simp
  then have "login_request g ?req"
    using assms(2,3) principal_verbatim [OF assms(2)] by (auto simp: login_request_def exchange_request_def)
  then have g1: "identity_ok C ?g1"
    by (intro identity_ok_grows [OF assms(1)]) (use assms(1) in \<open>auto simp: identity_ok_def\<close>)
  show ?thesis
  proof (cases "\<exists>response t. Do C ?req (ticks g) = Inr response \<and> minted_token C ?p response = Inr t")
    case False
    then have "g' = ?g1" "\<nexists>t. r = Inr t" using assms(4) Inr by (auto simp: exchange_def Let_def split: sum.splits)
    then show ?thesis using g1 by auto
  next
    case True
    then obtain response t where t: "Do C ?req (ticks g) = Inr response" "minted_token C ?p response = Inr t" by blast
    then have res: "r = Inr t" "g' = ?g1\<lparr>minted := minted g @ [(?p, t)]\<rparr>" using assms(4) Inr by (auto simp: exchange_def Let_def)
    have req: "exchange_request ?g1 ?p caller = ?req" by (simp add: exchange_request_def)
    have "iam_minted C ?g1 (?p, t)"
      unfolding iam_minted_def fst_conv snd_conv using t minted_token_ok [OF t(2)] req
      by (intro conjI exI [of _ caller] exI [of _ "ticks g"] exI [of _ response]) simp_all
    then have "iam_minted C g' (?p, t)" by (rule iam_minted_mono) (simp_all add: res(2))
    then have "identity_ok C g'"
      by (intro identity_ok_grows [OF g1]) (use g1 res(2) in \<open>auto simp: identity_ok_def\<close>)
    then show ?thesis using res by simp
  qed
qed

lemma borrow_ok:
  assumes "identity_ok C g" "login \<noteq> ownLogin g" "borrow login g = (r, g')"
  shows "identity_ok C g' \<and> ownLogin g' = ownLogin g \<and> endpoint g' = endpoint g \<and>
    (\<forall>source. r = Inr source \<longrightarrow> gcpSQLLoginPattern login \<and> source = login @ gcpServiceAccountSuffix \<and> login \<in> set (borrowed g'))"
proof -
  have "identity_ok C (g\<lparr>borrowed := borrowed g @ [login]\<rparr>)" if "gcpSQLLoginPattern login" "login \<notin> set (borrowed g)"
    by (rule identity_ok_grows [OF assms(1)]) (use assms(1,2) that in \<open>auto simp: identity_ok_def\<close>)
  then show ?thesis using assms by (auto simp: borrow_def split: if_splits)
qed

lemma borrowed_token_ok:
  assumes "reuse_law C" "identity_ok C g" "gcpSQLLoginPattern login" "login \<noteq> ownLogin g" "borrowed_token C (login @ gcpServiceAccountSuffix) g = (r, g')"
  shows "identity_ok C g' \<and> ownLogin g' = ownLogin g \<and> endpoint g' = endpoint g \<and>
    (\<forall>t. r = Inr t \<longrightarrow> (login @ gcpServiceAccountSuffix, t) \<in> set (minted g'))"
  using assms exchange_ok [OF assms(2-4), of r g'] unfolding reuse_law_def borrowed_token_def by (auto split: option.splits)

text \<open>C32: a login gets its own credential and no more. In a state of the provider where it holds, and so along any
  sequence of calls: every request sent to IAM asks for the login scope only, for an hour, for the service account
  that a well-formed login other than the workload's own stands for, written into the path unchanged;
  every recorded token is IAM's answer to such a request, with an expiry. A call that succeeds
  returns a non-empty token that is the workload's own at the login scope when the connection names
  its own login, and otherwise one that IAM minted for exactly the named login.\<close>

theorem cloud_token_for_login:
  assumes "reuse_law C" "identity_ok C g" "own_scope g = gcpCloudSQLScope" "gcp_token C account g = (r, g')"
  shows "identity_ok C g' \<and>
    (\<forall>token. r = Inr token \<longrightarrow> token \<noteq> [] \<and>
      (if TrimSpace account = ownLogin g then \<exists>t. Token_of C gcpCloudSQLScope (ticks g) = Inr t \<and> token = AccessToken t
       else gcpSQLLoginPattern (TrimSpace account) \<and>
         (\<exists>t. (TrimSpace account @ gcpServiceAccountSuffix, t) \<in> set (minted g') \<and> iam_minted C g' (TrimSpace account @ gcpServiceAccountSuffix, t) \<and>
            token = AccessToken t)))"
proof -
  let ?login = "TrimSpace account"
  consider "?login = []" | "?login \<noteq> []" "?login = ownLogin g" | "?login \<noteq> []" "?login \<noteq> ownLogin g" by blast
  then show ?thesis
  proof cases
    case 1 then show ?thesis using assms(2,4) by (auto simp: gcp_token_def)
  next
    case 2
    have "identity_ok C (g\<lparr>ticks := Suc (ticks g)\<rparr>)"
      by (rule identity_ok_grows [OF assms(2)]) (use assms(2) in \<open>simp_all add: identity_ok_def\<close>)
    then show ?thesis using assms(3,4) 2
      by (auto simp: gcp_token_def ambient_token_def accessTokenFrom_def Let_def split: sum.splits if_splits)
  next
    case 3
    obtain r1 g1 where b: "borrow ?login g = (r1, g1)" by fastforce
    note b1 = borrow_ok [OF assms(2) 3(2) b]
    show ?thesis
    proof (cases r1)
      case (Inl e) then show ?thesis using assms(4) 3 b b1 by (auto simp: gcp_token_def)
    next
      case (Inr source)
      then have login: "gcpSQLLoginPattern ?login" "source = ?login @ gcpServiceAccountSuffix" using b1 by auto
      obtain r2 g2 where t: "borrowed_token C source g1 = (r2, g2)" by fastforce
      have "?login \<noteq> ownLogin g1" using b1 3(2) by simp
      note t1 = borrowed_token_ok [OF assms(1) conjunct1 [OF b1] login(1) this t [unfolded login(2)]]
      have res: "r = accessTokenFrom r2" "g' = g2" using assms(4) 3 b Inr t by (auto simp: gcp_token_def)
      have "token \<noteq> [] \<and> (\<exists>x. (?login @ gcpServiceAccountSuffix, x) \<in> set (minted g') \<and> iam_minted C g' (?login @ gcpServiceAccountSuffix, x) \<and> token = AccessToken x)"
        if tok: "r = Inr token" for token
      proof -
        obtain x where x: "r2 = Inr x" "token = AccessToken x" "token \<noteq> []"
          using res(1) tok by (auto simp: accessTokenFrom_def split: sum.splits if_splits)
        then have "(?login @ gcpServiceAccountSuffix, x) \<in> set (minted g')" "identity_ok C g'" using t1 res(2) by auto
        then show ?thesis using x by (auto simp: identity_ok_def list_all_iff)
      qed
      then show ?thesis using t1 res(2) login(1) 3(2) by auto
    qed
  qed
qed

lemma gcp_identity_new: "gcpCloudSQLIAM C = Inr g \<Longrightarrow> identity_ok C g \<and> own_scope g = gcpCloudSQLScope"
  by (auto simp: gcpCloudSQLIAM_def newGCPIdentity_def identity_ok_def split: option.splits sum.splits if_splits)

definition sample_cloud :: cloud where
  "sample_cloud = \<lparr>DefaultTokenSource = (\<lambda>_. None), metadata_Email = Inr ''request@project-a.iam.gserviceaccount.com'',
     Token_of = (\<lambda>_ _. Inr \<lparr>AccessToken = ''ya'', TokenType = ''Bearer'', Expiry = None\<rparr>),
     Do = (\<lambda>_ _. Inr \<lparr>StatusCode = 200, Body = ''b''\<rparr>), ReadAll = (\<lambda>_ b. Inr b), Unmarshal_minted = (\<lambda>_. Inr (''tok'', ''t'')),
     time_Parse = (\<lambda>_. Some 5), reused = (\<lambda>a ts n. map_of ts a)\<rparr>"

definition sample_identity :: gcpIdentity where
  "sample_identity = \<lparr>ownLogin = ''request@project-a.iam'', own_scope = gcpCloudSQLScope, caller_scope = gcpImpersonationScope,
     endpoint = gcpIAMCredentialsEndpoint, borrowed = [], requested = [], minted = [], ticks = 0\<rparr>"

lemma sample_login_patterns: "gcpSQLLoginPattern ''request@project-a.iam''" "gcpSQLLoginPattern ''control@project-a.iam''"
    "TrimSpace ''control@project-a.iam'' = ''control@project-a.iam''"
  by code_simp+

theorem cloud_token_for_login_witness:
  "\<exists>g'. gcp_token sample_cloud ''control@project-a.iam'' sample_identity = (Inr ''tok'', g') \<and> identity_ok sample_cloud g'"
proof -
  have law: "reuse_law sample_cloud" by (auto simp: reuse_law_def sample_cloud_def dest: map_of_SomeD)
  have start: "identity_ok sample_cloud sample_identity" by (simp add: identity_ok_def sample_identity_def sample_login_patterns)
  have scope: "own_scope sample_identity = gcpCloudSQLScope" by (simp add: sample_identity_def)
  obtain g' where run: "gcp_token sample_cloud ''control@project-a.iam'' sample_identity = (Inr ''tok'', g')"
    by (simp add: gcp_token_def sample_login_patterns sample_identity_def borrow_def borrowed_token_def exchange_def
        minted_token_def accessTokenFrom_def sample_cloud_def Let_def)
  from cloud_token_for_login [OF law start scope run] run show ?thesis by blast
qed

end
