(* ===== verification/Attachment.thy ===== *)
theory Attachment
  imports GoURL RuntimeAccess "HOL-Library.AList"
begin

text \<open>
  \<open>libs/go/workloadattachment/attachment.go\<close>: the document with which a platform attaches a proxy for the
  database to a workload. \<open>encoding/json\<close> is a parameter: decoding into the struct, marshalling it, and the
  syntax tree of a document, whose objects may still repeat a key. The digest and every check of the
  envelope are the code's.
\<close>

definition Version :: string where "Version = ''codefly.dev/postgres-workload-attachment/v1''"
definition VersionV2 :: string where "VersionV2 = ''codefly.dev/postgres-workload-attachment/v2''"

record att_Connection =
  att_Kind :: string
  SocketDirectory :: string
  att_Port :: int
  PoolMode :: string
  SessionState :: string
  ConnectionLimitScope :: string
  MaxDBConnections :: int
  StartupParameters :: "string list option"

record att_Binding =
  Primitive :: string
  att_ID :: string
  att_Access :: string
  att_Database :: string
  att_User :: string
  att_Conn :: att_Connection

record Mount =
  mount_Name :: string
  MountPath :: string
  ReadOnly :: "bool option"

record Volume =
  volume_Name :: string
  Medium :: string
  SizeLimit :: string

record Security =
  AllowPrivilegeEscalation :: "bool option"
  ReadOnlyRootFilesystem :: bool
  Drop :: "string list"

record PodSecurity =
  RunAsNonRoot :: bool
  RunAsUser :: int
  RunAsGroup :: int
  FSGroup :: int
  seccomp_Type :: string

record Resources =
  requests_CPU :: string
  requests_Memory :: string
  limits_CPU :: string
  limits_Memory :: string

record StartupProbe =
  probe_Command :: "string list"
  FailureThreshold :: int
  PeriodSeconds :: int

record Sidecar =
  sidecar_Name :: string
  sidecar_Image :: string
  RestartPolicy :: string
  Args :: "string list"
  sidecar_Mounts :: "Mount list"
  SecurityContext :: Security
  sidecar_Resources :: Resources
  sidecar_Probe :: "StartupProbe option"

record Attachment =
  SchemaVersion :: string
  att_Binding_of :: att_Binding
  att_Namespace :: string
  ServiceAccount :: string
  PodSecurityContext :: PodSecurity
  InitContainers :: "Sidecar list"
  Volumes :: "Volume list"
  VolumeMounts :: "Mount list"
  att_Digest :: string

section \<open>Names, paths and texts\<close>

text \<open>\<open>namePattern\<close>, \<open>^[a-z]([a-z0-9-]{0,61}[a-z0-9])?$\<close>, and \<open>imagePattern\<close>, \<open>^[^\s@]+@sha256:[a-f0-9]{64}$\<close>.\<close>

definition namePattern :: "string \<Rightarrow> bool" where
  "namePattern s =
     (case s of [] \<Rightarrow> False
      | c # cs \<Rightarrow> is_lower c \<and> (cs = [] \<or> length cs \<le> 62 \<and> list_all (\<lambda>x. is_lower x \<or> is_digit x \<or> x = CHR ''-'') (butlast cs)
                     \<and> (is_lower (last cs) \<or> is_digit (last cs))))"

definition imagePattern :: "string \<Rightarrow> bool" where
  "imagePattern s =
     (case Cut s (CHR ''@'') of (name, rest, found) \<Rightarrow>
        found \<and> name \<noteq> [] \<and> \<not> ContainsAny name [CHR 0x09, CHR 0x0A, CHR 0x0C, CHR 0x0D, CHR 0x20] \<and>
        prefix ''sha256:'' rest \<and> length rest = 71 \<and> list_all is_hex (drop 7 rest))"

definition IsSpace :: "nat \<Rightarrow> bool" where
  "IsSpace r \<longleftrightarrow> (9 \<le> r \<and> r \<le> 13) \<or> (8192 \<le> r \<and> r \<le> 8202) \<or> r \<in> {32, 133, 160, 5760, 8232, 8233, 8239, 8287, 12288}"

definition validPath :: "string \<Rightarrow> bool" where
  "validPath value \<longleftrightarrow>
     IsAbs value \<and> value \<noteq> ''/'' \<and> Clean value = value \<and> list_all (\<lambda>r. \<not> (r = 0 \<or> IsSpace r)) (runes value) \<and>
     \<not> sublist ''.s.PGSQL.'' value"

definition bounded_text :: "string \<Rightarrow> bool" where
  "bounded_text s \<longleftrightarrow> 0 < length s \<and> length s \<le> 1024 \<and> \<not> ContainsAny s [NUL, CR, LF]"

section \<open>Reading a document\<close>

text \<open>\<open>strconv.ParseUint(s, 16, 16)\<close> of four bytes.\<close>

definition parse_hex4 :: "string \<Rightarrow> nat option" where
  "parse_hex4 s = (if s \<noteq> [] \<and> list_all (\<lambda>c. unhex c \<noteq> None) s then Some (foldl (\<lambda>n c. 16 * n + the (unhex c)) 0 s) else None)"

definition high_surrogate :: "nat \<Rightarrow> bool" where "high_surrogate n \<longleftrightarrow> 0xD800 \<le> n \<and> n \<le> 0xDBFF"
definition low_surrogate :: "nat \<Rightarrow> bool" where "low_surrogate n \<longleftrightarrow> 0xDC00 \<le> n \<and> n \<le> 0xDFFF"

function validUnicodeEscapes :: "string \<Rightarrow> bool" where
  "validUnicodeEscapes data =
     (case data of
        [] \<Rightarrow> True
      | c # cs \<Rightarrow>
          if c \<noteq> CHR 0x5C then validUnicodeEscapes cs
          else case cs of
            [] \<Rightarrow> True
          | d # ds \<Rightarrow>
              if d \<noteq> CHR ''u'' then validUnicodeEscapes ds
              else if length ds < 4 then False
              else case parse_hex4 (take 4 ds) of
                None \<Rightarrow> False
              | Some code \<Rightarrow>
                  if low_surrogate code then False
                  else if \<not> high_surrogate code then validUnicodeEscapes (drop 4 ds)
                  else (let rest = drop 4 ds in
                    if length rest < 6 \<or> take 2 rest \<noteq> [CHR 0x5C, CHR ''u''] then False
                    else case parse_hex4 (take 4 (drop 2 rest)) of
                      None \<Rightarrow> False
                    | Some low \<Rightarrow> if low_surrogate low then validUnicodeEscapes (drop 6 rest) else False))"
  by pat_completeness auto
termination
  by (relation "measure length") auto

declare validUnicodeEscapes.simps [simp del]

text \<open>
  A document as the decoder's tokens spell it, and its value: an object is a map. Numbers keep their
  text, as \<open>UseNumber\<close> has it.
\<close>

datatype document = SObject "(string \<times> document) list" | SArray "document list" | SString string | SNumber string | SBool bool | SNull

datatype json = JObject "(string \<times> json) list" | JArray "json list" | JString string | JNumber string | JBool bool | JNull

text \<open>\<open>value\<close> of \<open>strictJSON\<close>: an object is kept as the list of its members in the order of their keys.\<close>

fun strict_value :: "document \<Rightarrow> json option"
and strict_members :: "string list \<Rightarrow> (string \<times> document) list \<Rightarrow> (string \<times> json) list option"
and strict_items :: "document list \<Rightarrow> json list option" where
  "strict_value (SObject ms) = map_option (JObject \<circ> sort_key fst) (strict_members [] ms)"
| "strict_value (SArray xs) = map_option JArray (strict_items xs)"
| "strict_value (SString s) = Some (JString s)"
| "strict_value (SNumber n) = Some (JNumber n)"
| "strict_value (SBool b) = Some (JBool b)"
| "strict_value SNull = Some JNull"
| "strict_members seen [] = Some []"
| "strict_members seen ((k, v) # ms) =
     (if k \<in> set seen then None
      else case strict_value v of
        None \<Rightarrow> None
      | Some j \<Rightarrow> (case strict_members (k # seen) ms of None \<Rightarrow> None | Some js \<Rightarrow> Some ((k, j) # js)))"
| "strict_items [] = Some []"
| "strict_items (x # xs) =
     (case strict_value x of None \<Rightarrow> None | Some j \<Rightarrow> (case strict_items xs of None \<Rightarrow> None | Some js \<Rightarrow> Some (j # js)))"

text \<open>
  \<open>json_syntax\<close> reads one document and whether something follows it, \<open>decode_attachment\<close> decodes with unknown
  fields refused, \<open>Marshal\<close> encodes the struct, \<open>DecodeObject\<close> decodes into a map with \<open>UseNumber\<close>, and
  \<open>Encode\<close> is the encoder with HTML escaping off.
\<close>

record json_library =
  utf8_Valid :: "string \<Rightarrow> bool"
  json_syntax :: "string \<Rightarrow> (document \<times> bool) option"
  decode_attachment :: "string \<Rightarrow> (Attachment \<times> bool) option"
  Marshal :: "Attachment \<Rightarrow> string option"
  DecodeObject :: "string \<Rightarrow> (string \<times> json) list option"
  Encode :: "(string \<times> json) list \<Rightarrow> string option"

datatype attachment_error =
    NotUTF8
  | InvalidDocument
  | SeveralDocuments
  | InvalidAttachment
  | MarshalFailed
  | NotCanonical

definition strictJSON :: "json_library \<Rightarrow> string \<Rightarrow> json option" where
  "strictJSON J data =
     (case json_syntax J data of
        None \<Rightarrow> None
      | Some (tree, trailing) \<Rightarrow> (case strict_value tree of None \<Rightarrow> None | Some v \<Rightarrow> if trailing then None else Some v))"

section \<open>The seal\<close>

text \<open>The loop that leaves JavaScript's line separators literal, over escape pairs.\<close>

function literal_separators :: "string \<Rightarrow> string" where
  "literal_separators raw =
     (case raw of
        [] \<Rightarrow> []
      | c # cs \<Rightarrow>
          if c = CHR 0x5C \<and> cs \<noteq> [] then
            if prefix ''u2028'' cs then [CHR 0xE2, CHR 0x80, CHR 0xA8] @ literal_separators (drop 5 cs)
            else if prefix ''u2029'' cs then [CHR 0xE2, CHR 0x80, CHR 0xA9] @ literal_separators (drop 5 cs)
            else c # hd cs # literal_separators (tl cs)
          else c # literal_separators cs)"
  by pat_completeness auto
termination
  by (relation "measure length") auto

declare literal_separators.simps [simp del]

text \<open>
  The text that is hashed: the struct is marshalled, read back as a map, loses its digest, and is encoded
  again; the newline that the encoder ends with goes.
\<close>

definition canonical_text :: "json_library \<Rightarrow> Attachment \<Rightarrow> string option" where
  "canonical_text J a =
     (case Marshal J a of
        None \<Rightarrow> None
      | Some data \<Rightarrow>
          (case DecodeObject J data of
             None \<Rightarrow> None
           | Some value \<Rightarrow>
               (case Encode J (AList.delete ''digest'' value) of
                  None \<Rightarrow> None
                | Some canonical \<Rightarrow> Some (TrimSuffix canonical [LF]))))"

definition computedDigest :: "platform \<Rightarrow> json_library \<Rightarrow> Attachment \<Rightarrow> string option" where
  "computedDigest P J a =
     (case canonical_text J a of
        None \<Rightarrow> None
      | Some raw \<Rightarrow> Some (''sha256:'' @ EncodeToString (sha256 P (literal_separators raw))))"

definition Seal :: "platform \<Rightarrow> json_library \<Rightarrow> Attachment \<Rightarrow> Attachment option" where
  "Seal P J a = map_option (\<lambda>digest. a\<lparr>att_Digest := digest\<rparr>) (computedDigest P J a)"

section \<open>The envelope\<close>

definition version_ok :: "Attachment \<Rightarrow> bool" where
  "version_ok a \<longleftrightarrow> (SchemaVersion a = Version \<or> SchemaVersion a = VersionV2) \<and> namePattern (att_Namespace a) \<and> namePattern (ServiceAccount a)"

definition binding_ok :: "att_Binding \<Rightarrow> bool" where
  "binding_ok b \<longleftrightarrow>
     Primitive b = ''database'' \<and> att_Access b \<in> {''reader'', ''writer'', ''maintenance''} \<and> bounded_text (att_ID b) \<and>
     bounded_text (att_Database b) \<and> bounded_text (att_User b) \<and> validPath (SocketDirectory (att_Conn b)) \<and>
     1 \<le> att_Port (att_Conn b) \<and> att_Port (att_Conn b) \<le> 65535"

definition legacyConnection :: "att_Connection \<Rightarrow> bool" where
  "legacyConnection c \<longleftrightarrow>
     att_Kind c = ''local-identity-proxy'' \<and> PoolMode c = [] \<and> SessionState c = [] \<and> ConnectionLimitScope c = [] \<and>
     MaxDBConnections c = 0 \<and> StartupParameters c = None"

definition pooledConnection :: "att_Connection \<Rightarrow> bool" where
  "pooledConnection c \<longleftrightarrow>
     att_Kind c = ''local-transaction-pool'' \<and> PoolMode c = ''transaction'' \<and> SessionState c = ''transaction-local-only'' \<and>
     ConnectionLimitScope c = ''pod'' \<and> 0 < MaxDBConnections c \<and> MaxDBConnections c \<le> 100 \<and>
     StartupParameters c = Some [''application_name'', ''client_encoding'', ''datestyle'', ''standard_conforming_strings'', ''timezone'']"

definition connection_kind_ok :: "Attachment \<Rightarrow> bool" where
  "connection_kind_ok a \<longleftrightarrow>
     \<not> (SchemaVersion a = Version \<and> \<not> legacyConnection (att_Conn (att_Binding_of a)) \<or>
        SchemaVersion a = VersionV2 \<and> \<not> pooledConnection (att_Conn (att_Binding_of a)))"

definition pod_ok :: "PodSecurity \<Rightarrow> bool" where
  "pod_ok p \<longleftrightarrow> RunAsNonRoot p \<and> 1 \<le> RunAsUser p \<and> 1 \<le> RunAsGroup p \<and> 1 \<le> FSGroup p \<and> seccomp_Type p = ''RuntimeDefault''"

definition counts_ok :: "Attachment \<Rightarrow> bool" where
  "counts_ok a \<longleftrightarrow>
     0 < length (InitContainers a) \<and> length (InitContainers a) \<le> 16 \<and> 0 < length (Volumes a) \<and> length (Volumes a) \<le> 16 \<and>
     0 < length (VolumeMounts a) \<and> length (VolumeMounts a) \<le> 16"

fun check_volumes :: "string list \<Rightarrow> Volume list \<Rightarrow> bool" where
  "check_volumes seen [] = True"
| "check_volumes seen (v # vs) =
     (namePattern (volume_Name v) \<and> volume_Name v \<notin> set seen \<and> Medium v = ''Memory'' \<and> bounded_text (SizeLimit v) \<and>
      check_volumes (volume_Name v # seen) vs)"

definition nested :: "string \<Rightarrow> string \<Rightarrow> bool" where
  "nested p q \<longleftrightarrow> p = q \<or> prefix (q @ ''/'') p \<or> prefix (p @ ''/'') q"

fun mounts_loop :: "string list \<Rightarrow> bool \<Rightarrow> bool \<Rightarrow> string list \<Rightarrow> string list \<Rightarrow> Mount list \<Rightarrow> bool" where
  "mounts_loop volumes consumer repeatedVolumes seen paths [] = True"
| "mounts_loop volumes consumer repeatedVolumes seen paths (m # ms) =
     (mount_Name m \<in> set volumes \<and> \<not> (mount_Name m \<in> set seen \<and> \<not> repeatedVolumes) \<and> validPath (MountPath m) \<and>
      \<not> (consumer \<and> ReadOnly m \<noteq> Some True) \<and> list_all (\<lambda>existing. \<not> nested (MountPath m) existing) paths \<and>
      mounts_loop volumes consumer repeatedVolumes (mount_Name m # seen) (paths @ [MountPath m]) ms)"

definition checkMounts :: "string list \<Rightarrow> Mount list \<Rightarrow> bool \<Rightarrow> bool \<Rightarrow> bool" where
  "checkMounts volumes mounts consumer repeatedVolumes \<longleftrightarrow>
     mounts_loop volumes consumer repeatedVolumes [] [] mounts \<and> 0 < length mounts \<and> length mounts \<le> 16"

definition socketMounted :: "Attachment \<Rightarrow> bool" where
  "socketMounted a \<longleftrightarrow>
     list_ex (\<lambda>m. prefix (MountPath m @ ''/'') (SocketDirectory (att_Conn (att_Binding_of a))) \<or>
       SocketDirectory (att_Conn (att_Binding_of a)) = MountPath m) (VolumeMounts a)"

definition argument_ok :: "string \<Rightarrow> string \<Rightarrow> bool" where
  "argument_ok version argument \<longleftrightarrow>
     argument \<noteq> [] \<and> length argument \<le> 1024 \<and> \<not> ContainsAny argument [NUL, CR] \<and> \<not> (version = Version \<and> LF \<in> set argument)"

definition probe_ok :: "StartupProbe \<Rightarrow> bool" where
  "probe_ok p \<longleftrightarrow>
     0 < length (probe_Command p) \<and> length (probe_Command p) \<le> 16 \<and> 1 \<le> FailureThreshold p \<and> FailureThreshold p \<le> 60 \<and>
     1 \<le> PeriodSeconds p \<and> PeriodSeconds p \<le> 60 \<and> list_all bounded_text (probe_Command p)"

definition confined :: "Security \<Rightarrow> bool" where
  "confined s \<longleftrightarrow> AllowPrivilegeEscalation s = Some False \<and> ReadOnlyRootFilesystem s \<and> Drop s = [''ALL'']"

definition container_ok :: "string \<Rightarrow> string list \<Rightarrow> Sidecar \<Rightarrow> bool" where
  "container_ok version volumes c \<longleftrightarrow>
     namePattern (sidecar_Name c) \<and> imagePattern (sidecar_Image c) \<and> RestartPolicy c = ''Always'' \<and> 0 < length (Args c) \<and> length (Args c) \<le> 16 \<and>
     checkMounts volumes (sidecar_Mounts c) False (version = VersionV2) \<and> confined (SecurityContext c) \<and>
     list_all (argument_ok version) (Args c) \<and>
     list_all bounded_text [requests_CPU (sidecar_Resources c), requests_Memory (sidecar_Resources c), limits_CPU (sidecar_Resources c),
       limits_Memory (sidecar_Resources c)] \<and>
     (case sidecar_Probe c of None \<Rightarrow> True | Some p \<Rightarrow> probe_ok p)"

fun containers_loop :: "string \<Rightarrow> string list \<Rightarrow> string list \<Rightarrow> Sidecar list \<Rightarrow> bool" where
  "containers_loop version volumes seen [] = True"
| "containers_loop version volumes seen (c # cs) =
     (sidecar_Name c \<notin> set seen \<and> container_ok version volumes c \<and> containers_loop version volumes (sidecar_Name c # seen) cs)"

definition startupProbes :: "Attachment \<Rightarrow> nat" where
  "startupProbes a = length (filter (\<lambda>c. sidecar_Probe c \<noteq> None) (InitContainers a))"

definition Validate :: "platform \<Rightarrow> json_library \<Rightarrow> Attachment \<Rightarrow> attachment_error option" where
  "Validate P J a =
     (let volumes = map volume_Name (Volumes a) in
      if \<not> version_ok a then Some InvalidAttachment
      else if \<not> binding_ok (att_Binding_of a) then Some InvalidAttachment
      else if \<not> connection_kind_ok a then Some InvalidAttachment
      else if \<not> pod_ok (PodSecurityContext a) then Some InvalidAttachment
      else if \<not> counts_ok a then Some InvalidAttachment
      else if \<not> check_volumes [] (Volumes a) then Some InvalidAttachment
      else if \<not> checkMounts volumes (VolumeMounts a) True False then Some InvalidAttachment
      else if \<not> socketMounted a then Some InvalidAttachment
      else if \<not> containers_loop (SchemaVersion a) volumes [] (InitContainers a) then Some InvalidAttachment
      else if SchemaVersion a = Version \<and> startupProbes a \<noteq> 0 \<or> SchemaVersion a = VersionV2 \<and> startupProbes a \<noteq> 1 then Some InvalidAttachment
      else if computedDigest P J a \<noteq> Some (att_Digest a) then Some InvalidAttachment
      else None)"

definition att_Parse :: "platform \<Rightarrow> json_library \<Rightarrow> string \<Rightarrow> (attachment_error, Attachment) result" where
  "att_Parse P J data =
     (if \<not> utf8_Valid J data \<or> \<not> validUnicodeEscapes data then Inl NotUTF8
      else case strictJSON J data of
        None \<Rightarrow> Inl InvalidDocument
      | Some raw \<Rightarrow>
          (case decode_attachment J data of
             None \<Rightarrow> Inl InvalidDocument
           | Some (a, trailing) \<Rightarrow>
               if trailing then Inl SeveralDocuments
               else case Validate P J a of
                 Some e \<Rightarrow> Inl e
               | None \<Rightarrow>
                   (case Marshal J a of
                      None \<Rightarrow> Inl MarshalFailed
                    | Some encoded \<Rightarrow> if strictJSON J encoded = Some raw then Inr a else Inl NotCanonical)))"

section \<open>What an accepted attachment is\<close>

lemma check_volumes_iff:
  "check_volumes seen vs \<longleftrightarrow> distinct (map volume_Name vs) \<and> set (map volume_Name vs) \<inter> set seen = {} \<and>
     list_all (\<lambda>v. namePattern (volume_Name v) \<and> Medium v = ''Memory'' \<and> bounded_text (SizeLimit v)) vs"
  by (induction vs arbitrary: seen) auto

lemma mounts_loop_iff:
  "mounts_loop volumes consumer repeated seen paths ms \<longleftrightarrow>
     list_all (\<lambda>m. mount_Name m \<in> set volumes \<and> validPath (MountPath m) \<and> (consumer \<longrightarrow> ReadOnly m = Some True)) ms \<and>
     (repeated \<or> distinct (map mount_Name ms) \<and> set (map mount_Name ms) \<inter> set seen = {}) \<and>
     (\<forall>p \<in> set paths. \<forall>m \<in> set ms. \<not> nested (MountPath m) p) \<and> sorted_wrt (\<lambda>m n. \<not> nested (MountPath n) (MountPath m)) ms"
  by (induction ms arbitrary: seen paths) (auto simp: list_all_iff)

lemma containers_loop_iff:
  "containers_loop version volumes seen cs \<longleftrightarrow> distinct (map sidecar_Name cs) \<and> set (map sidecar_Name cs) \<inter> set seen = {} \<and>
     list_all (container_ok version volumes) cs"
  by (induction cs arbitrary: seen) auto

lemma Validate_None:
  "Validate P J a = None \<longleftrightarrow> version_ok a \<and> binding_ok (att_Binding_of a) \<and> connection_kind_ok a \<and> pod_ok (PodSecurityContext a) \<and> counts_ok a \<and>
     check_volumes [] (Volumes a) \<and> checkMounts (map volume_Name (Volumes a)) (VolumeMounts a) True False \<and> socketMounted a \<and>
     containers_loop (SchemaVersion a) (map volume_Name (Volumes a)) [] (InitContainers a) \<and>
     \<not> (SchemaVersion a = Version \<and> startupProbes a \<noteq> 0 \<or> SchemaVersion a = VersionV2 \<and> startupProbes a \<noteq> 1) \<and>
     computedDigest P J a = Some (att_Digest a)"
  by (simp add: Validate_def Let_def)


lemma startupProbes_bound: "startupProbes a \<le> length (InitContainers a)"
  by (simp add: startupProbes_def)

text \<open>Two mounts that both hold a directory are nested, so that a directory has at most one mount.\<close>

lemma holders_nested:
  assumes "prefix (p @ ''/'') s \<or> s = p" and "prefix (q @ ''/'') s \<or> s = q"
  shows "nested p q"
proof -
  have "prefix (p @ ''/'') (s @ ''/'')" "prefix (q @ ''/'') (s @ ''/'')"
    using assms by (auto intro: prefix_prefix)
  then have "prefix (p @ ''/'') (q @ ''/'') \<or> prefix (q @ ''/'') (p @ ''/'')"
    by (rule prefix_same_cases)
  then show ?thesis by (auto simp: nested_def prefix_snoc)
qed

lemma nested_sym: "nested p q = nested q p"
  by (auto simp: nested_def)

lemma sorted_wrt_unique:
  assumes "sorted_wrt (\<lambda>m n. \<not> R n m) ms" and "\<And>m n. R m n = R n m" and "m \<in> set ms" "n \<in> set ms" and "R m n"
  shows "m = n"
  using assms by (induction ms) auto


definition holds_path :: "Mount \<Rightarrow> string \<Rightarrow> bool" where
  "holds_path m s \<longleftrightarrow> prefix (MountPath m @ ''/'') s \<or> s = MountPath m"

lemma checkMounts_iff:
  "checkMounts volumes ms consumer repeated \<longleftrightarrow>
     list_all (\<lambda>m. mount_Name m \<in> set volumes \<and> validPath (MountPath m) \<and> (consumer \<longrightarrow> ReadOnly m = Some True)) ms \<and>
     (repeated \<or> distinct (map mount_Name ms)) \<and> sorted_wrt (\<lambda>m n. \<not> nested (MountPath n) (MountPath m)) ms \<and>
     0 < length ms \<and> length ms \<le> 16"
  by (auto simp: checkMounts_def mounts_loop_iff)

lemma checked_mount_unique:
  assumes "checkMounts volumes ms consumer repeated" and "m \<in> set ms" "n \<in> set ms" and "holds_path m s" "holds_path n s"
  shows "m = n"
proof (rule sorted_wrt_unique [where R = "\<lambda>m n. nested (MountPath m) (MountPath n)"])
  show "sorted_wrt (\<lambda>m n. \<not> nested (MountPath n) (MountPath m)) ms" using assms(1) by (simp add: checkMounts_iff)
  show "nested (MountPath m) (MountPath n)" using assms(4,5) by (auto simp: holds_path_def intro: holders_nested)
qed (use assms nested_sym in auto)

lemma checked_mount_volume:
  assumes "check_volumes [] vs" and "checkMounts (map volume_Name vs) ms consumer repeated" and "m \<in> set ms"
  shows "\<exists>!v. v \<in> set vs \<and> volume_Name v = mount_Name m" and "v \<in> set vs \<Longrightarrow> Medium v = ''Memory''"
proof -
  have "mount_Name m \<in> volume_Name ` set vs" using assms(2,3) by (auto simp: checkMounts_iff list_all_iff)
  moreover have "inj_on volume_Name (set vs)" using assms(1) by (simp add: check_volumes_iff distinct_map)
  ultimately show "\<exists>!v. v \<in> set vs \<and> volume_Name v = mount_Name m" by (metis imageE inj_onD)
  show "v \<in> set vs \<Longrightarrow> Medium v = ''Memory''" using assms(1) by (simp add: check_volumes_iff list_all_iff)
qed

lemma namePattern_length: "namePattern s \<Longrightarrow> 0 < length s \<and> length s \<le> 63"
  by (auto simp: namePattern_def split: list.splits)


text \<open>The bytes that are hashed determine what was encoded: the separators can be put back.\<close>

definition raw_separator :: "string \<Rightarrow> bool" where
  "raw_separator s \<longleftrightarrow> prefix [CHR 0xE2, CHR 0x80, CHR 0xA8] s \<or> prefix [CHR 0xE2, CHR 0x80, CHR 0xA9] s"

function escape_separators :: "string \<Rightarrow> string" where
  "escape_separators s =
     (case s of
        [] \<Rightarrow> []
      | c # cs \<Rightarrow>
          if prefix [CHR 0xE2, CHR 0x80, CHR 0xA8] s then [CHR 0x5C] @ ''u2028'' @ escape_separators (drop 3 s)
          else if prefix [CHR 0xE2, CHR 0x80, CHR 0xA9] s then [CHR 0x5C] @ ''u2029'' @ escape_separators (drop 3 s)
          else c # escape_separators cs)"
  by pat_completeness auto
termination
  by (relation "measure length") auto

declare escape_separators.simps [simp del]

fun separator_free :: "string \<Rightarrow> bool" where
  "separator_free [] = True"
| "separator_free (c # cs) = (\<not> raw_separator (c # cs) \<and> separator_free cs)"

lemma separator_free_drop: "separator_free s \<Longrightarrow> separator_free (drop n s)"
proof (induction s arbitrary: n)
  case (Cons c s)
  then show ?case by (cases n) auto
qed simp

lemma literal_separators_plain: "c \<noteq> CHR 0x5C \<Longrightarrow> literal_separators (c # cs) = c # literal_separators cs"
  by (subst literal_separators.simps) simp

lemma literal_separators_Nil [simp]: "literal_separators [] = []"
  by (subst literal_separators.simps) simp

lemma literal_separators_head:
  assumes "literal_separators s = d # ds" and "d \<noteq> CHR 0xE2" and "d \<noteq> CHR 0x5C"
  shows "\<exists>cs. s = d # cs \<and> ds = literal_separators cs"
  using assms by (subst (asm) literal_separators.simps) (auto split: list.splits if_splits)

lemma literal_separators_no_new:
  assumes "separator_free (c # cs)"
  shows "\<not> raw_separator (c # literal_separators cs)"
proof
  assume "raw_separator (c # literal_separators cs)"
  then obtain x rest where s: "c = CHR 0xE2" "literal_separators cs = CHR 0x80 # x # rest" "x = CHR 0xA8 \<or> x = CHR 0xA9"
    by (auto simp: raw_separator_def prefix_def)
  obtain cs' where cs': "cs = CHR 0x80 # cs'" "x # rest = literal_separators cs'"
    using literal_separators_head [OF s(2)] by auto
  obtain cs'' where "cs' = x # cs''" using literal_separators_head [OF cs'(2) [symmetric]] s(3) by auto
  then have "raw_separator (c # cs)" using s cs' by (auto simp: raw_separator_def)
  then show False using assms by simp
qed

lemma escape_separators_plain: "\<not> raw_separator (c # cs) \<Longrightarrow> escape_separators (c # cs) = c # escape_separators cs"
  by (subst escape_separators.simps) (auto simp: raw_separator_def)

lemma escape_separator_bytes:
  "escape_separators (CHR 0xE2 # CHR 0x80 # CHR 0xA8 # s) = CHR 0x5C # ''u2028'' @ escape_separators s"
  "escape_separators (CHR 0xE2 # CHR 0x80 # CHR 0xA9 # s) = CHR 0x5C # ''u2029'' @ escape_separators s"
  by (subst escape_separators.simps, simp)+

lemma escape_literal_separators: "separator_free raw \<Longrightarrow> escape_separators (literal_separators raw) = raw"
proof (induction raw rule: literal_separators.induct)
  case (1 raw)
  show ?case
  proof (cases raw)
    case Nil
    then show ?thesis by (simp add: escape_separators.simps)
  next
    case (Cons c cs)
    have free: "separator_free cs" using "1.prems" Cons by simp
    have no_new: "\<not> raw_separator (c # literal_separators cs)" using "1.prems" Cons literal_separators_no_new by simp
    show ?thesis
    proof (cases "c = CHR 0x5C \<and> cs \<noteq> []")
      case False
      then show ?thesis using "1.IH"(4) [OF Cons] False free no_new Cons
        by (subst literal_separators.simps) (auto simp: escape_separators_plain)
    next
      case True
      then obtain d ds where cs: "cs = d # ds" by (cases cs) auto
      have "\<not> raw_separator (d # literal_separators ds)" "\<not> raw_separator (c # d # literal_separators ds)"
        using free cs True literal_separators_no_new by (auto simp: raw_separator_def)
      then show ?thesis
        using "1.IH"(1-3) [OF Cons True] free Cons cs True separator_free_drop [OF free, of 5]
        by (subst literal_separators.simps) (auto simp: escape_separator_bytes escape_separators_plain prefix_def)
    qed
  qed
qed


lemma computedDigest_Some:
  "computedDigest P J a = Some d \<Longrightarrow> \<exists>x. canonical_text J a = Some x \<and> ''sha256:'' @ EncodeToString (sha256 P (literal_separators x)) = d"
  by (auto simp: computedDigest_def split: option.splits)

definition enveloped :: "Attachment \<Rightarrow> bool" where
  "enveloped a \<longleftrightarrow>
     version_ok a \<and> binding_ok (att_Binding_of a) \<and> connection_kind_ok a \<and> pod_ok (PodSecurityContext a) \<and> counts_ok a \<and>
     check_volumes [] (Volumes a) \<and> checkMounts (map volume_Name (Volumes a)) (VolumeMounts a) True False \<and> socketMounted a \<and>
     containers_loop (SchemaVersion a) (map volume_Name (Volumes a)) [] (InitContainers a) \<and>
     \<not> (SchemaVersion a = Version \<and> startupProbes a \<noteq> 0 \<or> SchemaVersion a = VersionV2 \<and> startupProbes a \<noteq> 1)"

lemma Validate_enveloped: "Validate P J a = None \<longleftrightarrow> enveloped a \<and> computedDigest P J a = Some (att_Digest a)"
  by (auto simp: Validate_None enveloped_def)

lemma enveloped_digest: "enveloped (a\<lparr>att_Digest := d\<rparr>) = enveloped a"
  by (simp add: enveloped_def version_ok_def connection_kind_ok_def counts_ok_def socketMounted_def startupProbes_def)

definition hashed :: "json_library \<Rightarrow> Attachment \<Rightarrow> string" where
  "hashed J a = literal_separators (the (canonical_text J a))"

section \<open>The fields of an attachment\<close>

text \<open>
  The map that an attachment decodes to, by the tags of the struct: the fields in the order of their keys,
  those with \<open>omitempty\<close> only where they hold something. A list of the model is a slice that is not nil.
\<close>

definition omitempty :: "bool \<Rightarrow> string \<Rightarrow> json \<Rightarrow> (string \<times> json) list" where
  "omitempty none k v = (if none then [] else [(k, v)])"

definition number_text :: "int \<Rightarrow> string" where
  "number_text i = (if i < 0 then CHR ''-'' # Itoa (nat (- i)) else Itoa (nat i))"

abbreviation JInt :: "int \<Rightarrow> json" where "JInt i \<equiv> JNumber (number_text i)"
abbreviation JTexts :: "string list \<Rightarrow> json" where "JTexts xs \<equiv> JArray (map JString xs)"

definition connection_fields :: "att_Connection \<Rightarrow> (string \<times> json) list" where
  "connection_fields c =
     omitempty (ConnectionLimitScope c = []) ''connection_limit_scope'' (JString (ConnectionLimitScope c)) @
     [(''kind'', JString (att_Kind c))] @
     omitempty (MaxDBConnections c = 0) ''max_db_connections'' (JInt (MaxDBConnections c)) @
     omitempty (PoolMode c = []) ''pool_mode'' (JString (PoolMode c)) @
     [(''port'', JInt (att_Port c))] @
     omitempty (SessionState c = []) ''session_state'' (JString (SessionState c)) @
     [(''socket_directory'', JString (SocketDirectory c))] @
     omitempty (StartupParameters c = None \<or> StartupParameters c = Some []) ''startup_parameters''
       (JTexts (the (StartupParameters c)))"

definition binding_fields :: "att_Binding \<Rightarrow> (string \<times> json) list" where
  "binding_fields b =
     [(''access'', JString (att_Access b)), (''binding_id'', JString (att_ID b)),
      (''connection'', JObject (connection_fields (att_Conn b))), (''database'', JString (att_Database b)),
      (''primitive'', JString (Primitive b)), (''user'', JString (att_User b))]"

definition mount_fields :: "Mount \<Rightarrow> (string \<times> json) list" where
  "mount_fields m =
     [(''mountPath'', JString (MountPath m)), (''name'', JString (mount_Name m))] @
     omitempty (ReadOnly m = None) ''readOnly'' (JBool (the (ReadOnly m)))"

definition volume_fields :: "Volume \<Rightarrow> (string \<times> json) list" where
  "volume_fields v =
     [(''emptyDir'', JObject [(''medium'', JString (Medium v)), (''sizeLimit'', JString (SizeLimit v))]),
      (''name'', JString (volume_Name v))]"

definition security_fields :: "Security \<Rightarrow> (string \<times> json) list" where
  "security_fields s =
     [(''allowPrivilegeEscalation'', case AllowPrivilegeEscalation s of None \<Rightarrow> JNull | Some b \<Rightarrow> JBool b),
      (''capabilities'', JObject [(''drop'', JTexts (Drop s))]),
      (''readOnlyRootFilesystem'', JBool (ReadOnlyRootFilesystem s))]"

definition pod_fields :: "PodSecurity \<Rightarrow> (string \<times> json) list" where
  "pod_fields p =
     [(''fsGroup'', JInt (FSGroup p)), (''runAsGroup'', JInt (RunAsGroup p)), (''runAsNonRoot'', JBool (RunAsNonRoot p)),
      (''runAsUser'', JInt (RunAsUser p)), (''seccompProfile'', JObject [(''type'', JString (seccomp_Type p))])]"

definition resources_fields :: "Resources \<Rightarrow> (string \<times> json) list" where
  "resources_fields r =
     [(''limits'', JObject [(''cpu'', JString (limits_CPU r)), (''memory'', JString (limits_Memory r))]),
      (''requests'', JObject [(''cpu'', JString (requests_CPU r)), (''memory'', JString (requests_Memory r))])]"

definition probe_fields :: "StartupProbe \<Rightarrow> (string \<times> json) list" where
  "probe_fields p =
     [(''exec'', JObject [(''command'', JTexts (probe_Command p))]), (''failureThreshold'', JInt (FailureThreshold p)),
      (''periodSeconds'', JInt (PeriodSeconds p))]"

definition sidecar_fields :: "Sidecar \<Rightarrow> (string \<times> json) list" where
  "sidecar_fields c =
     [(''args'', JTexts (Args c)), (''image'', JString (sidecar_Image c)), (''name'', JString (sidecar_Name c)),
      (''resources'', JObject (resources_fields (sidecar_Resources c))), (''restartPolicy'', JString (RestartPolicy c)),
      (''securityContext'', JObject (security_fields (SecurityContext c)))] @
     omitempty (sidecar_Probe c = None) ''startupProbe'' (JObject (probe_fields (the (sidecar_Probe c)))) @
     [(''volumeMounts'', JArray (map (JObject \<circ> mount_fields) (sidecar_Mounts c)))]"

definition attachment_fields :: "Attachment \<Rightarrow> (string \<times> json) list" where
  "attachment_fields a =
     [(''binding'', JObject (binding_fields (att_Binding_of a))), (''digest'', JString (att_Digest a)),
      (''init_containers'', JArray (map (JObject \<circ> sidecar_fields) (InitContainers a))),
      (''namespace'', JString (att_Namespace a)), (''pod_security_context'', JObject (pod_fields (PodSecurityContext a))),
      (''schema_version'', JString (SchemaVersion a)), (''service_account'', JString (ServiceAccount a)),
      (''volume_mounts'', JArray (map (JObject \<circ> mount_fields) (VolumeMounts a))),
      (''volumes'', JArray (map (JObject \<circ> volume_fields) (Volumes a)))]"

text \<open>
  The values that decode to themselves: texts that are UTF-8, numbers written as an integer, and objects
  as maps, their keys distinct and in order.
\<close>

fun canonical_json :: "json_library \<Rightarrow> json \<Rightarrow> bool" where
  "canonical_json J (JObject ms) \<longleftrightarrow> sorted_wrt (<) (map fst ms) \<and> (\<forall>m \<in> set ms. utf8_Valid J (fst m) \<and> canonical_json J (snd m))"
| "canonical_json J (JArray xs) \<longleftrightarrow> (\<forall>x \<in> set xs. canonical_json J x)"
| "canonical_json J (JString s) \<longleftrightarrow> utf8_Valid J s"
| "canonical_json J (JNumber n) \<longleftrightarrow> (\<exists>i. n = number_text i)"
| "canonical_json J (JBool b) \<longleftrightarrow> True"
| "canonical_json J JNull \<longleftrightarrow> True"

definition encodable :: "json_library \<Rightarrow> Attachment \<Rightarrow> bool" where
  "encodable J a \<longleftrightarrow> canonical_json J (JObject (attachment_fields a))"

lemma number_text_inject [simp]: "number_text i = number_text j \<longleftrightarrow> i = j"
proof -
  have "CHR ''-'' # xs \<noteq> Itoa n" for xs n
  proof
    assume "CHR ''-'' # xs = Itoa n"
    with Itoa_digits [of n] have "is_digit (CHR ''-'')" by (metis list.pred_inject(2))
    then show False by code_simp
  qed
  then show ?thesis by (auto simp: number_text_def) (metis+)?
qed

lemma map_JString_inject [simp]: "map JString xs = map JString ys \<longleftrightarrow> xs = ys"
  by (rule inj_map_eq_map) (simp add: inj_def)

lemma map_of_omitempty [simp]:
  "map_of (omitempty e k v @ ms) x = (if \<not> e \<and> x = k then Some v else map_of ms x)"
  "map_of (omitempty e k v) x = (if \<not> e \<and> x = k then Some v else None)"
  by (simp_all add: omitempty_def)

lemma connection_fields_inject:
  assumes eq: "connection_fields c = connection_fields d"
    and "StartupParameters c \<noteq> Some []" and "StartupParameters d \<noteq> Some []"
  shows "c = d"
proof -
  have m: "map_of (connection_fields c) k = map_of (connection_fields d) k" for k by (simp add: eq)
  have "StartupParameters c = StartupParameters d"
    using m [of "''startup_parameters''"] assms(2,3)
    by (cases "StartupParameters c"; cases "StartupParameters d") (auto simp: connection_fields_def simp del: map_of_append split: if_splits)
  moreover have "ConnectionLimitScope c = ConnectionLimitScope d" "att_Kind c = att_Kind d" "PoolMode c = PoolMode d"
    "SessionState c = SessionState d" "SocketDirectory c = SocketDirectory d" "att_Port c = att_Port d"
    "MaxDBConnections c = MaxDBConnections d"
    using m [of "''connection_limit_scope''"] m [of "''kind''"] m [of "''pool_mode''"] m [of "''session_state''"]
      m [of "''socket_directory''"] m [of "''port''"] m [of "''max_db_connections''"]
    by (simp_all add: connection_fields_def del: map_of_append split: if_splits)
  ultimately show ?thesis by (simp add: att_Connection.equality)
qed

lemma mount_fields_inject: "mount_fields m = mount_fields n \<Longrightarrow> m = n"
  by (cases "ReadOnly m"; cases "ReadOnly n") (auto simp: mount_fields_def omitempty_def intro: Mount.equality)

lemma volume_fields_inject: "volume_fields v = volume_fields w \<Longrightarrow> v = w"
  by (auto simp: volume_fields_def intro: Volume.equality)

lemma security_fields_inject: "security_fields s = security_fields u \<Longrightarrow> s = u"
  by (auto simp: security_fields_def intro!: Security.equality split: option.splits)

lemma pod_fields_inject: "pod_fields p = pod_fields q \<Longrightarrow> p = q"
  by (auto simp: pod_fields_def intro!: PodSecurity.equality)

lemma resources_fields_inject: "resources_fields r = resources_fields s \<Longrightarrow> r = s"
  by (auto simp: resources_fields_def intro!: Resources.equality)

lemma probe_fields_inject: "probe_fields p = probe_fields q \<Longrightarrow> p = q"
  by (auto simp: probe_fields_def intro!: StartupProbe.equality)

lemma map_object_inject: "(\<And>x y. f x = f y \<Longrightarrow> x = y) \<Longrightarrow> map (JObject \<circ> f) xs = map (JObject \<circ> f) ys \<Longrightarrow> xs = ys"
  by (metis (no_types, lifting) comp_apply injI inj_map_eq_map json.inject(1))

lemma mounts_fields_inject: "map (JObject \<circ> mount_fields) ms = map (JObject \<circ> mount_fields) ns \<Longrightarrow> ms = ns"
  by (rule map_object_inject, erule mount_fields_inject)

lemma volumes_fields_inject: "map (JObject \<circ> volume_fields) vs = map (JObject \<circ> volume_fields) ws \<Longrightarrow> vs = ws"
  by (rule map_object_inject, erule volume_fields_inject)

lemma sidecar_fields_inject:
  assumes eq: "sidecar_fields c = sidecar_fields d"
  shows "c = d"
proof -
  have m: "map_of (sidecar_fields c) k = map_of (sidecar_fields d) k" for k by (simp add: eq)
  have "sidecar_Probe c = sidecar_Probe d"
    using m [of "''startupProbe''"] probe_fields_inject
    by (cases "sidecar_Probe c"; cases "sidecar_Probe d") (auto simp: sidecar_fields_def simp del: map_of_append)
  moreover have "Args c = Args d" "sidecar_Image c = sidecar_Image d" "sidecar_Name c = sidecar_Name d" "RestartPolicy c = RestartPolicy d"
    "sidecar_Resources c = sidecar_Resources d" "SecurityContext c = SecurityContext d"
    using eq by (auto simp: sidecar_fields_def dest: resources_fields_inject security_fields_inject)
  moreover have "sidecar_Mounts c = sidecar_Mounts d"
    using m [of "''volumeMounts''"] mounts_fields_inject
    by (auto simp: sidecar_fields_def simp del: map_of_append)
  ultimately show ?thesis by (simp add: Sidecar.equality)
qed

lemma sidecars_fields_inject: "map (JObject \<circ> sidecar_fields) cs = map (JObject \<circ> sidecar_fields) ds \<Longrightarrow> cs = ds"
  by (rule map_object_inject, erule sidecar_fields_inject)

lemma attachment_fields_inject:
  assumes eq: "AList.delete ''digest'' (attachment_fields a) = AList.delete ''digest'' (attachment_fields b)"
    and "StartupParameters (att_Conn (att_Binding_of a)) \<noteq> Some []" and "StartupParameters (att_Conn (att_Binding_of b)) \<noteq> Some []"
    and "att_Digest a = att_Digest b"
  shows "a = b"
proof -
  have "att_Conn (att_Binding_of a) = att_Conn (att_Binding_of b)"
    using eq assms(2,3) by (intro connection_fields_inject) (simp_all add: attachment_fields_def binding_fields_def)
  moreover have "Primitive (att_Binding_of a) = Primitive (att_Binding_of b)" "att_ID (att_Binding_of a) = att_ID (att_Binding_of b)"
    "att_Access (att_Binding_of a) = att_Access (att_Binding_of b)" "att_Database (att_Binding_of a) = att_Database (att_Binding_of b)"
    "att_User (att_Binding_of a) = att_User (att_Binding_of b)"
    using eq by (simp_all add: attachment_fields_def binding_fields_def)
  ultimately have "att_Binding_of a = att_Binding_of b" by (simp add: att_Binding.equality)
  moreover have "map (JObject \<circ> sidecar_fields) (InitContainers a) = map (JObject \<circ> sidecar_fields) (InitContainers b)"
    "map (JObject \<circ> mount_fields) (VolumeMounts a) = map (JObject \<circ> mount_fields) (VolumeMounts b)"
    "map (JObject \<circ> volume_fields) (Volumes a) = map (JObject \<circ> volume_fields) (Volumes b)"
    "pod_fields (PodSecurityContext a) = pod_fields (PodSecurityContext b)"
    "att_Namespace a = att_Namespace b" "SchemaVersion a = SchemaVersion b" "ServiceAccount a = ServiceAccount b"
    using eq by (simp_all add: attachment_fields_def)
  ultimately show ?thesis
    using assms(4) sidecars_fields_inject mounts_fields_inject volumes_fields_inject pod_fields_inject
    by (cases a; cases b) (simp; blast)
qed

lemma enveloped_parameters: "enveloped a \<Longrightarrow> StartupParameters (att_Conn (att_Binding_of a)) \<noteq> Some []"
  by (auto simp: enveloped_def version_ok_def connection_kind_ok_def legacyConnection_def pooledConnection_def)

lemma delete_digest: "AList.delete ''digest'' (attachment_fields (a\<lparr>att_Digest := d\<rparr>)) = AList.delete ''digest'' (attachment_fields a)"
  by (simp add: attachment_fields_def)

lemma encodable_digest: "encodable J a \<Longrightarrow> utf8_Valid J d \<Longrightarrow> encodable J (a\<lparr>att_Digest := d\<rparr>)"
  by (simp add: encodable_def attachment_fields_def)

lemma encodable_sealed: "encodable J a \<Longrightarrow> canonical_json J (JObject (AList.delete ''digest'' (attachment_fields a)))"
  by (simp add: encodable_def attachment_fields_def)

lemma hex_ascii: "is_hex c \<Longrightarrow> of_char c < (128 :: nat)"
  by (auto simp: is_hex_def is_digit_def less_eq_char_def)

lemma canonical_text_Some:
  assumes marshals: "\<And>a. encodable J a \<Longrightarrow> \<exists>data. Marshal J a = Some data \<and> DecodeObject J data = Some (attachment_fields a)"
    and encodes: "\<And>v. canonical_json J (JObject v) \<Longrightarrow>
      \<exists>raw. Encode J v = Some (raw @ [LF]) \<and> separator_free raw \<and> DecodeObject J (raw @ [LF]) = Some v"
    and "encodable J a"
  obtains raw where "canonical_text J a = Some raw" "separator_free raw"
    "DecodeObject J (raw @ [LF]) = Some (AList.delete ''digest'' (attachment_fields a))"
    "Encode J (AList.delete ''digest'' (attachment_fields a)) = Some (raw @ [LF])"
proof -
  obtain data where d: "Marshal J a = Some data" "DecodeObject J data = Some (attachment_fields a)"
    using marshals [OF assms(3)] by blast
  obtain raw where r: "Encode J (AList.delete ''digest'' (attachment_fields a)) = Some (raw @ [LF])" "separator_free raw"
    "DecodeObject J (raw @ [LF]) = Some (AList.delete ''digest'' (attachment_fields a))"
    using encodes [OF encodable_sealed [OF assms(3)]] by blast
  have "canonical_text J a = Some raw" using d r(1) by (simp add: canonical_text_def TrimSuffix_def)
  with r that show thesis by blast
qed

text \<open>
  C34: a seal binds every field but itself. \<open>encoding/json\<close> is taken at its word: marshalling a struct
  whose texts are UTF-8 and decoding it gives the fields under their tags, the encoder's output decodes to
  what was encoded, ends with a newline and holds no raw JavaScript line separator, and ASCII is UTF-8. Then
  sealing succeeds, changes nothing but the digest, sealing again changes nothing, and a sealed
  attachment validates exactly when its envelope is sound. Two attachments that validate under one digest
  are the same attachment, field by field, unless their texts are a collision of the hash: deleting the
  digest, ordering the fields and writing the separators literally lose nothing.
\<close>

theorem attachment_seal_binds:
  assumes marshals: "\<And>a. encodable J a \<Longrightarrow> \<exists>data. Marshal J a = Some data \<and> DecodeObject J data = Some (attachment_fields a)"
    and encodes: "\<And>v. canonical_json J (JObject v) \<Longrightarrow>
      \<exists>raw. Encode J v = Some (raw @ [LF]) \<and> separator_free raw \<and> DecodeObject J (raw @ [LF]) = Some v"
    and ascii: "\<And>s. list_all (\<lambda>c. of_char c < (128::nat)) s \<Longrightarrow> utf8_Valid J s"
    and texts: "encodable J a" "encodable J b"
  shows "(\<exists>s. Seal P J a = Some s \<and> s = a\<lparr>att_Digest := att_Digest s\<rparr> \<and> Seal P J s = Some s \<and>
            (Validate P J s = None \<longleftrightarrow> enveloped a)) \<and>
         (Validate P J a = None \<and> Validate P J b = None \<and> att_Digest a = att_Digest b \<and>
            (sha256 P (hashed J a) = sha256 P (hashed J b) \<longrightarrow> hashed J a = hashed J b) \<longrightarrow> a = b)"
proof (intro conjI impI)
  obtain x where x: "canonical_text J a = Some x" "separator_free x"
    "DecodeObject J (x @ [LF]) = Some (AList.delete ''digest'' (attachment_fields a))"
    "Encode J (AList.delete ''digest'' (attachment_fields a)) = Some (x @ [LF])"
    using canonical_text_Some [OF marshals encodes texts(1)] by metis
  obtain y where y: "canonical_text J b = Some y" "separator_free y"
    "DecodeObject J (y @ [LF]) = Some (AList.delete ''digest'' (attachment_fields b))"
    using canonical_text_Some [OF marshals encodes texts(2)] by metis
  let ?d = "''sha256:'' @ EncodeToString (sha256 P (literal_separators x))"
  have digest: "computedDigest P J a = Some ?d" using x(1) by (simp add: computedDigest_def)
  have "encodable J (a\<lparr>att_Digest := ?d\<rparr>)"
    by (rule encodable_digest [OF texts(1) ascii]) (use EncodeToString_hex [of "sha256 P (literal_separators x)"] in \<open>auto simp: list_all_iff dest!: bspec hex_ascii\<close>)
  then obtain z where z: "canonical_text J (a\<lparr>att_Digest := ?d\<rparr>) = Some z"
    "Encode J (AList.delete ''digest'' (attachment_fields (a\<lparr>att_Digest := ?d\<rparr>))) = Some (z @ [LF])"
    using canonical_text_Some [OF marshals encodes] by metis
  with x(4) have "z = x" by (simp add: delete_digest)
  with z(1) have again: "computedDigest P J (a\<lparr>att_Digest := ?d\<rparr>) = Some ?d" by (simp add: computedDigest_def)
  show "\<exists>s. Seal P J a = Some s \<and> s = a\<lparr>att_Digest := att_Digest s\<rparr> \<and> Seal P J s = Some s \<and>
      (Validate P J s = None \<longleftrightarrow> enveloped a)"
    using digest again by (intro exI [of _ "a\<lparr>att_Digest := ?d\<rparr>"]) (simp add: Seal_def Validate_enveloped enveloped_digest)
  assume valid: "Validate P J a = None \<and> Validate P J b = None \<and> att_Digest a = att_Digest b \<and>
    (sha256 P (hashed J a) = sha256 P (hashed J b) \<longrightarrow> hashed J a = hashed J b)"
  then have env: "enveloped a" "enveloped b" and "computedDigest P J a = computedDigest P J b"
    by (simp_all add: Validate_enveloped)
  then have "sha256 P (literal_separators x) = sha256 P (literal_separators y)"
    using x(1) y(1) EncodeToString_inject by (simp add: computedDigest_def)
  then have "literal_separators x = literal_separators y" using valid x(1) y(1) by (simp add: hashed_def)
  then have "x = y" using escape_literal_separators x(2) y(2) by metis
  with x(3) y(3) have "AList.delete ''digest'' (attachment_fields a) = AList.delete ''digest'' (attachment_fields b)" by simp
  with enveloped_parameters [OF env(1)] enveloped_parameters [OF env(2)] valid show "a = b"
    by (intro attachment_fields_inject) auto
qed

lemma arguments_bounded:
  "list_all (container_ok version volumes) cs \<Longrightarrow> (\<Sum>c \<leftarrow> cs. length (Args c)) \<le> length cs * 16"
  by (induction cs) (auto simp: container_ok_def)

text \<open>
  C33: an attachment that validates confines what it attaches. Exactly one volume mount of the consumer
  holds the socket directory; every mount of the consumer is read-only, every mount of consumer and
  containers is of exactly one declared volume, and that one lives in memory; no directory lies in two mounts
  of one pod member. Every container runs a pinned image without privilege escalation, on a read-only root,
  with every capability dropped. There are at most 16 containers with at most 256 arguments together, their
  names are distinct labels of at most 63 bytes, the port is a port, and a pooled attachment opens at most
  100 connections and has exactly one startup probe, the other kind none of either.
\<close>

theorem attachment_confined:
  assumes "Validate P J a = None"
  shows "(\<exists>!m. m \<in> set (VolumeMounts a) \<and> holds_path m (SocketDirectory (att_Conn (att_Binding_of a)))) \<and>
    (\<forall>m \<in> set (VolumeMounts a). ReadOnly m = Some True) \<and>
    (\<forall>ms \<in> insert (VolumeMounts a) (sidecar_Mounts ` set (InitContainers a)).
       (\<forall>m \<in> set ms. (\<exists>!v. v \<in> set (Volumes a) \<and> volume_Name v = mount_Name m) \<and>
          (\<forall>v \<in> set (Volumes a). volume_Name v = mount_Name m \<longrightarrow> Medium v = ''Memory'')) \<and>
       (\<forall>m \<in> set ms. \<forall>n \<in> set ms. \<forall>dir. holds_path m dir \<and> holds_path n dir \<longrightarrow> m = n)) \<and>
    (\<forall>c \<in> set (InitContainers a). imagePattern (sidecar_Image c) \<and> AllowPrivilegeEscalation (SecurityContext c) = Some False \<and>
       ReadOnlyRootFilesystem (SecurityContext c) \<and> Drop (SecurityContext c) = [''ALL''] \<and> 1 \<le> length (sidecar_Name c) \<and> length (sidecar_Name c) \<le> 63) \<and>
    distinct (map sidecar_Name (InitContainers a)) \<and> length (InitContainers a) \<le> 16 \<and>
    (\<Sum>c \<leftarrow> InitContainers a. length (Args c)) \<le> 256 \<and>
    1 \<le> att_Port (att_Conn (att_Binding_of a)) \<and> att_Port (att_Conn (att_Binding_of a)) \<le> 65535 \<and>
    (if SchemaVersion a = VersionV2 then MaxDBConnections (att_Conn (att_Binding_of a)) \<in> {1..100} \<and> startupProbes a = 1
     else MaxDBConnections (att_Conn (att_Binding_of a)) = 0 \<and> startupProbes a = 0)"
proof -
  have env: "enveloped a" using assms by (simp add: Validate_enveloped)
  let ?volumes = "map volume_Name (Volumes a)"
  have vols: "check_volumes [] (Volumes a)" and cons: "checkMounts ?volumes (VolumeMounts a) True False"
    and conts: "list_all (container_ok (SchemaVersion a) ?volumes) (InitContainers a)" "distinct (map sidecar_Name (InitContainers a))"
    using env by (auto simp: enveloped_def containers_loop_iff)
  have mounts: "\<exists>consumer repeated. checkMounts ?volumes ms consumer repeated"
    if "ms \<in> insert (VolumeMounts a) (sidecar_Mounts ` set (InitContainers a))" for ms
    using that cons conts by (auto simp: list_all_iff container_ok_def)
  have socket: "\<exists>!m. m \<in> set (VolumeMounts a) \<and> holds_path m (SocketDirectory (att_Conn (att_Binding_of a)))"
    using env checked_mount_unique [OF cons] by (auto simp: enveloped_def socketMounted_def list_ex_iff holds_path_def)
  have readonly: "\<forall>m \<in> set (VolumeMounts a). ReadOnly m = Some True" using cons by (simp add: checkMounts_iff list_all_iff)
  have counts: "length (InitContainers a) \<le> 16" "(\<Sum>c \<leftarrow> InitContainers a. length (Args c)) \<le> 256"
    using env arguments_bounded [OF conts(1)] by (auto simp: enveloped_def counts_ok_def)
  have conn: "1 \<le> att_Port (att_Conn (att_Binding_of a)) \<and> att_Port (att_Conn (att_Binding_of a)) \<le> 65535"
    using env by (simp add: enveloped_def binding_ok_def)
  have kind: "if SchemaVersion a = VersionV2 then MaxDBConnections (att_Conn (att_Binding_of a)) \<in> {1..100} \<and> startupProbes a = 1
     else MaxDBConnections (att_Conn (att_Binding_of a)) = 0 \<and> startupProbes a = 0"
    using env by (auto simp: enveloped_def version_ok_def connection_kind_ok_def legacyConnection_def pooledConnection_def Version_def VersionV2_def)
  have members: "\<forall>c \<in> set (InitContainers a). imagePattern (sidecar_Image c) \<and> AllowPrivilegeEscalation (SecurityContext c) = Some False \<and>
       ReadOnlyRootFilesystem (SecurityContext c) \<and> Drop (SecurityContext c) = [''ALL''] \<and> 1 \<le> length (sidecar_Name c) \<and> length (sidecar_Name c) \<le> 63"
    using conts(1) by (auto simp: list_all_iff container_ok_def confined_def Suc_le_eq dest!: bspec namePattern_length)
  have vol: "\<forall>ms \<in> insert (VolumeMounts a) (sidecar_Mounts ` set (InitContainers a)).
       (\<forall>m \<in> set ms. (\<exists>!v. v \<in> set (Volumes a) \<and> volume_Name v = mount_Name m) \<and>
          (\<forall>v \<in> set (Volumes a). volume_Name v = mount_Name m \<longrightarrow> Medium v = ''Memory'')) \<and>
       (\<forall>m \<in> set ms. \<forall>n \<in> set ms. \<forall>dir. holds_path m dir \<and> holds_path n dir \<longrightarrow> m = n)"
  proof
    fix ms assume "ms \<in> insert (VolumeMounts a) (sidecar_Mounts ` set (InitContainers a))"
    then obtain consumer repeated where ok: "checkMounts ?volumes ms consumer repeated" using mounts by blast
    show "(\<forall>m \<in> set ms. (\<exists>!v. v \<in> set (Volumes a) \<and> volume_Name v = mount_Name m) \<and>
          (\<forall>v \<in> set (Volumes a). volume_Name v = mount_Name m \<longrightarrow> Medium v = ''Memory'')) \<and>
       (\<forall>m \<in> set ms. \<forall>n \<in> set ms. \<forall>dir. holds_path m dir \<and> holds_path n dir \<longrightarrow> m = n)"
      by (intro conjI ballI allI impI, use checked_mount_volume [OF vols ok] in simp_all) (use checked_mount_unique [OF ok] in blast)
  qed
  show ?thesis
    by (intro conjI socket readonly vol members conts(2) counts conn [THEN conjunct1] conn [THEN conjunct2] kind)
qed


text \<open>No object of the document, at any depth, repeats a key.\<close>

fun unique_keys :: "document \<Rightarrow> bool" where
  "unique_keys (SObject ms) \<longleftrightarrow> distinct (map fst ms) \<and> (\<forall>m \<in> set ms. unique_keys (snd m))"
| "unique_keys (SArray xs) \<longleftrightarrow> (\<forall>x \<in> set xs. unique_keys x)"
| "unique_keys _ \<longleftrightarrow> True"

lemma strict_value_unique:
  "strict_value d \<noteq> None \<longleftrightarrow> unique_keys d"
  "strict_members seen ms \<noteq> None \<longleftrightarrow> distinct (map fst ms) \<and> set (map fst ms) \<inter> set seen = {} \<and> (\<forall>m \<in> set ms. unique_keys (snd m))"
  "strict_items xs \<noteq> None \<longleftrightarrow> (\<forall>x \<in> set xs. unique_keys x)"
  by (induction d and seen ms and xs rule: strict_value_strict_members_strict_items.induct) (auto split: option.splits)

text \<open>
  Parsing accepts exactly the documents that mean what they say. Parse returns an attachment
  exactly when the bytes are UTF-8 with paired escapes and hold one document without a repeated key at any
  depth, the attachment decoded from it validates, and its own encoding has the same value as the document;
  so an attachment that validates is read back from its own encoding, and two documents parsed to one
  attachment have the same value.
\<close>

theorem attachment_parse_exact:
  assumes readable: "\<And>a s. Marshal J a = Some s \<Longrightarrow>
      utf8_Valid J s \<and> validUnicodeEscapes s \<and> strictJSON J s \<noteq> None \<and> decode_attachment J s = Some (a, False)"
  shows "(att_Parse P J data = Inr a \<longleftrightarrow>
      utf8_Valid J data \<and> validUnicodeEscapes data \<and> (\<exists>tree. json_syntax J data = Some (tree, False) \<and> unique_keys tree) \<and>
      decode_attachment J data = Some (a, False) \<and> Validate P J a = None \<and>
      (\<exists>s. Marshal J a = Some s \<and> strictJSON J s = strictJSON J data)) \<and>
    (Validate P J a = None \<and> Marshal J a = Some s \<longrightarrow> att_Parse P J s = Inr a) \<and>
    (att_Parse P J data = Inr a \<and> att_Parse P J other = Inr a \<longrightarrow> strictJSON J data = strictJSON J other)"
proof -
  have strict: "strictJSON J d \<noteq> None \<longleftrightarrow> (\<exists>tree. json_syntax J d = Some (tree, False) \<and> unique_keys tree)" for d
    by (auto simp: strictJSON_def strict_value_unique(1) [symmetric] split: option.splits)
  have parse: "att_Parse P J d = Inr a \<longleftrightarrow>
      utf8_Valid J d \<and> validUnicodeEscapes d \<and> strictJSON J d \<noteq> None \<and> decode_attachment J d = Some (a, False) \<and> Validate P J a = None \<and>
      (\<exists>s. Marshal J a = Some s \<and> strictJSON J s = strictJSON J d)" for d
    by (auto simp: att_Parse_def split: option.splits if_splits)
  show ?thesis using parse strict readable by auto
qed

section \<open>A codec for the witnesses\<close>

text \<open>A self-delimiting text for every value, and its reader; the reader's fuel is the length of the text.\<close>

definition code_char :: "char \<Rightarrow> string" where
  "code_char c = [char_of (97 + of_char c div 16 :: nat), char_of (97 + of_char c mod 16 :: nat)]"

definition code_text :: "string \<Rightarrow> string" where
  "code_text s = concat (map code_char s) @ ''z''"

fun read_text :: "string \<Rightarrow> (string \<times> string) option" where
  "read_text [] = None"
| "read_text (a # r) =
     (if a = CHR ''z'' then Some ([], r)
      else case r of
        [] \<Rightarrow> None
      | b # r \<Rightarrow> (case read_text r of None \<Rightarrow> None | Some (s, rest) \<Rightarrow>
          Some (char_of (16 * (of_char a - 97) + (of_char b - 97) :: nat) # s, rest)))"

fun code_json :: "json \<Rightarrow> string" and code_members :: "(string \<times> json) list \<Rightarrow> string" and code_items :: "json list \<Rightarrow> string" where
  "code_json (JObject ms) = CHR ''O'' # code_members ms"
| "code_json (JArray xs) = CHR ''A'' # code_items xs"
| "code_json (JString s) = CHR ''S'' # code_text s"
| "code_json (JNumber n) = CHR ''N'' # code_text n"
| "code_json (JBool b) = (if b then ''T'' else ''F'')"
| "code_json JNull = ''0''"
| "code_members [] = ''.''"
| "code_members ((k, v) # ms) = CHR '','' # code_text k @ code_json v @ code_members ms"
| "code_items [] = ''.''"
| "code_items (x # xs) = CHR '','' # code_json x @ code_items xs"

fun read_json :: "nat \<Rightarrow> string \<Rightarrow> (json \<times> string) option"
and read_members :: "nat \<Rightarrow> string \<Rightarrow> ((string \<times> json) list \<times> string) option"
and read_items :: "nat \<Rightarrow> string \<Rightarrow> (json list \<times> string) option" where
  "read_json (Suc n) (c # r) =
     (if c = CHR ''O'' then map_option (apfst JObject) (read_members n r)
      else if c = CHR ''A'' then map_option (apfst JArray) (read_items n r)
      else if c = CHR ''S'' then map_option (apfst JString) (read_text r)
      else if c = CHR ''N'' then map_option (apfst JNumber) (read_text r)
      else Some (if c = CHR ''T'' then JBool True else if c = CHR ''F'' then JBool False else JNull, r))"
| "read_json _ _ = None"
| "read_members (Suc n) (c # r) =
     (if c = CHR ''.'' then Some ([], r)
      else case read_text r of None \<Rightarrow> None | Some (k, r) \<Rightarrow>
        (case read_json n r of None \<Rightarrow> None | Some (v, r) \<Rightarrow> map_option (apfst (Cons (k, v))) (read_members n r)))"
| "read_members _ _ = None"
| "read_items (Suc n) (c # r) =
     (if c = CHR ''.'' then Some ([], r)
      else case read_json n r of None \<Rightarrow> None | Some (v, r) \<Rightarrow> map_option (apfst (Cons v)) (read_items n r))"
| "read_items _ _ = None"

definition read_object :: "string \<Rightarrow> (string \<times> json) list option" where
  "read_object s = (case read_json (length s) s of Some (JObject ms, _) \<Rightarrow> Some ms | _ \<Rightarrow> None)"

lemma code_digits:
  "(97 + of_char (c :: char) div 16) mod 256 = (97 + of_char c div 16 :: nat)"
  "(97 + of_char (c :: char) mod 16) mod 256 = (97 + of_char c mod 16 :: nat)"
  "(of_char c :: nat) div 16 < 16"
proof -
  show d: "(of_char c :: nat) div 16 < 16" using of_char_lt_256 [of c] by (intro less_mult_imp_div_less) simp
  then show "(97 + of_char c div 16) mod 256 = (97 + of_char c div 16 :: nat)" by simp
  show "(97 + of_char c mod 16) mod 256 = (97 + of_char c mod 16 :: nat)"
    using mod_less_divisor [of 16 "of_char c :: nat"] by simp
qed

lemma of_char_digit: "of_char (char_of (97 + of_char (c :: char) div 16 :: nat) :: char) = (97 + of_char c div 16 :: nat)"
  "of_char (char_of (97 + of_char (c :: char) mod 16 :: nat) :: char) = (97 + of_char c mod 16 :: nat)"
  by (simp_all only: of_char_of code_digits)

lemma code_char_first: "char_of (97 + of_char (c :: char) div 16 :: nat) \<noteq> CHR ''z''"
proof
  assume "char_of (97 + of_char c div 16 :: nat) = CHR ''z''"
  then have "(97 + of_char c div 16 :: nat) = of_char (CHR ''z'')" by (metis of_char_digit(1))
  then have "(of_char c :: nat) div 16 = 25" by simp
  with code_digits(3) [of c] show False by simp
qed

lemma read_code_text [simp]: "read_text (code_text s @ r) = Some (s, r)"
proof (induction s)
  case Nil
  then show ?case by (simp add: code_text_def)
next
  case (Cons c s)
  have "read_text (code_char c @ (code_text s @ r)) = Some (c # s, r)"
    unfolding code_char_def using code_char_first [of c] Cons.IH by (simp add: code_digits)
  then show ?case by (simp add: code_text_def)
qed

lemma read_code:
  "length (code_json v) \<le> n \<Longrightarrow> read_json n (code_json v @ r) = Some (v, r)"
  "length (code_members ms) \<le> n \<Longrightarrow> read_members n (code_members ms @ r) = Some (ms, r)"
  "length (code_items xs) \<le> n \<Longrightarrow> read_items n (code_items xs @ r) = Some (xs, r)"
proof (induction v and ms and xs arbitrary: n r and n r and n r rule: code_json_code_members_code_items.induct)
  case (1 ms)
  then obtain m where "n = Suc m" by (cases n) (auto split: if_splits)
  with 1 show ?case by simp
next
  case (2 xs)
  then obtain m where "n = Suc m" by (cases n) (auto split: if_splits)
  with 2 show ?case by simp
next
  case (3 s)
  then obtain m where "n = Suc m" by (cases n) (auto split: if_splits)
  with 3 show ?case by simp
next
  case (4 x)
  then obtain m where "n = Suc m" by (cases n) (auto split: if_splits)
  with 4 show ?case by simp
next
  case (5 b)
  then obtain m where "n = Suc m" by (cases n) (auto split: if_splits)
  with 5 show ?case by simp
next
  case 6
  then obtain m where "n = Suc m" by (cases n) (auto split: if_splits)
  with 6 show ?case by simp
next
  case 7
  then obtain m where "n = Suc m" by (cases n) (auto split: if_splits)
  with 7 show ?case by simp
next
  case (8 k v ms)
  then obtain m where "n = Suc m" by (cases n) (auto split: if_splits)
  with 8 show ?case by simp
next
  case 9
  then obtain m where "n = Suc m" by (cases n) (auto split: if_splits)
  with 9 show ?case by simp
next
  case (10 x xs)
  then obtain m where "n = Suc m" by (cases n) (auto split: if_splits)
  with 10 show ?case by simp
qed

lemma read_code_object: "read_object (code_json (JObject ms) @ r) = Some ms"
  using read_code(1) [of "JObject ms" "length (code_json (JObject ms) @ r)" r] by (simp add: read_object_def)

lemma separator_free_plain: "CHR 0xE2 \<notin> set s \<Longrightarrow> separator_free s"
  by (induction s) (auto simp: raw_separator_def)

lemma code_text_plain: "set (code_text s) \<subseteq> {c. (97 :: nat) \<le> of_char c \<and> of_char c \<le> (122 :: nat)}"
proof -
  have "(97 :: nat) \<le> of_char x \<and> of_char x \<le> (122 :: nat)" if "x \<in> set (code_char c)" for x c
  proof -
    have "(of_char c :: nat) div 16 \<le> 25" "(of_char c :: nat) mod 16 \<le> 25"
      using code_digits(3) [of c] mod_less_divisor [of 16 "of_char c :: nat"] by simp_all
    with that show ?thesis unfolding code_char_def by (auto simp: code_digits simp del: div_le_dividend)
  qed
  then show ?thesis by (auto simp: code_text_def)
qed

lemma code_plain:
  "set (code_json v) \<inter> {CHR 0xE2, CHR 0x5C} = {}"
  "set (code_members ms) \<inter> {CHR 0xE2, CHR 0x5C} = {}"
  "set (code_items xs) \<inter> {CHR 0xE2, CHR 0x5C} = {}"
  by (induction v and ms and xs rule: code_json_code_members_code_items.induct) (use code_text_plain in force)+

definition sample_json :: json_library where
  "sample_json = \<lparr>utf8_Valid = (\<lambda>_. True), json_syntax = (\<lambda>s. Some (SString s, False)), decode_attachment = (\<lambda>_. None),
     Marshal = (\<lambda>a. Some (code_json (JObject (attachment_fields a)))), DecodeObject = read_object,
     Encode = (\<lambda>ms. Some (code_json (JObject ms) @ [LF]))\<rparr>"

definition unsealed_attachment :: Attachment where
  "unsealed_attachment = \<lparr>SchemaVersion = Version,
     att_Binding_of = \<lparr>Primitive = ''database'', att_ID = ''orders'', att_Access = ''reader'', att_Database = ''orders'', att_User = ''reader'',
       att_Conn = \<lparr>att_Kind = ''local-identity-proxy'', SocketDirectory = ''/run/pg/socket'', att_Port = 5432, PoolMode = [], SessionState = [],
         ConnectionLimitScope = [], MaxDBConnections = 0, StartupParameters = None\<rparr>\<rparr>,
     att_Namespace = ''shop'', ServiceAccount = ''api'',
     PodSecurityContext = \<lparr>RunAsNonRoot = True, RunAsUser = 1000, RunAsGroup = 1000, FSGroup = 1000, seccomp_Type = ''RuntimeDefault''\<rparr>,
     InitContainers = [\<lparr>sidecar_Name = ''proxy'', sidecar_Image = ''proxy@sha256:'' @ replicate 64 (CHR ''a''), RestartPolicy = ''Always'',
       Args = [''--socket''], sidecar_Mounts = [\<lparr>mount_Name = ''socket'', MountPath = ''/run/pg'', ReadOnly = None\<rparr>],
       SecurityContext = \<lparr>AllowPrivilegeEscalation = Some False, ReadOnlyRootFilesystem = True, Drop = [''ALL'']\<rparr>,
       sidecar_Resources = \<lparr>requests_CPU = ''10m'', requests_Memory = ''16Mi'', limits_CPU = ''20m'', limits_Memory = ''32Mi''\<rparr>,
       sidecar_Probe = None\<rparr>],
     Volumes = [\<lparr>volume_Name = ''socket'', Medium = ''Memory'', SizeLimit = ''1Mi''\<rparr>],
     VolumeMounts = [\<lparr>mount_Name = ''socket'', MountPath = ''/run/pg'', ReadOnly = Some True\<rparr>],
     att_Digest = []\<rparr>"

definition sealed_attachment :: Attachment where
  "sealed_attachment = the (Seal sample_platform sample_json unsealed_attachment)"

lemma attached_paths: "validPath ''/run/pg''" "validPath ''/run/pg/socket''"
  by (simp_all add: validPath_def IsAbs_def Clean_def unsplit_def clean_elements_def runes_ascii IsSpace_def prefix_def sublist_Cons_right)

lemma attached_image: "imagePattern (''proxy@sha256:'' @ replicate 64 (CHR ''a''))"
  by code_simp

lemma attached_names: "list_all namePattern [''proxy'', ''socket'', ''shop'', ''api'']"
  by code_simp

lemma attached_texts: "list_all bounded_text [''orders'', ''reader'', ''10m'', ''16Mi'', ''20m'', ''32Mi'', ''1Mi'']"
  by code_simp



lemma unsealed_enveloped: "enveloped unsealed_attachment"
  using attached_paths attached_image attached_names attached_texts
  by (simp add: enveloped_def unsealed_attachment_def version_ok_def binding_ok_def connection_kind_ok_def legacyConnection_def pod_ok_def
      counts_ok_def checkMounts_def socketMounted_def container_ok_def confined_def argument_ok_def startupProbes_def Version_def VersionV2_def
      ContainsAny_def NUL_def)

lemma sample_json_laws:
  "\<exists>data. Marshal sample_json a = Some data \<and> DecodeObject sample_json data = Some (attachment_fields a)"
  "\<exists>raw. Encode sample_json v = Some (raw @ [LF]) \<and> separator_free raw \<and> DecodeObject sample_json (raw @ [LF]) = Some v"
  "utf8_Valid sample_json s"
  using read_code_object [of "attachment_fields a" "[]"] read_code_object [of v "[LF]"] separator_free_plain code_plain(1) [of "JObject v"]
  by (auto simp: sample_json_def simp del: code_json.simps)

lemma sample_encodable: "encodable sample_json unsealed_attachment"
  by (auto simp: encodable_def attachment_fields_def unsealed_attachment_def binding_fields_def connection_fields_def mount_fields_def
      volume_fields_def security_fields_def pod_fields_def resources_fields_def sidecar_fields_def omitempty_def sample_json_laws(3))

lemma sealed_attachment_exists: "\<exists>d. sealed_attachment = unsealed_attachment\<lparr>att_Digest := d\<rparr> \<and>
    computedDigest sample_platform sample_json sealed_attachment = Some d"
proof -
  have "canonical_text sample_json a = Some (code_json (JObject (AList.delete ''digest'' (attachment_fields a))))" for a
    using read_code_object [of "attachment_fields a" "[]"] by (simp add: canonical_text_def sample_json_def TrimSuffix_def del: code_json.simps)
  then show ?thesis by (simp add: sealed_attachment_def Seal_def computedDigest_def delete_digest)
qed

lemma sealed_attachment_valid: "Validate sample_platform sample_json sealed_attachment = None"
proof -
  obtain d where d: "sealed_attachment = unsealed_attachment\<lparr>att_Digest := d\<rparr>"
    "computedDigest sample_platform sample_json sealed_attachment = Some d"
    using sealed_attachment_exists by blast
  have "enveloped sealed_attachment" "att_Digest sealed_attachment = d"
    unfolding d(1) using unsealed_enveloped by (simp_all add: enveloped_digest)
  with d(2) show ?thesis by (simp add: Validate_enveloped)
qed

theorem attachment_confined_witness:
  "length (InitContainers sealed_attachment) \<le> 16 \<and> (\<Sum>c \<leftarrow> InitContainers sealed_attachment. length (Args c)) \<le> 256"
  using attachment_confined [OF sealed_attachment_valid] by (simp only: simp_thms)

theorem attachment_seal_binds_witness:
  "\<exists>s. Seal sample_platform sample_json unsealed_attachment = Some s \<and> Validate sample_platform sample_json s = None"
proof -
  note c = attachment_seal_binds [OF sample_json_laws(1) sample_json_laws(2) sample_json_laws(3) sample_encodable sample_encodable]
  show ?thesis using c [THEN conjunct1] unsealed_enveloped by blast
qed

definition sample_reader :: json_library where
  "sample_reader = sample_json\<lparr>decode_attachment := \<lambda>s. Some (sealed_attachment, False),
     Marshal := \<lambda>a. if a = sealed_attachment then Marshal sample_json a else None\<rparr>"

lemma plain_escapes: "CHR 0x5C \<notin> set s \<Longrightarrow> validUnicodeEscapes s"
  by (induction s) (auto simp: validUnicodeEscapes.simps)

theorem attachment_parse_exact_witness:
  "\<exists>s. Marshal sample_reader sealed_attachment = Some s \<and> att_Parse sample_platform sample_reader s = Inr sealed_attachment"
proof -
  have "Validate sample_platform sample_reader sealed_attachment = None"
  proof -
    have "canonical_text sample_reader sealed_attachment = canonical_text sample_json sealed_attachment"
      by (simp add: canonical_text_def sample_reader_def cong: option.case_cong)
    with sealed_attachment_valid show ?thesis by (simp add: Validate_enveloped computedDigest_def)
  qed
  moreover have "validUnicodeEscapes (code_json v)" for v using code_plain(1) [of v] by (intro plain_escapes) auto
  ultimately show ?thesis
    by (intro exI [of _ "code_json (JObject (attachment_fields sealed_attachment))"] conjI
        attachment_parse_exact [THEN conjunct2, THEN conjunct1, rule_format])
      (auto simp: sample_reader_def sample_json_def strictJSON_def simp del: code_json.simps split: if_splits)
qed

end
