(* ===== verification/Deployment.thy ===== *)
theory Deployment
  imports Published GoNet
begin

text \<open>
  The deployment half of \<open>builder.go\<close>: external bindings, the Secret references of a restricted render,
  the name of the bootstrap Job, \<open>prepareDeployment\<close>, \<open>Deploy\<close> and \<open>Sync\<close>. What core provides is a
  parameter: the configuration key of a secret, the network instance found in the request's mappings, the
  parsed output profile, and the rendering of the Job template and of the whole tree.
\<close>

definition migrationConnectionEnvironmentKey :: string where
  "migrationConnectionEnvironmentKey = ''CODEFLY_POSTGRES_MIGRATION_CONNECTION''"
definition externalReadOnlyConnectionKey :: string where "externalReadOnlyConnectionKey = ''CODEFLY_POSTGRES_READ_ONLY_CONNECTION''"
definition externalReadWriteConnectionKey :: string where "externalReadWriteConnectionKey = ''CODEFLY_POSTGRES_READ_WRITE_CONNECTION''"

record SecretKeyReference =
  ref_Name :: string
  ref_Key :: string
  ref_Optional :: bool

type_synonym secret_references = "string \<rightharpoonup> SecretKeyReference"

record promotableWorkloadSecretReferences =
  workload_StatefulSet :: secret_references
  workload_BootstrapJob :: secret_references

record DeploymentTemplateParameters =
  WithBootstrap :: bool
  dep_ExternalInstance :: bool
  ExternalBindingID :: string
  ExternalHost :: string
  ExternalPort :: nat
  ExternalSSLMode :: string
  dep_ReadOnlyRole :: string
  dep_ReadWriteRole :: string
  ManagedImage :: string
  BootstrapJobName :: string
  dep_DatabaseName :: string
  BootstrapJobDeadlineSeconds :: int
  StatefulSetSecretReferences :: secret_references
  BootstrapJobSecretReferences :: secret_references
  ServicePort :: nat
  OwnerFromLibpqEnvironment :: bool
  OwnerHost :: string
  OwnerPort :: string
  OwnerSSLMode :: string

record NetworkInstance =
  ni_Hostname :: string
  ni_Host :: string
  ni_Port :: nat
  ni_Address :: string

record deployment_request =
  environment_name :: string
  mapped_instance :: "NetworkInstance option"
  configuration_values :: config_values
  configured_references :: "string \<Rightarrow> SecretKeyReference option"
  output_profile :: int

datatype deploy_error =
    AccessRefused access_error
  | NamedEnvironmentRequired
  | NoBindingFor string
  | HostRequired
  | BadHost string
  | DatabaseNameMismatch string string
  | BoundRoles access_error
  | RolesMismatch "string list" "string list"
  | NoNetworkInstance
  | ExternalIdentityUnsupported
  | ReferenceRequired string
  | ReferenceOptional string
  | SeveralSecrets
  | BadAddress string
  | ServiceNameRequired
  | JobTemplateFailed
  | BudgetRefused timeouts_error
  | ExportFailed
  | RenderFailed

record deploy_env =
  ServiceSecretConfigurationKeyFromUnique :: "string \<Rightarrow> string \<Rightarrow> string \<Rightarrow> string"
  dep_Unique :: string
  dns_name :: string
  parsed_profile :: "int \<Rightarrow> bool option"
  pod_template :: "deployment_request \<Rightarrow> DeploymentTemplateParameters \<Rightarrow> string option"
  managed_image :: string
  export_ok :: "Configuration \<Rightarrow> bool"
  tree_rendered :: "DeploymentTemplateParameters \<Rightarrow> (string \<times> string) list \<Rightarrow> bool"

section \<open>External bindings\<close>

definition port_of :: "ExternalInstance \<Rightarrow> nat" where
  "port_of b = (if ei_Port b = 0 then 5432 else ei_Port b)"

definition bad_host :: "string \<Rightarrow> bool" where
  "bad_host h \<longleftrightarrow>
     h \<noteq> TrimSpace h \<or> ContainsAny h [CHR '' '', CHR 0x09, CR, LF, CHR ''/'', CHR ''?'', CHR ''#''] \<or> sublist ''://'' h \<or>
     (CHR '':'' \<in> set h \<and> \<not> ParseIP h)"

definition externalInstance :: "platform \<Rightarrow> Settings \<Rightarrow> string \<Rightarrow> (deploy_error, ExternalInstance option) result" where
  "externalInstance P s environment =
     (if ExternalInstances s = [] then Inr None
      else if blank environment then Inl NamedEnvironmentRequired
      else case map_of (ExternalInstances s) environment of
        None \<Rightarrow> Inl (NoBindingFor environment)
      | Some binding \<Rightarrow>
          if ei_Host binding = [] then Inl HostRequired
          else if bad_host (ei_Host binding) then Inl (BadHost (ei_Host binding))
          else if ei_DatabaseName binding \<noteq> DatabaseName s then Inl (DatabaseNameMismatch (ei_DatabaseName binding) (DatabaseName s))
          else (case runtimeRoleNames P (DatabaseName s) of (ro, rw) \<Rightarrow>
            case normalizedRuntimeReadWriteRoles (RuntimeReadWriteRoles s) [ro, rw] of
              Inl e \<Rightarrow> Inl (AccessRefused e)
            | Inr declared \<Rightarrow>
                (case normalizedRuntimeReadWriteRoles (ei_RuntimeReadWriteRoles binding) [ro, rw] of
                   Inl e \<Rightarrow> Inl (BoundRoles e)
                 | Inr bound \<Rightarrow> if bound \<noteq> declared then Inl (RolesMismatch bound declared) else Inr (Some binding))))"

text \<open>\<open>Sync\<close> looks at every configured environment, in the order of the map.\<close>

definition Sync :: "platform \<Rightarrow> Settings \<Rightarrow> deploy_error option" where
  "Sync P s = first_error (\<lambda>(environment, _). case externalInstance P s environment of Inl e \<Rightarrow> Some e | Inr _ \<Rightarrow> None) (ExternalInstances s)"

definition binding_identity :: "string \<Rightarrow> ExternalInstance \<Rightarrow> string" where
  "binding_identity environment b =
     Join [environment, ei_Host b, Itoa (port_of b), ei_DatabaseName b, Join (ei_RuntimeReadWriteRoles b) [NUL]] [NUL]"

definition externalBindingID :: "platform \<Rightarrow> string \<Rightarrow> ExternalInstance \<Rightarrow> string" where
  "externalBindingID P environment b = EncodeToString (sha256 P (binding_identity environment b))"

definition deploymentWithSSL :: "Settings \<Rightarrow> ExternalInstance option \<Rightarrow> bool" where
  "deploymentWithSSL s binding = (case binding of None \<Rightarrow> False | Some _ \<Rightarrow> \<not> WithoutSSL s)"

definition deploymentNetworkInstance :: "platform \<Rightarrow> Settings \<Rightarrow> deployment_request
    \<Rightarrow> (deploy_error, NetworkInstance \<times> ExternalInstance option) result" where
  "deploymentNetworkInstance P s req =
     (case externalInstance P s (environment_name req) of
        Inl e \<Rightarrow> Inl e
      | Inr None \<Rightarrow> (case mapped_instance req of None \<Rightarrow> Inl NoNetworkInstance | Some i \<Rightarrow> Inr (i, None))
      | Inr (Some b) \<Rightarrow>
          (let address = JoinHostPort (ei_Host b) (Itoa (port_of b)) in
           Inr (\<lparr>ni_Hostname = ei_Host b, ni_Host = address, ni_Port = port_of b, ni_Address = address\<rparr>, Some b)))"

section \<open>Secret references\<close>

text \<open>The check every required reference passes; the Secret's name is that of the first one.\<close>

definition usable :: "SecretKeyReference option \<Rightarrow> bool" where
  "usable r \<longleftrightarrow> (case r of None \<Rightarrow> False | Some r \<Rightarrow> ref_Name r \<noteq> [] \<and> ref_Key r \<noteq> [])"

definition secret_key :: "deploy_env \<Rightarrow> string \<Rightarrow> string" where
  "secret_key E key = ServiceSecretConfigurationKeyFromUnique E (dep_Unique E) ''postgres'' key"

fun select_required :: "deploy_env \<Rightarrow> (string \<Rightarrow> SecretKeyReference option) \<Rightarrow> string \<Rightarrow> (string \<times> string) list \<Rightarrow> secret_references
    \<Rightarrow> (deploy_error, string \<times> secret_references) result" where
  "select_required E configured secretName [] selected = Inr (secretName, selected)"
| "select_required E configured secretName ((variable, key) # items) selected =
     (let configurationKey = secret_key E key; reference = configured configurationKey in
      if \<not> usable reference then Inl (ReferenceRequired configurationKey)
      else if ref_Optional (the reference) then Inl (ReferenceOptional configurationKey)
      else if secretName \<noteq> [] \<and> secretName \<noteq> ref_Name (the reference) then Inl SeveralSecrets
      else select_required E configured (ref_Name (the reference)) items (selected(variable \<mapsto> the reference)))"

definition loginPasswordSecretReference :: "deploy_env \<Rightarrow> (string \<Rightarrow> SecretKeyReference option) \<Rightarrow> string \<Rightarrow> runtimeLogin
    \<Rightarrow> (deploy_error, SecretKeyReference) result" where
  "loginPasswordSecretReference E configured secretName login =
     (let configurationKey = secret_key E (login_passwordKey login); reference = configured configurationKey in
      if \<not> usable reference then Inr \<lparr>ref_Name = secretName, ref_Key = configurationKey, ref_Optional = False\<rparr>
      else if ref_Optional (the reference) then Inl (ReferenceOptional configurationKey)
      else if ref_Name (the reference) \<noteq> secretName then Inl SeveralSecrets
      else Inr (the reference))"

fun select_logins :: "deploy_env \<Rightarrow> (string \<Rightarrow> SecretKeyReference option) \<Rightarrow> string \<Rightarrow> runtimeLogin list \<Rightarrow> secret_references
    \<Rightarrow> (deploy_error, secret_references) result" where
  "select_logins E configured secretName [] selected = Inr selected"
| "select_logins E configured secretName (login # logins) selected =
     (case loginPasswordSecretReference E configured secretName login of
        Inl e \<Rightarrow> Inl e
      | Inr reference \<Rightarrow> select_logins E configured secretName logins (selected(login_passwordKey login \<mapsto> reference)))"

definition selectForWorkload :: "secret_references \<Rightarrow> string list \<Rightarrow> secret_references" where
  "selectForWorkload selected variables = (\<lambda>v. if v \<in> set variables then selected v else None)"

definition primitives :: "string list" where
  "primitives = [''POSTGRES_USER'', ''POSTGRES_PASSWORD'', ''POSTGRES_READ_ONLY_PASSWORD'', ''POSTGRES_READ_WRITE_PASSWORD'']"

definition external_required :: "(string \<times> string) list" where
  "external_required =
     [(''POSTGRES_USER'', ''POSTGRES_USER''), (''PGUSER'', ''POSTGRES_USER''), (''PGPASSWORD'', ''POSTGRES_PASSWORD''),
      (''POSTGRES_READ_ONLY_PASSWORD'', ''POSTGRES_READ_ONLY_PASSWORD''), (''POSTGRES_READ_WRITE_PASSWORD'', ''POSTGRES_READ_WRITE_PASSWORD''),
      (externalReadOnlyConnectionKey, readOnlyConnectionKey), (externalReadWriteConnectionKey, readWriteConnectionKey)]"

definition selectExternalSecretReferences :: "deploy_env \<Rightarrow> (string \<Rightarrow> SecretKeyReference option)
    \<Rightarrow> (deploy_error, promotableWorkloadSecretReferences) result" where
  "selectExternalSecretReferences E configured =
     (case select_required E configured [] external_required Map.empty of
        Inl e \<Rightarrow> Inl e
      | Inr (_, selected) \<Rightarrow> Inr \<lparr>workload_StatefulSet = Map.empty, workload_BootstrapJob = selected\<rparr>)"

definition selectPromotableSecretReferences :: "deploy_env \<Rightarrow> Settings \<Rightarrow> (string \<Rightarrow> SecretKeyReference option) \<Rightarrow> bool \<Rightarrow> runtimeLogin list
    \<Rightarrow> (deploy_error, promotableWorkloadSecretReferences) result" where
  "selectPromotableSecretReferences E s configured external logins =
     (case validateAuthMode s of
        Some e \<Rightarrow> Inl (AccessRefused e)
      | None \<Rightarrow>
          if externalIdentity s then Inr \<lparr>workload_StatefulSet = Map.empty, workload_BootstrapJob = Map.empty\<rparr>
          else if external then selectExternalSecretReferences E configured
          else case select_required E configured [] (map (\<lambda>v. (v, v)) primitives) Map.empty of
            Inl e \<Rightarrow> Inl e
          | Inr (secretName, selected0) \<Rightarrow>
              (case select_logins E configured secretName logins selected0 of
                 Inl e \<Rightarrow> Inl e
               | Inr selected1 \<Rightarrow>
                   (let selected = (selected1(''PGUSER'' := selected1 ''POSTGRES_USER''))(''PGPASSWORD'' := selected1 ''POSTGRES_PASSWORD'') in
                    Inr \<lparr>workload_StatefulSet = selectForWorkload selected [''POSTGRES_USER'', ''POSTGRES_PASSWORD''],
                      workload_BootstrapJob = selectForWorkload selected
                        ([''POSTGRES_USER'', ''POSTGRES_READ_ONLY_PASSWORD'', ''POSTGRES_READ_WRITE_PASSWORD''] @ map login_passwordKey logins
                          @ [''PGUSER'', ''PGPASSWORD''])\<rparr>)))"

section \<open>The deployment\<close>

record deployment =
  parameters :: DeploymentTemplateParameters
  added_secrets :: "(string \<times> string) list"
  exported :: "Configuration option"
  dep_service :: Service

definition restrictedOutput :: "deploy_env \<Rightarrow> int \<Rightarrow> bool" where
  "restrictedOutput E profile = (case parsed_profile E profile of None \<Rightarrow> True | Some restricted \<Rightarrow> restricted)"

definition configurationValueByKey :: "Configuration \<Rightarrow> string \<Rightarrow> string" where
  "configurationValueByKey c key = (case find (\<lambda>v. cv_Key v = key) (conf_Values c) of Some v \<Rightarrow> cv_Value v | None \<Rightarrow> [])"

definition external_parameters :: "platform \<Rightarrow> Settings \<Rightarrow> string \<Rightarrow> ExternalInstance \<Rightarrow> DeploymentTemplateParameters
    \<Rightarrow> DeploymentTemplateParameters" where
  "external_parameters P s environment b p =
     (case runtimeRoleNames P (DatabaseName s) of (ro, rw) \<Rightarrow>
        p\<lparr>dep_ExternalInstance := True, ExternalHost := ei_Host b, ExternalPort := port_of b,
          ExternalSSLMode := (if WithoutSSL s then ''disable'' else ''prefer''), dep_ReadOnlyRole := ro, dep_ReadWriteRole := rw,
          ExternalBindingID := externalBindingID P environment b\<rparr>)"

definition set_parameters :: "(DeploymentTemplateParameters \<Rightarrow> DeploymentTemplateParameters) \<Rightarrow> deployment \<Rightarrow> deployment" where
  "set_parameters f d = d\<lparr>parameters := f (parameters d)\<rparr>"

text \<open>The restricted branch: references only, and the owner reached through libpq's environment.\<close>

definition prepare_restricted :: "platform \<Rightarrow> deploy_env \<Rightarrow> deployment_request \<Rightarrow> runtimeLogin list \<Rightarrow> NetworkInstance \<Rightarrow> ExternalInstance option
    \<Rightarrow> deployment \<Rightarrow> (deploy_error, Configuration) result \<times> deployment" where
  "prepare_restricted P E req logins instance binding d =
     (let s = settings (dep_service d); withSSL = deploymentWithSSL s binding;
          conf = promotableConnectionConfiguration P (dep_Unique E) (ni_Address instance) withSSL (dep_service d) in
      case selectPromotableSecretReferences E s (configured_references req) (binding \<noteq> None) logins of
        Inl e \<Rightarrow> (Inl e, d)
      | Inr refs \<Rightarrow>
          (let d1 = set_parameters (\<lambda>p. p\<lparr>StatefulSetSecretReferences := workload_StatefulSet refs, BootstrapJobSecretReferences := workload_BootstrapJob refs\<rparr>) d in
           if binding = None \<and> \<not> externalIdentity s then
             (case SplitHostPort (ni_Address instance) of
                None \<Rightarrow> (Inl (BadAddress (ni_Address instance)), d1)
              | Some (host, port) \<Rightarrow>
                  (Inr conf, set_parameters (\<lambda>p. p\<lparr>OwnerFromLibpqEnvironment := True, OwnerHost := host, OwnerPort := port,
                     OwnerSSLMode := postgresSSLMode (ni_Address instance) withSSL\<rparr>) d1))
           else (Inr conf, d1)))"

text \<open>The other branch: raw values in the generated Secret of an ephemeral profile.\<close>

definition workload_secrets :: "Service \<Rightarrow> string \<Rightarrow> runtimeLogin list \<Rightarrow> (string \<times> string) list" where
  "workload_secrets s ownerConnection logins =
     [(''POSTGRES_USER'', postgresUser s), (''POSTGRES_PASSWORD'', postgresPassword s), (''POSTGRES_DB'', DatabaseName (settings s)),
      (''POSTGRES_READ_ONLY_PASSWORD'', readOnlyPassword s), (''POSTGRES_READ_WRITE_PASSWORD'', readWritePassword s),
      (migrationConnectionEnvironmentKey, ownerConnection)] @ map (\<lambda>l. (login_passwordKey l, login_password s (login_name l))) logins"

definition external_secrets :: "Service \<Rightarrow> Configuration \<Rightarrow> (string \<times> string) list" where
  "external_secrets s conf =
     [(''PGUSER'', postgresUser s), (''PGPASSWORD'', postgresPassword s),
      (externalReadOnlyConnectionKey, configurationValueByKey conf readOnlyConnectionKey),
      (externalReadWriteConnectionKey, configurationValueByKey conf readWriteConnectionKey)]"

definition prepare_ephemeral :: "platform \<Rightarrow> deploy_env \<Rightarrow> deployment_request \<Rightarrow> runtimeLogin list \<Rightarrow> NetworkInstance \<Rightarrow> ExternalInstance option
    \<Rightarrow> deployment \<Rightarrow> (deploy_error, Configuration) result \<times> deployment" where
  "prepare_ephemeral P E req logins instance binding d =
     (let withSSL = deploymentWithSSL (settings (dep_service d)) binding in
      case CreateConnectionConfiguration P (dep_Unique E) (configuration_values req) (ni_Address instance) withSSL (dep_service d) of
        (Inl e, s) \<Rightarrow> (Inl (AccessRefused e), d\<lparr>dep_service := s\<rparr>)
      | (Inr conf, s) \<Rightarrow>
          (case createOwnerConnectionString P (configuration_values req) (ni_Address instance) withSSL s of
             (Inl e, s) \<Rightarrow> (Inl (AccessRefused e), d\<lparr>dep_service := s\<rparr>)
           | (Inr owner, s) \<Rightarrow>
               (Inr conf, d\<lparr>dep_service := s,
                  added_secrets := added_secrets d @ workload_secrets s owner logins @ (if binding = None then [] else external_secrets s conf)\<rparr>)))"

definition prepareDeployment :: "platform \<Rightarrow> deploy_env \<Rightarrow> deployment_request \<Rightarrow> deployment
    \<Rightarrow> (deploy_error, Configuration) result \<times> deployment" where
  "prepareDeployment P E req d =
     (let s = settings (dep_service d) in
      case resolveRuntimeLogins P s of
        Inl e \<Rightarrow> (Inl (AccessRefused e), d)
      | Inr logins \<Rightarrow>
          (case deploymentNetworkInstance P s req of
             Inl e \<Rightarrow> (Inl e, d)
           | Inr (instance, binding) \<Rightarrow>
               if binding \<noteq> None \<and> externalIdentity s then (Inl ExternalIdentityUnsupported, d)
               else (let d1 = set_parameters (\<lambda>p. case binding of None \<Rightarrow> p\<lparr>ServicePort := ni_Port instance\<rparr>
                                | Some b \<Rightarrow> external_parameters P s (environment_name req) b p) d in
                     if restrictedOutput E (output_profile req) then prepare_restricted P E req logins instance binding d1
                     else prepare_ephemeral P E req logins instance binding d1)))"

section \<open>The bootstrap Job\<close>

definition suffixLength :: nat where "suffixLength = 12"
definition maxServiceLength :: nat where "maxServiceLength = 63 - 1 - suffixLength"

definition trim_dashes :: "string \<Rightarrow> string" where
  "trim_dashes s = rev (dropWhile (\<lambda>c. c = CHR ''-'') (rev s))"

definition immutableBootstrapJobName :: "platform \<Rightarrow> deploy_env \<Rightarrow> deployment_request \<Rightarrow> DeploymentTemplateParameters
    \<Rightarrow> (deploy_error, string) result" where
  "immutableBootstrapJobName P E req p =
     (if dns_name E = [] then Inl ServiceNameRequired
      else case pod_template E req p of
        None \<Rightarrow> Inl JobTemplateFailed
      | Some podTemplate \<Rightarrow>
          (let service = (if length (dns_name E) > maxServiceLength then trim_dashes (take maxServiceLength (dns_name E)) else dns_name E) in
           Inr (service @ ''-'' @ take suffixLength (EncodeToString (sha256 P podTemplate)))))"

text \<open>
  The \<open>Prepare\<close> callback, and \<open>Deploy\<close> around it: core runs the callback, then renders the tree from the
  parameters and the added secrets.
\<close>

definition Prepare :: "platform \<Rightarrow> deploy_env \<Rightarrow> deployment_request \<Rightarrow> deployment \<Rightarrow> (deploy_error, Configuration option) result \<times> deployment" where
  "Prepare P E req d =
     (case prepareDeployment P E req d of
        (Inl e, d) \<Rightarrow> (Inl e, d)
      | (Inr conf, d) \<Rightarrow>
          (case immutableBootstrapJobName P E req (parameters d) of
             Inl e \<Rightarrow> (Inl e, d)
           | Inr name \<Rightarrow>
               (let d1 = set_parameters (\<lambda>p. p\<lparr>BootstrapJobName := name\<rparr>) d in
                if restrictedOutput E (output_profile req) then (Inr (Some conf), d1)
                else if export_ok E conf then (Inr None, d1\<lparr>exported := Some conf\<rparr>)
                else (Inl ExportFailed, d1))))"

definition new_parameters :: "deploy_env \<Rightarrow> Settings \<Rightarrow> DeploymentTemplateParameters" where
  "new_parameters E s =
     \<lparr>WithBootstrap = True, dep_ExternalInstance = False, ExternalBindingID = [], ExternalHost = [], ExternalPort = 0, ExternalSSLMode = [],
      dep_ReadOnlyRole = [], dep_ReadWriteRole = [], ManagedImage = managed_image E, BootstrapJobName = [], dep_DatabaseName = DatabaseName s,
      BootstrapJobDeadlineSeconds = BootstrapJobSeconds (settings_Timeouts s), StatefulSetSecretReferences = Map.empty,
      BootstrapJobSecretReferences = Map.empty, ServicePort = 0, OwnerFromLibpqEnvironment = False, OwnerHost = [], OwnerPort = [],
      OwnerSSLMode = []\<rparr>"

text \<open>The response: the configuration it carries, that of the export or the promotable one.\<close>

definition Deploy :: "platform \<Rightarrow> deploy_env \<Rightarrow> deployment_request \<Rightarrow> Service \<Rightarrow> (deploy_error, Configuration option) result \<times> deployment" where
  "Deploy P E req s =
     (let d = \<lparr>parameters = new_parameters E (settings s), added_secrets = [], exported = None, dep_service = s\<rparr> in
      case validate_timeouts (settings_Timeouts (settings s)) of
        Some e \<Rightarrow> (Inl (BudgetRefused e), d)
      | None \<Rightarrow>
          (case Prepare P E req d of
             (Inl e, d1) \<Rightarrow> (Inl e, d1)
           | (Inr restrictedConfiguration, d1) \<Rightarrow>
               if \<not> tree_rendered E (parameters d1) (added_secrets d1) then (Inl RenderFailed, d1)
               else (case restrictedConfiguration of None \<Rightarrow> (Inr (exported d1), d1) | Some c \<Rightarrow> (Inr (Some c), d1))))"

section \<open>References\<close>

text \<open>A reference a workload may mount: named, not optional, and of the one Secret.\<close>

definition mountable :: "string \<Rightarrow> SecretKeyReference \<Rightarrow> bool" where
  "mountable secretName r \<longleftrightarrow> ref_Name r = secretName \<and> ref_Name r \<noteq> [] \<and> ref_Key r \<noteq> [] \<and> \<not> ref_Optional r"

lemma usable_iff: "usable r \<longleftrightarrow> (\<exists>x. r = Some x \<and> ref_Name x \<noteq> [] \<and> ref_Key x \<noteq> [])"
  by (auto simp: usable_def split: option.splits)

lemma select_required_Inr:
  assumes "select_required E configured secretName items selected = Inr (name, result)"
    and "\<And>v r. selected v = Some r \<Longrightarrow> mountable secretName r" and "secretName = [] \<Longrightarrow> selected = Map.empty"
  shows "(items \<noteq> [] \<longrightarrow> name \<noteq> []) \<and> (secretName \<noteq> [] \<longrightarrow> name = secretName) \<and> (\<forall>v r. result v = Some r \<longrightarrow> mountable name r) \<and>
    dom result = dom selected \<union> fst ` set items \<and>
    (distinct (map fst items) \<longrightarrow> (\<forall>(v, k) \<in> set items. result v = configured (secret_key E k))) \<and>
    (\<forall>v. v \<notin> fst ` set items \<longrightarrow> result v = selected v)"
  using assms
proof (induction items arbitrary: secretName selected)
  case Nil
  then show ?case by auto
next
  case (Cons item items)
  obtain variable key where item: "item = (variable, key)" by (cases item)
  obtain r where r: "configured (secret_key E key) = Some r" "ref_Name r \<noteq> []" "ref_Key r \<noteq> []" "\<not> ref_Optional r"
      "secretName = [] \<or> secretName = ref_Name r"
    and rest: "select_required E configured (ref_Name r) items (selected(variable \<mapsto> r)) = Inr (name, result)"
    using Cons.prems(1) item by (auto simp: Let_def usable_iff split: if_splits)
  have mount: "mountable (ref_Name r) q" if "(selected(variable \<mapsto> r)) v = Some q" for v q
    using that Cons.prems(2) [of v q] Cons.prems(3) r by (auto simp: mountable_def split: if_splits)
  have "(items \<noteq> [] \<longrightarrow> name \<noteq> []) \<and> (ref_Name r \<noteq> [] \<longrightarrow> name = ref_Name r) \<and> (\<forall>v q. result v = Some q \<longrightarrow> mountable name q) \<and>
    dom result = dom (selected(variable \<mapsto> r)) \<union> fst ` set items \<and>
    (distinct (map fst items) \<longrightarrow> (\<forall>(v, k) \<in> set items. result v = configured (secret_key E k))) \<and>
    (\<forall>v. v \<notin> fst ` set items \<longrightarrow> result v = (selected(variable \<mapsto> r)) v)"
    by (rule Cons.IH [OF rest]) (use mount r(2) in auto)
  then show ?case using r item by (auto simp: split_beta)
qed

lemma loginPassword_mountable:
  assumes "loginPasswordSecretReference E configured secretName login = Inr r" and "secretName \<noteq> []" and "secret_key E (login_passwordKey login) \<noteq> []"
  shows "mountable secretName r"
    and "r = (case configured (secret_key E (login_passwordKey login)) of
       Some c \<Rightarrow> if usable (Some c) then c else \<lparr>ref_Name = secretName, ref_Key = secret_key E (login_passwordKey login), ref_Optional = False\<rparr>
     | None \<Rightarrow> \<lparr>ref_Name = secretName, ref_Key = secret_key E (login_passwordKey login), ref_Optional = False\<rparr>)"
  using assms by (auto simp: loginPasswordSecretReference_def Let_def usable_iff mountable_def split: if_splits option.splits)

lemma select_logins_Inr:
  assumes "select_logins E configured secretName logins selected = Inr result" and "secretName \<noteq> []" and "\<And>k. secret_key E k \<noteq> []"
    and "\<And>v r. selected v = Some r \<Longrightarrow> mountable secretName r"
  shows "(\<forall>v r. result v = Some r \<longrightarrow> mountable secretName r) \<and> dom result = dom selected \<union> login_passwordKey ` set logins \<and>
    (\<forall>v. v \<notin> login_passwordKey ` set logins \<longrightarrow> result v = selected v)"
  using assms(1,4)
proof (induction logins arbitrary: selected)
  case Nil
  then show ?case by simp
next
  case (Cons login logins)
  obtain r where r: "loginPasswordSecretReference E configured secretName login = Inr r"
    and rest: "select_logins E configured secretName logins (selected(login_passwordKey login \<mapsto> r)) = Inr result"
    using Cons.prems(1) by (auto split: sum.splits)
  have "mountable secretName r" using loginPassword_mountable(1) [OF r assms(2,3)] .
  then have mount: "mountable secretName q" if "(selected(login_passwordKey login \<mapsto> r)) v = Some q" for v q
    using that Cons.prems(2) by (auto split: if_splits)
  have "(\<forall>v r. result v = Some r \<longrightarrow> mountable secretName r) \<and>
    dom result = dom (selected(login_passwordKey login \<mapsto> r)) \<union> login_passwordKey ` set logins \<and>
    (\<forall>v. v \<notin> login_passwordKey ` set logins \<longrightarrow> result v = (selected(login_passwordKey login \<mapsto> r)) v)"
    by (rule Cons.IH [OF rest]) (use mount in auto)
  then show ?case by auto
qed

section \<open>A restricted render holds no credential\<close>

lemma promotable_values: "v \<in> set (conf_Values (promotableConnectionConfiguration P u address withSSL s)) \<Longrightarrow> cv_Value v = [] \<and> cv_Secret v"
  by (auto simp: promotableConnectionConfiguration_def promised_def Let_def split: prod.splits)

lemma promotable_settings:
  "settings s = settings s' \<Longrightarrow>
   promotableConnectionConfiguration P u address withSSL s = promotableConnectionConfiguration P u address withSSL s'"
  by (simp add: promotableConnectionConfiguration_def)

lemma set_parameters_frame [simp]:
  "added_secrets (set_parameters f d) = added_secrets d" "exported (set_parameters f d) = exported d"
  "dep_service (set_parameters f d) = dep_service d" "parameters (set_parameters f d) = f (parameters d)"
  by (simp_all add: set_parameters_def)

text \<open>Two deployments that differ in the credentials of the service only.\<close>

definition same_settings :: "deployment \<Rightarrow> deployment \<Rightarrow> bool" where
  "same_settings d e \<longleftrightarrow> parameters d = parameters e \<and> settings (dep_service d) = settings (dep_service e)"

definition untouched :: "deployment \<Rightarrow> deployment \<Rightarrow> bool" where
  "untouched d d' \<longleftrightarrow> added_secrets d' = added_secrets d \<and> exported d' = exported d \<and> dep_service d' = dep_service d"

lemma prepare_restricted_blind:
  assumes "same_settings d e"
  shows "fst (prepare_restricted P E req logins i b d) = fst (prepare_restricted P E req logins i b e)"
    and "same_settings (snd (prepare_restricted P E req logins i b d)) (snd (prepare_restricted P E req logins i b e))"
    and "untouched d (snd (prepare_restricted P E req logins i b d))"
  using assms promotable_settings [of "dep_service d" "dep_service e"]
  by (auto simp: prepare_restricted_def same_settings_def untouched_def Let_def split: sum.splits option.splits)

lemma prepare_restricted_values:
  assumes "prepare_restricted P E req logins i b d = (Inr c, d')" and "v \<in> set (conf_Values c)"
  shows "cv_Value v = [] \<and> cv_Secret v"
  using assms promotable_values by (auto simp: prepare_restricted_def Let_def split: sum.splits option.splits if_splits)

lemma prepareDeployment_restricted:
  assumes "restrictedOutput E (output_profile req)"
  obtains (failed) e where "\<And>d. settings (dep_service d) = s \<Longrightarrow> prepareDeployment P E req d = (Inl e, d)"
  | (prepared) logins i b f where "\<And>d. settings (dep_service d) = s \<Longrightarrow>
      prepareDeployment P E req d = prepare_restricted P E req logins i b (set_parameters f d)"
    "resolveRuntimeLogins P s = Inr logins" "deploymentNetworkInstance P s req = Inr (i, b)"
  using assms
  by (cases "resolveRuntimeLogins P s"; cases "deploymentNetworkInstance P s req")
    (fastforce simp: prepareDeployment_def Let_def split: sum.splits prod.splits)+

lemma prepareDeployment_blind:
  assumes restricted: "restrictedOutput E (output_profile req)" and "same_settings d e"
  shows "fst (prepareDeployment P E req d) = fst (prepareDeployment P E req e)"
    and "same_settings (snd (prepareDeployment P E req d)) (snd (prepareDeployment P E req e))"
    and "untouched d (snd (prepareDeployment P E req d))"
    and "fst (prepareDeployment P E req d) = Inr c \<Longrightarrow> v \<in> set (conf_Values c) \<Longrightarrow> cv_Value v = [] \<and> cv_Secret v"
proof -
  have e: "settings (dep_service e) = settings (dep_service d)" using assms(2) by (simp add: same_settings_def)
  have "fst (prepareDeployment P E req d) = fst (prepareDeployment P E req e) \<and>
      same_settings (snd (prepareDeployment P E req d)) (snd (prepareDeployment P E req e)) \<and>
      untouched d (snd (prepareDeployment P E req d)) \<and>
      (fst (prepareDeployment P E req d) = Inr c \<longrightarrow> v \<in> set (conf_Values c) \<longrightarrow> cv_Value v = [] \<and> cv_Secret v)"
  proof (rule prepareDeployment_restricted [OF restricted, of "settings (dep_service d)" P])
    fix x assume "\<And>d'. settings (dep_service d') = settings (dep_service d) \<Longrightarrow> prepareDeployment P E req d' = (Inl x, d')"
    then show ?thesis using assms(2) e by (simp add: untouched_def)
  next
    fix logins i b f
    assume run: "\<And>d'. settings (dep_service d') = settings (dep_service d) \<Longrightarrow>
      prepareDeployment P E req d' = prepare_restricted P E req logins i b (set_parameters f d')"
    have same: "same_settings (set_parameters f d) (set_parameters f e)" using assms(2) by (simp add: same_settings_def)
    have "untouched d d'" if "untouched (set_parameters f d) d'" for d' using that by (simp add: untouched_def)
    then show ?thesis
      using run [of d] run [of e] e prepare_restricted_blind [OF same, of P E req logins i b]
        prepare_restricted_values [of P E req logins i b "set_parameters f d" c _ v] by (metis prod.collapse)
  qed
  then show "fst (prepareDeployment P E req d) = fst (prepareDeployment P E req e)"
    and "same_settings (snd (prepareDeployment P E req d)) (snd (prepareDeployment P E req e))"
    and "untouched d (snd (prepareDeployment P E req d))"
    and "fst (prepareDeployment P E req d) = Inr c \<Longrightarrow> v \<in> set (conf_Values c) \<Longrightarrow> cv_Value v = [] \<and> cv_Secret v"
    by blast+
qed

lemma Prepare_blind:
  assumes restricted: "restrictedOutput E (output_profile req)" and same: "same_settings d e"
  shows "fst (Prepare P E req d) = fst (Prepare P E req e)"
    and "same_settings (snd (Prepare P E req d)) (snd (Prepare P E req e))"
    and "untouched d (snd (Prepare P E req d))"
    and "fst (Prepare P E req d) \<noteq> Inr None"
    and "fst (Prepare P E req d) = Inr (Some c) \<Longrightarrow> v \<in> set (conf_Values c) \<Longrightarrow> cv_Value v = [] \<and> cv_Secret v"
proof -
  obtain r d1 e1 where d1: "prepareDeployment P E req d = (r, d1)" and e1: "prepareDeployment P E req e = (r, e1)"
    and eq: "same_settings d1 e1" "untouched d d1"
    using prepareDeployment_blind [OF restricted same, of P] by (metis prod.collapse)
  have eq': "parameters d1 = parameters e1" using eq(1) by (simp add: same_settings_def)
  show "fst (Prepare P E req d) = fst (Prepare P E req e)" "same_settings (snd (Prepare P E req d)) (snd (Prepare P E req e))"
    using restricted d1 e1 eq(1) eq' by (auto simp: Prepare_def same_settings_def Let_def split: sum.splits)
  show "untouched d (snd (Prepare P E req d))" "fst (Prepare P E req d) \<noteq> Inr None"
    using restricted d1 eq(2) by (auto simp: Prepare_def untouched_def Let_def split: sum.splits)
  show "cv_Value v = [] \<and> cv_Secret v" if "fst (Prepare P E req d) = Inr (Some c)" "v \<in> set (conf_Values c)"
    using that restricted d1 prepareDeployment_blind(4) [OF restricted same, of P c v]
    by (auto simp: Prepare_def Let_def split: sum.splits)
qed

text \<open>
  C35: a restricted deployment cannot leak a credential, because it cannot see one. For an output
  profile that is restricted, and for one core does not know, the outcome and the template parameters are the
  same for any two services that differ in their credentials only; no secret is added to the rendered tree,
  no configuration is exported, no credential is loaded into the service, and every value of the returned
  configuration is empty: a template over references, or nothing.
\<close>

theorem restricted_deploy_secretless:
  assumes profile: "parsed_profile E (output_profile req) \<noteq> Some False" and settings: "settings s = settings s'"
  shows "fst (Deploy P E req s) = fst (Deploy P E req s') \<and>
    parameters (snd (Deploy P E req s)) = parameters (snd (Deploy P E req s')) \<and>
    added_secrets (snd (Deploy P E req s)) = [] \<and> exported (snd (Deploy P E req s)) = None \<and> dep_service (snd (Deploy P E req s)) = s \<and>
    fst (Deploy P E req s) \<noteq> Inr None \<and>
    (\<forall>c. fst (Deploy P E req s) = Inr (Some c) \<longrightarrow> (\<forall>v \<in> set (conf_Values c). cv_Value v = [] \<and> cv_Secret v))"
proof -
  have restricted: "restrictedOutput E (output_profile req)" using profile by (auto simp: restrictedOutput_def split: option.splits)
  let ?d = "\<lambda>s. \<lparr>parameters = new_parameters E (settings s), added_secrets = [], exported = None, dep_service = s\<rparr>"
  have same: "same_settings (?d s) (?d s')" using settings by (simp add: same_settings_def)
  note blind = Prepare_blind [OF restricted same, of P]
  obtain r d1 e1 where d1: "Prepare P E req (?d s) = (r, d1)" and e1: "Prepare P E req (?d s') = (r, e1)"
    using blind(1) by (metis prod.collapse)
  have eq: "same_settings d1 e1" "untouched (?d s) d1" and "r \<noteq> Inr None" using blind(2-4) d1 e1 by simp_all
  have "untouched (?d s') e1" using Prepare_blind(3) [OF restricted, of "?d s'" "?d s'" P] e1 by (simp add: same_settings_def)
  with eq have frame: "added_secrets d1 = []" "added_secrets e1 = []" "exported d1 = None" "dep_service d1 = s" "parameters d1 = parameters e1"
    by (simp_all add: untouched_def same_settings_def)
  have "\<forall>c. r = Inr (Some c) \<longrightarrow> (\<forall>v \<in> set (conf_Values c). cv_Value v = [] \<and> cv_Secret v)" using blind(5) d1 by simp
  then show ?thesis
    using d1 e1 frame \<open>r \<noteq> Inr None\<close> settings unfolding Deploy_def Let_def
    by (auto split: option.splits sum.splits)
qed

section \<open>What the workloads mount\<close>

text \<open>The variables \<open>runtime-access.sql\<close> reads: \<open>\getenv\<close> of the owner, the two passwords and each login's.\<close>

definition sql_variables :: "runtimeLogin list \<Rightarrow> string set" where
  "sql_variables logins =
     {''POSTGRES_USER'', ''POSTGRES_READ_ONLY_PASSWORD'', ''POSTGRES_READ_WRITE_PASSWORD''} \<union> login_passwordKey ` set logins"

definition one_secret :: "promotableWorkloadSecretReferences \<Rightarrow> bool" where
  "one_secret refs \<longleftrightarrow> (\<exists>secretName. \<forall>v r. workload_StatefulSet refs v = Some r \<or> workload_BootstrapJob refs v = Some r \<longrightarrow> mountable secretName r)"

lemma login_key_fresh:
  assumes "resolveRuntimeLogins P s = Inr logins" and "l \<in> set logins"
  shows "login_passwordKey l \<notin> set primitives \<union> {''PGUSER'', ''PGPASSWORD''}"
proof -
  have of: "login_of P (DatabaseName s) (login_name l) l" using resolveRuntimeLogins_Inr [OF assms(1)] assms(2) login_of_set by blast
  then have "hd (login_passwordKey l) = CHR ''P'' \<and> login_passwordKey l ! 1 = CHR ''O''" by (auto simp: login_of_def)
  then have "login_passwordKey l \<noteq> ''PGUSER''" "login_passwordKey l \<noteq> ''PGPASSWORD''" by auto
  then show ?thesis using login_of_passwordKey [OF of] by (auto simp: primitives_def)
qed

lemma dom_selectForWorkload: "dom (selectForWorkload m vs) = dom m \<inter> set vs"
  by (auto simp: selectForWorkload_def split: if_splits)

lemma external_references:
  assumes "selectExternalSecretReferences E configured = Inr refs"
  shows "one_secret refs" and "workload_StatefulSet refs = Map.empty" and "dom (workload_BootstrapJob refs) = fst ` set external_required"
    and "\<forall>(v, k) \<in> set external_required. workload_BootstrapJob refs v = configured (secret_key E k)"
proof -
  obtain name selected where sel: "select_required E configured [] external_required Map.empty = Inr (name, selected)"
    and refs: "refs = \<lparr>workload_StatefulSet = Map.empty, workload_BootstrapJob = selected\<rparr>"
    using assms by (auto simp: selectExternalSecretReferences_def split: sum.splits)
  have d: "distinct (map fst external_required)"
    by (simp add: external_required_def externalReadOnlyConnectionKey_def externalReadWriteConnectionKey_def)
  have facts: "(\<forall>v r. selected v = Some r \<longrightarrow> mountable name r) \<and> dom selected = fst ` set external_required \<and>
      (\<forall>(v, k) \<in> set external_required. selected v = configured (secret_key E k))"
    using select_required_Inr [OF sel] d by auto
  show "one_secret refs" using facts refs by (auto simp: one_secret_def)
  show "workload_StatefulSet refs = Map.empty" "dom (workload_BootstrapJob refs) = fst ` set external_required"
    "\<forall>(v, k) \<in> set external_required. workload_BootstrapJob refs v = configured (secret_key E k)" using facts refs by simp_all
qed

lemma managed_references:
  assumes sel: "selectPromotableSecretReferences E s configured False logins = Inr refs" and "\<not> externalIdentity s"
    and keys: "\<And>k. secret_key E k \<noteq> []" and logins: "resolveRuntimeLogins P s = Inr logins"
  shows "one_secret refs" and "dom (workload_StatefulSet refs) = {''POSTGRES_USER'', ''POSTGRES_PASSWORD''}"
    and "dom (workload_BootstrapJob refs) = sql_variables logins \<union> {''PGUSER'', ''PGPASSWORD''}"
    and "workload_BootstrapJob refs ''PGUSER'' = configured (secret_key E ''POSTGRES_USER'')"
    and "workload_BootstrapJob refs ''PGPASSWORD'' = configured (secret_key E ''POSTGRES_PASSWORD'')"
proof -
  obtain name s0 s1 where s0: "select_required E configured [] (map (\<lambda>v. (v, v)) primitives) Map.empty = Inr (name, s0)"
    and s1: "select_logins E configured name logins s0 = Inr s1"
    and refs: "refs = (let selected = (s1(''PGUSER'' := s1 ''POSTGRES_USER''))(''PGPASSWORD'' := s1 ''POSTGRES_PASSWORD'') in
      \<lparr>workload_StatefulSet = selectForWorkload selected [''POSTGRES_USER'', ''POSTGRES_PASSWORD''],
       workload_BootstrapJob = selectForWorkload selected
         ([''POSTGRES_USER'', ''POSTGRES_READ_ONLY_PASSWORD'', ''POSTGRES_READ_WRITE_PASSWORD''] @ map login_passwordKey logins
           @ [''PGUSER'', ''PGPASSWORD''])\<rparr>)"
    using assms(1,2) by (auto simp: selectPromotableSecretReferences_def Let_def split: option.splits sum.splits)
  have f0: "name \<noteq> [] \<and> (\<forall>v r. s0 v = Some r \<longrightarrow> mountable name r) \<and> dom s0 = set primitives \<and>
      (\<forall>v \<in> set primitives. s0 v = configured (secret_key E v))"
    using select_required_Inr [OF s0] by (auto simp: primitives_def)
  have f1: "(\<forall>v r. s1 v = Some r \<longrightarrow> mountable name r) \<and> dom s1 = set primitives \<union> login_passwordKey ` set logins \<and>
      (\<forall>v. v \<notin> login_passwordKey ` set logins \<longrightarrow> s1 v = s0 v)"
    using select_logins_Inr [OF s1] f0 keys by auto
  have fresh: "v \<notin> login_passwordKey ` set logins" if "v \<in> set primitives \<union> {''PGUSER'', ''PGPASSWORD''}" for v
    using that login_key_fresh [OF logins] by auto
  have own: "s1 v = configured (secret_key E v) \<and> s1 v \<noteq> None" if "v \<in> set primitives" for v
    using that f0 f1 fresh [of v] by (metis UnCI domIff)
  show "one_secret refs"
    using f1 unfolding one_secret_def refs Let_def selectForWorkload_def by (intro exI [of _ name]) (auto split: if_splits)
  show "workload_BootstrapJob refs ''PGUSER'' = configured (secret_key E ''POSTGRES_USER'')"
    "workload_BootstrapJob refs ''PGPASSWORD'' = configured (secret_key E ''POSTGRES_PASSWORD'')"
    using own by (simp_all add: refs Let_def selectForWorkload_def primitives_def)
  let ?D = "set primitives \<union> login_passwordKey ` set logins \<union> {''PGUSER'', ''PGPASSWORD''}"
  have selected: "dom (s1(''PGUSER'' := s1 ''POSTGRES_USER'', ''PGPASSWORD'' := s1 ''POSTGRES_PASSWORD'')) = ?D"
  proof -
    have "s1 ''POSTGRES_USER'' \<noteq> None" "s1 ''POSTGRES_PASSWORD'' \<noteq> None" using own [THEN conjunct2] by (simp_all add: primitives_def)
    then show ?thesis using f1 by (simp only: dom_fun_upd if_False) blast
  qed
  have within: "?D \<inter> vs = vs" if "vs \<subseteq> ?D" for vs using that by blast
  show "dom (workload_StatefulSet refs) = {''POSTGRES_USER'', ''POSTGRES_PASSWORD''}"
    unfolding refs Let_def promotableWorkloadSecretReferences.simps dom_selectForWorkload selected
    by (subst within) (simp_all add: primitives_def)
  show "dom (workload_BootstrapJob refs) = sql_variables logins \<union> {''PGUSER'', ''PGPASSWORD''}"
    unfolding refs Let_def promotableWorkloadSecretReferences.simps dom_selectForWorkload selected
    by (subst within, simp_all add: primitives_def sql_variables_def insert_commute) blast
qed

lemma externalInstance_bound:
  assumes "externalInstance P s environment = Inr b"
  shows "b \<noteq> None \<longleftrightarrow> ExternalInstances s \<noteq> []"
  using assms by (cases b) (auto simp: externalInstance_def split: sum.splits if_splits prod.splits option.splits)

text \<open>
  C36: what a restricted render mounts. A prepared deployment in password mode mounts references of one
  Secret only, each with a key and none optional. The bootstrap Job gets every variable that
  \<open>runtime-access.sql\<close> reads, the two of libpq, and for an external instance the two connections, and nothing
  else; the StatefulSet gets the owner's user and password, and nothing at an external instance. The owner
  the Job connects as is the one the server is initialised with. With external identities nothing is mounted.
\<close>

theorem restricted_references_exact:
  assumes prepared: "prepareDeployment P E req d = (Inr conf, d')" and profile: "parsed_profile E (output_profile req) \<noteq> Some False"
    and keys: "\<And>k. secret_key E k \<noteq> []"
  shows "\<exists>refs logins. StatefulSetSecretReferences (parameters d') = workload_StatefulSet refs \<and> BootstrapJobSecretReferences (parameters d') = workload_BootstrapJob refs \<and>
    resolveRuntimeLogins P (settings (dep_service d)) = Inr logins \<and>
    (if externalIdentity (settings (dep_service d)) then workload_StatefulSet refs = Map.empty \<and> workload_BootstrapJob refs = Map.empty
     else one_secret refs \<and>
       workload_BootstrapJob refs ''PGUSER'' = configured_references req (secret_key E ''POSTGRES_USER'') \<and>
       workload_BootstrapJob refs ''PGPASSWORD'' = configured_references req (secret_key E ''POSTGRES_PASSWORD'') \<and>
       (if ExternalInstances (settings (dep_service d)) = []
        then dom (workload_BootstrapJob refs) = sql_variables logins \<union> {''PGUSER'', ''PGPASSWORD''} \<and>
          dom (workload_StatefulSet refs) = {''POSTGRES_USER'', ''POSTGRES_PASSWORD''}
        else dom (workload_BootstrapJob refs) = sql_variables logins \<union> {''PGUSER'', ''PGPASSWORD'', externalReadOnlyConnectionKey, externalReadWriteConnectionKey} \<and>
          workload_StatefulSet refs = Map.empty))"
proof -
  let ?s = "settings (dep_service d)"
  have restricted: "restrictedOutput E (output_profile req)" using profile by (auto simp: restrictedOutput_def split: option.splits)
  obtain logins i b f where run: "prepare_restricted P E req logins i b (set_parameters f d) = (Inr conf, d')"
    and logins: "resolveRuntimeLogins P ?s = Inr logins" and inst: "deploymentNetworkInstance P ?s req = Inr (i, b)"
    using prepareDeployment_restricted [OF restricted, of ?s P] prepared by (metis Inl_Inr_False fst_conv)
  obtain refs where refs: "selectPromotableSecretReferences E ?s (configured_references req) (b \<noteq> None) logins = Inr refs"
    and mounted: "StatefulSetSecretReferences (parameters d') = workload_StatefulSet refs" "BootstrapJobSecretReferences (parameters d') = workload_BootstrapJob refs"
    using run by (auto simp: prepare_restricted_def Let_def split: sum.splits option.splits if_splits)
  have binding: "b \<noteq> None \<longleftrightarrow> ExternalInstances ?s \<noteq> []"
    using inst externalInstance_bound by (auto simp: deploymentNetworkInstance_def Let_def split: sum.splits option.splits)
  have no_logins: "ExternalInstances ?s \<noteq> [] \<Longrightarrow> logins = []"
    using logins by (auto simp: resolveRuntimeLogins_def split: if_splits)
  show ?thesis
  proof (cases "externalIdentity ?s")
    case True
    then show ?thesis using refs mounted logins by (auto simp: selectPromotableSecretReferences_def split: option.splits)
  next
    case False
    show ?thesis
    proof (cases "ExternalInstances ?s = []")
      case True
      then have "selectPromotableSecretReferences E ?s (configured_references req) False logins = Inr refs" using refs binding by simp
      then show ?thesis using managed_references [OF _ False keys logins] mounted logins False True
        by (intro exI [of _ refs] exI [of _ logins]) simp
    next
      case ext: False
      then have sel: "selectExternalSecretReferences E (configured_references req) = Inr refs"
        using refs binding False by (auto simp: selectPromotableSecretReferences_def split: option.splits)
      show ?thesis using external_references [OF sel] mounted logins False ext no_logins
        by (intro exI [of _ refs] exI [of _ logins]) (auto simp: sql_variables_def external_required_def)
    qed
  qed
qed

section \<open>The name of the bootstrap Job\<close>

definition label_char :: "char \<Rightarrow> bool" where
  "label_char c \<longleftrightarrow> is_lower c \<or> is_digit c \<or> c = CHR ''-''"

text \<open>A label of the domain name system: what Kubernetes admits as the name of a Job.\<close>

definition dns_label :: "string \<Rightarrow> bool" where
  "dns_label s \<longleftrightarrow> s \<noteq> [] \<and> length s \<le> 63 \<and> list_all label_char s \<and> hd s \<noteq> CHR ''-'' \<and> last s \<noteq> CHR ''-''"

lemma trim_dashes_prefix: "prefix (trim_dashes s) s"
proof -
  have "suffix (dropWhile (\<lambda>c. c = CHR ''-'') (rev s)) (rev s)" by (simp add: suffix_dropWhile)
  then show ?thesis by (simp add: trim_dashes_def suffix_to_prefix)
qed

lemma trim_dashes_nonempty: "s \<noteq> [] \<Longrightarrow> hd s \<noteq> CHR ''-'' \<Longrightarrow> trim_dashes s \<noteq> [] \<and> hd (trim_dashes s) = hd s"
  by (cases s) (auto simp: trim_dashes_def dropWhile_append)

lemma hex_label: "is_hex c \<Longrightarrow> label_char c \<and> c \<noteq> CHR ''-''"
  using is_hex_alnum [of c] by (auto simp: label_char_def is_hex_def is_digit_def less_eq_char_def)

text \<open>
  The name of the bootstrap Job fits. With a hash of 32 bytes the name is the service's name, cut to
  50 bytes and without a dash at the end of the cut, a dash, and the first 12 hexadecimal digits of the hash of
  the pod template: at most 63 bytes, and a DNS label whenever the service's name has the characters of one and
  begins with none of the dashes. It is a function of the service and of the pod template alone, so that a Job
  that would run anything else gets another name unless the 48 bits collide.
\<close>

theorem bootstrap_job_name_fits:
  assumes name: "immutableBootstrapJobName P E req p = Inr name" and hash: "\<And>s. length (sha256 P s) = 32"
  shows "length name \<le> 63 \<and>
    (list_all label_char (dns_name E) \<and> hd (dns_name E) \<noteq> CHR ''-'' \<longrightarrow> dns_label name) \<and>
    (\<exists>podTemplate. pod_template E req p = Some podTemplate \<and>
       drop (length name - 12) name = take 12 (EncodeToString (sha256 P podTemplate))) \<and>
    (immutableBootstrapJobName P E req' q = Inr other \<longrightarrow>
       (name = other \<longleftrightarrow> take 12 (EncodeToString (sha256 P (the (pod_template E req p)))) =
          take 12 (EncodeToString (sha256 P (the (pod_template E req' q))))))"
proof -
  let ?cut = "if length (dns_name E) > maxServiceLength then trim_dashes (take maxServiceLength (dns_name E)) else dns_name E"
  let ?hex = "\<lambda>req p. take suffixLength (EncodeToString (sha256 P (the (pod_template E req p))))"
  have shape: "immutableBootstrapJobName P E req p = Inr n \<Longrightarrow> n = ?cut @ ''-'' @ ?hex req p \<and> pod_template E req p \<noteq> None \<and> dns_name E \<noteq> []" for req p n
    by (auto simp: immutableBootstrapJobName_def Let_def split: if_splits option.splits)
  note n = shape [OF name]
  have hex: "length (?hex req p) = 12" "list_all is_hex (?hex req p)" for req p
    using hash EncodeToString_hex [of "sha256 P (the (pod_template E req p))"]
    by (auto simp: suffixLength_def list_all_iff dest!: in_set_takeD)
  have cut: "length ?cut \<le> 50" "prefix ?cut (dns_name E)"
    using prefix_length_le [OF trim_dashes_prefix, of "take maxServiceLength (dns_name E)"]
      prefix_order.trans [OF trim_dashes_prefix take_is_prefix, of maxServiceLength "dns_name E"]
    by (auto simp: maxServiceLength_def suffixLength_def)
  have "dns_label name" if "list_all label_char (dns_name E)" "hd (dns_name E) \<noteq> CHR ''-''"
  proof -
    have "?cut \<noteq> [] \<and> hd ?cut = hd (dns_name E)"
      using n that trim_dashes_nonempty [of "take maxServiceLength (dns_name E)"] by (auto simp: maxServiceLength_def suffixLength_def)
    moreover have "list_all label_char ?cut" using that cut(2) set_mono_prefix [OF cut(2)] by (auto simp: list_all_iff simp del: if_split)
    moreover have "last (?hex req p) \<in> set (?hex req p)" using hex(1) [of req p] by (metis last_in_set length_0_conv zero_neq_numeral)
    ultimately show ?thesis
      using n cut(1) hex [of req p] that(2) hex_label unfolding dns_label_def
      by (auto simp: list_all_iff label_char_def)
  qed
  moreover have "name = other \<longleftrightarrow> ?hex req p = ?hex req' q" if "immutableBootstrapJobName P E req' q = Inr other"
    using n shape [OF that] by simp
  ultimately show ?thesis using n cut(1) hex(1) [of req p] by (auto simp: suffixLength_def)
qed

section \<open>External bindings\<close>

text \<open>A binding that is accepted is the one configured for the environment, and agrees with the service.\<close>

lemma externalInstance_Some:
  "externalInstance P s environment = Inr (Some b) \<longleftrightarrow>
     ExternalInstances s \<noteq> [] \<and> \<not> blank environment \<and> map_of (ExternalInstances s) environment = Some b \<and>
     ei_Host b \<noteq> [] \<and> \<not> bad_host (ei_Host b) \<and> ei_DatabaseName b = DatabaseName s \<and>
     (\<exists>roles. normalizedRuntimeReadWriteRoles (RuntimeReadWriteRoles s) [fst (runtimeRoleNames P (DatabaseName s)), snd (runtimeRoleNames P (DatabaseName s))] = Inr roles \<and>
        normalizedRuntimeReadWriteRoles (ei_RuntimeReadWriteRoles b) [fst (runtimeRoleNames P (DatabaseName s)), snd (runtimeRoleNames P (DatabaseName s))] = Inr roles)"
  by (auto simp: externalInstance_def split: sum.splits if_splits prod.splits option.splits)

lemma Join_nested: "ys \<noteq> [] \<Longrightarrow> Join (xs @ [Join ys sep]) sep = Join (xs @ ys) sep"
proof (induction xs)
  case (Cons x xs)
  then show ?case by (cases "xs @ ys"; cases xs) auto
qed (cases ys; auto)

definition identity_fields :: "string \<Rightarrow> ExternalInstance \<Rightarrow> string list" where
  "identity_fields environment b =
     [environment, ei_Host b, Itoa (port_of b), ei_DatabaseName b] @ (if ei_RuntimeReadWriteRoles b = [] then [[]] else ei_RuntimeReadWriteRoles b)"

lemma Itoa_no_NUL: "NUL \<notin> set (Itoa n)"
  using Itoa_digits [of n] by (auto simp: list_all_iff is_digit_def NUL_def less_eq_char_def)

lemma identity_split:
  assumes "NUL \<notin> set environment \<union> set (ei_Host b) \<union> set (ei_DatabaseName b)" "\<forall>r \<in> set (ei_RuntimeReadWriteRoles b). NUL \<notin> set r"
  shows "Split (binding_identity environment b) NUL = identity_fields environment b"
proof -
  let ?roles = "if ei_RuntimeReadWriteRoles b = [] then [[]] else ei_RuntimeReadWriteRoles b"
  have "binding_identity environment b = Join (identity_fields environment b) [NUL]"
    using Join_nested [of ?roles "[environment, ei_Host b, Itoa (port_of b), ei_DatabaseName b]" "[NUL]"]
    by (auto simp: binding_identity_def identity_fields_def)
  also have "Split (Join (identity_fields environment b) [NUL]) NUL = identity_fields environment b"
    by (rule Split_Join) (use assms Itoa_no_NUL in \<open>auto simp: identity_fields_def list_all_iff\<close>)
  finally show ?thesis .
qed

lemma accepted_roles_nonempty:
  assumes "externalInstance P s environment = Inr (Some b)"
  shows "[] \<notin> set (ei_RuntimeReadWriteRoles b)"
  using assms by (fastforce simp: externalInstance_Some normalizedRuntimeReadWriteRoles_Inr validSQLIdentifier_def)

text \<open>
  The identity stamped on the pods of an external deployment determines the binding: two accepted bindings
  without a NUL byte that have one identity have the same environment, host, port, database and roles, unless
  the hash collides.
\<close>

theorem external_binding_identified:
  assumes "externalInstance P s environment = Inr (Some b)" and "externalInstance P s' environment' = Inr (Some b')"
    and "sha256 P (binding_identity environment b) = sha256 P (binding_identity environment' b') \<Longrightarrow>
      binding_identity environment b = binding_identity environment' b'"
    and "externalBindingID P environment b = externalBindingID P environment' b'"
    and "NUL \<notin> set environment \<union> set (ei_Host b) \<union> set (ei_DatabaseName b)" "\<forall>r \<in> set (ei_RuntimeReadWriteRoles b). NUL \<notin> set r"
    and "NUL \<notin> set environment' \<union> set (ei_Host b') \<union> set (ei_DatabaseName b')" "\<forall>r \<in> set (ei_RuntimeReadWriteRoles b'). NUL \<notin> set r"
  shows "environment = environment' \<and> ei_Host b = ei_Host b' \<and> port_of b = port_of b' \<and> ei_DatabaseName b = ei_DatabaseName b' \<and>
    ei_RuntimeReadWriteRoles b = ei_RuntimeReadWriteRoles b'"
proof -
  have "binding_identity environment b = binding_identity environment' b'"
    using assms(3) EncodeToString_inject [OF assms(4) [unfolded externalBindingID_def]] by blast
  then have "identity_fields environment b = identity_fields environment' b'"
    using identity_split assms(5-8) by metis
  then have "environment = environment' \<and> ei_Host b = ei_Host b' \<and> port_of b = port_of b' \<and> ei_DatabaseName b = ei_DatabaseName b'"
    and roles: "(if ei_RuntimeReadWriteRoles b = [] then [[]] else ei_RuntimeReadWriteRoles b) =
      (if ei_RuntimeReadWriteRoles b' = [] then [[]] else ei_RuntimeReadWriteRoles b')"
    by (simp_all add: identity_fields_def)
  moreover have "ei_RuntimeReadWriteRoles b = ei_RuntimeReadWriteRoles b'"
    using roles accepted_roles_nonempty [OF assms(1)] accepted_roles_nonempty [OF assms(2)] by (metis list.set_intros(1))
  ultimately show ?thesis by simp
qed

section \<open>A sample deployment\<close>

definition sample_deploy_env :: deploy_env where
  "sample_deploy_env = \<lparr>ServiceSecretConfigurationKeyFromUnique = (\<lambda>unique name key. unique @ ''_'' @ name @ ''_'' @ key),
     dep_Unique = ''shop'', dns_name = ''orders'', parsed_profile = (\<lambda>p. if p = 1 then Some False else if p = 2 then Some True else None),
     pod_template = (\<lambda>req p. Some (ManagedImage p)), managed_image = ''pgvector'', export_ok = (\<lambda>_. True), tree_rendered = (\<lambda>_ _. True)\<rparr>"

definition sample_deploy_request :: deployment_request where
  "sample_deploy_request = \<lparr>environment_name = ''prod'',
     mapped_instance = Some \<lparr>ni_Hostname = ''pg'', ni_Host = ''pg:5432'', ni_Port = 5432, ni_Address = ''pg:5432''\<rparr>,
     configuration_values = (\<lambda>_. ([], False)), configured_references = (\<lambda>k. Some \<lparr>ref_Name = ''pg'', ref_Key = k, ref_Optional = False\<rparr>),
     output_profile = 7\<rparr>"

definition sample_deployment :: deployment where
  "sample_deployment = \<lparr>parameters = new_parameters sample_deploy_env sample_settings, added_secrets = [], exported = None,
     dep_service = sample_service\<rparr>"

theorem restricted_deploy_secretless_witness:
  "added_secrets (snd (Deploy sample_platform sample_deploy_env sample_deploy_request sample_service)) = [] \<and>
   fst (Deploy sample_platform sample_deploy_env sample_deploy_request sample_service) =
   fst (Deploy sample_platform sample_deploy_env sample_deploy_request (sample_service\<lparr>postgresPassword := ''other''\<rparr>))"
  using restricted_deploy_secretless [of sample_deploy_env sample_deploy_request sample_service
      "sample_service\<lparr>postgresPassword := ''other''\<rparr>" sample_platform]
  by (simp add: sample_deploy_env_def sample_deploy_request_def)

lemma sample_prepared:
  "fst (prepareDeployment sample_platform sample_deploy_env sample_deploy_request sample_deployment) =
     Inr (promotableConnectionConfiguration sample_platform ''shop'' ''pg:5432'' False sample_service)"
proof -
  have "deploymentNetworkInstance sample_platform sample_settings sample_deploy_request = Inr (the (mapped_instance sample_deploy_request), None)"
    by (simp add: deploymentNetworkInstance_def externalInstance_def sample_settings_def sample_deploy_request_def)
  moreover have "SplitHostPort ''pg:5432'' = Some (''pg'', ''5432'')" by code_simp
  ultimately show ?thesis using sample_logins
    by (simp add: prepareDeployment_def prepare_restricted_def sample_deployment_def sample_service_def restrictedOutput_def
        sample_deploy_env_def sample_deploy_request_def selectPromotableSecretReferences_def validateAuthMode_def externalIdentity_def
        primitives_def usable_def secret_key_def loginPasswordSecretReference_def deploymentWithSSL_def Let_def
        sample_settings_def authModeExternalIdentity_def)
qed

theorem restricted_references_exact_witness:
  "\<exists>refs :: promotableWorkloadSecretReferences.
     BootstrapJobSecretReferences (parameters (snd (prepareDeployment sample_platform sample_deploy_env sample_deploy_request sample_deployment))) =
     workload_BootstrapJob refs \<and> one_secret refs \<and>
     ''POSTGRES_MAINTENANCE_PASSWORD'' \<in> dom (workload_BootstrapJob refs)"
proof -
  let ?d = "snd (prepareDeployment sample_platform sample_deploy_env sample_deploy_request sample_deployment)"
  obtain refs logins where "BootstrapJobSecretReferences (parameters ?d) = workload_BootstrapJob refs"
    and "resolveRuntimeLogins sample_platform sample_settings = Inr logins"
    and "one_secret refs" and "dom (workload_BootstrapJob refs) = sql_variables logins \<union> {''PGUSER'', ''PGPASSWORD''}"
    using restricted_references_exact [of sample_platform sample_deploy_env sample_deploy_request sample_deployment
        "promotableConnectionConfiguration sample_platform ''shop'' ''pg:5432'' False sample_service" ?d] sample_prepared
    by (auto simp: prod_eq_iff sample_deploy_env_def sample_deploy_request_def secret_key_def sample_deployment_def sample_service_def
        sample_settings_def externalIdentity_def authModeExternalIdentity_def)
  moreover from this(2) have "''POSTGRES_MAINTENANCE_PASSWORD'' \<in> sql_variables logins"
    using sample_logins by (auto simp: sql_variables_def)
  ultimately show ?thesis by blast
qed

theorem bootstrap_job_name_fits_witness:
  "dns_label (''orders-'' @ replicate 12 (CHR ''0''))"
proof -
  have "immutableBootstrapJobName sample_platform sample_deploy_env sample_deploy_request (new_parameters sample_deploy_env sample_settings) =
      Inr (''orders-'' @ replicate 12 (CHR ''0''))"
    by code_simp
  then show ?thesis
    using bootstrap_job_name_fits [of sample_platform sample_deploy_env sample_deploy_request "new_parameters sample_deploy_env sample_settings"]
    by (auto simp: sample_platform_def sample_deploy_env_def label_char_def is_lower_def)
qed

end
