(* ===== verification/BootstrapLock.thy ===== *)
theory BootstrapLock
  imports Published
begin

text \<open>
  \<open>bootstrap_image.go\<close>: the locked inputs of the bootstrap image. The embedded lock and module files and
  \<open>encoding/json\<close> are parameters; validation, the rendered identities, the provenance and the digest are the
  code's. \<open>distinctSubjects\<close> and \<open>runtimeImageSubjects\<close> of \<open>builder.go\<close> name the images of the software
  inventory.
\<close>

definition bootstrapArchitectures :: "string list" where "bootstrapArchitectures = [''amd64'', ''arm64'']"

definition bootstrapRecipePlatforms :: "string list" where
  "bootstrapRecipePlatforms = map (\<lambda>architecture. ''linux/'' @ architecture) bootstrapArchitectures"

record bootstrapBaseImage =
  base_Image :: string
  base_Version :: string
  base_Digest :: string

record bootstrapPackage =
  pkg_Name :: string
  pkg_Version :: string

record bootstrapPackages =
  Repositories :: "string list"
  Pinned :: "bootstrapPackage list"

record bootstrapMigrateBinary =
  migrate_Version :: string
  Toolchain :: string

record bootstrapImageLock =
  lock_Base :: bootstrapBaseImage
  lock_Packages :: bootstrapPackages
  Migrate :: bootstrapMigrateBinary
  LockDigest :: string

datatype lock_error =
    BaseNameRequired
  | BaseVersionRequired
  | NotADigest
  | RepositoriesRequired
  | NotAlpineRelease string
  | NotHTTPS string
  | WrongBranch string string
  | PackagesRequired
  | PackageNameRequired
  | PackageVersionRequired string
  | NotOneConstraint string string
  | NotAReleaseTag string
  | ToolchainNotPinned
  | LockUnreadable
  | LockNotEncoded

section \<open>Digests and versions\<close>

text \<open>\<open>hex.DecodeString\<close> takes either case.\<close>

definition isSHA256Hex :: "string \<Rightarrow> bool" where
  "isSHA256Hex value \<longleftrightarrow> length value = 64 \<and> list_all (\<lambda>c. unhex c \<noteq> None) value"

definition validateSHA256Digest :: "string \<Rightarrow> lock_error option" where
  "validateSHA256Digest value =
     (case Cut value CHR '':'' of (algorithm, encoded, found) \<Rightarrow>
        if \<not> found \<or> algorithm \<noteq> ''sha256'' \<or> \<not> isSHA256Hex encoded then Some NotADigest else None)"

definition validateSHA256Checksum :: "string \<Rightarrow> lock_error option" where
  "validateSHA256Checksum value = (if isSHA256Hex value then None else Some NotADigest)"

definition alpineReleaseBranch :: "string \<Rightarrow> (lock_error, string) result" where
  "alpineReleaseBranch version =
     (case Cut version CHR ''.'' of (major, rest, found) \<Rightarrow>
        (case Cut rest CHR ''.'' of (minor, _, _) \<Rightarrow>
           if \<not> found \<or> major = [] \<or> minor = [] then Inl (NotAlpineRelease version) else Inr (''v'' @ major @ ''.'' @ minor)))"

text \<open>\<open>n\<close> numbers with a dot between them.\<close>

definition dotted_numbers :: "nat \<Rightarrow> string \<Rightarrow> bool" where
  "dotted_numbers n s \<longleftrightarrow> length (Split s CHR ''.'') = n \<and> list_all (\<lambda>d. d \<noteq> [] \<and> list_all is_digit d) (Split s CHR ''.'')"

definition release_tag :: "string \<Rightarrow> bool" where
  "release_tag s \<longleftrightarrow> prefix ''v'' s \<and> dotted_numbers 3 (drop 1 s)"

definition pinned_toolchain :: "string \<Rightarrow> bool" where
  "pinned_toolchain s \<longleftrightarrow>
     prefix ''golang:'' s \<and>
     (case Cut (drop 7 s) CHR ''-'' of (go, rest, dashed) \<Rightarrow>
        dashed \<and> dotted_numbers 3 go \<and> prefix ''alpine'' rest \<and>
        (case Cut (drop 6 rest) CHR ''@'' of (alpine, digest, pinned) \<Rightarrow>
           pinned \<and> dotted_numbers 2 alpine \<and> prefix ''sha256:'' digest \<and> length digest = 71 \<and> list_all is_hex (drop 7 digest)))"

section \<open>Validation\<close>

definition check_repository :: "string \<Rightarrow> string \<Rightarrow> lock_error option" where
  "check_repository branch repository =
     (if \<not> prefix ''https://'' repository then Some (NotHTTPS repository)
      else if \<not> sublist (''/'' @ branch @ ''/'') repository then Some (WrongBranch repository branch)
      else None)"

definition check_package :: "bootstrapPackage \<Rightarrow> lock_error option" where
  "check_package p =
     (if pkg_Name p = [] then Some PackageNameRequired
      else if pkg_Version p = [] then Some (PackageVersionRequired (pkg_Name p))
      else if ContainsAny (pkg_Name p @ pkg_Version p) '' ='' then Some (NotOneConstraint (pkg_Name p) (pkg_Version p))
      else None)"

definition validatePackages :: "bootstrapImageLock \<Rightarrow> lock_error option" where
  "validatePackages l =
     (if Repositories (lock_Packages l) = [] then Some RepositoriesRequired
      else case alpineReleaseBranch (base_Version (lock_Base l)) of
        Inl e \<Rightarrow> Some e
      | Inr branch \<Rightarrow>
          (case first_error (check_repository branch) (Repositories (lock_Packages l)) of
             Some e \<Rightarrow> Some e
           | None \<Rightarrow>
               if Pinned (lock_Packages l) = [] then Some PackagesRequired
               else first_error check_package (Pinned (lock_Packages l))))"

definition validateMigrate :: "bootstrapImageLock \<Rightarrow> lock_error option" where
  "validateMigrate l =
     (if \<not> release_tag (migrate_Version (Migrate l)) then Some (NotAReleaseTag (migrate_Version (Migrate l)))
      else if \<not> pinned_toolchain (Toolchain (Migrate l)) then Some ToolchainNotPinned
      else None)"

definition validate_lock :: "bootstrapImageLock \<Rightarrow> lock_error option" where
  "validate_lock l =
     (if base_Image (lock_Base l) = [] then Some BaseNameRequired
      else if base_Version (lock_Base l) = [] then Some BaseVersionRequired
      else case validateSHA256Digest (base_Digest (lock_Base l)) of
        Some e \<Rightarrow> Some e
      | None \<Rightarrow> (case validatePackages l of Some e \<Rightarrow> Some e | None \<Rightarrow> validateMigrate l))"

definition parseBootstrapImageLock :: "platform \<Rightarrow> (string \<Rightarrow> bootstrapImageLock option) \<Rightarrow> (bootstrapImageLock \<Rightarrow> string option) \<Rightarrow> string
    \<Rightarrow> (lock_error, bootstrapImageLock) result" where
  "parseBootstrapImageLock P decode encode content =
     (case decode content of
        None \<Rightarrow> Inl LockUnreadable
      | Some lock \<Rightarrow>
          (case validate_lock lock of
             Some e \<Rightarrow> Inl e
           | None \<Rightarrow>
               (case encode lock of
                  None \<Rightarrow> Inl LockNotEncoded
                | Some canonical \<Rightarrow> Inr (lock\<lparr>LockDigest := ''sha256:'' @ EncodeToString (sha256 P canonical)\<rparr>))))"

section \<open>What the image records\<close>

definition base_Reference :: "bootstrapBaseImage \<Rightarrow> string" where
  "base_Reference b = base_Image b @ ''@'' @ base_Digest b"

definition RepositoryArguments :: "bootstrapPackages \<Rightarrow> string" where
  "RepositoryArguments p = Join (map (\<lambda>r. [CHR 0x22] @ r @ [CHR 0x22]) (Repositories p)) '' ''"

definition Specs :: "bootstrapPackages \<Rightarrow> string" where
  "Specs p = Join (map (\<lambda>q. pkg_Name q @ ''='' @ pkg_Version q) (Pinned p)) '' ''"

record bootstrapProvenance =
  prov_Arg :: string
  prov_Label :: string
  prov_Value :: string

text \<open>The embedded module files are \<open>gomod\<close> and \<open>gosum\<close>.\<close>

definition GoModSHA256 :: "platform \<Rightarrow> string \<Rightarrow> string" where "GoModSHA256 P gomod = EncodeToString (sha256 P gomod)"
definition GoSumSHA256 :: "platform \<Rightarrow> string \<Rightarrow> string" where "GoSumSHA256 P gosum = EncodeToString (sha256 P gosum)"

definition Provenance :: "platform \<Rightarrow> string \<Rightarrow> string \<Rightarrow> bootstrapImageLock \<Rightarrow> bootstrapProvenance list" where
  "Provenance P gomod gosum l =
     map (\<lambda>(arg, label, v). \<lparr>prov_Arg = ''CODEFLY_BOOTSTRAP_'' @ arg, prov_Label = ''dev.codefly.bootstrap.'' @ label, prov_Value = v\<rparr>)
     [(''LOCK_DIGEST'', ''lock-digest'', LockDigest l),
      (''BASE'', ''base'', base_Reference (lock_Base l)),
      (''BASE_VERSION'', ''base-version'', base_Version (lock_Base l)),
      (''APK_REPOSITORIES'', ''apk-repositories'', Join (Repositories (lock_Packages l)) '' ''),
      (''APK_PACKAGES'', ''apk-packages'', Specs (lock_Packages l)),
      (''MIGRATE_VERSION'', ''migrate-version'', migrate_Version (Migrate l)),
      (''MIGRATE_TOOLCHAIN'', ''migrate-toolchain'', Toolchain (Migrate l)),
      (''MIGRATE_GO_MOD'', ''migrate-go-mod'', GoModSHA256 P gomod),
      (''MIGRATE_GO_SUM'', ''migrate-go-sum'', GoSumSHA256 P gosum),
      (''MIGRATE_DRIVERS'', ''migrate-drivers'', ''postgres,file'')]"

definition RecipeBuildArgs :: "platform \<Rightarrow> string \<Rightarrow> string \<Rightarrow> bootstrapImageLock \<Rightarrow> (string \<rightharpoonup> string)" where
  "RecipeBuildArgs P gomod gosum l = foldl (\<lambda>m e. m(prov_Arg e \<mapsto> prov_Value e)) Map.empty (Provenance P gomod gosum l)"

section \<open>Subjects of the inventory\<close>

record ImageSubject =
  sub_Reference :: string
  sub_Digest :: string
  sub_Platform :: string
  sub_Role :: string
  sub_Service :: string

definition subject_key :: "ImageSubject \<Rightarrow> string" where
  "subject_key x = Join [sub_Reference x, sub_Digest x, sub_Platform x, sub_Role x, sub_Service x] ''|''"

fun distinct_loop :: "string list \<Rightarrow> ImageSubject list \<Rightarrow> ImageSubject list" where
  "distinct_loop seen [] = []"
| "distinct_loop seen (x # xs) =
     (if subject_key x \<in> set seen then distinct_loop seen xs else x # distinct_loop (subject_key x # seen) xs)"

definition distinctSubjects :: "ImageSubject list list \<Rightarrow> ImageSubject list" where
  "distinctSubjects groups = distinct_loop [] (concat groups)"

section \<open>The runtime image\<close>

record runtimeImageLock =
  rt_Name :: string
  rt_Tag :: string
  rt_Digest :: string
  rt_Platforms :: "string list"

datatype image_error =
    ImageLockUnreadable
  | ImageNameRequired
  | ImageTagRequired
  | ImageDigestRequired
  | ImageDigestInvalid lock_error
  | PlatformsRequired
  | NotOsArch string
  | NotAReference
  | SubjectsRefused

definition validatePlatform :: "string \<Rightarrow> image_error option" where
  "validatePlatform value =
     (case Cut value CHR ''/'' of (operatingSystem, architecture, found) \<Rightarrow>
        if \<not> found \<or> operatingSystem = [] \<or> architecture = [] then Some (NotOsArch value) else None)"

text \<open>The image is its lock: name, tag and digest, and the platforms.\<close>

definition parseRuntimeImageLock :: "(string \<Rightarrow> runtimeImageLock option) \<Rightarrow> string \<Rightarrow> (image_error, runtimeImageLock) result" where
  "parseRuntimeImageLock decode content =
     (case decode content of
        None \<Rightarrow> Inl ImageLockUnreadable
      | Some lock \<Rightarrow>
          if rt_Name lock = [] then Inl ImageNameRequired
          else if rt_Tag lock = [] then Inl ImageTagRequired
          else if rt_Digest lock = [] then Inl ImageDigestRequired
          else (case validateSHA256Digest (rt_Digest lock) of
            Some e \<Rightarrow> Inl (ImageDigestInvalid e)
          | None \<Rightarrow>
              if rt_Platforms lock = [] then Inl PlatformsRequired
              else case first_error validatePlatform (rt_Platforms lock) of Some e \<Rightarrow> Inl e | None \<Rightarrow> Inr lock))"

text \<open>
  The subjects core expects of a published image. \<open>full_name\<close> is the name of the configured image, absent
  when it is no reference; \<open>expected\<close> is \<open>sbom.ExpectedFromImageReference\<close>, for a service, a role, a
  reference and platforms.
\<close>

definition runtimeImageSubjects :: "(string \<Rightarrow> string \<Rightarrow> string \<Rightarrow> string list \<Rightarrow> ImageSubject list option) \<Rightarrow> string \<Rightarrow> runtimeImageLock \<Rightarrow> string option
    \<Rightarrow> Settings \<Rightarrow> (image_error, ImageSubject list) result" where
  "runtimeImageSubjects expected unique locked full_name s =
     (case full_name of
        None \<Rightarrow> Inl NotAReference
      | Some reference \<Rightarrow>
          (case (if Image s \<noteq> [] then first_error validatePlatform (ImagePlatforms s) else None) of
             Some e \<Rightarrow> Inl e
           | None \<Rightarrow>
               (let platforms = (if Image s = [] then rt_Platforms locked else if ImagePlatforms s = [] then [[]] else ImagePlatforms s) in
                case expected unique ''runtime'' reference platforms of None \<Rightarrow> Inl SubjectsRefused | Some xs \<Rightarrow> Inr xs)))"

text \<open>The image half of \<open>SBOM\<close>: the caller's subjects, then those of the runtime image.\<close>

definition SBOM_subjects :: "(string \<Rightarrow> string \<Rightarrow> string \<Rightarrow> string list \<Rightarrow> ImageSubject list option) \<Rightarrow> string \<Rightarrow> runtimeImageLock \<Rightarrow> string option
    \<Rightarrow> Settings \<Rightarrow> ImageSubject list \<Rightarrow> (image_error, ImageSubject list) result" where
  "SBOM_subjects expected unique locked full_name s requested =
     (if requested = [] then Inl SubjectsRefused
      else case runtimeImageSubjects expected unique locked full_name s of
        Inl e \<Rightarrow> Inl e
      | Inr runtime \<Rightarrow> Inr (distinctSubjects [requested, runtime]))"

section \<open>What a lock that parses pins\<close>

lemma parse_lock_Inr:
  assumes "parseBootstrapImageLock P decode encode content = Inr lock"
  obtains raw canonical where "decode content = Some raw" "validate_lock raw = None" "encode raw = Some canonical"
    "lock = raw\<lparr>LockDigest := ''sha256:'' @ EncodeToString (sha256 P canonical)\<rparr>"
  using assms by (auto simp: parseBootstrapImageLock_def split: option.splits)

lemma validate_lock_None:
  assumes "validate_lock l = None"
  shows "base_Image (lock_Base l) \<noteq> []" and "validateSHA256Digest (base_Digest (lock_Base l)) = None" and "validatePackages l = None"
    and "release_tag (migrate_Version (Migrate l))" and "pinned_toolchain (Toolchain (Migrate l))"
  using assms by (auto simp: validate_lock_def validateMigrate_def split: if_splits option.splits)

lemma validatePackages_None:
  assumes "validatePackages l = None"
  obtains branch where "alpineReleaseBranch (base_Version (lock_Base l)) = Inr branch"
    "\<forall>r \<in> set (Repositories (lock_Packages l)). prefix ''https://'' r \<and> sublist (''/'' @ branch @ ''/'') r"
    "Pinned (lock_Packages l) \<noteq> []" "\<forall>p \<in> set (Pinned (lock_Packages l)). check_package p = None"
  using assms by (auto simp: validatePackages_def check_repository_def first_error_None list_all_iff split: if_splits option.splits sum.splits)

text \<open>One constraint per package: the arguments given to \<open>apk\<close> read back as the pinned packages.\<close>

definition apk_constraints :: "string \<Rightarrow> (string \<times> string) list" where
  "apk_constraints s = map (\<lambda>c. case Cut c CHR ''='' of (n, v, _) \<Rightarrow> (n, v)) (Split s CHR '' '')"

lemma apk_constraints_Specs:
  assumes "Pinned p \<noteq> []" and "\<forall>q \<in> set (Pinned p). check_package q = None"
  shows "apk_constraints (Specs p) = map (\<lambda>q. (pkg_Name q, pkg_Version q)) (Pinned p)"
proof -
  have chars: "set (pkg_Name q @ pkg_Version q) \<inter> {CHR '' '', CHR ''=''} = {}" if "q \<in> set (Pinned p)" for q
    using that assms(2) by (fastforce simp: check_package_def ContainsAny_def list_ex_iff split: if_splits)
  then have "Split (Specs p) CHR '' '' = map (\<lambda>q. pkg_Name q @ ''='' @ pkg_Version q) (Pinned p)"
    using assms(1) unfolding Specs_def by (intro Split_Join) (auto simp: list_all_iff)
  moreover have "Cut (pkg_Name q @ ''='' @ pkg_Version q) CHR ''='' = (pkg_Name q, pkg_Version q, True)" if "q \<in> set (Pinned p)" for q
    using chars [OF that] Cut_append [of "CHR ''=''" "pkg_Name q" "pkg_Version q"] by auto
  ultimately show ?thesis by (auto simp: apk_constraints_def)
qed

lemma Cut_True:
  assumes "Cut s c = (a, b, True)"
  shows "s = a @ c # b"
proof -
  obtain xs ys where s: "s = xs @ c # ys" "c \<notin> set xs"
    using assms by (auto simp: Cut_def split: if_splits dest: split_list_first)
  then show ?thesis using assms Cut_append [of c xs ys] by simp
qed

lemma digest_shape:
  assumes "validateSHA256Digest d = None"
  shows "\<exists>h. d = ''sha256:'' @ h \<and> length h = 64 \<and> list_all (\<lambda>c. unhex c \<noteq> None) h"
proof -
  obtain a h found where c: "Cut d CHR '':'' = (a, h, found)" by (metis prod_cases3)
  then have ok: "found" "a = ''sha256''" "isSHA256Hex h" using assms by (auto simp: validateSHA256Digest_def split: if_splits)
  have "d = a @ CHR '':'' # h" by (rule Cut_True) (use c ok(1) in simp)
  then show ?thesis using ok by (auto simp: isSHA256Hex_def)
qed

lemma foldl_upds: "foldl (\<lambda>m e. m(k e \<mapsto> v e)) m es = m ++ map_of (rev (map (\<lambda>e. (k e, v e)) es))"
  by (induction es arbitrary: m) simp_all

lemma provenance_args: "distinct (map prov_Arg (Provenance P gomod gosum l))"
  by (simp add: Provenance_def)

text \<open>
  A lock that parses pins every input of the bootstrap image. The base is referenced by a SHA-256 digest,
  every package repository is an \<open>https\<close> one of the very Alpine release the base is, the packages given to
  \<open>apk\<close> are exactly the pinned names and versions, one constraint each; and the build arguments of the
  recipe record every entry of the provenance under its own name, the digest of the lock among them, which is
  that of the lock's canonical encoding and so the same for every spelling of the lock.
\<close>

theorem bootstrap_lock_pins:
  assumes parsed: "parseBootstrapImageLock P decode encode content = Inr lock"
  shows "(\<exists>h. base_Reference (lock_Base lock) = base_Image (lock_Base lock) @ ''@sha256:'' @ h \<and> length h = 64) \<and>
    (\<exists>branch. alpineReleaseBranch (base_Version (lock_Base lock)) = Inr branch \<and>
       (\<forall>r \<in> set (Repositories (lock_Packages lock)). prefix ''https://'' r \<and> sublist (''/'' @ branch @ ''/'') r)) \<and>
    apk_constraints (Specs (lock_Packages lock)) = map (\<lambda>q. (pkg_Name q, pkg_Version q)) (Pinned (lock_Packages lock)) \<and>
    release_tag (migrate_Version (Migrate lock)) \<and> pinned_toolchain (Toolchain (Migrate lock)) \<and>
    (\<forall>e \<in> set (Provenance P gomod gosum lock). RecipeBuildArgs P gomod gosum lock (prov_Arg e) = Some (prov_Value e)) \<and>
    dom (RecipeBuildArgs P gomod gosum lock) = prov_Arg ` set (Provenance P gomod gosum lock) \<and>
    RecipeBuildArgs P gomod gosum lock ''CODEFLY_BOOTSTRAP_LOCK_DIGEST'' = Some (LockDigest lock) \<and>
    (\<forall>other lock'. decode other = decode content \<and> parseBootstrapImageLock P decode encode other = Inr lock' \<longrightarrow> lock' = lock)"
proof -
  obtain raw canonical where raw: "decode content = Some raw" "validate_lock raw = None"
    and lock: "lock = raw\<lparr>LockDigest := ''sha256:'' @ EncodeToString (sha256 P canonical)\<rparr>"
    using parse_lock_Inr [OF parsed] by metis
  note v = validate_lock_None [OF raw(2)]
  obtain branch where branch: "alpineReleaseBranch (base_Version (lock_Base raw)) = Inr branch"
    "\<forall>r \<in> set (Repositories (lock_Packages raw)). prefix ''https://'' r \<and> sublist (''/'' @ branch @ ''/'') r"
    and pinned: "Pinned (lock_Packages raw) \<noteq> []" "\<forall>p \<in> set (Pinned (lock_Packages raw)). check_package p = None"
    using validatePackages_None [OF v(3)] by metis
  let ?entries = "map (\<lambda>e. (prov_Arg e, prov_Value e)) (Provenance P gomod gosum lock)"
  have args: "RecipeBuildArgs P gomod gosum lock = map_of (rev ?entries)"
    using foldl_upds [of prov_Arg prov_Value Map.empty] by (simp add: RecipeBuildArgs_def)
  have distinct: "distinct (map fst (rev ?entries))" using provenance_args [of P gomod gosum lock] by (simp add: rev_map [symmetric] comp_def)
  have each: "\<forall>e \<in> set (Provenance P gomod gosum lock). RecipeBuildArgs P gomod gosum lock (prov_Arg e) = Some (prov_Value e)"
    unfolding args by (intro ballI map_of_is_SomeI [OF distinct]) auto
  have "dom (RecipeBuildArgs P gomod gosum lock) = prov_Arg ` set (Provenance P gomod gosum lock)"
    unfolding args by (auto simp: dom_map_of_conv_image_fst image_image)
  moreover have "RecipeBuildArgs P gomod gosum lock ''CODEFLY_BOOTSTRAP_LOCK_DIGEST'' = Some (LockDigest lock)"
    using each by (simp add: Provenance_def)
  moreover have "\<exists>h. base_Reference (lock_Base lock) = base_Image (lock_Base lock) @ ''@sha256:'' @ h \<and> length h = 64"
    using digest_shape [OF v(2)] lock by (auto simp: base_Reference_def)
  moreover have "apk_constraints (Specs (lock_Packages lock)) = map (\<lambda>q. (pkg_Name q, pkg_Version q)) (Pinned (lock_Packages lock))"
    using apk_constraints_Specs [OF pinned] lock by simp
  moreover have "\<forall>other lock'. decode other = decode content \<and> parseBootstrapImageLock P decode encode other = Inr lock' \<longrightarrow> lock' = lock"
    using parsed by (auto simp: parseBootstrapImageLock_def)
  ultimately show ?thesis using each branch v(4,5) lock by simp
qed

section \<open>Subjects\<close>

lemma distinct_loop_facts:
  "distinct (map subject_key (distinct_loop seen xs)) \<and> subject_key ` set (distinct_loop seen xs) = subject_key ` set xs - set seen \<and>
   subseq (distinct_loop seen xs) xs"
  by (induction xs arbitrary: seen) auto

lemma distinct_loop_subset: "set (distinct_loop seen xs) \<subseteq> set xs"
  by (induction xs arbitrary: seen) auto

lemma subject_key_inject:
  assumes "subject_key x = subject_key y"
    and "\<forall>z \<in> {x, y}. \<forall>f \<in> {sub_Reference z, sub_Digest z, sub_Platform z, sub_Role z, sub_Service z}. CHR ''|'' \<notin> set f"
  shows "x = y"
proof -
  have "[sub_Reference z, sub_Digest z, sub_Platform z, sub_Role z, sub_Service z] = Split (subject_key z) CHR ''|''" if "z \<in> {x, y}" for z
    unfolding subject_key_def by (rule Split_Join [symmetric]) (use assms(2) that in auto)
  from this [of x] this [of y] assms(1)
  have "[sub_Reference x, sub_Digest x, sub_Platform x, sub_Role x, sub_Service x] =
      [sub_Reference y, sub_Digest y, sub_Platform y, sub_Role y, sub_Service y]" by simp
  then show ?thesis by simp
qed

text \<open>
  Every image is inventoried once: the subjects are the caller's and then the runtime image's, in order and
  without a repetition; none is lost when no field holds the separator of the key, and the runtime
  image is among them.
\<close>

theorem subjects_exact:
  assumes "SBOM_subjects expected unique locked full_name s requested = Inr subjects"
    and clean: "\<And>z f. f \<in> {sub_Reference z, sub_Digest z, sub_Platform z, sub_Role z, sub_Service z} \<Longrightarrow>
      z \<in> set requested \<or> (\<exists>p r. z \<in> set (the (expected unique ''runtime'' r p))) \<Longrightarrow> CHR ''|'' \<notin> set f"
  shows "\<exists>runtime. runtimeImageSubjects expected unique locked full_name s = Inr runtime \<and>
    set subjects = set requested \<union> set runtime \<and> distinct subjects \<and> subseq subjects (requested @ runtime)"
proof -
  obtain runtime where r: "runtimeImageSubjects expected unique locked full_name s = Inr runtime"
    and subjects: "subjects = distinct_loop [] (requested @ runtime)"
    using assms(1) by (auto simp: SBOM_subjects_def distinctSubjects_def split: if_splits sum.splits)
  have from_core: "\<exists>p r. expected unique ''runtime'' r p = Some runtime"
    using r by (auto simp: runtimeImageSubjects_def Let_def split: option.splits if_splits)
  note facts = distinct_loop_facts [of "[]" "requested @ runtime", folded subjects]
  have inj: "x = y" if "x \<in> set (requested @ runtime)" "y \<in> set (requested @ runtime)" "subject_key x = subject_key y" for x y
  proof (rule subject_key_inject [OF that(3)], intro ballI)
    fix z f assume "z \<in> {x, y}" "f \<in> {sub_Reference z, sub_Digest z, sub_Platform z, sub_Role z, sub_Service z}"
    moreover from this have "z \<in> set requested \<or> (\<exists>p r. z \<in> set (the (expected unique ''runtime'' r p)))"
      using that from_core by (metis UnE insert_iff option.sel set_append singletonD)
    ultimately show "CHR ''|'' \<notin> set f" using clean by blast
  qed
  have sub: "set subjects \<subseteq> set (requested @ runtime)" using facts distinct_loop_subset [of "[]" "requested @ runtime"] subjects by simp
  have "set (requested @ runtime) \<subseteq> set subjects"
  proof
    fix x assume x: "x \<in> set (requested @ runtime)"
    then obtain y where "y \<in> set subjects" "subject_key y = subject_key x" using facts by (metis Diff_empty empty_set image_iff)
    then show "x \<in> set subjects" using inj x sub by (metis subsetD)
  qed
  then show ?thesis using r facts sub by (auto simp: distinct_map)
qed

text \<open>The comment says a subject is dropped when it is identical in every field; the key only joins them.\<close>

theorem subjects_conflated:
  "\<exists>x y. x \<noteq> y \<and> distinctSubjects [[x], [y]] = [x]"
  by (intro exI [of _ "\<lparr>sub_Reference = [], sub_Digest = [], sub_Platform = [], sub_Role = ''a'', sub_Service = ''b|c''\<rparr>"]
      exI [of _ "\<lparr>sub_Reference = [], sub_Digest = [], sub_Platform = [], sub_Role = ''a|b'', sub_Service = ''c''\<rparr>"])
    (simp add: distinctSubjects_def subject_key_def)

section \<open>A sample lock\<close>

definition sample_lock :: bootstrapImageLock where
  "sample_lock = \<lparr>lock_Base = \<lparr>base_Image = ''alpine'', base_Version = ''3.22.1'', base_Digest = ''sha256:'' @ replicate 64 (CHR ''0'')\<rparr>,
     lock_Packages = \<lparr>Repositories = [''https://host/alpine/v3.22/main''], Pinned = [\<lparr>pkg_Name = ''bash'', pkg_Version = ''5.2-r0''\<rparr>,
       \<lparr>pkg_Name = ''psql'', pkg_Version = ''17''\<rparr>]\<rparr>,
     Migrate = \<lparr>migrate_Version = ''v4.18.3'', Toolchain = ''golang:1.26.0-alpine3.22@sha256:'' @ replicate 64 (CHR ''f'')\<rparr>, LockDigest = []\<rparr>"

lemma sample_lock_valid: "validate_lock sample_lock = None"
  by code_simp

theorem bootstrap_lock_pins_witness: "apk_constraints ''bash=5.2-r0 psql=17'' = [(''bash'', ''5.2-r0''), (''psql'', ''17'')]"
proof -
  have "parseBootstrapImageLock sample_platform (\<lambda>_. Some sample_lock) (\<lambda>_. Some []) [] =
      Inr (sample_lock\<lparr>LockDigest := ''sha256:'' @ EncodeToString (sha256 sample_platform [])\<rparr>)"
    using sample_lock_valid by (simp add: parseBootstrapImageLock_def)
  from bootstrap_lock_pins [OF this] show ?thesis by (simp add: sample_lock_def Specs_def)
qed

end
