(* ===== verification/BuildImage.thy ===== *)
theory BuildImage
  imports SchemaPlan BootstrapLock Deployment ControlPlane
begin

text \<open>
  The build half of \<open>builder.go\<close>: what the bootstrap image is rendered from, and how its tree is staged into a
  build context. The disk is explicit: a list of paths with their nodes, a path being the list of its
  elements. Every operation may fail, and a removal or a change of modes that fails may have done a part of
  its work. The template renderer, the copying of one file, the JSON encoder and the inventory of the recipe are
  core's or the library's, and parameters; a source may change while it is copied.
\<close>

definition bootstrapDirectory :: string where "bootstrapDirectory = ''bootstrap''"
definition stagedChecksumFile :: string where "stagedChecksumFile = ''sources.sha256''"
definition bootstrapMarkerFile :: string where "bootstrapMarkerFile = ''.gitignore''"
definition bootstrapMarker :: string where "bootstrapMarker = ''# codefly-generated postgres bootstrap''"
definition runtimeAccessFile :: string where "runtimeAccessFile = ''runtime-access.sql''"
definition bootstrapIgnoreFile :: string where "bootstrapIgnoreFile = ''dockerignore''"

section \<open>What the image is rendered from\<close>

record BootstrapLogin =
  bl_Role :: string
  PasswordVariable :: string
  bl_ReadWriteRoles :: "string list"
  DefaultRole :: string

definition bootstrapLogins :: "runtimeLogin list \<Rightarrow> BootstrapLogin list" where
  "bootstrapLogins logins =
     map (\<lambda>l. \<lparr>bl_Role = login_role l, PasswordVariable = login_passwordKey l, bl_ReadWriteRoles = login_readWriteRoles l,
       DefaultRole = defaultRuntimeReadWriteRole (login_readWriteRoles l)\<rparr>) logins"

record BootstrapLineage =
  bn_Label :: string
  bn_Stage :: string
  bn_Ledger :: string

definition bootstrapLineages :: "schemaPlan \<Rightarrow> BootstrapLineage list" where
  "bootstrapLineages plan =
     map (\<lambda>l. \<lparr>bn_Label = label (sl_source l), bn_Stage = sl_stage l, bn_Ledger = trackingTable (sl_source l)\<rparr>) (sp_lineages plan)"

record BootstrapExtension =
  be_Name :: string
  be_Required :: bool

definition bootstrapExtensions :: "schemaPlan \<Rightarrow> BootstrapExtension list" where
  "bootstrapExtensions plan = map (\<lambda>e. \<lparr>be_Name = request_name e, be_Required = request_required e\<rparr>) (sp_extensions plan)"

record DockerTemplating =
  MigrationConnectionEnvironment :: string
  RuntimeAccessLockID :: string
  ReadinessTimeoutSeconds :: int
  dt_ReadOnlyRole :: string
  dt_ReadWriteRole :: string
  dt_Schemas :: "string list"
  dt_ReadWriteRoles :: "string list"
  DefaultReadWriteRole :: string
  Logins :: "BootstrapLogin list"
  dt_Extensions :: "BootstrapExtension list"
  Lineages :: "BootstrapLineage list"

section \<open>The disk\<close>

type_synonym path = "string list"

datatype disk_node = File string nat | Directory nat

record disk =
  nodes :: "(path \<times> disk_node) list"
  operations :: nat

definition look :: "disk \<Rightarrow> path \<Rightarrow> disk_node option" where "look d = map_of (nodes d)"

datatype build_error =
    FsFailed string
  | NotGenerated path
  | SourceChanged string
  | CopyFailed string
  | TemplatesFailed
  | EncodeFailed
  | BuildAccess access_error
  | IdentityUnsupported
  | OutputRequired
  | NotDockerRequest
  | BadImageName string
  | BuildSchema schema_error
  | BuildTimeouts timeouts_error
  | BuildPlan plan_error
  | InventoryFailed

text \<open>What rendering yields: directory, name and content of each file, and whether all of it was rendered.\<close>

type_synonym rendered = "(path \<times> string \<times> string) list \<times> bool"

text \<open>
  The file system and the templates, as parameters: which operation fails and how far one that fails had
  come, the name \<open>os.MkdirTemp\<close> draws, the order in which a map of two is ranged over, the modes that
  the umask leaves, what copying a file reads, and what is rendered and encoded.
\<close>

record build_env =
  fails :: "nat \<Rightarrow> string option"
  partly_done :: "nat \<Rightarrow> path \<Rightarrow> bool"
  random_name :: "nat \<Rightarrow> string"
  map_reversed :: "nat \<Rightarrow> bool"
  new_file_mode :: nat
  new_directory_mode :: nat
  copied :: "nat \<Rightarrow> string \<Rightarrow> string option"
  bootstrap_templates :: "DockerTemplating \<Rightarrow> rendered"
  runtime_templates :: "DockerTemplating \<Rightarrow> rendered"
  builder_templates :: "DockerTemplating \<Rightarrow> rendered"
  MarshalIndent :: "Plan \<Rightarrow> string option"
  go_mod :: string
  go_sum :: string

text \<open>One operation: it fails, or it changes the disk.\<close>

definition tick :: "disk \<Rightarrow> disk" where "tick d = d\<lparr>operations := operations d + 1\<rparr>"

definition disk_op :: "build_env \<Rightarrow> (disk \<Rightarrow> disk) \<Rightarrow> (build_error, disk) action" where
  "disk_op E f d = (case fails E (operations d) of Some m \<Rightarrow> (Some (FsFailed m), tick d) | None \<Rightarrow> (None, f (tick d)))"

definition put_node :: "path \<Rightarrow> disk_node \<Rightarrow> disk \<Rightarrow> disk" where
  "put_node p n d = d\<lparr>nodes := (p, n) # filter (\<lambda>(q, _). q \<noteq> p) (nodes d)\<rparr>"

definition is_directory :: "disk \<Rightarrow> path \<Rightarrow> bool" where
  "is_directory d p = (case look d p of Some (Directory _) \<Rightarrow> True | _ \<Rightarrow> False)"

text \<open>\<open>os.MkdirAll\<close> climbs to the first ancestor that exists and makes the directories below it.\<close>

definition missing :: "disk \<Rightarrow> path \<Rightarrow> path list" where
  "missing d p = takeWhile (\<lambda>q. look d q = None) (rev (prefixes p))"

definition blocked :: "disk \<Rightarrow> path \<Rightarrow> bool" where
  "blocked d p =
     (case dropWhile (\<lambda>q. look d q = None) (rev (prefixes p)) of [] \<Rightarrow> False | q # _ \<Rightarrow> \<not> is_directory d q)"

definition MkdirAll :: "build_env \<Rightarrow> path \<Rightarrow> (build_error, disk) action" where
  "MkdirAll E p d =
     (if blocked d p then (Some (FsFailed ''not a directory''), tick d)
      else disk_op E (\<lambda>d. foldl (\<lambda>d q. put_node q (Directory (new_directory_mode E)) d) d (missing d p)) d)"

text \<open>\<open>os.WriteFile\<close>: a file that exists keeps its mode.\<close>

definition WriteFile :: "build_env \<Rightarrow> path \<Rightarrow> string \<Rightarrow> (build_error, disk) action" where
  "WriteFile E p c d =
     (if is_directory d p \<or> \<not> is_directory d (butlast p) then (Some (FsFailed ''cannot open''), tick d)
      else disk_op E (put_node p (File c (case look d p of Some (File _ m) \<Rightarrow> m | _ \<Rightarrow> new_file_mode E))) d)"

definition beneath :: "path \<Rightarrow> path \<Rightarrow> bool" where "beneath p q = prefix p q"

definition RemoveAll :: "build_env \<Rightarrow> path \<Rightarrow> (build_error, disk) action" where
  "RemoveAll E p d =
     (case fails E (operations d) of
        Some m \<Rightarrow> (Some (FsFailed m), (tick d)\<lparr>nodes := filter (\<lambda>(q, _). \<not> (beneath p q \<and> partly_done E (operations d) q)) (nodes d)\<rparr>)
      | None \<Rightarrow> (None, (tick d)\<lparr>nodes := filter (\<lambda>(q, _). \<not> beneath p q) (nodes d)\<rparr>))"

definition Rename :: "build_env \<Rightarrow> path \<Rightarrow> path \<Rightarrow> (build_error, disk) action" where
  "Rename E old new d =
     (if list_ex (\<lambda>(q, _). beneath new q) (nodes d) then (Some (FsFailed ''exists''), tick d)
      else disk_op E (\<lambda>d. d\<lparr>nodes := map (\<lambda>(q, n). (if beneath old q then new @ drop (length old) q else q, n)) (nodes d)\<rparr>) d)"

definition fixed_mode :: "disk_node \<Rightarrow> disk_node" where
  "fixed_mode n = (case n of File c _ \<Rightarrow> File c 0x1A4 | Directory _ \<Rightarrow> Directory 0x1ED)"

text \<open>\<open>filepath.WalkDir\<close> with \<open>os.Chmod\<close> on every entry: 0644 for a file, 0755 for a directory.\<close>

definition normalizeStagedModes :: "build_env \<Rightarrow> path \<Rightarrow> (build_error, disk) action" where
  "normalizeStagedModes E root d =
     (case fails E (operations d) of
        Some m \<Rightarrow> (Some (FsFailed m), (tick d)\<lparr>nodes := map (\<lambda>(q, n). (q, if beneath root q \<and> partly_done E (operations d) q then fixed_mode n else n)) (nodes d)\<rparr>)
      | None \<Rightarrow> (None, (tick d)\<lparr>nodes := map (\<lambda>(q, n). (q, if beneath root q then fixed_mode n else n)) (nodes d)\<rparr>))"

definition Chmod :: "build_env \<Rightarrow> path \<Rightarrow> (build_error, disk) action" where
  "Chmod E p d =
     (case look d p of
        None \<Rightarrow> (Some (FsFailed ''no such file''), tick d)
      | Some n \<Rightarrow> disk_op E (put_node p (fixed_mode n)) d)"

text \<open>Rendering writes the files in order, with the directories above them; a rendering that fails has written some.\<close>

definition render_into :: "build_env \<Rightarrow> path \<Rightarrow> rendered \<Rightarrow> (build_error, disk) action" where
  "render_into E root rendered =
     andThen (each (\<lambda>(dir, name, c). andThen (MkdirAll E (root @ dir)) (WriteFile E (root @ dir @ [name]) c)) (fst rendered))
       (if snd rendered then done_ok else fail_with TemplatesFailed)"

section \<open>Staging\<close>

definition assertBootstrapDirectoryIsAgentOwned :: "build_env \<Rightarrow> path \<Rightarrow> (build_error, disk) action" where
  "assertBootstrapDirectoryIsAgentOwned E root d =
     (case fails E (operations d) of
        Some m \<Rightarrow> (Some (FsFailed m), tick d)
      | None \<Rightarrow>
          if look d root = None then (None, tick d)
          else (case look d (root @ [bootstrapMarkerFile]) of
                  Some (File marker _) \<Rightarrow> if prefix bootstrapMarker marker then (None, tick d) else (Some (NotGenerated root), tick d)
                | _ \<Rightarrow> (Some (NotGenerated root), tick d)))"

definition stageBootstrapMigrate :: "build_env \<Rightarrow> path \<Rightarrow> (build_error, disk) action" where
  "stageBootstrapMigrate E root =
     andThen (MkdirAll E (root @ [''migrate'']))
       (\<lambda>d. each (\<lambda>(name, data). WriteFile E (root @ [''migrate'', name]) data)
          ((if map_reversed E (operations d) then rev else id) [(''go.mod'', go_mod E), (''go.sum'', go_sum E)]) d)"

definition staged_digest :: "platform \<Rightarrow> disk \<Rightarrow> path \<Rightarrow> string option" where
  "staged_digest P d p = (case look d p of Some (File c _) \<Rightarrow> Some (''sha256:'' @ EncodeToString (sha256 P c)) | _ \<Rightarrow> None)"

definition stage_file :: "platform \<Rightarrow> build_env \<Rightarrow> string \<Rightarrow> path \<Rightarrow> schemaFile \<Rightarrow> (build_error, disk) action" where
  "stage_file P E dir destination f =
     andThen (\<lambda>d. case copied E (operations d) (path_Join [dir, sf_name f]) of
         None \<Rightarrow> (Some (CopyFailed (sf_name f)), tick d)
       | Some c \<Rightarrow> WriteFile E (destination @ [sf_name f]) c d)
     (\<lambda>d. case staged_digest P d (destination @ [sf_name f]) of
         None \<Rightarrow> (Some (FsFailed (sf_name f)), d)
       | Some digest \<Rightarrow> if digest = sf_digest f then (None, d) else (Some (SourceChanged (sf_name f)), d))"

definition stageLineage :: "platform \<Rightarrow> build_env \<Rightarrow> path \<Rightarrow> schemaLineage \<Rightarrow> (build_error, disk) action" where
  "stageLineage P E staging l =
     (let destination = staging @ [''sources'', sl_stage l] in
      andThen (MkdirAll E destination) (each (stage_file P E (src_dir (sl_source l)) destination) (sl_files l)))"

definition stage_tree :: "platform \<Rightarrow> build_env \<Rightarrow> DockerTemplating \<Rightarrow> schemaPlan \<Rightarrow> path \<Rightarrow> (build_error, disk) action" where
  "stage_tree P E docker plan staging =
     andThen (render_into E staging (bootstrap_templates E docker))
    (andThen (stageBootstrapMigrate E staging)
    (andThen (each (stageLineage P E staging) (sp_lineages plan))
    (andThen (case MarshalIndent E (artifact P plan) of
                None \<Rightarrow> fail_with EncodeFailed
              | Some json \<Rightarrow> WriteFile E (staging @ [''plan.json'']) (json @ [LF]))
    (andThen (WriteFile E (staging @ [stagedChecksumFile]) (stagedChecksums plan))
       (normalizeStagedModes E staging)))))"

definition swap_in :: "build_env \<Rightarrow> DockerTemplating \<Rightarrow> path \<Rightarrow> path \<Rightarrow> (build_error, disk) action" where
  "swap_in E docker contextRoot staging =
     andThen (RemoveAll E (contextRoot @ [bootstrapDirectory]))
    (andThen (Rename E staging (contextRoot @ [bootstrapDirectory]))
    (andThen (render_into E contextRoot (runtime_templates E docker))
       (Chmod E (contextRoot @ [runtimeAccessFile]))))"

text \<open>\<open>os.MkdirTemp\<close> makes a directory that did not exist; the deferred removal ignores its error.\<close>

definition staging_path :: "build_env \<Rightarrow> path \<Rightarrow> disk \<Rightarrow> path" where
  "staging_path E contextRoot d = contextRoot @ [''.bootstrap-staging-'' @ random_name E (operations d)]"

definition MkdirTemp :: "build_env \<Rightarrow> path \<Rightarrow> (build_error, disk) action" where
  "MkdirTemp E p d =
     (if list_ex (\<lambda>(q, _). beneath p q) (nodes d) then (Some (FsFailed ''exists''), tick d)
      else if \<not> is_directory d (butlast p) then (Some (FsFailed ''no such directory''), tick d)
      else disk_op E (put_node p (Directory 0x1C0)) d)"

definition with_staging :: "platform \<Rightarrow> build_env \<Rightarrow> DockerTemplating \<Rightarrow> schemaPlan \<Rightarrow> path \<Rightarrow> path \<Rightarrow> (build_error, disk) action" where
  "with_staging P E docker plan contextRoot staging =
     andThen (MkdirTemp E staging)
       (\<lambda>d. case andThen (stage_tree P E docker plan staging) (swap_in E docker contextRoot staging) d of
          (r, d) \<Rightarrow> (r, snd (RemoveAll E staging d)))"

definition stageBootstrapContext :: "platform \<Rightarrow> build_env \<Rightarrow> DockerTemplating \<Rightarrow> schemaPlan \<Rightarrow> path \<Rightarrow> (build_error, disk) action" where
  "stageBootstrapContext P E docker plan contextRoot =
     andThen (assertBootstrapDirectoryIsAgentOwned E (contextRoot @ [bootstrapDirectory]))
       (\<lambda>d. with_staging P E docker plan contextRoot (staging_path E contextRoot d) d)"

section \<open>What the operations do to the disk\<close>

named_theorems look_simps

lemma look_tick [look_simps, simp]: "look (tick d) = look d"
  by (simp add: look_def tick_def)

lemma operations_simps [simp]: "operations (put_node p n d) = operations d" "operations (tick d) = Suc (operations d)"
  by (simp_all add: put_node_def tick_def)

lemma map_of_filter_key: "map_of (filter (\<lambda>(q, _). R q) xs) = (\<lambda>q. if R q then map_of xs q else None)"
  by (induction xs) (auto simp: fun_eq_iff)

lemma look_put [look_simps, simp]: "look (put_node p n d) = (look d)(p \<mapsto> n)"
  by (auto simp: look_def put_node_def map_of_filter_key fun_eq_iff)

lemma look_filter: "look (e\<lparr>nodes := filter (\<lambda>(q, _). R q) (nodes d)\<rparr>) = (\<lambda>q. if R q then look d q else None)"
  by (auto simp: look_def map_of_filter_key fun_eq_iff)

lemma map_of_map_node: "map_of (map (\<lambda>(q, n). (q, g q n)) xs) = (\<lambda>q. map_option (g q) (map_of xs q))"
  by (induction xs) (auto simp: fun_eq_iff)

lemma look_map: "look (e\<lparr>nodes := map (\<lambda>(q, n). (q, g q n)) (nodes d)\<rparr>) = (\<lambda>q. map_option (g q) (look d q))"
  by (simp add: look_def map_of_map_node)

lemma map_of_move:
  assumes "\<And>q n. (q, n) \<in> set xs \<Longrightarrow> \<not> prefix new q" and "\<not> prefix new old"
  shows "map_of (map (\<lambda>(q, n). (if prefix old q then new @ drop (length old) q else q, n)) xs) =
    (\<lambda>q. if prefix new q then map_of xs (old @ drop (length new) q) else if prefix old q then None else map_of xs q)"
  using assms(1)
proof (induction xs)
  case Nil
  then show ?case by (auto simp: fun_eq_iff)
next
  case (Cons x xs)
  obtain p n where x: "x = (p, n)" by (cases x)
  have p: "\<not> prefix new p" using Cons.prems [of p n] x by simp
  have IH: "map_of (map (\<lambda>(q, n). (if prefix old q then new @ drop (length old) q else q, n)) xs) =
    (\<lambda>q. if prefix new q then map_of xs (old @ drop (length new) q) else if prefix old q then None else map_of xs q)"
    by (rule Cons.IH) (use Cons.prems in auto)
  show ?case
  proof (rule ext)
    fix q
    show "map_of (map (\<lambda>(q, n). (if prefix old q then new @ drop (length old) q else q, n)) (x # xs)) q =
      (if prefix new q then map_of (x # xs) (old @ drop (length new) q) else if prefix old q then None else map_of (x # xs) q)"
    proof (cases "prefix new q")
      case True
      then obtain z where q: "q = new @ z" by (auto simp: prefix_def)
      have "new @ z = (if prefix old p then new @ drop (length old) p else p) \<longleftrightarrow> old @ z = p"
        using p by (auto simp: prefix_def)
      then show ?thesis using True q x IH by (simp split del: if_split cong: if_cong)
    next
      case False
      then have "q = (if prefix old p then new @ drop (length old) p else p) \<longleftrightarrow> q = p \<and> \<not> prefix old q" by auto
      then show ?thesis using False x IH by (cases "prefix old q") (simp_all split del: if_split cong: if_cong)
    qed
  qed
qed

text \<open>What happens in a directory stays there: nothing outside it changes, and it remains a directory.\<close>

definition inside :: "path \<Rightarrow> disk \<Rightarrow> disk \<Rightarrow> bool" where
  "inside S d d' \<longleftrightarrow> (is_directory d S \<longrightarrow> is_directory d' S \<and> (\<forall>q. \<not> prefix S q \<longrightarrow> look d' q = look d q))"

lemma reflp_inside: "reflp (inside S)"
  by (auto simp: inside_def intro: reflpI)

lemma transp_inside: "transp (inside S)"
  by (auto simp: inside_def intro!: transpI)

lemma inside_tick: "inside S d (tick d)"
  by (simp add: inside_def is_directory_def)

lemma keeps_disk_op:
  assumes "\<And>d. R d (tick d)" and "\<And>d. R d (f (tick d))"
  shows "keeps R (disk_op E f)"
  using assms by (auto simp: keeps_def disk_op_def split: option.splits)

lemma look_makes: "look (foldl (\<lambda>d q. put_node q n d) d ps) q = (if q \<in> set ps then Some n else look d q)"
  by (induction ps arbitrary: d) auto

lemma missing_inside:
  assumes "is_directory d S" and "prefix S p" and "q \<in> set (missing d p)"
  shows "prefix S q \<and> q \<noteq> S \<and> look d q = None"
proof -
  obtain z where p: "p = S @ z" using assms(2) by (auto simp: prefix_def)
  obtain X where X: "prefixes S = X @ [S]" by (cases S rule: rev_cases) auto
  have S: "look d S \<noteq> None" using assms(1) by (auto simp: is_directory_def split: option.splits)
  have "missing d p = takeWhile (\<lambda>q. look d q = None) (rev (map ((@) S) (tl (prefixes z))) @ S # rev X)"
    by (simp add: missing_def p prefixes_append X)
  then have "set (missing d p) \<subseteq> (@) S ` set (tl (prefixes z))"
    using S by (auto simp: takeWhile_append split: if_splits dest: set_takeWhileD)
  then obtain z' where "q = S @ z'" using assms(3) by auto
  moreover have "look d q = None" using assms(3) by (auto simp: missing_def dest: set_takeWhileD)
  ultimately show ?thesis using S by auto
qed

lemma keeps_MkdirAll: "prefix S p \<Longrightarrow> keeps (inside S) (MkdirAll E p)"
proof -
  assume S: "prefix S p"
  have "inside S d (foldl (\<lambda>d q. put_node q n d) (tick d) (missing (tick d) p))" for d n
    using missing_inside [OF _ S, of "tick d"] by (auto simp: inside_def is_directory_def look_makes split: if_splits)
  then show ?thesis
    unfolding keeps_def MkdirAll_def disk_op_def by (auto simp: inside_tick split: option.splits)
qed

lemma keeps_WriteFile: "prefix S p \<Longrightarrow> keeps (inside S) (WriteFile E p c)"
proof -
  assume S: "prefix S p"
  have "inside S d (put_node p n (tick d))" if "\<not> is_directory d p" for d n
    using that S by (auto simp: inside_def is_directory_def)
  then show ?thesis
    unfolding keeps_def WriteFile_def disk_op_def by (auto simp: inside_tick split: option.splits)
qed

lemma keeps_render: "prefix S root \<Longrightarrow> keeps (inside S) (render_into E root rendered)"
  unfolding render_into_def
  by (intro keeps_andThen keeps_each reflp_inside transp_inside)
    (auto intro!: keeps_andThen keeps_MkdirAll keeps_WriteFile keeps_done keeps_fail transp_inside reflp_inside intro: prefix_prefix)

lemma is_directory_iff: "is_directory d p \<longleftrightarrow> (\<exists>m. look d p = Some (Directory m))"
  by (auto simp: is_directory_def split: option.splits disk_node.splits)

lemma fixed_mode_simps [simp]: "fixed_mode (File c m) = File c 0x1A4" "fixed_mode (Directory m) = Directory 0x1ED"
  by (simp_all add: fixed_mode_def)

lemma inside_modes:
  "inside S d (e\<lparr>nodes := map (\<lambda>(q, n). (q, if beneath S q \<and> R q then fixed_mode n else n)) (nodes d)\<rparr>)"
  by (cases "R S") (auto simp: inside_def is_directory_iff look_map beneath_def option.map_ident)

lemma keeps_modes: "keeps (inside S) (normalizeStagedModes E S)"
  using inside_modes [where R = "\<lambda>_. True"] inside_modes
  by (auto simp: keeps_def normalizeStagedModes_def split: option.splits)

lemma keeps_stage_file: "prefix S destination \<Longrightarrow> keeps (inside S) (stage_file P E dir destination f)"
proof -
  assume S: "prefix S destination"
  have "keeps (inside S) (\<lambda>d. case copied E (operations d) (path_Join [dir, sf_name f]) of
         None \<Rightarrow> (Some (CopyFailed (sf_name f)), tick d) | Some c \<Rightarrow> WriteFile E (destination @ [sf_name f]) c d)"
    using keeps_WriteFile [OF prefix_prefix [OF S]] by (auto simp: keeps_def inside_tick split: option.splits)
  moreover have "keeps (inside S) (\<lambda>d. case staged_digest P d (destination @ [sf_name f]) of
         None \<Rightarrow> (Some (FsFailed (sf_name f)), d)
       | Some digest \<Rightarrow> if digest = sf_digest f then (None, d) else (Some (SourceChanged (sf_name f)), d))"
    using reflpD [OF reflp_inside] by (auto simp: keeps_def split: option.splits)
  ultimately show ?thesis unfolding stage_file_def by (intro keeps_andThen transp_inside)
qed

lemma keeps_stageBootstrapMigrate: "keeps (inside S) (stageBootstrapMigrate E S)"
proof -
  have "keeps (inside S) (each (\<lambda>(name, data). WriteFile E (S @ [''migrate'', name]) data) files)" for files
    by (intro keeps_each reflp_inside transp_inside) (auto intro!: keeps_WriteFile)
  then have "keeps (inside S) (\<lambda>d. each (\<lambda>(name, data). WriteFile E (S @ [''migrate'', name]) data) (files d) d)" for files
    by (simp add: keeps_def)
  then show ?thesis unfolding stageBootstrapMigrate_def by (intro keeps_andThen transp_inside keeps_MkdirAll) simp
qed

lemma keeps_stage_tree: "keeps (inside S) (stage_tree P E docker plan S)"
  unfolding stage_tree_def stageLineage_def Let_def
  by (intro keeps_andThen keeps_each reflp_inside transp_inside keeps_render keeps_modes keeps_WriteFile keeps_stage_file keeps_MkdirAll keeps_stageBootstrapMigrate)
    (auto intro!: keeps_WriteFile keeps_fail reflp_inside split: option.splits)

section \<open>Nothing foreign is lost\<close>

definition owned :: "disk \<Rightarrow> path \<Rightarrow> bool" where
  "owned d root \<longleftrightarrow>
     look d root = None \<or> (\<exists>marker m. look d (root @ [bootstrapMarkerFile]) = Some (File marker m) \<and> prefix bootstrapMarker marker)"

lemma assert_owned:
  "assertBootstrapDirectoryIsAgentOwned E root d = (r, d') \<Longrightarrow> d' = tick d \<and> (r = None \<longrightarrow> owned d root)"
  by (auto simp: assertBootstrapDirectoryIsAgentOwned_def owned_def split: option.splits if_splits disk_node.splits)

lemma look_RemoveAll:
  "look (snd (RemoveAll E p d)) q = (if prefix p q \<and> (fails E (operations d) = None \<or> partly_done E (operations d) q) then None else look d q)"
  by (auto simp: RemoveAll_def look_filter beneath_def split: option.splits)

lemma look_none_beneath: "\<not> list_ex (\<lambda>(q, _). beneath p q) (nodes d) \<Longrightarrow> prefix p q \<Longrightarrow> look d q = None"
  by (force simp: list_ex_iff beneath_def look_def map_of_eq_None_iff)

lemma MkdirTemp_cases:
  assumes "MkdirTemp E p d = (r, d')"
  shows "r = None \<and> look d' = (look d)(p \<mapsto> Directory 0x1C0) \<and> (\<forall>q. prefix p q \<longrightarrow> look d q = None) \<and> operations d' = operations d + 1 \<or>
    r \<noteq> None \<and> d' = tick d"
  using assms look_none_beneath [of p d]
  by (auto simp: MkdirTemp_def disk_op_def split: if_splits option.splits)

lemma with_staging_cases:
  assumes "with_staging P E docker plan ctx S d = (r, d')"
  obtains (unmade) "r \<noteq> None" "look d' = look d"
  | (unstaged) d2 where "r \<noteq> None" "d' = snd (RemoveAll E S d2)" "\<And>q. \<not> prefix S q \<Longrightarrow> look d2 q = look d q"
  | (complete) d1 d2 d3 where "MkdirTemp E S d = (None, d1)" "stage_tree P E docker plan S d1 = (None, d2)"
      "swap_in E docker ctx S d2 = (r, d3)" "d' = snd (RemoveAll E S d3)"
proof -
  obtain r1 d1 where d1: "MkdirTemp E S d = (r1, d1)" by (metis surj_pair)
  show thesis
  proof (cases r1)
    case (Some e)
    then show thesis using assms d1 MkdirTemp_cases [OF d1] unmade by (auto simp: with_staging_def andThen_def)
  next
    case None
    obtain r2 d2 where d2: "stage_tree P E docker plan S d1 = (r2, d2)" by (metis surj_pair)
    have dir: "is_directory d1 S" and outside: "\<And>q. \<not> prefix S q \<Longrightarrow> look d1 q = look d q"
      using MkdirTemp_cases [OF d1] None by (auto simp: is_directory_iff)
    have kept: "\<And>q. \<not> prefix S q \<Longrightarrow> look d2 q = look d q"
      using keepsD [OF keeps_stage_tree d2] dir outside by (simp add: inside_def)
    show thesis
    proof (cases r2)
      case (Some e)
      then show thesis using assms d1 d2 None kept unstaged by (auto simp: with_staging_def andThen_def)
    next
      case r2: None
      obtain r3 d3 where "swap_in E docker ctx S d2 = (r3, d3)" by (metis surj_pair)
      then show thesis using assms d1 d2 None r2 complete by (auto simp: with_staging_def andThen_def)
    qed
  qed
qed

section \<open>The staged tree is the plan\<close>

definition content :: "disk \<Rightarrow> path \<Rightarrow> string option" where
  "content d p = (case look d p of Some (File c _) \<Rightarrow> Some c | _ \<Rightarrow> None)"

text \<open>Files outside a set of paths keep their content.\<close>

definition rewriting :: "path set \<Rightarrow> disk \<Rightarrow> disk \<Rightarrow> bool" where
  "rewriting W d d' \<longleftrightarrow> (\<forall>p c. p \<notin> W \<longrightarrow> content d p = Some c \<longrightarrow> content d' p = Some c)"

lemma reflp_rewriting: "reflp (rewriting W)"
  by (auto simp: rewriting_def intro: reflpI)

lemma transp_rewriting: "transp (rewriting W)"
  by (auto simp: rewriting_def intro!: transpI)

lemma rewrites_mono: "rewriting V d d' \<Longrightarrow> V \<subseteq> W \<Longrightarrow> rewriting W d d'"
  by (auto simp: rewriting_def)

lemma keeps_rewriting_mono: "keeps (rewriting V) f \<Longrightarrow> V \<subseteq> W \<Longrightarrow> keeps (rewriting W) f"
  unfolding keeps_def using rewrites_mono by blast

lemma content_tick [simp]: "content (tick d) = content d"
  by (simp add: content_def fun_eq_iff)

lemma content_put [simp]: "content (put_node p n d) q = (if q = p then (case n of File c _ \<Rightarrow> Some c | _ \<Rightarrow> None) else content d q)"
  by (auto simp: content_def split: disk_node.splits)

lemma rewrites_MkdirAll: "keeps (rewriting W) (MkdirAll E p)"
proof -
  have "rewriting W d (foldl (\<lambda>d q. put_node q (Directory m) d) (tick d) (missing (tick d) p))" for d m
    by (auto simp: rewriting_def content_def look_makes missing_def split: option.splits if_splits dest!: set_takeWhileD)
  then show ?thesis unfolding keeps_def MkdirAll_def disk_op_def by (auto simp: rewriting_def split: option.splits)
qed

lemma rewrites_WriteFile: "keeps (rewriting {p}) (WriteFile E p c)"
  unfolding keeps_def WriteFile_def disk_op_def by (auto simp: rewriting_def split: option.splits)

lemma WriteFile_content: "WriteFile E p c d = (None, d') \<Longrightarrow> content d' p = Some c"
  by (auto simp: WriteFile_def disk_op_def split: if_splits option.splits disk_node.splits)

lemma content_modes: "content (e\<lparr>nodes := map (\<lambda>(q, n). (q, if R q then fixed_mode n else n)) (nodes d)\<rparr>) p = content d p"
  by (auto simp: content_def look_map split: option.splits disk_node.splits)

lemma rewrites_modes: "keeps (rewriting W) (normalizeStagedModes E S)"
  by (auto simp: keeps_def normalizeStagedModes_def rewriting_def content_modes split: option.splits)

lemma modes_fixed:
  assumes "normalizeStagedModes E S d = (None, d')" and "prefix S q" and "look d' q = Some n"
  shows "fixed_mode n = n"
proof -
  have "fixed_mode (fixed_mode x) = fixed_mode x" for x by (cases x) simp_all
  then show ?thesis using assms by (auto simp: normalizeStagedModes_def look_map beneath_def split: option.splits)
qed

text \<open>Actions over a list that establish something each and leave what the others established.\<close>

lemma each_establishes:
  assumes "each f xs s = (None, t)" and "distinct xs"
    and "\<And>x s t. x \<in> set xs \<Longrightarrow> f x s = (None, t) \<Longrightarrow> Q x t"
    and "\<And>x y s t. x \<in> set xs \<Longrightarrow> y \<in> set xs \<Longrightarrow> x \<noteq> y \<Longrightarrow> Q x s \<Longrightarrow> f y s = (None, t) \<Longrightarrow> Q x t"
  shows "\<forall>x \<in> set xs. Q x t"
  using assms
proof (induction xs arbitrary: t rule: rev_induct)
  case (snoc x xs)
  obtain u where u: "each f xs s = (None, u)" and x: "f x u = (None, t)"
    using snoc.prems(1) by (auto simp: each_append andThen_None done_ok_def andThen_def split: prod.splits option.splits)
  have "\<forall>y \<in> set xs. Q y u"
  proof (rule snoc.IH [OF u])
    show "distinct xs" using snoc.prems(2) by simp
    show "Q y t" if "y \<in> set xs" "f y s = (None, t)" for y s t using snoc.prems(3) [of y s t] that by simp
    show "Q y t" if "y \<in> set xs" "z \<in> set xs" "y \<noteq> z" "Q y s" "f z s = (None, t)" for y z s t
      using snoc.prems(4) [of y z s t] that by simp
  qed
  moreover have "x \<notin> set xs" using snoc.prems(2) by simp
  ultimately have "\<forall>y \<in> set xs. Q y t" using snoc.prems(4) [OF _ _ _ _ x] by (metis UnCI list.set_intros(1) set_append)
  moreover have "Q x t" using snoc.prems(3) x by simp
  ultimately show ?case by simp
qed simp

definition carries :: "platform \<Rightarrow> path \<Rightarrow> schemaFile \<Rightarrow> disk \<Rightarrow> bool" where
  "carries P destination f d \<longleftrightarrow>
     (\<exists>c. content d (destination @ [sf_name f]) = Some c \<and> ''sha256:'' @ EncodeToString (sha256 P c) = sf_digest f)"

lemma carries_rewrites:
  "carries P destination f d \<Longrightarrow> rewriting W d d' \<Longrightarrow> destination @ [sf_name f] \<notin> W \<Longrightarrow> carries P destination f d'"
  by (auto simp: carries_def rewriting_def)

lemma stage_file_carries:
  assumes "stage_file P E dir destination f d = (None, d')"
  shows "carries P destination f d'" and "rewriting {destination @ [sf_name f]} d d'"
  using assms WriteFile_content keepsD [OF rewrites_WriteFile]
  by (auto simp: stage_file_def andThen_None carries_def staged_digest_def content_def split: option.splits disk_node.splits if_splits)

lemma stageLineage_carries:
  assumes run: "stageLineage P E S l d = (None, d')" and "distinct (map sf_name (sl_files l))"
  shows "\<forall>f \<in> set (sl_files l). carries P (S @ [''sources'', sl_stage l]) f d'"
    and "rewriting {p. prefix (S @ [''sources'', sl_stage l]) p} d d'"
proof -
  let ?D = "S @ [''sources'', sl_stage l]"
  obtain d1 where d1: "MkdirAll E ?D d = (None, d1)"
    and files: "each (stage_file P E (src_dir (sl_source l)) ?D) (sl_files l) d1 = (None, d')"
    using run by (auto simp: stageLineage_def Let_def andThen_None)
  have dist: "distinct (sl_files l)" "inj_on sf_name (set (sl_files l))" using assms(2) by (auto simp: distinct_map)
  show "\<forall>f \<in> set (sl_files l). carries P ?D f d'"
  proof (rule each_establishes [OF files dist(1)])
    fix f g s t assume fg: "f \<in> set (sl_files l)" "g \<in> set (sl_files l)" "f \<noteq> g" and Q: "carries P ?D f s"
      and g: "stage_file P E (src_dir (sl_source l)) ?D g s = (None, t)"
    have "sf_name f \<noteq> sf_name g" using fg dist(2) by (auto dest: inj_onD)
    then show "carries P ?D f t" using carries_rewrites [OF Q stage_file_carries(2) [OF g]] by simp
  qed (rule stage_file_carries(1))
  have "ensures (rewriting {p. prefix ?D p}) (stage_file P E (src_dir (sl_source l)) ?D f)" for f
    unfolding ensures_def using rewrites_mono [OF stage_file_carries(2)] by (simp add: prefix_def)
  then have "rewriting {p. prefix ?D p} d1 d'"
    using files ensures_each [OF reflp_rewriting transp_rewriting] ensuresD by metis
  then show "rewriting {p. prefix ?D p} d d'"
    using keepsD [OF rewrites_MkdirAll d1] transpD [OF transp_rewriting] by blast
qed

definition staged_ok :: "platform \<Rightarrow> build_env \<Rightarrow> schemaPlan \<Rightarrow> path \<Rightarrow> disk \<Rightarrow> bool" where
  "staged_ok P E plan root d \<longleftrightarrow>
     (\<forall>l \<in> set (sp_lineages plan). \<forall>f \<in> set (sl_files l). carries P (root @ [''sources'', sl_stage l]) f d) \<and>
     (\<exists>json. MarshalIndent E (artifact P plan) = Some json \<and> content d (root @ [''plan.json'']) = Some (json @ [LF])) \<and>
     content d (root @ [stagedChecksumFile]) = Some (stagedChecksums plan) \<and>
     (\<forall>q n. look d (root @ q) = Some n \<longrightarrow> fixed_mode n = n)"

lemma stage_tree_ok:
  assumes run: "stage_tree P E docker plan S d = (None, d')"
    and stages: "distinct (map sl_stage (sp_lineages plan))" and names: "\<forall>l \<in> set (sp_lineages plan). distinct (map sf_name (sl_files l))"
  shows "staged_ok P E plan S d'"
proof -
  obtain d1 d2 d3 d4 json where lineages: "each (stageLineage P E S) (sp_lineages plan) d1 = (None, d2)"
    and json: "MarshalIndent E (artifact P plan) = Some json" and d3: "WriteFile E (S @ [''plan.json'']) (json @ [LF]) d2 = (None, d3)"
    and d4: "WriteFile E (S @ [stagedChecksumFile]) (stagedChecksums plan) d3 = (None, d4)" and modes: "normalizeStagedModes E S d4 = (None, d')"
    using run by (auto simp: stage_tree_def andThen_None fail_with_def split: option.splits)
  have dist: "distinct (sp_lineages plan)" "inj_on sl_stage (set (sp_lineages plan))" using stages by (auto simp: distinct_map)
  let ?Q = "\<lambda>l d. \<forall>f \<in> set (sl_files l). carries P (S @ [''sources'', sl_stage l]) f d"
  have "\<forall>l \<in> set (sp_lineages plan). ?Q l d2"
  proof (rule each_establishes [OF lineages dist(1)])
    show "?Q l t" if "l \<in> set (sp_lineages plan)" "stageLineage P E S l s = (None, t)" for l s t
      using stageLineage_carries(1) [OF that(2)] names that(1) by blast
    show "?Q l t" if l: "l \<in> set (sp_lineages plan)" "k \<in> set (sp_lineages plan)" "l \<noteq> k" "?Q l s" "stageLineage P E S k s = (None, t)" for l k s t
    proof -
      have "sl_stage l \<noteq> sl_stage k" using l dist(2) by (auto dest: inj_onD)
      then show ?thesis using l(4) carries_rewrites [OF _ stageLineage_carries(2) [OF l(5)]] names l(2) by (auto simp: prefix_def)
    qed
  qed
  moreover have late: "rewriting {} d4 d'" and mid: "rewriting {S @ [stagedChecksumFile]} d3 d'"
    and all: "rewriting {S @ [''plan.json''], S @ [stagedChecksumFile]} d2 d'"
  proof -
    have steps: "rewriting {S @ [''plan.json'']} d2 d3" "rewriting {S @ [stagedChecksumFile]} d3 d4" "rewriting {} d4 d'"
      using keepsD [OF rewrites_WriteFile d3] keepsD [OF rewrites_WriteFile d4] keepsD [OF rewrites_modes modes] by auto
    then show "rewriting {} d4 d'" "rewriting {S @ [stagedChecksumFile]} d3 d'"
      "rewriting {S @ [''plan.json''], S @ [stagedChecksumFile]} d2 d'" by (simp_all add: rewriting_def)
  qed
  moreover have "content d' (S @ [''plan.json'']) = Some (json @ [LF])"
    using WriteFile_content [OF d3] mid by (simp add: rewriting_def stagedChecksumFile_def)
  moreover have "content d' (S @ [stagedChecksumFile]) = Some (stagedChecksums plan)"
    using WriteFile_content [OF d4] late by (simp add: rewriting_def)
  moreover have "fixed_mode n = n" if "look d' (S @ q) = Some n" for q n using modes_fixed [OF modes _ that] by simp
  ultimately show ?thesis
    using json carries_rewrites [OF _ all] unfolding staged_ok_def by simp
qed

text \<open>What rendering and changing a mode leave alone.\<close>

lemma same_at_render:
  assumes "render_into E root rendered d = (r, d')" and "\<forall>(dir, name, c) \<in> set (fst rendered). \<not> prefix q (root @ dir @ [name])"
  shows "look d' q = look d q"
proof -
  let ?R = "\<lambda>d d'. look d' q = look d q"
  have rt: "reflp ?R" "transp ?R" by (auto intro: reflpI transpI)
  have mk: "keeps ?R (MkdirAll E p)" if "\<not> prefix q p" for p
    unfolding keeps_def MkdirAll_def disk_op_def using that
    by (auto simp: look_makes missing_def split: option.splits dest!: set_takeWhileD)
  have wr: "keeps ?R (WriteFile E p c)" if "q \<noteq> p" for p c
    unfolding keeps_def WriteFile_def disk_op_def using that by (auto split: option.splits)
  have "keeps ?R (render_into E root rendered)"
    unfolding render_into_def
  proof (intro keeps_andThen [OF rt(2)] keeps_each [OF rt])
    fix x assume x: "x \<in> set (fst rendered)"
    obtain dir name c where xe: "x = (dir, name, c)" by (metis prod_cases3)
    have np: "\<not> prefix q (root @ dir @ [name])" using assms(2) x xe by auto
    have "\<not> prefix q (root @ dir)" using np prefix_prefix [of q "root @ dir" "[name]"] by auto
    moreover have "q \<noteq> root @ dir @ [name]" using np by auto
    ultimately have "keeps ?R (andThen (MkdirAll E (root @ dir)) (WriteFile E (root @ dir @ [name]) c))"
      by (intro keeps_andThen [OF rt(2)] mk wr)
    then show "keeps ?R (case x of (dir, name, c) \<Rightarrow> andThen (MkdirAll E (root @ dir)) (WriteFile E (root @ dir @ [name]) c))"
      by (simp add: xe)
  qed (use rt(1) in \<open>auto intro: keeps_done keeps_fail\<close>)
  from keepsD [OF this assms(1)] show ?thesis .
qed

lemma Chmod_same: "Chmod E p d = (r, d') \<Longrightarrow> q \<noteq> p \<Longrightarrow> look d' q = look d q"
  by (auto simp: Chmod_def disk_op_def split: option.splits)

lemma Rename_look:
  assumes "Rename E old new d = (None, d')" and "\<not> prefix new old"
  shows "look d' q = (if prefix new q then look d (old @ drop (length new) q) else if prefix old q then None else look d q)"
proof -
  have none: "\<not> list_ex (\<lambda>(q, _). beneath new q) (nodes d)"
    and d': "nodes d' = map (\<lambda>(q, n). (if prefix old q then new @ drop (length old) q else q, n)) (nodes d)"
    using assms(1) by (auto simp: Rename_def disk_op_def beneath_def tick_def split: if_splits option.splits)
  have "map_of (nodes d') = (\<lambda>q. if prefix new q then map_of (nodes d) (old @ drop (length new) q) else if prefix old q then None else map_of (nodes d) q)"
    unfolding d' by (rule map_of_move) (use none assms(2) in \<open>force simp: list_ex_iff beneath_def\<close>)+
  then show ?thesis by (simp add: look_def)
qed

text \<open>
  The new tree is put in its place: whatever fails, what existed outside the bootstrap directory and the staging directory is
  there afterwards as it was, the rendered files of the context apart.
\<close>

definition runtime_files :: "build_env \<Rightarrow> DockerTemplating \<Rightarrow> path \<Rightarrow> path set" where
  "runtime_files E docker ctx = insert (ctx @ [runtimeAccessFile]) ((\<lambda>(dir, name, c). ctx @ dir @ [name]) ` set (fst (runtime_templates E docker)))"

definition spares :: "path set \<Rightarrow> disk \<Rightarrow> disk \<Rightarrow> bool" where
  "spares W d d' \<longleftrightarrow> (\<forall>q n. q \<notin> W \<longrightarrow> look d q = Some n \<longrightarrow> look d' q = Some n)"

lemma reflp_spares: "reflp (spares W)"
  by (auto simp: spares_def intro: reflpI)

lemma transp_spares: "transp (spares W)"
  by (auto simp: spares_def intro!: transpI)

lemma spares_MkdirAll: "keeps (spares W) (MkdirAll E p)"
  unfolding keeps_def MkdirAll_def disk_op_def
  by (auto simp: spares_def look_makes missing_def split: option.splits dest!: set_takeWhileD)

lemma spares_WriteFile: "p \<in> W \<Longrightarrow> keeps (spares W) (WriteFile E p c)"
  unfolding keeps_def WriteFile_def disk_op_def by (auto simp: spares_def split: option.splits)

lemma spares_Chmod: "p \<in> W \<Longrightarrow> keeps (spares W) (Chmod E p)"
  unfolding keeps_def Chmod_def disk_op_def by (auto simp: spares_def split: option.splits)

lemma spares_RemoveAll: "{q. prefix p q} \<subseteq> W \<Longrightarrow> keeps (spares W) (RemoveAll E p)"
  unfolding keeps_def using look_RemoveAll by (metis (no_types, lifting) mem_Collect_eq snd_conv spares_def subsetD)

lemma Rename_failed: "Rename E old new d = (Some e, d') \<Longrightarrow> d' = tick d"
  by (auto simp: Rename_def disk_op_def split: if_splits option.splits)

lemma keeps_cases: "(\<And>d r d'. f d = (r, d') \<Longrightarrow> R d d') \<Longrightarrow> keeps R f"
  unfolding keeps_def by (metis prod.collapse)

lemma spares_Rename:
  assumes "{q. prefix old q} \<subseteq> W" and "{q. prefix new q} \<subseteq> W" and "\<not> prefix new old"
  shows "keeps (spares W) (Rename E old new)"
proof -
  have "spares W d d'" if "Rename E old new d = (r, d')" for r d d'
  proof (cases r)
    case None
    show ?thesis using Rename_look [OF that [unfolded None] assms(3)] assms(1,2) by (auto simp: spares_def)
  next
    case (Some e)
    then have "d' = tick d" using Rename_failed that by blast
    then show ?thesis by (simp add: spares_def)
  qed
  then show ?thesis by (rule keeps_cases)
qed

lemma spares_render:
  assumes "\<And>dir name c. (dir, name, c) \<in> set (fst rendered) \<Longrightarrow> root @ dir @ [name] \<in> W"
  shows "keeps (spares W) (render_into E root rendered)"
  unfolding render_into_def
  by (intro keeps_andThen [OF transp_spares] keeps_each [OF reflp_spares transp_spares])
    (use assms reflp_spares in \<open>auto intro!: keeps_andThen [OF transp_spares] spares_MkdirAll spares_WriteFile intro: keeps_done keeps_fail\<close>)

lemma swap_in_spares:
  assumes "S = ctx @ [s]" and "s \<noteq> bootstrapDirectory"
    and W: "{q. prefix (ctx @ [bootstrapDirectory]) q} \<subseteq> W" "{q. prefix S q} \<subseteq> W" "runtime_files E docker ctx \<subseteq> W"
  shows "keeps (spares W) (swap_in E docker ctx S)"
proof -
  have "\<not> prefix (ctx @ [bootstrapDirectory]) S" using assms(1,2) by (auto simp: prefix_def)
  then show ?thesis
    unfolding swap_in_def
    by (intro keeps_andThen [OF transp_spares] spares_RemoveAll spares_Rename spares_render spares_Chmod)
      (use W in \<open>force simp: runtime_files_def\<close>)+
qed

lemma swap_in_frame:
  assumes run: "swap_in E docker ctx S d = (r, d')" and S: "S = ctx @ [s]" "s \<noteq> bootstrapDirectory"
    and q: "\<not> prefix (ctx @ [bootstrapDirectory]) q" "\<not> prefix S q" "\<forall>p \<in> runtime_files E docker ctx. \<not> prefix q p"
  shows "look d' q = look d q"
proof -
  let ?R = "\<lambda>d d'. look d' q = look d q" and ?root = "ctx @ [bootstrapDirectory]"
  have trans: "transp ?R" by (auto intro: transpI)
  have apart: "\<not> prefix ?root S" using S by (auto simp: prefix_def)
  have "keeps ?R (RemoveAll E ?root)" unfolding keeps_def using look_RemoveAll q(1) by (metis snd_conv)
  moreover have "keeps ?R (Rename E S ?root)"
  proof (rule keeps_cases)
    fix d r d' assume ren: "Rename E S ?root d = (r, d')"
    show "look d' q = look d q"
      using Rename_look [OF _ apart, of E d d' q] Rename_failed [of E S ?root d] ren q(1,2) by (cases r) auto
  qed
  moreover have "keeps ?R (render_into E ctx (runtime_templates E docker))"
    by (rule keeps_cases, erule same_at_render) (use q(3) in \<open>auto simp: runtime_files_def\<close>)
  moreover have "keeps ?R (Chmod E (ctx @ [runtimeAccessFile]))"
  proof -
    have "q \<noteq> ctx @ [runtimeAccessFile]" using q(3) by (auto simp: runtime_files_def)
    then show ?thesis by (intro keeps_cases) (erule Chmod_same)
  qed
  ultimately have "keeps ?R (swap_in E docker ctx S)" unfolding swap_in_def by (intro keeps_andThen [OF trans])
  then show ?thesis using keepsD run by fast
qed

lemma staging_path_fresh:
  "staging_path E ctx d = ctx @ [''.bootstrap-staging-'' @ random_name E (operations d)]"
  "''.bootstrap-staging-'' @ random_name E n \<noteq> bootstrapDirectory"
  by (simp_all add: staging_path_def bootstrapDirectory_def)

text \<open>
  C37: the build never destroys what it did not make. Staging a context that already holds a bootstrap
  directory without the agent's marker fails and leaves the disk as it was. Whatever fails, and whenever, everything that
  existed outside the bootstrap directory and the fresh staging directory is there afterwards as it was, only the files rendered for
  the runtime at the root of the context are written, and nothing else comes to be but the directories above those; and nothing outside the
  staging directory has changed at all unless the complete new tree had been staged, with every file checked against the
  plan, before the old one was touched.
\<close>

theorem staging_keeps_foreign:
  assumes run: "stageBootstrapContext P E docker plan ctx d = (r, d')"
  shows "(\<not> owned d (ctx @ [bootstrapDirectory]) \<longrightarrow> r \<noteq> None \<and> look d' = look d) \<and>
    ((\<forall>q. \<not> prefix (staging_path E ctx (tick d)) q \<longrightarrow> look d' q = look d q) \<or>
     (\<exists>d1 d2. MkdirTemp E (staging_path E ctx (tick d)) (tick d) = (None, d1) \<and>
        stage_tree P E docker plan (staging_path E ctx (tick d)) d1 = (None, d2))) \<and>
    (\<forall>q. \<not> prefix (ctx @ [bootstrapDirectory]) q \<and> \<not> prefix (staging_path E ctx (tick d)) q \<longrightarrow>
       (q \<notin> runtime_files E docker ctx \<and> look d q \<noteq> None \<longrightarrow> look d' q = look d q) \<and>
       ((\<forall>p \<in> runtime_files E docker ctx. \<not> prefix q p) \<longrightarrow> look d' q = look d q))"
proof -
  let ?S = "staging_path E ctx (tick d)"
  obtain r1 d1 where a: "assertBootstrapDirectoryIsAgentOwned E (ctx @ [bootstrapDirectory]) d = (r1, d1)" by (metis surj_pair)
  have d1: "d1 = tick d" and own: "r1 = None \<Longrightarrow> owned d (ctx @ [bootstrapDirectory])" using assert_owned [OF a] by auto
  show ?thesis
  proof (cases r1)
    case (Some e)
    then show ?thesis using run a d1 by (auto simp: stageBootstrapContext_def andThen_def)
  next
    case None
    have ws: "with_staging P E docker plan ctx ?S (tick d) = (r, d')"
      using run a d1 None by (simp add: stageBootstrapContext_def andThen_def)
    show ?thesis
    proof (rule with_staging_cases [OF ws])
      assume "look d' = look (tick d)"
      then show ?thesis using own None by simp
    next
      fix d2 assume "d' = snd (RemoveAll E ?S d2)" "\<And>q. \<not> prefix ?S q \<Longrightarrow> look d2 q = look (tick d) q"
      then show ?thesis using own None by (simp add: look_RemoveAll)
    next
      fix d1 d2 d3 assume made: "MkdirTemp E ?S (tick d) = (None, d1)" and tree: "stage_tree P E docker plan ?S d1 = (None, d2)"
        and swap: "swap_in E docker ctx ?S d2 = (r, d3)" and d': "d' = snd (RemoveAll E ?S d3)"
      have outside: "look d2 q = look d q" if "\<not> prefix ?S q" for q
        using keepsD [OF keeps_stage_tree tree] MkdirTemp_cases [OF made] that by (auto simp: inside_def is_directory_iff)
      let ?W = "{q. prefix (ctx @ [bootstrapDirectory]) q} \<union> {q. prefix ?S q} \<union> runtime_files E docker ctx"
      have "spares ?W d2 d3"
        by (rule keepsD [OF swap_in_spares [OF staging_path_fresh] swap]) auto
      then have "look d' q = look d q"
        if "\<not> prefix (ctx @ [bootstrapDirectory]) q" "\<not> prefix ?S q" "q \<notin> runtime_files E docker ctx" "look d q \<noteq> None" for q
        using that outside [of q] unfolding d' look_RemoveAll by (auto simp: spares_def)
      moreover have "look d' q = look d q"
        if "\<not> prefix (ctx @ [bootstrapDirectory]) q" "\<not> prefix ?S q" "\<forall>p \<in> runtime_files E docker ctx. \<not> prefix q p" for q
        using swap_in_frame [OF swap staging_path_fresh that] outside [of q] that(2) unfolding d' look_RemoveAll by simp
      ultimately show ?thesis using own None made tree by blast
    qed
  qed
qed

lemma swap_in_look:
  assumes run: "swap_in E docker ctx S d = (None, d')" and S: "S = ctx @ [s]" "s \<noteq> bootstrapDirectory"
    and templates: "\<forall>(dir, name, c) \<in> set (fst (runtime_templates E docker)). hd (dir @ [name]) \<noteq> bootstrapDirectory"
  shows "look d' (ctx @ bootstrapDirectory # z) = look d (S @ z)"
    and "\<not> prefix (ctx @ [bootstrapDirectory]) q \<Longrightarrow> q \<noteq> ctx @ [runtimeAccessFile] \<Longrightarrow>
      \<forall>(dir, name, c) \<in> set (fst (runtime_templates E docker)). \<not> prefix q (ctx @ dir @ [name]) \<Longrightarrow>
      look d' q = (if prefix S q then None else look d q)"
proof -
  let ?root = "ctx @ [bootstrapDirectory]"
  obtain d1 d2 d3 where d1: "RemoveAll E ?root d = (None, d1)" and d2: "Rename E S ?root d1 = (None, d2)"
    and d3: "render_into E ctx (runtime_templates E docker) d2 = (None, d3)" and d4: "Chmod E (ctx @ [runtimeAccessFile]) d3 = (None, d')"
    using run by (auto simp: swap_in_def andThen_None)
  have look1: "look d1 q = (if prefix ?root q then None else look d q)" for q
    using look_RemoveAll [of E ?root d q] d1 by (auto simp: RemoveAll_def split: option.splits)
  have apart: "\<not> prefix ?root (S @ z)" "\<not> prefix ?root S" for z using S by (auto simp: prefix_def)
  have look2: "look d2 q = (if prefix ?root q then look d1 (S @ drop (length ?root) q) else if prefix S q then None else look d1 q)" for q
    by (rule Rename_look [OF d2 apart(2)])
  have "look d' (ctx @ bootstrapDirectory # z) = look d3 (ctx @ bootstrapDirectory # z)"
    by (rule Chmod_same [OF d4]) (simp add: bootstrapDirectory_def runtimeAccessFile_def)
  also have "\<dots> = look d2 (ctx @ bootstrapDirectory # z)"
  proof (rule same_at_render [OF d3], clarify)
    fix dir name c assume t: "(dir, name, c) \<in> set (fst (runtime_templates E docker))" and p: "prefix (ctx @ bootstrapDirectory # z) (ctx @ dir @ [name])"
    then have "hd (dir @ [name]) = bootstrapDirectory" by (cases dir) (auto simp: prefix_def)
    then show False using templates t by auto
  qed
  also have "\<dots> = look d (S @ z)" using look2 [of "ctx @ bootstrapDirectory # z"] look1 [of "S @ z"] apart(1) [of z] by (simp add: prefix_def)
  finally show "look d' (ctx @ bootstrapDirectory # z) = look d (S @ z)" .
  assume q: "\<not> prefix ?root q" "q \<noteq> ctx @ [runtimeAccessFile]"
    "\<forall>(dir, name, c) \<in> set (fst (runtime_templates E docker)). \<not> prefix q (ctx @ dir @ [name])"
  have "look d' q = look d2 q" using Chmod_same [OF d4 q(2)] same_at_render [OF d3 q(3)] by simp
  then show "look d' q = (if prefix S q then None else look d q)" using look2 [of q] look1 [of q] q(1) by simp
qed

text \<open>
  A staged context holds exactly the plan. When staging succeeds, every packaged file of every lineage
  lies in its own directory of the new tree with the digest the plan states, whatever happened to its source
  during the build; the plan's artifact and the checksum manifest lie beside them, and every file and directory
  of the tree has the fixed mode. Nothing else on the disk has changed but the files rendered at the root of the
  context, and the staging directory is gone. The templates at the root of the context are not below the
  bootstrap directory, and the plan's stages, and the names within a lineage, are distinct.
\<close>

theorem staged_tree_exact:
  assumes run: "stageBootstrapContext P E docker plan ctx d = (None, d')"
    and templates: "\<forall>(dir, name, c) \<in> set (fst (runtime_templates E docker)). hd (dir @ [name]) \<noteq> bootstrapDirectory"
    and stages: "distinct (map sl_stage (sp_lineages plan))" and names: "\<forall>l \<in> set (sp_lineages plan). distinct (map sf_name (sl_files l))"
  shows "(\<forall>l \<in> set (sp_lineages plan). \<forall>f \<in> set (sl_files l). \<exists>c.
      look d' (ctx @ [bootstrapDirectory, ''sources'', sl_stage l, sf_name f]) = Some (File c 0x1A4) \<and>
      ''sha256:'' @ EncodeToString (sha256 P c) = sf_digest f) \<and>
    (\<exists>json. MarshalIndent E (artifact P plan) = Some json \<and> look d' (ctx @ [bootstrapDirectory, ''plan.json'']) = Some (File (json @ [LF]) 0x1A4)) \<and>
    look d' (ctx @ [bootstrapDirectory, stagedChecksumFile]) = Some (File (stagedChecksums plan) 0x1A4) \<and>
    (\<forall>q n. look d' (ctx @ bootstrapDirectory # q) = Some n \<longrightarrow> n = fixed_mode n) \<and>
    (\<forall>q. \<not> prefix (ctx @ [bootstrapDirectory]) q \<and> q \<noteq> ctx @ [runtimeAccessFile] \<and>
      (\<forall>(dir, name, c) \<in> set (fst (runtime_templates E docker)). \<not> prefix q (ctx @ dir @ [name])) \<longrightarrow> look d' q = look d q)"
proof -
  let ?S = "staging_path E ctx (tick d)"
  have ws: "with_staging P E docker plan ctx ?S (tick d) = (None, d')"
    using run assert_owned [of E "ctx @ [bootstrapDirectory]" d] by (auto simp: stageBootstrapContext_def andThen_None)
  obtain d1 d2 d3 where d1: "MkdirTemp E ?S (tick d) = (None, d1)" and d2: "stage_tree P E docker plan ?S d1 = (None, d2)"
    and d3: "swap_in E docker ctx ?S d2 = (None, d3)" and d': "d' = snd (RemoveAll E ?S d3)"
    using with_staging_cases [OF ws] by metis
  have ok: "staged_ok P E plan ?S d2" by (rule stage_tree_ok [OF d2 stages names])
  have apart: "?S = ctx @ [''.bootstrap-staging-'' @ random_name E (operations (tick d))]"
    "''.bootstrap-staging-'' @ random_name E (operations (tick d)) \<noteq> bootstrapDirectory"
    by (simp_all add: staging_path_def bootstrapDirectory_def)
  note swap = swap_in_look [OF d3 apart templates]
  have root: "look d' (ctx @ bootstrapDirectory # z) = look d2 (?S @ z)" for z
    using swap(1) [of z] apart unfolding d' look_RemoveAll by (auto simp: prefix_def)
  have fresh: "look d1 = (look d)(?S \<mapsto> Directory 0x1C0)" "\<And>q. prefix ?S q \<Longrightarrow> look d q = None"
    using MkdirTemp_cases [OF d1] by auto
  have outside: "look d2 q = look d q" if "\<not> prefix ?S q" for q
    using keepsD [OF keeps_stage_tree d2] fresh(1) that by (auto simp: inside_def is_directory_iff)
  have regular: "look d2 (?S @ z) = Some (File c 0x1A4)" if "content d2 (?S @ z) = Some c" for z c
    using that ok by (fastforce simp: staged_ok_def content_def split: option.splits disk_node.splits)
  have rest: "look d' q = look d q" if "\<not> prefix (ctx @ [bootstrapDirectory]) q" "q \<noteq> ctx @ [runtimeAccessFile]"
      "\<forall>(dir, name, c) \<in> set (fst (runtime_templates E docker)). \<not> prefix q (ctx @ dir @ [name])" for q
    using swap(2) [OF that] outside [of q] fresh(2) [of q] unfolding d' look_RemoveAll by simp
  have "\<exists>c. look d' (ctx @ [bootstrapDirectory, ''sources'', sl_stage l, sf_name f]) = Some (File c 0x1A4) \<and>
      ''sha256:'' @ EncodeToString (sha256 P c) = sf_digest f" if "l \<in> set (sp_lineages plan)" "f \<in> set (sl_files l)" for l f
    using ok that regular [of "[''sources'', sl_stage l, sf_name f]"] root [of "[''sources'', sl_stage l, sf_name f]"]
    unfolding staged_ok_def carries_def by fastforce
  moreover have "\<exists>json. MarshalIndent E (artifact P plan) = Some json \<and> look d' (ctx @ [bootstrapDirectory, ''plan.json'']) = Some (File (json @ [LF]) 0x1A4)"
    using ok regular [of "[''plan.json'']"] root [of "[''plan.json'']"] unfolding staged_ok_def by auto
  moreover have "look d' (ctx @ [bootstrapDirectory, stagedChecksumFile]) = Some (File (stagedChecksums plan) 0x1A4)"
    using ok regular [of "[stagedChecksumFile]"] root [of "[stagedChecksumFile]"] unfolding staged_ok_def by simp
  moreover have "n = fixed_mode n" if "look d' (ctx @ bootstrapDirectory # q) = Some n" for q n
    using ok that root [of q] unfolding staged_ok_def by metis
  ultimately show ?thesis using rest by blast
qed

section \<open>The build\<close>

text \<open>
  A request: the output directory, none when it is empty, and the image of the docker request, absent when
  the request is no docker request. Core says which names are image names, empties a directory, and inventories
  the recipe.
\<close>

record build_request =
  OutputDirectory :: path
  docker_image_of :: "string option"

record build_core =
  IsValidDockerImageName :: "string \<Rightarrow> bool"
  EmptyDir :: "path \<Rightarrow> (build_error, disk) action"
  inventoried :: "disk \<Rightarrow> path \<Rightarrow> bool"

record DockerBuildRecipe =
  recipe_Name :: string
  Dockerfile :: string
  Context :: string
  Dockerignore :: string
  recipe_Image :: string
  Platforms :: "string list"
  BuildArgs :: "string \<rightharpoonup> string"

definition docker_templating :: "schemaPlan \<Rightarrow> runtimeLogin list \<Rightarrow> Settings \<Rightarrow> DockerTemplating" where
  "docker_templating plan logins s =
     \<lparr>MigrationConnectionEnvironment = migrationConnectionEnvironmentKey, RuntimeAccessLockID = runtimeAccessLockID,
      ReadinessTimeoutSeconds = BootstrapReadinessSeconds (settings_Timeouts s), dt_ReadOnlyRole = sa_readOnlyRole (sp_access plan),
      dt_ReadWriteRole = sa_readWriteRole (sp_access plan), dt_Schemas = sa_schemas (sp_access plan),
      dt_ReadWriteRoles = sa_readWriteRoles (sp_access plan), DefaultReadWriteRole = defaultRuntimeReadWriteRole (sa_readWriteRoles (sp_access plan)),
      Logins = bootstrapLogins logins, dt_Extensions = bootstrapExtensions plan, Lineages = bootstrapLineages plan\<rparr>"

definition build_inputs :: "platform \<Rightarrow> build_core \<Rightarrow> filesystem \<Rightarrow> (string \<Rightarrow> string) \<Rightarrow> build_request \<Rightarrow> Service
    \<Rightarrow> (build_error, string \<times> schemaPlan \<times> DockerTemplating) result" where
  "build_inputs P K F Local req s =
     (case validateAuthMode (settings s) of
        Some e \<Rightarrow> Inl (BuildAccess e)
      | None \<Rightarrow>
     if externalIdentity (settings s) then Inl IdentityUnsupported
     else if OutputDirectory req = [] then Inl OutputRequired
     else case docker_image_of req of
        None \<Rightarrow> Inl NotDockerRequest
      | Some img \<Rightarrow>
     if \<not> IsValidDockerImageName K img then Inl (BadImageName img)
     else case resolveSchemaPrerequisites F Local s of
        Inl e \<Rightarrow> Inl (BuildSchema e)
      | Inr prerequisites \<Rightarrow>
     (case validate_timeouts (settings_Timeouts (settings s)) of
        Some e \<Rightarrow> Inl (BuildTimeouts e)
      | None \<Rightarrow>
     (case buildSchemaPlan P F prerequisites (settings s) of
        Inl e \<Rightarrow> Inl (BuildPlan e)
      | Inr plan \<Rightarrow>
     (case resolveRuntimeLogins P (settings s) of
        Inl e \<Rightarrow> Inl (BuildAccess e)
      | Inr logins \<Rightarrow>
     (case attest P F plan of
        Inl e \<Rightarrow> Inl (BuildPlan e)
      | Inr attested \<Rightarrow> Inr (img, attested, docker_templating attested logins (settings s)))))))"

definition buildRecipe :: "platform \<Rightarrow> build_env \<Rightarrow> build_core \<Rightarrow> bootstrapImageLock \<Rightarrow> path \<Rightarrow> path \<Rightarrow> string \<Rightarrow> schemaPlan \<Rightarrow> DockerTemplating
    \<Rightarrow> disk \<Rightarrow> (build_error, DockerBuildRecipe) result \<times> disk" where
  "buildRecipe P E K lock location outputDirectory img plan docker d =
     (case andThen (EmptyDir K outputDirectory)
          (andThen (render_into E (outputDirectory @ [''builder'']) (builder_templates E docker))
             (each (stageBootstrapContext P E docker plan) [location, outputDirectory])) d of
        (Some e, d1) \<Rightarrow> (Inl e, d1)
      | (None, d1) \<Rightarrow>
          if \<not> inventoried K d1 outputDirectory then (Inl InventoryFailed, d1)
          else (Inr \<lparr>recipe_Name = ''bootstrap'', Dockerfile = ''builder/Dockerfile'', Context = ''.'',
                  Dockerignore = bootstrapDirectory @ ''/'' @ bootstrapIgnoreFile, recipe_Image = img, Platforms = bootstrapRecipePlatforms,
                  BuildArgs = RecipeBuildArgs P (go_mod E) (go_sum E) lock\<rparr>, d1))"

definition Build :: "platform \<Rightarrow> build_env \<Rightarrow> build_core \<Rightarrow> bootstrapImageLock \<Rightarrow> filesystem \<Rightarrow> (string \<Rightarrow> string) \<Rightarrow> path \<Rightarrow> build_request \<Rightarrow> Service
    \<Rightarrow> disk \<Rightarrow> (build_error, DockerBuildRecipe) result \<times> disk" where
  "Build P E K lock F Local location req s d =
     (case build_inputs P K F Local req s of
        Inl e \<Rightarrow> (Inl e, d)
      | Inr (img, plan, docker) \<Rightarrow> buildRecipe P E K lock location (OutputDirectory req) img plan docker d)"

section \<open>Creating a service\<close>

datatype create_error = FactoryFailed | EndpointsFailed

text \<open>
  \<open>CreateEndpoints\<close>: whether core loads the TCP interface, and the endpoint it makes, absent when it fails to. The
  error of the second call is assigned and not looked at.
\<close>

definition CreateEndpoints :: "bool \<Rightarrow> 'endpoint option \<Rightarrow> create_error option \<times> 'endpoint option list" where
  "CreateEndpoints loaded created = (if \<not> loaded then (Some EndpointsFailed, []) else (None, [created]))"

definition Create :: "bool \<Rightarrow> bool \<Rightarrow> 'endpoint option \<Rightarrow> string \<Rightarrow> Settings \<Rightarrow> (create_error option \<times> 'endpoint option list) \<times> Settings" where
  "Create rendered loaded created module s =
     (let s1 = s\<lparr>HotReload := True, DatabaseName := (if DatabaseName s = [] then module else DatabaseName s)\<rparr> in
      if \<not> rendered then ((Some FactoryFailed, []), s1) else (CreateEndpoints loaded created, s1))"

text \<open>A service whose endpoint could not be made is created all the same, without an error and without the endpoint.\<close>

theorem create_without_endpoint:
  "fst (Create True True None module s) = (None, [None])"
  by (simp add: Create_def CreateEndpoints_def Let_def)

section \<open>The same tree in both contexts\<close>

lemma build_stages_both:
  assumes "Build P E K lock F Local location req s d = (Inr recipe, d')"
  obtains img plan docker d1 d2 where "build_inputs P K F Local req s = Inr (img, plan, docker)"
    "stageBootstrapContext P E docker plan location d1 = (None, d2)"
    "stageBootstrapContext P E docker plan (OutputDirectory req) d2 = (None, d')"
  using assms by (auto simp: Build_def buildRecipe_def andThen_None done_ok_def split: sum.splits prod.splits option.splits if_splits)

text \<open>\<open>os.ReadDir\<close> lists no name twice.\<close>

definition lists_once :: "filesystem \<Rightarrow> bool" where
  "lists_once F \<longleftrightarrow> (\<forall>dir es. ReadDir F dir = Inr es \<longrightarrow> distinct (map entry_name es))"

lemma subseq_distinct: "subseq xs ys \<Longrightarrow> distinct ys \<Longrightarrow> distinct xs"
  by (induction rule: list_emb.induct) (auto dest: list_emb_set)

lemma apart_append:
  assumes "\<not> prefix a b" and "\<not> prefix b a"
  shows "\<not> prefix (a @ x) (b @ y)"
proof
  assume "prefix (a @ x) (b @ y)"
  then have "prefix a (b @ y)" by (rule append_prefixD)
  then show False using prefix_same_cases [of a "b @ y" b] assms by simp
qed

lemma staged_names_distinct:
  assumes "stagedFiles F dir = Inr fs" and listing: "lists_once F"
  shows "distinct (map sf_name fs)"
proof -
  obtain es ns where es: "ReadDir F dir = Inr es" and ns: "staged F dir es = Inr ns" and fs: "map sf_name fs = sort ns"
    using stagedFiles_Inr [OF assms(1)] by metis
  have "distinct (migration_entries es)" using listing es by (auto simp: lists_once_def migration_entries_def distinct_map intro: inj_on_subset)
  then have "distinct ns" using staged_subset [OF ns] subseq_distinct by blast
  then show ?thesis by (simp add: fs)
qed

lemma build_inputs_plan:
  assumes "build_inputs P K F Local req s = Inr (img, plan, docker)" and listing: "lists_once F"
  shows "distinct (map sl_stage (sp_lineages plan)) \<and> (\<forall>l \<in> set (sp_lineages plan). distinct (map sf_name (sl_files l)) \<and>
    (\<forall>f \<in> set (sl_files l). fileDigest P F (path_Join [src_dir (sl_source l), sf_name f]) = Inr (sf_digest f))) \<and>
    \<not> externalIdentity (settings s)"
proof -
  obtain p raw where raw: "buildSchemaPlan P F p (settings s) = Inr raw" and plan: "attest P F raw = Inr plan"
    and mode: "\<not> externalIdentity (settings s)"
    using assms(1) by (auto simp: build_inputs_def split: option.splits sum.splits if_splits)
  have rel: "list_all2 (\<lambda>l k. sl_stage k = sl_stage l \<and> map sf_name (sl_files k) = map sf_name (sl_files l) \<and>
      (\<forall>f \<in> set (sl_files k). fileDigest P F (path_Join [src_dir (sl_source k), sf_name f]) = Inr (sf_digest f))) (sp_lineages raw) (sp_lineages plan)"
    using attest_binds_content [OF plan] by (auto elim!: list_all2_mono)
  have "distinct (map sl_stage (sp_lineages raw)) \<and> (\<forall>l \<in> set (sp_lineages raw). distinct (map sf_name (sl_files l)))"
  proof (cases "NoMigration (settings s)")
    case True
    then show ?thesis using buildSchemaPlan_lineages [OF raw] by simp
  next
    case False
    then have pack: "package F 0 (sources p) = Inr (sp_lineages raw)" using buildSchemaPlan_lineages [OF raw] by simp
    have "distinct (map sf_name (sl_files l))" if "l \<in> set (sp_lineages raw)" for l
      using package_Inr [OF pack] that staged_names_distinct [OF _ listing] by blast
    then show ?thesis using package_stages_distinct [OF pack] by blast
  qed
  moreover have "map sl_stage (sp_lineages plan) = map sl_stage (sp_lineages raw)"
    using rel by (auto simp: list_all2_conv_all_nth intro: nth_equalityI)
  moreover have "distinct (map sf_name (sl_files k)) \<and>
      (\<forall>f \<in> set (sl_files k). fileDigest P F (path_Join [src_dir (sl_source k), sf_name f]) = Inr (sf_digest f))"
    if k: "k \<in> set (sp_lineages plan)" for k
  proof -
    obtain i where i: "i < length (sp_lineages plan)" "k = sp_lineages plan ! i" using k by (auto simp: in_set_conv_nth)
    have "sp_lineages raw ! i \<in> set (sp_lineages raw)" using i rel by (simp add: list_all2_lengthD)
    then show ?thesis using calculation(1) list_all2_nthD2 [OF rel i(1)] i(2) by metis
  qed
  ultimately show ?thesis using mode by metis
qed

text \<open>
  C38: the image is built from what was attested. A build that succeeds was of a service that uses passwords,
  and left the plan, the one its settings resolve to, in both contexts, the service's directory and the recipe's:
  every packaged file holds, byte for byte, what was read of its source when the digest of the plan was taken, in both
  contexts alike; the plan's artifact and the checksum manifest are there, and every node has its fixed mode. No file on
  the disk is a collision of the hash with a source file, the contexts are not one inside the other, a
  directory lists no name twice, and no template at the root of a context is below the bootstrap directory.
\<close>

theorem build_packages_plan:
  assumes run: "Build P E K lock F Local location req s d = (Inr recipe, d')"
    and listing: "lists_once F"
    and templates: "\<And>docker. \<forall>(dir, name, c) \<in> set (fst (runtime_templates E docker)). hd (dir @ [name]) \<noteq> bootstrapDirectory"
    and apart: "\<not> prefix location (OutputDirectory req)" "\<not> prefix (OutputDirectory req) location"
    and no_collision: "\<And>p c m q a. look d' p = Some (File c m) \<Longrightarrow> ReadFile F q = Inr a \<Longrightarrow> sha256 P c = sha256 P a \<Longrightarrow> c = a"
  shows "\<exists>img plan docker. build_inputs P K F Local req s = Inr (img, plan, docker) \<and> \<not> externalIdentity (settings s) \<and>
    (\<forall>l \<in> set (sp_lineages plan). \<forall>f \<in> set (sl_files l). \<exists>c.
       ReadFile F (path_Join [src_dir (sl_source l), sf_name f]) = Inr c \<and> ''sha256:'' @ EncodeToString (sha256 P c) = sf_digest f \<and>
       look d' (location @ [bootstrapDirectory, ''sources'', sl_stage l, sf_name f]) = Some (File c 0x1A4) \<and>
       look d' (OutputDirectory req @ [bootstrapDirectory, ''sources'', sl_stage l, sf_name f]) = Some (File c 0x1A4)) \<and>
    (\<forall>ctx \<in> {location, OutputDirectory req}.
       (\<exists>json. MarshalIndent E (artifact P plan) = Some json \<and> look d' (ctx @ [bootstrapDirectory, ''plan.json'']) = Some (File (json @ [LF]) 0x1A4)) \<and>
       look d' (ctx @ [bootstrapDirectory, stagedChecksumFile]) = Some (File (stagedChecksums plan) 0x1A4) \<and>
       (\<forall>q n. look d' (ctx @ bootstrapDirectory # q) = Some n \<longrightarrow> n = fixed_mode n))"
proof -
  obtain img plan docker d1 d2 where inputs: "build_inputs P K F Local req s = Inr (img, plan, docker)"
    and first: "stageBootstrapContext P E docker plan location d1 = (None, d2)"
    and second: "stageBootstrapContext P E docker plan (OutputDirectory req) d2 = (None, d')"
    using build_stages_both [OF run] by metis
  note ok = build_inputs_plan [OF inputs listing]
  have names: "distinct (map sl_stage (sp_lineages plan))" "\<forall>l \<in> set (sp_lineages plan). distinct (map sf_name (sl_files l))"
    and mode: "\<not> externalIdentity (settings s)" using ok by auto
  note A = staged_tree_exact [OF first templates names] and B = staged_tree_exact [OF second templates names]
  have "look d' (location @ bootstrapDirectory # q) = look d2 (location @ bootstrapDirectory # q)" for q
  proof -
    have np: "\<not> prefix (location @ bootstrapDirectory # q) (OutputDirectory req @ z)" "\<not> prefix (OutputDirectory req @ z) (location @ bootstrapDirectory # q)" for z
      using apart apart_append by blast+
    then have "location @ bootstrapDirectory # q \<noteq> OutputDirectory req @ [runtimeAccessFile]" by (metis prefix_order.refl)
    then show ?thesis using B np by blast
  qed
  then have first': "look d' (location @ [bootstrapDirectory, a]) = look d2 (location @ [bootstrapDirectory, a])"
      "look d' (location @ [bootstrapDirectory, a, b, c]) = look d2 (location @ [bootstrapDirectory, a, b, c])"
      "look d' (location @ bootstrapDirectory # q) = look d2 (location @ bootstrapDirectory # q)" for a b c q by blast+
  have files: "\<exists>c. ReadFile F (path_Join [src_dir (sl_source l), sf_name f]) = Inr c \<and> ''sha256:'' @ EncodeToString (sha256 P c) = sf_digest f \<and>
       look d' (location @ [bootstrapDirectory, ''sources'', sl_stage l, sf_name f]) = Some (File c 0x1A4) \<and>
       look d' (OutputDirectory req @ [bootstrapDirectory, ''sources'', sl_stage l, sf_name f]) = Some (File c 0x1A4)"
    if lf: "l \<in> set (sp_lineages plan)" "f \<in> set (sl_files l)" for l f
  proof -
    let ?source = "path_Join [src_dir (sl_source l), sf_name f]" and ?rel = "[bootstrapDirectory, ''sources'', sl_stage l, sf_name f]"
    have "fileDigest P F ?source = Inr (sf_digest f)" using ok lf by blast
    then obtain a where a: "ReadFile F ?source = Inr a" "''sha256:'' @ EncodeToString (sha256 P a) = sf_digest f"
      by (auto simp: fileDigest_def split: sum.splits)
    obtain x y where xy: "look d' (location @ ?rel) = Some (File x 0x1A4)" "''sha256:'' @ EncodeToString (sha256 P x) = sf_digest f"
      "look d' (OutputDirectory req @ ?rel) = Some (File y 0x1A4)" "''sha256:'' @ EncodeToString (sha256 P y) = sf_digest f"
      using A B lf by (metis first'(2))
    have "EncodeToString (sha256 P x) = EncodeToString (sha256 P a)" "EncodeToString (sha256 P y) = EncodeToString (sha256 P a)"
      using a(2) xy(2,4) by (simp_all only: same_append_eq flip: a(2))
    then have "x = a" "y = a" using no_collision [OF xy(1) a(1)] no_collision [OF xy(3) a(1)] EncodeToString_inject by blast+
    then show ?thesis using a xy by blast
  qed
  show ?thesis
    using inputs mode A B files by (intro exI [of _ img] exI [of _ plan] exI [of _ docker]) (simp add: first' del: ex_simps)
qed

section \<open>A sample build\<close>

text \<open>A platform whose digest is the text itself, so that no two files collide.\<close>

definition sample_builder :: platform where "sample_builder = sample_platform\<lparr>sha256 := (\<lambda>s. s)\<rparr>"

definition sample_build_env :: build_env where
  "sample_build_env = \<lparr>fails = (\<lambda>_. None), partly_done = (\<lambda>_ _. False), random_name = (\<lambda>_. ''1''), map_reversed = (\<lambda>_. False), new_file_mode = 0x180, new_directory_mode = 0x1C0,
     copied = (\<lambda>_ _. Some ''x''), bootstrap_templates = (\<lambda>_. ([([], bootstrapMarkerFile, bootstrapMarker)], True)),
     runtime_templates = (\<lambda>_. ([([], runtimeAccessFile, ''y'')], True)), builder_templates = (\<lambda>_. ([([], ''Dockerfile'', ''z'')], True)),
     MarshalIndent = (\<lambda>_. Some ''{}''), go_mod = ''m'', go_sum = ''s''\<rparr>"

definition sample_build_core :: build_core where
  "sample_build_core = \<lparr>IsValidDockerImageName = (\<lambda>_. True), EmptyDir = (\<lambda>_. done_ok), inventoried = (\<lambda>_ _. True)\<rparr>"

definition sample_build_fs :: filesystem where
  "sample_build_fs = \<lparr>ReadDir = (\<lambda>_. Inr [\<lparr>entry_name = ''1_a.up.sql'', entry_IsDir = False, entry_symlink = False, entry_regular = True\<rparr>]),
     Lstat = (\<lambda>_. None), EvalSymlinks = Inr, Stat_regular = (\<lambda>_. Inr True), ReadFile = (\<lambda>_. Inr ''x'')\<rparr>"

definition sample_disk :: disk where
  "sample_disk = \<lparr>nodes = [([''svc''], Directory 0x1ED), ([''out''], Directory 0x1ED)], operations = 0\<rparr>"

definition sample_build_request :: build_request where
  "sample_build_request = \<lparr>OutputDirectory = [''out''], docker_image_of = Some ''shop/orders''\<rparr>"

definition sample_build_service :: Service where
  "sample_build_service = sample_service\<lparr>settings := sample_settings\<lparr>RuntimeLogins := [], RuntimeReadWriteRoles := []\<rparr>\<rparr>"

lemma sample_inputs:
  "case build_inputs sample_builder sample_build_core sample_build_fs (\<lambda>p. ''/svc/'' @ p) sample_build_request sample_build_service of
     Inl _ \<Rightarrow> False
   | Inr (img, plan, docker) \<Rightarrow> map (\<lambda>l. (sl_stage l, map (\<lambda>f. (sf_name f, sf_digest f)) (sl_files l))) (sp_lineages plan) =
       [(''00-store'', [(''1_a.up.sql'', ''sha256:'' @ ''78'')])]"
  by code_simp

lemmas sample_build_simps = sample_build_env_def disk_op_def tick_def put_node_def is_directory_def look_def missing_def blocked_def MkdirAll_def WriteFile_def
  beneath_def RemoveAll_def Rename_def normalizeStagedModes_def Chmod_def render_into_def assertBootstrapDirectoryIsAgentOwned_def
  stageBootstrapMigrate_def stage_tree_def swap_in_def staging_path_def MkdirTemp_def with_staging_def stageBootstrapContext_def
  andThen_def done_ok_def bootstrapDirectory_def stagedChecksumFile_def bootstrapMarkerFile_def runtimeAccessFile_def fixed_mode_def
  stageLineage_def stage_file_def staged_digest_def Let_def

lemma sample_stage:
  assumes "sp_lineages plan = [l]" and "sl_stage l = ''00-store''" and "sl_files l = [f]" and "sf_name f = ''1_a.up.sql''"
    and "sf_digest f = ''sha256:'' @ EncodeToString (sha256 sample_builder ''x'')"
  shows "\<exists>d'. andThen (render_into sample_build_env ([''out''] @ [''builder'']) (builder_templates sample_build_env docker))
    (each (stageBootstrapContext sample_builder sample_build_env docker plan) [[''svc''], [''out'']]) sample_disk = (None, d')"
  using assms by (simp add: sample_build_simps sample_disk_def)

lemma sample_sum: "EncodeToString (sha256 sample_builder ''x'') = ''78''"
  by code_simp

lemma sample_inputs_ok:
  obtains img plan docker l f where
    "build_inputs sample_builder sample_build_core sample_build_fs (\<lambda>p. ''/svc/'' @ p) sample_build_request sample_build_service = Inr (img, plan, docker)"
    "sp_lineages plan = [l]" "sl_stage l = ''00-store''" "sl_files l = [f]" "sf_name f = ''1_a.up.sql''"
    "sf_digest f = ''sha256:'' @ EncodeToString (sha256 sample_builder ''x'')"
  using sample_inputs unfolding sample_sum by (auto split: sum.splits prod.splits)

text \<open>A context whose bootstrap directory was written by hand: staging refuses it and leaves it as it is.\<close>

theorem staging_keeps_foreign_witness:
  "\<forall>docker plan. \<exists>r d'. stageBootstrapContext sample_platform sample_build_env docker plan [''svc'']
      \<lparr>nodes = [([''svc''], Directory 0x1ED), ([''svc'', ''bootstrap''], Directory 0x1ED), ([''svc'', ''bootstrap'', ''notes''], File ''mine'' 0x180)], operations = 0\<rparr>
      = (Some r, d') \<and> look d' [''svc'', ''bootstrap'', ''notes''] = Some (File ''mine'' 0x180)"
proof -
  let ?d = "\<lparr>nodes = [([''svc''], Directory 0x1ED), ([''svc'', ''bootstrap''], Directory 0x1ED), ([''svc'', ''bootstrap'', ''notes''], File ''mine'' 0x180)], operations = 0\<rparr>"
  have "\<not> owned ?d ([''svc''] @ [bootstrapDirectory])"
    by (simp add: owned_def look_def bootstrapDirectory_def bootstrapMarkerFile_def)
  moreover have "look ?d [''svc'', ''bootstrap'', ''notes''] = Some (File ''mine'' 0x180)" by (simp add: look_def)
  ultimately show ?thesis
    using staging_keeps_foreign [of sample_platform sample_build_env _ _ "[''svc'']" ?d, OF prod.collapse [symmetric]]
    by (metis not_Some_eq prod.collapse)
qed

theorem build_packages_plan_witness:
  "\<exists>recipe d'. Build sample_builder sample_build_env sample_build_core sample_lock sample_build_fs (\<lambda>p. ''/svc/'' @ p) [''svc'']
      sample_build_request sample_build_service sample_disk = (Inr recipe, d') \<and>
    content d' [''svc'', ''bootstrap'', ''sources'', ''00-store'', ''1_a.up.sql''] = Some ''x'' \<and>
    content d' [''out'', ''bootstrap'', ''sources'', ''00-store'', ''1_a.up.sql''] = Some ''x''"
proof -
  obtain img plan docker l f where inputs: "build_inputs sample_builder sample_build_core sample_build_fs (\<lambda>p. ''/svc/'' @ p) sample_build_request sample_build_service = Inr (img, plan, docker)"
    and l: "sp_lineages plan = [l]" "sl_stage l = ''00-store''" "sl_files l = [f]" "sf_name f = ''1_a.up.sql''"
    and digest: "sf_digest f = ''sha256:'' @ EncodeToString (sha256 sample_builder ''x'')" by (rule sample_inputs_ok)
  have out: "OutputDirectory sample_build_request = [''out'']" and core: "EmptyDir sample_build_core = (\<lambda>_. done_ok)" "inventoried sample_build_core = (\<lambda>_ _. True)"
    by (simp_all add: sample_build_request_def sample_build_core_def)
  have empty: "andThen done_ok g = g" for g :: "(build_error, disk) action" by (simp add: andThen_def done_ok_def fun_eq_iff)
  obtain d' where "andThen (render_into sample_build_env ([''out''] @ [''builder'']) (builder_templates sample_build_env docker))
    (each (stageBootstrapContext sample_builder sample_build_env docker plan) [[''svc''], [''out'']]) sample_disk = (None, d')"
    using sample_stage [OF l digest] by blast
  then obtain recipe where run: "Build sample_builder sample_build_env sample_build_core sample_lock sample_build_fs (\<lambda>p. ''/svc/'' @ p) [''svc'']
      sample_build_request sample_build_service sample_disk = (Inr recipe, d')"
    unfolding Build_def inputs sum.case prod.case buildRecipe_def out core empty by simp
  have "lists_once sample_build_fs" by (simp add: lists_once_def sample_build_fs_def)
  moreover have "\<forall>(dir, name, c) \<in> set (fst (runtime_templates sample_build_env docker)). hd (dir @ [name]) \<noteq> bootstrapDirectory" for docker
    by (simp add: sample_build_env_def bootstrapDirectory_def runtimeAccessFile_def)
  moreover have "\<not> prefix [''svc''] (OutputDirectory sample_build_request)" "\<not> prefix (OutputDirectory sample_build_request) [''svc'']"
    by (simp_all add: sample_build_request_def)
  moreover have "c = a" if "sha256 sample_builder c = sha256 sample_builder a" for c a
    using that by (simp add: sample_builder_def)
  moreover have "ReadFile sample_build_fs p = Inr ''x''" for p by (simp add: sample_build_fs_def)
  ultimately show ?thesis
    using build_packages_plan [OF run] inputs l run by (auto simp: sample_build_request_def bootstrapDirectory_def content_def)
qed

end
