(* ===== verification/Inventory.thy ===== *)
theory Inventory
  imports Migrations HostIPC "HOL-Library.Multiset"
begin

text \<open>
  \<open>libs/go/migrationtest/inventory.go\<close>: the numbered, reversible migrations of a directory, and their
  application, each body in a transaction of its own. The file system is that of \<open>Migrations\<close>; the
  database is a parameter: whether a transaction begins, what a body does in it, and how a commit ends.
\<close>

section \<open>The files of a directory\<close>

text \<open>
  \<open>migrationFilename.FindStringSubmatch\<close> for \<open>^([0-9]+)_(.+).(up|down).sql$\<close> with both dots literal: the digits, the name and
  the direction.
\<close>

definition migrationFilename :: "string \<Rightarrow> (string \<times> string \<times> string) option" where
  "migrationFilename file =
     (let digits = takeWhile is_digit file in
      case dropWhile is_digit file of
        [] \<Rightarrow> None
      | c # body \<Rightarrow>
          if digits = [] \<or> c \<noteq> CHR ''_'' then None
          else (case cut_last CHR ''.'' body of
                  None \<Rightarrow> None
                | Some (stem, ext) \<Rightarrow>
                    if ext \<noteq> ''sql'' then None
                    else (case cut_last CHR ''.'' stem of
                            None \<Rightarrow> None
                          | Some (name, d) \<Rightarrow>
                              if direction d \<and> name \<noteq> [] \<and> LF \<notin> set name then Some (digits, name, d) else None)))"

record Migration =
  mig_Version :: int
  mig_Name :: string
  UpSQL :: string
  DownSQL :: string

record partial_migration =
  par_migration :: Migration
  upFile :: string
  downFile :: string

datatype inventory_error =
    DirectoryRequired
  | DirectoryUnreadable string fs_error
  | InvalidFilename string
  | InvalidVersion string
  | NotPositive string
  | NamesDiffer int string string
  | BodyUnreadable string fs_error
  | BodyEmpty string
  | DuplicateUp int string string
  | DuplicateDown int string string
  | NoMigrations string
  | NotContiguous int int
  | OneWay int string

text \<open>The map by version, as an association list with distinct keys.\<close>

type_synonym by_version = "(int \<times> partial_migration) list"

definition put_version :: "int \<Rightarrow> partial_migration \<Rightarrow> by_version \<Rightarrow> by_version" where
  "put_version v p by = (v, p) # filter (\<lambda>(w, _). w \<noteq> v) by"

definition sql_entry :: "dir_entry \<Rightarrow> bool" where
  "sql_entry e \<longleftrightarrow> \<not> entry_IsDir e \<and> suffix ''.sql'' (entry_name e)"

definition add_body :: "int \<Rightarrow> string \<Rightarrow> string \<Rightarrow> string \<Rightarrow> partial_migration \<Rightarrow> (inventory_error, partial_migration) result" where
  "add_body version file d body candidate =
     (if d = ''up'' then
        (if upFile candidate \<noteq> [] then Inl (DuplicateUp version (upFile candidate) file)
         else Inr (candidate\<lparr>upFile := file, par_migration := (par_migration candidate)\<lparr>UpSQL := body\<rparr>\<rparr>))
      else
        (if downFile candidate \<noteq> [] then Inl (DuplicateDown version (downFile candidate) file)
         else Inr (candidate\<lparr>downFile := file, par_migration := (par_migration candidate)\<lparr>DownSQL := body\<rparr>\<rparr>)))"

definition candidate_for :: "int \<Rightarrow> string \<Rightarrow> by_version \<Rightarrow> (inventory_error, partial_migration) result" where
  "candidate_for version name by =
     (case map_of by version of
        None \<Rightarrow> Inr \<lparr>par_migration = \<lparr>mig_Version = version, mig_Name = name, UpSQL = [], DownSQL = []\<rparr>, upFile = [], downFile = []\<rparr>
      | Some candidate \<Rightarrow>
          if mig_Name (par_migration candidate) \<noteq> name then Inl (NamesDiffer version (mig_Name (par_migration candidate)) name)
          else Inr candidate)"

definition load_entry :: "filesystem \<Rightarrow> string \<Rightarrow> by_version \<Rightarrow> dir_entry \<Rightarrow> (inventory_error, by_version) result" where
  "load_entry F directory by e =
     (let file = entry_name e in
      if \<not> sql_entry e then Inr by
      else case migrationFilename file of
        None \<Rightarrow> Inl (InvalidFilename file)
      | Some (digits, name, d) \<Rightarrow>
          (case Atoi digits of
             None \<Rightarrow> Inl (InvalidVersion file)
           | Some version \<Rightarrow>
               if version < 1 then Inl (NotPositive file)
               else (case candidate_for version name by of
                 Inl err \<Rightarrow> Inl err
               | Inr candidate \<Rightarrow>
                   (case ReadFile F (path_Join [directory, file]) of
                      Inl err \<Rightarrow> Inl (BodyUnreadable file err)
                    | Inr body \<Rightarrow>
                        if blank body then Inl (BodyEmpty file)
                        else (case add_body version file d body candidate of
                          Inl err \<Rightarrow> Inl err
                        | Inr candidate \<Rightarrow> Inr (put_version version candidate by))))))"

fun load_entries :: "filesystem \<Rightarrow> string \<Rightarrow> by_version \<Rightarrow> dir_entry list \<Rightarrow> (inventory_error, by_version) result" where
  "load_entries F directory by [] = Inr by"
| "load_entries F directory by (e # es) =
     (case load_entry F directory by e of Inl err \<Rightarrow> Inl err | Inr by \<Rightarrow> load_entries F directory by es)"

fun contiguous :: "by_version \<Rightarrow> int \<Rightarrow> int list \<Rightarrow> (inventory_error, Migration list) result" where
  "contiguous by want [] = Inr []"
| "contiguous by want (version # versions) =
     (if version \<noteq> want then Inl (NotContiguous version want)
      else case map_of by version of
        None \<Rightarrow> Inl (NotContiguous version want)
      | Some candidate \<Rightarrow>
          if upFile candidate = [] \<or> downFile candidate = [] then Inl (OneWay version (mig_Name (par_migration candidate)))
          else (case contiguous by (want + 1) versions of
                  Inl err \<Rightarrow> Inl err
                | Inr ms \<Rightarrow> Inr (par_migration candidate # ms)))"

definition LoadDirectory :: "filesystem \<Rightarrow> string \<Rightarrow> (inventory_error, Migration list) result" where
  "LoadDirectory F dir =
     (let directory = TrimSpace dir in
      if directory = [] then Inl DirectoryRequired
      else case ReadDir F directory of
        Inl e \<Rightarrow> Inl (DirectoryUnreadable directory e)
      | Inr entries \<Rightarrow>
          (case load_entries F directory [] entries of
             Inl e \<Rightarrow> Inl e
           | Inr by \<Rightarrow>
               if by = [] then Inl (NoMigrations directory)
               else contiguous by 1 (sort (map fst by))))"

section \<open>Application\<close>

text \<open>
  A database handle: whether a transaction begins, what a body does inside one, and how a commit of the
  state reached ends. The deferred rollback leaves the database as it was when the transaction did not commit.
\<close>

record 'db sql_handle =
  mt_Begin :: "'db \<Rightarrow> string option"
  mt_Exec :: "string \<Rightarrow> 'db \<Rightarrow> string option \<times> 'db"
  mt_Commit :: "'db \<Rightarrow> 'db \<Rightarrow> string option \<times> 'db"

datatype apply_error =
    MigrationContextRequired
  | MigrationDatabaseRequired
  | MigrationBodyEmpty string
  | MigrationBegin string string
  | MigrationExecute string string
  | MigrationCommit string string

definition ApplySQL :: "unit option \<Rightarrow> 'db sql_handle option \<Rightarrow> string \<Rightarrow> string \<Rightarrow> (apply_error, 'db) action" where
  "ApplySQL ctx handle body what d =
     (case ctx of None \<Rightarrow> (Some MigrationContextRequired, d) | Some _ \<Rightarrow>
     (case handle of None \<Rightarrow> (Some MigrationDatabaseRequired, d) | Some H \<Rightarrow>
      if blank body then (Some (MigrationBodyEmpty what), d)
      else case mt_Begin H d of Some e \<Rightarrow> (Some (MigrationBegin what e), d) | None \<Rightarrow>
     (case mt_Exec H body d of
        (Some e, _) \<Rightarrow> (Some (MigrationExecute what e), d)
      | (None, t) \<Rightarrow>
          (case mt_Commit H d t of
             (Some e, d') \<Rightarrow> (Some (MigrationCommit what e), d')
           | (None, d') \<Rightarrow> (None, d')))))"

definition migration_label :: "string \<Rightarrow> Migration \<Rightarrow> string" where
  "migration_label d m = d @ '' '' @ Itoa (nat (mig_Version m)) @ '' ('' @ mig_Name m @ '')''"

definition ApplyUp :: "unit option \<Rightarrow> 'db sql_handle option \<Rightarrow> Migration list \<Rightarrow> (apply_error, 'db) action" where
  "ApplyUp ctx handle ms = each (\<lambda>m. ApplySQL ctx handle (UpSQL m) (migration_label ''up'' m)) ms"

definition ApplyDown :: "unit option \<Rightarrow> 'db sql_handle option \<Rightarrow> Migration list \<Rightarrow> (apply_error, 'db) action" where
  "ApplyDown ctx handle ms = each (\<lambda>m. ApplySQL ctx handle (DownSQL m) (migration_label ''down'' m)) (rev ms)"

section \<open>What an inventory holds\<close>

text \<open>
  The reference: a file reads as a version, a name, a direction and a body, or as nothing; an inventory of a
  directory is a list of migrations numbered from one such that the files are exactly the two files of each of them.
\<close>

type_synonym reading = "(int \<times> string \<times> string \<times> string) option"

definition file_reading :: "filesystem \<Rightarrow> string \<Rightarrow> dir_entry \<Rightarrow> reading" where
  "file_reading F directory e =
     (case migrationFilename (entry_name e) of
        None \<Rightarrow> None
      | Some (digits, name, d) \<Rightarrow>
          (case Atoi digits of
             None \<Rightarrow> None
           | Some v \<Rightarrow>
               if v < 1 then None
               else (case ReadFile F (path_Join [directory, entry_name e]) of
                       Inl _ \<Rightarrow> None
                     | Inr body \<Rightarrow> if blank body then None else Some (v, name, d, body))))"

definition migration_files :: "Migration \<Rightarrow> reading list" where
  "migration_files m = [Some (mig_Version m, mig_Name m, ''up'', UpSQL m), Some (mig_Version m, mig_Name m, ''down'', DownSQL m)]"

definition inventory_of :: "filesystem \<Rightarrow> string \<Rightarrow> dir_entry list \<Rightarrow> Migration list \<Rightarrow> bool" where
  "inventory_of F directory es ms \<longleftrightarrow>
     ms \<noteq> [] \<and> map mig_Version ms = map int [1..<Suc (length ms)] \<and>
     mset (map (file_reading F directory) (filter sql_entry es)) = mset (concat (map migration_files ms))"

text \<open>The files a partly loaded map stands for.\<close>

definition partial_files :: "partial_migration \<Rightarrow> reading list" where
  "partial_files p =
     (let m = par_migration p in
      (if upFile p = [] then [] else [Some (mig_Version m, mig_Name m, ''up'', UpSQL m)]) @
      (if downFile p = [] then [] else [Some (mig_Version m, mig_Name m, ''down'', DownSQL m)]))"

definition represents :: "by_version \<Rightarrow> reading multiset \<Rightarrow> bool" where
  "represents by R \<longleftrightarrow>
     distinct (map fst by) \<and>
     (\<forall>(v, p) \<in> set by. mig_Version (par_migration p) = v \<and> (upFile p \<noteq> [] \<or> downFile p \<noteq> [])) \<and>
     R = mset (concat (map (\<lambda>(_, p). partial_files p) by))"

lemma mset_concat_key:
  assumes "distinct (map fst xs)" and "(v, p) \<in> set xs"
  shows "mset (concat (map (\<lambda>(_, p). f p) xs)) = mset (f p) + mset (concat (map (\<lambda>(_, p). f p) (filter (\<lambda>(w, _). w \<noteq> v) xs)))"
  using assms
proof (induction xs)
  case (Cons x xs)
  obtain w q where x: "x = (w, q)" by (cases x)
  show ?case
  proof (cases "w = v")
    case True
    have "filter (\<lambda>(w, _). w \<noteq> v) xs = xs"
      using Cons.prems(1) True x by (intro filter_True) (auto simp: rev_image_eqI)
    moreover have "q = p" using Cons.prems True x by (auto simp: rev_image_eqI)
    ultimately show ?thesis using x True by simp
  next
    case False
    then show ?thesis using Cons x by auto
  qed
qed simp

lemma migrationFilename_direction: "migrationFilename file = Some (digits, name, d) \<Longrightarrow> direction d"
  by (auto simp: migrationFilename_def Let_def split: list.splits if_splits option.splits)

lemma put_fresh: "map_of by v = None \<Longrightarrow> put_version v p by = (v, p) # by"
  by (auto simp: put_version_def map_of_eq_None_iff rev_image_eqI intro!: filter_True)

lemma load_entry_represents:
  assumes rep: "represents by R" and load: "load_entry F directory by e = Inr by'" and sql: "sql_entry e"
  shows "represents by' (add_mset (file_reading F directory e) R)"
proof -
  obtain digits name d v c body c' where parse: "migrationFilename (entry_name e) = Some (digits, name, d)" "Atoi digits = Some v" "\<not> v < 1"
    and c: "candidate_for v name by = Inr c" and body: "ReadFile F (path_Join [directory, entry_name e]) = Inr body" "\<not> blank body"
    and c': "add_body v (entry_name e) d body c = Inr c'" and by': "by' = put_version v c' by"
    using load sql by (auto simp: load_entry_def Let_def split: option.splits sum.splits if_splits prod.splits)
  have reading: "file_reading F directory e = Some (v, name, d, body)" using parse body by (simp add: file_reading_def)
  have named: "entry_name e \<noteq> []" using sql by (auto simp: sql_entry_def)
  note dir = migrationFilename_direction [OF parse(1), unfolded direction_def]
  have vp: "mig_Version (par_migration c) = v" "mig_Name (par_migration c) = name"
    using c rep by (auto simp: candidate_for_def represents_def split: option.splits if_splits dest!: map_of_SomeD)
  have new: "mig_Version (par_migration c') = v \<and> (upFile c' \<noteq> [] \<or> downFile c' \<noteq> [])"
      "mset (partial_files c') = add_mset (Some (v, name, d, body)) (mset (partial_files c))"
    using c' dir vp named by (auto simp: add_body_def partial_files_def Let_def split: if_splits)
  show ?thesis
  proof (cases "map_of by v")
    case None
    moreover have "partial_files c = []" using c None by (auto simp: candidate_for_def partial_files_def)
    ultimately show ?thesis
      using rep new by' reading by (auto simp: represents_def put_fresh map_of_eq_None_iff)
  next
    case (Some q)
    then have q: "q = c" "(v, c) \<in> set by" using c by (auto simp: candidate_for_def split: if_splits dest: map_of_SomeD)
    have "distinct (map fst by)" using rep by (simp add: represents_def)
    note key = mset_concat_key [OF this q(2), of partial_files]
    show ?thesis
      using rep new by' reading key
      by (auto simp: represents_def put_version_def distinct_map_filter)
  qed
qed

text \<open>An entry that is refused does not read as a file, or clashes with one read before.\<close>

definition clashes :: "reading \<Rightarrow> reading \<Rightarrow> bool" where
  "clashes r q \<longleftrightarrow> (\<exists>v n d b n' d' b'. r = Some (v, n, d, b) \<and> q = Some (v, n', d', b') \<and> (n = n' \<longrightarrow> d = d'))"

lemma load_entry_refused:
  assumes rep: "represents by R" and load: "load_entry F directory by e = Inl err"
  shows "sql_entry e \<and> (file_reading F directory e = None \<or> (\<exists>q. q \<in># R \<and> clashes (file_reading F directory e) q))"
proof -
  have sql: "sql_entry e" using load by (auto simp: load_entry_def Let_def split: if_splits)
  show ?thesis
  proof (cases "file_reading F directory e")
    case (Some r)
    then obtain digits v name d body where parse: "migrationFilename (entry_name e) = Some (digits, name, d)" "Atoi digits = Some v" "\<not> v < 1"
      and body: "ReadFile F (path_Join [directory, entry_name e]) = Inr body" "\<not> blank body" and r: "r = (v, name, d, body)"
      by (auto simp: file_reading_def split: option.splits sum.splits if_splits prod.splits)
    note dir = migrationFilename_direction [OF parse(1), unfolded direction_def]
    have bad: "case candidate_for v name by of Inl _ \<Rightarrow> True | Inr c \<Rightarrow> (\<exists>e'. add_body v (entry_name e) d body c = Inl e')"
      using load sql parse body by (auto simp: load_entry_def Let_def split: sum.splits)
    then obtain c where c: "map_of by v = Some c" "mig_Name (par_migration c) \<noteq> name \<or> (if d = ''up'' then upFile c \<noteq> [] else downFile c \<noteq> [])"
      by (auto simp: candidate_for_def add_body_def split: option.splits if_splits)
    then have mem: "(v, c) \<in> set by" by (auto dest: map_of_SomeD)
    then have cv: "mig_Version (par_migration c) = v" "upFile c \<noteq> [] \<or> downFile c \<noteq> []" using rep by (auto simp: represents_def)
    have "\<exists>q. q \<in> set (partial_files c) \<and> clashes (Some r) q"
      using c(2) cv dir by (auto simp: partial_files_def clashes_def r Let_def split: if_splits)
    then show ?thesis using mem rep Some sql by (force simp: represents_def)
  qed (simp add: sql)
qed

lemma load_entries_represents:
  assumes "represents by R" and "load_entries F directory by es = Inr by'"
  shows "represents by' (R + mset (map (file_reading F directory) (filter sql_entry es)))"
  using assms
proof (induction es arbitrary: "by" R)
  case (Cons e es)
  obtain b where b: "load_entry F directory by e = Inr b" and rest: "load_entries F directory b es = Inr by'"
    using Cons.prems(2) by (auto split: sum.splits)
  show ?case
  proof (cases "sql_entry e")
    case True
    then show ?thesis using Cons.IH [OF load_entry_represents [OF Cons.prems(1) b True] rest] by simp
  next
    case False
    then have "b = by" using b by (simp add: load_entry_def Let_def)
    then show ?thesis using Cons.IH [OF _ rest] Cons.prems(1) False by simp
  qed
qed simp

lemma load_entries_refused:
  assumes "represents by R" and "load_entries F directory by es = Inl err"
  shows "\<exists>r S. add_mset r S \<subseteq># R + mset (map (file_reading F directory) (filter sql_entry es)) \<and> (r = None \<or> (\<exists>q. q \<in># S \<and> clashes r q))"
  using assms
proof (induction es arbitrary: "by" R)
  case (Cons e es)
  show ?case
  proof (cases "load_entry F directory by e")
    case (Inl err')
    note bad = load_entry_refused [OF Cons.prems(1) this]
    then have "add_mset (file_reading F directory e) R \<subseteq># R + mset (map (file_reading F directory) (filter sql_entry (e # es)))" by simp
    then show ?thesis using bad by blast
  next
    case (Inr b)
    then have rest: "load_entries F directory b es = Inl err" using Cons.prems(2) by simp
    show ?thesis
    proof (cases "sql_entry e")
      case True
      then show ?thesis using Cons.IH [OF load_entry_represents [OF Cons.prems(1) Inr True] rest] by simp
    next
      case False
      then have "b = by" using Inr by (simp add: load_entry_def Let_def)
      then show ?thesis using Cons.IH [OF _ rest] Cons.prems(1) False by simp
    qed
  qed
qed simp

lemma contiguous_Inr:
  "contiguous by want vs = Inr ms \<longleftrightarrow>
     vs = map (\<lambda>i. want + int i) [0..<length vs] \<and>
     (\<forall>v \<in> set vs. \<exists>c. map_of by v = Some c \<and> upFile c \<noteq> [] \<and> downFile c \<noteq> []) \<and>
     ms = map (\<lambda>v. par_migration (the (map_of by v))) vs"
proof (induction vs arbitrary: want ms)
  case (Cons v vs)
  have up: "map (\<lambda>i. want + int i) [0..<length (v # vs)] = want # map (\<lambda>i. want + 1 + int i) [0..<length vs]"
    by (simp add: upt_conv_Cons map_Suc_upt [symmetric] o_def algebra_simps del: upt_Suc)
  show ?case
    unfolding contiguous.simps up using Cons.IH [of "want + 1"]
    by (auto split: option.splits sum.splits) blast
qed auto

section \<open>Exactness\<close>

lemma migration_files_unique:
  assumes "distinct (map mig_Version ms)"
    and "Some (v, n, d, b) \<in> set (concat (map migration_files ms))" and "Some (v, n', d', b') \<in> set (concat (map migration_files ms))"
  shows "n = n' \<and> (d = d' \<longrightarrow> b = b')"
proof -
  obtain m m' where m: "m \<in> set ms" "Some (v, n, d, b) \<in> set (migration_files m)" and m': "m' \<in> set ms" "Some (v, n', d', b') \<in> set (migration_files m')"
    using assms(2,3) by auto
  then have "mig_Version m = mig_Version m'" by (auto simp: migration_files_def)
  then have "m = m'" using assms(1) m(1) m'(1) by (auto simp: distinct_map dest: inj_onD)
  then show ?thesis using m m' by (auto simp: migration_files_def)
qed

lemma migration_files_distinct: "distinct (map mig_Version ms) \<Longrightarrow> distinct (concat (map migration_files ms))"
  by (induction ms) (auto simp: migration_files_def image_iff)

lemma inventory_no_clash:
  assumes ms: "distinct (map mig_Version ms)" and sub: "add_mset r S \<subseteq># mset (concat (map migration_files ms))"
  shows "r \<noteq> None \<and> (\<forall>q. q \<in># S \<longrightarrow> \<not> clashes r q)"
proof (intro conjI allI impI notI)
  let ?L = "concat (map migration_files ms)"
  have r: "r \<in> set ?L" using sub by (auto dest: mset_subset_eqD)
  then show False if "r = None" using that by (auto simp: migration_files_def)
  fix q assume q: "q \<in># S" "clashes r q"
  then have q': "q \<in> set ?L" using sub by (auto dest: mset_subset_eqD)
  have "q = r" using q(2) migration_files_unique [OF ms] r q' unfolding clashes_def by metis
  then have "count (mset ?L) r \<ge> 2" using q(1) sub by (auto simp: subseteq_mset_def dest: spec [of _ r] simp flip: count_greater_zero_iff)
  then show False using migration_files_distinct [OF ms] distinct_count_atmost_1 [of ?L] by (auto dest: spec [of _ r] split: if_splits)
qed

lemma contiguous_versions: "map mig_Version ms = map int [1..<Suc (length ms)] \<Longrightarrow> distinct (map mig_Version ms)"
  by (simp add: distinct_map inj_on_def)

lemma loaded_inventory:
  assumes rep: "represents by R" and load: "contiguous by 1 (sort (map fst by)) = Inr ms"
  shows "map mig_Version ms = map int [1..<Suc (length ms)] \<and> R = mset (concat (map migration_files ms)) \<and> length ms = length by"
proof -
  let ?vs = "sort (map fst by)" and ?m = "\<lambda>v. par_migration (the (map_of by v))"
  have vs: "?vs = map (\<lambda>i. 1 + int i) [0..<length by]" and both: "\<forall>v \<in> set ?vs. \<exists>c. map_of by v = Some c \<and> upFile c \<noteq> [] \<and> downFile c \<noteq> []"
    and ms: "ms = map ?m ?vs" using load [unfolded contiguous_Inr length_sort length_map] by blast+
  have of: "map_of by v = Some p" if "(v, p) \<in> set by" for v p using rep that by (simp add: represents_def)
  have "mig_Version (?m v) = v" if v: "v \<in> set ?vs" for v
  proof -
    obtain p where "(v, p) \<in> set by" using v by auto
    then show ?thesis using of rep by (auto simp: represents_def)
  qed
  then have "map mig_Version ms = ?vs" unfolding ms map_map o_def by (intro map_idI)
  moreover have "?vs = map int [1..<Suc (length by)]"
    unfolding vs by (simp add: map_Suc_upt [symmetric] o_def del: upt_Suc)
  moreover have len: "length ms = length by" by (simp add: ms)
  moreover have "R = mset (concat (map migration_files ms))"
  proof -
    have "partial_files p = migration_files (?m v)" if p: "(v, p) \<in> set by" for v p
      using both of [OF p] p by (force simp: partial_files_def migration_files_def Let_def)
    then have eq: "map (\<lambda>(_, p). partial_files p) by = map (\<lambda>v. migration_files (?m v)) (map fst by)" by (auto simp: o_def)
    have "R = mset (concat (map (\<lambda>(_, p). partial_files p) by))" using rep by (simp add: represents_def)
    then have "R = mset (concat (map (\<lambda>v. migration_files (?m v)) (map fst by)))" unfolding eq .
    also have "\<dots> = mset (concat (map (\<lambda>v. migration_files (?m v)) ?vs))"
      unfolding mset_concat map_map by (simp add: multiset.map_comp o_def flip: sum_mset_sum_list)
    finally show ?thesis by (simp add: ms o_def)
  qed
  ultimately show ?thesis by simp
qed

text \<open>A map that stands for the files of numbered migrations is complete.\<close>

lemma complete_inventory:
  assumes rep: "represents by (mset (concat (map migration_files ms)))"
    and numbered: "map mig_Version ms = map int [1..<Suc (length ms)]"
  shows "\<exists>ms'. contiguous by 1 (sort (map fst by)) = Inr ms'"
proof -
  let ?L = "concat (map migration_files ms)"
  have dist: "distinct (map fst by)"
    and parts: "\<forall>(v, p) \<in> set by. mig_Version (par_migration p) = v \<and> (upFile p \<noteq> [] \<or> downFile p \<noteq> [])"
    and eq: "mset ?L = mset (concat (map (\<lambda>(_, p). partial_files p) by))"
    by (fact rep [unfolded represents_def, THEN conjunct1] rep [unfolded represents_def, THEN conjunct2, THEN conjunct1]
        rep [unfolded represents_def, THEN conjunct2, THEN conjunct2])+
  have files: "set ?L = (\<Union>(v, p) \<in> set by. set (partial_files p))" unfolding mset_eq_setD [OF eq] by auto
  have to: "v \<in> mig_Version ` set ms" if p: "(v, p) \<in> set by" for v p
  proof -
    obtain r where r: "r \<in> set (partial_files p)" "\<exists>n d b. r = Some (v, n, d, b)" using p parts by (fastforce simp: partial_files_def Let_def)
    then have "r \<in> set ?L" using p files by auto
    then show ?thesis using r(2) by (auto simp: migration_files_def)
  qed
  have covered: "\<exists>p. (mig_Version m, p) \<in> set by \<and> upFile p \<noteq> [] \<and> downFile p \<noteq> []" if m: "m \<in> set ms" for m
  proof -
    let ?u = "Some (mig_Version m, mig_Name m, ''up'', UpSQL m)" and ?d = "Some (mig_Version m, mig_Name m, ''down'', DownSQL m)"
    have "?u \<in> set ?L" "?d \<in> set ?L" using m by (auto simp: migration_files_def)
    then obtain v p w q where p: "(v, p) \<in> set by" "?u \<in> set (partial_files p)" and q: "(w, q) \<in> set by" "?d \<in> set (partial_files q)"
      unfolding files by auto
    have "v = mig_Version m" "upFile p \<noteq> []" "w = mig_Version m" "downFile q \<noteq> []"
      using p q parts by (auto simp: partial_files_def Let_def split: if_splits)
    moreover from this have "p = q" using p(1) q(1) dist by (metis eq_key_imp_eq_value)
    ultimately show ?thesis using p(1) by blast
  qed
  have keys: "set (map fst by) = mig_Version ` set ms"
    using to covered by (auto simp: image_iff) (metis fst_conv)
  have sorted: "sort (map fst by) = map int [1..<Suc (length ms)]"
  proof (rule sorted_distinct_set_unique)
    have "set (map int [1..<Suc (length ms)]) = mig_Version ` set ms" unfolding numbered [symmetric] by simp
    then show "set (sort (map fst by)) = set (map int [1..<Suc (length ms)])" using keys by simp
    show "sorted (map int [1..<Suc (length ms)])" by (simp add: sorted_map del: upt_Suc)
  qed (use dist in \<open>simp_all add: distinct_map inj_on_def\<close>)
  have "length by = length ms" using arg_cong [OF sorted, of length] by (simp del: upt_Suc)
  then have "sort (map fst by) = map (\<lambda>i. 1 + int i) [0..<length (sort (map fst by))]"
    unfolding sorted by (simp add: map_Suc_upt [symmetric] o_def del: upt_Suc)
  moreover have "\<exists>c. map_of by v = Some c \<and> upFile c \<noteq> [] \<and> downFile c \<noteq> []" if v: "v \<in> set (sort (map fst by))" for v
  proof -
    obtain m where "m \<in> set ms" "v = mig_Version m" using v keys by auto
    then obtain p where "(v, p) \<in> set by" "upFile p \<noteq> []" "downFile p \<noteq> []" using covered by blast
    then show ?thesis using map_of_is_SomeI [OF dist] by blast
  qed
  ultimately show ?thesis unfolding contiguous_Inr by blast
qed

lemma inventory_unique:
  assumes "inventory_of F directory es ms" and "inventory_of F directory es ms'"
  shows "ms = ms'"
proof -
  have eq: "mset (concat (map migration_files ms)) = mset (concat (map migration_files ms'))"
    and v: "map mig_Version ms = map int [1..<Suc (length ms)]" "map mig_Version ms' = map int [1..<Suc (length ms')]"
    using assms by (simp_all add: inventory_of_def)
  have "size (mset (concat (map migration_files xs))) = 2 * length xs" for xs by (induction xs) (simp_all add: migration_files_def)
  then have len: "length ms = length ms'" using arg_cong [OF eq, of size] by simp
  have same: "m = m'" if m: "m \<in> set ms" "m' \<in> set ms'" "mig_Version m = mig_Version m'" for m m'
  proof -
    let ?v = "mig_Version m'" and ?L = "concat (map migration_files ms')"
    have "set (migration_files m) \<subseteq> set ?L" using m(1) unfolding mset_eq_setD [OF eq, symmetric] by auto
    then have "Some (?v, mig_Name m, ''up'', UpSQL m) \<in> set ?L" "Some (?v, mig_Name m, ''down'', DownSQL m) \<in> set ?L"
      using m(3) by (simp_all add: migration_files_def [of m] del: set_concat)
    moreover have "Some (?v, mig_Name m', ''up'', UpSQL m') \<in> set ?L" "Some (?v, mig_Name m', ''down'', DownSQL m') \<in> set ?L"
      using m(2) by (auto simp: migration_files_def)
    ultimately have "mig_Name m = mig_Name m'" "UpSQL m = UpSQL m'" "DownSQL m = DownSQL m'"
      using migration_files_unique [OF contiguous_versions [OF v(2)]] by blast+
    then show ?thesis using m(3) by (intro Migration.equality) simp_all
  qed
  show ?thesis
  proof (rule nth_equalityI [OF len])
    fix i assume i: "i < length ms"
    then have "map mig_Version ms ! i = map mig_Version ms' ! i" unfolding v using len by simp
    then show "ms ! i = ms' ! i" using i len by (intro same) simp_all
  qed
qed

lemma represents_empty: "represents [] {#}" by (simp add: represents_def)

lemma LoadDirectory_sound:
  assumes load: "LoadDirectory F dir = Inr ms"
  obtains es where "ReadDir F (TrimSpace dir) = Inr es" "inventory_of F (TrimSpace dir) es ms"
proof -
  obtain es b where es: "ReadDir F (TrimSpace dir) = Inr es" "load_entries F (TrimSpace dir) [] es = Inr b"
    and b: "b \<noteq> []" "contiguous b 1 (sort (map fst b)) = Inr ms"
    using load by (auto simp: LoadDirectory_def Let_def split: sum.splits if_splits)
  have "represents b (mset (map (file_reading F (TrimSpace dir)) (filter sql_entry es)))"
    using load_entries_represents [OF represents_empty es(2)] by simp
  from loaded_inventory [OF this b(2)] b(1) have "inventory_of F (TrimSpace dir) es ms" by (auto simp: inventory_of_def)
  with es(1) show thesis by (rule that)
qed

lemma LoadDirectory_complete:
  assumes dir: "TrimSpace dir \<noteq> []" "ReadDir F (TrimSpace dir) = Inr es" and inv: "inventory_of F (TrimSpace dir) es ms"
  shows "\<exists>ms'. LoadDirectory F dir = Inr ms'"
proof -
  let ?R = "mset (map (file_reading F (TrimSpace dir)) (filter sql_entry es))"
  have R: "?R = mset (concat (map migration_files ms))" and ms: "ms \<noteq> []" "map mig_Version ms = map int [1..<Suc (length ms)]"
    using inv by (simp_all add: inventory_of_def)
  have "load_entries F (TrimSpace dir) [] es \<noteq> Inl err" for err
  proof
    assume "load_entries F (TrimSpace dir) [] es = Inl err"
    from load_entries_refused [OF represents_empty this] show False
      using inventory_no_clash [OF contiguous_versions [OF ms(2)]] unfolding R [symmetric] by auto
  qed
  then obtain b where b: "load_entries F (TrimSpace dir) [] es = Inr b" by (metis sum.exhaust)
  have rep: "represents b (mset (concat (map migration_files ms)))" using load_entries_represents [OF represents_empty b] R by simp
  have "b \<noteq> []"
  proof
    assume "b = []"
    then have "concat (map migration_files ms) = []" using rep by (simp add: represents_def)
    then show False using ms(1) by (cases ms) (auto simp: migration_files_def)
  qed
  then show ?thesis using complete_inventory [OF rep ms(2)] dir b by (auto simp: LoadDirectory_def Let_def)
qed

text \<open>
  C39: loading a directory accepts exactly the reversible inventories. It returns migrations just when they are numbered
  from one without a gap and the SQL files of the directory, each of which reads as a positive version, a name, a direction and
  a body that is not blank, are the one up and the one down file of each of them and nothing else; what is returned is then
  the only such list. Any other directory is refused.
\<close>

theorem inventory_exact:
  assumes "TrimSpace dir \<noteq> []" and "ReadDir F (TrimSpace dir) = Inr es"
  shows "LoadDirectory F dir = Inr ms \<longleftrightarrow> inventory_of F (TrimSpace dir) es ms"
proof
  show inv: "inventory_of F (TrimSpace dir) es ms" if "LoadDirectory F dir = Inr ms"
    using that assms(2) by (elim LoadDirectory_sound) simp
  assume ms: "inventory_of F (TrimSpace dir) es ms"
  then obtain ms' where load: "LoadDirectory F dir = Inr ms'" using LoadDirectory_complete [OF assms] by blast
  then have "inventory_of F (TrimSpace dir) es ms'" using assms(2) by (elim LoadDirectory_sound) simp
  then show "LoadDirectory F dir = Inr ms" using inventory_unique [OF ms] load by blast
qed

section \<open>Applying an inventory\<close>

text \<open>
  What \<open>database/sql\<close> promises of a commit: one that succeeds makes the transaction's state the database's, and one
  that fails leaves that state or the old one, never a mixture.
\<close>

definition commit_law :: "'db sql_handle \<Rightarrow> bool" where
  "commit_law H \<longleftrightarrow> (\<forall>d t r d'. mt_Commit H d t = (r, d') \<longrightarrow> (if r = None then d' = t else d' = d \<or> d' = t))"

fun run_bodies :: "'db sql_handle \<Rightarrow> string list \<Rightarrow> 'db \<Rightarrow> 'db option" where
  "run_bodies H [] d = Some d"
| "run_bodies H (b # bs) d = (case mt_Exec H b d of (None, t) \<Rightarrow> run_bodies H bs t | (Some _, _) \<Rightarrow> None)"

lemma ApplySQL_whole:
  assumes "commit_law H" and "ApplySQL ctx (Some H) body what d = (r, d')"
  shows "mt_Exec H body d = (None, d') \<or> d' = d \<and> r \<noteq> None"
  using assms unfolding ApplySQL_def commit_law_def
  by (fastforce split: option.splits if_splits prod.splits)

lemma apply_prefix:
  assumes "commit_law H" and "each (\<lambda>m. ApplySQL ctx (Some H) (body m) (what m)) ms d = (r, d')"
  shows "\<exists>k \<le> length ms. run_bodies H (map body (take k ms)) d = Some d' \<and> (r = None \<longrightarrow> k = length ms)"
  using assms(2)
proof (induction ms arbitrary: d)
  case (Cons m ms)
  obtain r1 d1 where one: "ApplySQL ctx (Some H) (body m) (what m) d = (r1, d1)" by (metis surj_pair)
  note whole = ApplySQL_whole [OF assms(1) one]
  show ?case
  proof (cases r1)
    case None
    then have "each (\<lambda>m. ApplySQL ctx (Some H) (body m) (what m)) ms d1 = (r, d')" using Cons.prems one by (simp add: andThen_def)
    then obtain k where "k \<le> length ms" "run_bodies H (map body (take k ms)) d1 = Some d'" "r = None \<longrightarrow> k = length ms" using Cons.IH by blast
    then show ?thesis using None whole by (intro exI [of _ "Suc k"]) auto
  next
    case (Some e)
    then have "r = Some e" "d' = d1" using Cons.prems one by (simp_all add: andThen_def)
    moreover have "run_bodies H (map body (take (if d1 = d then 0 else 1) (m # ms))) d = Some d1" using whole by auto
    ultimately show ?thesis by (intro exI [of _ "if d1 = d then 0 else 1"]) simp
  qed
qed (simp add: done_ok_def)

lemma loaded_bodies:
  assumes load: "LoadDirectory F dir = Inr ms" and m: "m \<in> set ms"
  shows "\<not> blank (UpSQL m)" and "\<not> blank (DownSQL m)"
proof -
  obtain es where "inventory_of F (TrimSpace dir) es ms" using load by (rule LoadDirectory_sound)
  then have "file_reading F (TrimSpace dir) ` set (filter sql_entry es) = set (concat (map migration_files ms))"
    unfolding inventory_of_def by (metis set_map mset_eq_setD)
  then have "set (migration_files m) \<subseteq> file_reading F (TrimSpace dir) ` set (filter sql_entry es)" using m by auto
  moreover have "\<not> blank b" if "file_reading F (TrimSpace dir) e = Some (v, n, d, b)" for e v n d b
    using that by (auto simp: file_reading_def split: option.splits sum.splits if_splits)
  ultimately show "\<not> blank (UpSQL m)" "\<not> blank (DownSQL m)" by (auto simp: migration_files_def image_iff) (metis+)
qed

text \<open>A run that succeeded, taken apart; and one whose every body runs succeeds.\<close>

lemma apply_None:
  assumes "commit_law H" and "ApplySQL ctx (Some H) body what d = (None, d')"
  shows "mt_Exec H body d = (None, d')"
  using ApplySQL_whole [OF assms] by simp

definition always_open :: "'db sql_handle \<Rightarrow> bool" where
  "always_open H \<longleftrightarrow> (\<forall>d. mt_Begin H d = None) \<and> (\<forall>d t. fst (mt_Commit H d t) = None)"

lemma apply_runs:
  assumes "commit_law H" "always_open H" "\<not> blank body" "mt_Exec H body d = (None, t)"
  shows "ApplySQL (Some ()) (Some H) body what d = (None, t)"
proof -
  obtain d' where "mt_Commit H d t = (None, d')" using assms(2) unfolding always_open_def by (metis prod.collapse)
  moreover from this have "d' = t" using assms(1) by (auto simp: commit_law_def)
  ultimately show ?thesis using assms by (simp add: ApplySQL_def always_open_def)
qed

lemma each_snoc_None: "each f (xs @ [x]) s = (None, t) \<longleftrightarrow> (\<exists>u. each f xs s = (None, u) \<and> f x u = (None, t))"
  by (simp add: each_append andThen_None done_ok_def)

text \<open>
  An inventory is applied whole migrations at a time, and taken back. Whatever fails, the database is the one after
  some first migrations of the list, each complete, and after all of them when the call succeeded; and where each down
  body undoes its up body and the server keeps accepting transactions, \<open>ApplyDown\<close> after a successful \<open>ApplyUp\<close> of a loaded
  directory succeeds and gives back the database that was there before.
\<close>

theorem inventory_round_trip:
  assumes commit: "commit_law H" and load: "LoadDirectory F dir = Inr ms"
    and up: "ApplyUp (Some ()) (Some H) ms d = (r, d')"
  shows "(\<exists>k \<le> length ms. run_bodies H (map UpSQL (take k ms)) d = Some d' \<and> (r = None \<longrightarrow> k = length ms)) \<and>
    (r = None \<and> always_open H \<and> (\<forall>m \<in> set ms. \<forall>d t. mt_Exec H (UpSQL m) d = (None, t) \<longrightarrow> mt_Exec H (DownSQL m) t = (None, d))
       \<longrightarrow> ApplyDown (Some ()) (Some H) ms d' = (None, d))"
proof (intro conjI impI)
  show "\<exists>k \<le> length ms. run_bodies H (map UpSQL (take k ms)) d = Some d' \<and> (r = None \<longrightarrow> k = length ms)"
    using apply_prefix [OF commit up [unfolded ApplyUp_def]] .
  assume hyp: "r = None \<and> always_open H \<and> (\<forall>m \<in> set ms. \<forall>d t. mt_Exec H (UpSQL m) d = (None, t) \<longrightarrow> mt_Exec H (DownSQL m) t = (None, d))"
  have "each (\<lambda>m. ApplySQL (Some ()) (Some H) (DownSQL m) (migration_label ''down'' m)) (rev xs) t = (None, d)"
    if "set xs \<subseteq> set ms" "each (\<lambda>m. ApplySQL (Some ()) (Some H) (UpSQL m) (migration_label ''up'' m)) xs d = (None, t)" for xs t
    using that
  proof (induction xs arbitrary: t rule: rev_induct)
    case (snoc m xs)
    then obtain u where first: "each (\<lambda>m. ApplySQL (Some ()) (Some H) (UpSQL m) (migration_label ''up'' m)) xs d = (None, u)"
      and "ApplySQL (Some ()) (Some H) (UpSQL m) (migration_label ''up'' m) u = (None, t)" unfolding each_snoc_None by blast
    then have "mt_Exec H (DownSQL m) t = (None, u)" using apply_None [OF commit] hyp snoc.prems(1) by simp
    then have "ApplySQL (Some ()) (Some H) (DownSQL m) (migration_label ''down'' m) t = (None, u)"
      using apply_runs [OF commit _ loaded_bodies(2) [OF load]] hyp snoc.prems(1) by simp
    then show ?case using snoc.IH [OF _ first] snoc.prems(1) by (simp add: andThen_def)
  qed (simp add: done_ok_def)
  then show "ApplyDown (Some ()) (Some H) ms d' = (None, d)" using up hyp by (simp add: ApplyDown_def ApplyUp_def)
qed

section \<open>A sample directory\<close>

definition sample_inventory_fs :: filesystem where
  "sample_inventory_fs =
     \<lparr>ReadDir = (\<lambda>_. Inr (map (\<lambda>n. \<lparr>entry_name = n, entry_IsDir = False, entry_symlink = False, entry_regular = True\<rparr>)
        [''001_users.down.sql'', ''001_users.up.sql'', ''2_orders.down.sql'', ''2_orders.up.sql'', ''README.md''])),
      Lstat = (\<lambda>_. None), EvalSymlinks = Inr, Stat_regular = (\<lambda>_. Inr True), ReadFile = Inr\<rparr>"

definition sample_migrations :: "Migration list" where
  "sample_migrations =
     [\<lparr>mig_Version = 1, mig_Name = ''users'', UpSQL = ''m/001_users.up.sql'', DownSQL = ''m/001_users.down.sql''\<rparr>,
      \<lparr>mig_Version = 2, mig_Name = ''orders'', UpSQL = ''m/2_orders.up.sql'', DownSQL = ''m/2_orders.down.sql''\<rparr>]"

lemma sample_loaded: "LoadDirectory sample_inventory_fs '' m'' = Inr sample_migrations"
  by code_simp

theorem inventory_exact_witness:
  "\<exists>es. ReadDir sample_inventory_fs (TrimSpace '' m'') = Inr es \<and> length es = 5 \<and> inventory_of sample_inventory_fs (TrimSpace '' m'') es sample_migrations"
proof -
  have "TrimSpace '' m'' \<noteq> []" by code_simp
  then show ?thesis
    using inventory_exact [of "'' m''" sample_inventory_fs, OF _ refl [THEN trans]] sample_loaded
    by (auto simp: sample_inventory_fs_def)
qed

text \<open>A database that counts: an up body adds one, a down body takes one away.\<close>

definition sample_handle :: "nat sql_handle" where
  "sample_handle = \<lparr>mt_Begin = (\<lambda>_. None), mt_Exec = (\<lambda>b d. if b \<in> UpSQL ` set sample_migrations then (None, d + 1)
     else if d = 0 then (Some ''nothing to undo'', d) else (None, d - 1)), mt_Commit = (\<lambda>_ t. (None, t))\<rparr>"

theorem inventory_round_trip_witness:
  "ApplyUp (Some ()) (Some sample_handle) sample_migrations 7 = (None, 9) \<and> ApplyDown (Some ()) (Some sample_handle) sample_migrations 9 = (None, 7)"
proof -
  have up: "ApplyUp (Some ()) (Some sample_handle) sample_migrations 7 = (None, 9)" by code_simp
  have "commit_law sample_handle" "always_open sample_handle" by (simp_all add: commit_law_def always_open_def sample_handle_def)
  moreover have "\<forall>m \<in> set sample_migrations. \<forall>d t. mt_Exec sample_handle (UpSQL m) d = (None, t) \<longrightarrow> mt_Exec sample_handle (DownSQL m) t = (None, d)"
    by (simp add: sample_handle_def sample_migrations_def)
  ultimately show ?thesis using up inventory_round_trip [OF _ sample_loaded up] by blast
qed

end
