(* ===== verification/TestDatabases.thy ===== *)
theory TestDatabases
  imports Reconcile GoURL
begin

text \<open>
  \<open>libs/go/migrationtest/control_plane.go\<close>: isolated databases that a migration owner creates, clones, opens and drops
  for a test. The server is a parameter: which statement fails and whether it took effect all the same, which connections
  answer, what is drawn at random; the state is its databases and the pools that are open, each with what it connects to.
\<close>

section \<open>The server and the pools\<close>

record ConnConfig =
  conf_User :: string
  conf_Database :: string

text \<open>A pool is opened on a connection string, \<open>sql.Open\<close>, or on a parsed configuration, \<open>stdlib.OpenDB\<close>.\<close>

datatype pool_target = OpenedString string | OpenedConfig ConnConfig

record 'db test_world =
  databases :: "string \<rightharpoonup> 'db"
  pools :: "nat \<rightharpoonup> pool_target"
  pool_ids :: nat
  calls :: nat
  statements :: "string list"

record 'db test_env =
  test_cluster :: "'db cluster"
  test_driver :: driver
  empty_database :: 'db
  sql_Open :: "string \<Rightarrow> string option"
  ping_error :: "nat \<Rightarrow> string option"
  close_error :: "nat \<Rightarrow> string option"
  statement_error :: "nat \<Rightarrow> (string \<times> bool) option"
  rand_Read :: "nat \<Rightarrow> (string, nat \<Rightarrow> char) result"
  ParseConfig :: "string \<Rightarrow> (string, ConnConfig) result"

datatype test_error =
    TestContextRequired
  | OwnerConnectionRequired
  | OwnerOpen string
  | OwnerPing string
  | ControlNotOpen
  | NameRequired
  | NameTooLong
  | NameUnsafe string
  | PrefixRefused test_error
  | SourceRefused test_error
  | NoRandom string
  | CreateFailed string string
  | DropFailed string string
  | ConnectionUnparsed string
  | DatabaseUnreachable string string
  | PoolClose string
  | DatabaseNotOpen
  | NoControlPlane
  | TestBegin string
  | TestReconcile control_error
  | TestCommit string
  | Joined "test_error list"

definition call :: "'db test_world \<Rightarrow> 'db test_world" where "call w = w\<lparr>calls := calls w + 1\<rparr>"

text \<open>Opening a pool gives it a new number; closing it releases it whatever the result.\<close>

definition new_pool :: "pool_target \<Rightarrow> 'db test_world \<Rightarrow> nat \<times> 'db test_world" where
  "new_pool t w = (pool_ids w, w\<lparr>pools := (pools w)(pool_ids w \<mapsto> t), pool_ids := pool_ids w + 1\<rparr>)"

definition close_pool :: "'db test_env \<Rightarrow> nat \<Rightarrow> 'db test_world \<Rightarrow> test_error option \<times> 'db test_world" where
  "close_pool E p w = (map_option PoolClose (close_error E (calls w)), (call w)\<lparr>pools := (pools w)(p := None)\<rparr>)"

text \<open>The database whose sessions a pool holds.\<close>

definition target_database :: "'db test_env \<Rightarrow> pool_target \<Rightarrow> string option" where
  "target_database E t =
     (case t of
        OpenedString s \<Rightarrow> (case ParseConfig E s of Inl _ \<Rightarrow> None | Inr c \<Rightarrow> Some (conf_Database c))
      | OpenedConfig c \<Rightarrow> Some (conf_Database c))"

definition ping :: "'db test_env \<Rightarrow> 'db test_world \<Rightarrow> string option \<times> 'db test_world" where
  "ping E w = (ping_error E (calls w), call w)"

text \<open>
  A statement on the owner's pool, and what it does to the databases: it is refused on a closed pool, and one that fails may
  have taken effect.
\<close>

definition owner_exec :: "'db test_env \<Rightarrow> nat \<Rightarrow> string \<Rightarrow> ((string \<rightharpoonup> 'db) \<Rightarrow> (string \<rightharpoonup> 'db) option) \<Rightarrow> 'db test_world
    \<Rightarrow> string option \<times> 'db test_world" where
  "owner_exec E p statement eff w =
     (if pools w p = None then (Some ''sql: database is closed'', w)
      else let w1 = (call w)\<lparr>statements := statements w @ [statement]\<rparr> in
        case eff (databases w) of
          None \<Rightarrow> (Some ''refused'', w1)
        | Some dbs \<Rightarrow>
            (case statement_error E (calls w) of
               None \<Rightarrow> (None, w1\<lparr>databases := dbs\<rparr>)
             | Some (e, took) \<Rightarrow> (Some e, if took then w1\<lparr>databases := dbs\<rparr> else w1)))"

section \<open>Names\<close>

fun check_name :: "nat \<Rightarrow> string \<Rightarrow> bool" where
  "check_name index [] = True"
| "check_name index (c # s) =
     ((c = CHR ''_'' \<or> (CHR ''a'' \<le> c \<and> c \<le> CHR ''z'') \<or> (CHR ''A'' \<le> c \<and> c \<le> CHR ''Z'') \<or>
       (index > 0 \<and> CHR ''0'' \<le> c \<and> c \<le> CHR ''9'')) \<and> check_name (index + 1) s)"

definition validateDatabaseName :: "string \<Rightarrow> test_error option" where
  "validateDatabaseName name =
     (if name = [] then Some NameRequired
      else if length name > 63 then Some NameTooLong
      else if \<not> check_name 0 name then Some (NameUnsafe name)
      else None)"

definition uniqueDatabaseName :: "'db test_env \<Rightarrow> string \<Rightarrow> 'db test_world \<Rightarrow> (test_error, string) result \<times> 'db test_world" where
  "uniqueDatabaseName E given w =
     (let stem = TrimSpace given in
      case validateDatabaseName stem of
        Some e \<Rightarrow> (Inl (PrefixRefused e), w)
      | None \<Rightarrow>
          (case rand_Read E (calls w) of
             Inl e \<Rightarrow> (Inl (NoRandom e), call w)
           | Inr bytes \<Rightarrow> (Inr (take 46 stem @ ''_'' @ EncodeToString (map bytes [0..<8])), call w)))"

section \<open>The control plane\<close>

record ControlPlane =
  ownerConnection :: string
  owner :: "nat option"
  cp_closed :: bool

definition OpenControlPlane :: "'db test_env \<Rightarrow> unit option \<Rightarrow> string \<Rightarrow> 'db test_world \<Rightarrow> (test_error, ControlPlane) result \<times> 'db test_world" where
  "OpenControlPlane E ctx ownerConn w =
     (if ctx = None then (Inl TestContextRequired, w)
      else if blank ownerConn then (Inl OwnerConnectionRequired, w)
      else case sql_Open E ownerConn of
        Some e \<Rightarrow> (Inl (OwnerOpen e), w)
      | None \<Rightarrow>
          (case new_pool (OpenedString ownerConn) w of (p, w) \<Rightarrow>
           case ping E w of
             (Some e, w) \<Rightarrow> (Inl (OwnerPing e), snd (close_pool E p w))
           | (None, w) \<Rightarrow> (Inr \<lparr>ownerConnection = ownerConn, owner = Some p, cp_closed = False\<rparr>, w)))"

definition control_Close :: "'db test_env \<Rightarrow> ControlPlane option \<Rightarrow> 'db test_world \<Rightarrow> test_error option \<times> ControlPlane option \<times> 'db test_world" where
  "control_Close E control w =
     (case control of
        None \<Rightarrow> (None, control, w)
      | Some c \<Rightarrow>
          (case owner c of
             None \<Rightarrow> (None, control, w)
           | Some p \<Rightarrow>
               if cp_closed c then (None, control, w)
               else (case close_pool E p w of (e, w) \<Rightarrow> (e, Some (c\<lparr>cp_closed := True\<rparr>), w))))"

text \<open>The two statements, and what PostgreSQL documents of them.\<close>

definition create_statement :: "driver \<Rightarrow> string \<Rightarrow> string \<Rightarrow> string" where
  "create_statement q name template =
     ''CREATE DATABASE '' @ QuoteIdentifier q name @ (if template \<noteq> [] then '' WITH TEMPLATE '' @ QuoteIdentifier q template else [])"

definition create_effect :: "'db \<Rightarrow> string \<Rightarrow> string \<Rightarrow> (string \<rightharpoonup> 'db) \<Rightarrow> (string \<rightharpoonup> 'db) option" where
  "create_effect fresh name template dbs =
     (if dbs name \<noteq> None \<or> (template \<noteq> [] \<and> dbs template = None) then None
      else Some (dbs(name := if template = [] then Some fresh else dbs template)))"

definition drop_statement :: "driver \<Rightarrow> string \<Rightarrow> string" where
  "drop_statement q name = ''DROP DATABASE IF EXISTS '' @ QuoteIdentifier q name @ '' WITH (FORCE)''"

definition drop_effect :: "string \<Rightarrow> (string \<rightharpoonup> 'db) \<Rightarrow> (string \<rightharpoonup> 'db) option" where
  "drop_effect name dbs = Some (dbs(name := None))"

definition control_create :: "'db test_env \<Rightarrow> ControlPlane option \<Rightarrow> string \<Rightarrow> string \<Rightarrow> 'db test_world \<Rightarrow> test_error option \<times> 'db test_world" where
  "control_create E control name template w =
     (case Option.bind control owner of
        None \<Rightarrow> (Some ControlNotOpen, w)
      | Some p \<Rightarrow>
          (case owner_exec E p (create_statement (test_driver E) name template) (create_effect (empty_database E) name template) w of
             (e, w) \<Rightarrow> (map_option (CreateFailed name) e, w)))"

definition control_drop :: "'db test_env \<Rightarrow> ControlPlane option \<Rightarrow> string \<Rightarrow> 'db test_world \<Rightarrow> test_error option \<times> 'db test_world" where
  "control_drop E control name w =
     (case Option.bind control owner of
        None \<Rightarrow> (Some ControlNotOpen, w)
      | Some p \<Rightarrow>
          (case validateDatabaseName name of
             Some e \<Rightarrow> (Some e, w)
           | None \<Rightarrow>
               (case owner_exec E p (drop_statement (test_driver E) name) (drop_effect name) w of
                  (e, w) \<Rightarrow> (map_option (DropFailed name) e, w))))"

record TestDatabase =
  Name :: string
  DB :: "nat option"
  db_control :: "ControlPlane option"
  closed_once :: bool
  closeErr :: "test_error option"
  dropped_once :: bool
  dropErr :: "test_error option"

definition control_open :: "'db test_env \<Rightarrow> ControlPlane \<Rightarrow> string \<Rightarrow> 'db test_world \<Rightarrow> (test_error, TestDatabase) result \<times> 'db test_world" where
  "control_open E c name w =
     (case ParseConfig E (ownerConnection c) of
        Inl e \<Rightarrow> (Inl (ConnectionUnparsed e), w)
      | Inr config \<Rightarrow>
          (case new_pool (OpenedConfig (config\<lparr>conf_Database := name\<rparr>)) w of (p, w) \<Rightarrow>
           case ping E w of
             (Some e, w) \<Rightarrow> (Inl (DatabaseUnreachable name e), snd (close_pool E p w))
           | (None, w) \<Rightarrow> (Inr \<lparr>Name = name, DB = Some p, db_control = Some c, closed_once = False, closeErr = None, dropped_once = False, dropErr = None\<rparr>, w)))"

text \<open>What \<open>Create\<close> and \<open>Clone\<close> share once the name is drawn.\<close>

definition create_and_open :: "'db test_env \<Rightarrow> ControlPlane option \<Rightarrow> string \<Rightarrow> string \<Rightarrow> 'db test_world
    \<Rightarrow> (test_error, TestDatabase) result \<times> 'db test_world" where
  "create_and_open E control name template w =
     (case control_create E control name template w of
        (Some e, w) \<Rightarrow> (Inl e, w)
      | (None, w) \<Rightarrow>
          (case control_open E (the control) name w of
             (Inl e, w) \<Rightarrow> (Inl e, snd (control_drop E control name w))
           | (Inr database, w) \<Rightarrow> (Inr database, w)))"

definition control_Create :: "'db test_env \<Rightarrow> ControlPlane option \<Rightarrow> string \<Rightarrow> 'db test_world \<Rightarrow> (test_error, TestDatabase) result \<times> 'db test_world" where
  "control_Create E control given w =
     (case uniqueDatabaseName E given w of
        (Inl e, w) \<Rightarrow> (Inl e, w)
      | (Inr name, w) \<Rightarrow> create_and_open E control name [] w)"

definition Clone :: "'db test_env \<Rightarrow> ControlPlane option \<Rightarrow> string \<Rightarrow> string \<Rightarrow> 'db test_world \<Rightarrow> (test_error, TestDatabase) result \<times> 'db test_world" where
  "Clone E control source given w =
     (case validateDatabaseName source of
        Some e \<Rightarrow> (Inl (SourceRefused e), w)
      | None \<Rightarrow>
          (case uniqueDatabaseName E given w of
             (Inl e, w) \<Rightarrow> (Inl e, w)
           | (Inr name, w) \<Rightarrow> create_and_open E control name source w))"

section \<open>A database handle\<close>

definition database_Close :: "'db test_env \<Rightarrow> TestDatabase option \<Rightarrow> 'db test_world \<Rightarrow> test_error option \<times> TestDatabase option \<times> 'db test_world" where
  "database_Close E database w =
     (case database of
        None \<Rightarrow> (None, None, w)
      | Some d \<Rightarrow>
          (case DB d of
             None \<Rightarrow> (None, Some d, w)
           | Some p \<Rightarrow>
               if closed_once d then (closeErr d, Some d, w)
               else (case close_pool E p w of (e, w) \<Rightarrow> (e, Some (d\<lparr>closed_once := True, closeErr := e\<rparr>), w))))"

definition join_errors :: "test_error option list \<Rightarrow> test_error option" where
  "join_errors es = (case [e. Some e \<leftarrow> es] of [] \<Rightarrow> None | xs \<Rightarrow> Some (Joined xs))"

definition Drop :: "'db test_env \<Rightarrow> TestDatabase option \<Rightarrow> 'db test_world \<Rightarrow> test_error option \<times> TestDatabase option \<times> 'db test_world" where
  "Drop E database w =
     (case database of
        None \<Rightarrow> (None, None, w)
      | Some d \<Rightarrow>
          if dropped_once d then (dropErr d, Some d, w)
          else (case database_Close E (Some d) w of
             (closeError, d1, w) \<Rightarrow>
               (case db_control d of
                  None \<Rightarrow> (let e = join_errors [closeError, Some NoControlPlane] in (e, map_option (\<lambda>d. d\<lparr>dropped_once := True, dropErr := e\<rparr>) d1, w))
                | Some c \<Rightarrow>
                    (case control_drop E (Some c) (Name d) w of
                       (dropError, w) \<Rightarrow>
                         (let e = join_errors [closeError, dropError] in (e, map_option (\<lambda>d. d\<lparr>dropped_once := True, dropErr := e\<rparr>) d1, w))))))"

definition isolated_access :: "string \<Rightarrow> string \<Rightarrow> string \<Rightarrow> string \<Rightarrow> string list \<Rightarrow> RuntimeAccess" where
  "isolated_access name ownerUser readOnlyUser readWriteUser schemas =
     \<lparr>Database = name, OwnerRole = ownerUser, ReadOnlyRole = readOnlyUser, ReadWriteRole = readWriteUser,
      Schemas = (if schemas = [] then [''public''] else schemas), ReadWriteRoles = [], ReadOnlyRoles = [],
      ReconcileReadOnlyRoleMemberships = False, ReconcileReadWriteRoleMemberships = False,
      access_AuthMode = [], ReadOnlyPrincipals = [], ReadWritePrincipals = []\<rparr>"

definition isolated_transaction :: "'db cluster \<Rightarrow> RuntimeAccess \<Rightarrow> 'db \<Rightarrow> test_error option \<times> 'db" where
  "isolated_transaction K a d =
     (case BeginTx K d of
        Some e \<Rightarrow> (Some (TestBegin e), d)
      | None \<Rightarrow>
          (case reconcile (server K) a \<lparr>db = d, issued = []\<rparr> of
             (Some e, _) \<Rightarrow> (Some (TestReconcile e), d)
           | (None, t) \<Rightarrow>
               (case Commit K t of (Some e, d') \<Rightarrow> (Some (TestCommit e), d') | (None, d') \<Rightarrow> (None, d'))))"

definition database_ReconcileRuntimeAccess :: "'db test_env \<Rightarrow> TestDatabase option \<Rightarrow> string \<Rightarrow> string \<Rightarrow> string list \<Rightarrow> 'db test_world
    \<Rightarrow> test_error option \<times> 'db test_world" where
  "database_ReconcileRuntimeAccess E database readOnlyConnection readWriteConnection schemas w =
     (case database of None \<Rightarrow> (Some DatabaseNotOpen, w) | Some d \<Rightarrow>
     (case (DB d, db_control d) of
        (Some p, Some c) \<Rightarrow>
          (case ParseConfig E (ownerConnection c) of Inl e \<Rightarrow> (Some (ConnectionUnparsed e), w) | Inr ownerConfig \<Rightarrow>
          (case ParseConfig E readOnlyConnection of Inl e \<Rightarrow> (Some (ConnectionUnparsed e), w) | Inr readOnlyConfig \<Rightarrow>
          (case ParseConfig E readWriteConnection of Inl e \<Rightarrow> (Some (ConnectionUnparsed e), w) | Inr readWriteConfig \<Rightarrow>
          (case pools w p of None \<Rightarrow> (Some (TestBegin ''sql: database is closed''), w) | Some t \<Rightarrow>
          (case target_database E t of None \<Rightarrow> (Some (TestBegin ''cannot parse connection''), w) | Some name \<Rightarrow>
          (case databases w name of None \<Rightarrow> (Some (TestBegin ''database does not exist''), w) | Some state \<Rightarrow>
          (case isolated_transaction (test_cluster E) (isolated_access (Name d) (conf_User ownerConfig) (conf_User readOnlyConfig)
                  (conf_User readWriteConfig) schemas) state of
             (e, state') \<Rightarrow> (e, w\<lparr>databases := (databases w)(name \<mapsto> state')\<rparr>))))))))
      | _ \<Rightarrow> (Some DatabaseNotOpen, w)))"

section \<open>Lemmas on names\<close>

lemma check_name_append: "check_name i (s @ t) \<longleftrightarrow> check_name i s \<and> check_name (i + length s) t"
  by (induction s arbitrary: i) auto

lemma check_name_take: "check_name i s \<Longrightarrow> check_name i (take n s)"
  using check_name_append [of i "take n s" "drop n s"] by simp

lemma check_name_hex: "i > 0 \<Longrightarrow> list_all is_hex s \<Longrightarrow> check_name i s"
proof (induction s arbitrary: i)
  case (Cons c s)
  then have "is_hex c" by simp
  then have "CHR ''a'' \<le> c \<and> c \<le> CHR ''z'' \<or> CHR ''0'' \<le> c \<and> c \<le> CHR ''9''" by (auto simp: is_hex_def is_digit_def less_eq_char_def)
  then show ?case using Cons by auto
qed simp

lemma drawn_name:
  assumes "uniqueDatabaseName E given w = (Inr name, w')"
  shows "validateDatabaseName name = None" and "length name \<le> 63" and "w' = call w"
proof -
  obtain bytes where stem: "validateDatabaseName (TrimSpace given) = None" and w': "w' = call w"
    and name: "name = take 46 (TrimSpace given) @ ''_'' @ EncodeToString (map bytes [0..<8])"
    using assms by (auto simp: uniqueDatabaseName_def Let_def split: option.splits sum.splits)
  show "w' = call w" by (fact w')
  show len: "length name \<le> 63" by (simp add: name)
  have "check_name 0 (TrimSpace given)" using stem by (simp add: validateDatabaseName_def split: if_splits)
  then have "check_name 0 name"
    unfolding name check_name_append by (simp add: check_name_take check_name_hex EncodeToString_hex)
  then show "validateDatabaseName name = None" using len by (simp add: validateDatabaseName_def name)
qed

section \<open>Lemmas on the server\<close>

lemma call_simps [simp]:
  "databases (call w) = databases w" "pools (call w) = pools w" "pool_ids (call w) = pool_ids w"
  by (simp_all add: call_def)

lemma owner_exec_pools: "owner_exec E p st eff w = (e, w') \<Longrightarrow> pools w' = pools w \<and> pool_ids w' = pool_ids w"
  by (auto simp: owner_exec_def Let_def split: if_splits option.splits prod.splits)

lemma owner_exec_databases:
  assumes "owner_exec E p st eff w = (e, w')"
  shows "e = None \<longrightarrow> eff (databases w) = Some (databases w')" and "databases w' = databases w \<or> eff (databases w) = Some (databases w')"
  using assms by (auto simp: owner_exec_def Let_def split: if_splits option.splits prod.splits)

lemma control_create_cases:
  assumes run: "control_create E control name template w = (e, w')"
  obtains (refused) "w' = w" "e \<noteq> None"
  | (ran) p st e' where "owner_exec E p st (create_effect (empty_database E) name template) w = (e', w')" "e = None \<longrightarrow> e' = None" "control \<noteq> None"
proof (cases "Option.bind control owner")
  case None
  then show thesis using run refused by (auto simp: control_create_def)
next
  case (Some p)
  obtain e' w1 where "owner_exec E p (create_statement (test_driver E) name template) (create_effect (empty_database E) name template) w = (e', w1)"
    by (metis surj_pair)
  then show thesis using run ran Some by (cases control) (auto simp: control_create_def)
qed

lemma control_create_effect:
  assumes run: "control_create E control name template w = (e, w')"
  shows "(pools w' = pools w \<and> pool_ids w' = pool_ids w) \<and> (\<forall>x. databases w x \<noteq> None \<longrightarrow> databases w' x = databases w x) \<and>
    (e = None \<longrightarrow> databases w name = None \<and> control \<noteq> None \<and>
      databases w' = (databases w)(name := if template = [] then Some (empty_database E) else databases w template))"
  using run
proof (cases rule: control_create_cases)
  case (ran p st e')
  note same = owner_exec_pools [OF ran(1)] and dbs = owner_exec_databases [OF ran(1)]
  have "databases w name = None \<and> databases w' = (databases w)(name := if template = [] then Some (empty_database E) else databases w template)"
    if "create_effect (empty_database E) name template (databases w) = Some (databases w')"
    using that by (auto simp: create_effect_def split: if_splits)
  then show ?thesis using same dbs ran by auto
qed auto

lemma control_drop_cases:
  assumes run: "control_drop E control name w = (e, w')"
  obtains (refused) "w' = w" "e \<noteq> None" | (ran) p st e' where "owner_exec E p st (drop_effect name) w = (e', w')" "e = None \<longrightarrow> e' = None"
proof (cases "Option.bind control owner = None \<or> validateDatabaseName name \<noteq> None")
  case True
  then have "control_drop E control name w = (Some ControlNotOpen, w) \<or> control_drop E control name w = (validateDatabaseName name, w) \<and> validateDatabaseName name \<noteq> None"
    by (auto simp: control_drop_def split: option.splits)
  then show thesis using refused run by auto
next
  case False
  then obtain p e' w1 where p: "Option.bind control owner = Some p" and "validateDatabaseName name = None"
    and "owner_exec E p (drop_statement (test_driver E) name) (drop_effect name) w = (e', w1)" by (metis not_None_eq surj_pair)
  then show thesis using run ran by (auto simp: control_drop_def)
qed

lemma control_drop_effect:
  assumes run: "control_drop E control name w = (e, w')"
  shows "pools w' = pools w \<and> (\<forall>x. x \<noteq> name \<longrightarrow> databases w' x = databases w x) \<and> (e = None \<longrightarrow> databases w' name = None)"
  using run
proof (cases rule: control_drop_cases)
  case (ran p st e')
  then show ?thesis using owner_exec_pools [OF ran(1)] owner_exec_databases [OF ran(1)] unfolding drop_effect_def by (metis fun_upd_apply option.inject)
qed auto

lemma control_open_effect:
  assumes "control_open E c name w = (r, w')" and "dom (pools w) \<subseteq> {..<pool_ids w}"
  shows "databases w' = databases w" and "isl r \<Longrightarrow> pools w' = pools w"
    and "r = Inr D \<Longrightarrow> D = \<lparr>Name = name, DB = Some (pool_ids w), db_control = Some c, closed_once = False, closeErr = None, dropped_once = False, dropErr = None\<rparr> \<and>
      (\<exists>config. ParseConfig E (ownerConnection c) = Inr config \<and>
         pools w' = (pools w)(pool_ids w \<mapsto> OpenedConfig (config\<lparr>conf_Database := name\<rparr>))) \<and> pools w (pool_ids w) = None"
  using assms by (auto simp: control_open_def new_pool_def ping_def close_pool_def fun_upd_idem_iff domIff
      split: sum.splits option.splits)

lemma create_and_open_effect:
  assumes run: "create_and_open E control name template w = (r, w')" and inv: "dom (pools w) \<subseteq> {..<pool_ids w}"
  shows "(\<forall>x. databases w x \<noteq> None \<longrightarrow> databases w' x = databases w x) \<and> (isl r \<longrightarrow> pools w' = pools w) \<and>
    (\<forall>D. r = Inr D \<longrightarrow> databases w name = None \<and>
       databases w' = (databases w)(name := if template = [] then Some (empty_database E) else databases w template) \<and>
       D = \<lparr>Name = name, DB = Some (pool_ids w), db_control = control, closed_once = False, closeErr = None, dropped_once = False, dropErr = None\<rparr> \<and>
       (\<exists>c config. control = Some c \<and> ParseConfig E (ownerConnection c) = Inr config \<and>
          pools w' = (pools w)(pool_ids w \<mapsto> OpenedConfig (config\<lparr>conf_Database := name\<rparr>))) \<and> pools w (pool_ids w) = None)"
proof -
  obtain e w1 where create: "control_create E control name template w = (e, w1)" by (metis surj_pair)
  note made = control_create_effect [OF create]
  show ?thesis
  proof (cases e)
    case (Some err)
    then show ?thesis using run create made by (auto simp: create_and_open_def)
  next
    case None
    then obtain c where c: "control = Some c" using made by auto
    obtain r2 w2 where open_: "control_open E c name w1 = (r2, w2)" by (metis surj_pair)
    have inv1: "dom (pools w1) \<subseteq> {..<pool_ids w1}" using made inv by simp
    note opened = control_open_effect [OF open_ inv1]
    show ?thesis
    proof (cases r2)
      case (Inl err)
      then have w': "w' = snd (control_drop E control name w2)" "isl r" using run create None c open_ by (auto simp: create_and_open_def)
      obtain e3 where "control_drop E control name w2 = (e3, w')" using w' by (metis prod.collapse)
      from control_drop_effect [OF this] show ?thesis
        using made None opened Inl w'(2) by (auto simp: isl_def) (metis fun_upd_other option.distinct(1))+
    next
      case (Inr D)
      then have "r = Inr D" "w' = w2" using run create None c open_ by (auto simp: create_and_open_def)
      then show ?thesis using made None opened Inr c by (auto split: if_splits)
    qed
  qed
qed

lemma Drop_effect:
  assumes fresh: "DB D = Some p" "\<not> closed_once D" "\<not> dropped_once D" and run: "Drop E (Some D) w = (e, D', w')"
  shows "pools w' p = None \<and> (\<forall>x. x \<noteq> Name D \<longrightarrow> databases w' x = databases w x) \<and> (e = None \<longrightarrow> databases w' (Name D) = None) \<and>
    (\<forall>u. Drop E D' u = (e, D', u))"
proof -
  obtain ce w1 where close: "close_pool E p w = (ce, w1)" by (metis surj_pair)
  then have w1: "pools w1 p = None" "databases w1 = databases w" by (auto simp: close_pool_def)
  have closed: "database_Close E (Some D) w = (ce, Some (D\<lparr>closed_once := True, closeErr := ce\<rparr>), w1)"
    using fresh close by (simp add: database_Close_def)
  show ?thesis
  proof (cases "db_control D")
    case None
    then show ?thesis using run fresh closed w1 by (auto simp: Drop_def Let_def join_errors_def split: option.splits)
  next
    case (Some c)
    obtain de w2 where drop: "control_drop E (Some c) (Name D) w1 = (de, w2)" by (metis surj_pair)
    have "e = join_errors [ce, de]" "w' = w2" "\<forall>u. Drop E D' u = (e, D', u)"
      using run fresh closed Some drop by (auto simp: Drop_def Let_def)
    then show ?thesis using control_drop_effect [OF drop] w1 by (auto simp: join_errors_def split: option.splits)
  qed
qed

text \<open>The grants of an isolated database change the database its pool is on and no other, and only a commit changes that one.\<close>

theorem isolated_reconcile_atomic:
  assumes run: "database_ReconcileRuntimeAccess E (Some D) readOnlyConnection readWriteConnection schemas w = (r, w')"
    and pool: "DB D = Some p" "\<forall>t. pools w p = Some t \<longrightarrow> target_database E t = Some (Name D)"
  shows "pools w' = pools w \<and> (\<forall>x. x \<noteq> Name D \<longrightarrow> databases w' x = databases w x) \<and>
    (databases w' = databases w \<or> (\<exists>a d t. databases w (Name D) = Some d \<and>
       ReconcileRuntimeAccess (server (test_cluster E)) (Some ()) (Some \<lparr>db = d, issued = []\<rparr>) a = (None, Some t) \<and> Database a = Name D \<and>
       databases w' (Name D) = Some (snd (Commit (test_cluster E) t))))"
proof -
  consider "w' = w" | a d r' d' where "databases w (Name D) = Some d" "isolated_transaction (test_cluster E) a d = (r', d')" "Database a = Name D"
      "w' = w\<lparr>databases := (databases w)(Name D \<mapsto> d')\<rparr>"
    using run pool by (fastforce simp: database_ReconcileRuntimeAccess_def isolated_access_def split: option.splits sum.splits if_splits prod.splits)
  then show ?thesis
  proof cases
    case 2
    then consider "d' = d" | t where "reconcile (server (test_cluster E)) a \<lparr>db = d, issued = []\<rparr> = (None, t)" "d' = snd (Commit (test_cluster E) t)"
      by (auto simp: isolated_transaction_def split: option.splits prod.splits)
    then show ?thesis
    proof cases
      case 1
      then show ?thesis using 2 by (simp add: fun_upd_idem)
    next
      case (2 t)
      then show ?thesis
        using \<open>databases w (Name D) = Some d\<close> \<open>Database a = Name D\<close> \<open>w' = _\<close> by (auto simp: reconcile_None)
    qed
  qed simp
qed

text \<open>
  C40: an isolated database is isolated. Creating one, or cloning one, never changes a database that exists, whatever
  fails; a failure leaves the pools as they were; a success returns a database with a name that is a plain identifier of at most
  63 bytes and was free, with the content of the source or empty, and opens exactly one more pool, with the owner's configuration
  but on the new database, never on the one that the owner's connection names. So a reconciliation of grants through that pool, as long as
  it is that one or closed, changes no other database. Dropping it, at whatever time, closes that pool and changes no other database;
  when it reports no error the database is gone; and every later drop of the same handle gives the same answer and does nothing.
\<close>

theorem isolated_database_contained:
  assumes run: "(if source = [] then control_Create E control given w else Clone E control source given w) = (r, w')"
    and pools: "dom (pools w) \<subseteq> {..<pool_ids w}"
  shows "(\<forall>x. databases w x \<noteq> None \<longrightarrow> databases w' x = databases w x) \<and>
    (case r of
       Inl _ \<Rightarrow> pools w' = pools w
     | Inr D \<Rightarrow>
         validateDatabaseName (Name D) = None \<and> length (Name D) \<le> 63 \<and> databases w (Name D) = None \<and>
         databases w' = (databases w)(Name D := if source = [] then Some (empty_database E) else databases w source) \<and>
         (\<exists>p c config. DB D = Some p \<and> pools w p = None \<and> control = Some c \<and> ParseConfig E (ownerConnection c) = Inr config \<and>
            pools w' = (pools w)(p \<mapsto> OpenedConfig (config\<lparr>conf_Database := Name D\<rparr>)) \<and>
            Option.bind (pools w' p) (target_database E) = Some (Name D) \<and>
            (\<forall>w1 ro rw schemas e w2. pools w1 p \<in> {None, pools w' p} \<longrightarrow>
               database_ReconcileRuntimeAccess E (Some D) ro rw schemas w1 = (e, w2) \<longrightarrow>
               pools w2 = pools w1 \<and> (\<forall>x. x \<noteq> Name D \<longrightarrow> databases w2 x = databases w1 x)) \<and>
            (\<forall>w1 e D' w2. Drop E (Some D) w1 = (e, D', w2) \<longrightarrow>
               pools w2 p = None \<and> (\<forall>x. x \<noteq> Name D \<longrightarrow> databases w2 x = databases w1 x) \<and> (e = None \<longrightarrow> databases w2 (Name D) = None) \<and>
               (\<forall>u. Drop E D' u = (e, D', u)))))"
proof -
  consider (refused) "isl r" "databases w' = databases w" "pools w' = pools w"
    | (made) name where "uniqueDatabaseName E given w = (Inr name, call w)" "create_and_open E control name source (call w) = (r, w')"
  proof -
    obtain u w1 where draw: "uniqueDatabaseName E given w = (u, w1)" by (metis surj_pair)
    then have same: "w1 = w \<or> w1 = call w" "\<And>n. u = Inr n \<Longrightarrow> w1 = call w"
      by (auto simp: uniqueDatabaseName_def Let_def split: option.splits sum.splits)
    show thesis
      using run draw same refused made by (cases u) (auto simp: control_Create_def Clone_def split: if_splits option.splits)
  qed
  then show ?thesis
  proof cases
    case refused
    then show ?thesis by (auto simp: isl_def)
  next
    case made
    have inv: "dom (pools (call w)) \<subseteq> {..<pool_ids (call w)}" using pools by simp
    note effect = create_and_open_effect [OF made(2) inv]
    show ?thesis
    proof (cases r)
      case (Inr D)
      then have D: "Name D = name" "DB D = Some (pool_ids w)" "\<not> closed_once D" "\<not> dropped_once D" using effect by simp_all
      obtain c config where c: "control = Some c" "ParseConfig E (ownerConnection c) = Inr config"
        "pools w' = (pools w)(pool_ids w \<mapsto> OpenedConfig (config\<lparr>conf_Database := Name D\<rparr>))"
        using effect Inr D(1) by auto
      have target: "Option.bind (pools w' (pool_ids w)) (target_database E) = Some (Name D)"
        using c(3) by (simp add: target_database_def)
      have grants: "\<forall>w1 ro rw schemas e w2. pools w1 (pool_ids w) \<in> {None, pools w' (pool_ids w)} \<longrightarrow>
          database_ReconcileRuntimeAccess E (Some D) ro rw schemas w1 = (e, w2) \<longrightarrow>
          pools w2 = pools w1 \<and> (\<forall>x. x \<noteq> Name D \<longrightarrow> databases w2 x = databases w1 x)"
      proof (intro allI impI)
        fix w1 :: "'a test_world" and ro rw schemas e w2
        assume "pools w1 (pool_ids w) \<in> {None, pools w' (pool_ids w)}" and
          reconciled: "database_ReconcileRuntimeAccess E (Some D) ro rw schemas w1 = (e, w2)"
        then have "\<forall>t. pools w1 (pool_ids w) = Some t \<longrightarrow> target_database E t = Some (Name D)" using target by auto
        from isolated_reconcile_atomic [OF reconciled D(2) this]
        show "pools w2 = pools w1 \<and> (\<forall>x. x \<noteq> Name D \<longrightarrow> databases w2 x = databases w1 x)" by blast
      qed
      have later: "\<forall>w1 e D' w2. Drop E (Some D) w1 = (e, D', w2) \<longrightarrow> pools w2 (pool_ids w) = None \<and>
          (\<forall>x. x \<noteq> Name D \<longrightarrow> databases w2 x = databases w1 x) \<and> (e = None \<longrightarrow> databases w2 (Name D) = None) \<and> (\<forall>u. Drop E D' u = (e, D', u))"
        using Drop_effect [OF D(2-4)] by blast
      have all: "databases w (Name D) = None" "databases w' = (databases w)(Name D := if source = [] then Some (empty_database E) else databases w source)"
          "pools w (pool_ids w) = None" "\<forall>x. databases w x \<noteq> None \<longrightarrow> databases w' x = databases w x"
        using effect Inr D(1) by auto
      show ?thesis unfolding Inr sum.case
        by (intro conjI exI [of _ "pool_ids w"] exI [of _ c] exI [of _ config] all D(2) c target grants later)
          (simp_all add: D(1) drawn_name [OF made(1)])
    qed (use effect in simp)
  qed
qed

section \<open>A sample server\<close>

definition sample_test_env :: "sample_db test_env" where
  "sample_test_env = \<lparr>test_cluster = sample_cluster, test_driver = \<lparr>QuoteIdentifier = (\<lambda>s. s), QuoteLiteral = (\<lambda>s. s)\<rparr>, empty_database = sample_cluster_db,
     sql_Open = (\<lambda>_. None), ping_error = (\<lambda>_. None), close_error = (\<lambda>_. None), statement_error = (\<lambda>_. None),
     rand_Read = (\<lambda>_. Inr (\<lambda>_. CHR 0x00)), ParseConfig = (\<lambda>_. Inr \<lparr>conf_User = ''owner'', conf_Database = ''admin''\<rparr>)\<rparr>"

definition sample_test_world :: "sample_db test_world" where
  "sample_test_world = \<lparr>databases = [''admin'' \<mapsto> sample_cluster_db], pools = [0 \<mapsto> OpenedString ''postgres://''], pool_ids = 1, calls = 0, statements = []\<rparr>"

definition sample_control :: ControlPlane where
  "sample_control = \<lparr>ownerConnection = ''postgres://'', owner = Some 0, cp_closed = False\<rparr>"

theorem isolated_database_contained_witness:
  "\<exists>D w'. control_Create sample_test_env (Some sample_control) '' orders '' sample_test_world = (Inr D, w') \<and> Name D = ''orders_0000000000000000'' \<and>
    databases w' (Name D) = Some sample_cluster_db \<and> databases w' ''admin'' = Some sample_cluster_db \<and>
    (\<exists>p. DB D = Some p \<and> pools w' p = Some (OpenedConfig \<lparr>conf_User = ''owner'', conf_Database = Name D\<rparr>))"
proof -
  let ?r = "control_Create sample_test_env (Some sample_control) '' orders '' sample_test_world"
  have name: "case fst ?r of Inl _ \<Rightarrow> False | Inr D \<Rightarrow> Name D = ''orders_0000000000000000''" by code_simp
  have run: "(if [] = ([] :: string) then ?r else Clone sample_test_env (Some sample_control) [] '' orders '' sample_test_world) = (fst ?r, snd ?r)" by simp
  have "dom (pools sample_test_world) \<subseteq> {..<pool_ids sample_test_world}" by (simp add: sample_test_world_def)
  note contained = isolated_database_contained [OF run this]
  obtain D where D: "fst ?r = Inr D" "Name D = ''orders_0000000000000000''" using name by (cases "fst ?r") auto
  then have r: "?r = (Inr D, snd ?r)" by (simp add: prod_eq_iff)
  note m = contained [THEN conjunct2, unfolded D(1) sum.case, THEN conjunct2, THEN conjunct2, THEN conjunct2]
  have made: "databases (snd ?r) = (databases sample_test_world)(Name D := Some (empty_database sample_test_env))"
    using m [THEN conjunct1] by (simp only: refl if_True)
  obtain p c config where "DB D = Some p" "Some sample_control = Some c" "ParseConfig sample_test_env (ownerConnection c) = Inr config"
      "pools (snd ?r) = (pools sample_test_world)(p \<mapsto> OpenedConfig (config\<lparr>conf_Database := Name D\<rparr>))"
    using m [THEN conjunct2] by (elim exE conjE)
  then obtain p config where p: "DB D = Some p" "ParseConfig sample_test_env (ownerConnection sample_control) = Inr config"
    "pools (snd ?r) p = Some (OpenedConfig (config\<lparr>conf_Database := Name D\<rparr>))" by auto
  have config: "config = \<lparr>conf_User = ''owner'', conf_Database = ''admin''\<rparr>" using p(2) by (simp add: sample_test_env_def)
  have "databases (snd ?r) (Name D) = Some sample_cluster_db" "databases (snd ?r) ''admin'' = Some sample_cluster_db"
    unfolding made by (simp_all add: D(2) sample_test_world_def sample_test_env_def)
  with r p(1,3) D(2) show ?thesis unfolding config by (intro exI [of _ D] exI [of _ "snd ?r"]) simp
qed

end
