(* ===== verification/Supervision.thy ===== *)
theory Supervision
  imports Prelude
begin

text \<open>
  The supervision of the shared server in \<open>nixpg.go\<close>: the goroutine of \<open>watch\<close>, which looks at the postmaster at
  every tick and reports its disappearance on a channel of capacity one; the goroutines that \<open>Supervise\<close> starts,
  one per call, which wait on that channel; and \<open>release\<close>, which cancels the context first. Each step of each goroutine
  is a step here, so every interleaving is covered. A process that has ended stays ended, since it is known by its birth.
\<close>

section \<open>State\<close>

datatype watch_pc = Watching | Sending | Closing | WatchReturned

datatype supervise_pc = AwaitExit | CheckStopped | CallOnExit | SuperviseReturned

text \<open>
  \<open>died_held\<close> records whether the server ended before the context was cancelled, and \<open>on_exit\<close> counts the calls of
  \<open>onExit\<close>; the code has neither.
\<close>

record supervision =
  postmaster_gone :: bool
  serverCtx_cancelled :: bool
  exit_buffered :: bool
  exit_closed :: bool
  watch_at :: watch_pc
  supervise_at :: "supervise_pc list"
  died_held :: bool
  on_exit :: nat

definition watched :: "supervision \<Rightarrow> bool" where
  "watched s \<longleftrightarrow> s = \<lparr>postmaster_gone = postmaster_gone s, serverCtx_cancelled = False, exit_buffered = False, exit_closed = False,
     watch_at = Watching, supervise_at = [], died_held = postmaster_gone s, on_exit = 0\<rparr>"

datatype supervision_event =
    ServerEnds
  | Release
  | Supervise
  | Tick
  | ContextDone
  | SendExit
  | CloseExit
  | Received nat
  | ChannelClosed nat
  | Stopped nat
  | NotStopped nat
  | OnExit nat

text \<open>The goroutine of \<open>watch\<close>: a tick finds the server alive or gone; the context ends the loop.\<close>

inductive watch_step :: "supervision \<Rightarrow> supervision_event \<Rightarrow> supervision \<Rightarrow> bool" where
  tick_alive: "watch_at s = Watching \<Longrightarrow> \<not> postmaster_gone s \<Longrightarrow> watch_step s Tick s"
| tick_gone: "watch_at s = Watching \<Longrightarrow> postmaster_gone s \<Longrightarrow> watch_step s Tick (s\<lparr>watch_at := Sending\<rparr>)"
| context_done: "watch_at s = Watching \<Longrightarrow> serverCtx_cancelled s \<Longrightarrow> watch_step s ContextDone (s\<lparr>watch_at := WatchReturned\<rparr>)"
| send: "watch_at s = Sending \<Longrightarrow> \<not> exit_buffered s \<Longrightarrow> watch_step s SendExit (s\<lparr>exit_buffered := True, watch_at := Closing\<rparr>)"
| close: "watch_at s = Closing \<Longrightarrow> watch_step s CloseExit (s\<lparr>exit_closed := True, watch_at := WatchReturned\<rparr>)"

definition advance :: "nat \<Rightarrow> supervise_pc \<Rightarrow> supervision \<Rightarrow> supervision" where
  "advance i p s = s\<lparr>supervise_at := (supervise_at s)[i := p]\<rparr>"

definition waits :: "supervision \<Rightarrow> nat \<Rightarrow> supervise_pc \<Rightarrow> bool" where
  "waits s i p \<longleftrightarrow> i < length (supervise_at s) \<and> supervise_at s ! i = p"

text \<open>
  The goroutine of one call of \<open>Supervise\<close>: a buffered error is received even after the channel is closed; then the
  context is polled, and \<open>onExit\<close> runs unless it is done.
\<close>

inductive supervise_step :: "supervision \<Rightarrow> supervision_event \<Rightarrow> supervision \<Rightarrow> bool" where
  received: "waits s i AwaitExit \<Longrightarrow> exit_buffered s \<Longrightarrow> supervise_step s (Received i) (advance i CheckStopped (s\<lparr>exit_buffered := False\<rparr>))"
| closed: "waits s i AwaitExit \<Longrightarrow> \<not> exit_buffered s \<Longrightarrow> exit_closed s \<Longrightarrow> supervise_step s (ChannelClosed i) (advance i SuperviseReturned s)"
| stopped: "waits s i CheckStopped \<Longrightarrow> serverCtx_cancelled s \<Longrightarrow> supervise_step s (Stopped i) (advance i SuperviseReturned s)"
| not_stopped: "waits s i CheckStopped \<Longrightarrow> \<not> serverCtx_cancelled s \<Longrightarrow> supervise_step s (NotStopped i) (advance i CallOnExit s)"
| on_exit: "waits s i CallOnExit \<Longrightarrow> supervise_step s (OnExit i) (advance i SuperviseReturned (s\<lparr>on_exit := on_exit s + 1\<rparr>))"

text \<open>What the agent's handlers and the world do: the server ends, \<open>release\<close> cancels, \<open>Start\<close> calls \<open>Supervise\<close>.\<close>

inductive supervision_step :: "supervision \<Rightarrow> supervision_event \<Rightarrow> supervision \<Rightarrow> bool" where
  watch: "watch_step s e t \<Longrightarrow> supervision_step s e t"
| supervise: "supervise_step s e t \<Longrightarrow> supervision_step s e t"
| ends: "\<not> postmaster_gone s \<Longrightarrow> supervision_step s ServerEnds (s\<lparr>postmaster_gone := True, died_held := \<not> serverCtx_cancelled s\<rparr>)"
| release: "supervision_step s Release (s\<lparr>serverCtx_cancelled := True\<rparr>)"
| called: "supervision_step s Supervise (s\<lparr>supervise_at := supervise_at s @ [AwaitExit]\<rparr>)"

inductive_cases watch_stepE: "watch_step s e t"
inductive_cases supervise_stepE: "supervise_step s e t"
inductive_cases supervision_stepE: "supervision_step s e t"

section \<open>The invariant\<close>

text \<open>Where the one report is: on its way in, in the buffer, with one supervisor, or delivered.\<close>

definition holding :: "supervise_pc \<Rightarrow> bool" where "holding p \<longleftrightarrow> p = CheckStopped \<or> p = CallOnExit"

definition reports :: "supervision \<Rightarrow> nat" where
  "reports s = (if exit_buffered s then 1 else 0) + length (filter holding (supervise_at s)) + on_exit s"

definition supervision_inv :: "supervision \<Rightarrow> bool" where
  "supervision_inv s \<longleftrightarrow>
     (watch_at s = Watching \<or> watch_at s = Sending \<longrightarrow> reports s = 0) \<and> reports s \<le> 1 \<and>
     (watch_at s = Sending \<or> watch_at s = Closing \<or> 0 < reports s \<longrightarrow> postmaster_gone s) \<and>
     (exit_closed s \<longrightarrow> watch_at s = WatchReturned \<and> postmaster_gone s) \<and>
     (watch_at s = WatchReturned \<and> \<not> exit_closed s \<longrightarrow> serverCtx_cancelled s \<and> reports s = 0) \<and>
     (postmaster_gone s \<and> \<not> serverCtx_cancelled s \<longrightarrow> died_held s) \<and>
     (on_exit s > 0 \<or> CallOnExit \<in> set (supervise_at s) \<longrightarrow> died_held s) \<and>
     ((watch_at s = Closing \<or> exit_closed s) \<and> reports s = 0 \<longrightarrow> serverCtx_cancelled s) \<and>
     (watch_at s = Watching \<or> watch_at s = Sending \<longrightarrow> set (supervise_at s) \<subseteq> {AwaitExit}) \<and>
     (exit_buffered s \<longrightarrow> SuperviseReturned \<notin> set (supervise_at s))"

lemma filter_update:
  "i < length xs \<Longrightarrow> length (filter P (xs[i := y])) + (if P (xs ! i) then 1 else 0) = length (filter P xs) + (if P y then 1 else 0)"
proof (induction xs arbitrary: i)
  case (Cons x xs)
  show ?case
  proof (cases i)
    case (Suc j)
    then show ?thesis using Cons.IH [of j] Cons.prems by auto
  qed simp
qed simp

lemma in_set_update: "x \<in> set (xs[i := y]) \<Longrightarrow> x = y \<or> x \<in> set xs"
  by (meson insertE set_update_subset_insert subsetD)

lemma advance_simps [simp]:
  "postmaster_gone (advance i p s) = postmaster_gone s" "serverCtx_cancelled (advance i p s) = serverCtx_cancelled s"
  "exit_buffered (advance i p s) = exit_buffered s" "exit_closed (advance i p s) = exit_closed s" "watch_at (advance i p s) = watch_at s"
  "died_held (advance i p s) = died_held s" "on_exit (advance i p s) = on_exit s"
  "supervise_at (advance i p s) = (supervise_at s)[i := p]"
  by (simp_all add: advance_def)

lemma holding_simps [simp]: "\<not> holding AwaitExit" "holding CheckStopped" "holding CallOnExit" "\<not> holding SuperviseReturned"
  by (simp_all add: holding_def)

lemma reports_advance:
  "waits s i p \<Longrightarrow> reports (advance i q s) + (if holding p then 1 else 0) = reports s + (if holding q then 1 else 0)"
  using filter_update [of i "supervise_at s" holding q] by (auto simp: reports_def waits_def)

lemma waits_in_set: "waits s i p \<Longrightarrow> p \<in> set (supervise_at s)"
  by (auto simp: waits_def)

lemma watch_inv: "supervision_inv s \<Longrightarrow> watch_step s e t \<Longrightarrow> supervision_inv t"
  by (erule watch_stepE) (auto simp: supervision_inv_def reports_def)

lemma waits_reports: "waits s i p \<Longrightarrow> holding p \<Longrightarrow> 0 < reports s \<and> (exit_buffered s \<longrightarrow> 1 < reports s)"
proof -
  assume "waits s i p" "holding p"
  then have "filter holding (supervise_at s) \<noteq> []" by (auto simp: waits_def filter_empty_conv)
  then show ?thesis by (simp add: reports_def)
qed

lemma supervise_inv:
  assumes inv: "supervision_inv s" and step: "supervise_step s e t"
  shows "supervision_inv t"
  using step
proof (cases rule: supervise_step.cases)
  case (received i)
  then have t: "reports t = reports s" "0 < reports s" using reports_advance [of "s\<lparr>exit_buffered := False\<rparr>" i AwaitExit CheckStopped]
    by (simp_all add: waits_def reports_def)
  have "CallOnExit \<in> set (supervise_at t) \<Longrightarrow> CallOnExit \<in> set (supervise_at s)" using received by (auto dest: in_set_update)
  with t show ?thesis using inv received unfolding supervision_inv_def by simp
next
  case (closed i)
  then have t: "reports t = reports s" using reports_advance [of s i AwaitExit SuperviseReturned] by simp
  have "CallOnExit \<in> set (supervise_at t) \<Longrightarrow> CallOnExit \<in> set (supervise_at s)" using closed by (auto dest: in_set_update)
  with t show ?thesis using inv closed unfolding supervision_inv_def by simp
next
  case (stopped i)
  then have t: "reports t + 1 = reports s" using reports_advance [of s i CheckStopped SuperviseReturned] by simp
  note r = waits_reports [OF stopped(3)]
  have "CallOnExit \<in> set (supervise_at t) \<Longrightarrow> CallOnExit \<in> set (supervise_at s)" using stopped by (auto dest: in_set_update)
  with t r show ?thesis using inv stopped unfolding supervision_inv_def by simp
next
  case (not_stopped i)
  then have t: "reports t = reports s" using reports_advance [of s i CheckStopped CallOnExit] by simp
  note r = waits_reports [OF not_stopped(3)]
  have "died_held s" using inv not_stopped r unfolding supervision_inv_def by simp
  with t r show ?thesis using inv not_stopped unfolding supervision_inv_def by simp
next
  case (on_exit i)
  then have t: "reports t = reports s" using reports_advance [of "s\<lparr>on_exit := supervision.on_exit s + 1\<rparr>" i CallOnExit SuperviseReturned]
    by (simp add: waits_def reports_def)
  note r = waits_reports [OF on_exit(3)] and called = waits_in_set [OF on_exit(3)]
  have "died_held s" using inv called unfolding supervision_inv_def by blast
  with t r show ?thesis using inv on_exit unfolding supervision_inv_def by simp
qed

lemma reports_simps [simp]:
  "reports (s\<lparr>serverCtx_cancelled := b\<rparr>) = reports s" "reports (s\<lparr>supervise_at := supervise_at s @ [AwaitExit]\<rparr>) = reports s"
  "reports (s\<lparr>postmaster_gone := b, died_held := c\<rparr>) = reports s"
  by (simp_all add: reports_def)

lemma release_inv: "supervision_inv s \<Longrightarrow> supervision_inv (s\<lparr>serverCtx_cancelled := True\<rparr>)"
  unfolding supervision_inv_def by simp

lemma called_inv: "supervision_inv s \<Longrightarrow> supervision_inv (s\<lparr>supervise_at := supervise_at s @ [AwaitExit]\<rparr>)"
  unfolding supervision_inv_def by simp

lemma ends_inv:
  assumes inv: "supervision_inv s" and alive: "\<not> postmaster_gone s"
  shows "supervision_inv (s\<lparr>postmaster_gone := True, died_held := \<not> serverCtx_cancelled s\<rparr>)"
proof -
  have none: "reports s = 0" using inv alive unfolding supervision_inv_def by linarith
  then have "on_exit s = 0" "CallOnExit \<notin> set (supervise_at s)" by (auto simp: reports_def filter_empty_conv)
  then show ?thesis using inv alive none unfolding supervision_inv_def by simp
qed

lemmas handler_inv = release_inv called_inv ends_inv

interpretation supervising: invariant_system watched supervision_step supervision_inv
proof
  show "supervision_inv s" if "watched s" for s
  proof -
    from that have "watch_at s = Watching" "supervise_at s = []" "\<not> exit_buffered s" "on_exit s = 0" "\<not> exit_closed s" "died_held s = postmaster_gone s"
      unfolding watched_def by (metis supervision.select_convs)+
    then show ?thesis by (simp add: supervision_inv_def reports_def)
  qed
  show "supervision_inv t" if "supervision_inv s" "supervision_step s e t" for s e t
    using that(2,1) by (cases rule: supervision_step.cases) (auto intro: watch_inv supervise_inv handler_inv)
qed

section \<open>Properties\<close>

definition goroutine_moves :: "supervision \<Rightarrow> supervision_event \<Rightarrow> supervision \<Rightarrow> bool" where
  "goroutine_moves s e t \<longleftrightarrow> (watch_step s e t \<or> supervise_step s e t) \<and> t \<noteq> s"

definition watch_work :: "watch_pc \<Rightarrow> nat" where
  "watch_work p = (case p of Watching \<Rightarrow> 3 | Sending \<Rightarrow> 2 | Closing \<Rightarrow> 1 | WatchReturned \<Rightarrow> 0)"

definition supervise_work :: "supervise_pc \<Rightarrow> nat" where
  "supervise_work p = (case p of AwaitExit \<Rightarrow> 3 | CheckStopped \<Rightarrow> 2 | CallOnExit \<Rightarrow> 1 | SuperviseReturned \<Rightarrow> 0)"

definition work_left :: "supervision \<Rightarrow> nat" where
  "work_left s = watch_work (watch_at s) + sum_list (map supervise_work (supervise_at s))"

lemma sum_list_advance:
  "i < length xs \<Longrightarrow> sum_list (map f (xs[i := y])) + (f (xs ! i) :: nat) = sum_list (map f xs) + f y"
proof (induction xs arbitrary: i)
  case (Cons x xs)
  show ?case
  proof (cases i)
    case (Suc j)
    then show ?thesis using Cons.IH [of j] Cons.prems by auto
  qed simp
qed simp

lemma work_advance: "waits s i p \<Longrightarrow> supervise_work q < supervise_work p \<Longrightarrow> work_left (advance i q s) < work_left s"
  using sum_list_advance [of i "supervise_at s" supervise_work q] by (auto simp: work_left_def waits_def)

lemma work_simps [simp]: "work_left (s\<lparr>exit_buffered := b\<rparr>) = work_left s" "work_left (s\<lparr>on_exit := n\<rparr>) = work_left s"
    "waits (s\<lparr>exit_buffered := b\<rparr>) i p = waits s i p" "waits (s\<lparr>on_exit := n\<rparr>) i p = waits s i p"
  by (simp_all add: work_left_def waits_def)

lemma work_decreases: "goroutine_moves s e t \<Longrightarrow> work_left t < work_left s"
proof -
  assume "goroutine_moves s e t"
  then consider "watch_step s e t" "t \<noteq> s" | "supervise_step s e t" by (auto simp: goroutine_moves_def)
  then show ?thesis
  proof cases
    case 1
    then show ?thesis by (cases rule: watch_step.cases) (auto simp: work_left_def watch_work_def)
  next
    case 2
    then show ?thesis
    proof (cases rule: supervise_step.cases)
      case (received i)
      then show ?thesis using work_advance [of "s\<lparr>exit_buffered := False\<rparr>" i AwaitExit CheckStopped] by (simp add: supervise_work_def)
    next
      case (on_exit i)
      then show ?thesis using work_advance [of "s\<lparr>on_exit := supervision.on_exit s + 1\<rparr>" i CallOnExit SuperviseReturned] by (simp add: supervise_work_def)
    qed (auto intro!: work_advance simp: supervise_work_def)
  qed
qed

lemma at_rest:
  assumes inv: "supervision_inv s" and rest: "\<forall>e t. \<not> goroutine_moves s e t" and gone: "postmaster_gone s" "\<not> serverCtx_cancelled s"
    and some: "supervise_at s \<noteq> []"
  shows "on_exit s = 1"
proof -
  have watch: "watch_at t = watch_at s" if "watch_step s e t" for e t using rest that by (auto simp: goroutine_moves_def)
  have supervise: "supervise_at t = supervise_at s" if "supervise_step s e t" for e t using rest that by (auto simp: goroutine_moves_def)
  have "watch_at s \<noteq> Watching" using watch [OF tick_gone] gone by auto
  moreover have "watch_at s \<noteq> Sending"
  proof
    assume w: "watch_at s = Sending"
    then have "\<not> exit_buffered s" using inv by (auto simp: supervision_inv_def reports_def split: if_splits)
    then show False using watch [OF send [OF w]] w by simp
  qed
  moreover have "watch_at s \<noteq> Closing" using watch [OF close] by auto
  ultimately have "watch_at s = WatchReturned" by (cases "watch_at s") auto
  then have closed: "exit_closed s" and "0 < reports s" using inv gone unfolding supervision_inv_def by auto
  have still: "supervise_at s ! i = q" if "i < length (supervise_at s)" "supervise_step s e (advance i q u)" "supervise_at u = supervise_at s" for i q e u
    using supervise [OF that(2)] that(1,3) by (simp, metis nth_list_update_eq)
  have returned: "supervise_at s ! i = SuperviseReturned" if i: "i < length (supervise_at s)" for i
  proof (cases "supervise_at s ! i")
    case AwaitExit
    then have w: "waits s i AwaitExit" using i by (simp add: waits_def)
    show ?thesis
    proof (cases "exit_buffered s")
      case True
      then show ?thesis using still [OF i supervise_step.received [OF w True]] AwaitExit by simp
    next
      case False
      then show ?thesis using still [OF i supervise_step.closed [OF w False closed]] by simp
    qed
  next
    case CheckStopped
    then show ?thesis using still [OF i supervise_step.not_stopped [OF _ gone(2)]] i by (simp add: waits_def)
  next
    case CallOnExit
    then show ?thesis using still [OF i supervise_step.on_exit] i by (simp add: waits_def)
  qed
  then have "filter holding (supervise_at s) = []" by (auto simp: filter_empty_conv in_set_conv_nth)
  moreover have "\<not> exit_buffered s"
  proof -
    have "SuperviseReturned \<in> set (supervise_at s)" using some returned [of 0] by (metis length_greater_0_conv nth_mem)
    then show ?thesis using inv unfolding supervision_inv_def by blast
  qed
  moreover have "reports s \<le> 1" using inv unfolding supervision_inv_def by blast
  ultimately show ?thesis using \<open>0 < reports s\<close> by (simp add: reports_def)
qed

text \<open>
  C17: the end of a held server is reported, once, and nothing else is. Along every interleaving of the watching goroutine, the
  supervising ones, the handlers and the server, \<open>onExit\<close> runs at most once, and only when the server ended
  before its release had begun; the goroutines that can still move have ever less left to do; and when none
  can move any more, the server is gone and was not released, and \<open>Supervise\<close> was called at least once, \<open>onExit\<close> has run.
\<close>

theorem supervision_reports_once:
  assumes "reachable watched supervision_step s"
  shows "on_exit s \<le> 1 \<and> (on_exit s > 0 \<longrightarrow> postmaster_gone s \<and> died_held s) \<and>
    (\<forall>e t. goroutine_moves s e t \<longrightarrow> work_left t < work_left s) \<and>
    ((\<forall>e t. \<not> goroutine_moves s e t) \<and> postmaster_gone s \<and> \<not> serverCtx_cancelled s \<and> supervise_at s \<noteq> [] \<longrightarrow> on_exit s = 1)"
proof -
  have inv: "supervision_inv s" using assms by (rule supervising.inv_reachable)
  have le: "on_exit s \<le> reports s" by (simp add: reports_def)
  have "on_exit s \<le> 1" and "on_exit s > 0 \<longrightarrow> postmaster_gone s \<and> died_held s" using inv le unfolding supervision_inv_def by auto
  then show ?thesis using work_decreases at_rest [OF inv] by blast
qed

text \<open>
  Nobody closes the channel after an orderly release: when the watching goroutine has returned because the context
  was cancelled, a goroutine of \<open>Supervise\<close> waits for good, whatever happens.
\<close>

definition left_waiting :: "nat \<Rightarrow> supervision \<Rightarrow> bool" where
  "left_waiting i s \<longleftrightarrow> waits s i AwaitExit \<and> watch_at s = WatchReturned \<and> \<not> exit_buffered s \<and> \<not> exit_closed s"

lemma left_waiting_step: "left_waiting i s \<Longrightarrow> supervision_step s e t \<Longrightarrow> left_waiting i t"
  by (erule supervision_stepE; (erule watch_stepE supervise_stepE)?)
    (auto simp: left_waiting_def waits_def advance_def nth_append nth_list_update)

interpretation waiting: invariant_system "left_waiting i" supervision_step "left_waiting i" for i
  by unfold_locales (auto intro: left_waiting_step)

definition sample_supervision :: supervision where
  "sample_supervision = \<lparr>postmaster_gone = False, serverCtx_cancelled = False, exit_buffered = False, exit_closed = False,
     watch_at = Watching, supervise_at = [], died_held = False, on_exit = 0\<rparr>"

lemma sample_supervision_watched: "reachable watched supervision_step sample_supervision"
  by (rule reachable_init) (simp add: watched_def sample_supervision_def)

lemmas supervision_run =
  reachable_step [where init = watched and step = supervision_step, OF _ supervision_step.watch]
  reachable_step [where init = watched and step = supervision_step, OF _ supervision_step.supervise]
  reachable_step [where init = watched and step = supervision_step, OF _ supervision_step.ends]
  reachable_step [where init = watched and step = supervision_step, OF _ supervision_step.release]
  reachable_step [where init = watched and step = supervision_step, OF _ supervision_step.called]

theorem supervisor_left_waiting:
  "(\<exists>s. reachable watched supervision_step s \<and> left_waiting 0 s) \<and>
   (\<forall>t. reachable (left_waiting 0) supervision_step t \<longrightarrow> left_waiting 0 t)"
proof
  let ?s = "sample_supervision\<lparr>supervise_at := [AwaitExit], serverCtx_cancelled := True\<rparr>"
  have "reachable watched supervision_step (sample_supervision\<lparr>supervise_at := supervise_at sample_supervision @ [AwaitExit]\<rparr>)"
    by (rule supervision_run(5) [OF sample_supervision_watched])
  from supervision_run(4) [OF this] have "reachable watched supervision_step ?s" by (simp add: sample_supervision_def)
  from supervision_run(1) [OF this context_done] show "\<exists>s. reachable watched supervision_step s \<and> left_waiting 0 s"
    by (intro exI [of _ "?s\<lparr>watch_at := WatchReturned\<rparr>"]) (simp add: left_waiting_def waits_def sample_supervision_def)
qed (use waiting.inv_reachable in blast)

text \<open>A server that ends under a supervisor: seven steps later it has been reported.\<close>

theorem supervision_reports_once_witness:
  "\<exists>s. reachable watched supervision_step s \<and> postmaster_gone s \<and> on_exit s = 1"
proof -
  let ?s1 = "sample_supervision\<lparr>supervise_at := [AwaitExit]\<rparr>"
  let ?s2 = "?s1\<lparr>postmaster_gone := True, died_held := True\<rparr>"
  have r1: "reachable watched supervision_step ?s1"
    using supervision_run(5) [OF sample_supervision_watched] by (simp add: sample_supervision_def)
  have r2: "reachable watched supervision_step ?s2"
    using supervision_run(3) [OF r1] by (simp add: sample_supervision_def)
  let ?s3 = "?s2\<lparr>watch_at := Sending\<rparr>"
  have r3: "reachable watched supervision_step ?s3"
    using supervision_run(1) [OF r2 tick_gone] by (simp add: sample_supervision_def)
  let ?s4 = "?s2\<lparr>exit_buffered := True, watch_at := Closing\<rparr>"
  have r4: "reachable watched supervision_step ?s4"
    using supervision_run(1) [OF r3 send] by (simp add: sample_supervision_def)
  let ?s5 = "?s2\<lparr>watch_at := Closing, supervise_at := [CheckStopped]\<rparr>"
  have r5: "reachable watched supervision_step ?s5"
    using supervision_run(2) [OF r4 supervise_step.received [of _ 0]] by (simp add: sample_supervision_def waits_def advance_def)
  let ?s6 = "?s5\<lparr>supervise_at := [CallOnExit]\<rparr>"
  have r6: "reachable watched supervision_step ?s6"
    using supervision_run(2) [OF r5 supervise_step.not_stopped [of _ 0]] by (simp add: sample_supervision_def waits_def advance_def)
  let ?s7 = "?s5\<lparr>supervise_at := [SuperviseReturned], on_exit := 1\<rparr>"
  have r7: "reachable watched supervision_step ?s7"
    using supervision_run(2) [OF r6 supervise_step.on_exit [of _ 0]] by (simp add: sample_supervision_def waits_def advance_def)
  have "on_exit ?s7 > 0" by simp
  then show ?thesis using r7 supervision_reports_once [OF r7] by (metis le_neq_implies_less less_one less_numeral_extra(3))
qed

end
