(* ===== verification/WatchSet.thy ===== *)
theory WatchSet
  imports HotReload SchemaPlan
begin

text \<open>
  \<open>migrationWatchRequirements\<close> of \<open>hotreload.go\<close>: the files hot reload follows. A component declares paths, which the watcher
  joins to the service's location, and may select files by a pattern; the fixed components of the agent come
  first, and every resolved migration source that they do not cover is added, relative to the location.
\<close>

record watch_component =
  wc_paths :: "string list"
  wc_select :: "string option"

datatype watch_error = WatchSources schema_error | CannotLocate string

text \<open>The fixed requirements of \<open>main.go\<close>.\<close>

definition requirements :: "watch_component list" where
  "requirements =
     [\<lparr>wc_paths = [''service.codefly.yaml''], wc_select = None\<rparr>,
      \<lparr>wc_paths = [''migrations'', ''migrations''], wc_select = Some ''*.sql''\<rparr>]"

definition watched_paths :: "string \<Rightarrow> watch_component list \<Rightarrow> string list" where
  "watched_paths location components = map (resolveMigrationPath location) (concat (map wc_paths components))"

fun add_sources :: "string \<Rightarrow> string list \<Rightarrow> migrationSource list \<Rightarrow> (watch_error, watch_component list) result" where
  "add_sources location watched [] = Inr []"
| "add_sources location watched (src # srcs) =
     (let dir = Clean (src_dir src) in
      if dir \<in> set watched then add_sources location watched srcs
      else case Rel location dir of
        None \<Rightarrow> Inl (CannotLocate (label src))
      | Some relative \<Rightarrow>
          (case add_sources location (dir # watched) srcs of
             Inl e \<Rightarrow> Inl e
           | Inr added \<Rightarrow> Inr (\<lparr>wc_paths = [relative], wc_select = Some ''*.sql''\<rparr> # added)))"

definition migrationWatchRequirements :: "filesystem \<Rightarrow> (string \<Rightarrow> string) \<Rightarrow> Service \<Rightarrow> (watch_error, watch_component list) result" where
  "migrationWatchRequirements F Local s =
     (case resolveMigrationSources F Local s of
        Inl e \<Rightarrow> Inl (WatchSources e)
      | Inr (srcs, _) \<Rightarrow>
          (case add_sources (Location s) (watched_paths (Location s) requirements) srcs of
             Inl e \<Rightarrow> Inl e
           | Inr added \<Rightarrow> Inr (requirements @ added)))"

section \<open>Joining what \<open>Rel\<close> gives\<close>

definition plain :: "string list \<Rightarrow> bool" where
  "plain es \<longleftrightarrow> (\<forall>e \<in> set es. element e \<and> e \<noteq> ''..'')"

lemma clean_absolute_plain: "plain (clean_elements True path)"
  using clean_elements_ok [of True path] by (auto simp: plain_def clean_list_def list_all_iff)

lemma push_plain: "plain es \<Longrightarrow> foldl (clean_step rooted) stack es = rev es @ stack"
  by (induction es arbitrary: stack) (auto simp: plain_def element_def)

lemma pop_plain: "plain bs \<Longrightarrow> foldl (clean_step rooted) (rev bs @ stack) (replicate (length bs) ''..'') = stack"
proof (induction bs arbitrary: stack rule: rev_induct)
  case (snoc b bs)
  then have "b \<noteq> ''..''" "plain bs" by (simp_all add: plain_def)
  then show ?case using snoc.IH by simp
qed simp

lemma rel_elements_rejoin:
  assumes "rel_elements bs ts = Some es" and "plain bs" and "plain ts"
  shows "foldl (clean_step rooted) (rev bs @ stack) es = rev ts @ stack"
  using assms
proof (induction bs ts arbitrary: es stack rule: rel_elements.induct)
  case (1 ts)
  then show ?case using push_plain by (simp del: clean_step.simps)
next
  case (2 b bs)
  then show ?case using pop_plain [of "b # bs" rooted stack] by (auto simp del: clean_step.simps split: if_splits)
next
  case (3 b bs t ts)
  show ?case
  proof (cases "b = t")
    case True
    then show ?thesis using 3 by (simp add: plain_def)
  next
    case False
    then have es: "es = replicate (length (b # bs)) ''..'' @ t # ts" using 3 by (auto split: if_splits)
    show ?thesis
      unfolding es foldl_append using pop_plain [of "b # bs" rooted stack] push_plain [of "t # ts" rooted stack] 3 by (simp del: clean_step.simps)
  qed
qed

lemma rel_elements_plain: "plain bs \<Longrightarrow> \<exists>es. rel_elements bs ts = Some es"
  by (induction bs ts rule: rel_elements.induct) (auto simp: plain_def)

lemma rel_elements_set: "rel_elements bs ts = Some es \<Longrightarrow> set es \<subseteq> insert ''..'' (set ts)"
proof (induction bs ts arbitrary: es rule: rel_elements.induct)
  case (3 b bs t ts)
  then show ?case by (cases "b = t") (fastforce split: if_splits)+
qed (auto split: if_splits)

lemma rel_elements_elements: "rel_elements bs ts = Some es \<Longrightarrow> plain ts \<Longrightarrow> e \<in> set es \<Longrightarrow> element e"
  using rel_elements_set [of bs ts es] by (auto simp: plain_def element_def)

lemma Rel_absolute: "IsAbs base \<Longrightarrow> IsAbs target \<Longrightarrow> \<exists>r. Rel base target = Some r"
  using rel_elements_plain [OF clean_absolute_plain] by (auto simp: Rel_def)

lemma Split_append: "Split (s @ c # t) c = Split s c @ Split t c"
  by (induction s) (auto split: list.splits)

lemma Rel_rejoin:
  assumes abs: "IsAbs base" "IsAbs target" and rel: "Rel base target = Some r"
  shows "path_Join [base, r] = Clean target"
proof -
  let ?bs = "clean_elements True base" and ?ts = "clean_elements True target"
  obtain es where es: "rel_elements ?bs ?ts = Some es" and r: "r = unsplit False es" using rel abs by (auto simp: Rel_def)
  have "base \<noteq> []" using abs(1) by (auto simp: IsAbs_def)
  moreover have "r \<noteq> []"
  proof (cases es)
    case (Cons e es')
    have "e \<noteq> []" using rel_elements_elements [OF es clean_absolute_plain] Cons by (simp add: element_def)
    then show ?thesis by (cases es') (simp_all add: r Cons unsplit_def)
  qed (simp add: r unsplit_def)
  ultimately have "path_Join [base, r] = Clean (base @ slash # r)" by (simp add: path_Join_def)
  also have "\<dots> = unsplit True (clean_elements True (base @ slash # r))"
    using abs(1) by (cases base) (auto simp: Clean_def IsAbs_def)
  also have "clean_elements True (base @ slash # r) = ?ts"
  proof -
    have "foldl (clean_step True) (foldl (clean_step True) [] (Split base slash)) (Split r slash) = rev ?ts"
    proof (cases "es = []")
      case True
      then show ?thesis using rel_elements_rejoin [OF es clean_absolute_plain clean_absolute_plain, of True "[]"]
        by (simp add: r unsplit_def clean_elements_def)
    next
      case False
      then have "Split r slash = es" using Split_Join [OF False] rel_elements_elements [OF es clean_absolute_plain]
        by (simp add: r unsplit_def list_all_iff element_def)
      then show ?thesis using rel_elements_rejoin [OF es clean_absolute_plain clean_absolute_plain, of True "[]"] by (simp add: clean_elements_def)
    qed
    then show ?thesis by (simp add: clean_elements_def Split_append)
  qed
  finally show ?thesis using abs(2) by (simp add: Clean_def)
qed

section \<open>What is watched\<close>

lemma resolve_relative: "IsAbs location \<Longrightarrow> IsAbs dir \<Longrightarrow> Rel location dir = Some r \<Longrightarrow> resolveMigrationPath location r = Clean dir"
proof -
  assume abs: "IsAbs location" "IsAbs dir" and rel: "Rel location dir = Some r"
  have "\<not> IsAbs r"
  proof -
    obtain es where es: "rel_elements (clean_elements True location) (clean_elements True dir) = Some es" and r: "r = unsplit False es"
      using rel abs by (auto simp: Rel_def)
    show ?thesis
    proof (cases es)
      case (Cons e es')
      then obtain c e' where "e = c # e'" "c \<noteq> slash"
        using rel_elements_elements [OF es clean_absolute_plain, of e] by (cases e) (auto simp: element_def)
      then show ?thesis using Cons by (cases es') (simp_all add: r unsplit_def IsAbs_def)
    qed (simp add: r unsplit_def IsAbs_def)
  qed
  then show ?thesis using Rel_rejoin [OF abs rel] by (simp add: resolveMigrationPath_def)
qed

lemma add_sources_covers:
  assumes "IsAbs location" and "\<forall>m \<in> set srcs. IsAbs (src_dir m)"
  shows "\<exists>added. add_sources location watched srcs = Inr added \<and>
    set watched \<union> set (watched_paths location added) = set watched \<union> (\<lambda>m. Clean (src_dir m)) ` set srcs \<and>
    distinct (watched_paths location added) \<and> set (watched_paths location added) \<inter> set watched = {} \<and>
    (\<forall>c \<in> set added. wc_select c = Some ''*.sql'')"
  using assms(2)
proof (induction srcs arbitrary: watched)
  case (Cons m srcs)
  let ?dir = "Clean (src_dir m)"
  show ?case
  proof (cases "?dir \<in> set watched")
    case True
    then show ?thesis using Cons.IH [of watched] Cons.prems by auto
  next
    case False
    have "IsAbs ?dir" using Cons.prems by (simp add: Clean_absolute)
    then obtain r where r: "Rel location ?dir = Some r" "resolveMigrationPath location r = ?dir"
      using Rel_absolute [OF assms(1)] resolve_relative [OF assms(1)] by (metis Clean_idem)
    obtain added where "add_sources location (?dir # watched) srcs = Inr added"
      "set (?dir # watched) \<union> set (watched_paths location added) = set (?dir # watched) \<union> (\<lambda>m. Clean (src_dir m)) ` set srcs"
      "distinct (watched_paths location added)" "set (watched_paths location added) \<inter> set (?dir # watched) = {}"
      "\<forall>c \<in> set added. wc_select c = Some ''*.sql''" using Cons.IH [of "?dir # watched"] Cons.prems by auto
    then show ?thesis using False r by (auto simp: Let_def watched_paths_def)
  qed
qed (simp add: watched_paths_def)

text \<open>
  Every lineage is followed, once. For a service at an absolute location whose sources are absolute, the watch set
  can be built, keeps the fixed components, and what the watcher then looks at is exactly the fixed paths and the directory of every
  resolved source, each added directory a new one and only for its SQL files.
\<close>

theorem watch_set_exact:
  assumes "resolveMigrationSources F Local s = Inr (srcs, skips)" and "IsAbs (Location s)" and "\<forall>m \<in> set srcs. IsAbs (src_dir m)"
  shows "\<exists>added. migrationWatchRequirements F Local s = Inr (requirements @ added) \<and>
    set (watched_paths (Location s) (requirements @ added)) = set (watched_paths (Location s) requirements) \<union> (\<lambda>m. Clean (src_dir m)) ` set srcs \<and>
    distinct (watched_paths (Location s) added) \<and>
    set (watched_paths (Location s) added) \<inter> set (watched_paths (Location s) requirements) = {} \<and>
    (\<forall>c \<in> set added. wc_select c = Some ''*.sql'')"
  using add_sources_covers [OF assms(2,3), of "watched_paths (Location s) requirements"] assms(1)
  by (auto simp: migrationWatchRequirements_def watched_paths_def)

end
