(* ===== verification/ConnectTimeout.thy ===== *)
theory ConnectTimeout
  imports BootConnection Timeouts
begin

text \<open>
  \<open>withConnectTimeout\<close> of \<open>timeouts.go\<close>: the budget of every connection the agent opens, written into its connection
  string, which \<open>Lifecycle\<close> takes with the rewriting of a query as a parameter. The URL parser and printer are those of \<open>BootConnection\<close>.
\<close>

definition with_connect_timeout :: "connector \<Rightarrow> string \<Rightarrow> int \<Rightarrow> string option" where
  "with_connect_timeout C dsn duration =
     (case net_Parse C dsn of
        None \<Rightarrow> None
      | Some parsed \<Rightarrow>
          Some (reprint C parsed (Values_Set ''connect_timeout'' (Sprint_int (quot duration time_Second)) (Query (RawQuery parsed)))))"

text \<open>
  With validated settings the string names the configured number of seconds, positive, whatever it named before; the rest
  of the URL and every other parameter of the query stay.
\<close>

theorem connect_timeout_settled:
  assumes laws: "url_round_trip C" and parsed: "net_Parse C dsn = Some u" "hierarchical u" and valid: "validate_timeouts t = None"
  shows "\<exists>dsn' u'. with_connect_timeout C dsn (connect_budget t) = Some dsn' \<and> net_Parse C dsn' = Some u' \<and>
    u'\<lparr>RawQuery := RawQuery u\<rparr> = u \<and> 0 < seconds (Connect t) 5 \<and>
    Values_Get (Query (RawQuery u')) ''connect_timeout'' = Itoa (nat (seconds (Connect t) 5)) \<and>
    (\<forall>k. k \<noteq> ''connect_timeout'' \<longrightarrow> map_of (Query (RawQuery u')) k = map_of (Query (RawQuery u)) k)"
proof -
  let ?q = "Values_Set ''connect_timeout'' (Sprint_int (quot (connect_budget t) time_Second)) (Query (RawQuery u))"
  have b: "connect_budget t = seconds (Connect t) 5 * 10 ^ 9" "0 < connect_budget t" using timeouts_budgets_exact [OF valid] by blast+
  then have pos: "0 < seconds (Connect t) 5" by simp
  have "quot (connect_budget t) time_Second = seconds (Connect t) 5" using b by (simp add: quot_pos time_Second_def)
  then have shown: "Sprint_int (quot (connect_budget t) time_Second) = Itoa (nat (seconds (Connect t) 5))" using pos by (simp add: Sprint_int_def)
  have "net_Parse C (reprint C u ?q) = Some (u\<lparr>RawQuery := Values_Encode ?q\<rparr>)"
    using laws parsed unfolding url_round_trip_def by blast
  moreover have "well_values ?q" by simp
  note q = Values_round_trip [OF this]
  ultimately show ?thesis
    using pos shown parsed(1)
    by (intro exI [of _ "reprint C u ?q"] exI [of _ "u\<lparr>RawQuery := Values_Encode ?q\<rparr>"])
      (simp add: with_connect_timeout_def q(3,4) map_of_Values_Set)
qed

end
